(* ===== verification/Soc_Prelude.thy ===== *)
theory Soc_Prelude
  imports Main "HOL-Library.Word"
begin

unbundle bit_operations_syntax

text \<open>
  Shared vocabulary of the development.

  \<^item> the fixed-width integers of the C++ sources (\<open>uint8_t\<close> .. \<open>uint64_t\<close>);
  \<^item> big-endian byte codecs that several components carry a copy of;
  \<^item> bitwise extensionality rules for 8-bit and 32-bit words, which let \<open>auto\<close> close
    mask-and-shift goals by looking at each bit;
  \<^item> the bytes of a serial line that idles high at the end of what it has to send;
  \<^item> \<open>step_machine\<close>: the contract of a component whose operations keep an invariant, with the
    lemma that every finite run keeps it;
  \<^item> \<open>poll_loop\<close>: the contract of a counted polling loop, with what it returns;
  \<^item> \<open>byte_store\<close>: the contract of byte-addressed storage, with the multi-byte big-endian
    accesses derived from it.
\<close>

section \<open>Machine integers\<close>

type_synonym u8 = "8 word"
type_synonym u16 = "16 word"
type_synonym u32 = "32 word"
type_synonym u64 = "64 word"

named_theorems soc_defs "unfolding rules of the component models"
named_theorems soc_inv "facts about component invariants"

lemma word8_eqI:
  fixes x y :: u8
  assumes "\<And>n. n \<in> {0, 1, 2, 3, 4, 5, 6, 7} \<Longrightarrow> bit x n = bit y n"
  shows "x = y"
proof (rule bit_word_eqI)
  fix n :: nat
  assume "n < LENGTH(8)"
  then have "n \<in> {0, 1, 2, 3, 4, 5, 6, 7}" by simp arith
  then show "bit x n = bit y n" by (rule assms)
qed

lemma word32_byte_cases:
  fixes n :: nat
  assumes "n < 32"
  obtains k where "k < 8" and "n = k"
        | k where "k < 8" and "n = 8 + k"
        | k where "k < 8" and "n = 16 + k"
        | k where "k < 8" and "n = 24 + k"
proof -
  consider "n < 8" | "8 \<le> n \<and> n < 16" | "16 \<le> n \<and> n < 24" | "24 \<le> n" by linarith
  then show ?thesis
  proof cases
    case 1 then show ?thesis using that(1) by blast
  next
    case 2 then show ?thesis using that(2) [of "n - 8"] by simp
  next
    case 3 then show ?thesis using that(3) [of "n - 16"] by simp
  next
    case 4 then show ?thesis using that(4) [of "n - 24"] assms by simp
  qed
qed

lemma bit_u8_ge [simp]: "8 \<le> n \<Longrightarrow> \<not> bit (w :: u8) n"
  using bit_imp_le_length [of w n] by auto

lemma bit_u32_ge [simp]: "32 \<le> n \<Longrightarrow> \<not> bit (w :: u32) n"
  using bit_imp_le_length [of w n] by auto

lemma and_bit_0 [simp]: "(x AND 1 = 0) = (\<not> bit (x :: 'a :: len word) 0)"
  using and_exp_eq_0_iff_not_bit [of x 0] by simp

lemma unat_and_le: "unat (x AND m) \<le> unat m" for x m :: "'a :: len word"
  by (simp add: word_le_nat_alt [symmetric] word_and_le1)

lemma unat_u8_less: "unat (x :: u8) < 256"
  using unsigned_less [of x, where ?'a = nat] by simp

lemma unat_ucast_u8_u32 [simp]: "unat (ucast (x :: u8) :: u32) = unat x"
  by (simp add: unsigned_ucast_eq take_bit_eq_mod less_trans [OF unat_u8_less])

text \<open>A C++ boolean used as a number.\<close>

definition b2w :: "bool \<Rightarrow> 'a :: len word" where
  "b2w b = (if b then 1 else 0)"

lemma bit_b2w [simp]: "bit (b2w b :: 'a :: len word) n \<longleftrightarrow> b \<and> n = 0"
  by (auto simp: b2w_def bit_1_iff)

text \<open>A comma-separated argument, as \<open>std::getline\<close> cuts it: the pieces between commas, without a last
  piece that is empty.\<close>

fun getline_commas :: "string \<Rightarrow> string \<Rightarrow> string list" where
  "getline_commas acc [] = (if acc = [] then [] else [rev acc])"
| "getline_commas acc (c # cs) =
     (if c = CHR '','' then rev acc # getline_commas [] cs else getline_commas (c # acc) cs)"

text \<open>A byte on a serial line, most significant bit first, and the register it is shifted into.\<close>

definition byte_bits :: "u8 \<Rightarrow> bool list" where
  "byte_bits w = map (bit w) [7, 6, 5, 4, 3, 2, 1, 0]"

definition shift_in :: "u8 \<Rightarrow> bool \<Rightarrow> u8" where
  "shift_in w b = push_bit 1 w OR b2w b"

lemma bit_shift_in: "bit (shift_in x m) n \<longleftrightarrow> (if n = 0 then m else n < 8 \<and> bit x (n - 1))"
  unfolding shift_in_def bit_or_iff bit_push_bit_iff bit_b2w by auto

section \<open>Big-endian byte codecs\<close>

definition be16 :: "u8 \<Rightarrow> u8 \<Rightarrow> u32" where
  "be16 a b = push_bit 8 (ucast a) OR ucast b"

definition be_word :: "u8 \<Rightarrow> u8 \<Rightarrow> u8 \<Rightarrow> u8 \<Rightarrow> u32" where
  "be_word a b c d =
     push_bit 24 (ucast a) OR push_bit 16 (ucast b) OR push_bit 8 (ucast c) OR ucast d"

lemma be_word_bytes [simp]:
  "ucast (drop_bit 24 (be_word a b c d)) = a"
  "ucast (drop_bit 16 (be_word a b c d)) = b"
  "ucast (drop_bit 8 (be_word a b c d)) = c"
  "ucast (be_word a b c d) = d"
  unfolding be_word_def by (rule bit_word_eqI, auto simp: bit_simps)+

lemma be_word_of_bytes [simp]:
  "be_word (ucast (drop_bit 24 v)) (ucast (drop_bit 16 v)) (ucast (drop_bit 8 v)) (ucast v) = v"
proof (rule bit_word_eqI)
  fix n
  assume "n < LENGTH(32)"
  then have "n < 32" by simp
  then show "bit (be_word (ucast (drop_bit 24 v)) (ucast (drop_bit 16 v))
                 (ucast (drop_bit 8 v)) (ucast v)) n = bit v n"
    by (cases n rule: word32_byte_cases) (auto simp: be_word_def bit_simps)
qed

lemma be_word_inject [simp]:
  "be_word a b c d = be_word a' b' c' d' \<longleftrightarrow> a = a' \<and> b = b' \<and> c = c' \<and> d = d'"
  by (metis be_word_bytes)

lemma be16_bytes [simp]:
  "ucast (drop_bit 8 (be16 a b)) = a"
  "ucast (be16 a b) = b"
  unfolding be16_def by (rule bit_word_eqI, auto simp: bit_simps)+

lemma be16_of_bytes: "be16 (ucast (drop_bit 8 v)) (ucast v) = v AND 0xFFFF"
proof (rule bit_word_eqI)
  fix n
  assume "n < LENGTH(32)"
  then have "n < 32" by simp
  have m: "(0xFFFF :: u32) = mask 16" by (simp add: mask_eq_exp_minus_1)
  from \<open>n < 32\<close> show "bit (be16 (ucast (drop_bit 8 v)) (ucast v)) n = bit (v AND 0xFFFF) n"
    unfolding m by (cases n rule: word32_byte_cases) (auto simp: be16_def bit_simps)
qed

section \<open>A serial line that idles high\<close>

text \<open>The first bytes of a stream that idles high at its end.\<close>

definition padded :: "nat \<Rightarrow> u8 list \<Rightarrow> u8 list" where
  "padded n xs = take n xs @ replicate (n - length xs) 0xFF"

lemma padded_rules: "padded 0 xs = []" "padded (Suc n) xs = hd (xs @ [0xFF]) # padded n (tl xs)"
  by (cases xs; simp add: padded_def)+

lemma padded_append: "padded m xs @ padded n (drop m xs) = padded (m + n) xs"
  by (induction m arbitrary: xs) (simp_all add: padded_rules drop_Suc)

section \<open>Components that keep an invariant\<close>

text \<open>
  Every stateful device of the harness is a step function over an input alphabet.  A component
  theory proves that one step keeps its invariant and interprets this locale; the run lemma and
  its prefix form then hold for the component.
\<close>

locale step_machine =
  fixes step :: "'s \<Rightarrow> 'i \<Rightarrow> 's"
    and inv :: "'s \<Rightarrow> bool"
  assumes step_inv: "inv s \<Longrightarrow> inv (step s i)"
begin

lemma run_inv: "inv s \<Longrightarrow> inv (foldl step s is)"
  by (induction "is" arbitrary: s) (simp_all add: step_inv)

lemma run_prefix_inv: "inv s \<Longrightarrow> inv (foldl step s (take n is))"
  by (rule run_inv)

end

text \<open>A quantity that no step changes is not changed by a run.\<close>

locale step_frame =
  fixes step :: "'s \<Rightarrow> 'i \<Rightarrow> 's"
    and obs :: "'s \<Rightarrow> 'o"
  assumes step_obs: "obs (step s i) = obs s"
begin

lemma run_obs: "obs (foldl step s is) = obs s"
  by (induction "is" arbitrary: s) (simp_all add: step_obs)

end

section \<open>Bounded polling\<close>

text \<open>
  The bus masters of the sources poll for a handshake in a counted loop: each turn tests the state
  and either answers or goes on, and the exhausted count gives a timeout.  The laws are the two
  equations of such a loop; they determine it: the answer is the one of the first turn that sees the
  handshake, and there is a timeout exactly when no turn does.
\<close>

locale poll_loop =
  fixes loop :: "nat \<Rightarrow> nat \<Rightarrow> 's \<Rightarrow> 'r"
    and hs :: "'s \<Rightarrow> bool"
    and turn :: "'s \<Rightarrow> 's"
    and answer :: "nat \<Rightarrow> 's \<Rightarrow> 'r"
    and timeout :: "'s \<Rightarrow> 'r"
  assumes loop_0: "loop i 0 st = timeout st"
    and loop_Suc: "loop i (Suc left) st =
          (if hs st then answer i st else loop (i + 1) left (turn st))"
begin

lemma loop_answer:
  assumes "n < left" and "hs ((turn ^^ n) st)" and "\<And>j. j < n \<Longrightarrow> \<not> hs ((turn ^^ j) st)"
  shows "loop i left st = answer (i + n) ((turn ^^ n) st)"
  using assms
proof (induction n arbitrary: i left st)
  case 0 then show ?case by (cases left) (simp_all add: loop_Suc)
next
  case (Suc n)
  obtain l where l: "left = Suc l" using Suc.prems(1) by (cases left) auto
  have "\<not> hs st" using Suc.prems(3) [of 0] by simp
  moreover have "loop (i + 1) l (turn st) = answer (i + 1 + n) ((turn ^^ n) (turn st))"
    using Suc.prems Suc.prems(3) [of "Suc j" for j] l
    by (intro Suc.IH) (simp_all add: funpow_Suc_right del: funpow.simps)
  ultimately show ?case
    using l by (simp add: loop_Suc funpow_Suc_right del: funpow.simps)
qed

lemma loop_timeout:
  assumes "\<And>j. j < left \<Longrightarrow> \<not> hs ((turn ^^ j) st)"
  shows "loop i left st = timeout ((turn ^^ left) st)"
  using assms
proof (induction left arbitrary: i st)
  case 0 then show ?case by (simp add: loop_0)
next
  case (Suc l)
  have "\<not> hs st" using Suc.prems [of 0] by simp
  moreover have "loop (i + 1) l (turn st) = timeout ((turn ^^ l) (turn st))"
    using Suc.prems [of "Suc j" for j]
    by (intro Suc.IH) (simp add: funpow_Suc_right del: funpow.simps)
  ultimately show ?case
    by (simp add: loop_Suc funpow_Suc_right del: funpow.simps)
qed

lemma loop_outcome:
  "(\<exists>n < left. hs ((turn ^^ n) st) \<and> (\<forall>j < n. \<not> hs ((turn ^^ j) st)) \<and>
      loop i left st = answer (i + n) ((turn ^^ n) st)) \<or>
   (\<forall>j < left. \<not> hs ((turn ^^ j) st)) \<and> loop i left st = timeout ((turn ^^ left) st)"
proof (cases "\<exists>n < left. hs ((turn ^^ n) st)")
  case True
  define n where "n = (LEAST n. hs ((turn ^^ n) st))"
  have n: "hs ((turn ^^ n) st)" "n < left"
    using True LeastI [of "\<lambda>n. hs ((turn ^^ n) st)"] Least_le [of "\<lambda>n. hs ((turn ^^ n) st)"]
    unfolding n_def by (blast, meson le_less_trans)
  moreover have "\<not> hs ((turn ^^ j) st)" if "j < n" for j
    using that not_less_Least unfolding n_def by blast
  ultimately show ?thesis using loop_answer [of n left st i] by blast
next
  case False
  then show ?thesis using loop_timeout [of left st i] by blast
qed

end

section \<open>Byte-addressed storage\<close>

text \<open>
  The contract every byte store of the sources meets: a store to one address is read back there
  and nowhere else.  Multi-byte big-endian accesses are compositions of byte accesses, so their
  read-after-write law needs the addresses of the bytes to differ and nothing more.
\<close>

locale byte_store =
  fixes rd :: "'m \<Rightarrow> u32 \<Rightarrow> u8"
    and wr :: "'m \<Rightarrow> u32 \<Rightarrow> u8 \<Rightarrow> 'm"
    and valid :: "u32 \<Rightarrow> bool"
  assumes rd_wr: "valid a \<Longrightarrow> valid b \<Longrightarrow> rd (wr m a v) b = (if a = b then v else rd m b)"
begin

definition rd16 :: "'m \<Rightarrow> u32 \<Rightarrow> u32" where
  "rd16 m a = be16 (rd m a) (rd m (a + 1))"

definition rd32 :: "'m \<Rightarrow> u32 \<Rightarrow> u32" where
  "rd32 m a = be_word (rd m a) (rd m (a + 1)) (rd m (a + 2)) (rd m (a + 3))"

definition wr16 :: "'m \<Rightarrow> u32 \<Rightarrow> u32 \<Rightarrow> 'm" where
  "wr16 m a v = wr (wr m a (ucast (drop_bit 8 v))) (a + 1) (ucast v)"

definition wr32 :: "'m \<Rightarrow> u32 \<Rightarrow> u32 \<Rightarrow> 'm" where
  "wr32 m a v =
     wr (wr (wr (wr m a (ucast (drop_bit 24 v))) (a + 1) (ucast (drop_bit 16 v)))
        (a + 2) (ucast (drop_bit 8 v))) (a + 3) (ucast v)"

lemma rd16_wr16:
  "valid a \<Longrightarrow> valid (a + 1) \<Longrightarrow> rd16 (wr16 m a v) a = v AND 0xFFFF"
  by (simp add: rd16_def wr16_def rd_wr be16_of_bytes)

lemma rd32_wr32:
  "valid a \<Longrightarrow> valid (a + 1) \<Longrightarrow> valid (a + 2) \<Longrightarrow> valid (a + 3) \<Longrightarrow> rd32 (wr32 m a v) a = v"
  by (simp add: rd32_def wr32_def rd_wr)

lemma rd_wr32_other:
  "valid a \<Longrightarrow> valid (a + 1) \<Longrightarrow> valid (a + 2) \<Longrightarrow> valid (a + 3) \<Longrightarrow> valid b \<Longrightarrow>
   b \<notin> {a, a + 1, a + 2, a + 3} \<Longrightarrow> rd (wr32 m a v) b = rd m b"
  by (auto simp: wr32_def rd_wr)

lemma rd_wr16_other:
  "valid a \<Longrightarrow> valid (a + 1) \<Longrightarrow> valid b \<Longrightarrow> b \<notin> {a, a + 1} \<Longrightarrow> rd (wr16 m a v) b = rd m b"
  by (auto simp: wr16_def rd_wr)

end

end
