(* ===== verification/Bridge_Wire.thy ===== *)
theory Bridge_Wire
  imports Soc_Prelude
begin

text \<open>
  The wire protocol of the MAME bridges (\<open>tools/mame_axi_periph_bridge.cpp\<close>), the client that
  speaks it (\<open>tools/mame_rtl_bridge_protocol.py\<close>), the Quadra 700 address windows and the lane
  arithmetic that turns a request into AXI write data and byte strobes and back.

  C++ output parameters become result tuples: \<open>decode_request\<close> returns the verdict together with
  the request as far as it was filled in, because \<open>serve\<close> looks at the version of a request whose
  decoding failed.
\<close>

section \<open>Protocol constants and messages\<close>

definition OP_READ :: u8 where "OP_READ = 1"
definition OP_WRITE :: u8 where "OP_WRITE = 2"
definition RESP_OKAY :: u8 where "RESP_OKAY = 0"
definition RESP_SLVERR :: u8 where "RESP_SLVERR = 2"
definition RESP_DECERR :: u8 where "RESP_DECERR = 3"
definition RESP_TIMEOUT :: u8 where "RESP_TIMEOUT = 4"
definition MAX_WAIT_CYCLES :: nat where "MAX_WAIT_CYCLES = 256"
definition VRAM_BASE :: u32 where "VRAM_BASE = 0xf9000000"
definition VRAM_SIZE :: u32 where "VRAM_SIZE = 0x00200000"

lemmas wire_consts [soc_defs] =
  OP_READ_def OP_WRITE_def RESP_OKAY_def RESP_SLVERR_def RESP_DECERR_def RESP_TIMEOUT_def
  VRAM_BASE_def VRAM_SIZE_def

record request =
  rq_version :: u8
  rq_op :: u8
  rq_size :: u8
  rq_wstrb :: u8
  rq_addr :: u32
  rq_data :: u32
  rq_pc :: u32
  rq_cpu_cycles :: u32
  rq_has_cpu_cycles :: bool

record response =
  rs_resp :: u8
  rs_data :: u32
  rs_cycles :: u32
  rs_irq_bitmap :: u8

definition empty_request :: request where
  "empty_request = \<lparr>rq_version = 0, rq_op = 0, rq_size = 0, rq_wstrb = 0, rq_addr = 0,
     rq_data = 0, rq_pc = 0, rq_cpu_cycles = 0, rq_has_cpu_cycles = False\<rparr>"

definition mk_response :: "u8 \<Rightarrow> u32 \<Rightarrow> u32 \<Rightarrow> u8 \<Rightarrow> response" where
  "mk_response r d c irq = \<lparr>rs_resp = r, rs_data = d, rs_cycles = c, rs_irq_bitmap = irq\<rparr>"

lemma mk_response_sel [simp]:
  "rs_resp (mk_response r d c irq) = r" "rs_data (mk_response r d c irq) = d"
  "rs_cycles (mk_response r d c irq) = c" "rs_irq_bitmap (mk_response r d c irq) = irq"
  by (simp_all add: mk_response_def)

section \<open>Byte order\<close>

definition be32 :: "u8 list \<Rightarrow> u32" where
  "be32 p = be_word (p ! 0) (p ! 1) (p ! 2) (p ! 3)"

definition put_be32 :: "u32 \<Rightarrow> u8 list" where
  "put_be32 v = [ucast (drop_bit 24 v), ucast (drop_bit 16 v), ucast (drop_bit 8 v), ucast v]"

lemma length_put_be32 [simp]: "length (put_be32 v) = 4"
  by (simp add: put_be32_def)

lemma be32_put_be32 [simp]: "be32 (put_be32 v @ rest) = v"
  by (simp add: be32_def put_be32_def)

lemma be32_put_be32_Nil [simp]: "be32 (put_be32 v) = v"
  by (simp add: be32_def put_be32_def)

section \<open>Requests and responses on the wire\<close>

definition MAGIC :: "u8 list" where
  "MAGIC = [0x4D, 0x52, 0x54, 0x42]"

definition decode_request :: "u8 list \<Rightarrow> bool \<times> request" where
  "decode_request raw =
     (if take 4 raw \<noteq> MAGIC then (False, empty_request)
      else
        let req = empty_request\<lparr>rq_version := raw ! 4, rq_op := raw ! 5, rq_size := raw ! 6,
                    rq_wstrb := raw ! 7, rq_addr := be32 (drop 8 raw),
                    rq_data := be32 (drop 12 raw), rq_pc := be32 (drop 16 raw)\<rparr>
        in if rq_version req \<noteq> 1 \<and> rq_version req \<noteq> 2 then (False, req)
           else if rq_op req \<noteq> OP_READ \<and> rq_op req \<noteq> OP_WRITE then (False, req)
           else if rq_size req \<noteq> 1 \<and> rq_size req \<noteq> 2 \<and> rq_size req \<noteq> 4 then (False, req)
           else (True, req))"

definition decode_request_v2_tail :: "u8 list \<Rightarrow> request \<Rightarrow> request" where
  "decode_request_v2_tail raw_tail req =
     req\<lparr>rq_cpu_cycles := be32 raw_tail, rq_has_cpu_cycles := True\<rparr>"

definition encode_response :: "response \<Rightarrow> u8 list" where
  "encode_response r =
     MAGIC @ [1, rs_resp r, rs_irq_bitmap r, 0] @ put_be32 (rs_data r) @ put_be32 (rs_cycles r)"

text \<open>The client side: \<open>Request.pack\<close> and \<open>Response.unpack\<close> of the Python module.  The fields are
  already reduced to their widths; \<open>ValueError\<close> is \<open>None\<close>.\<close>

definition py_VERSION :: u8 where "py_VERSION = 2"

definition py_request_pack :: "u8 \<Rightarrow> u8 \<Rightarrow> u32 \<Rightarrow> u32 \<Rightarrow> u8 \<Rightarrow> u32 \<Rightarrow> u32 \<Rightarrow> u8 list" where
  "py_request_pack op sz addr data wstrb pc cpu_cycles =
     MAGIC @ [py_VERSION, op, sz, wstrb] @ put_be32 addr @ put_be32 data @ put_be32 pc @
     put_be32 cpu_cycles"

definition py_response_unpack :: "u8 list \<Rightarrow> (u8 \<times> u32 \<times> u32) option" where
  "py_response_unpack payload =
     (if length payload \<noteq> 16 then None
      else if take 4 payload \<noteq> MAGIC then None
      else if payload ! 4 \<noteq> 1 \<and> payload ! 4 \<noteq> py_VERSION then None
      else Some (payload ! 5, be32 (drop 8 payload), be32 (drop 12 payload)))"

section \<open>Address windows\<close>

datatype window = VIA1 | VIA2 | ENET | SONIC | SCC | SCSI | ASC | SWIM | VRAM | DAFB | OTHER

fun window_name :: "window \<Rightarrow> string" where
  "window_name VIA1 = ''via1''"
| "window_name VIA2 = ''via2''"
| "window_name ENET = ''enet''"
| "window_name SONIC = ''sonic''"
| "window_name SCC = ''scc''"
| "window_name SCSI = ''scsi''"
| "window_name ASC = ''asc''"
| "window_name SWIM = ''swim''"
| "window_name VRAM = ''vram''"
| "window_name DAFB = ''dafb''"
| "window_name OTHER = ''other''"

definition q700_io_offset :: "u32 \<Rightarrow> u32 option" where
  "q700_io_offset addr =
     (if drop_bit 24 addr \<noteq> 0x50 then None
      else
        let raw = addr AND 0x00ffffff; service_nibble = drop_bit 20 raw
        in if service_nibble = 0x1 \<or> service_nibble = 0x8 \<or> service_nibble = 0x9 then None
           else Some (raw AND NOT 0x00fc0000))"

definition window_of_offset :: "u32 \<Rightarrow> window" where
  "window_of_offset off =
     (if off < 0x002000 then VIA1
      else if off \<ge> 0x002000 \<and> off < 0x004000 then VIA2
      else if off \<ge> 0x008000 \<and> off < 0x008008 then ENET
      else if off \<ge> 0x00a000 \<and> off < 0x00b100 then SONIC
      else if off \<ge> 0x00c000 \<and> off < 0x00e000 then SCC
      else if off \<ge> 0x00f000 \<and> off < 0x00f102 then SCSI
      else if off \<ge> 0x014000 \<and> off < 0x016000 then ASC
      else if off \<ge> 0x01e000 \<and> off < 0x020000 then SWIM
      else OTHER)"

definition decode_window :: "u32 \<Rightarrow> window" where
  "decode_window addr =
     (if addr \<ge> VRAM_BASE \<and> addr < VRAM_BASE + VRAM_SIZE then VRAM
      else if addr \<ge> 0xf9800000 \<and> addr \<le> 0xf98003ff then DAFB
      else case q700_io_offset addr of None \<Rightarrow> OTHER | Some off \<Rightarrow> window_of_offset off)"

section \<open>Lanes\<close>

definition axi_resp_to_bridge :: "u8 \<Rightarrow> u8" where
  "axi_resp_to_bridge resp =
     (if resp = 0 then RESP_OKAY else if resp = 3 then RESP_DECERR else RESP_SLVERR)"

definition default_wstrb :: "u32 \<Rightarrow> u8 \<Rightarrow> u8" where
  "default_wstrb addr sz =
     (let lane = addr AND 0x3
      in if sz = 1 then push_bit (unat lane) 1
         else if sz = 2 then push_bit (unat (lane AND 0x2)) 0x3
         else 0xf)"

definition byte_shift :: "u32 \<Rightarrow> nat" where
  "byte_shift addr = unat ((addr AND 0x3) * 8)"

definition extract_sized :: "u32 \<Rightarrow> u32 \<Rightarrow> u8 \<Rightarrow> u32" where
  "extract_sized w addr sz =
     (if sz = 1 then drop_bit (byte_shift addr) w AND 0xff
      else if sz = 2 then drop_bit (unat ((addr AND 0x2) * 8)) w AND 0xffff
      else w)"

definition lane_replicate :: "u32 \<Rightarrow> u8 \<Rightarrow> u32" where
  "lane_replicate v sz =
     (if sz = 1 then (v AND 0xff) * 0x01010101
      else if sz = 2 then push_bit 16 (v AND 0xffff) OR (v AND 0xffff)
      else v)"

definition protocol_write_value :: "request \<Rightarrow> u32" where
  "protocol_write_value req =
     (if rq_size req = 1 then
        drop_bit (unat ((3 - (rq_addr req AND 0x3)) * 8)) (rq_data req) AND 0xff
      else if rq_size req = 2 then
        drop_bit (if rq_addr req AND 0x2 = 0 then 16 else 0) (rq_data req) AND 0xffff
      else rq_data req)"

text \<open>The 32-bit lane value \<open>axi_write\<close> drives, and the lane it drives it on.\<close>

definition write_lane_data :: "request \<Rightarrow> u32" where
  "write_lane_data req = push_bit (byte_shift (rq_addr req)) (protocol_write_value req)"

definition bus_lane :: "u32 \<Rightarrow> nat" where
  "bus_lane addr = unat (drop_bit 2 addr AND 0x3)"

section \<open>The codec\<close>

lemmas wire_layout = MAGIC_def put_be32_def be32_def py_VERSION_def empty_request_def

text \<open>C38 Wire round trip of requests: whatever the Python client packs for a legal operation and
  size, the bridge accepts: the first 20 bytes decode to that request with version 2, and the
  remaining 4 bytes, read because of that version, supply the CPU cycle count.\<close>

theorem request_roundtrip:
  assumes "op = OP_READ \<or> op = OP_WRITE" and "sz = 1 \<or> sz = 2 \<or> sz = 4"
  shows "let raw = py_request_pack op sz addr data wstrb pc cyc;
             (ok, req) = decode_request (take 20 raw)
         in length raw = 24 \<and> ok \<and> rq_version req = 2 \<and>
            decode_request_v2_tail (drop 20 raw) req =
              \<lparr>rq_version = 2, rq_op = op, rq_size = sz, rq_wstrb = wstrb, rq_addr = addr,
               rq_data = data, rq_pc = pc, rq_cpu_cycles = cyc, rq_has_cpu_cycles = True\<rparr>"
  using assms
  by (auto simp: decode_request_def decode_request_v2_tail_def py_request_pack_def wire_layout
      Let_def wire_consts)

theorem request_roundtrip_witness:
  "let raw = py_request_pack OP_WRITE 2 0x50f0c022 0x12345678 3 0x4080a000 7;
       (ok, req) = decode_request (take 20 raw)
   in length raw = 24 \<and> ok \<and> rq_version req = 2 \<and>
      decode_request_v2_tail (drop 20 raw) req =
        \<lparr>rq_version = 2, rq_op = OP_WRITE, rq_size = 2, rq_wstrb = 3, rq_addr = 0x50f0c022,
         rq_data = 0x12345678, rq_pc = 0x4080a000, rq_cpu_cycles = 7, rq_has_cpu_cycles = True\<rparr>"
  by (rule request_roundtrip) simp_all

text \<open>Wire round trip of responses: the client unpacks every response the bridge encodes to the
  same status, data and cycle count.\<close>

theorem response_roundtrip:
  "py_response_unpack (encode_response r) = Some (rs_resp r, rs_data r, rs_cycles r)"
  by (simp add: py_response_unpack_def encode_response_def wire_layout)

text \<open>Rejected requests: a frame is accepted exactly when its magic, version, operation and size
  are all legal, and a frame with a bad magic leaves the request at its defaults.\<close>

theorem decode_request_accepts_iff:
  "fst (decode_request raw) \<longleftrightarrow>
     take 4 raw = MAGIC \<and> (raw ! 4 = 1 \<or> raw ! 4 = 2) \<and>
     (raw ! 5 = OP_READ \<or> raw ! 5 = OP_WRITE) \<and> (raw ! 6 = 1 \<or> raw ! 6 = 2 \<or> raw ! 6 = 4)"
  by (auto simp: decode_request_def Let_def empty_request_def)

lemma decode_request_fields:
  assumes "take 4 raw = MAGIC"
  shows "snd (decode_request raw) =
     \<lparr>rq_version = raw ! 4, rq_op = raw ! 5, rq_size = raw ! 6, rq_wstrb = raw ! 7,
      rq_addr = be32 (drop 8 raw), rq_data = be32 (drop 12 raw), rq_pc = be32 (drop 16 raw),
      rq_cpu_cycles = 0, rq_has_cpu_cycles = False\<rparr>"
  using assms by (simp add: decode_request_def Let_def empty_request_def)

lemma length_encode_response [simp]: "length (encode_response r) = 16"
  by (simp add: encode_response_def MAGIC_def)

section \<open>Windows\<close>

lemma q700_io_offset_Some:
  "q700_io_offset a = Some off \<Longrightarrow> off = a AND 0x0003ffff \<and> drop_bit 24 a = 0x50"
  by (auto simp: q700_io_offset_def Let_def and.assoc split: if_splits)

lemma io_page_below_vram:
  fixes c :: u32
  assumes "drop_bit 24 c = 0x50"
  shows "c < VRAM_BASE" and "c < 0xf9800000"
proof -
  have "drop_bit 24 (unat c) = 0x50" using assms by (simp add: unat_drop_bit_eq [symmetric])
  then have "unat c div 2 ^ 24 = 0x50" by (simp add: drop_bit_eq_div)
  then show "c < VRAM_BASE" "c < 0xf9800000"
    by (auto simp: VRAM_BASE_def word_less_nat_alt)
qed

lemma decode_window_io:
  assumes "q700_io_offset a = Some off"
  shows "decode_window a = window_of_offset (a AND 0x0003ffff)"
  using q700_io_offset_Some [OF assms] io_page_below_vram [of a] assms
  by (auto simp: decode_window_def)

text \<open>I/O mirrors: two addresses of the I/O page that differ only in the mirror bits 23..18 (and
  that are not in one of the service nibbles, which are not I/O) select the same device.\<close>

theorem decode_window_mirror:
  assumes "q700_io_offset a = Some x" and "q700_io_offset b = Some y"
    and "a AND NOT 0x00fc0000 = b AND NOT 0x00fc0000"
  shows "decode_window a = decode_window b"
proof -
  have "(a AND NOT 0x00fc0000) AND 0x0003ffff = (b AND NOT 0x00fc0000) AND 0x0003ffff"
    using assms(3) by simp
  then have "a AND 0x0003ffff = b AND 0x0003ffff" by (simp add: and.assoc)
  then show ?thesis using assms(1,2) by (simp add: decode_window_io)
qed

theorem decode_window_mirror_witness:
  "decode_window 0x5000c020 = decode_window 0x50f0c020 \<and> decode_window 0x50f0c020 = SCC"
proof -
  have "decode_window 0x5000c020 = decode_window 0x50f0c020"
    by (rule decode_window_mirror [where x = "0xc020" and y = "0xc020"])
       (simp_all add: q700_io_offset_def)
  then show ?thesis
    by (simp add: decode_window_def q700_io_offset_def window_of_offset_def VRAM_BASE_def
        VRAM_SIZE_def)
qed

text \<open>The video aperture is exactly its 2 MiB range: no I/O address reaches it.\<close>

lemma window_of_offset_not_VRAM [simp]: "window_of_offset off \<noteq> VRAM" "window_of_offset off \<noteq> DAFB"
  by (simp_all add: window_of_offset_def)

lemma decode_window_VRAM_iff:
  "decode_window a = VRAM \<longleftrightarrow> 0xf9000000 \<le> a \<and> a < 0xf9200000"
  by (auto simp: decode_window_def VRAM_BASE_def VRAM_SIZE_def split: option.splits)

section \<open>Lane arithmetic\<close>

lemma and3_exhaust:
  fixes x :: u32
  obtains (a0) "x AND 3 = 0" "x AND 2 = 0" "x AND 1 = 0" "\<not> bit x 0" "\<not> bit x 1"
        | (a1) "x AND 3 = 1" "x AND 2 = 0" "x AND 1 = 1" "bit x 0" "\<not> bit x 1"
        | (a2) "x AND 3 = 2" "x AND 2 = 2" "x AND 1 = 0" "\<not> bit x 0" "bit x 1"
        | (a3) "x AND 3 = 3" "x AND 2 = 2" "x AND 1 = 1" "bit x 0" "bit x 1"
proof -
  have "unat (x AND 3) \<le> 3" using unat_and_le [of x 3] by simp
  then consider "unat (x AND 3) = 0" | "unat (x AND 3) = 1" | "unat (x AND 3) = 2"
    | "unat (x AND 3) = 3" by linarith
  then have c: "x AND 3 \<in> {0, 1, 2, 3}"
    by cases (auto simp: word_unat_eq_iff)
  have two: "x AND 2 = (x AND 3) AND 2" "x AND 1 = (x AND 3) AND 1" by (simp_all add: and.assoc)
  have b: "bit x 0 = bit (x AND 3) 0" "bit x 1 = bit (x AND 3) 1" by (simp_all add: bit_simps)
  show ?thesis
  proof (cases "x AND 3 = 0 \<or> x AND 3 = 1")
    case True then show ?thesis using two b that(1,2) by auto
  next
    case False
    then have "x AND 3 = 2 \<or> x AND 3 = 3" using c by auto
    then show ?thesis using two b that(3,4) by auto
  qed
qed

definition naturally_aligned :: "u32 \<Rightarrow> u8 \<Rightarrow> bool" where
  "naturally_aligned addr sz \<longleftrightarrow>
     sz = 1 \<or> sz = 2 \<and> \<not> bit addr 0 \<or> sz = 4 \<and> addr AND 3 = 0"

lemma low_masks: "(0xff :: u32) = mask 8" "(0xffff :: u32) = mask 16"
  by (simp_all add: mask_eq_exp_minus_1)

lemmas lane_defs = extract_sized_def write_lane_data_def byte_shift_def protocol_write_value_def
  low_masks

lemma extract_write_lane:
  assumes "naturally_aligned (rq_addr req) (rq_size req)"
  shows "extract_sized (write_lane_data req) (rq_addr req) (rq_size req) = protocol_write_value req"
  by (cases "rq_addr req" rule: and3_exhaust; insert assms; rule bit_word_eqI;
      auto simp: naturally_aligned_def lane_defs bit_simps)

lemma default_wstrb_lanes:
  assumes "naturally_aligned addr sz"
  shows "bit (default_wstrb addr sz) k \<longleftrightarrow>
     unat (addr AND 3) \<le> k \<and> k < unat (addr AND 3) + unat sz"
proof -
  consider "k = 0" | "k = 1" | "k = 2" | "k = 3" | "k = 4" | "k = 5" | "k = 6" | "k = 7" | "8 \<le> k"
    by linarith
  then show ?thesis
    by cases (cases addr rule: and3_exhaust; insert assms;
        auto simp: naturally_aligned_def default_wstrb_def)+
qed

text \<open>Lane agreement: for a naturally aligned request the strobes select exactly the bytes the
  request addresses, and the lanes they select carry the value of the request: reading the driven
  lane back through \<open>extract_sized\<close> yields it.\<close>

theorem write_lanes_carry_value:
  assumes "naturally_aligned (rq_addr req) (rq_size req)"
  shows "extract_sized (write_lane_data req) (rq_addr req) (rq_size req) = protocol_write_value req
     \<and> (\<forall>k. bit (default_wstrb (rq_addr req) (rq_size req)) k =
          (unat (rq_addr req AND 3) \<le> k \<and> k < unat (rq_addr req AND 3) + unat (rq_size req)))"
  using assms extract_write_lane default_wstrb_lanes by blast

theorem write_lanes_carry_value_witness:
  "let req = empty_request\<lparr>rq_size := 2, rq_addr := 0x5000a006, rq_data := 0x0101\<rparr>
   in extract_sized (write_lane_data req) (rq_addr req) (rq_size req) = protocol_write_value req
     \<and> (\<forall>k. bit (default_wstrb (rq_addr req) (rq_size req)) k =
          (unat (rq_addr req AND 3) \<le> k \<and> k < unat (rq_addr req AND 3) + unat (rq_size req)))"
  unfolding Let_def
  by (rule write_lanes_carry_value) (simp add: naturally_aligned_def)

text \<open>Misaligned halfwords: at an odd address the strobes still select the halfword lane, but the
  data is shifted by the byte offset: the low strobed lane carries zero, the other one the low byte,
  and the high byte of the value is outside the strobed lanes.\<close>

theorem odd_halfword_write_shifts_value:
  assumes "rq_size req = 2" and "bit (rq_addr req) 0"
  shows "extract_sized (write_lane_data req) (rq_addr req) 2 =
           push_bit 8 (protocol_write_value req) AND 0xffff"
  by (cases "rq_addr req" rule: and3_exhaust; insert assms; rule bit_word_eqI;
      auto simp: lane_defs bit_simps)

theorem odd_halfword_write_shifts_value_witness:
  "let req = empty_request\<lparr>rq_size := 2, rq_addr := 0x5000a001, rq_data := 0x12340000\<rparr>
   in protocol_write_value req = 0x1234 \<and>
      extract_sized (write_lane_data req) (rq_addr req) 2 = 0x3400"
proof -
  let ?r = "empty_request\<lparr>rq_size := 2, rq_addr := 0x5000a001, rq_data := 0x12340000\<rparr>"
  have v: "protocol_write_value ?r = 0x1234" by (simp add: protocol_write_value_def)
  have "extract_sized (write_lane_data ?r) (rq_addr ?r) 2 =
          push_bit 8 (protocol_write_value ?r) AND 0xffff"
    by (rule odd_halfword_write_shifts_value) simp_all
  with v show ?thesis by (simp add: Let_def)
qed

end
