(* ===== verification/Periph_Bridge.thy ===== *)
theory Periph_Bridge
  imports Bridge_Wire
begin

unbundle bit_operations_syntax

text \<open>
  The MAME peripheral bridge \<open>tools/mame_axi_periph_bridge.cpp\<close>: the Verilated design under test and
  its pins, the clock, the AXI master that turns a request into one bus transaction, the video memory
  backing, the CPU-time coupling, the statistics and the connection loop.

  The Verilated class is generated by the build and is a parameter: a record of two functions, \<open>eval\<close>
  (settle the design with the present input pins) and the output pins as a function of the settled
  state.  Nothing is assumed about it unless a theorem says so.  The process-wide variables of the
  C++ file are the record \<open>bridge\<close>; text printed on stdout is a list of line values.
\<close>

section \<open>The design under test\<close>

record periph_in =
  clk :: bool
  rst :: bool
  s_awid :: u8
  s_awaddr :: u32
  s_awlen :: u8
  s_awsize :: u8
  s_awburst :: u8
  s_awvalid :: bool
  s_wdata :: "u32 list"
  s_wstrb :: u16
  s_wlast :: bool
  s_wvalid :: bool
  s_bready :: bool
  s_arid :: u8
  s_araddr :: u32
  s_arlen :: u8
  s_arsize :: u8
  s_arburst :: u8
  s_arvalid :: bool
  s_rready :: bool
  scc_rx_a_valid :: bool
  scc_rx_a_data :: u8
  scc_rx_b_valid :: bool
  scc_rx_b_data :: u8
  scc_cts_a_n :: bool
  scc_dcd_a_n :: bool
  scc_sync_a_n :: bool
  scc_cts_b_n :: bool
  scc_dcd_b_n :: bool
  scc_sync_b_n :: bool

record periph_out =
  s_awready :: bool
  s_wready :: bool
  s_bvalid :: bool
  s_bresp :: u8
  s_arready :: bool
  s_rvalid :: bool
  s_rdata :: "u32 list"
  s_rresp :: u8
  via1_irq :: bool
  via2_irq :: bool
  scc_irq :: bool
  scsi_irq :: bool
  asc_irq :: bool
  iwm_irq :: bool
  scc_tx_a_valid :: bool
  scc_tx_a_data :: u8
  scc_tx_b_valid :: bool
  scc_tx_b_data :: u8

record 's periph_dut =
  du_eval :: "periph_in \<Rightarrow> 's \<Rightarrow> 's"
  du_out :: "'s \<Rightarrow> periph_out"

section \<open>Process state\<close>

record trace_stats =
  ts_total :: u64
  ts_reads :: u64
  ts_writes :: u64
  ts_window :: "window \<Rightarrow> u64"
  ts_last_addr :: u32
  ts_last_pc :: u32
  ts_last_data :: u32
  ts_last_op :: u8
  ts_last_size :: u8
  ts_last_resp :: u8
  ts_last_trace_pc :: u32
  ts_last_trace_window :: u32
  ts_scc_tx_a :: u64
  ts_scc_tx_b :: u64
  ts_scc_rx_a :: u64
  ts_scc_rx_b :: u64

datatype scc_channel = ChanA | ChanB

datatype bridge_line =
    SccTxLine scc_channel u8 u32 u64
  | SccRxLine scc_channel u8 u32 u64
  | StatsLine trace_stats request response u64
  | ProgressLine u64 window request u32 response u64

record 's bridge =
  br_pins :: periph_in
  br_dut :: 's
  br_sim_time :: u64
  br_trace_every :: u64
  br_cpu_cycle_scale :: u32
  br_max_cpu_advance :: u32
  br_trace_pc_change :: bool
  br_have_last_cpu_cycles :: bool
  br_last_cpu_cycles :: u32
  br_trace_scc_serial :: bool
  br_active_pc :: u32
  br_vram :: "(u32 \<Rightarrow> u8) option"
  br_scc_rx_a_bytes :: "u8 list"
  br_scc_rx_b_bytes :: "u8 list"
  br_scc_rx_a_pos :: nat
  br_scc_rx_b_pos :: nat
  br_stats :: trace_stats
  br_stdout :: "bridge_line list"

text \<open>The static initialisers of the process: the pins and the design are what the generated class
  starts with.\<close>

definition initial_stats :: trace_stats where
  "initial_stats = \<lparr>ts_total = 0, ts_reads = 0, ts_writes = 0, ts_window = (\<lambda>_. 0),
     ts_last_addr = 0, ts_last_pc = 0, ts_last_data = 0, ts_last_op = 0, ts_last_size = 0,
     ts_last_resp = 0, ts_last_trace_pc = 0xffffffff, ts_last_trace_window = 0xffffffff,
     ts_scc_tx_a = 0, ts_scc_tx_b = 0, ts_scc_rx_a = 0, ts_scc_rx_b = 0\<rparr>"

definition initial_bridge :: "periph_in \<Rightarrow> 's \<Rightarrow> 's bridge" where
  "initial_bridge pins s = \<lparr>br_pins = pins, br_dut = s, br_sim_time = 0, br_trace_every = 0,
     br_cpu_cycle_scale = 1, br_max_cpu_advance = 4096, br_trace_pc_change = False,
     br_have_last_cpu_cycles = False, br_last_cpu_cycles = 0, br_trace_scc_serial = False,
     br_active_pc = 0, br_vram = None, br_scc_rx_a_bytes = [], br_scc_rx_b_bytes = [],
     br_scc_rx_a_pos = 0, br_scc_rx_b_pos = 0, br_stats = initial_stats, br_stdout = []\<rparr>"

abbreviation dut_out :: "'s periph_dut \<Rightarrow> 's bridge \<Rightarrow> periph_out" where
  "dut_out M b \<equiv> du_out M (br_dut b)"

definition set_pins :: "(periph_in \<Rightarrow> periph_in) \<Rightarrow> 's bridge \<Rightarrow> 's bridge" where
  "set_pins f b = b\<lparr>br_pins := f (br_pins b)\<rparr>"

definition dut_eval :: "'s periph_dut \<Rightarrow> 's bridge \<Rightarrow> 's bridge" where
  "dut_eval M b = b\<lparr>br_dut := du_eval M (br_pins b) (br_dut b)\<rparr>"

definition irq_bitmap :: "'s periph_dut \<Rightarrow> 's bridge \<Rightarrow> u8" where
  "irq_bitmap M b =
     (let o' = dut_out M b
      in (if via1_irq o' then 0x01 else 0) OR (if via2_irq o' then 0x02 else 0) OR
         (if scc_irq o' then 0x04 else 0) OR (if scsi_irq o' then 0x08 else 0) OR
         (if asc_irq o' then 0x10 else 0) OR (if iwm_irq o' then 0x20 else 0))"

definition read_data_word :: "'s periph_dut \<Rightarrow> u32 \<Rightarrow> 's bridge \<Rightarrow> u32" where
  "read_data_word M addr b = s_rdata (dut_out M b) ! bus_lane addr"

definition clear_pins :: "periph_in \<Rightarrow> periph_in" where
  "clear_pins p = p\<lparr>s_awid := 0, s_awaddr := 0, s_awlen := 0, s_awsize := 0, s_awburst := 1,
     s_awvalid := False, s_wdata := [0, 0, 0, 0], s_wstrb := 0, s_wlast := True,
     s_wvalid := False, s_bready := True, s_arid := 0, s_araddr := 0, s_arlen := 0,
     s_arsize := 0, s_arburst := 1, s_arvalid := False, s_rready := True,
     scc_rx_a_valid := False, scc_rx_a_data := 0, scc_rx_b_valid := False, scc_rx_b_data := 0,
     scc_cts_a_n := True, scc_dcd_a_n := True, scc_sync_a_n := True,
     scc_cts_b_n := True, scc_dcd_b_n := True, scc_sync_b_n := True\<rparr>"

definition clear_inputs :: "'s bridge \<Rightarrow> 's bridge" where
  "clear_inputs = set_pins clear_pins"

section \<open>The clock\<close>

definition count_scc_tx :: "scc_channel \<Rightarrow> u8 \<Rightarrow> 's bridge \<Rightarrow> 's bridge" where
  "count_scc_tx ch d b =
     (let st = br_stats b;
          st' = (case ch of ChanA \<Rightarrow> st\<lparr>ts_scc_tx_a := ts_scc_tx_a st + 1\<rparr>
                          | ChanB \<Rightarrow> st\<lparr>ts_scc_tx_b := ts_scc_tx_b st + 1\<rparr>)
      in b\<lparr>br_stats := st',
           br_stdout := br_stdout b @
             (if br_trace_scc_serial b
              then [SccTxLine ch d (br_active_pc b) (br_sim_time b)] else [])\<rparr>)"

definition tick :: "'s periph_dut \<Rightarrow> 's bridge \<Rightarrow> 's bridge" where
  "tick M b =
     (let b1 = dut_eval M (set_pins (\<lambda>p. p\<lparr>clk := False\<rparr>) b);
          b2 = dut_eval M (set_pins (\<lambda>p. p\<lparr>clk := True\<rparr>) b1);
          b3 = b2\<lparr>br_sim_time := br_sim_time b2 + 1\<rparr>;
          o' = dut_out M b3;
          b4 = (if scc_tx_a_valid o' then count_scc_tx ChanA (scc_tx_a_data o') b3 else b3)
      in if scc_tx_b_valid o' then count_scc_tx ChanB (scc_tx_b_data o') b4 else b4)"

definition ticks :: "'s periph_dut \<Rightarrow> nat \<Rightarrow> 's bridge \<Rightarrow> 's bridge" where
  "ticks M n = (tick M ^^ n)"

definition reset_dut :: "'s periph_dut \<Rightarrow> 's bridge \<Rightarrow> 's bridge" where
  "reset_dut M b =
     (let b1 = set_pins (\<lambda>p. p\<lparr>rst := True\<rparr>) (clear_inputs b);
          b2 = ticks M 8 b1
      in tick M (set_pins (\<lambda>p. p\<lparr>rst := False\<rparr>) b2))"

definition inject_scc_rx :: "'s periph_dut \<Rightarrow> scc_channel \<Rightarrow> u8 \<Rightarrow> 's bridge \<Rightarrow> 's bridge" where
  "inject_scc_rx M ch d b =
     (let st = br_stats b;
          b1 = (case ch of
                  ChanA \<Rightarrow> (set_pins (\<lambda>p. p\<lparr>scc_rx_a_data := d, scc_rx_a_valid := True\<rparr>) b)
                            \<lparr>br_stats := st\<lparr>ts_scc_rx_a := ts_scc_rx_a st + 1\<rparr>\<rparr>
                | ChanB \<Rightarrow> (set_pins (\<lambda>p. p\<lparr>scc_rx_b_data := d, scc_rx_b_valid := True\<rparr>) b)
                            \<lparr>br_stats := st\<lparr>ts_scc_rx_b := ts_scc_rx_b st + 1\<rparr>\<rparr>);
          b2 = b1\<lparr>br_stdout := br_stdout b1 @
                 (if br_trace_scc_serial b1
                  then [SccRxLine ch d (br_active_pc b1) (br_sim_time b1)] else [])\<rparr>
      in set_pins (\<lambda>p. p\<lparr>scc_rx_a_valid := False, scc_rx_b_valid := False\<rparr>) (tick M b2))"

definition maybe_inject_scc_rx_after_status_read ::
    "'s periph_dut \<Rightarrow> request \<Rightarrow> 's bridge \<Rightarrow> 's bridge" where
  "maybe_inject_scc_rx_after_status_read M req b =
     (if rq_op req \<noteq> OP_READ \<or> decode_window (rq_addr req) \<noteq> SCC then b
      else case q700_io_offset (rq_addr req) of
             None \<Rightarrow> b
           | Some q700_off \<Rightarrow>
               let off = q700_off AND 0xfff
               in if off = 0x022 \<and> br_scc_rx_a_pos b < length (br_scc_rx_a_bytes b) then
                    inject_scc_rx M ChanA (br_scc_rx_a_bytes b ! br_scc_rx_a_pos b)
                      (b\<lparr>br_scc_rx_a_pos := br_scc_rx_a_pos b + 1\<rparr>)
                  else if off = 0x020 \<and> br_scc_rx_b_pos b < length (br_scc_rx_b_bytes b) then
                    inject_scc_rx M ChanB (br_scc_rx_b_bytes b ! br_scc_rx_b_pos b)
                      (b\<lparr>br_scc_rx_b_pos := br_scc_rx_b_pos b + 1\<rparr>)
                  else b)"

section \<open>AXI transactions\<close>

definition axi_size :: "u8 \<Rightarrow> u8" where
  "axi_size sz = (if sz = 1 then 0 else if sz = 2 then 1 else 2)"

text \<open>One turn of the read loop up to its return test: settle, sample the handshakes, clock, and drop
  the address once it was taken.\<close>

definition axi_read_turn :: "'s periph_dut \<Rightarrow> bool \<times> 's bridge \<Rightarrow> bool \<times> 's bridge" where
  "axi_read_turn M = (\<lambda>(ar_done, b).
     let b1 = dut_eval M b;
         ar_hs = s_arvalid (br_pins b1) \<and> s_arready (dut_out M b1);
         b2 = tick M b1
     in if \<not> ar_done \<and> ar_hs then (True, set_pins (\<lambda>p. p\<lparr>s_arvalid := False\<rparr>) b2)
        else (ar_done, b2))"

fun axi_read_loop ::
    "'s periph_dut \<Rightarrow> request \<Rightarrow> nat \<Rightarrow> nat \<Rightarrow> bool \<times> 's bridge \<Rightarrow> response \<times> 's bridge" where
  "axi_read_loop M req i 0 (ar_done, b) =
     (let b' = clear_inputs b
      in (mk_response RESP_TIMEOUT 0 (of_nat MAX_WAIT_CYCLES) (irq_bitmap M b'), b'))"
| "axi_read_loop M req i (Suc left) (ar_done, b) =
     (let b1 = dut_eval M b;
          r_hs = s_rvalid (dut_out M b1) \<and> s_rready (br_pins b1);
          v = extract_sized (read_data_word M (rq_addr req) b1) (rq_addr req) (rq_size req);
          resp = axi_resp_to_bridge (s_rresp (dut_out M b1));
          (ar_done', b3) = axi_read_turn M (ar_done, b)
      in if r_hs then
           let b4 = clear_inputs (tick M b3)
           in (mk_response resp (lane_replicate v (rq_size req)) (of_nat (i + 1))
                 (irq_bitmap M b4), b4)
         else axi_read_loop M req (i + 1) left (ar_done', b3))"

definition axi_read_setup :: "request \<Rightarrow> 's bridge \<Rightarrow> 's bridge" where
  "axi_read_setup req b =
     set_pins (\<lambda>p. p\<lparr>s_arid := 1, s_araddr := rq_addr req, s_arsize := axi_size (rq_size req),
                    s_arvalid := True, s_rready := True\<rparr>) (clear_inputs b)"

definition axi_read :: "'s periph_dut \<Rightarrow> request \<Rightarrow> 's bridge \<Rightarrow> response \<times> 's bridge" where
  "axi_read M req b = axi_read_loop M req 0 MAX_WAIT_CYCLES (False, axi_read_setup req b)"

definition axi_write_turn ::
    "'s periph_dut \<Rightarrow> bool \<times> bool \<times> 's bridge \<Rightarrow> bool \<times> bool \<times> 's bridge" where
  "axi_write_turn M = (\<lambda>(aw_done, w_done, b).
     let b1 = dut_eval M b;
         aw_hs = s_awvalid (br_pins b1) \<and> s_awready (dut_out M b1);
         w_hs = s_wvalid (br_pins b1) \<and> s_wready (dut_out M b1);
         b2 = tick M b1;
         b3 = (if \<not> aw_done \<and> aw_hs then set_pins (\<lambda>p. p\<lparr>s_awvalid := False\<rparr>) b2 else b2);
         b4 = (if \<not> w_done \<and> w_hs then set_pins (\<lambda>p. p\<lparr>s_wvalid := False\<rparr>) b3 else b3)
     in (aw_done \<or> aw_hs, w_done \<or> w_hs, b4))"

fun axi_write_loop ::
    "'s periph_dut \<Rightarrow> nat \<Rightarrow> nat \<Rightarrow> bool \<times> bool \<times> 's bridge \<Rightarrow> response \<times> 's bridge" where
  "axi_write_loop M i 0 (aw_done, w_done, b) =
     (let b' = clear_inputs b
      in (mk_response RESP_TIMEOUT 0 (of_nat MAX_WAIT_CYCLES) (irq_bitmap M b'), b'))"
| "axi_write_loop M i (Suc left) (aw_done, w_done, b) =
     (let b1 = dut_eval M b;
          b_hs = s_bvalid (dut_out M b1) \<and> s_bready (br_pins b1);
          resp = axi_resp_to_bridge (s_bresp (dut_out M b1));
          (aw_done', w_done', b4) = axi_write_turn M (aw_done, w_done, b)
      in if b_hs then
           let b5 = clear_inputs (tick M b4)
           in (mk_response resp 0 (of_nat (i + 1)) (irq_bitmap M b5), b5)
         else axi_write_loop M (i + 1) left (aw_done', w_done', b4))"

definition axi_write_setup :: "request \<Rightarrow> 's bridge \<Rightarrow> 's bridge" where
  "axi_write_setup req b =
     (let wstrb4 = default_wstrb (rq_addr req) (rq_size req);
          lane = bus_lane (rq_addr req);
          data32 = write_lane_data req
      in set_pins (\<lambda>p. p\<lparr>s_awid := 1, s_awaddr := rq_addr req,
             s_awsize := axi_size (rq_size req), s_awvalid := True, s_wlast := True,
             s_wvalid := True, s_bready := True, s_wdata := [0, 0, 0, 0][lane := data32],
             s_wstrb := push_bit (lane * 4) (ucast wstrb4)\<rparr>) (clear_inputs b))"

definition axi_write :: "'s periph_dut \<Rightarrow> request \<Rightarrow> 's bridge \<Rightarrow> response \<times> 's bridge" where
  "axi_write M req b = axi_write_loop M 0 MAX_WAIT_CYCLES (False, False, axi_write_setup req b)"

section \<open>Video memory\<close>

text \<open>The backing is the mapped file or the fallback vector, and null before either exists; an empty
  path selects the vector, and a path that cannot be opened, sized or mapped fails
  (\<open>map_ok\<close> is the verdict of those three system calls).\<close>

definition init_vram_backing :: "string \<Rightarrow> bool \<Rightarrow> 's bridge \<Rightarrow> bool \<times> 's bridge" where
  "init_vram_backing vram_shm_path map_ok b =
     (if vram_shm_path = [] \<or> map_ok then (True, b\<lparr>br_vram := Some (\<lambda>_. 0)\<rparr>) else (False, b))"

definition vram_store :: "(u32 \<Rightarrow> u8) \<Rightarrow> u32 \<Rightarrow> u32 \<Rightarrow> u8 \<Rightarrow> (u32 \<Rightarrow> u8)" where
  "vram_store mem off v sz =
     (if sz = 1 then mem(off := ucast v)
      else if sz = 2 then mem(off := ucast (drop_bit 8 v), off + 1 := ucast v)
      else mem(off := ucast (drop_bit 24 v), off + 1 := ucast (drop_bit 16 v),
               off + 2 := ucast (drop_bit 8 v), off + 3 := ucast v))"

definition vram_load :: "(u32 \<Rightarrow> u8) \<Rightarrow> u32 \<Rightarrow> u8 \<Rightarrow> u32" where
  "vram_load mem off sz =
     (if sz = 1 then ucast (mem off)
      else if sz = 2 then be16 (mem off) (mem (off + 1))
      else be_word (mem off) (mem (off + 1)) (mem (off + 2)) (mem (off + 3)))"

definition vram_transact :: "request \<Rightarrow> 's bridge \<Rightarrow> response \<times> 's bridge" where
  "vram_transact req b =
     (let off = rq_addr req - VRAM_BASE
      in if off + ucast (rq_size req) > VRAM_SIZE then (mk_response RESP_DECERR 0 0 0, b)
         else case br_vram b of
                None \<Rightarrow> (mk_response RESP_SLVERR 0 0 0, b)
              | Some mem \<Rightarrow>
                  if rq_op req = OP_WRITE then
                    (mk_response RESP_OKAY 0 1 0,
                     b\<lparr>br_vram := Some (vram_store mem off (protocol_write_value req) (rq_size req))\<rparr>)
                  else
                    (mk_response RESP_OKAY
                       (lane_replicate (vram_load mem off (rq_size req)) (rq_size req)) 1 0, b))"

definition transact :: "'s periph_dut \<Rightarrow> request \<Rightarrow> 's bridge \<Rightarrow> response \<times> 's bridge" where
  "transact M req b =
     (if decode_window (rq_addr req) = VRAM then vram_transact req b
      else if rq_op req = OP_READ then axi_read M req b
      else axi_write M req b)"

definition v1_request :: "u8 \<Rightarrow> u8 \<Rightarrow> u32 \<Rightarrow> u32 \<Rightarrow> request" where
  "v1_request op sz addr data =
     empty_request\<lparr>rq_version := 1, rq_op := op, rq_size := sz, rq_addr := addr, rq_data := data\<rparr>"

definition bridge_read8 :: "'s periph_dut \<Rightarrow> u32 \<Rightarrow> 's bridge \<Rightarrow> response \<times> 's bridge" where
  "bridge_read8 M addr = transact M (v1_request OP_READ 1 addr 0)"

definition bridge_write8 :: "'s periph_dut \<Rightarrow> u32 \<Rightarrow> u8 \<Rightarrow> 's bridge \<Rightarrow> response \<times> 's bridge" where
  "bridge_write8 M addr d = transact M (v1_request OP_WRITE 1 addr (lane_replicate (ucast d) 1))"

definition bridge_read16 :: "'s periph_dut \<Rightarrow> u32 \<Rightarrow> 's bridge \<Rightarrow> response \<times> 's bridge" where
  "bridge_read16 M addr = transact M (v1_request OP_READ 2 addr 0)"

definition bridge_write16 :: "'s periph_dut \<Rightarrow> u32 \<Rightarrow> u16 \<Rightarrow> 's bridge \<Rightarrow> response \<times> 's bridge" where
  "bridge_write16 M addr d =
     transact M (v1_request OP_WRITE 2 addr
       (if addr AND 2 \<noteq> 0 then ucast d else push_bit 16 (ucast d)))"

definition bridge_read32 :: "'s periph_dut \<Rightarrow> u32 \<Rightarrow> 's bridge \<Rightarrow> response \<times> 's bridge" where
  "bridge_read32 M addr = transact M (v1_request OP_READ 4 addr 0)"

definition bridge_write32 :: "'s periph_dut \<Rightarrow> u32 \<Rightarrow> u32 \<Rightarrow> 's bridge \<Rightarrow> response \<times> 's bridge" where
  "bridge_write32 M addr d = transact M (v1_request OP_WRITE 4 addr d)"

section \<open>CPU time and statistics\<close>

definition advance_cpu_delta :: "'s periph_dut \<Rightarrow> request \<Rightarrow> 's bridge \<Rightarrow> 's bridge" where
  "advance_cpu_delta M req b =
     (if \<not> rq_has_cpu_cycles req then b\<lparr>br_have_last_cpu_cycles := False\<rparr>
      else if \<not> br_have_last_cpu_cycles b then
        b\<lparr>br_last_cpu_cycles := rq_cpu_cycles req, br_have_last_cpu_cycles := True\<rparr>
      else
        let delta = rq_cpu_cycles req - br_last_cpu_cycles b;
            delta1 = (if br_cpu_cycle_scale b > 1 then delta div br_cpu_cycle_scale b else delta);
            delta2 = (if delta1 > br_max_cpu_advance b then br_max_cpu_advance b else delta1)
        in ticks M (unat delta2) (b\<lparr>br_last_cpu_cycles := rq_cpu_cycles req\<rparr>))"

fun window_code :: "window \<Rightarrow> u32" where
  "window_code VIA1 = 0" | "window_code VIA2 = 1" | "window_code ENET = 2"
| "window_code SONIC = 3" | "window_code SCC = 4" | "window_code SCSI = 5"
| "window_code ASC = 6" | "window_code SWIM = 7" | "window_code VRAM = 8"
| "window_code DAFB = 9" | "window_code OTHER = 10"

definition count_access :: "request \<Rightarrow> response \<Rightarrow> trace_stats \<Rightarrow> trace_stats" where
  "count_access req resp st =
     (let w = decode_window (rq_addr req)
      in st\<lparr>ts_total := ts_total st + 1,
            ts_reads := (if rq_op req = OP_READ then ts_reads st + 1 else ts_reads st),
            ts_writes := (if rq_op req = OP_READ then ts_writes st else ts_writes st + 1),
            ts_window := (ts_window st)(w := ts_window st w + 1),
            ts_last_addr := rq_addr req, ts_last_pc := rq_pc req,
            ts_last_data := (if rq_op req = OP_READ then rs_data resp else rq_data req),
            ts_last_op := rq_op req, ts_last_size := rq_size req,
            ts_last_resp := rs_resp resp\<rparr>)"

definition update_trace_stats :: "request \<Rightarrow> response \<Rightarrow> 's bridge \<Rightarrow> 's bridge" where
  "update_trace_stats req resp b =
     (let w = decode_window (rq_addr req);
          st = count_access req resp (br_stats b);
          l1 = (if br_trace_every b \<noteq> 0 \<and> ts_total st mod br_trace_every b = 0
                then [StatsLine st req resp (br_sim_time b)] else [])
      in if br_trace_pc_change b \<and>
            (rq_pc req \<noteq> ts_last_trace_pc st \<or> window_code w \<noteq> ts_last_trace_window st)
         then b\<lparr>br_stats := st\<lparr>ts_last_trace_pc := rq_pc req,
                                ts_last_trace_window := window_code w\<rparr>,
                br_stdout := br_stdout b @ l1 @
                  [ProgressLine (ts_total st) w req (ts_last_data st) resp (br_sim_time b)]\<rparr>
         else b\<lparr>br_stats := st, br_stdout := br_stdout b @ l1\<rparr>)"

section \<open>The self test\<close>

text \<open>The chains of \<open>||\<close> and \<open>&&\<close> over operations that report success stop at the first failure.\<close>

fun and_then :: "('s bridge \<Rightarrow> bool \<times> 's bridge) list \<Rightarrow> 's bridge \<Rightarrow> bool \<times> 's bridge" where
  "and_then [] b = (True, b)"
| "and_then (f # fs) b = (let (ok, b') = f b in if ok then and_then fs b' else (False, b'))"

definition selftest_write8 :: "'s periph_dut \<Rightarrow> u32 \<Rightarrow> u8 \<Rightarrow> 's bridge \<Rightarrow> bool \<times> 's bridge" where
  "selftest_write8 M addr d b =
     (let (r, b1) = bridge_write8 M addr d b in (rs_resp r = RESP_OKAY, ticks M 4 b1))"

definition selftest_read8 :: "'s periph_dut \<Rightarrow> u32 \<Rightarrow> 's bridge \<Rightarrow> bool \<times> u8 \<times> 's bridge" where
  "selftest_read8 M addr b =
     (let (r, b1) = bridge_read8 M addr b in (rs_resp r = RESP_OKAY, ucast (rs_data r AND 0xff), b1))"

definition selftest_advance :: "'s periph_dut \<Rightarrow> u32 \<Rightarrow> 's bridge \<Rightarrow> 's bridge" where
  "selftest_advance M cycles = ticks M (unat cycles)"

definition selftest_asc_via2_irq_route ::
    "'s periph_dut \<Rightarrow> 's bridge \<Rightarrow> bool \<times> u8 \<times> u8 \<times> 's bridge" where
  "selftest_asc_via2_irq_route M b =
     (let VIA2_BASE = 0x50002000; VIA_REG_STRIDE = 0x200;
          VIA2_IFR = VIA2_BASE + 13 * VIA_REG_STRIDE;
          VIA2_IER = VIA2_BASE + 14 * VIA_REG_STRIDE;
          ASC_BASE = 0x50014000;
          (ok, b1) = and_then
            [selftest_write8 M VIA2_IFR 0x10, selftest_write8 M VIA2_IER 0x90,
             selftest_write8 M (ASC_BASE + 0x801) 0x01, selftest_write8 M (ASC_BASE + 0x808) 0x01,
             selftest_write8 M (ASC_BASE + 0x802) 0x02, selftest_write8 M (ASC_BASE + 0x000) 0x7f,
             selftest_write8 M (ASC_BASE + 0x000) 0x80, selftest_write8 M (ASC_BASE + 0x400) 0x80,
             selftest_write8 M (ASC_BASE + 0x400) 0x7f] b
      in if \<not> ok then (False, 0, 0, b1)
         else
           let (r_ifr, b2) = bridge_read8 M VIA2_IFR (selftest_advance M 2048 b1);
               via2_ifr = ucast (rs_data r_ifr AND 0xff);
               irq_bits = rs_irq_bitmap r_ifr
           in (rs_resp r_ifr = RESP_OKAY \<and> via2_ifr AND 0x90 = 0x90 \<and> irq_bits AND 0x12 = 0x12,
               via2_ifr, irq_bits, b2))"

definition selftest_rtc_shift_bit_in :: "'s periph_dut \<Rightarrow> u8 \<Rightarrow> 's bridge \<Rightarrow> bool \<times> 's bridge" where
  "selftest_rtc_shift_bit_in M d =
     (let base = 0xf8 OR (d AND 1)
      in and_then [selftest_write8 M 0x50000000 (base OR 0x02), selftest_write8 M 0x50000000 base,
                   selftest_write8 M 0x50000000 (base OR 0x02)])"

definition selftest_rtc_shift_byte_in :: "'s periph_dut \<Rightarrow> u8 \<Rightarrow> 's bridge \<Rightarrow> bool \<times> 's bridge" where
  "selftest_rtc_shift_byte_in M d =
     and_then (map (\<lambda>i. selftest_rtc_shift_bit_in M (drop_bit i d AND 1)) (rev [0..<8]))"

definition selftest_rtc_shift_bit_out :: "'s periph_dut \<Rightarrow> 's bridge \<Rightarrow> bool \<times> u8 \<times> 's bridge" where
  "selftest_rtc_shift_bit_out M b =
     (let (ok1, b1) = and_then [selftest_write8 M 0x50000000 0xfa, selftest_write8 M 0x50000000 0xf8] b
      in if \<not> ok1 then (False, 0, b1)
         else
           let (ok2, smp, b2) = selftest_read8 M 0x50000000 b1
           in if \<not> ok2 then (False, 0, b2)
              else
                let (ok3, b3) = selftest_write8 M 0x50000000 0xfa b2
                in if ok3 then (True, smp AND 1, b3) else (False, 0, b3))"

fun selftest_rtc_shift_out_loop ::
    "'s periph_dut \<Rightarrow> nat \<Rightarrow> u8 \<Rightarrow> 's bridge \<Rightarrow> bool \<times> u8 \<times> 's bridge" where
  "selftest_rtc_shift_out_loop M 0 d b = (True, d, b)"
| "selftest_rtc_shift_out_loop M (Suc n) d b =
     (let (ok, in_bit, b1) = selftest_rtc_shift_bit_out M b
      in if ok then selftest_rtc_shift_out_loop M n (push_bit 1 d OR in_bit) b1 else (False, d, b1))"

definition selftest_rtc_xpram_read :: "'s periph_dut \<Rightarrow> u8 \<Rightarrow> 's bridge \<Rightarrow> bool \<times> u8 \<times> 's bridge" where
  "selftest_rtc_xpram_read M addr b =
     (let cmd = 0x80 OR 0x38 OR (drop_bit 5 addr AND 0x07);
          addr_byte = push_bit 2 (addr AND 0x1f) OR 0x01;
          (ok1, b1) = and_then
            [selftest_write8 M 0x50000400 0xf7, selftest_write8 M 0x50000000 0xfe,
             selftest_write8 M 0x50000000 0xfa, selftest_rtc_shift_byte_in M cmd,
             selftest_rtc_shift_byte_in M addr_byte, selftest_write8 M 0x50000400 0xf6] b
      in if \<not> ok1 then (False, 0, b1)
         else
           let (ok2, d, b2) = selftest_rtc_shift_out_loop M 8 0 b1
           in if \<not> ok2 then (False, d, b2)
              else
                let (ok3, b3) = and_then
                      [selftest_write8 M 0x50000400 0xf7, selftest_write8 M 0x50000000 0xfe] b2
                in (ok3, d, b3))"

section \<open>The connection\<close>

text \<open>
  A connection is a script of what the successive \<open>read\<close> and \<open>write\<close> calls return.  \<open>RdData bs\<close> is
  data the kernel has buffered: a call takes at most what it asked for and leaves the rest.
  \<open>RdData []\<close> and an exhausted script are end of file.  A signal interrupts the call in progress and
  sets \<open>stop_requested\<close>; one that arrives between calls is seen by the next test of the flag, with
  the same effect.  \<open>WrSent n\<close> is a call that takes at most \<open>n\<close> bytes, and once the write script is
  exhausted every call takes everything.
\<close>

datatype rd_ev = RdData "u8 list" | RdErr | RdSignal
datatype wr_ev = WrSent nat | WrErr | WrSignal

record conn =
  cn_stop :: bool
  cn_reads :: "rd_ev list"
  cn_writes :: "wr_ev list"
  cn_sent :: "u8 list"

fun read_exact_evs :: "nat \<Rightarrow> rd_ev list \<Rightarrow> u8 list option \<times> bool \<times> rd_ev list" where
  "read_exact_evs 0 evs = (Some [], False, evs)"
| "read_exact_evs (Suc n) [] = (None, False, [])"
| "read_exact_evs (Suc n) (RdErr # evs) = (None, False, evs)"
| "read_exact_evs (Suc n) (RdSignal # evs) = (None, True, evs)"
| "read_exact_evs (Suc n) (RdData bs # evs) =
     (if bs = [] then (None, False, evs)
      else if length bs \<le> Suc n then
        (let (r, stop, evs') = read_exact_evs (Suc n - length bs) evs
         in (map_option (\<lambda>x. bs @ x) r, stop, evs'))
      else (Some (take (Suc n) bs), False, RdData (drop (Suc n) bs) # evs))"

definition read_exact :: "nat \<Rightarrow> conn \<Rightarrow> u8 list option \<times> conn" where
  "read_exact len c =
     (if 0 < len \<and> cn_stop c then (None, c)
      else let (r, stop, evs) = read_exact_evs len (cn_reads c)
           in (r, c\<lparr>cn_stop := cn_stop c \<or> stop, cn_reads := evs\<rparr>))"

fun write_exact_evs :: "u8 list \<Rightarrow> wr_ev list \<Rightarrow> bool \<times> bool \<times> u8 list \<times> wr_ev list" where
  "write_exact_evs [] evs = (True, False, [], evs)"
| "write_exact_evs (x # xs) [] = (True, False, x # xs, [])"
| "write_exact_evs (x # xs) (WrErr # evs) = (False, False, [], evs)"
| "write_exact_evs (x # xs) (WrSignal # evs) = (False, True, [], evs)"
| "write_exact_evs (x # xs) (WrSent n # evs) =
     (let (ok, stop, sent, evs') = write_exact_evs (drop n (x # xs)) evs
      in (ok, stop, take n (x # xs) @ sent, evs'))"

definition write_exact :: "u8 list \<Rightarrow> conn \<Rightarrow> bool \<times> conn" where
  "write_exact buf c =
     (if buf \<noteq> [] \<and> cn_stop c then (False, c)
      else let (ok, stop, sent, evs) = write_exact_evs buf (cn_writes c)
           in (ok, c\<lparr>cn_stop := cn_stop c \<or> stop, cn_writes := evs, cn_sent := cn_sent c @ sent\<rparr>))"

text \<open>What the loop body does with a decoded request, between reading it and sending the response.\<close>

definition serve_request :: "'s periph_dut \<Rightarrow> bool \<Rightarrow> request \<Rightarrow> 's bridge \<Rightarrow> response \<times> 's bridge" where
  "serve_request M req_ok req b =
     (let b1 = (if req_ok then b\<lparr>br_active_pc := rq_pc req\<rparr> else b);
          b2 = (if req_ok then advance_cpu_delta M req b1 else b1);
          (resp, b3) = (if req_ok then transact M req b2 else (mk_response RESP_DECERR 0 0 0, b2));
          b4 = (if rq_version req = 1 \<or> rq_version req = 2 then update_trace_stats req resp b3 else b3);
          b5 = (if req_ok then maybe_inject_scc_rx_after_status_read M req b4 else b4)
      in (resp, b5))"

text \<open>The request a frame turns into: a version 2 frame reads its tail first.\<close>

definition read_tail :: "bool \<Rightarrow> request \<Rightarrow> conn \<Rightarrow> bool \<times> request \<times> conn" where
  "read_tail req_ok req c =
     (if req_ok \<and> rq_version req = 2 then
        case read_exact 4 c of
          (Some raw_tail, c') \<Rightarrow> (True, decode_request_v2_tail raw_tail req, c')
        | (None, c') \<Rightarrow> (False, req, c')
      else (req_ok, req, c))"

lemma read_exact_evs_shrinks:
  "read_exact_evs n evs = (r, stop, evs') \<Longrightarrow>
   size_list (\<lambda>e. case e of RdData bs \<Rightarrow> length bs | _ \<Rightarrow> 0) evs' \<le>
   size_list (\<lambda>e. case e of RdData bs \<Rightarrow> length bs | _ \<Rightarrow> 0) evs \<and>
   (r \<noteq> None \<and> 0 < n \<longrightarrow>
    size_list (\<lambda>e. case e of RdData bs \<Rightarrow> length bs | _ \<Rightarrow> 0) evs' <
    size_list (\<lambda>e. case e of RdData bs \<Rightarrow> length bs | _ \<Rightarrow> 0) evs)"
  by (induction n evs arbitrary: r stop evs' rule: read_exact_evs.induct)
     (fastforce split: if_splits prod.splits)+

abbreviation pending :: "conn \<Rightarrow> nat" where
  "pending c \<equiv> size_list (\<lambda>e. case e of RdData bs \<Rightarrow> length bs | _ \<Rightarrow> 0) (cn_reads c)"

lemma read_exact_shrinks:
  "read_exact n c = (r, c') \<Longrightarrow> pending c' \<le> pending c"
  "read_exact n c = (Some x, c') \<Longrightarrow> 0 < n \<Longrightarrow> pending c' < pending c"
  by (auto simp: read_exact_def split: if_splits prod.splits dest!: read_exact_evs_shrinks)

lemma read_tail_shrinks: "read_tail ok req c = (ok', req', c') \<Longrightarrow> pending c' \<le> pending c"
  by (auto simp: read_tail_def split: if_splits prod.splits option.splits dest: read_exact_shrinks(1))

lemma write_exact_reads: "write_exact buf c = (ok, c') \<Longrightarrow> cn_reads c' = cn_reads c"
  by (auto simp: write_exact_def split: if_splits prod.splits)

lemma serve_turn_shrinks:
  assumes "(Some x, c1) = read_exact 20 c" and "(ok, req, c2) = read_tail ok' req' c1"
    and "(done, c3) = write_exact buf c2"
  shows "pending c3 < pending c"
  using read_exact_shrinks(2) [OF assms(1) [symmetric]] read_tail_shrinks [OF assms(2) [symmetric]]
    write_exact_reads [OF assms(3) [symmetric]] by simp

function serve_conn :: "'s periph_dut \<Rightarrow> conn \<Rightarrow> 's bridge \<Rightarrow> conn \<times> 's bridge" where
  "serve_conn M c b =
     (if cn_stop c then (c, b)
      else case read_exact 20 c of
             (None, c1) \<Rightarrow> (c1, b)
           | (Some req_raw, c1) \<Rightarrow>
               (case decode_request req_raw of (ok, req) \<Rightarrow>
                case read_tail ok req c1 of (req_ok, req', c2) \<Rightarrow>
                case serve_request M req_ok req' b of (resp, b') \<Rightarrow>
                case write_exact (encode_response resp) c2 of
                  (True, c3) \<Rightarrow> serve_conn M c3 b'
                | (False, c3) \<Rightarrow> (c3, b')))"
  by pat_completeness auto
termination
  by (relation "measure (\<lambda>(M, c, b). pending c)")
     (auto intro: serve_turn_shrinks)

end
