(* ===== verification/Periph_Bridge_Props.thy ===== *)
theory Periph_Bridge_Props
  imports Periph_Bridge
begin

unbundle bit_operations_syntax

text \<open>
  Properties of the peripheral bridge: the video memory as a byte store, the AXI master (which
  handshake it answers with, how it drives the channels, that it always returns), the passing of
  simulated time, the statistics, and the connection loop as a function of the byte stream.
\<close>

declare serve_conn.simps [simp del]

section \<open>Video memory\<close>

interpretation vram: byte_store "\<lambda>m a. m a" "\<lambda>m a v. m(a := v)" "\<lambda>_. True"
  by unfold_locales simp

lemma vram_access_byte_store:
  "vram_load m off 2 = vram.rd16 m off" "vram_load m off 4 = vram.rd32 m off"
  "vram_store m off v 2 = vram.wr16 m off v" "vram_store m off v 4 = vram.wr32 m off v"
  by (simp_all add: vram_load_def vram_store_def vram.rd16_def vram.rd32_def vram.wr16_def
      vram.wr32_def)

lemma vram_load_store:
  "vram_load (vram_store m off v 4) off 4 = v"
  "vram_load (vram_store m off v 2) off 2 = v AND 0xffff"
  "vram_load (vram_store m off v 1) off 1 = v AND 0xff"
proof -
  show "vram_load (vram_store m off v 4) off 4 = v"
    by (simp add: vram_access_byte_store vram.rd32_wr32)
  show "vram_load (vram_store m off v 2) off 2 = v AND 0xffff"
    by (simp add: vram_access_byte_store vram.rd16_wr16)
  show "vram_load (vram_store m off v 1) off 1 = v AND 0xff"
    unfolding low_masks by (rule bit_word_eqI) (auto simp: vram_load_def vram_store_def bit_simps)
qed

lemma vram_store_other:
  assumes "x - off \<ge> ucast (sz :: u8)" and "sz = 1 \<or> sz = 2 \<or> sz = 4"
  shows "vram_store m off v sz x = m x"
proof -
  have "x \<noteq> off + k" if "k < ucast sz" for k
    using that assms(1) by auto
  from this [of 0] this [of 1] this [of 2] this [of 3] assms(2) show ?thesis
    by (auto simp: vram_store_def word_less_nat_alt)
qed

lemma protocol_write_value_width:
  "rq_size req = 1 \<Longrightarrow> protocol_write_value req AND 0xff = protocol_write_value req"
  "rq_size req = 2 \<Longrightarrow> protocol_write_value req AND 0xffff = protocol_write_value req"
  by (simp_all add: protocol_write_value_def and.assoc)

definition vram_fits :: "request \<Rightarrow> bool" where
  "vram_fits req \<longleftrightarrow> decode_window (rq_addr req) = VRAM \<and>
     rq_addr req - VRAM_BASE + ucast (rq_size req) \<le> VRAM_SIZE \<and>
     (rq_size req = 1 \<or> rq_size req = 2 \<or> rq_size req = 4)"

text \<open>Video memory round trip: inside the aperture, a write of 1, 2 or 4 bytes succeeds without
  clocking the design; a read of the same size at the same address then succeeds with the value of
  the write in every lane of that size, and every byte outside the access is unchanged.\<close>

theorem vram_read_after_write:
  assumes "vram_fits wreq" and "rq_op wreq = OP_WRITE" and "br_vram b = Some mem"
    and "rq_op rreq = OP_READ" and "rq_addr rreq = rq_addr wreq" and "rq_size rreq = rq_size wreq"
  shows "\<exists>mem'. transact M wreq b = (mk_response RESP_OKAY 0 1 0, b\<lparr>br_vram := Some mem'\<rparr>)
     \<and> transact M rreq (b\<lparr>br_vram := Some mem'\<rparr>) =
         (mk_response RESP_OKAY (lane_replicate (protocol_write_value wreq) (rq_size wreq)) 1 0,
          b\<lparr>br_vram := Some mem'\<rparr>)
     \<and> (\<forall>x. x - (rq_addr wreq - VRAM_BASE) \<ge> ucast (rq_size wreq) \<longrightarrow> mem' x = mem x)"
proof -
  let ?off = "rq_addr wreq - VRAM_BASE" and ?sz = "rq_size wreq" and ?v = "protocol_write_value wreq"
  let ?mem = "vram_store mem ?off ?v ?sz"
  have sz: "?sz = 1 \<or> ?sz = 2 \<or> ?sz = 4" using assms(1) by (simp add: vram_fits_def)
  have w: "transact M wreq b = (mk_response RESP_OKAY 0 1 0, b\<lparr>br_vram := Some ?mem\<rparr>)"
    using assms(1-3) by (auto simp: transact_def vram_transact_def vram_fits_def Let_def)
  have "vram_load ?mem ?off ?sz = ?v"
    using sz vram_load_store protocol_write_value_width by (metis (no_types))
  then have r: "transact M rreq (b\<lparr>br_vram := Some ?mem\<rparr>) =
      (mk_response RESP_OKAY (lane_replicate ?v ?sz) 1 0, b\<lparr>br_vram := Some ?mem\<rparr>)"
    using assms by (auto simp: transact_def vram_transact_def vram_fits_def Let_def wire_consts)
  have "\<forall>x. x - ?off \<ge> ucast ?sz \<longrightarrow> ?mem x = mem x" using sz vram_store_other by blast
  with w r show ?thesis by blast
qed

text \<open>A concrete design for evaluation: a slave whose handshake outputs are given by its state, a
  countdown of clock edges until it answers.\<close>

definition zero_pins :: periph_in where
  "zero_pins = \<lparr>clk = False, rst = False, s_awid = 0, s_awaddr = 0, s_awlen = 0, s_awsize = 0,
     s_awburst = 0, s_awvalid = False, s_wdata = [0, 0, 0, 0], s_wstrb = 0, s_wlast = False,
     s_wvalid = False, s_bready = False, s_arid = 0, s_araddr = 0, s_arlen = 0, s_arsize = 0,
     s_arburst = 0, s_arvalid = False, s_rready = False, scc_rx_a_valid = False,
     scc_rx_a_data = 0, scc_rx_b_valid = False, scc_rx_b_data = 0, scc_cts_a_n = False,
     scc_dcd_a_n = False, scc_sync_a_n = False, scc_cts_b_n = False, scc_dcd_b_n = False,
     scc_sync_b_n = False\<rparr>"

definition demo_out :: "nat \<Rightarrow> periph_out" where
  "demo_out n = \<lparr>s_awready = True, s_wready = True, s_bvalid = (n = 0), s_bresp = 0,
     s_arready = True, s_rvalid = (n = 0), s_rdata = [0x11223344, 0x55667788, 0, 0], s_rresp = 0,
     via1_irq = (n = 0), via2_irq = False, scc_irq = False, scsi_irq = False, asc_irq = False,
     iwm_irq = False, scc_tx_a_valid = False, scc_tx_a_data = 0, scc_tx_b_valid = False,
     scc_tx_b_data = 0\<rparr>"

definition demo_dut :: "nat periph_dut" where
  "demo_dut = \<lparr>du_eval = (\<lambda>p n. if clk p then n - 1 else n), du_out = demo_out\<rparr>"

definition demo_bridge :: "nat \<Rightarrow> nat bridge" where
  "demo_bridge n = (initial_bridge zero_pins n)\<lparr>br_vram := Some (\<lambda>_. 0)\<rparr>"

theorem vram_read_after_write_witness:
  "let wreq = v1_request OP_WRITE 2 0xf9000122 0xbeef; rreq = v1_request OP_READ 2 0xf9000122 0;
       b = demo_bridge 0
   in \<exists>mem'. transact demo_dut wreq b = (mk_response RESP_OKAY 0 1 0, b\<lparr>br_vram := Some mem'\<rparr>)
     \<and> transact demo_dut rreq (b\<lparr>br_vram := Some mem'\<rparr>) =
         (mk_response RESP_OKAY 0xbeefbeef 1 0, b\<lparr>br_vram := Some mem'\<rparr>)
     \<and> (\<forall>x. x - 0x122 \<ge> 2 \<longrightarrow> mem' x = 0)"
  using vram_read_after_write [of "v1_request OP_WRITE 2 0xf9000122 0xbeef" "demo_bridge 0" "\<lambda>_. 0"
      "v1_request OP_READ 2 0xf9000122 0" demo_dut]
  by (simp add: vram_fits_def v1_request_def empty_request_def decode_window_VRAM_iff wire_consts
      demo_bridge_def protocol_write_value_def lane_replicate_def word_less_nat_alt word_le_nat_alt)

lemma vram_bound:
  assumes "decode_window a = VRAM"
  shows "a - VRAM_BASE + ucast (sz :: u8) > VRAM_SIZE \<longleftrightarrow> unat a + unat sz > 0xf9200000"
proof -
  have d: "0xf9000000 \<le> a" "a < 0xf9200000"
    using assms by (simp_all add: decode_window_VRAM_iff)
  then have a: "0xf9000000 \<le> unat a" "unat a < 0xf9200000"
    by (simp_all add: word_le_nat_alt word_less_nat_alt)
  have "unat (a - 0xf9000000) = unat a - 0xf9000000"
    using d(1) by (simp add: unat_sub)
  moreover note unat_u8_less [of sz]
  ultimately have "unat (a - 0xf9000000 + ucast sz) = unat a - 0xf9000000 + unat sz"
    using a by (subst unat_word_ariths(1)) simp
  then show ?thesis using a by (simp add: VRAM_BASE_def VRAM_SIZE_def word_less_nat_alt) arith
qed

text \<open>Video memory errors: an access that starts in the aperture and runs past its end gets
  DECERR, one without a backing gets SLVERR, and neither changes any state of the bridge.\<close>

theorem vram_errors:
  assumes "decode_window (rq_addr req) = VRAM"
    and "unat (rq_addr req) + unat (rq_size req) > 0xf9200000 \<or> br_vram b = None"
  shows "transact M req b =
    (mk_response (if unat (rq_addr req) + unat (rq_size req) > 0xf9200000 then RESP_DECERR
                  else RESP_SLVERR) 0 0 0, b)"
  using assms(2) by (auto simp: transact_def vram_transact_def Let_def assms(1) vram_bound)

theorem vram_errors_witness:
  "transact demo_dut (v1_request OP_WRITE 4 0xf91ffffd 1) (demo_bridge 0) =
     (mk_response RESP_DECERR 0 0 0, demo_bridge 0) \<and>
   transact demo_dut (v1_request OP_READ 1 0xf91fffff 0) (initial_bridge zero_pins 0) =
     (mk_response RESP_SLVERR 0 0 0, initial_bridge zero_pins 0)"
  using vram_errors [of "v1_request OP_WRITE 4 0xf91ffffd 1" "demo_bridge 0" demo_dut]
    vram_errors [of "v1_request OP_READ 1 0xf91fffff 0" "initial_bridge zero_pins 0" demo_dut]
  by (simp add: v1_request_def empty_request_def decode_window_VRAM_iff word_less_nat_alt
      word_le_nat_alt initial_bridge_def)

section \<open>Clock and pins\<close>

lemma set_pins_sel [simp]:
  "br_pins (set_pins f b) = f (br_pins b)" "br_dut (set_pins f b) = br_dut b"
  "br_sim_time (set_pins f b) = br_sim_time b" "br_stats (set_pins f b) = br_stats b"
  "br_vram (set_pins f b) = br_vram b" "br_active_pc (set_pins f b) = br_active_pc b"
  "br_scc_rx_a_bytes (set_pins f b) = br_scc_rx_a_bytes b"
  "br_scc_rx_b_bytes (set_pins f b) = br_scc_rx_b_bytes b"
  "br_scc_rx_a_pos (set_pins f b) = br_scc_rx_a_pos b"
  "br_scc_rx_b_pos (set_pins f b) = br_scc_rx_b_pos b"
  by (simp_all add: set_pins_def)

lemma dut_eval_sel [simp]:
  "br_pins (dut_eval M b) = br_pins b" "br_sim_time (dut_eval M b) = br_sim_time b"
  "br_stats (dut_eval M b) = br_stats b" "br_vram (dut_eval M b) = br_vram b"
  "br_active_pc (dut_eval M b) = br_active_pc b"
  "br_scc_rx_a_bytes (dut_eval M b) = br_scc_rx_a_bytes b"
  "br_scc_rx_b_bytes (dut_eval M b) = br_scc_rx_b_bytes b"
  "br_scc_rx_a_pos (dut_eval M b) = br_scc_rx_a_pos b"
  "br_scc_rx_b_pos (dut_eval M b) = br_scc_rx_b_pos b"
  by (simp_all add: dut_eval_def)

lemma count_scc_tx_sel [simp]:
  "br_pins (count_scc_tx ch d b) = br_pins b" "br_sim_time (count_scc_tx ch d b) = br_sim_time b"
  "br_dut (count_scc_tx ch d b) = br_dut b" "br_vram (count_scc_tx ch d b) = br_vram b"
  "br_active_pc (count_scc_tx ch d b) = br_active_pc b"
  "br_scc_rx_a_bytes (count_scc_tx ch d b) = br_scc_rx_a_bytes b"
  "br_scc_rx_b_bytes (count_scc_tx ch d b) = br_scc_rx_b_bytes b"
  "br_scc_rx_a_pos (count_scc_tx ch d b) = br_scc_rx_a_pos b"
  "br_scc_rx_b_pos (count_scc_tx ch d b) = br_scc_rx_b_pos b"
  by (simp_all add: count_scc_tx_def Let_def split: scc_channel.splits)

text \<open>What the clock leaves alone: everything but the design, the clock pin, the time, the
  transmit counters and the output.\<close>

definition bystanders :: "'s bridge \<Rightarrow> (u32 \<Rightarrow> u8) option \<times> u32 \<times> u8 list \<times> u8 list \<times> nat \<times> nat" where
  "bystanders b = (br_vram b, br_active_pc b, br_scc_rx_a_bytes b, br_scc_rx_b_bytes b,
     br_scc_rx_a_pos b, br_scc_rx_b_pos b)"

definition access_counters ::
    "trace_stats \<Rightarrow> u64 \<times> u64 \<times> u64 \<times> (window \<Rightarrow> u64) \<times> u64 \<times> u64" where
  "access_counters st = (ts_total st, ts_reads st, ts_writes st, ts_window st, ts_scc_rx_a st,
     ts_scc_rx_b st)"

lemma count_scc_tx_counters [simp]:
  "access_counters (br_stats (count_scc_tx ch d b)) = access_counters (br_stats b)"
  by (simp add: count_scc_tx_def access_counters_def Let_def split: scc_channel.splits)

lemma tick_pins [simp]: "br_pins (tick M b) = (br_pins b)\<lparr>clk := True\<rparr>"
  by (simp add: tick_def Let_def)

lemma tick_sim_time [simp]: "br_sim_time (tick M b) = br_sim_time b + 1"
  by (simp add: tick_def Let_def)

lemma tick_bystanders [simp]: "bystanders (tick M b) = bystanders b"
  by (simp add: tick_def Let_def bystanders_def)

lemma tick_counters [simp]: "access_counters (br_stats (tick M b)) = access_counters (br_stats b)"
  by (simp add: tick_def Let_def)

interpretation clock: step_frame "\<lambda>b (_ :: unit). tick M b"
    "\<lambda>b. (bystanders b, access_counters (br_stats b))" for M :: "'s periph_dut"
  by unfold_locales simp

lemma ticks_foldl: "ticks M n b = foldl (\<lambda>b (_ :: unit). tick M b) b (replicate n ())"
  unfolding ticks_def
proof (induction n arbitrary: b)
  case (Suc n) then show ?case by (simp add: funpow_Suc_right del: funpow.simps)
qed simp

lemma ticks_frame [simp]:
  "bystanders (ticks M n b) = bystanders b"
  "access_counters (br_stats (ticks M n b)) = access_counters (br_stats b)"
  using clock.run_obs [of M b "replicate n ()"] by (simp_all add: ticks_foldl)

lemma ticks_sim_time [simp]: "br_sim_time (ticks M n b) = br_sim_time b + of_nat n"
  unfolding ticks_def by (induction n) (simp_all add: algebra_simps)

lemma ticks_pins: "br_pins (ticks M n b) = (if n = 0 then br_pins b else (br_pins b)\<lparr>clk := True\<rparr>)"
  unfolding ticks_def by (induction n) simp_all

section \<open>The AXI master\<close>

text \<open>The loop state before turn \<open>i\<close>, whether that turn samples a response, and the value the loop
  returns when it does.\<close>

definition read_state :: "'s periph_dut \<Rightarrow> request \<Rightarrow> 's bridge \<Rightarrow> nat \<Rightarrow> bool \<times> 's bridge" where
  "read_state M req b i = (axi_read_turn M ^^ i) (False, axi_read_setup req b)"

definition r_handshake :: "'s periph_dut \<Rightarrow> bool \<times> 's bridge \<Rightarrow> bool" where
  "r_handshake M st =
     (let b1 = dut_eval M (snd st) in s_rvalid (dut_out M b1) \<and> s_rready (br_pins b1))"

definition read_answer :: "'s periph_dut \<Rightarrow> request \<Rightarrow> nat \<Rightarrow> bool \<times> 's bridge \<Rightarrow> response \<times> 's bridge" where
  "read_answer M req i st =
     (let b1 = dut_eval M (snd st);
          b2 = clear_inputs (tick M (snd (axi_read_turn M st)))
      in (mk_response (axi_resp_to_bridge (s_rresp (dut_out M b1)))
            (lane_replicate (extract_sized (read_data_word M (rq_addr req) b1) (rq_addr req)
               (rq_size req)) (rq_size req)) (of_nat (i + 1)) (irq_bitmap M b2), b2))"

definition timed_out :: "'s periph_dut \<Rightarrow> 's bridge \<Rightarrow> response \<times> 's bridge" where
  "timed_out M b =
     (mk_response RESP_TIMEOUT 0 256 (irq_bitmap M (clear_inputs b)), clear_inputs b)"

interpretation rd: poll_loop "axi_read_loop M req" "r_handshake M" "axi_read_turn M"
    "read_answer M req" "\<lambda>st. timed_out M (snd st)" for M :: "'s periph_dut" and req
proof
  show "axi_read_loop M req i 0 st = timed_out M (snd st)" for i st
    by (cases st) (simp add: timed_out_def Let_def MAX_WAIT_CYCLES_def)
  show "axi_read_loop M req i (Suc left) st =
      (if r_handshake M st then read_answer M req i st
       else axi_read_loop M req (i + 1) left (axi_read_turn M st))" for i left st
    by (cases st) (simp add: r_handshake_def read_answer_def Let_def split: prod.split)
qed

text \<open>The channel discipline: the address is offered until it is taken and never again, with a
  payload that does not change, and the response channel stays ready.\<close>

lemma axi_read_turn_pins:
  "axi_read_turn M (d, b) = (d', b') \<Longrightarrow> s_arvalid (br_pins b) = (\<not> d) \<Longrightarrow>
   br_pins b' = (br_pins b)\<lparr>clk := True, s_arvalid := \<not> d'\<rparr>"
  by (auto simp: axi_read_turn_def Let_def split: if_splits)

lemma read_state_pins:
  "\<exists>c. br_pins (snd (read_state M req b i)) =
     (br_pins (axi_read_setup req b))\<lparr>clk := c, s_arvalid := \<not> fst (read_state M req b i)\<rparr>"
proof (induction i)
  case 0 show ?case
    by (rule exI [of _ "clk (br_pins b)"])
       (simp add: read_state_def axi_read_setup_def clear_inputs_def clear_pins_def)
next
  case (Suc i)
  obtain d b1 where st: "read_state M req b i = (d, b1)" by fastforce
  obtain d' b2 where st': "axi_read_turn M (d, b1) = (d', b2)" by fastforce
  have *: "read_state M req b (Suc i) = (d', b2)" using st st' by (simp add: read_state_def)
  obtain c where "br_pins b1 = (br_pins (axi_read_setup req b))\<lparr>clk := c, s_arvalid := \<not> d\<rparr>"
    using Suc st by auto
  then have "br_pins b2 = (br_pins (axi_read_setup req b))\<lparr>clk := True, s_arvalid := \<not> d'\<rparr>"
    using axi_read_turn_pins [OF st'] by simp
  with * show ?case by auto
qed

lemma read_state_frame:
  "br_sim_time (snd (read_state M req b i)) = br_sim_time b + of_nat i"
  "bystanders (snd (read_state M req b i)) = bystanders b"
  "access_counters (br_stats (snd (read_state M req b i))) = access_counters (br_stats b)"
proof (induction i)
  case 0
  { case 1 show ?case by (simp add: read_state_def axi_read_setup_def clear_inputs_def) }
  { case 2 show ?case by (simp add: read_state_def axi_read_setup_def clear_inputs_def bystanders_def) }
  { case 3 show ?case by (simp add: read_state_def axi_read_setup_def clear_inputs_def) }
next
  case (Suc i)
  have turn: "br_sim_time (snd (axi_read_turn M st)) = br_sim_time (snd st) + 1"
      "bystanders (snd (axi_read_turn M st)) = bystanders (snd st)"
      "access_counters (br_stats (snd (axi_read_turn M st))) = access_counters (br_stats (snd st))"
    for st
    using tick_bystanders [of M "dut_eval M (snd st)"]
    by (auto simp: axi_read_turn_def Let_def bystanders_def split: prod.splits)
  { case 1 show ?case using Suc.IH(1) by (simp add: read_state_def turn) }
  { case 2 show ?case using Suc.IH(2) by (simp add: read_state_def turn) }
  { case 3 show ?case using Suc.IH(3) by (simp add: read_state_def turn) }
qed


lemma read_state_ready:
  "s_rready (br_pins (snd (read_state M req b i)))"
  "s_arvalid (br_pins (snd (read_state M req b i))) = (\<not> fst (read_state M req b i))"
  using read_state_pins [of M req b i] by (auto simp: axi_read_setup_def)

definition ar_handshake :: "'s periph_dut \<Rightarrow> bool \<times> 's bridge \<Rightarrow> bool" where
  "ar_handshake M st =
     (let b1 = dut_eval M (snd st) in s_arvalid (br_pins b1) \<and> s_arready (dut_out M b1))"

lemma read_state_done: "fst (read_state M req b i) \<longleftrightarrow> (\<exists>j < i. ar_handshake M (read_state M req b j))"
proof (induction i)
  case 0 then show ?case by (simp add: read_state_def)
next
  case (Suc i)
  have "fst (axi_read_turn M st) = (fst st \<or> ar_handshake M st)" for st :: "bool \<times> 'a bridge"
    by (cases st) (auto simp: axi_read_turn_def ar_handshake_def Let_def)
  then have "fst (read_state M req b (Suc i)) =
      (fst (read_state M req b i) \<or> ar_handshake M (read_state M req b i))"
    by (simp add: read_state_def)
  then show ?case using Suc by (auto simp: less_Suc_eq)
qed

text \<open>C26 What a bus read returns: with the loop state \<open>read_state\<close> before each turn, the response is
  the status, extracted and replicated data and turn number of the first of the 256 turns in which
  the design presents read data, and TIMEOUT exactly when none of them does; the simulated time then
  went on by two cycles more than the turn number, or by 256.\<close>

theorem axi_read_outcome:
  "let valid = (\<lambda>i. s_rvalid (dut_out M (dut_eval M (snd (read_state M req b i)))))
   in (\<exists>i < 256. valid i \<and> (\<forall>j < i. \<not> valid j) \<and>
         axi_read M req b = read_answer M req i (read_state M req b i) \<and>
         br_sim_time (snd (axi_read M req b)) = br_sim_time b + of_nat (i + 2)) \<or>
      ((\<forall>i < 256. \<not> valid i) \<and>
         axi_read M req b = timed_out M (snd (read_state M req b 256)) \<and>
         br_sim_time (snd (axi_read M req b)) = br_sim_time b + 256)"
proof -
  have hs: "r_handshake M (read_state M req b i) =
      s_rvalid (dut_out M (dut_eval M (snd (read_state M req b i))))" for i
    using read_state_ready(1) [of M req b i] by (simp add: r_handshake_def Let_def)
  have step: "axi_read_turn M (read_state M req b i) = read_state M req b (Suc i)" for i
    by (simp add: read_state_def)
  have ta: "br_sim_time (snd (read_answer M req i (read_state M req b i))) =
      br_sim_time b + of_nat (i + 2)" for i
    by (simp add: read_answer_def Let_def clear_inputs_def step read_state_frame algebra_simps)
  have tt: "br_sim_time (snd (timed_out M (snd (read_state M req b 256)))) = br_sim_time b + 256"
    by (simp add: timed_out_def clear_inputs_def read_state_frame)
  show ?thesis
    using rd.loop_outcome [of 256 M "(False, axi_read_setup req b)" req 0] ta tt
    unfolding axi_read_def MAX_WAIT_CYCLES_def read_state_def [symmetric] hs Let_def by auto
qed

theorem axi_read_outcome_witness:
  "fst (axi_read demo_dut (v1_request OP_READ 1 0x50000006 0) (demo_bridge 0)) =
     mk_response RESP_OKAY 0x66666666 1 1"
proof -
  let ?r = "v1_request OP_READ 1 0x50000006 0"
  note ev = read_state_def axi_read_setup_def demo_dut_def demo_out_def demo_bridge_def
    initial_bridge_def clear_inputs_def set_pins_def dut_eval_def v1_request_def empty_request_def
  have 0: "s_rvalid (dut_out demo_dut (dut_eval demo_dut (snd (read_state demo_dut ?r (demo_bridge 0) 0))))"
    by (simp add: ev)
  then have "axi_read demo_dut ?r (demo_bridge 0) =
      read_answer demo_dut ?r 0 (read_state demo_dut ?r (demo_bridge 0) 0)"
    using axi_read_outcome [of demo_dut ?r "demo_bridge 0"] unfolding Let_def by force
  then show ?thesis
    by (simp add: read_answer_def axi_read_turn_def tick_def irq_bitmap_def read_data_word_def
        extract_sized_def lane_replicate_def bus_lane_def byte_shift_def axi_resp_to_bridge_def
        RESP_OKAY_def ev zero_pins_def)
qed

text \<open>The read address channel: before each turn the master offers the address, with the requested
  address and size, exactly as long as no turn has completed the handshake, so that at most one
  address is transferred per request, and it is always ready for the data.\<close>

theorem axi_read_channel:
  "(let p = br_pins (snd (read_state M req b i))
    in s_arvalid p = (\<not> (\<exists>j < i. ar_handshake M (read_state M req b j))) \<and>
       s_araddr p = rq_addr req \<and> s_arsize p = axi_size (rq_size req) \<and> s_arlen p = 0 \<and>
       s_rready p \<and> \<not> s_awvalid p \<and> \<not> s_wvalid p) \<and>
   (ar_handshake M (read_state M req b i) \<and> ar_handshake M (read_state M req b j) \<longrightarrow> i = j)"
proof -
  have *: "\<not> ar_handshake M (read_state M req b j)"
    if "i < j" "ar_handshake M (read_state M req b i)" for i j
  proof -
    have "fst (read_state M req b j)" using that by (auto simp: read_state_done)
    then show ?thesis using read_state_ready(2) [of M req b j] by (simp add: ar_handshake_def Let_def)
  qed
  show ?thesis
    using read_state_pins [of M req b i] read_state_done [of M req b i] * [of i j] * [of j i]
    by (auto simp: Let_def axi_read_setup_def clear_inputs_def clear_pins_def dest: linorder_neqE_nat)
qed


theorem axi_read_channel_witness:
  "\<not> ar_handshake demo_dut (read_state demo_dut empty_request (demo_bridge 9) 1)"
proof -
  have "ar_handshake demo_dut (read_state demo_dut empty_request (demo_bridge 9) 0)"
    by (simp add: ar_handshake_def read_state_def axi_read_setup_def demo_dut_def demo_out_def
        clear_inputs_def)
  with axi_read_channel [of demo_dut empty_request "demo_bridge 9" 0 1] show ?thesis by auto
qed

definition write_state ::
    "'s periph_dut \<Rightarrow> request \<Rightarrow> 's bridge \<Rightarrow> nat \<Rightarrow> bool \<times> bool \<times> 's bridge" where
  "write_state M req b i = (axi_write_turn M ^^ i) (False, False, axi_write_setup req b)"

definition b_handshake :: "'s periph_dut \<Rightarrow> bool \<times> bool \<times> 's bridge \<Rightarrow> bool" where
  "b_handshake M st =
     (let b1 = dut_eval M (snd (snd st)) in s_bvalid (dut_out M b1) \<and> s_bready (br_pins b1))"

definition aw_handshake :: "'s periph_dut \<Rightarrow> bool \<times> bool \<times> 's bridge \<Rightarrow> bool" where
  "aw_handshake M st =
     (let b1 = dut_eval M (snd (snd st)) in s_awvalid (br_pins b1) \<and> s_awready (dut_out M b1))"

definition w_handshake :: "'s periph_dut \<Rightarrow> bool \<times> bool \<times> 's bridge \<Rightarrow> bool" where
  "w_handshake M st =
     (let b1 = dut_eval M (snd (snd st)) in s_wvalid (br_pins b1) \<and> s_wready (dut_out M b1))"

definition write_answer :: "'s periph_dut \<Rightarrow> nat \<Rightarrow> bool \<times> bool \<times> 's bridge \<Rightarrow> response \<times> 's bridge" where
  "write_answer M i st =
     (let b1 = dut_eval M (snd (snd st));
          b2 = clear_inputs (tick M (snd (snd (axi_write_turn M st))))
      in (mk_response (axi_resp_to_bridge (s_bresp (dut_out M b1))) 0 (of_nat (i + 1))
            (irq_bitmap M b2), b2))"

interpretation wr: poll_loop "axi_write_loop M" "b_handshake M" "axi_write_turn M"
    "write_answer M" "\<lambda>st. timed_out M (snd (snd st))" for M :: "'s periph_dut"
proof
  show "axi_write_loop M i 0 st = timed_out M (snd (snd st))" for i st
    by (cases st) (simp add: timed_out_def Let_def MAX_WAIT_CYCLES_def)
  show "axi_write_loop M i (Suc left) st =
      (if b_handshake M st then write_answer M i st
       else axi_write_loop M (i + 1) left (axi_write_turn M st))" for i left st
    by (cases st) (simp add: b_handshake_def write_answer_def Let_def split: prod.split)
qed

lemma axi_write_turn_eq:
  "axi_write_turn M st =
     (fst st \<or> aw_handshake M st, fst (snd st) \<or> w_handshake M st,
      set_pins (\<lambda>p. p\<lparr>s_awvalid := s_awvalid p \<and> (fst st \<or> \<not> aw_handshake M st),
                     s_wvalid := s_wvalid p \<and> (fst (snd st) \<or> \<not> w_handshake M st)\<rparr>)
        (tick M (dut_eval M (snd (snd st)))))"
  by (cases st) (simp add: axi_write_turn_def aw_handshake_def w_handshake_def Let_def set_pins_def)

lemma write_state_Suc: "write_state M req b (Suc i) = axi_write_turn M (write_state M req b i)"
  by (simp add: write_state_def)

lemma write_state_pins:
  "\<exists>c. br_pins (snd (snd (write_state M req b i))) =
     (br_pins (axi_write_setup req b))\<lparr>clk := c, s_awvalid := \<not> fst (write_state M req b i),
        s_wvalid := \<not> fst (snd (write_state M req b i))\<rparr>"
proof (induction i)
  case 0 show ?case
    by (rule exI [of _ "clk (br_pins b)"])
       (simp add: write_state_def axi_write_setup_def clear_inputs_def clear_pins_def Let_def)
next
  case (Suc i)
  then obtain c where "br_pins (snd (snd (write_state M req b i))) =
     (br_pins (axi_write_setup req b))\<lparr>clk := c, s_awvalid := \<not> fst (write_state M req b i),
        s_wvalid := \<not> fst (snd (write_state M req b i))\<rparr>" by blast
  then show ?case
    by (intro exI [of _ True]) (simp add: write_state_Suc axi_write_turn_eq cong: conj_cong)
qed

lemma write_state_frame:
  "br_sim_time (snd (snd (write_state M req b i))) = br_sim_time b + of_nat i"
  "bystanders (snd (snd (write_state M req b i))) = bystanders b"
  "access_counters (br_stats (snd (snd (write_state M req b i)))) = access_counters (br_stats b)"
proof (induction i)
  case 0
  { case 1 show ?case by (simp add: write_state_def axi_write_setup_def clear_inputs_def Let_def) }
  { case 2 show ?case
      by (simp add: write_state_def axi_write_setup_def clear_inputs_def bystanders_def Let_def) }
  { case 3 show ?case by (simp add: write_state_def axi_write_setup_def clear_inputs_def Let_def) }
next
  case (Suc i)
  note by_tick = tick_bystanders [of M "dut_eval M (snd (snd (write_state M req b i)))"]
  { case 1 show ?case using Suc.IH(1) by (simp add: write_state_Suc axi_write_turn_eq) }
  { case 2 show ?case using Suc.IH(2) by_tick
      by (simp add: write_state_Suc axi_write_turn_eq bystanders_def) }
  { case 3 show ?case using Suc.IH(3) by (simp add: write_state_Suc axi_write_turn_eq) }
qed

lemma write_state_done:
  "fst (write_state M req b i) \<longleftrightarrow> (\<exists>j < i. aw_handshake M (write_state M req b j))"
  "fst (snd (write_state M req b i)) \<longleftrightarrow> (\<exists>j < i. w_handshake M (write_state M req b j))"
proof (induction i)
  case 0
  { case 1 show ?case by (simp add: write_state_def) }
  { case 2 show ?case by (simp add: write_state_def) }
next
  case (Suc i)
  { case 1 show ?case using Suc.IH(1) by (auto simp: write_state_Suc axi_write_turn_eq less_Suc_eq) }
  { case 2 show ?case using Suc.IH(2) by (auto simp: write_state_Suc axi_write_turn_eq less_Suc_eq) }
qed

text \<open>What a bus write returns: the status of the first of the 256 turns in which the design
  presents a write response, with the number of that turn, and TIMEOUT exactly when none does.\<close>

theorem axi_write_outcome:
  "let valid = (\<lambda>i. s_bvalid (dut_out M (dut_eval M (snd (snd (write_state M req b i))))))
   in (\<exists>i < 256. valid i \<and> (\<forall>j < i. \<not> valid j) \<and>
         axi_write M req b = write_answer M i (write_state M req b i) \<and>
         br_sim_time (snd (axi_write M req b)) = br_sim_time b + of_nat (i + 2)) \<or>
      ((\<forall>i < 256. \<not> valid i) \<and>
         axi_write M req b = timed_out M (snd (snd (write_state M req b 256))) \<and>
         br_sim_time (snd (axi_write M req b)) = br_sim_time b + 256)"
proof -
  have "s_bready (br_pins (snd (snd (write_state M req b i))))" for i
    using write_state_pins [of M req b i] by (auto simp: axi_write_setup_def Let_def)
  then have hs: "b_handshake M (write_state M req b i) =
      s_bvalid (dut_out M (dut_eval M (snd (snd (write_state M req b i)))))" for i
    by (simp add: b_handshake_def Let_def)
  have ta: "br_sim_time (snd (write_answer M i (write_state M req b i))) =
      br_sim_time b + of_nat (i + 2)" for i
    by (simp add: write_answer_def Let_def clear_inputs_def write_state_Suc [symmetric]
        write_state_frame algebra_simps)
  have tt: "br_sim_time (snd (timed_out M (snd (snd (write_state M req b 256))))) = br_sim_time b + 256"
    by (simp add: timed_out_def clear_inputs_def write_state_frame)
  show ?thesis
    using wr.loop_outcome [of 256 M "(False, False, axi_write_setup req b)" 0] ta tt
    unfolding axi_write_def MAX_WAIT_CYCLES_def write_state_def [symmetric] hs Let_def by auto
qed

theorem axi_write_outcome_witness:
  "fst (axi_write demo_dut (v1_request OP_WRITE 1 0x50000006 0) (demo_bridge 0)) =
     mk_response RESP_OKAY 0 1 1"
proof -
  let ?r = "v1_request OP_WRITE 1 0x50000006 0"
  note ev = write_state_def axi_write_setup_def demo_dut_def demo_out_def demo_bridge_def
    initial_bridge_def clear_inputs_def set_pins_def dut_eval_def v1_request_def empty_request_def
    Let_def
  have 0: "s_bvalid (dut_out demo_dut (dut_eval demo_dut
      (snd (snd (write_state demo_dut ?r (demo_bridge 0) 0)))))"
    by (simp add: ev)
  then have "axi_write demo_dut ?r (demo_bridge 0) =
      write_answer demo_dut 0 (write_state demo_dut ?r (demo_bridge 0) 0)"
    using axi_write_outcome [of demo_dut ?r "demo_bridge 0"] unfolding Let_def by force
  then show ?thesis
    by (simp add: write_answer_def axi_write_turn_def tick_def irq_bitmap_def
        axi_resp_to_bridge_def RESP_OKAY_def ev zero_pins_def)
qed

text \<open>The write channels: address and data are offered independently, each until its own
  handshake, with the request's address and the 128-bit beat that carries its lane, and nothing is
  offered on the read side.\<close>

theorem axi_write_channels:
  "let p = br_pins (snd (snd (write_state M req b i))); lane = bus_lane (rq_addr req)
   in s_awvalid p = (\<not> (\<exists>j < i. aw_handshake M (write_state M req b j))) \<and>
      s_wvalid p = (\<not> (\<exists>j < i. w_handshake M (write_state M req b j))) \<and>
      s_awaddr p = rq_addr req \<and> s_awsize p = axi_size (rq_size req) \<and> s_awlen p = 0 \<and>
      s_wdata p = [0, 0, 0, 0][lane := write_lane_data req] \<and>
      s_wstrb p = push_bit (4 * lane) (ucast (default_wstrb (rq_addr req) (rq_size req))) \<and>
      s_wlast p \<and> s_bready p \<and> \<not> s_arvalid p"
  using write_state_pins [of M req b i] write_state_done [of M req b i]
  by (auto simp: Let_def axi_write_setup_def clear_inputs_def clear_pins_def mult.commute)

section \<open>CPU time\<close>

text \<open>Coupling to CPU time: a request advances the design by the wrapping difference of the two
  cycle counts, divided by the scale and capped, when both this and the previous request carried a
  count, and not at all otherwise; in every case the bridge then remembers exactly what the request
  carried.\<close>

theorem advance_cpu_delta_time:
  "let b' = advance_cpu_delta M req b;
       timed = rq_has_cpu_cycles req \<and> br_have_last_cpu_cycles b;
       delta = (unat (rq_cpu_cycles req) + 2 ^ 32 - unat (br_last_cpu_cycles b)) mod 2 ^ 32;
       scale = max 1 (unat (br_cpu_cycle_scale b))
   in br_sim_time b' = br_sim_time b +
        of_nat (if timed then min (unat (br_max_cpu_advance b)) (delta div scale) else 0) \<and>
      br_have_last_cpu_cycles b' = rq_has_cpu_cycles req \<and>
      br_last_cpu_cycles b' =
        (if rq_has_cpu_cycles req then rq_cpu_cycles req else br_last_cpu_cycles b)"
proof -
  have keep: "br_have_last_cpu_cycles (tick M b) = br_have_last_cpu_cycles b"
      "br_last_cpu_cycles (tick M b) = br_last_cpu_cycles b" for b
    by (simp_all add: tick_def Let_def dut_eval_def set_pins_def count_scc_tx_def)
  have keeps: "br_have_last_cpu_cycles (ticks M n b) = br_have_last_cpu_cycles b"
      "br_last_cpu_cycles (ticks M n b) = br_last_cpu_cycles b" for n b
    unfolding ticks_def by (induction n) (simp_all add: keep)
  have sub: "unat (x - y) = (unat x + 2 ^ 32 - unat y) mod 2 ^ 32" for x y :: u32
    using unat_sub_if' [of x y] unsigned_less [of x, where ?'a = nat]
      unsigned_less [of y, where ?'a = nat] by (auto simp: mod_if)
  have cap: "unat (if d' > m then m else d') = min (unat m) (unat d div max 1 (unat s))"
    if "d' = (if s > 1 then d div s else d)" for d d' m s :: u32
    using that by (auto simp: unat_div min_def max_def word_less_nat_alt not_less le_Suc_eq)
  show ?thesis
    unfolding advance_cpu_delta_def Let_def sub [symmetric] of_nat_unat
    by (simp add: keeps cap [OF refl])
qed

section \<open>Statistics and the receive queues\<close>

definition all_windows :: "window list" where
  "all_windows = [VIA1, VIA2, ENET, SONIC, SCC, SCSI, ASC, SWIM, VRAM, DAFB, OTHER]"

definition counters_ok :: "'s bridge \<Rightarrow> bool" where
  "counters_ok b \<longleftrightarrow>
     ts_total (br_stats b) = ts_reads (br_stats b) + ts_writes (br_stats b) \<and>
     sum_list (map (ts_window (br_stats b)) all_windows) = ts_reads (br_stats b) + ts_writes (br_stats b) \<and>
     br_scc_rx_a_pos b \<le> length (br_scc_rx_a_bytes b) \<and>
     br_scc_rx_b_pos b \<le> length (br_scc_rx_b_bytes b) \<and>
     ts_scc_rx_a (br_stats b) = of_nat (br_scc_rx_a_pos b) \<and>
     ts_scc_rx_b (br_stats b) = of_nat (br_scc_rx_b_pos b)"

lemma counters_ok_cong:
  assumes "bystanders b' = bystanders b"
    and "access_counters (br_stats b') = access_counters (br_stats b)"
  shows "counters_ok b' = counters_ok b"
  using assms by (simp add: counters_ok_def bystanders_def access_counters_def)

lemma clear_inputs_frame [simp]:
  "bystanders (clear_inputs b) = bystanders b"
  "access_counters (br_stats (clear_inputs b)) = access_counters (br_stats b)"
  "br_sim_time (clear_inputs b) = br_sim_time b"
  by (simp_all add: clear_inputs_def bystanders_def)

lemma axi_read_frame:
  "bystanders (snd (axi_read M req b)) = bystanders b"
  "access_counters (br_stats (snd (axi_read M req b))) = access_counters (br_stats b)"
proof -
  have step: "axi_read_turn M (read_state M req b i) = read_state M req b (Suc i)" for i
    by (simp add: read_state_def)
  from rd.loop_outcome [of 256 M "(False, axi_read_setup req b)" req 0] consider
      i where "axi_read M req b = read_answer M req i (read_state M req b i)"
    | "axi_read M req b = timed_out M (snd (read_state M req b 256))"
    unfolding axi_read_def MAX_WAIT_CYCLES_def read_state_def [symmetric] by auto
  then show "bystanders (snd (axi_read M req b)) = bystanders b"
    "access_counters (br_stats (snd (axi_read M req b))) = access_counters (br_stats b)"
    by (cases; simp add: read_answer_def timed_out_def Let_def step read_state_frame)+
qed

lemma axi_write_frame:
  "bystanders (snd (axi_write M req b)) = bystanders b"
  "access_counters (br_stats (snd (axi_write M req b))) = access_counters (br_stats b)"
proof -
  from wr.loop_outcome [of 256 M "(False, False, axi_write_setup req b)" 0] consider
      i where "axi_write M req b = write_answer M i (write_state M req b i)"
    | "axi_write M req b = timed_out M (snd (snd (write_state M req b 256)))"
    unfolding axi_write_def MAX_WAIT_CYCLES_def write_state_def [symmetric] by auto
  then show "bystanders (snd (axi_write M req b)) = bystanders b"
    "access_counters (br_stats (snd (axi_write M req b))) = access_counters (br_stats b)"
    by (cases; simp add: write_answer_def timed_out_def Let_def write_state_Suc [symmetric]
        write_state_frame)+
qed

lemma counters_ok_transact: "counters_ok (snd (transact M req b)) = counters_ok b"
proof (cases "decode_window (rq_addr req) = VRAM")
  case True
  then show ?thesis
    by (auto simp: transact_def vram_transact_def Let_def counters_ok_def split: option.splits)
next
  case False
  then show ?thesis
    by (auto simp: transact_def axi_read_frame axi_write_frame intro!: counters_ok_cong)
qed

lemma counters_ok_advance: "counters_ok (advance_cpu_delta M req b) = counters_ok b"
  by (auto simp: advance_cpu_delta_def Let_def counters_ok_def
      counters_ok_cong [OF ticks_frame, unfolded counters_ok_def])

lemma counters_ok_update: "counters_ok b \<Longrightarrow> counters_ok (update_trace_stats req resp b)"
  by (cases "decode_window (rq_addr req)")
     (simp_all add: update_trace_stats_def count_access_def counters_ok_def all_windows_def Let_def
       algebra_simps)

lemma inject_scc_rx_frame:
  "bystanders (inject_scc_rx M ch d b) = bystanders b"
  "access_counters (br_stats (inject_scc_rx M ch d b)) =
     (case access_counters (br_stats b) of (t, r, w, f, a, x) \<Rightarrow>
        (t, r, w, f, if ch = ChanA then a + 1 else a, if ch = ChanB then x + 1 else x))"
proof -
  have s: "bystanders (set_pins f b) = bystanders b"
    "access_counters (br_stats (set_pins f b)) = access_counters (br_stats b)" for f and b :: "'a bridge"
    by (simp_all add: bystanders_def)
  show "bystanders (inject_scc_rx M ch d b) = bystanders b"
    by (cases ch) (simp_all add: inject_scc_rx_def Let_def s, simp_all add: bystanders_def)
  show "access_counters (br_stats (inject_scc_rx M ch d b)) =
     (case access_counters (br_stats b) of (t, r, w, f, a, x) \<Rightarrow>
        (t, r, w, f, if ch = ChanA then a + 1 else a, if ch = ChanB then x + 1 else x))"
    by (cases ch) (simp_all add: inject_scc_rx_def Let_def s, simp_all add: access_counters_def)
qed

lemma counters_ok_inject:
  assumes "counters_ok b"
  shows "counters_ok (maybe_inject_scc_rx_after_status_read M req b)"
proof -
  have A: "counters_ok (inject_scc_rx M ChanA d (b\<lparr>br_scc_rx_a_pos := br_scc_rx_a_pos b + 1\<rparr>))"
    if "br_scc_rx_a_pos b < length (br_scc_rx_a_bytes b)" for d
    using assms that inject_scc_rx_frame [of M ChanA d "b\<lparr>br_scc_rx_a_pos := br_scc_rx_a_pos b + 1\<rparr>"]
    by (simp add: counters_ok_def bystanders_def access_counters_def)
  have B: "counters_ok (inject_scc_rx M ChanB d (b\<lparr>br_scc_rx_b_pos := br_scc_rx_b_pos b + 1\<rparr>))"
    if "br_scc_rx_b_pos b < length (br_scc_rx_b_bytes b)" for d
    using assms that inject_scc_rx_frame [of M ChanB d "b\<lparr>br_scc_rx_b_pos := br_scc_rx_b_pos b + 1\<rparr>"]
    by (simp add: counters_ok_def bystanders_def access_counters_def)
  show ?thesis
    using assms A B
    by (auto simp: maybe_inject_scc_rx_after_status_read_def Let_def split: option.split)
qed

lemma counters_ok_serve_request:
  "counters_ok b \<Longrightarrow> counters_ok (snd (serve_request M ok req b))"
proof -
  assume *: "counters_ok b"
  have pc: "counters_ok (b\<lparr>br_active_pc := x\<rparr>)" for x using * by (simp add: counters_ok_def)
  have "counters_ok b3" if "transact M req (advance_cpu_delta M req (b\<lparr>br_active_pc := x\<rparr>)) = (r, b3)"
    for x r b3
    using counters_ok_transact [of M req "advance_cpu_delta M req (b\<lparr>br_active_pc := x\<rparr>)"] that
    by (simp add: counters_ok_advance pc)
  then show ?thesis
    using * by (auto simp: serve_request_def Let_def split: prod.split
        intro!: counters_ok_update counters_ok_inject)
qed

interpretation srv: step_machine "\<lambda>b (ok, req). snd (serve_request M ok req b)" counters_ok
  for M :: "'s periph_dut"
  by unfold_locales (auto simp: counters_ok_serve_request)

lemma counters_ok_serve_conn: "counters_ok b \<Longrightarrow> counters_ok (snd (serve_conn M c b))"
proof (induction M c b rule: serve_conn.induct)
  case (1 M c b)
  have "counters_ok b'" if "serve_request M ok req b = (r, b')" for ok req r b'
    using counters_ok_serve_request [OF "1.prems", of M ok req] that by simp
  then show ?case
    by (subst serve_conn.simps)
       (use 1 in \<open>auto split: prod.split option.split bool.split\<close>)
qed

section \<open>The connection as a function of the byte stream\<close>

text \<open>The contract of the connection loop: frames are cut off the stream one after the other, each is
  served, and one response goes out per frame.  A frame that is incomplete gets no answer, except
  that a version 2 frame whose tail is missing is answered with DECERR.\<close>

function serve_stream :: "'s periph_dut \<Rightarrow> u8 list \<Rightarrow> 's bridge \<Rightarrow> response list \<times> 's bridge" where
  "serve_stream M bs b =
     (if length bs < 20 then ([], b)
      else
        let (ok, req) = decode_request (take 20 bs); rest = drop 20 bs;
            v2 = ok \<and> rq_version req = 2;
            short_tail = v2 \<and> length rest < 4;
            req' = (if v2 \<and> \<not> short_tail then decode_request_v2_tail (take 4 rest) req else req);
            (resp, b') = serve_request M (ok \<and> \<not> short_tail) req' b;
            (resps, b'') = serve_stream M
              (if short_tail then [] else if v2 then drop 4 rest else rest) b'
        in (resp # resps, b''))"
  by pat_completeness auto
termination
  by (relation "measure (\<lambda>(M, bs, b). length bs)") auto

declare serve_stream.simps [simp del]

lemma serve_stream_Nil [simp]: "serve_stream M [] b = ([], b)"
  by (simp add: serve_stream.simps)

abbreviation chunked :: "u8 list list \<Rightarrow> rd_ev list" where
  "chunked cs \<equiv> map RdData cs"

lemma read_exact_evs_chunks:
  assumes "[] \<notin> set cs"
  shows "length (concat cs) < n \<Longrightarrow> read_exact_evs n (chunked cs) = (None, False, [])"
    and "n \<le> length (concat cs) \<Longrightarrow>
      \<exists>cs'. read_exact_evs n (chunked cs) = (Some (take n (concat cs)), False, chunked cs') \<and>
            concat cs' = drop n (concat cs) \<and> [] \<notin> set cs'"
  using assms
proof (induction cs arbitrary: n)
  case Nil
  { case 1 then show ?case by (cases n) auto }
  { case 2 then show ?case by (cases n) auto }
next
  case (Cons x cs)
  { case 1
    then show ?case using Cons.IH(1) [of "n - length x"] by (cases n) auto }
  { case 2
    show ?case
    proof (cases "length x \<le> n \<and> 0 < n")
      case True
      have "n - length x \<le> length (concat cs)" using 2 by simp
      then obtain cs' where "read_exact_evs (n - length x) (chunked cs) =
          (Some (take (n - length x) (concat cs)), False, chunked cs')"
          "concat cs' = drop (n - length x) (concat cs)" "[] \<notin> set cs'"
        using Cons.IH(2) [of "n - length x"] 2 by auto
      then show ?thesis using True 2 by (cases n) auto
    next
      case False
      then show ?thesis using 2
        by (cases n) (auto intro: exI [of _ "x # cs"] exI [of _ "drop n x # cs"])
    qed }
qed

lemma write_exact_evs_ok:
  "\<forall>e \<in> set evs. \<exists>k. e = WrSent k \<Longrightarrow>
   \<exists>evs'. write_exact_evs buf evs = (True, False, buf, evs') \<and> set evs' \<subseteq> set evs"
proof (induction buf evs rule: write_exact_evs.induct)
  case (5 x xs n evs)
  then obtain evs' where "write_exact_evs (drop n (x # xs)) evs = (True, False, drop n (x # xs), evs')"
    "set evs' \<subseteq> set evs" by auto
  then show ?case by auto
qed auto

definition quiet :: "u8 list list \<Rightarrow> conn \<Rightarrow> bool" where
  "quiet cs c \<longleftrightarrow> \<not> cn_stop c \<and> cn_reads c = chunked cs \<and> [] \<notin> set cs \<and>
     (\<forall>e \<in> set (cn_writes c). \<exists>k. e = WrSent k)"

lemma read_exact_quiet:
  assumes "quiet cs c" and "0 < n"
  shows "length (concat cs) < n \<Longrightarrow>
      \<exists>c'. read_exact n c = (None, c') \<and> cn_sent c' = cn_sent c \<and> quiet [] c'"
    and "n \<le> length (concat cs) \<Longrightarrow>
      \<exists>cs' c'. read_exact n c = (Some (take n (concat cs)), c') \<and> cn_sent c' = cn_sent c \<and>
        quiet cs' c' \<and> concat cs' = drop n (concat cs)"
  using assms read_exact_evs_chunks [of cs n]
  by (auto simp: quiet_def read_exact_def)

lemma write_exact_quiet:
  assumes "quiet cs c"
  shows "\<exists>c'. write_exact buf c = (True, c') \<and> cn_sent c' = cn_sent c @ buf \<and> quiet cs c'"
  using assms write_exact_evs_ok [of "cn_writes c" buf]
  by (auto simp: quiet_def write_exact_def subset_iff)

lemma read_tail_quiet:
  assumes "quiet cs c"
  shows "\<exists>cs' c'. cn_sent c' = cn_sent c \<and> quiet cs' c' \<and>
    (let v2 = ok \<and> rq_version req = 2; short_tail = v2 \<and> length (concat cs) < 4
     in read_tail ok req c =
          (ok \<and> \<not> short_tail,
           if v2 \<and> \<not> short_tail then decode_request_v2_tail (take 4 (concat cs)) req else req, c') \<and>
        concat cs' = (if short_tail then [] else if v2 then drop 4 (concat cs) else concat cs))"
proof (cases "ok \<and> rq_version req = 2")
  case True
  then show ?thesis
    using read_exact_quiet [OF assms, of 4]
    by (cases "length (concat cs) < 4") (fastforce simp: read_tail_def Let_def)+
next
  case False
  then show ?thesis using assms by (auto simp: read_tail_def Let_def)
qed

lemma serve_conn_stream:
  assumes "quiet cs c"
  shows "\<exists>c'. serve_conn M c b = (c', snd (serve_stream M (concat cs) b)) \<and>
     cn_sent c' = cn_sent c @ concat (map encode_response (fst (serve_stream M (concat cs) b)))"
  using assms
proof (induction "length (concat cs)" arbitrary: cs c b rule: less_induct)
  case less
  show ?case
  proof (cases "length (concat cs) < 20")
    case True
    then show ?thesis
      using read_exact_quiet(1) [OF less.prems, of 20] less.prems
      by (auto simp: serve_conn.simps serve_stream.simps quiet_def)
  next
    case False
    then obtain cs1 c1 where r: "read_exact 20 c = (Some (take 20 (concat cs)), c1)"
      "cn_sent c1 = cn_sent c" "quiet cs1 c1" "concat cs1 = drop 20 (concat cs)"
      using read_exact_quiet(2) [OF less.prems, of 20] by auto
    obtain ok req where d: "decode_request (take 20 (concat cs)) = (ok, req)" by fastforce
    let ?v2 = "ok \<and> rq_version req = 2"
    let ?short = "?v2 \<and> length (drop 20 (concat cs)) < 4"
    let ?req = "if ?v2 \<and> \<not> ?short then decode_request_v2_tail (take 4 (drop 20 (concat cs))) req
                else req"
    obtain cs2 c2 where t: "cn_sent c2 = cn_sent c1" "quiet cs2 c2"
      "read_tail ok req c1 = (ok \<and> \<not> ?short, ?req, c2)"
      "concat cs2 = (if ?short then [] else if ?v2 then drop 4 (drop 20 (concat cs))
         else drop 20 (concat cs))"
      using read_tail_quiet [OF r(3), of ok req] unfolding r(4) Let_def by blast
    obtain resp b' where s: "serve_request M (ok \<and> \<not> ?short) ?req b = (resp, b')" by fastforce
    obtain c3 where w: "write_exact (encode_response resp) c2 = (True, c3)"
      "cn_sent c3 = cn_sent c2 @ encode_response resp" "quiet cs2 c3"
      using write_exact_quiet [OF t(2)] by blast
    have "length (concat cs2) \<le> length (concat cs) - 20" unfolding t(4) by (auto intro: diff_le_mono2)
    then have "length (concat cs2) < length (concat cs)" using False by linarith
    from less.hyps [OF this w(3), of b'] obtain c' where
      i: "serve_conn M c3 b' = (c', snd (serve_stream M (concat cs2) b'))"
      "cn_sent c' = cn_sent c3 @ concat (map encode_response (fst (serve_stream M (concat cs2) b')))"
      by blast
    have "serve_conn M c b = serve_conn M c3 b'"
      using less.prems r(1) d t(3) s w(1) by (subst serve_conn.simps) (simp add: quiet_def)
    moreover have "serve_stream M (concat cs) b =
        (resp # fst (serve_stream M (concat cs2) b'), snd (serve_stream M (concat cs2) b'))"
      using False
      by (subst serve_stream.simps) (simp only: d Let_def fst_conv snd_conv s t(4) if_False split_def)
    ultimately show ?thesis using i w(2) t(1) r(2) by simp
  qed
qed

text \<open>C25 Refinement of the connection loop: however the kernel cuts the incoming bytes into reads and
  the outgoing ones into writes, as long as no call fails and no signal arrives the loop ends at end
  of file with the bridge in the state \<open>serve_stream\<close> gives for the whole byte stream, having sent
  exactly the encodings of its responses, one per frame, in order.\<close>

theorem serve_conn_refines_stream:
  assumes "[] \<notin> set cs" and "\<forall>e \<in> set wevs. \<exists>k. e = WrSent k"
  shows "\<exists>c'. serve_conn M \<lparr>cn_stop = False, cn_reads = map RdData cs, cn_writes = wevs, cn_sent = []\<rparr> b
       = (c', snd (serve_stream M (concat cs) b)) \<and>
     cn_sent c' = concat (map encode_response (fst (serve_stream M (concat cs) b)))"
  using serve_conn_stream
    [of cs "\<lparr>cn_stop = False, cn_reads = map RdData cs, cn_writes = wevs, cn_sent = []\<rparr>" M b] assms
  by (simp add: quiet_def)

theorem serve_conn_refines_stream_witness:
  "\<exists>c'. serve_conn demo_dut \<lparr>cn_stop = False,
          cn_reads = map RdData [[0x4D, 0x52], [0x54, 0x42, 1], [9, 9, 9, 9, 9, 9, 9, 9, 9, 9, 9, 9, 9, 9, 9]],
          cn_writes = [WrSent 3, WrSent 0], cn_sent = []\<rparr> (demo_bridge 0)
       = (c', snd (serve_stream demo_dut ([0x4D, 0x52, 0x54, 0x42, 1] @ [9, 9, 9, 9, 9, 9, 9, 9, 9, 9, 9, 9, 9, 9, 9]) (demo_bridge 0))) \<and>
     cn_sent c' = [0x4D, 0x52, 0x54, 0x42, 1, 3, 0, 0, 0, 0, 0, 0, 0, 0, 0, 0]"
proof -
  have "fst (serve_stream demo_dut ([0x4D, 0x52, 0x54, 0x42, 1] @ [9, 9, 9, 9, 9, 9, 9, 9, 9, 9, 9, 9, 9, 9, 9]) (demo_bridge 0)) =
      [mk_response RESP_DECERR 0 0 0]"
    by (simp add: serve_stream.simps decode_request_def MAGIC_def OP_READ_def OP_WRITE_def
        empty_request_def serve_request_def Let_def)
  with serve_conn_refines_stream
    [of "[[0x4D, 0x52], [0x54, 0x42, 1], [9, 9, 9, 9, 9, 9, 9, 9, 9, 9, 9, 9, 9, 9, 9]]" "[WrSent 3, WrSent 0]" demo_dut "demo_bridge 0"]
  show ?thesis
    by (simp add: encode_response_def MAGIC_def put_be32_def RESP_DECERR_def)
qed

text \<open>Bookkeeping: started from the initial state with any queues of serial input bytes, after
  serving any connection, with any data and any faults, the number of accesses is the number of
  reads plus the number of writes and the sum of the per-window counts, and each serial queue has
  been consumed from the front, once per injected byte and never past its end.\<close>

theorem serve_conn_bookkeeping:
  "counters_ok (snd (serve_conn M c ((initial_bridge pins s)
      \<lparr>br_scc_rx_a_bytes := qa, br_scc_rx_b_bytes := qb, br_vram := vram,
       br_trace_every := te, br_trace_pc_change := tp\<rparr>)))"
  by (rule counters_ok_serve_conn)
     (simp add: counters_ok_def initial_bridge_def initial_stats_def all_windows_def)

end
