(* ===== verification/Scsi_Bridge.thy ===== *)
theory Scsi_Bridge
  imports Periph_Bridge
begin

unbundle bit_operations_syntax

text \<open>
  The TurboSCSI endpoint \<open>tools/mame_scsi_bridge.cpp\<close>: address decoding, the peripheral-bus
  transaction with its 64-cycle limit, and the connection loop, which retries interrupted calls.
  The messages are those of \<open>Bridge_Wire\<close> (this endpoint's \<open>Request\<close> lacks the cycle count and its
  \<open>Response\<close> the interrupt bitmap; both stay zero).  Names that the two endpoints share carry the
  prefix \<open>scsi_\<close>.  The Verilated design is a parameter, as for the peripheral bridge.
\<close>

section \<open>State and address decoding\<close>

definition SCSI_BASE :: u32 where "SCSI_BASE = 0x5000F000"
definition SCSI_END :: u32 where "SCSI_END = 0x5000F102"
definition Q700_IO_MIRROR_MASK :: u32 where "Q700_IO_MIRROR_MASK = 0x00FC0000"
definition SCSI_MAX_WAIT_CYCLES :: nat where "SCSI_MAX_WAIT_CYCLES = 64"

record scsi_in =
  sp_clk :: bool
  sp_rst :: bool
  pb_addr :: u16
  pb_wdata :: u8
  pb_wr :: bool
  pb_rd :: bool
  sd_busy :: bool
  sd_done :: bool
  sd_error :: bool
  sd_rd_valid :: bool
  sd_rd_data :: u8
  sd_wr_ready :: bool

record 's scsi_dut =
  sx_eval :: "scsi_in \<Rightarrow> 's \<Rightarrow> 's"
  sx_ack :: "'s \<Rightarrow> bool"
  sx_rdata :: "'s \<Rightarrow> u32"

record 's scsi_bridge =
  sb_pins :: scsi_in
  sb_dut :: 's
  sb_sim_time :: u64

definition canonical_addr :: "u32 \<Rightarrow> u32" where
  "canonical_addr addr =
     (if addr AND 0xFF000000 = 0x50000000 then addr AND NOT Q700_IO_MIRROR_MASK else addr)"

definition scsi_addr_to_pb :: "u32 \<Rightarrow> u16 option" where
  "scsi_addr_to_pb addr =
     (let ca = canonical_addr addr
      in if ca < SCSI_BASE \<or> ca \<ge> SCSI_END then None
         else let off = ca - SCSI_BASE
              in if off < 0x100 then Some (ucast (drop_bit 4 off AND 0x0f))
                 else if off = 0x100 \<or> off = 0x101 then Some (ucast off)
                 else None)"

definition scsi_decode_request :: "u8 list \<Rightarrow> bool \<times> request" where
  "scsi_decode_request raw =
     (if take 4 raw \<noteq> MAGIC then (False, empty_request)
      else
        let req = empty_request\<lparr>rq_version := raw ! 4, rq_op := raw ! 5, rq_size := raw ! 6,
                    rq_wstrb := raw ! 7, rq_addr := be32 (drop 8 raw),
                    rq_data := be32 (drop 12 raw), rq_pc := be32 (drop 16 raw)\<rparr>
        in if rq_version req \<noteq> 1 then (False, req)
           else if rq_op req \<noteq> OP_READ \<and> rq_op req \<noteq> OP_WRITE then (False, req)
           else if rq_size req \<noteq> 1 \<and> rq_size req \<noteq> 2 \<and> rq_size req \<noteq> 4 then (False, req)
           else (True, req))"

definition scsi_encode_response :: "response \<Rightarrow> u8 list" where
  "scsi_encode_response r =
     MAGIC @ [1, rs_resp r, 0, 0] @ put_be32 (rs_data r) @ put_be32 (rs_cycles r)"

section \<open>Transactions\<close>

definition scsi_set_pins :: "(scsi_in \<Rightarrow> scsi_in) \<Rightarrow> 's scsi_bridge \<Rightarrow> 's scsi_bridge" where
  "scsi_set_pins f b = b\<lparr>sb_pins := f (sb_pins b)\<rparr>"

definition scsi_eval :: "'s scsi_dut \<Rightarrow> 's scsi_bridge \<Rightarrow> 's scsi_bridge" where
  "scsi_eval M b = b\<lparr>sb_dut := sx_eval M (sb_pins b) (sb_dut b)\<rparr>"

definition scsi_tick :: "'s scsi_dut \<Rightarrow> 's scsi_bridge \<Rightarrow> 's scsi_bridge" where
  "scsi_tick M b =
     (let b1 = scsi_eval M (scsi_set_pins (\<lambda>p. p\<lparr>sp_clk := False\<rparr>) b);
          b2 = scsi_eval M (scsi_set_pins (\<lambda>p. p\<lparr>sp_clk := True\<rparr>) b1)
      in b2\<lparr>sb_sim_time := sb_sim_time b2 + 1\<rparr>)"

definition scsi_reset_dut :: "'s scsi_dut \<Rightarrow> 's scsi_bridge \<Rightarrow> 's scsi_bridge" where
  "scsi_reset_dut M b =
     (let b1 = scsi_set_pins (\<lambda>p. p\<lparr>sp_rst := True, pb_addr := 0, pb_wdata := 0, pb_wr := False,
                 pb_rd := False, sd_busy := False, sd_done := False, sd_error := False,
                 sd_rd_valid := False, sd_rd_data := 0, sd_wr_ready := False\<rparr>) b
      in scsi_tick M (scsi_set_pins (\<lambda>p. p\<lparr>sp_rst := False\<rparr>) ((scsi_tick M ^^ 4) b1)))"

definition scsi_lane_replicate :: "u8 \<Rightarrow> u8 \<Rightarrow> u32" where
  "scsi_lane_replicate x sz =
     (if sz = 1 then ucast x * 0x01010101
      else if sz = 2 then push_bit 24 (ucast x) OR push_bit 16 (ucast x) OR push_bit 8 (ucast x) OR ucast x
      else ucast x * 0x01010101)"

definition write_byte_from_request :: "request \<Rightarrow> u8" where
  "write_byte_from_request req =
     (let lane = rq_addr req AND 0x3; shift = unat ((3 - lane) * 8)
      in ucast (drop_bit shift (rq_data req)))"

fun scsi_write_loop :: "'s scsi_dut \<Rightarrow> nat \<Rightarrow> nat \<Rightarrow> 's scsi_bridge \<Rightarrow> response \<times> 's scsi_bridge" where
  "scsi_write_loop M i 0 b =
     (mk_response RESP_TIMEOUT 0 (of_nat SCSI_MAX_WAIT_CYCLES) 0,
      scsi_set_pins (\<lambda>p. p\<lparr>pb_wr := False\<rparr>) b)"
| "scsi_write_loop M i (Suc left) b =
     (let b1 = scsi_tick M b
      in if sx_ack M (sb_dut b1) then
           (mk_response RESP_OKAY 0 (of_nat (i + 1)) 0,
            scsi_tick M (scsi_set_pins (\<lambda>p. p\<lparr>pb_wr := False\<rparr>) b1))
         else scsi_write_loop M (i + 1) left b1)"

fun scsi_read_loop ::
    "'s scsi_dut \<Rightarrow> u8 \<Rightarrow> nat \<Rightarrow> nat \<Rightarrow> 's scsi_bridge \<Rightarrow> response \<times> 's scsi_bridge" where
  "scsi_read_loop M sz i 0 b =
     (mk_response RESP_TIMEOUT 0 (of_nat SCSI_MAX_WAIT_CYCLES) 0,
      scsi_set_pins (\<lambda>p. p\<lparr>pb_rd := False\<rparr>) b)"
| "scsi_read_loop M sz i (Suc left) b =
     (let b1 = scsi_tick M b
      in if sx_ack M (sb_dut b1) then
           let v = ucast (sx_rdata M (sb_dut b1) AND 0xff)
           in (mk_response RESP_OKAY (scsi_lane_replicate v sz) (of_nat (i + 1)) 0,
               scsi_tick M (scsi_set_pins (\<lambda>p. p\<lparr>pb_rd := False\<rparr>) b1))
         else scsi_read_loop M sz (i + 1) left b1)"

definition scsi_setup :: "bool \<Rightarrow> u16 \<Rightarrow> u8 \<Rightarrow> 's scsi_bridge \<Rightarrow> 's scsi_bridge" where
  "scsi_setup wr pb d =
     scsi_set_pins (\<lambda>p. p\<lparr>pb_addr := pb AND 0x1ff, pb_wdata := d, pb_wr := wr, pb_rd := \<not> wr\<rparr>)"

definition transact_scsi :: "'s scsi_dut \<Rightarrow> request \<Rightarrow> 's scsi_bridge \<Rightarrow> response \<times> 's scsi_bridge" where
  "transact_scsi M req b =
     (case scsi_addr_to_pb (rq_addr req) of
        None \<Rightarrow> (mk_response RESP_DECERR 0 0 0, b)
      | Some pb \<Rightarrow>
          if rq_op req = OP_WRITE then
            scsi_write_loop M 0 SCSI_MAX_WAIT_CYCLES
              (scsi_setup True pb (write_byte_from_request req) b)
          else
            scsi_read_loop M (rq_size req) 0 SCSI_MAX_WAIT_CYCLES (scsi_setup False pb 0 b))"

section \<open>The connection\<close>

text \<open>The scripts of \<open>Periph_Bridge\<close>; here an interrupted call is made again.\<close>

fun scsi_read_exact :: "nat \<Rightarrow> rd_ev list \<Rightarrow> u8 list option \<times> rd_ev list" where
  "scsi_read_exact 0 evs = (Some [], evs)"
| "scsi_read_exact (Suc n) [] = (None, [])"
| "scsi_read_exact (Suc n) (RdErr # evs) = (None, evs)"
| "scsi_read_exact (Suc n) (RdSignal # evs) = scsi_read_exact (Suc n) evs"
| "scsi_read_exact (Suc n) (RdData bs # evs) =
     (if bs = [] then (None, evs)
      else if length bs \<le> Suc n then
        (let (r, evs') = scsi_read_exact (Suc n - length bs) evs
         in (map_option (\<lambda>x. bs @ x) r, evs'))
      else (Some (take (Suc n) bs), RdData (drop (Suc n) bs) # evs))"

fun scsi_write_exact :: "u8 list \<Rightarrow> wr_ev list \<Rightarrow> bool \<times> u8 list \<times> wr_ev list" where
  "scsi_write_exact [] evs = (True, [], evs)"
| "scsi_write_exact (x # xs) [] = (True, x # xs, [])"
| "scsi_write_exact (x # xs) (WrErr # evs) = (False, [], evs)"
| "scsi_write_exact (x # xs) (WrSignal # evs) = scsi_write_exact (x # xs) evs"
| "scsi_write_exact (x # xs) (WrSent n # evs) =
     (let (ok, sent, evs') = scsi_write_exact (drop n (x # xs)) evs
      in (ok, take n (x # xs) @ sent, evs'))"

definition scsi_answer :: "'s scsi_dut \<Rightarrow> u8 list \<Rightarrow> 's scsi_bridge \<Rightarrow> response \<times> 's scsi_bridge" where
  "scsi_answer M req_raw b =
     (let (ok, req) = scsi_decode_request req_raw
      in if \<not> ok then (mk_response RESP_DECERR 0 0 0, b) else transact_scsi M req b)"

abbreviation rd_bytes :: "rd_ev list \<Rightarrow> nat" where
  "rd_bytes \<equiv> size_list (\<lambda>e. case e of RdData bs \<Rightarrow> length bs | _ \<Rightarrow> 0)"

lemma scsi_read_exact_shrinks:
  "scsi_read_exact n evs = (r, evs') \<Longrightarrow>
   rd_bytes evs' \<le> rd_bytes evs \<and> (r \<noteq> None \<and> 0 < n \<longrightarrow> rd_bytes evs' < rd_bytes evs)"
  by (induction n evs arbitrary: r evs' rule: scsi_read_exact.induct)
     (fastforce split: if_splits prod.splits)+

lemma scsi_read_exact_less:
  "(Some x, evs') = scsi_read_exact 20 evs \<Longrightarrow> rd_bytes evs' < rd_bytes evs"
  using scsi_read_exact_shrinks [of 20 evs "Some x" evs'] by simp

function scsi_serve_conn ::
    "'s scsi_dut \<Rightarrow> rd_ev list \<Rightarrow> wr_ev list \<Rightarrow> 's scsi_bridge \<Rightarrow> u8 list \<times> 's scsi_bridge" where
  "scsi_serve_conn M revs wevs b =
     (case scsi_read_exact 20 revs of
        (None, _) \<Rightarrow> ([], b)
      | (Some req_raw, revs') \<Rightarrow>
          (case scsi_answer M req_raw b of (resp, b') \<Rightarrow>
           case scsi_write_exact (scsi_encode_response resp) wevs of
             (True, sent, wevs') \<Rightarrow>
               (case scsi_serve_conn M revs' wevs' b' of (sent', b'') \<Rightarrow> (sent @ sent', b''))
           | (False, sent, _) \<Rightarrow> (sent, b')))"
  by pat_completeness auto
termination
  by (relation "measure (\<lambda>(M, revs, wevs, b). rd_bytes revs)")
     (auto intro: scsi_read_exact_less)

declare scsi_serve_conn.simps [simp del]

section \<open>Address decoding\<close>

lemma page_mask: "addr AND 0xFF000000 = 0x50000000 \<longleftrightarrow> drop_bit 24 addr = 0x50" for addr :: u32
proof -
  have "addr AND 0xFF000000 = push_bit 24 (drop_bit 24 addr)"
  proof (rule bit_word_eqI)
    have m: "(0xFF000000 :: u32) = push_bit 24 (mask 8)" by (simp add: mask_eq_exp_minus_1)
    show "bit (addr AND 0xFF000000) n = bit (push_bit 24 (drop_bit 24 addr)) n" if "n < LENGTH(32)" for n
      using that unfolding m by (auto simp: bit_simps)
  qed
  moreover have "push_bit 24 (drop_bit 24 addr) = 0x50000000 \<longleftrightarrow> drop_bit 24 addr = 0x50"
  proof
    assume *: "push_bit 24 (drop_bit 24 addr) = 0x50000000"
    have "drop_bit 24 addr = drop_bit 24 (push_bit 24 (drop_bit 24 addr))"
      by (rule bit_word_eqI) (auto simp: bit_simps dest: bit_imp_le_length)
    also have "\<dots> = 0x50" unfolding * by simp
    finally show "drop_bit 24 addr = 0x50" .
  qed simp
  ultimately show ?thesis by simp
qed

lemma canonical_addr_io:
  assumes "drop_bit 24 addr = 0x50"
  shows "canonical_addr addr = 0x50000000 + (addr AND 0x3ffff)"
proof -
  have "NOT Q700_IO_MIRROR_MASK = 0xFF000000 OR 0x3ffff" by (simp add: Q700_IO_MIRROR_MASK_def)
  then have "addr AND NOT Q700_IO_MIRROR_MASK = (addr AND 0xFF000000) OR (addr AND 0x3ffff)"
    by (simp only: bit.conj_disj_distrib)
  also have "addr AND 0xFF000000 = 0x50000000" using assms by (simp add: page_mask)
  also have "0x50000000 OR (addr AND 0x3ffff) = 0x50000000 + (addr AND 0x3ffff)"
  proof (rule disjunctive_add [symmetric])
    fix n
    have m: "(0x3ffff :: u32) = mask 18" "(0x50000000 :: u32) = push_bit 28 5"
      by (simp_all add: mask_eq_exp_minus_1)
    show "\<not> bit (0x50000000 :: u32) n \<or> \<not> bit (addr AND 0x3ffff) n"
      unfolding m bit_and_iff bit_push_bit_iff bit_mask_iff by auto
  qed
  finally show ?thesis using assms by (simp add: canonical_addr_def page_mask)
qed

lemma scsi_addr_to_pb_io:
  assumes "drop_bit 24 addr = 0x50"
  shows "scsi_addr_to_pb addr =
    (let off = (addr AND 0x3ffff) - 0xF000
     in if addr AND 0x3ffff < 0xF000 \<or> addr AND 0x3ffff \<ge> 0xF102 then None
        else if off < 0x100 then Some (ucast (drop_bit 4 off AND 0x0f)) else Some (ucast off))"
proof -
  let ?y = "addr AND 0x3ffff"
  have y: "unat ?y \<le> 0x3ffff" using unat_and_le [of addr "0x3ffff"] by simp
  have u: "unat (0x50000000 + ?y) = 0x50000000 + unat ?y"
    using y by (subst unat_word_ariths(1)) simp
  have c: "0x50000000 + ?y < SCSI_BASE \<longleftrightarrow> ?y < 0xF000" "0x50000000 + ?y \<ge> SCSI_END \<longleftrightarrow> ?y \<ge> 0xF102"
    by (simp_all add: SCSI_BASE_def SCSI_END_def word_less_nat_alt word_le_nat_alt u)
  have o: "0x50000000 + ?y - SCSI_BASE = ?y - 0xF000" by (simp add: SCSI_BASE_def)
  have last: "?y - 0xF000 = 0x100 \<or> ?y - 0xF000 = 0x101"
    if "\<not> ?y < 0xF000" "\<not> ?y \<ge> 0xF102" "\<not> ?y - 0xF000 < 0x100"
    using that by (auto simp: word_less_nat_alt word_le_nat_alt unat_sub word_unat_eq_iff)
  show ?thesis
    using last by (auto simp: scsi_addr_to_pb_def canonical_addr_io [OF assms] Let_def c o)
qed

lemma canonical_addr_other: "drop_bit 24 addr \<noteq> 0x50 \<Longrightarrow> canonical_addr addr = addr"
  by (simp add: canonical_addr_def page_mask)

lemma scsi_addr_to_pb_other:
  assumes "drop_bit 24 addr \<noteq> 0x50"
  shows "scsi_addr_to_pb addr = None"
proof -
  have "drop_bit 24 (unat addr) \<noteq> 0x50"
    using assms by (simp add: word_unat_eq_iff unat_drop_bit_eq)
  then have "\<not> (0x50000000 \<le> unat addr \<and> unat addr < 0x51000000)"
    by (auto simp: drop_bit_eq_div)
  then show ?thesis
    by (auto simp: scsi_addr_to_pb_def canonical_addr_other [OF assms] Let_def SCSI_BASE_def
        SCSI_END_def word_less_nat_alt word_le_nat_alt)
qed

text \<open>The two endpoints agree on the SCSI window: the peripheral bridge routes an address to SCSI
  exactly when the SCSI bridge decodes it and it is not in one of the three service nibbles, which
  only the peripheral bridge excludes.\<close>

theorem scsi_window_agreement:
  "decode_window a = SCSI \<longleftrightarrow>
     scsi_addr_to_pb a \<noteq> None \<and> drop_bit 20 (a AND 0x00ffffff) \<notin> {0x1, 0x8, 0x9}"
proof (cases "drop_bit 24 a = 0x50")
  case True
  show ?thesis
  proof (cases "q700_io_offset a")
    case None
    then show ?thesis
      using True io_page_below_vram [OF True]
      by (auto simp: decode_window_def q700_io_offset_def Let_def split: if_splits)
  next
    case (Some off)
    then have "drop_bit 20 (a AND 0x00ffffff) \<notin> {0x1, 0x8, 0x9}"
      using True by (auto simp: q700_io_offset_def Let_def split: if_splits)
    moreover have "window_of_offset y = SCSI \<longleftrightarrow> \<not> y < 0xF000 \<and> \<not> y \<ge> 0xF102" for y
      by (auto simp: window_of_offset_def word_less_nat_alt word_le_nat_alt)
    ultimately show ?thesis
      by (auto simp: decode_window_io [OF Some] scsi_addr_to_pb_io [OF True] Let_def)
  qed
next
  case False
  have "decode_window a \<noteq> SCSI"
    using False by (auto simp: decode_window_def q700_io_offset_def split: if_splits)
  then show ?thesis using False by (simp add: scsi_addr_to_pb_other)
qed

text \<open>The register decode: an address the SCSI bridge accepts selects one of the sixteen NCR
  registers by its bits 7..4, or the pseudo-DMA port at 0x100 or 0x101, the same for every mirror.\<close>

theorem scsi_register_decode:
  assumes "scsi_addr_to_pb a = Some pb"
  shows "(a AND 0x3ffff < 0xF100 \<and> pb = ucast (drop_bit 4 a AND 0xf) \<and> pb < 16) \<or>
         (a AND 0x3ffff = 0xF100 \<and> pb = 0x100) \<or> (a AND 0x3ffff = 0xF101 \<and> pb = 0x101)"
proof -
  have p: "drop_bit 24 a = 0x50" using assms scsi_addr_to_pb_other by force
  let ?y = "a AND 0x3ffff"
  have r: "\<not> ?y < 0xF000" "\<not> ?y \<ge> 0xF102" using assms by (auto simp: scsi_addr_to_pb_io [OF p] Let_def split: if_splits)
  have nibble: "unat (drop_bit 4 x AND 0xf) = unat x div 16 mod 16" for x :: u32
  proof -
    have m: "(0xf :: u32) = mask 4" by (simp add: mask_eq_exp_minus_1)
    show ?thesis unfolding m
      by (simp add: unat_div unat_mod drop_bit_eq_div
          take_bit_eq_mod flip: take_bit_eq_mask)
  qed
  have off: "unat (?y - 0xF000) = unat ?y - 0xF000"
    using r(1) by (subst unat_sub) (simp_all add: word_le_nat_alt word_less_nat_alt)
  have y: "unat ?y = unat a mod 2 ^ 18"
  proof -
    have m: "(0x3ffff :: u32) = mask 18" by (simp add: mask_eq_exp_minus_1)
    show ?thesis unfolding m by (simp add: unat_mod take_bit_eq_mod flip: take_bit_eq_mask)
  qed
  have nib: "drop_bit 4 (?y - 0xF000) AND 0xf = drop_bit 4 a AND 0xf"
  proof -
    obtain k where k: "unat ?y = 0xF00 * 16 + k"
      using r(1) le_Suc_ex [of "0xF000" "unat ?y"] by (auto simp: word_less_nat_alt not_less)
    have "(unat ?y - 0xF000) div 16 mod 16 = unat ?y div 16 mod 16"
    proof -
      have "unat ?y div 16 = 0xF0 * 16 + k div 16" unfolding k by (subst div_mult_self3) simp_all
      then have "unat ?y div 16 mod 16 = k div 16 mod 16" by (simp only: mod_mult_self3)
      then show ?thesis by (simp add: k)
    qed
    also have "\<dots> = take_bit 4 (drop_bit 4 (take_bit 18 (unat a)))"
      by (simp add: y take_bit_eq_mod drop_bit_eq_div)
    also have "\<dots> = take_bit 4 (drop_bit 4 (unat a))" by (simp add: drop_bit_take_bit)
    also have "\<dots> = unat a div 16 mod 16" by (simp add: take_bit_eq_mod drop_bit_eq_div)
    finally show ?thesis by (simp add: word_unat_eq_iff nibble off)
  qed
  have lt: "ucast (x AND 0xf) < (16 :: u16)" for x :: u32
  proof -
    have m: "(0xf :: u32) = mask 4" by (simp add: mask_eq_exp_minus_1)
    show ?thesis unfolding m
      by (simp add: word_less_nat_alt unsigned_ucast_eq unat_mod take_bit_eq_mod
          flip: take_bit_eq_mask)
  qed
  show ?thesis
  proof (cases "?y - 0xF000 < 0x100")
    case True
    then have "?y < 0xF100" using r off by (simp add: word_less_nat_alt)
    then show ?thesis using assms True r lt [of "drop_bit 4 a"]
      by (auto simp: scsi_addr_to_pb_io [OF p] Let_def nib)
  next
    case False
    then have "?y = 0xF100 \<or> ?y = 0xF101"
      using r off by (auto simp: word_less_nat_alt word_le_nat_alt word_unat_eq_iff)
    then show ?thesis using assms False r by (auto simp: scsi_addr_to_pb_io [OF p] Let_def)
  qed
qed

theorem scsi_register_decode_witness:
  "scsi_addr_to_pb 0x50F0F045 = Some 4 \<and> (4 :: u16) = ucast (drop_bit 4 (0x50F0F045 :: u32) AND 0xf)"
proof -
  have "scsi_addr_to_pb 0x50F0F045 = Some 4"
    by (simp add: scsi_addr_to_pb_def canonical_addr_def Q700_IO_MIRROR_MASK_def SCSI_BASE_def
        SCSI_END_def)
  with scsi_register_decode [OF this] show ?thesis by simp
qed

section \<open>Transactions\<close>

definition scsi_finish ::
    "'s scsi_dut \<Rightarrow> request \<Rightarrow> nat \<Rightarrow> 's scsi_bridge \<Rightarrow> response \<times> 's scsi_bridge" where
  "scsi_finish M req i b =
     (let b1 = scsi_tick M b; wr = (rq_op req = OP_WRITE)
      in (mk_response RESP_OKAY
            (if wr then 0 else scsi_lane_replicate (ucast (sx_rdata M (sb_dut b1) AND 0xff)) (rq_size req))
            (of_nat (i + 1)) 0,
          scsi_tick M (scsi_set_pins (\<lambda>p. if wr then p\<lparr>pb_wr := False\<rparr> else p\<lparr>pb_rd := False\<rparr>) b1)))"

definition scsi_timeout :: "request \<Rightarrow> 's scsi_bridge \<Rightarrow> response \<times> 's scsi_bridge" where
  "scsi_timeout req b =
     (mk_response RESP_TIMEOUT 0 64 0,
      scsi_set_pins (\<lambda>p. if rq_op req = OP_WRITE then p\<lparr>pb_wr := False\<rparr> else p\<lparr>pb_rd := False\<rparr>) b)"

definition scsi_loop ::
    "'s scsi_dut \<Rightarrow> request \<Rightarrow> nat \<Rightarrow> nat \<Rightarrow> 's scsi_bridge \<Rightarrow> response \<times> 's scsi_bridge" where
  "scsi_loop M req = (if rq_op req = OP_WRITE then scsi_write_loop M else scsi_read_loop M (rq_size req))"

interpretation scsi: poll_loop "scsi_loop M req" "\<lambda>b. sx_ack M (sb_dut (scsi_tick M b))" "scsi_tick M"
    "scsi_finish M req" "scsi_timeout req" for M :: "'s scsi_dut" and req
  by unfold_locales
     (simp_all add: scsi_loop_def scsi_finish_def scsi_timeout_def Let_def SCSI_MAX_WAIT_CYCLES_def)

lemma scsi_tick_sel [simp]:
  "sb_sim_time (scsi_tick M b) = sb_sim_time b + 1"
  "sb_pins (scsi_tick M b) = (sb_pins b)\<lparr>sp_clk := True\<rparr>"
  by (simp_all add: scsi_tick_def scsi_eval_def scsi_set_pins_def Let_def)

lemma scsi_ticks_sim_time [simp]: "sb_sim_time ((scsi_tick M ^^ n) b) = sb_sim_time b + of_nat n"
  by (induction n) (simp_all add: algebra_simps)

lemma scsi_ticks_pins: "sb_pins ((scsi_tick M ^^ n) b) = (sb_pins b)\<lparr>sp_clk := sp_clk (sb_pins b) \<or> 0 < n\<rparr>"
  by (induction n) simp_all

text \<open>C39 What a SCSI access does: an address outside the window gets DECERR and touches nothing;
  otherwise the strobe and the data byte are held on the bus until the first acknowledge within 64
  clocks, whose data answers a read, or a TIMEOUT after 64; in every case the strobes are low again
  at the end.\<close>

theorem transact_scsi_outcome:
  "case scsi_addr_to_pb (rq_addr req) of
     None \<Rightarrow> transact_scsi M req b = (mk_response RESP_DECERR 0 0 0, b)
   | Some pb \<Rightarrow>
       let wr = (rq_op req = OP_WRITE);
           b0 = scsi_setup wr pb (if wr then write_byte_from_request req else 0) b;
           bus = (\<lambda>i. (scsi_tick M ^^ i) b0);
           (resp, b') = transact_scsi M req b
       in ((\<exists>i < 64. sx_ack M (sb_dut (bus (Suc i))) \<and> (\<forall>j < i. \<not> sx_ack M (sb_dut (bus (Suc j)))) \<and>
              (resp, b') = scsi_finish M req i (bus i) \<and>
              sb_sim_time b' = sb_sim_time b + of_nat (i + 2)) \<or>
           ((\<forall>i < 64. \<not> sx_ack M (sb_dut (bus (Suc i)))) \<and> (resp, b') = scsi_timeout req (bus 64) \<and>
              sb_sim_time b' = sb_sim_time b + 64)) \<and>
          \<not> pb_wr (sb_pins b') \<and> \<not> pb_rd (sb_pins b')"
proof (cases "scsi_addr_to_pb (rq_addr req)")
  case None
  then show ?thesis by (simp add: transact_scsi_def)
next
  case (Some pb)
  let ?wr = "rq_op req = OP_WRITE"
  let ?b0 = "scsi_setup ?wr pb (if ?wr then write_byte_from_request req else 0) b"
  have t: "transact_scsi M req b = scsi_loop M req 0 64 ?b0"
    using Some by (simp add: transact_scsi_def scsi_loop_def SCSI_MAX_WAIT_CYCLES_def)
  have f: "sb_sim_time (snd (scsi_finish M req i ((scsi_tick M ^^ i) ?b0))) = sb_sim_time b + of_nat (i + 2)"
      "\<not> pb_wr (sb_pins (snd (scsi_finish M req i ((scsi_tick M ^^ i) ?b0))))"
      "\<not> pb_rd (sb_pins (snd (scsi_finish M req i ((scsi_tick M ^^ i) ?b0))))" for i
    by (simp_all add: scsi_finish_def Let_def scsi_set_pins_def scsi_setup_def scsi_ticks_pins)
  have o: "sb_sim_time (snd (scsi_timeout req ((scsi_tick M ^^ 64) ?b0))) = sb_sim_time b + 64"
      "\<not> pb_wr (sb_pins (snd (scsi_timeout req ((scsi_tick M ^^ 64) ?b0))))"
      "\<not> pb_rd (sb_pins (snd (scsi_timeout req ((scsi_tick M ^^ 64) ?b0))))"
    by (simp_all add: scsi_timeout_def scsi_set_pins_def scsi_setup_def scsi_ticks_pins)
  show ?thesis
    using scsi.loop_outcome [of 64 M ?b0 req 0] f o
    unfolding t [symmetric] by (auto simp: Some Let_def split_def)
qed

text \<open>A concrete design for evaluation: it acknowledges after a countdown and reads as a constant.\<close>

definition demo_scsi :: "nat scsi_dut" where
  "demo_scsi = \<lparr>sx_eval = (\<lambda>p n. if sp_clk p then n - 1 else n), sx_ack = (\<lambda>n. n = 0),
     sx_rdata = (\<lambda>_. 0x5a)\<rparr>"

definition demo_scsi_bridge :: "nat \<Rightarrow> nat scsi_bridge" where
  "demo_scsi_bridge n = \<lparr>sb_pins = \<lparr>sp_clk = False, sp_rst = False, pb_addr = 0, pb_wdata = 0,
     pb_wr = False, pb_rd = False, sd_busy = False, sd_done = False, sd_error = False,
     sd_rd_valid = False, sd_rd_data = 0, sd_wr_ready = False\<rparr>, sb_dut = n, sb_sim_time = 0\<rparr>"

theorem transact_scsi_outcome_witness:
  "fst (transact_scsi demo_scsi (v1_request OP_READ 1 0x50F0F040 0) (demo_scsi_bridge 1)) =
     mk_response RESP_OKAY 0x5a5a5a5a 1 0"
proof -
  let ?r = "v1_request OP_READ 1 0x50F0F040 0" and ?b = "demo_scsi_bridge 1"
  have pb: "scsi_addr_to_pb (rq_addr ?r) = Some 4"
    by (simp add: v1_request_def scsi_addr_to_pb_def canonical_addr_def Q700_IO_MIRROR_MASK_def
        SCSI_BASE_def SCSI_END_def)
  have ack: "sx_ack demo_scsi (sb_dut (scsi_tick demo_scsi (scsi_setup False 4 0 ?b)))"
    by (simp add: demo_scsi_def demo_scsi_bridge_def scsi_tick_def scsi_eval_def scsi_set_pins_def
        scsi_setup_def Let_def)
  have rd: "rq_op ?r \<noteq> OP_WRITE" by (simp add: v1_request_def OP_READ_def OP_WRITE_def)
  have "transact_scsi demo_scsi ?r ?b = scsi_finish demo_scsi ?r 0 (scsi_setup False 4 0 ?b)"
    using transact_scsi_outcome [of demo_scsi ?r ?b] ack unfolding pb
    by (auto simp: Let_def rd split: prod.splits) (metis (no_types) funpow_0 gr0I, force)
  then show ?thesis
    by (simp add: scsi_finish_def Let_def rd scsi_lane_replicate_def, simp add: demo_scsi_def v1_request_def)
qed

section \<open>The client of the current protocol version\<close>

text \<open>Version mismatch: every request the present Python client packs (version 2, 24 bytes) is
  rejected by this endpoint, which knows version 1 only: it answers DECERR without touching the
  design, and the last four bytes of the frame are left in the stream as the start of the next.\<close>

theorem scsi_rejects_v2_client:
  "let raw = py_request_pack op sz addr data wstrb pc cyc
   in scsi_answer M (take 20 raw) b = (mk_response RESP_DECERR 0 0 0, b) \<and>
      scsi_read_exact 20 [RdData raw] = (Some (take 20 raw), [RdData (put_be32 cyc)])"
  by (simp add: scsi_answer_def scsi_decode_request_def py_request_pack_def wire_layout Let_def
      eval_nat_numeral)

section \<open>The connection\<close>

text \<open>The contract: whole frames of 20 bytes are answered in order; a rest that is shorter is not.\<close>

function scsi_serve_stream ::
    "'s scsi_dut \<Rightarrow> u8 list \<Rightarrow> 's scsi_bridge \<Rightarrow> response list \<times> 's scsi_bridge" where
  "scsi_serve_stream M bs b =
     (if length bs < 20 then ([], b)
      else let (resp, b') = scsi_answer M (take 20 bs) b;
               (resps, b'') = scsi_serve_stream M (drop 20 bs) b'
           in (resp # resps, b''))"
  by pat_completeness auto
termination
  by (relation "measure (\<lambda>(M, bs, b). length bs)") auto

declare scsi_serve_stream.simps [simp del]

definition ev_bytes :: "rd_ev list \<Rightarrow> u8 list" where
  "ev_bytes evs = concat (map (\<lambda>e. case e of RdData bs \<Rightarrow> bs | _ \<Rightarrow> []) evs)"

lemma ev_bytes_simps [simp]:
  "ev_bytes [] = []" "ev_bytes (RdData bs # evs) = bs @ ev_bytes evs"
  "ev_bytes (RdSignal # evs) = ev_bytes evs" "ev_bytes (RdErr # evs) = ev_bytes evs"
  by (simp_all add: ev_bytes_def)

definition uneventful :: "rd_ev list \<Rightarrow> bool" where
  "uneventful evs \<longleftrightarrow> RdErr \<notin> set evs \<and> RdData [] \<notin> set evs"

lemma scsi_read_exact_bytes:
  "uneventful evs \<Longrightarrow>
   (if length (ev_bytes evs) < n then fst (scsi_read_exact n evs) = None
    else fst (scsi_read_exact n evs) = Some (take n (ev_bytes evs)) \<and>
         ev_bytes (snd (scsi_read_exact n evs)) = drop n (ev_bytes evs) \<and>
         uneventful (snd (scsi_read_exact n evs)))"
  by (induction n evs rule: scsi_read_exact.induct)
     (auto simp: uneventful_def Let_def split_def split: if_splits)

lemma scsi_write_exact_bytes:
  "WrErr \<notin> set evs \<Longrightarrow>
   \<exists>evs'. scsi_write_exact buf evs = (True, buf, evs') \<and> WrErr \<notin> set evs'"
proof (induction buf evs rule: scsi_write_exact.induct)
  case (5 x xs n evs)
  then obtain evs' where "scsi_write_exact (drop n (x # xs)) evs = (True, drop n (x # xs), evs')"
    "WrErr \<notin> set evs'" by auto
  then show ?case by auto
qed auto

text \<open>Refinement of the SCSI connection loop: with reads and writes cut anywhere and interrupted by
  signals any number of times, but no failing call, the bytes sent and the final state are those of
  serving the byte stream frame by frame.\<close>

theorem scsi_serve_conn_refines_stream:
  assumes "uneventful revs" and "WrErr \<notin> set wevs"
  shows "scsi_serve_conn M revs wevs b =
    (let (resps, b') = scsi_serve_stream M (ev_bytes revs) b
     in (concat (map scsi_encode_response resps), b'))"
  using assms
proof (induction "length (ev_bytes revs)" arbitrary: revs wevs b rule: less_induct)
  case less
  note rd = scsi_read_exact_bytes [OF less.prems(1), of 20]
  show ?case
  proof (cases "length (ev_bytes revs) < 20")
    case True
    then have "fst (scsi_read_exact 20 revs) = None" using rd by simp
    then show ?thesis using True
      by (subst scsi_serve_conn.simps, subst scsi_serve_stream.simps)
         (simp add: case_prod_beta)
  next
    case False
    obtain revs' where r: "scsi_read_exact 20 revs = (Some (take 20 (ev_bytes revs)), revs')"
        "ev_bytes revs' = drop 20 (ev_bytes revs)" "uneventful revs'"
      using rd False by (metis prod.collapse)
    obtain resp b' where a: "scsi_answer M (take 20 (ev_bytes revs)) b = (resp, b')" by fastforce
    obtain wevs' where w: "scsi_write_exact (scsi_encode_response resp) wevs =
        (True, scsi_encode_response resp, wevs')" "WrErr \<notin> set wevs'"
      using scsi_write_exact_bytes [OF less.prems(2)] by blast
    have "length (ev_bytes revs') < length (ev_bytes revs)" using r(2) False by simp
    from less.hyps [OF this r(3) w(2), of b'] show ?thesis
      using False
      by (subst scsi_serve_conn.simps, subst scsi_serve_stream.simps)
         (simp add: r a w Let_def split_def)
  qed
qed

theorem scsi_serve_conn_refines_stream_witness:
  "scsi_serve_conn demo_scsi
     [RdSignal, RdData [0x4D, 0x52], RdSignal, RdData (replicate 18 0)] [WrSignal, WrSent 1]
     (demo_scsi_bridge 0) =
   ([0x4D, 0x52, 0x54, 0x42, 1, 3, 0, 0, 0, 0, 0, 0, 0, 0, 0, 0], demo_scsi_bridge 0)"
proof -
  let ?bs = "[0x4D, 0x52] @ replicate 18 (0 :: u8)"
  have "scsi_serve_stream demo_scsi ?bs (demo_scsi_bridge 0) =
      ([mk_response RESP_DECERR 0 0 0], demo_scsi_bridge 0)"
    by (simp add: scsi_serve_stream.simps scsi_answer_def scsi_decode_request_def MAGIC_def
        numeral_eq_Suc)
  then show ?thesis
    using scsi_serve_conn_refines_stream [of "[RdSignal, RdData [0x4D, 0x52], RdSignal,
        RdData (replicate 18 0)]" "[WrSignal, WrSent 1]" demo_scsi "demo_scsi_bridge 0"]
    by (simp add: uneventful_def scsi_encode_response_def MAGIC_def put_be32_def RESP_DECERR_def)
qed

end
