(* ===== verification/Rom_Patches.thy ===== *)
theory Rom_Patches
  imports Soc_Prelude
begin

unbundle bit_operations_syntax

text \<open>
  The ROM patch sets (\<open>tb/models/rom_patch_sets.h\<close>) and the three programs that use them: the ROM
  boot harness (\<open>tb/tb_rom_boot.cpp\<close>), \<open>tools/mame_patch_rom.cpp\<close> and
  \<open>tools/dump_rom_patches.cpp\<close>.  A patch vector is a list; the functions that append to it return the
  extended list, so a run of calls is \<open>apply_all\<close> of the list of calls.  A process that exits with a
  status is \<open>Inl\<close> of the status; the diagnostics on stderr are left out.
\<close>

section \<open>Patch bytes\<close>

record rom_patch =
  rp_off :: u32
  rp_value :: u8
  rp_set :: string
  rp_description :: string

type_synonym patch_list = "rom_patch list"

definition rom_patch_byte :: "u32 \<Rightarrow> u8 \<Rightarrow> string \<Rightarrow> string \<Rightarrow> patch_list \<Rightarrow> patch_list" where
  "rom_patch_byte off v st desc patches =
     patches @ [\<lparr>rp_off = off, rp_value = v, rp_set = st, rp_description = desc\<rparr>]"

definition rom_patch_blob :: "u32 \<Rightarrow> u8 list \<Rightarrow> string \<Rightarrow> string \<Rightarrow> patch_list \<Rightarrow> patch_list" where
  "rom_patch_blob off bytes st desc patches =
     fold (\<lambda>i. rom_patch_byte (off + of_nat i) (bytes ! i) st desc) [0..<length bytes] patches"

definition rom_patch_word :: "u32 \<Rightarrow> u16 \<Rightarrow> string \<Rightarrow> string \<Rightarrow> patch_list \<Rightarrow> patch_list" where
  "rom_patch_word off v st desc patches =
     rom_patch_byte (off + 1) (ucast v) st desc
       (rom_patch_byte off (ucast (drop_bit 8 v)) st desc patches)"

definition rom_patch_long :: "u32 \<Rightarrow> u32 \<Rightarrow> string \<Rightarrow> string \<Rightarrow> patch_list \<Rightarrow> patch_list" where
  "rom_patch_long off v st desc patches =
     rom_patch_word (off + 2) (ucast v) st desc
       (rom_patch_word off (ucast (drop_bit 16 v)) st desc patches)"

definition rom_patch_nop_word :: "u32 \<Rightarrow> string \<Rightarrow> string \<Rightarrow> patch_list \<Rightarrow> patch_list" where
  "rom_patch_nop_word off st desc = rom_patch_word off 0x4e71 st desc"

definition rom_patch_return :: "u32 \<Rightarrow> string \<Rightarrow> string \<Rightarrow> patch_list \<Rightarrow> patch_list" where
  "rom_patch_return off st desc = rom_patch_word off 0x4ed6 st desc"

definition apply_all :: "('a \<Rightarrow> 'a) list \<Rightarrow> 'a \<Rightarrow> 'a" where
  "apply_all fs x = fold (\<lambda>f. f) fs x"

section \<open>The sets\<close>

definition add_rom_checksum_fast_patches :: "patch_list \<Rightarrow> patch_list" where
  "add_rom_checksum_fast_patches =
    (let st = ''checksum-fast''
    in apply_all [
      rom_patch_nop_word 0x474dc st ''bound byte-lane checksum loop after first sample'',
      rom_patch_word 0x474de 0xb080 st ''force byte-lane checksum lane 0 compare success'',
      rom_patch_word 0x474e6 0xb281 st ''force byte-lane checksum lane 1 compare success'',
      rom_patch_word 0x474ee 0xb482 st ''force byte-lane checksum lane 2 compare success'',
      rom_patch_word 0x474f6 0xb683 st ''force byte-lane checksum lane 3 compare success'',
      rom_patch_nop_word 0x4751c st ''bound word-sum checksum loop after first sample'',
      rom_patch_word 0x47522 0xb281 st ''force word-sum checksum compare success''])"

definition add_rom_meminit_fast_patches :: "patch_list \<Rightarrow> patch_list" where
  "add_rom_meminit_fast_patches =
    (let st = ''meminit-fast''
    in apply_all [
      rom_patch_nop_word 0x472b0 st ''bound forward RAM fill loop'',
      rom_patch_nop_word 0x472c2 st ''bound forward RAM tail-fill loop'',
      rom_patch_nop_word 0x47334 st ''bound forward RAM verify DBF loop'',
      rom_patch_nop_word 0x47336 st ''bound forward RAM verify DBF loop'',
      rom_patch_nop_word 0x4733e st ''bound forward RAM verify long loop'',
      rom_patch_word 0x47340 0x6000 st
        ''exit forward RAM helper after bounded successful sample'',
      rom_patch_word 0x47342 0x003a st
        ''exit forward RAM helper after bounded successful sample'',
      rom_patch_word 0x47348 0xb281 st ''force forward RAM retry compare success'',
      rom_patch_word 0x47366 0x8c86 st ''preserve D6 while accepting forward RAM sample'',
      rom_patch_nop_word 0x473bc st ''bound reverse RAM fill loop'',
      rom_patch_nop_word 0x473ca st ''bound reverse RAM tail-fill loop'',
      rom_patch_nop_word 0x4743e st ''bound reverse RAM verify DBF loop'',
      rom_patch_nop_word 0x47440 st ''bound reverse RAM verify DBF loop'',
      rom_patch_nop_word 0x47448 st ''bound reverse RAM verify long loop'',
      rom_patch_word 0x4744a 0x6000 st
        ''exit reverse RAM helper after bounded successful sample'',
      rom_patch_word 0x4744c 0x0036 st
        ''exit reverse RAM helper after bounded successful sample'',
      rom_patch_word 0x47452 0xb281 st ''force reverse RAM retry compare success'',
      rom_patch_word 0x4746e 0x8c86 st ''preserve D6 while accepting reverse RAM sample'',
      rom_patch_nop_word 0x4753e st ''bound walking-pattern zero-fill loop'',
      rom_patch_nop_word 0x4754c st ''bound walking-pattern forward invert loop'',
      rom_patch_nop_word 0x47556 st ''bound walking-pattern reverse verify loop'',
      rom_patch_nop_word 0x47562 st ''bound walking-pattern forward verify loop'',
      rom_patch_nop_word 0x4756c st ''bound walking-pattern reverse restore loop'',
      rom_patch_nop_word 0x47578 st ''bound walking-pattern final verify loop'',
      rom_patch_nop_word 0x47604 st ''bound single-address walking-bit loop'',
      rom_patch_nop_word 0x47606 st ''bound single-address walking-bit loop''])"

definition add_rom_ramtest_mame_state_patches :: "patch_list \<Rightarrow> patch_list" where
  "add_rom_ramtest_mame_state_patches =
    (let st = ''ramtest-mame-state''
    in apply_all [
      rom_patch_word 0x47280 0x7000 st ''MAME-derived forward RAM helper fast path: D0=0'',
      rom_patch_word 0x47282 0x7200 st ''MAME-derived forward RAM helper fast path: D1=0'',
      rom_patch_word 0x47284 0x7400 st ''MAME-derived forward RAM helper fast path: D2=0'',
      rom_patch_word 0x47286 0x263c st
        ''MAME-derived forward RAM helper fast path: D3=0x6db6db6d'',
      rom_patch_long 0x47288 0x6db6db6d st
        ''MAME-derived forward RAM helper fast path: D3=0x6db6db6d'',
      rom_patch_word 0x4728c 0x283c st
        ''MAME-derived forward RAM helper fast path: D4=0xb6db6db6'',
      rom_patch_long 0x4728e 0xb6db6db6 st
        ''MAME-derived forward RAM helper fast path: D4=0xb6db6db6'',
      rom_patch_word 0x47292 0x2a3c st
        ''MAME-derived forward RAM helper fast path: D5=0xdb6db6db'',
      rom_patch_long 0x47294 0xdb6db6db st
        ''MAME-derived forward RAM helper fast path: D5=0xdb6db6db'',
      rom_patch_word 0x47298 0x7c00 st
        ''MAME-derived forward RAM helper fast path: D6=0, CCR=Z'',
      rom_patch_word 0x4729a 0x45e9 st ''MAME-derived forward RAM helper fast path: A2=A1-4'',
      rom_patch_word 0x4729c 0xfffc st ''MAME-derived forward RAM helper fast path: A2=A1-4'',
      rom_patch_word 0x4729e 0x46fc st ''MAME-derived forward RAM helper fast path: SR=0x2714'',
      rom_patch_word 0x472a0 0x2714 st ''MAME-derived forward RAM helper fast path: SR=0x2714'',
      rom_patch_word 0x472a2 0x4ed6 st
        ''MAME-derived forward RAM helper fast path: return through A6''])"

definition add_rom_alias_probe_mame_state_patches :: "patch_list \<Rightarrow> patch_list" where
  "add_rom_alias_probe_mame_state_patches =
    (let st = ''alias-probe-mame-state'';
      code = [0x0c, 0x07, 0x00, 0x13, 0x67, 0x06, 0x76, 0xff, 0x78, 0xff, 0x60, 0x0c,
        0x26, 0x3c, 0x88, 0x88, 0x88, 0x88, 0x28, 0x3c, 0x00, 0x88, 0x88, 0x88,
        0x20, 0x7c, 0x00, 0x00, 0x00, 0x00, 0x20, 0x83, 0x21, 0x44, 0x00, 0x04,
        0x2a, 0x7c, 0x40, 0x80, 0x3b, 0xb8, 0x3e, 0x7c, 0x00, 0x10, 0x20, 0x3c,
        0x00, 0x40, 0x00, 0x00, 0x22, 0x3c, 0xab, 0x96, 0x91, 0x9e, 0x74, 0x08,
        0x76, 0x0f, 0x78, 0x00, 0x7a, 0x01, 0x7c, 0x00, 0x20, 0x7c, 0xff, 0xff,
        0xff, 0xff, 0x22, 0x7c, 0x08, 0x00, 0x00, 0x00, 0x2c, 0x7c, 0x40, 0x84,
        0xbb, 0xa0, 0x46, 0xfc, 0x27, 0x04, 0x4e, 0xf9, 0x40, 0x84, 0xbc, 0x38]
    in apply_all [
      rom_patch_blob 0x4bb74 code st ''MAME-derived RAM lane/alias probe fast path''])"

definition add_rom_ram_list_sentinel_fast_patches :: "patch_list \<Rightarrow> patch_list" where
  "add_rom_ram_list_sentinel_fast_patches =
    (let st = ''ram-list-sentinel-fast''
    in apply_all [
      rom_patch_word 0x46ed0 0x70ff st ''RAM descriptor sentinel fast path: synthesize D0=-1'',
      rom_patch_word 0x46ed2 0x2040 st ''RAM descriptor sentinel fast path: synthesize A0=-1'',
      rom_patch_word 0x46ed4 0x5280 st ''RAM descriptor sentinel fast path: set Z for A0=-1''])"

definition add_rom_macsbug_feature_bit17_patches :: "patch_list \<Rightarrow> patch_list" where
  "add_rom_macsbug_feature_bit17_patches =
    (let st = ''macsbug-feature-bit17''
    in apply_all [
      rom_patch_byte 0x3925 0xa2 st
        ''Q700 desc feature D0: set bit 17 (MacsBug serial I/O present)''])"

definition add_rom_via_timer_mame_state_patches :: "patch_list \<Rightarrow> patch_list" where
  "add_rom_via_timer_mame_state_patches =
    (let st = ''via-timer-mame-state'';
      first_wait = [0x76, 0x0a, 0x38, 0x3c, 0x00, 0xa5, 0x7a, 0x01, 0x4e, 0x71];
      second_wait = [0x76, 0x0a, 0x78, 0x01, 0x7a, 0x01, 0x4e, 0x71, 0x4e, 0x71]
    in apply_all [
      rom_patch_blob 0x47bf6 first_wait st
        ''MAME-derived VIA timer first wait exit: D3=10,D4=0x00a5,D5=1'',
      rom_patch_blob 0x47caa second_wait st
        ''MAME-derived VIA timer second wait exit: D3=10,D4=1,D5=1''])"

definition add_rom_adb_init_wait_patches :: "patch_list \<Rightarrow> patch_list" where
  "add_rom_adb_init_wait_patches =
    (let st = ''adb-init-wait''
    in apply_all [
      rom_patch_nop_word 0x0a8e6 st ''skip ADB manager init busy-wait status test'',
      rom_patch_nop_word 0x0a8e8 st ''skip ADB manager init busy-wait status test'',
      rom_patch_nop_word 0x0a8ea st ''skip ADB manager init busy-wait status operand'',
      rom_patch_nop_word 0x0a8ec st ''skip ADB manager init busy-wait branch''])"

definition add_rom_video_diag_success_patches :: "patch_list \<Rightarrow> patch_list" where
  "add_rom_video_diag_success_patches =
    (let st = ''video-diag-success''
    in apply_all [
      rom_patch_word 0x49ade 0x4286 st
        ''force video/VRAM diagnostic success before ROM monitor gate''])"

definition add_rom_sad_mac_boot_skip_patches :: "patch_list \<Rightarrow> patch_list" where
  "add_rom_sad_mac_boot_skip_patches =
    (let st = ''sad-mac-boot-skip''
    in apply_all [
      rom_patch_nop_word 0x46f96 st ''skip Sad Mac branch after boot component failure'',
      rom_patch_nop_word 0x46f98 st ''skip Sad Mac branch after boot component failure'',
      rom_patch_nop_word 0x46fac st ''skip Sad Mac branch after boot component scan'',
      rom_patch_nop_word 0x46fae st ''skip Sad Mac branch after boot component scan''])"

definition add_rom_rtc_pram_mame_state_patches :: "patch_list \<Rightarrow> patch_list" where
  "add_rom_rtc_pram_mame_state_patches =
    (let st = ''rtc-pram-mame-state''
    in apply_all [
      rom_patch_word 0x4721c 0x203c st ''MAME-derived RTC/PRAM fast path: D0=4 MB'',
      rom_patch_long 0x4721e 0x00400000 st ''MAME-derived RTC/PRAM fast path: D0=4 MB'',
      rom_patch_word 0x47222 0x223c st ''MAME-derived RTC/PRAM fast path: D1=0x900'',
      rom_patch_long 0x47224 0x00000900 st ''MAME-derived RTC/PRAM fast path: D1=0x900'',
      rom_patch_word 0x47228 0x243c st ''MAME-derived RTC/PRAM fast path: D2=0xdc001008'',
      rom_patch_long 0x4722a 0xdc001008 st ''MAME-derived RTC/PRAM fast path: D2=0xdc001008'',
      rom_patch_word 0x4722e 0x263c st ''MAME-derived RTC/PRAM fast path: D3=4 MB'',
      rom_patch_long 0x47230 0x00400000 st ''MAME-derived RTC/PRAM fast path: D3=4 MB'',
      rom_patch_word 0x47234 0x283c st ''MAME-derived RTC/PRAM fast path: D4=0x40846eae'',
      rom_patch_long 0x47236 0x40846eae st ''MAME-derived RTC/PRAM fast path: D4=0x40846eae'',
      rom_patch_word 0x4723a 0x2a3c st ''MAME-derived RTC/PRAM fast path: D5=-1'',
      rom_patch_long 0x4723c 0xffffffff st ''MAME-derived RTC/PRAM fast path: D5=-1'',
      rom_patch_word 0x47240 0x7c00 st ''MAME-derived RTC/PRAM fast path: D6=0'',
      rom_patch_word 0x47242 0x7e03 st ''MAME-derived RTC/PRAM fast path: D7=3'',
      rom_patch_word 0x47244 0x207c st ''MAME-derived RTC/PRAM fast path: A0=0'',
      rom_patch_long 0x47246 0x00000000 st ''MAME-derived RTC/PRAM fast path: A0=0'',
      rom_patch_word 0x4724a 0x227c st ''MAME-derived RTC/PRAM fast path: A1=0x003fffd4'',
      rom_patch_long 0x4724c 0x003fffd4 st ''MAME-derived RTC/PRAM fast path: A1=0x003fffd4'',
      rom_patch_word 0x47250 0x247c st ''MAME-derived RTC/PRAM fast path: A2=0x40846ffa'',
      rom_patch_long 0x47252 0x40846ffa st ''MAME-derived RTC/PRAM fast path: A2=0x40846ffa'',
      rom_patch_word 0x47256 0x267c st ''MAME-derived RTC/PRAM fast path: A3=-1'',
      rom_patch_long 0x47258 0xffffffff st ''MAME-derived RTC/PRAM fast path: A3=-1'',
      rom_patch_word 0x4725c 0x287c st ''MAME-derived RTC/PRAM fast path: A4=0x003fffdc'',
      rom_patch_long 0x4725e 0x003fffdc st ''MAME-derived RTC/PRAM fast path: A4=0x003fffdc'',
      rom_patch_word 0x47262 0x2a7c st ''MAME-derived RTC/PRAM fast path: A5=0x003fffd4'',
      rom_patch_long 0x47264 0x003fffd4 st ''MAME-derived RTC/PRAM fast path: A5=0x003fffd4'',
      rom_patch_word 0x47268 0x2c7c st ''MAME-derived RTC/PRAM fast path: A6=0x40846ef2'',
      rom_patch_long 0x4726a 0x40846ef2 st ''MAME-derived RTC/PRAM fast path: A6=0x40846ef2'',
      rom_patch_word 0x4726e 0x2e7c st ''MAME-derived RTC/PRAM fast path: A7=0x00007ffc'',
      rom_patch_long 0x47270 0x00007ffc st ''MAME-derived RTC/PRAM fast path: A7=0x00007ffc'',
      rom_patch_word 0x47274 0x46fc st ''MAME-derived RTC/PRAM fast path: SR=0x2718'',
      rom_patch_word 0x47276 0x2718 st ''MAME-derived RTC/PRAM fast path: SR=0x2718'',
      rom_patch_word 0x47278 0x6006 st ''MAME-derived RTC/PRAM fast path: branch to 0x40847280''])"

definition add_legacy_diag_loop_patches :: "patch_list \<Rightarrow> patch_list" where
  "add_legacy_diag_loop_patches =
    apply_all [
      rom_patch_return 0x4749e ''checksum-unsafe''
        ''legacy whole-helper return from byte-lane ROM checksum helper'',
      rom_patch_return 0x47500 ''checksum-unsafe''
        ''legacy whole-helper return from word-sum ROM checksum helper'',
      rom_patch_return 0x47280 ''diag-loops-unsafe''
        ''legacy whole-helper return from forward RAM pattern helper'',
      rom_patch_return 0x47398 ''diag-loops-unsafe''
        ''legacy whole-helper return from reverse RAM pattern helper'',
      rom_patch_return 0x4752c ''diag-loops-unsafe''
        ''legacy whole-helper return from RAM walking-pattern helper'',
      rom_patch_return 0x475e8 ''diag-loops-unsafe''
        ''legacy whole-helper return from single-address walking-bit helper'']"

text \<open>The calls each branch of \<open>add_rom_patch_set\<close> makes, and the function itself.\<close>

definition patch_set_calls :: "string \<Rightarrow> (patch_list \<Rightarrow> patch_list) list option" where
  "patch_set_calls set_name =
    (if set_name = ''checksum-fast'' then
       Some [add_rom_checksum_fast_patches]
     else if set_name = ''meminit-fast'' then
       Some [add_rom_meminit_fast_patches]
     else if set_name = ''ramtest-mame-state'' \<or> set_name = ''mame-ramtest-fast'' then
       Some [add_rom_ramtest_mame_state_patches]
     else if set_name = ''rtc-pram-mame-state'' \<or> set_name = ''mame-pram-fast'' then
       Some [add_rom_rtc_pram_mame_state_patches]
     else if set_name = ''alias-probe-mame-state'' \<or> set_name = ''mame-alias-fast'' then
       Some [add_rom_alias_probe_mame_state_patches]
     else if set_name = ''ram-list-sentinel-fast'' then
       Some [add_rom_ram_list_sentinel_fast_patches]
     else if set_name = ''via-timer-mame-state'' \<or> set_name = ''mame-via-timer-fast'' then
       Some [add_rom_via_timer_mame_state_patches]
     else if set_name = ''adb-init-wait'' \<or> set_name = ''mame-adb-init-fast'' then
       Some [add_rom_adb_init_wait_patches]
     else if set_name = ''video-diag-success'' then
       Some [add_rom_video_diag_success_patches]
     else if set_name = ''sad-mac-boot-skip'' \<or> set_name = ''monitor-skip'' then
       Some [add_rom_sad_mac_boot_skip_patches]
     else if set_name = ''macsbug-feature-bit17'' \<or> set_name = ''monitor-feature-bit17'' then
       Some [add_rom_macsbug_feature_bit17_patches]
     else if set_name = ''mame-fastdiag'' \<or> set_name = ''mame-q700-fastdiag'' then
       Some [
         add_rom_checksum_fast_patches,
         add_rom_meminit_fast_patches,
         add_rom_ramtest_mame_state_patches,
         add_rom_alias_probe_mame_state_patches,
         add_rom_ram_list_sentinel_fast_patches,
         add_rom_via_timer_mame_state_patches]
     else if set_name = ''mame-firstlight'' \<or> set_name = ''mame-q700-firstlight'' then
       Some [
         add_rom_checksum_fast_patches,
         add_rom_meminit_fast_patches,
         add_rom_ramtest_mame_state_patches,
         add_rom_alias_probe_mame_state_patches,
         add_rom_ram_list_sentinel_fast_patches,
         add_rom_via_timer_mame_state_patches,
         add_rom_adb_init_wait_patches,
         rom_patch_nop_word 0x04160 ''scsi-delay''
           ''skip SCSI status DBF delay loop at 0x4080415a'',
         rom_patch_nop_word 0x04162 ''scsi-delay''
           ''skip SCSI status DBF delay loop at 0x4080415a'',
         rom_patch_nop_word 0x04174 ''scsi-delay''
           ''skip SCSI status DBF delay loop at 0x4080416e'',
         rom_patch_nop_word 0x04176 ''scsi-delay''
           ''skip SCSI status DBF delay loop at 0x4080416e'',
         rom_patch_nop_word 0x07118 ''chime-delay'' ''skip ASC chime inner DBF delay loop'',
         rom_patch_nop_word 0x0711a ''chime-delay'' ''skip ASC chime inner DBF delay loop'',
         rom_patch_nop_word 0x00888 ''timer-delay''
           ''skip VIA timer DBF delay loop at 0x40800888'',
         rom_patch_nop_word 0x0088a ''timer-delay''
           ''skip VIA timer DBF delay loop at 0x40800888'',
         rom_patch_nop_word 0x0089e ''scc-delay''
           ''skip SCC RR0 polling DBF delay loop at 0x4080089a'',
         rom_patch_nop_word 0x008a0 ''scc-delay''
           ''skip SCC RR0 polling DBF delay loop at 0x4080089a'']
     else if set_name = ''clean-fastdiag'' \<or> set_name = ''diag-loops'' \<or> set_name = ''fastdiag'' then
       Some [
         add_rom_checksum_fast_patches,
         add_rom_meminit_fast_patches]
     else if set_name = ''diag-loops-unsafe'' \<or> set_name = ''fastdiag-unsafe'' then
       Some [add_legacy_diag_loop_patches]
     else if set_name = ''checksum'' \<or> set_name = ''checksum-unsafe'' then
       Some [
         rom_patch_return 0x4749e ''checksum-unsafe''
           ''legacy whole-helper return from byte-lane ROM checksum helper'',
         rom_patch_return 0x47500 ''checksum-unsafe''
           ''legacy whole-helper return from word-sum ROM checksum helper'']
     else if set_name = ''chime-delay'' \<or> set_name = ''no-chime'' then
       Some [
         rom_patch_nop_word 0x07118 ''chime-delay'' ''skip ASC chime inner DBF delay loop'',
         rom_patch_nop_word 0x0711a ''chime-delay'' ''skip ASC chime inner DBF delay loop'',
         rom_patch_long 0x00000 0x420d0b0d ''chime-delay''
           ''word-sum checksum compensation for the 0x7118/0x711a patch'']
     else if set_name = ''chime-skip'' then
       Some [
         rom_patch_return 0x0706e ''chime-skip'' ''return from ASC chime routine'',
         rom_patch_long 0x00000 0x420dcc9e ''chime-skip''
           ''word-sum checksum compensation for the 0x706e patch'']
     else if set_name = ''timer-delay'' \<or> set_name = ''dbf-delay'' then
       Some [
         rom_patch_nop_word 0x00888 ''timer-delay''
           ''skip VIA timer DBF delay loop at 0x40800888'',
         rom_patch_nop_word 0x0088a ''timer-delay''
           ''skip VIA timer DBF delay loop at 0x40800888'']
     else if set_name = ''scc-delay'' \<or> set_name = ''serial-delay'' then
       Some [
         rom_patch_nop_word 0x0089e ''scc-delay''
           ''skip SCC RR0 polling DBF delay loop at 0x4080089a'',
         rom_patch_nop_word 0x008a0 ''scc-delay''
           ''skip SCC RR0 polling DBF delay loop at 0x4080089a'']
     else if set_name = ''scsi-delay'' then
       Some [
         rom_patch_nop_word 0x04160 ''scsi-delay''
           ''skip SCSI status DBF delay loop at 0x4080415a'',
         rom_patch_nop_word 0x04162 ''scsi-delay''
           ''skip SCSI status DBF delay loop at 0x4080415a'',
         rom_patch_nop_word 0x04174 ''scsi-delay''
           ''skip SCSI status DBF delay loop at 0x4080416e'',
         rom_patch_nop_word 0x04176 ''scsi-delay''
           ''skip SCSI status DBF delay loop at 0x4080416e'']
     else None)"

definition add_rom_patch_set :: "patch_list \<Rightarrow> string \<Rightarrow> bool \<times> patch_list" where
  "add_rom_patch_set patches set_name =
     (case patch_set_calls set_name of
        Some calls \<Rightarrow> (True, apply_all calls patches)
      | None \<Rightarrow> (False, patches))"

section \<open>Lists of sets\<close>

fun add_patch_set_list :: "patch_list \<Rightarrow> string list \<Rightarrow> nat + patch_list" where
  "add_patch_set_list patches [] = Inr patches"
| "add_patch_set_list patches (s # ss) =
     (if s = [] then add_patch_set_list patches ss
      else case add_rom_patch_set patches s of
             (True, patches') \<Rightarrow> add_patch_set_list patches' ss
           | (False, _) \<Rightarrow> Inl 2)"

definition add_patch_sets :: "patch_list \<Rightarrow> string \<Rightarrow> nat + patch_list" where
  "add_patch_sets patches spec = add_patch_set_list patches (getline_commas [] spec)"

text \<open>\<open>dump_rom_patches\<close> cuts with \<open>find\<close> and \<open>substr\<close>, which keeps a last empty piece, and skips
  empty pieces in \<open>apply_one\<close>.\<close>

definition apply_one :: "patch_list \<Rightarrow> string \<Rightarrow> bool \<times> patch_list" where
  "apply_one patches s = (if s = [] then (True, patches) else add_rom_patch_set patches s)"

lemma dropWhile_tail_shorter: "x \<in> set xs \<Longrightarrow> length (dropWhile P xs) - Suc 0 < length xs"
  using length_dropWhile_le [of P xs] by (cases xs) auto

function apply_list :: "patch_list \<Rightarrow> string \<Rightarrow> bool \<times> patch_list" where
  "apply_list patches rest =
     (let one = takeWhile (\<lambda>c. c \<noteq> CHR '','') rest; tail = dropWhile (\<lambda>c. c \<noteq> CHR '','') rest;
          (ok, patches') = apply_one patches one
      in if \<not> ok then (False, patches')
         else if tail = [] then (True, patches')
         else apply_list patches' (drop 1 tail))"
  by pat_completeness auto
termination
  by (relation "measure (\<lambda>(p, s). length s)")
     (auto intro: dropWhile_tail_shorter)

definition dump_rom_patches :: "string \<Rightarrow> nat + (u32 \<times> u8 \<times> string \<times> string) list" where
  "dump_rom_patches selector =
     (case apply_list [] selector of
        (False, _) \<Rightarrow> Inl 1
      | (True, patches) \<Rightarrow>
          Inr (map (\<lambda>p. (rp_off p, rp_value p, rp_set p, rp_description p)) patches))"

section \<open>Applying patches\<close>

fun patch_rom :: "patch_list \<Rightarrow> u8 list \<Rightarrow> nat + u8 list" where
  "patch_rom [] rom = Inr rom"
| "patch_rom (p # ps) rom =
     (if unat (rp_off p) \<ge> length rom then Inl 2
      else patch_rom ps (rom[unat (rp_off p) := rp_value p]))"

definition mame_patch_rom :: "string \<Rightarrow> u8 list \<Rightarrow> nat + u8 list" where
  "mame_patch_rom patch_spec rom =
     (case add_patch_sets [] patch_spec of Inl e \<Rightarrow> Inl e | Inr patches \<Rightarrow> patch_rom patches rom)"

text \<open>The boot harness keeps one patch per offset and exits on a conflict.\<close>

definition rom_patch_set_enables_ramtest_mame_state_fastfill :: "string \<Rightarrow> bool" where
  "rom_patch_set_enables_ramtest_mame_state_fastfill s \<longleftrightarrow>
     s = ''ramtest-mame-state'' \<or> s = ''mame-ramtest-fast'' \<or> s = ''mame-fastdiag'' \<or>
     s = ''mame-q700-fastdiag'' \<or> s = ''mame-firstlight'' \<or> s = ''mame-q700-firstlight''"

definition add_active_rom_patch_byte :: "patch_list \<Rightarrow> rom_patch \<Rightarrow> nat + patch_list" where
  "add_active_rom_patch_byte active p =
     (case find (\<lambda>q. rp_off q = rp_off p) active of
        Some q \<Rightarrow> if rp_value q \<noteq> rp_value p then Inl 2 else Inr active
      | None \<Rightarrow> Inr (active @ [p]))"

fun add_active_rom_patches :: "patch_list \<Rightarrow> patch_list \<Rightarrow> nat + patch_list" where
  "add_active_rom_patches active [] = Inr active"
| "add_active_rom_patches active (p # ps) =
     (case add_active_rom_patch_byte active p of
        Inl e \<Rightarrow> Inl e | Inr active' \<Rightarrow> add_active_rom_patches active' ps)"

fun configure_rom_patches :: "string list \<Rightarrow> bool \<times> patch_list \<Rightarrow> nat + bool \<times> patch_list" where
  "configure_rom_patches [] st = Inr st"
| "configure_rom_patches (s # ss) (fastfill, active) =
     (case add_rom_patch_set [] s of
        (False, _) \<Rightarrow> Inl 2
      | (True, new_patches) \<Rightarrow>
          (case add_active_rom_patches active new_patches of
             Inl e \<Rightarrow> Inl e
           | Inr active' \<Rightarrow>
               configure_rom_patches ss
                 (fastfill \<or> rom_patch_set_enables_ramtest_mame_state_fastfill s, active')))"

fun apply_in_order :: "patch_list \<Rightarrow> u8 list \<Rightarrow> bool \<times> u8 list" where
  "apply_in_order [] rom = (True, rom)"
| "apply_in_order (p # ps) rom =
     (if unat (rp_off p) \<ge> length rom then (False, rom)
      else apply_in_order ps (rom[unat (rp_off p) := rp_value p]))"

definition apply_active_rom_patches :: "patch_list \<Rightarrow> u8 list \<Rightarrow> bool \<times> u8 list" where
  "apply_active_rom_patches active rom =
     (if active = [] then (True, rom) else apply_in_order (sort_key rp_off active) rom)"

definition apply_rom_patches :: "string list \<Rightarrow> u8 list \<Rightarrow> nat + bool \<times> bool \<times> u8 list" where
  "apply_rom_patches sets rom =
     (case configure_rom_patches sets (False, []) of
        Inl e \<Rightarrow> Inl e
      | Inr (fastfill, active) \<Rightarrow> Inr (fastfill, apply_active_rom_patches active rom))"

end
