(* ===== verification/Rom_Patches_Props.thy ===== *)
theory Rom_Patches_Props
  imports Rom_Patches
begin

unbundle bit_operations_syntax

text \<open>
  Properties of the ROM patch sets: what bytes each set edits (as offset/value pairs, evaluated from
  the tables), that every set lies in the ROM at pairwise different offsets, that the boot harness
  and the MAME patcher produce the same image, that the two selector parsers agree, and the checksum
  compensation of the chime sets.
\<close>

section \<open>Edits\<close>

definition edits :: "patch_list \<Rightarrow> (u32 \<times> u8) list" where
  "edits ps = map (\<lambda>p. (rp_off p, rp_value p)) ps"

lemma edits_byte [simp]: "edits (rom_patch_byte off v st desc ps) = edits ps @ [(off, v)]"
  by (simp add: edits_def rom_patch_byte_def)

lemma edits_word [simp]:
  "edits (rom_patch_word off v st desc ps) = edits ps @ [(off, ucast (drop_bit 8 v)), (off + 1, ucast v)]"
  by (simp add: rom_patch_word_def)

lemma edits_long [simp]:
  "edits (rom_patch_long off v st desc ps) = edits ps @
     [(off, ucast (drop_bit 24 v)), (off + 1, ucast (drop_bit 16 v)), (off + 2, ucast (drop_bit 8 v)),
      (off + 3, ucast v)]"
proof -
  have "ucast (drop_bit 8 (ucast (drop_bit 16 v) :: u16)) = (ucast (drop_bit 24 v) :: u8)"
    "ucast (ucast (drop_bit 16 v) :: u16) = (ucast (drop_bit 16 v) :: u8)"
    "ucast (drop_bit 8 (ucast v :: u16)) = (ucast (drop_bit 8 v) :: u8)"
    "ucast (ucast v :: u16) = (ucast v :: u8)"
    by (rule bit_word_eqI, auto simp: bit_simps)+
  then show ?thesis by (simp add: rom_patch_long_def add.assoc)
qed

lemma edits_nop [simp]: "edits (rom_patch_nop_word off st desc ps) = edits ps @ [(off, 0x4e), (off + 1, 0x71)]"
  by (simp add: rom_patch_nop_word_def)

lemma edits_return [simp]: "edits (rom_patch_return off st desc ps) = edits ps @ [(off, 0x4e), (off + 1, 0xd6)]"
  by (simp add: rom_patch_return_def)

lemma edits_blob [simp]:
  "edits (rom_patch_blob off bytes st desc ps) =
     edits ps @ map (\<lambda>i. (off + of_nat i, bytes ! i)) [0..<length bytes]"
proof -
  have "edits (fold (\<lambda>i. rom_patch_byte (off + of_nat i) (f i) st desc) is ps) =
      edits ps @ map (\<lambda>i. (off + of_nat i, f i)) is" for f "is"
    by (induction "is" arbitrary: ps) simp_all
  then show ?thesis by (simp add: rom_patch_blob_def)
qed

lemma apply_all_simps [simp]: "apply_all [] x = x" "apply_all (f # fs) x = apply_all fs (f x)"
  by (simp_all add: apply_all_def)


lemmas set_defs =
  add_rom_checksum_fast_patches_def add_rom_meminit_fast_patches_def
  add_rom_ramtest_mame_state_patches_def add_rom_alias_probe_mame_state_patches_def
  add_rom_ram_list_sentinel_fast_patches_def add_rom_macsbug_feature_bit17_patches_def
  add_rom_via_timer_mame_state_patches_def add_rom_adb_init_wait_patches_def
  add_rom_video_diag_success_patches_def add_rom_sad_mac_boot_skip_patches_def
  add_rom_rtc_pram_mame_state_patches_def add_legacy_diag_loop_patches_def



definition offs :: "patch_list \<Rightarrow> nat list" where
  "offs ps = map (\<lambda>p. unat (fst p)) (edits ps)"

lemma offs_simps [simp]:
  "offs [] = []"
  "offs (rom_patch_byte off v st desc ps) = offs ps @ [unat off]"
  "offs (rom_patch_word off w st desc ps) = offs ps @ [unat off, unat (off + 1)]"
  "offs (rom_patch_nop_word off st desc ps) = offs ps @ [unat off, unat (off + 1)]"
  "offs (rom_patch_return off st desc ps) = offs ps @ [unat off, unat (off + 1)]"
  "offs (rom_patch_long off l st desc ps) =
     offs ps @ [unat off, unat (off + 1), unat (off + 2), unat (off + 3)]"
  "offs (rom_patch_blob off bytes st desc ps) =
     offs ps @ map (\<lambda>i. unat (off + of_nat i)) [0..<length bytes]"
  by (simp_all add: offs_def, simp add: edits_def)

definition offs_of :: "(patch_list \<Rightarrow> patch_list) \<Rightarrow> nat list" where
  "offs_of f = offs (f [])"

text \<open>Ascending lists of offsets inside an interval; the check is linear in the list.\<close>

fun rises :: "nat \<Rightarrow> nat list \<Rightarrow> nat \<Rightarrow> bool" where
  "rises lo [] hi \<longleftrightarrow> lo \<le> hi"
| "rises lo (x # xs) hi \<longleftrightarrow> lo \<le> x \<and> rises (x + 1) xs hi"

definition within :: "nat \<Rightarrow> nat \<Rightarrow> nat list \<Rightarrow> bool" where
  "within lo hi xs \<longleftrightarrow> distinct xs \<and> set xs \<subseteq> {lo..<hi}"

lemma rises_within: "rises lo xs hi \<Longrightarrow> within lo hi xs \<and> lo \<le> hi"
  by (induction lo xs hi rule: rises.induct) (force simp: within_def)+

lemma within_append:
  "within a b xs \<Longrightarrow> within c d ys \<Longrightarrow> b \<le> c \<or> d \<le> a \<Longrightarrow>
   within (min a c) (max b d) (xs @ ys)"
  by (fastforce simp: within_def)

lemma offs_checksum_fast: "offs (add_rom_checksum_fast_patches ps) = offs ps @ offs_of add_rom_checksum_fast_patches"
  by (simp add: add_rom_checksum_fast_patches_def offs_of_def Let_def)

lemma offs_meminit_fast: "offs (add_rom_meminit_fast_patches ps) = offs ps @ offs_of add_rom_meminit_fast_patches"
  by (simp add: add_rom_meminit_fast_patches_def offs_of_def Let_def)

lemma offs_ramtest_mame_state: "offs (add_rom_ramtest_mame_state_patches ps) = offs ps @ offs_of add_rom_ramtest_mame_state_patches"
  by (simp add: add_rom_ramtest_mame_state_patches_def offs_of_def Let_def)

lemma offs_alias_probe_mame_state: "offs (add_rom_alias_probe_mame_state_patches ps) = offs ps @ offs_of add_rom_alias_probe_mame_state_patches"
  by (simp add: add_rom_alias_probe_mame_state_patches_def offs_of_def Let_def)

lemma offs_ram_list_sentinel_fast: "offs (add_rom_ram_list_sentinel_fast_patches ps) = offs ps @ offs_of add_rom_ram_list_sentinel_fast_patches"
  by (simp add: add_rom_ram_list_sentinel_fast_patches_def offs_of_def Let_def)

lemma offs_macsbug_feature_bit17: "offs (add_rom_macsbug_feature_bit17_patches ps) = offs ps @ offs_of add_rom_macsbug_feature_bit17_patches"
  by (simp add: add_rom_macsbug_feature_bit17_patches_def offs_of_def Let_def)

lemma offs_via_timer_mame_state: "offs (add_rom_via_timer_mame_state_patches ps) = offs ps @ offs_of add_rom_via_timer_mame_state_patches"
  by (simp add: add_rom_via_timer_mame_state_patches_def offs_of_def Let_def)

lemma offs_adb_init_wait: "offs (add_rom_adb_init_wait_patches ps) = offs ps @ offs_of add_rom_adb_init_wait_patches"
  by (simp add: add_rom_adb_init_wait_patches_def offs_of_def Let_def)

lemma offs_video_diag_success: "offs (add_rom_video_diag_success_patches ps) = offs ps @ offs_of add_rom_video_diag_success_patches"
  by (simp add: add_rom_video_diag_success_patches_def offs_of_def Let_def)

lemma offs_sad_mac_boot_skip: "offs (add_rom_sad_mac_boot_skip_patches ps) = offs ps @ offs_of add_rom_sad_mac_boot_skip_patches"
  by (simp add: add_rom_sad_mac_boot_skip_patches_def offs_of_def Let_def)

lemma offs_rtc_pram_mame_state: "offs (add_rom_rtc_pram_mame_state_patches ps) = offs ps @ offs_of add_rom_rtc_pram_mame_state_patches"
  by (simp add: add_rom_rtc_pram_mame_state_patches_def offs_of_def Let_def)

lemmas offs_add = offs_checksum_fast offs_meminit_fast offs_ramtest_mame_state
  offs_alias_probe_mame_state offs_ram_list_sentinel_fast offs_macsbug_feature_bit17
  offs_via_timer_mame_state offs_adb_init_wait offs_video_diag_success offs_sad_mac_boot_skip
  offs_rtc_pram_mame_state

text \<open>Where each set patches.\<close>

lemma set_rises:
  "rises 0x474dc (offs_of add_rom_checksum_fast_patches) 0x47524"
  "rises 0x472b0 (offs_of add_rom_meminit_fast_patches) 0x47608"
  "rises 0x47280 (offs_of add_rom_ramtest_mame_state_patches) 0x472a4"
  "rises 0x4bb74 (offs_of add_rom_alias_probe_mame_state_patches) 0x4bbe2"
  "rises 0x46ed0 (offs_of add_rom_ram_list_sentinel_fast_patches) 0x46ed6"
  "rises 0x3925 (offs_of add_rom_macsbug_feature_bit17_patches) 0x3926"
  "rises 0x47bf6 (offs_of add_rom_via_timer_mame_state_patches) 0x47cb4"
  "rises 0xa8e6 (offs_of add_rom_adb_init_wait_patches) 0xa8ee"
  "rises 0x49ade (offs_of add_rom_video_diag_success_patches) 0x49ae0"
  "rises 0x46f96 (offs_of add_rom_sad_mac_boot_skip_patches) 0x46fb0"
  "rises 0x4721c (offs_of add_rom_rtc_pram_mame_state_patches) 0x4727a"
  by (simp_all add: set_defs offs_of_def Let_def upt_rec)

lemmas set_within = set_rises [THEN rises_within, THEN conjunct1]

lemma checksum_meminit_within:
  "within 0x472b0 0x47608 (offs_of add_rom_checksum_fast_patches @ offs_of add_rom_meminit_fast_patches)"
proof -
  have "set (offs_of add_rom_checksum_fast_patches) \<inter> set (offs_of add_rom_meminit_fast_patches) = {}"
    by (simp add: add_rom_checksum_fast_patches_def add_rom_meminit_fast_patches_def offs_of_def Let_def)
  then show ?thesis using set_within(1,2) by (force simp: within_def)
qed

lemma fastdiag_within:
  "within 0x46ed0 0x4bbe2 (offs_of add_rom_checksum_fast_patches @ offs_of add_rom_meminit_fast_patches @
     offs_of add_rom_ramtest_mame_state_patches @ offs_of add_rom_alias_probe_mame_state_patches @
     offs_of add_rom_ram_list_sentinel_fast_patches @ offs_of add_rom_via_timer_mame_state_patches)"
proof -
  note w1 = within_append [OF checksum_meminit_within set_within(3), simplified]
  note w2 = within_append [OF w1 set_within(5), simplified]
  note w3 = within_append [OF w2 set_within(7), simplified]
  note w4 = within_append [OF w3 set_within(4), simplified]
  show ?thesis using w4 by (auto simp: within_def)
qed

lemma legacy_within: "within 0x47280 0x475ea (offs_of add_legacy_diag_loop_patches)"
  by (simp add: add_legacy_diag_loop_patches_def offs_of_def within_def)

lemma within_widen: "within a b xs \<Longrightarrow> c \<le> a \<Longrightarrow> b \<le> d \<Longrightarrow> within c d xs"
  by (auto simp: within_def)

abbreviation known_set :: "string \<Rightarrow> bool" where
  "known_set s \<equiv> fst (add_rom_patch_set [] s)"

definition in_rom :: "(patch_list \<Rightarrow> patch_list) list option \<Rightarrow> bool" where
  "in_rom c \<longleftrightarrow> (case c of None \<Rightarrow> True | Some calls \<Rightarrow> within 0 0x100000 (offs (apply_all calls [])))"

lemma in_rom_step:
  "within a b (offs (apply_all calls [])) \<Longrightarrow> b \<le> 0x100000 \<Longrightarrow> in_rom y \<Longrightarrow>
   in_rom (if c then Some calls else y)"
  by (simp add: in_rom_def within_widen)

lemma in_rom_step_of:
  "within a b (offs_of f) \<Longrightarrow> b \<le> 0x100000 \<Longrightarrow> in_rom y \<Longrightarrow> in_rom (if c then Some [f] else y)"
  by (simp add: offs_of_def in_rom_def within_widen)

lemma offs_fastdiag:
  "within 0x46ed0 0x4bbe2 (offs (apply_all [add_rom_checksum_fast_patches,
     add_rom_meminit_fast_patches, add_rom_ramtest_mame_state_patches,
     add_rom_alias_probe_mame_state_patches, add_rom_ram_list_sentinel_fast_patches,
     add_rom_via_timer_mame_state_patches] []))"
  using fastdiag_within by (simp add: offs_add)

lemma offs_clean:
  "within 0x472b0 0x47608 (offs (apply_all [add_rom_checksum_fast_patches,
     add_rom_meminit_fast_patches] []))"
  using checksum_meminit_within by (simp add: offs_add)

lemma offs_firstlight:
  "within 0 0x4bbe2 (offs (apply_all [add_rom_checksum_fast_patches,
     add_rom_meminit_fast_patches, add_rom_ramtest_mame_state_patches,
     add_rom_alias_probe_mame_state_patches, add_rom_ram_list_sentinel_fast_patches,
     add_rom_via_timer_mame_state_patches, add_rom_adb_init_wait_patches,
     rom_patch_nop_word 0x04160 s1 d1, rom_patch_nop_word 0x04162 s2 d2,
     rom_patch_nop_word 0x04174 s3 d3, rom_patch_nop_word 0x04176 s4 d4,
     rom_patch_nop_word 0x07118 s5 d5, rom_patch_nop_word 0x0711a s6 d6,
     rom_patch_nop_word 0x00888 s7 d7, rom_patch_nop_word 0x0088a s8 d8,
     rom_patch_nop_word 0x0089e s9 d9, rom_patch_nop_word 0x008a0 s10 d10] []))"
proof -
  have delays: "within 0 0x8000 [0x4160, 0x4161, 0x4162, 0x4163, 0x4174, 0x4175, 0x4176, 0x4177,
      0x7118, 0x7119, 0x711a, 0x711b, 0x888, 0x889, 0x88a, 0x88b, 0x89e, 0x89f, 0x8a0, 0x8a1]"
    by (simp add: within_def)
  note w = within_append [OF within_append [OF fastdiag_within set_within(8), simplified] delays,
      simplified]
  show ?thesis using w by (simp add: offs_add)
qed

lemma offs_tail_sets:
  "within 0 0x100000 (offs (apply_all [rom_patch_return 0x4749e s1 d1, rom_patch_return 0x47500 s2 d2] []))"
  "within 0 0x100000 (offs (apply_all [rom_patch_nop_word 0x07118 s1 d1, rom_patch_nop_word 0x0711a s2 d2,
     rom_patch_long 0 v s3 d3] []))"
  "within 0 0x100000 (offs (apply_all [rom_patch_return 0x0706e s1 d1, rom_patch_long 0 v s3 d3] []))"
  "within 0 0x100000 (offs (apply_all [rom_patch_nop_word 0x00888 s1 d1, rom_patch_nop_word 0x0088a s2 d2] []))"
  "within 0 0x100000 (offs (apply_all [rom_patch_nop_word 0x0089e s1 d1, rom_patch_nop_word 0x008a0 s2 d2] []))"
  "within 0 0x100000 (offs (apply_all [rom_patch_nop_word 0x04160 s1 d1, rom_patch_nop_word 0x04162 s2 d2,
     rom_patch_nop_word 0x04174 s3 d3, rom_patch_nop_word 0x04176 s4 d4] []))"
  by (simp_all add: within_def)

lemma patch_set_in_rom: "in_rom (patch_set_calls s)"
  unfolding patch_set_calls_def
  by (rule in_rom_step_of [OF set_within(1)], simp, rule in_rom_step_of [OF set_within(2)], simp,
      rule in_rom_step_of [OF set_within(3)], simp, rule in_rom_step_of [OF set_within(11)], simp,
      rule in_rom_step_of [OF set_within(4)], simp, rule in_rom_step_of [OF set_within(5)], simp,
      rule in_rom_step_of [OF set_within(7)], simp, rule in_rom_step_of [OF set_within(8)], simp,
      rule in_rom_step_of [OF set_within(9)], simp, rule in_rom_step_of [OF set_within(10)], simp,
      rule in_rom_step_of [OF set_within(6)], simp, rule in_rom_step, rule offs_fastdiag, simp,
      rule in_rom_step, rule offs_firstlight, simp, rule in_rom_step, rule offs_clean, simp,
      rule in_rom_step_of [OF legacy_within], simp, rule in_rom_step, rule offs_tail_sets(1), simp,
      rule in_rom_step, rule offs_tail_sets(2), simp, rule in_rom_step, rule offs_tail_sets(3), simp,
      rule in_rom_step, rule offs_tail_sets(4), simp, rule in_rom_step, rule offs_tail_sets(5), simp,
      rule in_rom_step, rule offs_tail_sets(6), simp, simp add: in_rom_def)


section \<open>Appending\<close>

definition appends :: "(patch_list \<Rightarrow> patch_list) \<Rightarrow> bool" where
  "appends f \<longleftrightarrow> (\<forall>ps. f ps = ps @ f [])"

lemma appends_comp: "appends f \<Longrightarrow> appends g \<Longrightarrow> appends (\<lambda>ps. g (f ps))"
  unfolding appends_def by (metis append_assoc)

lemma appends_byte: "appends (rom_patch_byte off v st desc)"
  by (simp add: appends_def rom_patch_byte_def)

lemma appends_word: "appends (rom_patch_word off v st desc)"
  by (simp add: appends_def rom_patch_word_def rom_patch_byte_def)

lemma appends_long: "appends (rom_patch_long off v st desc)"
  by (simp add: appends_def rom_patch_long_def rom_patch_word_def rom_patch_byte_def)

lemma appends_nop: "appends (rom_patch_nop_word off st desc)"
  by (simp add: rom_patch_nop_word_def appends_word)

lemma appends_return: "appends (rom_patch_return off st desc)"
  by (simp add: rom_patch_return_def appends_word)

lemma appends_fold: "(\<And>i. i \<in> set xs \<Longrightarrow> appends (g i)) \<Longrightarrow> appends (fold g xs)"
proof (induction xs)
  case Nil then show ?case by (simp add: appends_def)
next
  case (Cons x xs)
  then have "appends (g x)" "appends (fold g xs)" by auto
  then have "appends (\<lambda>ps. fold g xs (g x ps))" by (rule appends_comp)
  then show ?case by (simp add: comp_def)
qed

lemma appends_blob: "appends (rom_patch_blob off bytes st desc)"
proof -
  have "rom_patch_blob off bytes st desc =
      fold (\<lambda>i. rom_patch_byte (off + of_nat i) (bytes ! i) st desc) [0..<length bytes]"
    by (rule ext) (simp add: rom_patch_blob_def)
  then show ?thesis using appends_fold [OF appends_byte] by simp
qed

lemmas appends_patches = appends_nop appends_word appends_long appends_return appends_blob appends_byte

lemma appends_all: "list_all appends fs \<Longrightarrow> appends (apply_all fs)"
  using appends_fold [of fs "\<lambda>f. f"] by (simp add: apply_all_def [abs_def] list_all_iff)

lemma appends_sets:
  "appends add_rom_checksum_fast_patches" "appends add_rom_meminit_fast_patches"
  "appends add_rom_ramtest_mame_state_patches" "appends add_rom_alias_probe_mame_state_patches"
  "appends add_rom_ram_list_sentinel_fast_patches" "appends add_rom_macsbug_feature_bit17_patches"
  "appends add_rom_via_timer_mame_state_patches" "appends add_rom_adb_init_wait_patches"
  "appends add_rom_video_diag_success_patches" "appends add_rom_sad_mac_boot_skip_patches"
  "appends add_rom_rtc_pram_mame_state_patches" "appends add_legacy_diag_loop_patches"
  unfolding set_defs Let_def
  by (rule appends_all, simp add: appends_patches)+

definition appending :: "(patch_list \<Rightarrow> patch_list) list option \<Rightarrow> bool" where
  "appending c \<longleftrightarrow> (case c of None \<Rightarrow> True | Some calls \<Rightarrow> list_all appends calls)"

lemma appending_if: "list_all appends calls \<Longrightarrow> appending y \<Longrightarrow> appending (if c then Some calls else y)"
  by (simp add: appending_def)

lemma patch_set_calls_appending: "appending (patch_set_calls s)"
proof -
  have none: "appending None" by (simp add: appending_def)
  show ?thesis
    unfolding patch_set_calls_def
    by ((rule appending_if, simp add: appends_sets appends_patches)+, rule none)
qed

lemma add_rom_patch_set_appends:
  "add_rom_patch_set ps s = (fst (add_rom_patch_set [] s), ps @ snd (add_rom_patch_set [] s))"
proof (cases "patch_set_calls s")
  case None then show ?thesis by (simp add: add_rom_patch_set_def)
next
  case (Some calls)
  then have "appends (apply_all calls)"
    using patch_set_calls_appending [of s] appends_all by (simp add: appending_def)
  then have e: "apply_all calls ps = ps @ apply_all calls []" unfolding appends_def by blast
  show ?thesis using Some by (simp add: add_rom_patch_set_def e)
qed

lemma patch_set_within:
  "fst (add_rom_patch_set [] s) \<Longrightarrow> within 0 0x100000 (offs (snd (add_rom_patch_set [] s)))"
  using patch_set_in_rom [of s] by (auto simp: in_rom_def add_rom_patch_set_def split: option.splits)

section \<open>Applying patches\<close>

definition write_patches :: "patch_list \<Rightarrow> u8 list \<Rightarrow> u8 list" where
  "write_patches ps rom = fold (\<lambda>p r. r[unat (rp_off p) := rp_value p]) ps rom"

lemma length_write_patches [simp]: "length (write_patches ps rom) = length rom"
  unfolding write_patches_def by (induction ps arbitrary: rom) simp_all

definition inside :: "patch_list \<Rightarrow> nat \<Rightarrow> bool" where
  "inside ps n \<longleftrightarrow> (\<forall>p \<in> set ps. unat (rp_off p) < n)"

lemma patch_rom_inside: "inside ps (length rom) \<Longrightarrow> patch_rom ps rom = Inr (write_patches ps rom)"
  unfolding write_patches_def
  by (induction ps arbitrary: rom) (auto simp: inside_def)

lemma apply_in_order_inside:
  "inside ps (length rom) \<Longrightarrow> apply_in_order ps rom = (True, write_patches ps rom)"
  unfolding write_patches_def
  by (induction ps arbitrary: rom) (auto simp: inside_def)

text \<open>Patches that agree wherever they meet: their order and repetition do not matter.\<close>

definition agree :: "(u32 \<times> u8) set \<Rightarrow> bool" where
  "agree E \<longleftrightarrow> (\<forall>(a, v) \<in> E. \<forall>(b, w) \<in> E. a = b \<longrightarrow> v = w)"

lemma agreeD: "agree E \<Longrightarrow> (a, v) \<in> E \<Longrightarrow> (a, w) \<in> E \<Longrightarrow> v = w"
  unfolding agree_def by fastforce

lemma edits_Cons [simp]: "edits (p # ps) = (rp_off p, rp_value p) # edits ps" "edits [] = []"
  by (simp_all add: edits_def)

lemma edits_append [simp]: "edits (ps @ qs) = edits ps @ edits qs"
  by (simp add: edits_def)

lemma write_patches_nth:
  "\<forall>(a, w) \<in> set (edits ps). unat a = i \<longrightarrow> w = v \<Longrightarrow> i < length rom \<Longrightarrow>
   write_patches ps rom ! i = (if \<exists>(a, w) \<in> set (edits ps). unat a = i then v else rom ! i)"
  unfolding write_patches_def by (induction ps arbitrary: rom) auto

lemma write_patches_same:
  assumes "agree (set (edits ps))" and "set (edits qs) = set (edits ps)"
  shows "write_patches qs rom = write_patches ps rom"
proof (rule nth_equalityI)
  fix i assume "i < length (write_patches qs rom)"
  then have i: "i < length rom" by simp
  have "\<exists>v. \<forall>(a, w) \<in> set (edits ps). unat a = i \<longrightarrow> w = v"
  proof (cases "\<exists>a v. (a, v) \<in> set (edits ps) \<and> unat a = i")
    case True
    then obtain a v where av: "(a, v) \<in> set (edits ps)" "unat a = i" by blast
    have "w = v" if "(b, w) \<in> set (edits ps)" "unat b = i" for b w
    proof -
      have "b = a" using that(2) av(2) by (simp add: word_unat_eq_iff)
      then show ?thesis using agreeD [OF assms(1)] av(1) that(1) by blast
    qed
    then show ?thesis by blast
  qed blast
  then obtain v where v: "\<forall>(a, w) \<in> set (edits ps). unat a = i \<longrightarrow> w = v" by blast
  show "write_patches qs rom ! i = write_patches ps rom ! i"
    using write_patches_nth [OF v i] write_patches_nth [of qs i v, OF _ i] v assms(2) by simp
qed simp

text \<open>The active list of the boot harness: at most one patch per offset, and all that was asked for.\<close>

lemma add_active_byte:
  assumes "add_active_rom_patch_byte active p = Inr active'" and "distinct (map rp_off active)"
  shows "distinct (map rp_off active') \<and>
    set (edits active') = insert (rp_off p, rp_value p) (set (edits active))"
proof (cases "find (\<lambda>q. rp_off q = rp_off p) active")
  case None
  then have "active' = active @ [p]" using assms(1) by (simp add: add_active_rom_patch_byte_def)
  moreover have "rp_off p \<notin> rp_off ` set active" using None by (auto simp: find_None_iff)
  ultimately show ?thesis using assms(2) by simp
next
  case (Some q)
  then have "active' = active" "rp_value q = rp_value p"
    using assms(1) by (auto simp: add_active_rom_patch_byte_def split: if_splits)
  moreover have "q \<in> set active" "rp_off q = rp_off p" using Some by (auto simp: find_Some_iff)
  ultimately have "(rp_off p, rp_value p) \<in> set (edits active')"
    unfolding edits_def set_map by (metis (no_types, lifting) imageI)
  then show ?thesis using assms(2) \<open>active' = active\<close> by auto
qed

lemma add_active_patches:
  assumes "add_active_rom_patches active ps = Inr active'" and "distinct (map rp_off active)"
  shows "distinct (map rp_off active') \<and> set (edits active') = set (edits active) \<union> set (edits ps)"
  using assms
proof (induction active ps rule: add_active_rom_patches.induct)
  case (2 active p ps)
  then show ?case using add_active_byte by (fastforce split: sum.splits)
qed simp

lemma distinct_agree: "distinct (map rp_off ps) \<Longrightarrow> agree (set (edits ps))"
  by (force simp: agree_def edits_def distinct_map inj_on_def)

lemma configure_edits:
  assumes "configure_rom_patches ss (ff, active) = Inr (ff', active')" and "distinct (map rp_off active)"
  shows "distinct (map rp_off active') \<and>
    set (edits active') = set (edits active) \<union> (\<Union>s \<in> set ss. set (edits (snd (add_rom_patch_set [] s)))) \<and>
    (\<forall>s \<in> set ss. fst (add_rom_patch_set [] s))"
  using assms
proof (induction ss arbitrary: ff active)
  case (Cons s ss)
  obtain new where new: "add_rom_patch_set [] s = (True, new)"
    using Cons.prems(1) by (auto split: prod.splits bool.splits)
  then obtain active1 where a1: "add_active_rom_patches active new = Inr active1"
    "configure_rom_patches ss (ff \<or> rom_patch_set_enables_ramtest_mame_state_fastfill s, active1) =
       Inr (ff', active')"
    using Cons.prems(1) by (auto split: sum.splits)
  from add_active_patches [OF a1(1) Cons.prems(2)] Cons.IH [OF a1(2)] new show ?case by auto
qed simp

lemma add_patch_set_list_known:
  "\<forall>s \<in> set ss. s = [] \<or> fst (add_rom_patch_set [] s) \<Longrightarrow>
   add_patch_set_list ps ss = Inr (ps @ concat (map (\<lambda>s. snd (add_rom_patch_set [] s)) (filter (\<lambda>s. s \<noteq> []) ss)))"
proof (induction ss arbitrary: ps)
  case (Cons s ss)
  then show ?case by (cases "s = []") (auto simp: add_rom_patch_set_appends [of ps s])
qed simp

lemma edits_concat: "set (edits (concat pss)) = (\<Union>ps \<in> set pss. set (edits ps))"
  by (induction pss) simp_all

lemma offs_inside: "within 0 n (offs ps) \<Longrightarrow> inside ps n"
  by (force simp: within_def offs_def edits_def inside_def)

lemma inside_edits: "inside ps n \<longleftrightarrow> (\<forall>e \<in> set (edits ps). unat (fst e) < n)"
  by (auto simp: inside_def edits_def)

lemma sorted_patches [simp]:
  "set (edits (sort_key rp_off ps)) = set (edits ps)" "inside (sort_key rp_off ps) n = inside ps n"
  by (simp_all add: edits_def inside_def)

text \<open>C29 The boot harness and the MAME patcher agree: whenever the harness accepts a list of patch
  sets (all known, no conflicting bytes), it patches a 1 MiB ROM without a range error, and
  \<open>mame_patch_rom\<close> given the same sets as a comma-separated selector produces the same image, though
  one sorts the bytes and drops duplicates and the other applies them in call order.\<close>

theorem rom_boot_and_mame_agree:
  assumes "configure_rom_patches sets (False, []) = Inr (fastfill, active)"
    and "filter (\<lambda>s. s \<noteq> []) (getline_commas [] spec) = sets" and "length rom = 0x100000"
  shows "\<exists>rom'. apply_rom_patches sets rom = Inr (fastfill, True, rom') \<and>
    mame_patch_rom spec rom = Inr rom'"
proof -
  let ?all = "concat (map (\<lambda>s. snd (add_rom_patch_set [] s)) sets)"
  have c: "distinct (map rp_off active)" "set (edits active) = set (edits ?all)"
      "\<forall>s \<in> set sets. fst (add_rom_patch_set [] s)"
    using configure_edits [OF assms(1)] by (simp_all add: edits_concat)
  have "inside ?all 0x100000"
    using c(3) offs_inside [OF patch_set_within] by (auto simp: inside_def)
  then have ins: "inside ?all (length rom)" "inside active (length rom)"
    using c(2) assms(3) by (simp_all add: inside_edits)
  have "\<forall>s \<in> set (getline_commas [] spec). s = [] \<or> fst (add_rom_patch_set [] s)"
    using c(3) assms(2) by auto
  then have m: "mame_patch_rom spec rom = Inr (write_patches ?all rom)"
    using add_patch_set_list_known [of "getline_commas [] spec" "[]"] assms(2) patch_rom_inside [OF ins(1)]
    by (simp add: mame_patch_rom_def add_patch_sets_def)
  have "apply_active_rom_patches active rom = (True, write_patches ?all rom)"
  proof (cases "active = []")
    case True
    then have "?all = []" using c(2) by (simp add: edits_def)
    then have "write_patches ?all rom = rom" by (simp only: write_patches_def fold_simps)
    then show ?thesis using True by (simp add: apply_active_rom_patches_def)
  next
    case False
    have "write_patches (sort_key rp_off active) rom = write_patches ?all rom"
      using write_patches_same [of ?all "sort_key rp_off active" rom] c(2) distinct_agree [OF c(1)] by simp
    then show ?thesis using False ins(2) apply_in_order_inside [of "sort_key rp_off active" rom]
      by (simp add: apply_active_rom_patches_def)
  qed
  then show ?thesis using assms(1) m by (auto simp: apply_rom_patches_def)
qed

theorem rom_boot_and_mame_agree_witness:
  "\<exists>rom'. apply_rom_patches [''chime-skip'', ''chime-skip''] (replicate 0x100000 0) = Inr (False, True, rom') \<and>
     mame_patch_rom '',chime-skip,,chime-skip'' (replicate 0x100000 0) = Inr rom'"
proof -
  have 1: "\<exists>active. configure_rom_patches [''chime-skip'', ''chime-skip''] (False, []) = Inr (False, active)"
    by (simp add: add_rom_patch_set_def patch_set_calls_def rom_patch_return_def rom_patch_word_def
        rom_patch_long_def rom_patch_byte_def add_active_rom_patch_byte_def
        rom_patch_set_enables_ramtest_mame_state_fastfill_def)
  have 2: "filter (\<lambda>s. s \<noteq> []) (getline_commas [] '',chime-skip,,chime-skip'') = [''chime-skip'', ''chime-skip'']"
    by simp
  from 1 rom_boot_and_mame_agree [OF _ 2] show ?thesis by fastforce
qed

text \<open>Every named set on its own is well formed: its bytes lie in the 1 MiB ROM at pairwise
  different offsets, so the harness accepts it without a conflict, as given.\<close>

theorem single_set_accepted:
  assumes "add_rom_patch_set [] s = (True, ps)"
  shows "distinct (map rp_off ps) \<and> (\<forall>p \<in> set ps. rp_off p < 0x100000) \<and>
    configure_rom_patches [s] (False, []) =
      Inr (rom_patch_set_enables_ramtest_mame_state_fastfill s, ps)"
proof -
  have w: "within 0 0x100000 (offs ps)" using patch_set_within [of s] assms by simp
  have "offs ps = map unat (map rp_off ps)" by (simp add: offs_def edits_def)
  then have d: "distinct (map rp_off ps)" using w unfolding within_def by (metis distinct_map)
  have acc: "distinct (map rp_off (active @ ps)) \<Longrightarrow> add_active_rom_patches active ps = Inr (active @ ps)"
    for active
  proof (induction ps arbitrary: active)
    case (Cons p ps)
    then have "find (\<lambda>q. rp_off q = rp_off p) active = None"
      by (simp add: find_None_iff) (metis imageI)
    then show ?case using Cons.IH [of "active @ [p]"] Cons.prems by (simp add: add_active_rom_patch_byte_def)
  qed simp
  show ?thesis
    using d acc [of "[]"] offs_inside [OF w] assms
    by (auto simp: inside_def word_less_nat_alt)
qed

theorem single_set_accepted_witness:
  "\<exists>ps. add_rom_patch_set [] ''mame-firstlight'' = (True, ps) \<and> distinct (map rp_off ps) \<and>
     configure_rom_patches [''mame-firstlight''] (False, []) = Inr (True, ps)"
proof -
  have "fst (add_rom_patch_set [] ''mame-firstlight'')"
    by (simp add: add_rom_patch_set_def patch_set_calls_def)
  then obtain ps where ps: "add_rom_patch_set [] ''mame-firstlight'' = (True, ps)"
    by (metis prod.collapse)
  have ff: "rom_patch_set_enables_ramtest_mame_state_fastfill ''mame-firstlight'' = True"
    by (simp add: rom_patch_set_enables_ramtest_mame_state_fastfill_def)
  from single_set_accepted [OF ps] ps show ?thesis unfolding ff by blast
qed

section \<open>Selectors\<close>

declare apply_list.simps [simp del]

lemma getline_no_comma: "CHR '','' \<notin> set s \<Longrightarrow> getline_commas acc s = (if acc = [] \<and> s = [] then [] else [rev acc @ s])"
  by (induction acc s rule: getline_commas.induct) auto

lemma getline_comma:
  "CHR '','' \<notin> set s \<Longrightarrow> getline_commas acc (s @ CHR '','' # r) = (rev acc @ s) # getline_commas [] r"
  by (induction s arbitrary: acc) auto

lemma apply_list_no_comma: "CHR '','' \<notin> set s \<Longrightarrow> apply_list ps s = apply_one ps s"
proof -
  assume "CHR '','' \<notin> set s"
  then have t: "takeWhile (\<lambda>c. c \<noteq> CHR '','') s = s" and d: "dropWhile (\<lambda>c. c \<noteq> CHR '','') s = []"
    by (auto simp: takeWhile_eq_all_conv)
  show ?thesis
    by (subst apply_list.simps) (simp only: t d Let_def, simp split: prod.split)
qed

lemma apply_list_comma:
  "CHR '','' \<notin> set s \<Longrightarrow> apply_list ps (s @ CHR '','' # r) =
     (case apply_one ps s of (True, ps') \<Rightarrow> apply_list ps' r | (False, ps') \<Rightarrow> (False, ps'))"
proof -
  assume "CHR '','' \<notin> set s"
  then have "takeWhile (\<lambda>c. c \<noteq> CHR '','') (s @ CHR '','' # r) = s"
    "dropWhile (\<lambda>c. c \<noteq> CHR '','') (s @ CHR '','' # r) = CHR '','' # r"
    by (auto simp: takeWhile_append dropWhile_append)
  then show ?thesis by (subst apply_list.simps) (simp add: Let_def split: prod.split bool.split)
qed

text \<open>The two selector parsers agree: \<open>dump_rom_patches\<close> accepts a selector exactly when
  \<open>mame_patch_rom\<close> does, and then both collect the same patch bytes in the same order; otherwise
  they exit with status 1 and 2.\<close>

theorem selector_parsers_agree:
  "(case apply_list ps spec of (True, ps') \<Rightarrow> Inr ps' | (False, _) \<Rightarrow> Inl 2) = add_patch_sets ps spec"
proof (induction "length spec" arbitrary: ps spec rule: less_induct)
  case less
  show ?case
  proof (cases "CHR '','' \<in> set spec")
    case False
    then show ?thesis
      by (simp add: apply_list_no_comma apply_one_def add_patch_sets_def getline_no_comma
          split: prod.split bool.split)
  next
    case True
    then obtain s r where sr: "spec = s @ CHR '','' # r" "CHR '','' \<notin> set s"
      by (meson split_list_first)
    then have ih: "(case apply_list ps' r of (True, ps'') \<Rightarrow> Inr ps'' | (False, _) \<Rightarrow> Inl 2) =
        add_patch_sets ps' r" for ps' using less [of r ps'] by simp
    show ?thesis
      unfolding sr(1) apply_list_comma [OF sr(2)] add_patch_sets_def getline_comma [OF sr(2)]
      using ih [folded add_patch_sets_def]
      by (cases "add_rom_patch_set ps s") (auto simp: apply_one_def ih [unfolded add_patch_sets_def] split: bool.splits)
  qed
qed

section \<open>The ROM checksum\<close>

text \<open>The self check of the Quadra 700 ROM as the comments of the patch sets describe it: the
  longword at offset 0 is the 32-bit sum of all later 16-bit words.\<close>

fun rom_words :: "u8 list \<Rightarrow> u32 list" where
  "rom_words (a # b # rest) = be16 a b # rom_words rest"
| "rom_words _ = []"

definition word_sum :: "u8 list \<Rightarrow> u32" where
  "word_sum rom = sum_list (rom_words (drop 4 rom))"

definition stored_checksum :: "u8 list \<Rightarrow> u32" where
  "stored_checksum rom = be_word (rom ! 0) (rom ! 1) (rom ! 2) (rom ! 3)"

definition rom_valid :: "u8 list \<Rightarrow> bool" where
  "rom_valid rom \<longleftrightarrow> stored_checksum rom = word_sum rom"

lemma rom_words_append:
  "even (length xs) \<Longrightarrow> rom_words (xs @ ys) = rom_words xs @ rom_words ys"
  by (induction xs rule: rom_words.induct) auto

lemma rom_words_replicate [simp]: "rom_words (replicate (2 * n) c) = replicate n (be16 c c)"
  by (induction n) auto

lemma length_rom_words [simp]: "length (rom_words xs) = length xs div 2"
  by (induction xs rule: rom_words.induct) auto

lemma nth_rom_words: "2 * k + 1 < length xs \<Longrightarrow> rom_words xs ! k = be16 (xs ! (2 * k)) (xs ! (2 * k + 1))"
proof (induction xs arbitrary: k rule: rom_words.induct)
  case (1 a b rest)
  then show ?case by (cases k) auto
qed auto

lemma rom_words_update:
  "2 * k + 1 < length xs \<Longrightarrow>
   rom_words (xs[2 * k := a, 2 * k + 1 := b]) = (rom_words xs)[k := be16 a b]"
proof (induction xs arbitrary: k rule: rom_words.induct)
  case (1 x y rest)
  then show ?case by (cases k) auto
qed auto

lemma sum_list_word_update:
  "k < length xs \<Longrightarrow> sum_list (xs[k := x]) = sum_list xs - xs ! k + (x :: u32)"
  by (induction xs arbitrary: k) (auto simp: nth_Cons' algebra_simps split: nat.splits)

text \<open>Replacing one word moves the sum by the difference of the words.\<close>

lemma word_sum_update:
  assumes "4 \<le> off" and "even off" and "off + 1 < length rom"
  shows "word_sum (rom[off := a, off + 1 := b]) =
    word_sum rom - be16 (rom ! off) (rom ! (off + 1)) + be16 a b"
proof -
  obtain k where k: "off = 4 + 2 * k"
    using assms(1,2) by (metis dvdE even_add even_numeral le_Suc_ex)
  have "drop 4 (rom[off := a, off + 1 := b]) = (drop 4 rom)[2 * k := a, 2 * k + 1 := b]"
    using assms(3) k by (simp add: drop_update_swap)
  then show ?thesis
    using assms(3) k rom_words_update [of k "drop 4 rom"] nth_rom_words [of k "drop 4 rom"]
    by (simp add: word_sum_def sum_list_word_update)
qed

lemma word_sum_header: "i < 4 \<Longrightarrow> word_sum (rom[i := x]) = word_sum rom"
  by (simp add: word_sum_def)

lemma write_patches_append: "write_patches (ps @ qs) rom = write_patches qs (write_patches ps rom)"
  by (simp add: write_patches_def)

text \<open>What the two chime sets write.\<close>

lemma write_edits: "write_patches ps rom = fold (\<lambda>(a, v) r. r[unat a := v]) (edits ps) rom"
  unfolding write_patches_def by (induction ps arbitrary: rom) simp_all

lemma mame_patch_single:
  assumes "CHR '','' \<notin> set s" "s \<noteq> []" "fst (add_rom_patch_set [] s)" "length rom = 0x100000"
  shows "mame_patch_rom s rom =
    Inr (fold (\<lambda>(a, v) r. r[unat a := v]) (edits (snd (add_rom_patch_set [] s))) rom)"
  using assms patch_rom_inside [OF offs_inside [OF patch_set_within [OF assms(3)], folded assms(4)]]
    add_patch_set_list_known [of "[s]" "[]"]
  by (simp add: mame_patch_rom_def add_patch_sets_def getline_no_comma write_edits)

lemma chime_skip_edits:
  "edits (snd (add_rom_patch_set [] ''chime-skip'')) =
     [(0x706e, 0x4e), (0x706f, 0xd6), (0, 0x42), (1, 0x0d), (2, 0xcc), (3, 0x9e)]"
  "fst (add_rom_patch_set [] ''chime-skip'')"
  by (simp_all add: add_rom_patch_set_def patch_set_calls_def)

lemma chime_delay_edits:
  "edits (snd (add_rom_patch_set [] ''chime-delay'')) =
     [(0x7118, 0x4e), (0x7119, 0x71), (0x711a, 0x4e), (0x711b, 0x71),
      (0, 0x42), (1, 0x0d), (2, 0x0b), (3, 0x0d)]"
  "fst (add_rom_patch_set [] ''chime-delay'')"
  by (simp_all add: add_rom_patch_set_def patch_set_calls_def)

lemma word_sum_blocks:
  "word_sum ([h0, h1, h2, h3] @ replicate (2 * a) 0 @ bs @ replicate (2 * n) 0xff @ [x, y] @ replicate (2 * z) 0) =
     sum_list (rom_words bs) + of_nat n * 0xffff + be16 x y" if "even (length bs)"
proof -
  have "be16 0 0 = 0" "be16 0xff 0xff = 0xffff" by (simp_all add: be16_def)
  then show ?thesis
    using that by (simp add: word_sum_def rom_words_append sum_list_replicate)
qed

definition demo_rom :: "u8 list \<Rightarrow> nat \<Rightarrow> nat \<Rightarrow> u8 \<Rightarrow> u8 \<Rightarrow> nat \<Rightarrow> u8 list" where
  "demo_rom bs a n x y z =
     [0x42, 0x0d, 0xbf, 0xf3] @ replicate (2 * a) 0 @ bs @ replicate (2 * n) 0xff @ [x, y] @
     replicate (2 * z) 0"

lemma demo_rom_valid:
  assumes "even (length bs)" and "sum_list (rom_words bs) + of_nat n * 0xffff + be16 x y = 0x420dbff3"
  shows "rom_valid (demo_rom bs a n x y z)" and "stored_checksum (demo_rom bs a n x y z) = 0x420dbff3"
proof -
  show s: "stored_checksum (demo_rom bs a n x y z) = 0x420dbff3"
    by (simp add: stored_checksum_def demo_rom_def be_word_def)
  show "rom_valid (demo_rom bs a n x y z)"
    using word_sum_blocks [OF assms(1)] assms(2) s by (simp add: rom_valid_def demo_rom_def)
qed

text \<open>Checksum compensation of chime-skip: on a valid 1 MiB ROM with the stored checksum
  0x420dbff3 and the word 0x422b at 0x706e, which the set replaces, the patched ROM is valid again.\<close>

theorem chime_skip_keeps_checksum:
  assumes "length rom = 0x100000" and "rom_valid rom" and "stored_checksum rom = 0x420dbff3"
    and "rom ! 0x706e = 0x42" and "rom ! 0x706f = 0x2b"
  shows "\<exists>rom'. mame_patch_rom ''chime-skip'' rom = Inr rom' \<and> rom_valid rom'"
proof -
  let ?r1 = "rom[0x706e := 0x4e, 0x706e + 1 := 0xd6]"
  let ?r2 = "?r1[0 := 0x42, 1 := 0x0d, 2 := 0xcc, 3 := 0x9e]"
  have "mame_patch_rom ''chime-skip'' rom = Inr ?r2"
    using assms(1) by (subst mame_patch_single) (simp_all add: chime_skip_edits)
  moreover have "word_sum ?r2 = word_sum ?r1" by (simp add: word_sum_header)
  moreover have "word_sum ?r1 = 0x420dcc9e"
    using assms by (subst word_sum_update) (simp_all add: rom_valid_def be16_def)
  moreover have "stored_checksum ?r2 = 0x420dcc9e"
    using assms(1) by (simp add: stored_checksum_def be_word_def)
  ultimately show ?thesis by (auto simp: rom_valid_def)
qed

theorem chime_skip_keeps_checksum_witness:
  "let rom = demo_rom [0x42, 0x2b] 14389 16909 0xbf 0xd5 492986
   in \<exists>rom'. mame_patch_rom ''chime-skip'' rom = Inr rom' \<and> rom_valid rom'"
  unfolding Let_def
  by (rule chime_skip_keeps_checksum)
     (simp_all add: demo_rom_valid be16_def, simp_all add: demo_rom_def nth_append)

text \<open>Checksum compensation of chime-delay: the constant the set stores balances the sum exactly
  when the two words it overwrites add up to 0x151c8.\<close>

theorem chime_delay_checksum_iff:
  assumes "length rom = 0x100000" and "rom_valid rom" and "stored_checksum rom = 0x420dbff3"
  shows "\<exists>rom'. mame_patch_rom ''chime-delay'' rom = Inr rom' \<and>
    (rom_valid rom' \<longleftrightarrow>
       be16 (rom ! 0x7118) (rom ! 0x7119) + be16 (rom ! 0x711a) (rom ! 0x711b) = 0x151c8)"
proof -
  let ?r1 = "rom[0x7118 := 0x4e, 0x7118 + 1 := 0x71]"
  let ?r2 = "?r1[0x711a := 0x4e, 0x711a + 1 := 0x71]"
  let ?r3 = "?r2[0 := 0x42, 1 := 0x0d, 2 := 0x0b, 3 := 0x0d]"
  have m: "mame_patch_rom ''chime-delay'' rom = Inr ?r3"
    using assms(1) by (subst mame_patch_single) (simp_all add: chime_delay_edits)
  have "word_sum ?r3 = word_sum ?r2" by (simp add: word_sum_header)
  also have "\<dots> = word_sum ?r1 - be16 (rom ! 0x711a) (rom ! 0x711b) + 0x4e71"
    using assms(1) by (subst word_sum_update) (simp_all add: be16_def)
  also have "\<dots> = 0x420dbff3 - be16 (rom ! 0x7118) (rom ! 0x7119) + 0x4e71
      - be16 (rom ! 0x711a) (rom ! 0x711b) + 0x4e71"
    using assms by (subst word_sum_update) (simp_all add: rom_valid_def be16_def)
  finally have w: "word_sum ?r3 = 0x420e5cd5 -
      (be16 (rom ! 0x7118) (rom ! 0x7119) + be16 (rom ! 0x711a) (rom ! 0x711b))"
    by (simp add: algebra_simps)
  have s: "stored_checksum ?r3 = 0x420d0b0d"
    using assms(1) by (simp add: stored_checksum_def be_word_def)
  have "rom_valid ?r3 \<longleftrightarrow>
      be16 (rom ! 0x7118) (rom ! 0x7119) + be16 (rom ! 0x711a) (rom ! 0x711b) = 0x151c8"
  proof -
    have "(0x420d0b0d = 0x420e5cd5 - x) = (x = 0x151c8)" for x :: u32
    proof
      assume *: "0x420d0b0d = 0x420e5cd5 - x"
      have "x = 0x420e5cd5 - (0x420e5cd5 - x)" by simp
      also have "\<dots> = 0x151c8" unfolding * [symmetric] by simp
      finally show "x = 0x151c8" .
    qed simp
    then show ?thesis unfolding rom_valid_def w s by blast
  qed
  with m show ?thesis by blast
qed

theorem chime_delay_checksum_iff_witness:
  "let rom = demo_rom [0xff, 0xff, 0x51, 0xc9] 14474 16908 0xb0 0x37 492901
   in \<exists>rom'. mame_patch_rom ''chime-delay'' rom = Inr rom' \<and> rom_valid rom'"
proof -
  let ?rom = "demo_rom [0xff, 0xff, 0x51, 0xc9] 14474 16908 0xb0 0x37 492901"
  have len: "length ?rom = 0x100000" by (simp add: demo_rom_def)
  have v: "rom_valid ?rom" "stored_checksum ?rom = 0x420dbff3"
    by (simp_all add: demo_rom_valid be16_def)
  have "be16 (?rom ! 0x7118) (?rom ! 0x7119) + be16 (?rom ! 0x711a) (?rom ! 0x711b) = 0x151c8"
    by (simp add: demo_rom_def nth_append be16_def)
  with chime_delay_checksum_iff [OF len v] show ?thesis by (auto simp: Let_def)
qed

text \<open>A conflict the two programs treat differently: chime-delay and chime-skip both replace the
  stored checksum, with different values.  The boot harness exits with status 2; the MAME patcher
  accepts the pair and keeps the value of the last, which is wrong for the words of the first.\<close>

theorem chime_sets_conflict:
  "apply_rom_patches [''chime-delay'', ''chime-skip''] rom = Inl 2 \<and>
   (length rom = 0x100000 \<longrightarrow>
    (\<exists>rom'. mame_patch_rom ''chime-delay,chime-skip'' rom = Inr rom' \<and>
       stored_checksum rom' = 0x420dcc9e \<and> rom' ! 0x7118 = 0x4e \<and> rom' ! 0x706e = 0x4e))"
proof -
  let ?d = "snd (add_rom_patch_set [] ''chime-delay'')" and ?s = "snd (add_rom_patch_set [] ''chime-skip'')"
  have harness: "apply_rom_patches [''chime-delay'', ''chime-skip''] rom = Inl 2"
    by (simp add: apply_rom_patches_def add_rom_patch_set_def patch_set_calls_def rom_patch_return_def
        rom_patch_nop_word_def rom_patch_word_def rom_patch_long_def rom_patch_byte_def
        add_active_rom_patch_byte_def rom_patch_set_enables_ramtest_mame_state_fastfill_def)
  have "mame_patch_rom ''chime-delay,chime-skip'' rom = Inr (write_patches (?d @ ?s) rom)"
    if "length rom = 0x100000"
  proof -
    have "inside (?d @ ?s) (length rom)"
      using that by (simp add: inside_edits chime_delay_edits chime_skip_edits)
    moreover have "getline_commas [] ''chime-delay,chime-skip'' = [''chime-delay'', ''chime-skip'']" by simp
    ultimately show ?thesis
      using add_patch_set_list_known [of "[''chime-delay'', ''chime-skip'']" "[]"]
      by (simp add: mame_patch_rom_def add_patch_sets_def patch_rom_inside chime_delay_edits(2)
          chime_skip_edits(2) del: getline_commas.simps add_patch_set_list.simps)
  qed
  then show ?thesis
    using harness
    by (auto simp: write_edits chime_delay_edits chime_skip_edits stored_checksum_def be_word_def)
qed

theorem chime_sets_conflict_witness:
  "\<exists>rom'. mame_patch_rom ''chime-delay,chime-skip'' (replicate 0x100000 0) = Inr rom' \<and>
     stored_checksum rom' = 0x420dcc9e"
  using chime_sets_conflict [of "replicate 0x100000 0"] by (simp only: length_replicate) blast

end
