(* ===== verification/Sd_Card_Spi.thy ===== *)
theory Sd_Card_Spi
  imports Soc_Prelude
begin

unbundle bit_operations_syntax

text \<open>
  The SD card model in SPI mode, class \<open>SdCardSpi\<close> of \<open>tb/models/sd_card_spi.h\<close>: the backing store
  with its overlay, the response queue, the command interpreter, the write-data state machine and the
  bit-level pin interface \<open>tick\<close>.

  The image file is the list of its bytes; \<open>sd_fp\<close> is \<open>None\<close> while no file is open.  Seeking inside an
  open file succeeds, reading yields the bytes up to end of file, and writing replaces or appends
  bytes; these are the C library calls the class uses.  Trace output is left out.  The \<open>int\<close> counters
  are natural numbers: the class only increments them, resets them, or decrements them under a guard
  that they are positive.
\<close>

section \<open>State\<close>

datatype wstate = W_IDLE | W_AWAIT_TOKEN | W_RECV_DATA | W_RECV_CRC | W_BUSY

record sd_card =
  sd_writeback :: bool
  sd_cmd_count :: u64
  sd_read_blocks :: u64
  sd_write_blocks :: u64
  sd_bytes_clocked :: u64
  sd_fp :: "u8 list option"
  sd_img_bytes :: u64
  sd_base_lba :: u32
  sd_overlay :: "u32 \<rightharpoonup> u8 list"
  sd_miso :: "u8 list"
  sd_frame :: "u8 list"
  sd_in_frame :: bool
  sd_read_active :: bool
  sd_read_lba :: u32
  sd_acmd41_seen :: nat
  sd_wstate :: wstate
  sd_w_data_cnt :: nat
  sd_w_crc_cnt :: nat
  sd_w_busy :: nat
  sd_w_lba :: u32
  sd_w_cmd :: u8
  sd_w_multi :: bool
  sd_w_block :: "u8 list"
  sd_mosi_byte :: u8
  sd_rise_count :: nat
  sd_miso_byte :: u8
  sd_miso_bits_left :: nat
  sd_last_clk :: bool
  sd_last_cs_n :: bool

definition sd_initial :: sd_card where
  "sd_initial = \<lparr>sd_writeback = False, sd_cmd_count = 0, sd_read_blocks = 0, sd_write_blocks = 0,
     sd_bytes_clocked = 0, sd_fp = None, sd_img_bytes = 0, sd_base_lba = 0, sd_overlay = Map.empty,
     sd_miso = [], sd_frame = [], sd_in_frame = False, sd_read_active = False, sd_read_lba = 0,
     sd_acmd41_seen = 0, sd_wstate = W_IDLE, sd_w_data_cnt = 0, sd_w_crc_cnt = 0, sd_w_busy = 0,
     sd_w_lba = 0, sd_w_cmd = 0, sd_w_multi = False, sd_w_block = [], sd_mosi_byte = 0,
     sd_rise_count = 0, sd_miso_byte = 0xFF, sd_miso_bits_left = 0, sd_last_clk = False,
     sd_last_cs_n = True\<rparr>"

definition RESERVED_LBAS :: u32 where "RESERVED_LBAS = 8192"

text \<open>\<open>contents\<close> is what \<open>fopen\<close> finds: the bytes of the file, or nothing.\<close>

definition attach :: "u8 list option \<Rightarrow> u32 \<Rightarrow> sd_card \<Rightarrow> bool \<times> sd_card" where
  "attach contents base_lba c =
     (case contents of
        None \<Rightarrow> (False, c\<lparr>sd_fp := None\<rparr>)
      | Some bytes \<Rightarrow>
          (True, c\<lparr>sd_fp := Some bytes, sd_img_bytes := of_nat (length bytes),
                   sd_base_lba := base_lba\<rparr>))"

definition attach_raw :: "u8 list option \<Rightarrow> sd_card \<Rightarrow> bool \<times> sd_card" where
  "attach_raw contents = attach contents 0"

definition attach_hdd :: "u8 list option \<Rightarrow> sd_card \<Rightarrow> bool \<times> sd_card" where
  "attach_hdd contents = attach contents RESERVED_LBAS"

definition attached :: "sd_card \<Rightarrow> bool" where
  "attached c \<longleftrightarrow> sd_fp c \<noteq> None"

section \<open>Backing store\<close>

definition file_read :: "u8 list \<Rightarrow> nat \<Rightarrow> nat \<Rightarrow> u8 list" where
  "file_read bytes off n = take n (drop off bytes)"

definition file_write :: "u8 list \<Rightarrow> nat \<Rightarrow> u8 list \<Rightarrow> u8 list" where
  "file_write bytes off d =
     take off (bytes @ replicate (off - length bytes) 0) @ d @ drop (off + length d) bytes"

definition image_offset :: "u32 \<Rightarrow> sd_card \<Rightarrow> u64" where
  "image_offset lba c = ucast (lba - sd_base_lba c) * 512"

definition read_sector :: "u32 \<Rightarrow> sd_card \<Rightarrow> u8 list" where
  "read_sector lba c =
     (case sd_overlay c lba of
        Some d \<Rightarrow> take 512 d
      | None \<Rightarrow>
          (case sd_fp c of
             None \<Rightarrow> replicate 512 0
           | Some bytes \<Rightarrow>
               if lba < sd_base_lba c then replicate 512 0
               else if image_offset lba c \<ge> sd_img_bytes c then replicate 512 0
               else let got = file_read bytes (unat (image_offset lba c)) 512
                    in got @ replicate (512 - length got) 0))"

text \<open>\<open>std::vector::resize(512, 0)\<close>.\<close>

definition resize512 :: "u8 list \<Rightarrow> u8 list" where
  "resize512 d = take 512 d @ replicate (512 - length d) 0"

definition write_sector :: "u32 \<Rightarrow> u8 list \<Rightarrow> sd_card \<Rightarrow> sd_card" where
  "write_sector lba data c =
     (let d = resize512 data;
          c1 = c\<lparr>sd_overlay := (sd_overlay c)(lba \<mapsto> d)\<rparr>
      in case sd_fp c of
           None \<Rightarrow> c1
         | Some bytes \<Rightarrow>
             if sd_writeback c \<and> lba \<ge> sd_base_lba c \<and> image_offset lba c < sd_img_bytes c
             then c1\<lparr>sd_fp := Some (file_write bytes (unat (image_offset lba c)) d)\<rparr>
             else c1)"

definition crc_shift :: "u16 \<Rightarrow> u16" where
  "crc_shift crc =
     (if crc AND 0x8000 \<noteq> 0 then push_bit 1 crc XOR 0x1021 else push_bit 1 crc)"

definition crc_byte :: "u16 \<Rightarrow> u8 \<Rightarrow> u16" where
  "crc_byte crc b = (crc_shift ^^ 8) (crc XOR push_bit 8 (ucast b))"

definition crc16_ccitt :: "u8 list \<Rightarrow> u16" where
  "crc16_ccitt data = foldl crc_byte 0 data"

section \<open>Response queue\<close>

definition push :: "u8 list \<Rightarrow> sd_card \<Rightarrow> sd_card" where
  "push bs c = c\<lparr>sd_miso := sd_miso c @ bs\<rparr>"

definition crc_bytes :: "u8 list \<Rightarrow> u8 list" where
  "crc_bytes data =
     (let crc = crc16_ccitt data in [ucast (drop_bit 8 crc), ucast (crc AND 0xFF)])"

definition queue_read_block :: "u32 \<Rightarrow> sd_card \<Rightarrow> sd_card" where
  "queue_read_block lba c =
     (let buf = read_sector lba c;
          c1 = push (crc_bytes buf) (push buf (push [0xFE] (push [0xFF] c)))
      in c1\<lparr>sd_read_blocks := sd_read_blocks c1 + 1\<rparr>)"

definition refill_miso :: "sd_card \<Rightarrow> sd_card" where
  "refill_miso c =
     (if sd_read_active c \<and> sd_miso c = [] then
        let q = queue_read_block (sd_read_lba c) c in q\<lparr>sd_read_lba := sd_read_lba q + 1\<rparr>
      else c)"

definition pop_miso :: "sd_card \<Rightarrow> u8 \<times> sd_card" where
  "pop_miso c =
     (let c1 = refill_miso c
      in if sd_wstate c1 = W_BUSY \<and> sd_miso c1 = [] \<and> sd_w_busy c1 > 0 then
           (0x00, c1\<lparr>sd_w_busy := sd_w_busy c1 - 1\<rparr>)
         else
           let c2 = (if sd_wstate c1 = W_BUSY \<and> sd_miso c1 = []
                     then c1\<lparr>sd_wstate := (if sd_w_multi c1 then W_AWAIT_TOKEN else W_IDLE)\<rparr>
                     else c1)
           in case sd_miso c2 of
                [] \<Rightarrow> (0xFF, c2)
              | b # rest \<Rightarrow> (b, c2\<lparr>sd_miso := rest\<rparr>))"

section \<open>Commands\<close>

definition csd_csize :: "sd_card \<Rightarrow> u32" where
  "csd_csize c =
     (let sectors = sd_img_bytes c div 512 + ucast (sd_base_lba c) + 1024;
          csize = (ucast (sectors div 1024) :: u32);
          csize1 = (if csize = 0 then 1 else csize);
          csize2 = csize1 - 1
      in if csize2 > 0x3FFFFF then 0x3FFFFF else csize2)"

definition csd_register :: "sd_card \<Rightarrow> u8 list" where
  "csd_register c =
     (let csize = csd_csize c
      in [0x40, 0x0E, 0x00, 0x32, 0x5B, 0x59, 0,
          ucast (drop_bit 16 csize AND 0x3F), ucast (drop_bit 8 csize AND 0xFF), ucast (csize AND 0xFF),
          0x7F, 0x80, 0x0A, 0x40, 0, 0])"

definition handle_frame :: "sd_card \<Rightarrow> sd_card" where
  "handle_frame c0 =
     (let f = sd_frame c0;
          cmd = f ! 0 AND 0x3F;
          arg = be_word (f ! 1) (f ! 2) (f ! 3) (f ! 4);
          c = c0\<lparr>sd_cmd_count := sd_cmd_count c0 + 1\<rparr>
      in if cmd = 0 then push [0xFF, 0x01] c
         else if cmd = 8 then push [0xFF, 0x01, 0x00, 0x00, 0x01, 0xAA] c
         else if cmd = 55 then push [0xFF, 0x01] c
         else if cmd = 41 then
           (push [0xFF, if sd_acmd41_seen c \<ge> 1 then 0x00 else 0x01] c)
             \<lparr>sd_acmd41_seen := sd_acmd41_seen c + 1\<rparr>
         else if cmd = 58 then push [0xFF, 0x00, 0xC0, 0xFF, 0x80, 0x00] c
         else if cmd = 59 then push [0xFF, 0x00] c
         else if cmd = 16 then push [0xFF, 0x00] c
         else if cmd = 9 then
           push (crc_bytes (csd_register c))
             (push (csd_register c) (push [0xFF, 0x00, 0xFF, 0xFE] c))
         else if cmd = 6 then push [0xFF, 0x04] c
         else if cmd = 17 then queue_read_block arg (push [0xFF, 0x00] c)
         else if cmd = 18 then
           (queue_read_block arg (push [0xFF, 0x00] c))
             \<lparr>sd_read_active := True, sd_read_lba := arg + 1\<rparr>
         else if cmd = 12 then push [0xFF, 0x00, 0xFF] (c\<lparr>sd_read_active := False, sd_miso := []\<rparr>)
         else if cmd = 24 \<or> cmd = 25 then
           (push [0xFF, 0x00] c)
             \<lparr>sd_wstate := W_AWAIT_TOKEN, sd_w_data_cnt := 0, sd_w_crc_cnt := 0, sd_w_lba := arg,
              sd_w_cmd := cmd, sd_w_multi := (cmd = 25), sd_w_block := []\<rparr>
         else push [0xFF, 0x04] c)"

definition observe_idle :: "u8 \<Rightarrow> sd_card \<Rightarrow> sd_card" where
  "observe_idle b c =
     (if \<not> sd_in_frame c then
        if b AND 0xC0 = 0x40 then c\<lparr>sd_frame := [b], sd_in_frame := True\<rparr> else c
      else
        let c1 = c\<lparr>sd_frame := sd_frame c @ [b]\<rparr>
        in if length (sd_frame c1) = 6 then (handle_frame c1)\<lparr>sd_in_frame := False\<rparr> else c1)"

definition observe_mosi :: "u8 \<Rightarrow> sd_card \<Rightarrow> sd_card" where
  "observe_mosi b c =
     (case sd_wstate c of
        W_AWAIT_TOKEN \<Rightarrow>
          if sd_w_cmd c = 24 \<and> b = 0xFE \<or> sd_w_cmd c = 25 \<and> b = 0xFC then
            c\<lparr>sd_wstate := W_RECV_DATA, sd_w_data_cnt := 0, sd_w_block := []\<rparr>
          else if sd_w_cmd c = 25 \<and> b = 0xFD then
            c\<lparr>sd_w_busy := 4, sd_wstate := W_BUSY, sd_w_cmd := 0, sd_w_multi := False\<rparr>
          else c
      | W_RECV_DATA \<Rightarrow>
          let c1 = c\<lparr>sd_w_block := sd_w_block c @ [b], sd_w_data_cnt := sd_w_data_cnt c + 1\<rparr>
          in if sd_w_data_cnt c1 = 512 then c1\<lparr>sd_wstate := W_RECV_CRC, sd_w_crc_cnt := 0\<rparr> else c1
      | W_RECV_CRC \<Rightarrow>
          let c1 = c\<lparr>sd_w_crc_cnt := sd_w_crc_cnt c + 1\<rparr>
          in if sd_w_crc_cnt c1 = 2 then
               let c2 = write_sector (sd_w_lba c1) (sd_w_block c1) (push [0xE5] c1)
               in c2\<lparr>sd_write_blocks := sd_write_blocks c2 + 1,
                     sd_w_lba := (if sd_w_multi c2 then sd_w_lba c2 + 1 else sd_w_lba c2),
                     sd_w_busy := 4, sd_wstate := W_BUSY\<rparr>
             else c1
      | W_BUSY \<Rightarrow> c
      | W_IDLE \<Rightarrow> observe_idle b c)"

section \<open>Pins\<close>

definition sd_select :: "bool \<Rightarrow> sd_card \<Rightarrow> sd_card" where
  "sd_select cs_n_now c =
     (let c1 = (if sd_last_cs_n c \<and> \<not> cs_n_now
                then c\<lparr>sd_rise_count := 0, sd_mosi_byte := 0, sd_miso_byte := 0xFF,
                       sd_miso_bits_left := 8\<rparr>
                else c)
      in c1\<lparr>sd_last_cs_n := cs_n_now\<rparr>)"

definition sd_rise :: "bool \<Rightarrow> sd_card \<Rightarrow> sd_card" where
  "sd_rise mosi c =
     (let c1 = c\<lparr>sd_mosi_byte := push_bit 1 (sd_mosi_byte c) OR b2w mosi,
                 sd_rise_count := sd_rise_count c + 1\<rparr>
      in if sd_rise_count c1 = 8 then
           (observe_mosi (sd_mosi_byte c1) (c1\<lparr>sd_bytes_clocked := sd_bytes_clocked c1 + 1\<rparr>))
             \<lparr>sd_rise_count := 0, sd_mosi_byte := 0\<rparr>
         else c1)"

definition sd_fall :: "sd_card \<Rightarrow> sd_card" where
  "sd_fall c =
     (if sd_miso_bits_left c \<le> 1 then
        let (b, c1) = pop_miso c in c1\<lparr>sd_miso_byte := b, sd_miso_bits_left := 8\<rparr>
      else c\<lparr>sd_miso_byte := push_bit 1 (sd_miso_byte c) OR 1,
             sd_miso_bits_left := sd_miso_bits_left c - 1\<rparr>)"

definition sd_tick :: "bool \<Rightarrow> bool \<Rightarrow> bool \<Rightarrow> sd_card \<Rightarrow> bool \<times> sd_card" where
  "sd_tick sck mosi cs_n c =
     (let c1 = sd_select cs_n c
      in if cs_n then (True, c1\<lparr>sd_last_clk := sck\<rparr>)
         else
           let c2 = (if \<not> sd_last_clk c1 \<and> sck then sd_rise mosi c1 else c1);
               c3 = (if sd_last_clk c1 \<and> \<not> sck then sd_fall c2 else c2);
               c4 = c3\<lparr>sd_last_clk := sck\<rparr>
           in (bit (sd_miso_byte c4) 7, c4))"

end
