(* ===== verification/Sd_Card_Spi_Props.thy ===== *)
theory Sd_Card_Spi_Props
  imports Sd_Card_Spi
begin

unbundle bit_operations_syntax

text \<open>
  Properties of the SD card model: the CRC, a well-formedness invariant over every pin sequence, that
  the image file is safe, the reported capacity, and the refinement of the byte level by the bit-level
  pin interface.
\<close>

section \<open>CRC\<close>

lemma crc_shift_low:
  assumes "\<not> bit x 15"
  shows "crc_shift x = push_bit 1 x"
proof -
  have "x AND 0x8000 = 0"
    using assms and_exp_eq_0_iff_not_bit [of x 15] by simp
  then show ?thesis by (simp add: crc_shift_def)
qed

lemma crc_shifts_low:
  "n \<le> 8 \<Longrightarrow> (crc_shift ^^ n) (ucast (b :: u8)) = push_bit n (ucast b)"
proof (induction n)
  case (Suc n)
  have "\<not> bit (push_bit n (ucast b) :: u16) 15"
    using Suc.prems by (auto simp: bit_simps)
  then show ?case using Suc by (simp add: crc_shift_low)
qed simp

lemma crc_byte_high:
  "crc_byte crc (ucast (drop_bit 8 crc)) = push_bit 8 (ucast (ucast crc :: u8))"
proof -
  have "crc XOR push_bit 8 (ucast (ucast (drop_bit 8 crc) :: u8)) = ucast (ucast crc :: u8)"
    by (rule bit_word_eqI) (auto simp: bit_simps)
  then show ?thesis by (simp add: crc_byte_def crc_shifts_low)
qed

lemma crc_byte_low: "crc_byte (push_bit 8 (ucast b)) b = 0"
proof -
  have "(crc_shift ^^ 8) 0 = 0" using crc_shifts_low [of 8 0] by simp
  then show ?thesis by (simp add: crc_byte_def)
qed

lemma crc_low_byte: "ucast (crc AND 0xFF :: u16) = (ucast crc :: u8)"
proof (rule bit_word_eqI)
  have m: "(0xFF :: u16) = mask 8" by (simp add: mask_eq_exp_minus_1)
  show "bit (ucast (crc AND 0xFF :: u16) :: u8) n = bit (ucast crc :: u8) n" if "n < LENGTH(8)" for n
    using that unfolding m by (auto simp: bit_simps)
qed

text \<open>CRC residue: data followed by the two CRC bytes the card appends has CRC zero, which is the
  check a receiver makes.\<close>

theorem crc16_residue: "crc16_ccitt (data @ crc_bytes data) = 0"
  by (simp add: crc16_ccitt_def crc_bytes_def Let_def crc_low_byte crc_byte_high crc_byte_low)

section \<open>Invariant\<close>

definition sd_core :: "sd_card \<Rightarrow> bool" where
  "sd_core c \<longleftrightarrow>
     (sd_in_frame c \<longrightarrow> 0 < length (sd_frame c) \<and> length (sd_frame c) < 6) \<and>
     (sd_wstate c = W_RECV_DATA \<longrightarrow> sd_w_data_cnt c = length (sd_w_block c) \<and> length (sd_w_block c) < 512) \<and>
     (sd_wstate c = W_RECV_CRC \<longrightarrow> length (sd_w_block c) = 512 \<and> sd_w_crc_cnt c < 2) \<and>
     (\<forall>lba d. sd_overlay c lba = Some d \<longrightarrow> length d = 512) \<and>
     sd_w_busy c \<le> 4"

definition sd_inv :: "sd_card \<Rightarrow> bool" where
  "sd_inv c \<longleftrightarrow> sd_core c \<and> sd_rise_count c < 8 \<and> sd_miso_bits_left c \<le> 8"

lemma length_resize512 [simp]: "length (resize512 d) = 512"
  by (simp add: resize512_def)

lemma push_sel [simp]:
  "sd_writeback (push bs c) = sd_writeback c" "sd_fp (push bs c) = sd_fp c"
  "sd_img_bytes (push bs c) = sd_img_bytes c" "sd_base_lba (push bs c) = sd_base_lba c"
  "sd_overlay (push bs c) = sd_overlay c" "sd_miso (push bs c) = sd_miso c @ bs"
  "sd_frame (push bs c) = sd_frame c" "sd_in_frame (push bs c) = sd_in_frame c"
  "sd_read_active (push bs c) = sd_read_active c" "sd_read_lba (push bs c) = sd_read_lba c"
  "sd_wstate (push bs c) = sd_wstate c" "sd_w_data_cnt (push bs c) = sd_w_data_cnt c"
  "sd_w_crc_cnt (push bs c) = sd_w_crc_cnt c" "sd_w_busy (push bs c) = sd_w_busy c"
  "sd_w_lba (push bs c) = sd_w_lba c" "sd_w_cmd (push bs c) = sd_w_cmd c"
  "sd_w_multi (push bs c) = sd_w_multi c" "sd_w_block (push bs c) = sd_w_block c"
  "sd_rise_count (push bs c) = sd_rise_count c" "sd_miso_bits_left (push bs c) = sd_miso_bits_left c"
  "sd_miso_byte (push bs c) = sd_miso_byte c" "sd_mosi_byte (push bs c) = sd_mosi_byte c"
  "sd_last_clk (push bs c) = sd_last_clk c" "sd_last_cs_n (push bs c) = sd_last_cs_n c"
  "sd_read_blocks (push bs c) = sd_read_blocks c"
  by (simp_all add: push_def)

text \<open>Everything but the pin-level shift registers and the counters of traffic.\<close>

lemma sd_core_push [simp]: "sd_core (push bs c) = sd_core c"
  by (simp add: sd_core_def)

lemma sd_core_queue [simp]: "sd_core (queue_read_block lba c) = sd_core c"
  by (simp add: queue_read_block_def Let_def, simp add: sd_core_def)

lemma write_sector_sel [simp]:
  "sd_frame (write_sector lba d c) = sd_frame c" "sd_in_frame (write_sector lba d c) = sd_in_frame c"
  "sd_overlay (write_sector lba d c) = (sd_overlay c)(lba \<mapsto> resize512 d)"
  "sd_miso (write_sector lba d c) = sd_miso c" "sd_w_multi (write_sector lba d c) = sd_w_multi c"
  "sd_w_lba (write_sector lba d c) = sd_w_lba c" "sd_read_active (write_sector lba d c) = sd_read_active c"
  "sd_writeback (write_sector lba d c) = sd_writeback c"
  by (simp_all add: write_sector_def Let_def split: option.split)

lemma sd_core_write_sector: "sd_core c \<Longrightarrow> sd_core (write_sector lba d c)"
  by (auto simp: write_sector_def Let_def sd_core_def split: option.splits)

lemma sd_core_updates [simp]:
  "sd_core (c\<lparr>sd_read_lba := x\<rparr>) = sd_core c" "sd_core (c\<lparr>sd_miso := q\<rparr>) = sd_core c"
  "sd_core (c\<lparr>sd_read_active := r\<rparr>) = sd_core c" "sd_core (c\<lparr>sd_cmd_count := n\<rparr>) = sd_core c"
  "sd_core (c\<lparr>sd_bytes_clocked := n\<rparr>) = sd_core c" "sd_core (c\<lparr>sd_miso_byte := b\<rparr>) = sd_core c"
  "sd_core (c\<lparr>sd_mosi_byte := b\<rparr>) = sd_core c" "sd_core (c\<lparr>sd_last_clk := r\<rparr>) = sd_core c"
  "sd_core (c\<lparr>sd_last_cs_n := r\<rparr>) = sd_core c" "sd_core (c\<lparr>sd_rise_count := k\<rparr>) = sd_core c"
  "sd_core (c\<lparr>sd_miso_bits_left := k\<rparr>) = sd_core c" "sd_core (c\<lparr>sd_write_blocks := n\<rparr>) = sd_core c"
  "sd_core (c\<lparr>sd_w_lba := x\<rparr>) = sd_core c"
  by (simp_all add: sd_core_def)

lemma sd_core_pop: "sd_core c \<Longrightarrow> sd_core (snd (pop_miso c))"
proof -
  assume *: "sd_core c"
  have busy: "sd_core c' \<Longrightarrow> sd_core (c'\<lparr>sd_w_busy := sd_w_busy c' - 1\<rparr>)"
    "sd_core c' \<Longrightarrow> sd_core (c'\<lparr>sd_wstate := if m then W_AWAIT_TOKEN else W_IDLE\<rparr>)" for c' m
    by (auto simp: sd_core_def)
  show ?thesis
    unfolding pop_miso_def refill_miso_def Let_def using * busy by (simp split: list.split)
qed

lemma sd_core_handle:
  assumes "sd_core (c\<lparr>sd_in_frame := False\<rparr>)"
  shows "sd_core ((handle_frame c)\<lparr>sd_in_frame := False\<rparr>)"
  using assms by (simp add: handle_frame_def Let_def queue_read_block_def sd_core_def)

lemma sd_core_observe_idle: "sd_core c \<Longrightarrow> sd_core (observe_idle b c)"
proof (cases "sd_in_frame c")
  case True
  assume *: "sd_core c"
  then have "sd_core (c\<lparr>sd_frame := sd_frame c @ [b], sd_in_frame := False\<rparr>)" by (simp add: sd_core_def)
  then have "sd_core ((handle_frame (c\<lparr>sd_frame := sd_frame c @ [b]\<rparr>))\<lparr>sd_in_frame := False\<rparr>)"
    by (intro sd_core_handle) simp
  moreover have "sd_core (c\<lparr>sd_frame := sd_frame c @ [b]\<rparr>)" if "length (sd_frame c) \<noteq> 5"
    using * that True by (simp add: sd_core_def)
  ultimately show ?thesis using True by (simp add: observe_idle_def Let_def)
next
  case False
  assume "sd_core c"
  with False show ?thesis by (simp add: observe_idle_def sd_core_def)
qed

lemma sd_core_observe:
  assumes "sd_core c"
  shows "sd_core (observe_mosi b c)"
proof (cases "sd_wstate c")
  case W_IDLE
  then show ?thesis using assms by (simp add: observe_mosi_def sd_core_observe_idle)
next
  case W_RECV_CRC
  have busy: "sd_core (c'\<lparr>sd_w_busy := 4, sd_wstate := W_BUSY\<rparr>)"
    if "sd_in_frame c' = sd_in_frame c" "sd_frame c' = sd_frame c"
      "\<forall>lba d. sd_overlay c' lba = Some d \<longrightarrow> length d = 512" for c'
    using that assms by (simp add: sd_core_def)
  have more: "sd_core (c\<lparr>sd_w_crc_cnt := Suc (sd_w_crc_cnt c)\<rparr>)" if "sd_w_crc_cnt c \<noteq> 1"
    using that assms W_RECV_CRC by (simp add: sd_core_def)
  have ov: "\<forall>lba d. sd_overlay c lba = Some d \<longrightarrow> length d = 512" using assms by (simp add: sd_core_def)
  show ?thesis using W_RECV_CRC more ov
    by (simp add: observe_mosi_def Let_def busy)
next
  case W_RECV_DATA
  then show ?thesis using assms by (simp add: observe_mosi_def Let_def sd_core_def)
next
  case W_AWAIT_TOKEN
  then show ?thesis using assms by (simp add: observe_mosi_def sd_core_def)
next
  case W_BUSY
  then show ?thesis using assms by (simp add: observe_mosi_def)
qed

text \<open>What the byte level leaves alone: the shift registers of the pin level.\<close>

definition pin_state :: "sd_card \<Rightarrow> u8 \<times> nat \<times> u8 \<times> nat \<times> bool \<times> bool" where
  "pin_state c = (sd_mosi_byte c, sd_rise_count c, sd_miso_byte c, sd_miso_bits_left c, sd_last_clk c,
     sd_last_cs_n c)"

lemma pin_state_queue [simp]: "pin_state (queue_read_block lba c) = pin_state c"
  by (simp add: queue_read_block_def Let_def pin_state_def)

lemma pin_state_write_sector [simp]: "pin_state (write_sector lba d c) = pin_state c"
  by (simp add: write_sector_def Let_def pin_state_def split: option.split)

lemma pin_state_push [simp]: "pin_state (push bs c) = pin_state c"
  by (simp add: pin_state_def)

lemma pin_state_updates [simp]:
  "pin_state (c\<lparr>sd_read_lba := x\<rparr>) = pin_state c" "pin_state (c\<lparr>sd_miso := q\<rparr>) = pin_state c"
  "pin_state (c\<lparr>sd_read_active := r\<rparr>) = pin_state c" "pin_state (c\<lparr>sd_cmd_count := n\<rparr>) = pin_state c"
  "pin_state (c\<lparr>sd_acmd41_seen := k\<rparr>) = pin_state c" "pin_state (c\<lparr>sd_wstate := w\<rparr>) = pin_state c"
  "pin_state (c\<lparr>sd_w_data_cnt := k\<rparr>) = pin_state c" "pin_state (c\<lparr>sd_w_crc_cnt := k\<rparr>) = pin_state c"
  "pin_state (c\<lparr>sd_w_lba := x\<rparr>) = pin_state c" "pin_state (c\<lparr>sd_w_cmd := b\<rparr>) = pin_state c"
  "pin_state (c\<lparr>sd_w_multi := r\<rparr>) = pin_state c" "pin_state (c\<lparr>sd_w_block := q\<rparr>) = pin_state c"
  "pin_state (c\<lparr>sd_w_busy := k\<rparr>) = pin_state c" "pin_state (c\<lparr>sd_frame := q\<rparr>) = pin_state c"
  "pin_state (c\<lparr>sd_in_frame := r\<rparr>) = pin_state c" "pin_state (c\<lparr>sd_write_blocks := n\<rparr>) = pin_state c"
  "pin_state (c\<lparr>sd_bytes_clocked := n\<rparr>) = pin_state c"
  by (simp_all add: pin_state_def)

lemma pin_state_handle [simp]: "pin_state (handle_frame c) = pin_state c"
  by (simp add: handle_frame_def Let_def)

lemma pin_state_observe [simp]: "pin_state (observe_mosi b c) = pin_state c"
  by (cases "sd_wstate c") (simp_all add: observe_mosi_def observe_idle_def Let_def)

lemma pin_state_pop [simp]: "pin_state (snd (pop_miso c)) = pin_state c"
  by (simp add: pop_miso_def refill_miso_def Let_def split: list.split)

lemma sd_inv_rise: "sd_inv c \<Longrightarrow> sd_inv (sd_rise mosi c)"
proof -
  assume *: "sd_inv c"
  have "sd_miso_bits_left (observe_mosi b c') = sd_miso_bits_left c'" for b c'
    using pin_state_observe [of b c'] by (simp add: pin_state_def)
  with * show ?thesis
    by (simp add: sd_rise_def Let_def sd_inv_def sd_core_observe)
qed

lemma sd_inv_fall: "sd_inv c \<Longrightarrow> sd_inv (sd_fall c)"
proof -
  assume *: "sd_inv c"
  have "sd_rise_count (snd (pop_miso c)) = sd_rise_count c"
    using pin_state_pop [of c] by (simp add: pin_state_def)
  with * show ?thesis
    by (auto simp: sd_fall_def Let_def sd_inv_def sd_core_pop split_def)
qed

lemma sd_inv_tick: "sd_inv c \<Longrightarrow> sd_inv (snd (sd_tick sck mosi cs_n c))"
proof -
  assume *: "sd_inv c"
  have s: "sd_inv (sd_select b c)" for b using * by (simp add: sd_select_def Let_def sd_inv_def)
  have l: "sd_inv (c'\<lparr>sd_last_clk := b\<rparr>) = sd_inv c'" for b c' by (simp add: sd_inv_def)
  show ?thesis
    unfolding sd_tick_def Let_def using s by (simp add: l sd_inv_rise sd_inv_fall)
qed

interpretation sd: step_machine "\<lambda>c (sck, mosi, cs_n). snd (sd_tick sck mosi cs_n c)" sd_inv
  by unfold_locales (auto simp: sd_inv_tick)

text \<open>C40 The card's state stays well formed under every sequence of pin levels: a command frame in
  progress has one to five bytes, a data block in reception as many bytes as its counter says and
  never more than 512, a block waiting for its CRC exactly 512, every overlay sector 512 bytes, and
  the bit counters are within a byte.\<close>

theorem sd_well_formed:
  "sd_inv (foldl (\<lambda>c (sck, mosi, cs_n). snd (sd_tick sck mosi cs_n c))
     (snd (attach img base (sd_initial\<lparr>sd_writeback := wb\<rparr>))) pins)"
  by (rule sd.run_inv) (simp add: sd_inv_def sd_core_def sd_initial_def attach_def split: option.split)

section \<open>The image is read-only unless writeback is on\<close>

definition image_view :: "sd_card \<Rightarrow> bool \<times> u8 list option \<times> u64 \<times> u32" where
  "image_view c = (sd_writeback c, if sd_writeback c then None else sd_fp c, sd_img_bytes c, sd_base_lba c)"

lemma image_view_write_sector [simp]: "image_view (write_sector lba d c) = image_view c"
  by (simp add: write_sector_def Let_def image_view_def split: option.split)

lemma image_view_push [simp]: "image_view (push bs c) = image_view c"
  by (simp add: image_view_def)

lemma image_view_queue [simp]: "image_view (queue_read_block lba c) = image_view c"
  by (simp add: queue_read_block_def Let_def image_view_def)

lemma image_view_updates [simp]:
  "image_view (c\<lparr>sd_read_lba := x\<rparr>) = image_view c" "image_view (c\<lparr>sd_miso := q\<rparr>) = image_view c"
  "image_view (c\<lparr>sd_read_active := r\<rparr>) = image_view c" "image_view (c\<lparr>sd_cmd_count := n\<rparr>) = image_view c"
  "image_view (c\<lparr>sd_acmd41_seen := k\<rparr>) = image_view c" "image_view (c\<lparr>sd_wstate := w\<rparr>) = image_view c"
  "image_view (c\<lparr>sd_w_data_cnt := k\<rparr>) = image_view c" "image_view (c\<lparr>sd_w_crc_cnt := k\<rparr>) = image_view c"
  "image_view (c\<lparr>sd_w_lba := x\<rparr>) = image_view c" "image_view (c\<lparr>sd_w_cmd := b\<rparr>) = image_view c"
  "image_view (c\<lparr>sd_w_multi := r\<rparr>) = image_view c" "image_view (c\<lparr>sd_w_block := q\<rparr>) = image_view c"
  "image_view (c\<lparr>sd_w_busy := k\<rparr>) = image_view c" "image_view (c\<lparr>sd_frame := q\<rparr>) = image_view c"
  "image_view (c\<lparr>sd_in_frame := r\<rparr>) = image_view c" "image_view (c\<lparr>sd_write_blocks := n\<rparr>) = image_view c"
  "image_view (c\<lparr>sd_bytes_clocked := n\<rparr>) = image_view c" "image_view (c\<lparr>sd_mosi_byte := b\<rparr>) = image_view c"
  "image_view (c\<lparr>sd_rise_count := k\<rparr>) = image_view c" "image_view (c\<lparr>sd_miso_byte := b\<rparr>) = image_view c"
  "image_view (c\<lparr>sd_miso_bits_left := k\<rparr>) = image_view c" "image_view (c\<lparr>sd_last_clk := r\<rparr>) = image_view c"
  "image_view (c\<lparr>sd_last_cs_n := r\<rparr>) = image_view c"
  by (simp_all add: image_view_def)

lemma image_view_handle [simp]: "image_view (handle_frame c) = image_view c"
  by (simp add: handle_frame_def Let_def)

lemma image_view_observe [simp]: "image_view (observe_mosi b c) = image_view c"
  by (cases "sd_wstate c") (simp_all add: observe_mosi_def observe_idle_def Let_def)

lemma image_view_pop [simp]: "image_view (snd (pop_miso c)) = image_view c"
  by (simp add: pop_miso_def refill_miso_def Let_def split: list.split)

lemma image_view_tick: "image_view (snd (sd_tick sck mosi cs_n c)) = image_view c"
proof -
  have "image_view (sd_rise m c') = image_view c'" "image_view (sd_fall c') = image_view c'"
    "image_view (sd_select b c') = image_view c'" for m b c'
    by (simp_all add: sd_rise_def sd_fall_def sd_select_def Let_def split_def)
  then show ?thesis by (simp add: sd_tick_def Let_def)
qed

interpretation sd_image: step_frame "\<lambda>c (sck, mosi, cs_n). snd (sd_tick sck mosi cs_n c)" image_view
  by unfold_locales (auto simp: image_view_tick)

text \<open>No simulation can corrupt the disk image: with writeback off, no sequence of pin levels
  changes the attached file, and none detaches it or moves it on the card.\<close>

theorem sd_image_untouched:
  assumes "\<not> sd_writeback c"
  shows "let c' = foldl (\<lambda>c (sck, mosi, cs_n). snd (sd_tick sck mosi cs_n c)) c pins
         in sd_fp c' = sd_fp c \<and> sd_img_bytes c' = sd_img_bytes c \<and> sd_base_lba c' = sd_base_lba c"
  using sd_image.run_obs [of c pins] assms by (auto simp: image_view_def Let_def)

theorem sd_image_untouched_witness:
  "let c = snd (attach_hdd (Some [1, 2, 3]) sd_initial);
       c' = foldl (\<lambda>c (sck, mosi, cs_n). snd (sd_tick sck mosi cs_n c)) c [(True, True, False)]
   in sd_fp c' = sd_fp c \<and> sd_img_bytes c' = sd_img_bytes c \<and> sd_base_lba c' = sd_base_lba c"
  using sd_image_untouched [of "snd (attach_hdd (Some [1, 2, 3]) sd_initial)" "[(True, True, False)]"]
  by (simp add: attach_hdd_def attach_def sd_initial_def)

section \<open>Capacity\<close>

text \<open>The reported capacity covers the image: as long as it does not hit the 22-bit limit of the
  CSD field, the card size computed from C_SIZE has room for every sector of the attached image,
  partial last sector included.\<close>

theorem csd_covers_image:
  assumes "sd_img_bytes c = of_nat n" and "n < 2 ^ 40"
    and "n div 512 + unat (sd_base_lba c) + 1024 < 2 ^ 32"
  shows "unat (sd_base_lba c) + (n + 511) div 512 \<le> (unat (csd_csize c) + 1) * 1024"
proof -
  let ?b = "unat (sd_base_lba c)"
  let ?s = "n div 512 + ?b + 1024"
  let ?sec = "sd_img_bytes c div 512 + ucast (sd_base_lba c) + 1024 :: u64"
  have n: "unat (of_nat n :: u64) = n" using assms(2) by (simp add: unat_of_nat take_bit_nat_eq_self_iff)
  have b32: "?b < 2 ^ 32" using unsigned_less [of "sd_base_lba c", where ?'a = nat] by simp
  then have b64: "unat (ucast (sd_base_lba c) :: u64) = ?b"
    by (simp add: unsigned_ucast_eq take_bit_eq_mod)
  have s64: "unat ?sec = ?s"
    using assms(3) by (simp add: unat_word_ariths unat_div assms(1) n b64)
  have q: "?s div 1024 < 2 ^ 22" "1 \<le> ?s div 1024" using assms(3) by (simp_all add: div_less_iff_less_mult)
  have "unat (ucast (?sec div 1024) :: u32) = ?s div 1024"
    using q by (simp add: unsigned_ucast_eq take_bit_eq_mod unat_div s64)
  then have u: "unat (csd_csize c) = ?s div 1024 - 1"
    using q by (auto simp: csd_csize_def Let_def word_less_nat_alt unat_sub_if' word_unat_eq_iff)
  then have "unat (csd_csize c) + 1 = ?s div 1024" using q(2) by linarith
  then have "(unat (csd_csize c) + 1) * 1024 = ?s div 1024 * 1024" by (simp only:)
  moreover have "?s div 1024 * 1024 + ?s mod 1024 = ?s" by (rule div_mult_mod_eq)
  moreover have "?s mod 1024 < 1024" by simp
  moreover have "(n + 511) div 512 \<le> n div 512 + 1"
    using div_le_mono [of "n + 511" "n + 512" 512] by simp
  ultimately show ?thesis by linarith
qed

theorem csd_covers_image_witness:
  "unat RESERVED_LBAS + (1000 + 511) div 512 \<le>
     (unat (csd_csize (snd (attach_hdd (Some (replicate 1000 0)) sd_initial))) + 1) * 1024"
  using csd_covers_image [of "snd (attach_hdd (Some (replicate 1000 0)) sd_initial)" 1000]
  by (simp add: attach_hdd_def attach_def RESERVED_LBAS_def)

section \<open>The pin level implements the byte level\<close>

lemma read_sector_cong:
  "sd_overlay c' = sd_overlay c \<Longrightarrow> sd_fp c' = sd_fp c \<Longrightarrow> sd_img_bytes c' = sd_img_bytes c \<Longrightarrow>
   sd_base_lba c' = sd_base_lba c \<Longrightarrow> read_sector lba c' = read_sector lba c"
  by (simp add: read_sector_def image_offset_def split: option.split)

text \<open>The shift registers and edge detectors of the pin level, set to given values.\<close>

definition with_pins :: "u8 \<times> nat \<times> u8 \<times> nat \<times> bool \<times> bool \<Rightarrow> sd_card \<Rightarrow> sd_card" where
  "with_pins = (\<lambda>(mo, rc, mi, bl, clk, cs) c.
     c\<lparr>sd_mosi_byte := mo, sd_rise_count := rc, sd_miso_byte := mi, sd_miso_bits_left := bl,
       sd_last_clk := clk, sd_last_cs_n := cs\<rparr>)"

lemma with_pins_sel [simp]:
  "sd_writeback (with_pins p c) = sd_writeback c"
  "sd_img_bytes (with_pins p c) = sd_img_bytes c"
  "sd_base_lba (with_pins p c) = sd_base_lba c"
  "sd_cmd_count (with_pins p c) = sd_cmd_count c"
  "sd_read_blocks (with_pins p c) = sd_read_blocks c"
  "sd_write_blocks (with_pins p c) = sd_write_blocks c"
  "sd_bytes_clocked (with_pins p c) = sd_bytes_clocked c"
  "sd_fp (with_pins p c) = sd_fp c"
  "sd_overlay (with_pins p c) = sd_overlay c"
  "sd_miso (with_pins p c) = sd_miso c"
  "sd_frame (with_pins p c) = sd_frame c"
  "sd_in_frame (with_pins p c) = sd_in_frame c"
  "sd_read_active (with_pins p c) = sd_read_active c"
  "sd_read_lba (with_pins p c) = sd_read_lba c"
  "sd_acmd41_seen (with_pins p c) = sd_acmd41_seen c"
  "sd_wstate (with_pins p c) = sd_wstate c"
  "sd_w_data_cnt (with_pins p c) = sd_w_data_cnt c"
  "sd_w_crc_cnt (with_pins p c) = sd_w_crc_cnt c"
  "sd_w_busy (with_pins p c) = sd_w_busy c"
  "sd_w_lba (with_pins p c) = sd_w_lba c"
  "sd_w_cmd (with_pins p c) = sd_w_cmd c"
  "sd_w_multi (with_pins p c) = sd_w_multi c"
  "sd_w_block (with_pins p c) = sd_w_block c"
  by (simp_all add: with_pins_def split: prod.split)

lemma with_pins_upd [simp]:
  "(with_pins p c)\<lparr>sd_cmd_count := v_sd_cmd_count\<rparr> = with_pins p (c\<lparr>sd_cmd_count := v_sd_cmd_count\<rparr>)"
  "(with_pins p c)\<lparr>sd_read_blocks := v_sd_read_blocks\<rparr> = with_pins p (c\<lparr>sd_read_blocks := v_sd_read_blocks\<rparr>)"
  "(with_pins p c)\<lparr>sd_write_blocks := v_sd_write_blocks\<rparr> = with_pins p (c\<lparr>sd_write_blocks := v_sd_write_blocks\<rparr>)"
  "(with_pins p c)\<lparr>sd_bytes_clocked := v_sd_bytes_clocked\<rparr> = with_pins p (c\<lparr>sd_bytes_clocked := v_sd_bytes_clocked\<rparr>)"
  "(with_pins p c)\<lparr>sd_fp := v_sd_fp\<rparr> = with_pins p (c\<lparr>sd_fp := v_sd_fp\<rparr>)"
  "(with_pins p c)\<lparr>sd_overlay := v_sd_overlay\<rparr> = with_pins p (c\<lparr>sd_overlay := v_sd_overlay\<rparr>)"
  "(with_pins p c)\<lparr>sd_miso := v_sd_miso\<rparr> = with_pins p (c\<lparr>sd_miso := v_sd_miso\<rparr>)"
  "(with_pins p c)\<lparr>sd_frame := v_sd_frame\<rparr> = with_pins p (c\<lparr>sd_frame := v_sd_frame\<rparr>)"
  "(with_pins p c)\<lparr>sd_in_frame := v_sd_in_frame\<rparr> = with_pins p (c\<lparr>sd_in_frame := v_sd_in_frame\<rparr>)"
  "(with_pins p c)\<lparr>sd_read_active := v_sd_read_active\<rparr> = with_pins p (c\<lparr>sd_read_active := v_sd_read_active\<rparr>)"
  "(with_pins p c)\<lparr>sd_read_lba := v_sd_read_lba\<rparr> = with_pins p (c\<lparr>sd_read_lba := v_sd_read_lba\<rparr>)"
  "(with_pins p c)\<lparr>sd_acmd41_seen := v_sd_acmd41_seen\<rparr> = with_pins p (c\<lparr>sd_acmd41_seen := v_sd_acmd41_seen\<rparr>)"
  "(with_pins p c)\<lparr>sd_wstate := v_sd_wstate\<rparr> = with_pins p (c\<lparr>sd_wstate := v_sd_wstate\<rparr>)"
  "(with_pins p c)\<lparr>sd_w_data_cnt := v_sd_w_data_cnt\<rparr> = with_pins p (c\<lparr>sd_w_data_cnt := v_sd_w_data_cnt\<rparr>)"
  "(with_pins p c)\<lparr>sd_w_crc_cnt := v_sd_w_crc_cnt\<rparr> = with_pins p (c\<lparr>sd_w_crc_cnt := v_sd_w_crc_cnt\<rparr>)"
  "(with_pins p c)\<lparr>sd_w_busy := v_sd_w_busy\<rparr> = with_pins p (c\<lparr>sd_w_busy := v_sd_w_busy\<rparr>)"
  "(with_pins p c)\<lparr>sd_w_lba := v_sd_w_lba\<rparr> = with_pins p (c\<lparr>sd_w_lba := v_sd_w_lba\<rparr>)"
  "(with_pins p c)\<lparr>sd_w_cmd := v_sd_w_cmd\<rparr> = with_pins p (c\<lparr>sd_w_cmd := v_sd_w_cmd\<rparr>)"
  "(with_pins p c)\<lparr>sd_w_multi := v_sd_w_multi\<rparr> = with_pins p (c\<lparr>sd_w_multi := v_sd_w_multi\<rparr>)"
  "(with_pins p c)\<lparr>sd_w_block := v_sd_w_block\<rparr> = with_pins p (c\<lparr>sd_w_block := v_sd_w_block\<rparr>)"
  by (simp_all add: with_pins_def split: prod.split)

lemma with_pins_pin_state: "with_pins (pin_state c) c = c"
  by (simp add: with_pins_def pin_state_def)

lemma with_pins_twice [simp]: "with_pins p (with_pins q c) = with_pins p c"
  by (simp add: with_pins_def split: prod.split)

lemma with_pins_if: "(if b then with_pins p x else with_pins p y) = with_pins p (if b then x else y)"
  by simp

lemma push_with_pins [simp]: "push bs (with_pins p c) = with_pins p (push bs c)"
  by (simp add: push_def)

lemma read_sector_with_pins [simp]: "read_sector lba (with_pins p c) = read_sector lba c"
  by (rule read_sector_cong) simp_all

lemma queue_with_pins [simp]: "queue_read_block lba (with_pins p c) = with_pins p (queue_read_block lba c)"
  by (simp add: queue_read_block_def Let_def)

lemma write_with_pins [simp]: "write_sector lba d (with_pins p c) = with_pins p (write_sector lba d c)"
  by (simp add: write_sector_def Let_def image_offset_def split: option.split)

lemma csd_with_pins [simp]: "csd_register (with_pins p c) = csd_register c"
  by (simp add: csd_register_def csd_csize_def)

lemma handle_with_pins [simp]: "handle_frame (with_pins p c) = with_pins p (handle_frame c)"
  by (simp add: handle_frame_def Let_def)

lemma observe_with_pins [simp]: "observe_mosi b (with_pins p c) = with_pins p (observe_mosi b c)"
  by (cases "sd_wstate c") (simp_all add: observe_mosi_def observe_idle_def Let_def)

lemma refill_with_pins [simp]: "refill_miso (with_pins p c) = with_pins p (refill_miso c)"
  by (simp add: refill_miso_def Let_def)

lemma pop_with_pins [simp]:
  "pop_miso (with_pins p c) = (fst (pop_miso c), with_pins p (snd (pop_miso c)))"
  by (cases "sd_miso (refill_miso c)"; cases "sd_wstate (refill_miso c)")
     (simp_all add: pop_miso_def Let_def)

text \<open>One byte time: eight clock periods of a rising and a falling edge, the host's bits on MOSI with
  the most significant first.\<close>

fun spi_bits :: "bool list \<Rightarrow> sd_card \<Rightarrow> bool list \<times> sd_card" where
  "spi_bits [] c = ([], c)"
| "spi_bits (m # ms) c =
     (let (out, c1) = sd_tick True m False c;
          (_, c2) = sd_tick False m False c1;
          (outs, c3) = spi_bits ms c2
      in (out # outs, c3))"

text \<open>The byte level of the same exchange: the card takes the host's byte, and the next byte of its
  queue is loaded for the next byte time.\<close>

definition byte_exchange :: "u8 \<Rightarrow> sd_card \<Rightarrow> u8 \<times> sd_card" where
  "byte_exchange b c =
     (let c1 = observe_mosi b (c\<lparr>sd_bytes_clocked := sd_bytes_clocked c + 1\<rparr>);
          (m, c2) = pop_miso c1
      in (sd_miso_byte c, with_pins (0, 0, m, 8, False, False) c2))"

lemma with_pins_pin_sel [simp]:
  "sd_mosi_byte (with_pins (mo, rc, mi, bl, ck, cs) c) = mo"
  "sd_rise_count (with_pins (mo, rc, mi, bl, ck, cs) c) = rc"
  "sd_miso_byte (with_pins (mo, rc, mi, bl, ck, cs) c) = mi"
  "sd_miso_bits_left (with_pins (mo, rc, mi, bl, ck, cs) c) = bl"
  "sd_last_clk (with_pins (mo, rc, mi, bl, ck, cs) c) = ck"
  "sd_last_cs_n (with_pins (mo, rc, mi, bl, ck, cs) c) = cs"
  by (simp_all add: with_pins_def)

lemma with_pins_pin_upd [simp]:
  "(with_pins (mo, rc, mi, bl, ck, cs) c)\<lparr>sd_mosi_byte := v1\<rparr> = with_pins (v1, rc, mi, bl, ck, cs) c"
  "(with_pins (mo, rc, mi, bl, ck, cs) c)\<lparr>sd_rise_count := v2\<rparr> = with_pins (mo, v2, mi, bl, ck, cs) c"
  "(with_pins (mo, rc, mi, bl, ck, cs) c)\<lparr>sd_miso_byte := v3\<rparr> = with_pins (mo, rc, v3, bl, ck, cs) c"
  "(with_pins (mo, rc, mi, bl, ck, cs) c)\<lparr>sd_miso_bits_left := v4\<rparr> = with_pins (mo, rc, mi, v4, ck, cs) c"
  "(with_pins (mo, rc, mi, bl, ck, cs) c)\<lparr>sd_last_clk := v5\<rparr> = with_pins (mo, rc, mi, bl, v5, cs) c"
  "(with_pins (mo, rc, mi, bl, ck, cs) c)\<lparr>sd_last_cs_n := v6\<rparr> = with_pins (mo, rc, mi, bl, ck, v6) c"
  by (simp_all add: with_pins_def)

lemma b2w_True [simp]: "b2w True = 1" "b2w False = 0"
  by (simp_all add: b2w_def)

lemma tick_rise:
  "sd_tick True m False (with_pins (mo, rc, mi, bl, False, False) c) =
     (bit mi 7,
      if rc = 7 then with_pins (0, 0, mi, bl, True, False)
        (observe_mosi (shift_in mo m) (c\<lparr>sd_bytes_clocked := sd_bytes_clocked c + 1\<rparr>))
      else with_pins (shift_in mo m, Suc rc, mi, bl, True, False) c)"
  by (simp add: sd_tick_def sd_select_def sd_rise_def Let_def shift_in_def)

lemma tick_fall:
  "snd (sd_tick False m False (with_pins (mo, rc, mi, bl, True, False) c)) =
     (if bl \<le> 1 then with_pins (mo, rc, fst (pop_miso c), 8, False, False) (snd (pop_miso c))
      else with_pins (mo, rc, shift_in mi True, bl - 1, False, False) c)"
  by (simp add: sd_tick_def sd_select_def sd_fall_def Let_def shift_in_def)

lemma spi_bits_step:
  "spi_bits (m # ms) c =
     (let c1 = snd (sd_tick True m False c); c2 = snd (sd_tick False m False c1)
      in (fst (sd_tick True m False c) # fst (spi_bits ms c2), snd (spi_bits ms c2)))"
  by (simp add: Let_def split: prod.split)

lemma shifted_in:
  "shift_in (shift_in (shift_in (shift_in (shift_in (shift_in (shift_in (shift_in x (bit b 7)) (bit b 6))
     (bit b 5)) (bit b 4)) (bit b 3)) (bit b 2)) (bit b 1)) (bit b 0) = (b :: u8)"
  by (rule word8_eqI) (auto simp: bit_shift_in)

lemma spi_bits_byte:
  "spi_bits (byte_bits b) (with_pins (0, 0, mi, 8, False, False) c) =
     (byte_bits mi, snd (byte_exchange b (with_pins (0, 0, mi, 8, False, False) c)))"
  by (simp add: shifted_in [unfolded One_nat_def] byte_bits_def spi_bits_step tick_rise tick_fall Let_def byte_exchange_def split_def bit_shift_in
      del: spi_bits.simps(2))

text \<open>C28 The pin level implements the byte level: from a byte boundary with the card selected, eight
  clock periods that carry the host's byte leave the card where taking that byte and loading the next
  queue byte leaves it, and the bits the host samples at the rising edges are the byte the card had
  loaded.\<close>

theorem spi_byte_refines:
  assumes "pin_state c = (0, 0, mi, 8, False, False)"
  shows "spi_bits (byte_bits b) c = (byte_bits (fst (byte_exchange b c)), snd (byte_exchange b c))"
proof -
  have c: "c = with_pins (0, 0, mi, 8, False, False) c"
    using with_pins_pin_state [of c] assms by simp
  have mi: "sd_miso_byte c = mi" using assms by (simp add: pin_state_def)
  show ?thesis
    using spi_bits_byte [of b mi c] mi unfolding c [symmetric] by (simp add: byte_exchange_def Let_def split_def)
qed

theorem spi_byte_refines_witness:
  "let c = snd (sd_tick False True False sd_initial)
   in spi_bits (byte_bits 0x40) c = (byte_bits (fst (byte_exchange 0x40 c)), snd (byte_exchange 0x40 c)) \<and>
      fst (byte_exchange 0x40 c) = 0xFF"
proof -
  let ?c = "snd (sd_tick False True False sd_initial)"
  have p: "pin_state ?c = (0, 0, 0xFF, 8, False, False)"
    by (simp add: sd_tick_def sd_select_def sd_initial_def Let_def pin_state_def)
  from spi_byte_refines [OF p, of "0x40"] p show ?thesis
    by (simp add: Let_def byte_exchange_def split_def) (simp add: pin_state_def)
qed

end
