(* ===== verification/Sd_Card_Session.thy ===== *)
theory Sd_Card_Session
  imports Sd_Card_Spi_Props
begin

unbundle bit_operations_syntax

text \<open>
  Full-duplex sessions with the SD card.  In every byte time the card takes the host's byte and then
  loads the byte it shifts out in the next byte time; \<open>loads\<close> is the sequence of those loaded bytes,
  and \<open>spi_session\<close> says that the pins carry exactly it, one byte time late.  On top of it stand the
  write-and-read-back session and the streaming read, both stated on the pins.
\<close>

section \<open>Byte times in sequence\<close>

fun loads :: "u8 list \<Rightarrow> sd_card \<Rightarrow> u8 list \<times> sd_card" where
  "loads [] c = ([], c)"
| "loads (b # bs) c = (let (r, c) = pop_miso (observe_mosi b c); (rs, c) = loads bs c in (r # rs, c))"

lemma loads_append:
  "loads (xs @ ys) c =
     (fst (loads xs c) @ fst (loads ys (snd (loads xs c))), snd (loads ys (snd (loads xs c))))"
  by (induction xs arbitrary: c) (simp_all add: Let_def split_beta)

lemma length_loads [simp]: "length (fst (loads bs c)) = length bs"
  by (induction bs arbitrary: c) (simp_all add: Let_def split_beta)

text \<open>The traffic counter has no influence on what the card does.\<close>

definition clocked :: "u64 \<Rightarrow> sd_card \<Rightarrow> sd_card" where
  "clocked k c = c\<lparr> sd_bytes_clocked := k \<rparr>"

lemma clocked_sel [simp]:
  "sd_writeback (clocked k c) = sd_writeback c" "sd_cmd_count (clocked k c) = sd_cmd_count c"
  "sd_read_blocks (clocked k c) = sd_read_blocks c" "sd_write_blocks (clocked k c) = sd_write_blocks c"
  "sd_fp (clocked k c) = sd_fp c" "sd_img_bytes (clocked k c) = sd_img_bytes c"
  "sd_base_lba (clocked k c) = sd_base_lba c" "sd_overlay (clocked k c) = sd_overlay c"
  "sd_miso (clocked k c) = sd_miso c" "sd_frame (clocked k c) = sd_frame c"
  "sd_in_frame (clocked k c) = sd_in_frame c" "sd_read_active (clocked k c) = sd_read_active c"
  "sd_read_lba (clocked k c) = sd_read_lba c" "sd_acmd41_seen (clocked k c) = sd_acmd41_seen c"
  "sd_wstate (clocked k c) = sd_wstate c" "sd_w_data_cnt (clocked k c) = sd_w_data_cnt c"
  "sd_w_crc_cnt (clocked k c) = sd_w_crc_cnt c" "sd_w_busy (clocked k c) = sd_w_busy c"
  "sd_w_lba (clocked k c) = sd_w_lba c" "sd_w_cmd (clocked k c) = sd_w_cmd c"
  "sd_w_multi (clocked k c) = sd_w_multi c" "sd_w_block (clocked k c) = sd_w_block c"
  by (simp_all add: clocked_def)

lemma clocked_upd [simp]:
  "(clocked k c)\<lparr>sd_cmd_count := v1\<rparr> = clocked k (c\<lparr>sd_cmd_count := v1\<rparr>)"
  "(clocked k c)\<lparr>sd_read_blocks := v1\<rparr> = clocked k (c\<lparr>sd_read_blocks := v1\<rparr>)"
  "(clocked k c)\<lparr>sd_write_blocks := v1\<rparr> = clocked k (c\<lparr>sd_write_blocks := v1\<rparr>)"
  "(clocked k c)\<lparr>sd_fp := v2\<rparr> = clocked k (c\<lparr>sd_fp := v2\<rparr>)"
  "(clocked k c)\<lparr>sd_overlay := v3\<rparr> = clocked k (c\<lparr>sd_overlay := v3\<rparr>)"
  "(clocked k c)\<lparr>sd_miso := v4\<rparr> = clocked k (c\<lparr>sd_miso := v4\<rparr>)"
  "(clocked k c)\<lparr>sd_frame := v4\<rparr> = clocked k (c\<lparr>sd_frame := v4\<rparr>)"
  "(clocked k c)\<lparr>sd_w_block := v4\<rparr> = clocked k (c\<lparr>sd_w_block := v4\<rparr>)"
  "(clocked k c)\<lparr>sd_in_frame := v5\<rparr> = clocked k (c\<lparr>sd_in_frame := v5\<rparr>)"
  "(clocked k c)\<lparr>sd_read_active := v5\<rparr> = clocked k (c\<lparr>sd_read_active := v5\<rparr>)"
  "(clocked k c)\<lparr>sd_w_multi := v5\<rparr> = clocked k (c\<lparr>sd_w_multi := v5\<rparr>)"
  "(clocked k c)\<lparr>sd_read_lba := v6\<rparr> = clocked k (c\<lparr>sd_read_lba := v6\<rparr>)"
  "(clocked k c)\<lparr>sd_w_lba := v6\<rparr> = clocked k (c\<lparr>sd_w_lba := v6\<rparr>)"
  "(clocked k c)\<lparr>sd_acmd41_seen := v7\<rparr> = clocked k (c\<lparr>sd_acmd41_seen := v7\<rparr>)"
  "(clocked k c)\<lparr>sd_w_data_cnt := v7\<rparr> = clocked k (c\<lparr>sd_w_data_cnt := v7\<rparr>)"
  "(clocked k c)\<lparr>sd_w_crc_cnt := v7\<rparr> = clocked k (c\<lparr>sd_w_crc_cnt := v7\<rparr>)"
  "(clocked k c)\<lparr>sd_w_busy := v7\<rparr> = clocked k (c\<lparr>sd_w_busy := v7\<rparr>)"
  "(clocked k c)\<lparr>sd_wstate := v8\<rparr> = clocked k (c\<lparr>sd_wstate := v8\<rparr>)"
  "(clocked k c)\<lparr>sd_w_cmd := v9\<rparr> = clocked k (c\<lparr>sd_w_cmd := v9\<rparr>)"
  by (simp_all add: clocked_def)

lemma clocked_twice [simp]: "clocked k (clocked n c) = clocked k c"
  by (simp add: clocked_def)

lemma push_clocked [simp]: "push bs (clocked k c) = clocked k (push bs c)"
  by (simp add: push_def)

lemma read_sector_clocked [simp]: "read_sector lba (clocked k c) = read_sector lba c"
  by (rule read_sector_cong) simp_all

lemma queue_clocked [simp]: "queue_read_block lba (clocked k c) = clocked k (queue_read_block lba c)"
  by (simp add: queue_read_block_def Let_def)

lemma write_clocked [simp]: "write_sector lba d (clocked k c) = clocked k (write_sector lba d c)"
  by (simp add: write_sector_def Let_def image_offset_def split: option.split)

lemma csd_clocked [simp]: "csd_register (clocked k c) = csd_register c"
  by (simp add: csd_register_def csd_csize_def)

lemma handle_clocked [simp]: "handle_frame (clocked k c) = clocked k (handle_frame c)"
  by (simp add: handle_frame_def Let_def)

lemma observe_clocked [simp]: "observe_mosi b (clocked k c) = clocked k (observe_mosi b c)"
  by (cases "sd_wstate c") (simp_all add: observe_mosi_def observe_idle_def Let_def)

lemma refill_clocked [simp]: "refill_miso (clocked k c) = clocked k (refill_miso c)"
  by (simp add: refill_miso_def Let_def)

lemma pop_clocked [simp]: "pop_miso (clocked k c) = (fst (pop_miso c), clocked k (snd (pop_miso c)))"
  by (cases "sd_miso (refill_miso c)"; cases "sd_wstate (refill_miso c)")
     (simp_all add: pop_miso_def Let_def)

text \<open>A session on the pins: what the host samples is the byte loaded before it, then the loaded
  bytes; the last one is still in the shift register at the end.\<close>

lemma byte_exchange_loads:
  "snd (byte_exchange b (with_pins (0, 0, mi, 8, False, False) (clocked k c))) =
     with_pins (0, 0, fst (pop_miso (observe_mosi b c)), 8, False, False)
       (clocked (sd_bytes_clocked (clocked k c) + 1) (snd (pop_miso (observe_mosi b c))))"
proof -
  have "(with_pins (0, 0, mi, 8, False, False) (clocked k c))\<lparr>sd_bytes_clocked := n\<rparr> =
      with_pins (0, 0, mi, 8, False, False) (clocked n c)" for n
    by (simp add: clocked_def)
  then show ?thesis by (simp add: byte_exchange_def Let_def split_beta)
qed

lemma spi_bits_append:
  "spi_bits (xs @ ys) c =
     (fst (spi_bits xs c) @ fst (spi_bits ys (snd (spi_bits xs c))), snd (spi_bits ys (snd (spi_bits xs c))))"
  by (induction xs arbitrary: c) (simp_all add: Let_def split_beta)

lemma spi_session_pins:
  "\<exists>n. spi_bits (concat (map byte_bits bs)) (with_pins (0, 0, mi, 8, False, False) (clocked k c)) =
     (concat (map byte_bits (butlast (mi # fst (loads bs c)))),
      with_pins (0, 0, last (mi # fst (loads bs c)), 8, False, False) (clocked n (snd (loads bs c))))"
proof (induction bs arbitrary: mi k c)
  case Nil
  show ?case by auto
next
  case (Cons b bs)
  let ?m = "fst (pop_miso (observe_mosi b c))" and ?c = "snd (pop_miso (observe_mosi b c))"
  obtain n where "spi_bits (concat (map byte_bits bs))
       (with_pins (0, 0, ?m, 8, False, False) (clocked (sd_bytes_clocked (clocked k c) + 1) ?c)) =
     (concat (map byte_bits (butlast (?m # fst (loads bs ?c)))),
      with_pins (0, 0, last (?m # fst (loads bs ?c)), 8, False, False) (clocked n (snd (loads bs ?c))))"
    using Cons.IH by blast
  then show ?case
    by (intro exI [of _ n]) (simp add: spi_bits_append spi_bits_byte byte_exchange_loads Let_def split_beta)
qed

lemma spi_session:
  assumes "pin_state c = (0, 0, mi, 8, False, False)"
  shows "fst (spi_bits (concat (map byte_bits bs)) c) = concat (map byte_bits (butlast (mi # fst (loads bs c))))"
    and "read_sector l (snd (spi_bits (concat (map byte_bits bs)) c)) = read_sector l (snd (loads bs c))"
proof -
  have c: "c = with_pins (0, 0, mi, 8, False, False) (clocked (sd_bytes_clocked c) c)"
    using with_pins_pin_state [of c] assms by (simp add: clocked_def)
  obtain n where n: "spi_bits (concat (map byte_bits bs)) c =
     (concat (map byte_bits (butlast (mi # fst (loads bs c)))),
      with_pins (0, 0, last (mi # fst (loads bs c)), 8, False, False) (clocked n (snd (loads bs c))))"
    using spi_session_pins [of bs mi "sd_bytes_clocked c" c] c by auto
  show "fst (spi_bits (concat (map byte_bits bs)) c) = concat (map byte_bits (butlast (mi # fst (loads bs c))))"
    "read_sector l (snd (spi_bits (concat (map byte_bits bs)) c)) = read_sector l (snd (loads bs c))"
    by (simp_all add: n)
qed

section \<open>The phases of a session\<close>

definition cmd_frame :: "u8 \<Rightarrow> u32 \<Rightarrow> u8 \<Rightarrow> u8 list" where
  "cmd_frame cmd arg crc =
     [0x40 OR cmd, ucast (drop_bit 24 arg), ucast (drop_bit 16 arg), ucast (drop_bit 8 arg), ucast arg,
      crc]"

definition sd_ready :: "sd_card \<Rightarrow> bool" where
  "sd_ready c \<longleftrightarrow> sd_wstate c = W_IDLE \<and> \<not> sd_in_frame c"

lemma cmd_byte:
  assumes "cmd < 64"
  shows "(0x40 OR cmd) AND 0xC0 = (0x40 :: u8)" and "(0x40 OR cmd) AND 0x3F = (cmd :: u8)"
proof -
  have m: "cmd = take_bit 6 cmd"
    using assms by (simp add: take_bit_eq_mod word_unat_eq_iff unat_mod word_less_nat_alt)
  have b: "bit cmd k \<longleftrightarrow> bit cmd k \<and> k < 6" for k using m by (metis bit_take_bit_iff)
  show "(0x40 OR cmd) AND 0xC0 = (0x40 :: u8)" "(0x40 OR cmd) AND 0x3F = cmd"
    using b [of 6] b [of 7] by (rule_tac word8_eqI; auto simp: bit_simps)+
qed

lemma frame_fields [simp]:
  "cmd < 64 \<Longrightarrow> cmd_frame cmd arg crc ! 0 AND 0x3F = cmd"
  "cmd_frame cmd arg crc ! Suc 0 = ucast (drop_bit 24 arg)"
  "cmd_frame cmd arg crc ! 2 = ucast (drop_bit 16 arg)"
  "cmd_frame cmd arg crc ! 3 = ucast (drop_bit 8 arg)"
  "cmd_frame cmd arg crc ! 4 = ucast arg"
  using cmd_byte(2) by (simp_all add: cmd_frame_def)

lemma set_miso_same: "sd_miso c = q \<Longrightarrow> c\<lparr>sd_miso := q\<rparr> = c"
  by (cases c) simp

lemma pop_quiet:
  "\<not> sd_read_active c \<Longrightarrow> sd_wstate c \<noteq> W_BUSY \<Longrightarrow>
   pop_miso c = (hd (sd_miso c @ [0xFF]), c\<lparr>sd_miso := tl (sd_miso c)\<rparr>)"
  by (cases "sd_miso c") (simp_all add: pop_miso_def refill_miso_def Let_def set_miso_same)

lemma pop_idle: "\<not> sd_read_active c \<Longrightarrow> sd_wstate c \<noteq> W_BUSY \<Longrightarrow> sd_miso c = [] \<Longrightarrow> pop_miso c = (0xFF, c)"
  by (simp add: pop_quiet set_miso_same)

text \<open>The state in which a command frame leaves the card, before the next byte is loaded.\<close>

definition after_frame :: "u8 \<Rightarrow> u32 \<Rightarrow> u8 \<Rightarrow> sd_card \<Rightarrow> sd_card" where
  "after_frame cmd arg crc c =
     (handle_frame (c\<lparr>sd_in_frame := True, sd_frame := cmd_frame cmd arg crc\<rparr>))\<lparr>sd_in_frame := False\<rparr>"

lemma loads_in_frame:
  "sd_wstate c = W_IDLE \<Longrightarrow> sd_in_frame c \<Longrightarrow> sd_miso c = [] \<Longrightarrow> \<not> sd_read_active c \<Longrightarrow>
   length (sd_frame c) + length bs \<le> 5 \<Longrightarrow>
   loads bs c = (replicate (length bs) 0xFF, c\<lparr>sd_frame := sd_frame c @ bs\<rparr>)"
proof (induction bs arbitrary: c)
  case (Cons b bs)
  have "observe_mosi b c = c\<lparr>sd_frame := sd_frame c @ [b]\<rparr>"
    using Cons.prems by (simp add: observe_mosi_def observe_idle_def)
  then show ?case using Cons.IH [of "c\<lparr>sd_frame := sd_frame c @ [b]\<rparr>"] Cons.prems by (simp add: pop_idle)
qed simp

lemma loads_frame:
  assumes "sd_ready c" "sd_miso c = []" "\<not> sd_read_active c" "cmd < 64"
  shows "loads (cmd_frame cmd arg crc) c =
    (replicate 5 0xFF @ [fst (pop_miso (after_frame cmd arg crc c))], snd (pop_miso (after_frame cmd arg crc c)))"
proof -
  let ?mid = "[ucast (drop_bit 24 arg), ucast (drop_bit 16 arg), ucast (drop_bit 8 arg), ucast arg]"
  let ?c1 = "c\<lparr>sd_frame := [0x40 OR cmd], sd_in_frame := True\<rparr>"
  let ?c5 = "?c1\<lparr>sd_frame := [0x40 OR cmd] @ ?mid\<rparr>"
  have frame: "cmd_frame cmd arg crc = [0x40 OR cmd] @ ?mid @ [crc]" by (simp add: cmd_frame_def)
  have "observe_mosi (0x40 OR cmd) c = ?c1"
    using assms(1) cmd_byte(1) [OF assms(4)] by (simp add: sd_ready_def observe_mosi_def observe_idle_def)
  then have "loads [0x40 OR cmd] c = ([0xFF], ?c1)"
    using assms by (simp add: pop_idle sd_ready_def)
  moreover have "loads ?mid ?c1 = (replicate 4 0xFF, ?c5)"
    using loads_in_frame [of ?c1 ?mid] assms by (simp add: sd_ready_def eval_nat_numeral del: loads.simps)
  moreover have "observe_mosi crc ?c5 = after_frame cmd arg crc c"
    using assms by (simp add: sd_ready_def observe_mosi_def observe_idle_def after_frame_def cmd_frame_def)
  then have "loads [crc] ?c5 = ([fst (pop_miso (after_frame cmd arg crc c))], snd (pop_miso (after_frame cmd arg crc c)))"
    by (simp add: split_beta)
  ultimately show ?thesis
    unfolding frame loads_append by (simp add: eval_nat_numeral del: loads.simps)
qed

lemma loads_command:
  assumes "sd_ready c" "sd_miso c = []" "\<not> sd_read_active c" "cmd < 64"
    and "sd_miso (after_frame cmd arg crc c) = 0xFF # q"
  shows "loads (cmd_frame cmd arg crc) c = (replicate 6 0xFF, (after_frame cmd arg crc c)\<lparr>sd_miso := q\<rparr>)"
proof -
  have "replicate 6 x = replicate 5 x @ [x]" for x :: u8 by (simp add: replicate_append_same eval_nat_numeral)
  moreover have "pop_miso (after_frame cmd arg crc c) = (0xFF, (after_frame cmd arg crc c)\<lparr>sd_miso := q\<rparr>)"
    using assms(5) by (simp add: pop_miso_def refill_miso_def Let_def)
  ultimately show ?thesis using loads_frame [OF assms(1-4)] by simp
qed

text \<open>Bytes before the data token are ignored; the response goes out meanwhile.\<close>

lemma loads_gap:
  "sd_wstate c = W_AWAIT_TOKEN \<Longrightarrow> sd_w_cmd c = 24 \<Longrightarrow> \<not> sd_read_active c \<Longrightarrow> 0xFE \<notin> set gap \<Longrightarrow>
   loads gap c = (padded (length gap) (sd_miso c), c\<lparr>sd_miso := drop (length gap) (sd_miso c)\<rparr>)"
proof (induction gap arbitrary: c)
  case Nil then show ?case by (simp add: padded_rules)
next
  case (Cons b gap)
  have "observe_mosi b c = c" using Cons.prems by (auto simp: observe_mosi_def)
  then show ?case using Cons.IH [of "c\<lparr>sd_miso := tl (sd_miso c)\<rparr>"] Cons.prems
    by (simp add: pop_quiet padded_rules drop_Suc)
qed

lemma loads_data:
  "sd_wstate c = W_RECV_DATA \<Longrightarrow> sd_w_data_cnt c = length (sd_w_block c) \<Longrightarrow> \<not> sd_read_active c \<Longrightarrow>
   length (sd_w_block c) + length ds < 512 \<Longrightarrow>
   loads ds c = (padded (length ds) (sd_miso c),
     c\<lparr>sd_w_block := sd_w_block c @ ds, sd_w_data_cnt := length (sd_w_block c) + length ds,
       sd_miso := drop (length ds) (sd_miso c)\<rparr>)"
proof (induction ds arbitrary: c)
  case Nil then show ?case by (simp add: padded_rules)
next
  case (Cons d ds)
  let ?c = "c\<lparr>sd_w_block := sd_w_block c @ [d], sd_w_data_cnt := length (sd_w_block c) + 1\<rparr>"
  have "observe_mosi d c = ?c" using Cons.prems by (simp add: observe_mosi_def Let_def)
  then show ?case using Cons.IH [of "?c\<lparr>sd_miso := tl (sd_miso c)\<rparr>"] Cons.prems
    by (simp add: pop_quiet padded_rules drop_Suc)
qed

lemma loads_block:
  assumes "sd_wstate c = W_RECV_DATA" "sd_w_data_cnt c = 0" "sd_w_block c = []" "\<not> sd_read_active c" "length ds = 512"
  shows "loads ds c = (padded 512 (sd_miso c),
    c\<lparr>sd_w_block := ds, sd_w_data_cnt := 512, sd_wstate := W_RECV_CRC, sd_w_crc_cnt := 0, sd_miso := drop 512 (sd_miso c)\<rparr>)"
proof -
  obtain xs d where ds: "ds = xs @ [d]" "length xs = 511"
    using assms(5) by (cases ds rule: rev_cases) auto
  let ?q = "drop 511 (sd_miso c)"
  have p: "padded 512 (sd_miso c) = padded 511 (sd_miso c) @ [hd (?q @ [0xFF])]"
    using padded_append [of 511 "sd_miso c" 1] by (simp add: padded_rules)
  have q: "drop 512 (sd_miso c) = tl ?q" using drop_Suc [of 511 "sd_miso c"] by (simp add: tl_drop)
  show ?thesis
    unfolding p q ds(1) loads_append using loads_data [of c xs] assms ds
    by (simp add: observe_mosi_def Let_def pop_quiet)
qed

text \<open>The block is stored when its second CRC byte arrives: the data response is loaded and the card is busy.\<close>

lemma loads_crc:
  assumes "sd_wstate c = W_RECV_CRC" "sd_w_crc_cnt c = 0" "\<not> sd_read_active c" "\<not> sd_w_multi c" "sd_miso c = []"
    "length (sd_w_block c) = 512"
  obtains c' where "loads [k1, k2] c = ([0xFF, 0xE5], c')" "sd_overlay c' = (sd_overlay c)(sd_w_lba c \<mapsto> sd_w_block c)"
    "sd_miso c' = []" "sd_wstate c' = W_BUSY" "sd_w_busy c' = 4" "\<not> sd_w_multi c'" "\<not> sd_read_active c'"
    "sd_in_frame c' = sd_in_frame c" "image_view c' = image_view c"
proof
  let ?k = "c\<lparr>sd_w_crc_cnt := Suc 0\<rparr>"
  let ?w = "write_sector (sd_w_lba c) (sd_w_block c) (push [0xE5] (c\<lparr>sd_w_crc_cnt := 2\<rparr>))"
  let ?b = "?w\<lparr>sd_write_blocks := sd_write_blocks ?w + 1, sd_w_lba := sd_w_lba ?w, sd_w_busy := 4, sd_wstate := W_BUSY\<rparr>"
  have o: "observe_mosi k1 c = ?k" using assms by (simp add: observe_mosi_def)
  have o2: "observe_mosi k2 ?k = ?b" using assms by (simp add: observe_mosi_def Let_def numeral_eq_Suc)
  have "pop_miso ?b = (0xE5, ?b\<lparr>sd_miso := []\<rparr>)"
    using assms by (simp add: pop_miso_def refill_miso_def Let_def)
  then show "loads [k1, k2] c = ([0xFF, 0xE5], ?b\<lparr>sd_miso := []\<rparr>)"
    using assms unfolding loads.simps o by (simp add: pop_idle o2 del: One_nat_def)
  show "sd_overlay (?b\<lparr>sd_miso := []\<rparr>) = (sd_overlay c)(sd_w_lba c \<mapsto> sd_w_block c)"
    using assms(6) by (simp add: resize512_def)
qed (use assms in simp_all)

lemma loads_busy:
  "sd_miso c = [] \<Longrightarrow> sd_wstate c = W_BUSY \<Longrightarrow> \<not> sd_read_active c \<Longrightarrow> \<not> sd_w_multi c \<Longrightarrow> sd_w_busy c = n \<Longrightarrow>
   length bs = Suc n \<Longrightarrow>
   loads bs c = (replicate n 0 @ [0xFF], c\<lparr>sd_w_busy := 0, sd_wstate := W_IDLE\<rparr>)"
proof (induction n arbitrary: c bs)
  case 0
  then obtain b where "bs = [b]" by (cases bs) auto
  then show ?case using 0 by (cases c) (simp add: observe_mosi_def pop_miso_def refill_miso_def Let_def)
next
  case (Suc n)
  then obtain b bs' where bs: "bs = b # bs'" "length bs' = Suc n" by (cases bs) auto
  have "pop_miso (observe_mosi b c) = (0, c\<lparr>sd_w_busy := n\<rparr>)"
    using Suc.prems by (simp add: observe_mosi_def pop_miso_def refill_miso_def Let_def)
  then show ?case using Suc.IH [of "c\<lparr>sd_w_busy := n\<rparr>" bs'] Suc.prems bs by simp
qed

lemma observe_ready: "sd_ready c \<Longrightarrow> observe_mosi 0xFF c = c"
  by (simp add: sd_ready_def observe_mosi_def observe_idle_def)

lemma loads_idle:
  "sd_ready c \<Longrightarrow> \<not> sd_read_active c \<Longrightarrow>
   loads (replicate n 0xFF) c = (padded n (sd_miso c), c\<lparr>sd_miso := drop n (sd_miso c)\<rparr>)"
proof (induction n arbitrary: c)
  case 0 then show ?case by (simp add: padded_rules)
next
  case (Suc n)
  have "sd_wstate c \<noteq> W_BUSY" "sd_ready (c\<lparr>sd_miso := tl (sd_miso c)\<rparr>)" using Suc.prems by (simp_all add: sd_ready_def)
  then show ?case using Suc.IH [of "c\<lparr>sd_miso := tl (sd_miso c)\<rparr>"] Suc.prems
    by (simp add: observe_ready pop_quiet padded_rules drop_Suc)
qed

section \<open>Writing a block and reading it back\<close>

text \<open>From the command frame to the end of the data block: the host's token and data find the card waiting
  for them, while the response goes out.\<close>

lemma loads_write_data:
  assumes "sd_ready c" "sd_miso c = []" "\<not> sd_read_active c" "0xFE \<notin> set gap" "length data = 512"
  obtains c' where "loads (cmd_frame 24 lba x @ gap @ [0xFE] @ data) c =
      (replicate 6 0xFF @ padded (length gap + 513) [0x00], c')"
    "sd_wstate c' = W_RECV_CRC" "sd_w_crc_cnt c' = 0" "sd_miso c' = []" "sd_w_block c' = data" "sd_w_lba c' = lba"
    "\<not> sd_read_active c'" "\<not> sd_w_multi c'" "\<not> sd_in_frame c'" "sd_overlay c' = sd_overlay c" "image_view c' = image_view c"
proof -
  let ?d = "after_frame 24 lba x c"
  have d: "sd_overlay ?d = sd_overlay c" "sd_miso ?d = [0xFF, 0x00]" "sd_wstate ?d = W_AWAIT_TOKEN" "sd_w_cmd ?d = 24"
    "sd_w_lba ?d = lba" "\<not> sd_w_multi ?d" "\<not> sd_in_frame ?d" "\<not> sd_read_active ?d" "image_view ?d = image_view c"
    using assms(2,3) by (simp_all add: after_frame_def handle_frame_def Let_def)
  let ?q = "\<lambda>n. drop n [0x00]"
  let ?c2 = "?d\<lparr>sd_miso := ?q (length gap)\<rparr>"
  let ?c3 = "?d\<lparr>sd_wstate := W_RECV_DATA, sd_w_data_cnt := 0, sd_w_block := [], sd_miso := ?q (length gap + 1)\<rparr>"
  let ?c4 = "?c3\<lparr>sd_w_block := data, sd_w_data_cnt := 512, sd_wstate := W_RECV_CRC, sd_w_crc_cnt := 0, sd_miso := []\<rparr>"
  have frame: "loads (cmd_frame 24 lba x) c = (replicate 6 0xFF, ?d\<lparr>sd_miso := [0x00]\<rparr>)"
    using loads_command [OF assms(1-3) _ d(2)] by simp
  have gap: "loads gap (?d\<lparr>sd_miso := [0x00]\<rparr>) = (padded (length gap) [0x00], ?c2)"
    using loads_gap [of "?d\<lparr>sd_miso := [0x00]\<rparr>" gap] d assms(4) by simp
  have "observe_mosi 0xFE ?c2 = ?c2\<lparr>sd_wstate := W_RECV_DATA, sd_w_data_cnt := 0, sd_w_block := []\<rparr>"
    using d by (simp add: observe_mosi_def)
  then have token: "loads [0xFE] ?c2 = (padded 1 (?q (length gap)), ?c3)"
    using d by (simp add: pop_quiet padded_rules tl_drop drop_Suc)
  have data: "loads data ?c3 = (padded 512 (?q (length gap + 1)), ?c4)"
    using loads_block [of ?c3 data] d assms(5) by simp
  have pad: "padded (length gap) [0x00] @ padded 1 (?q (length gap)) @ padded 512 (?q (length gap + 1)) =
      padded (length gap + 513) [0x00]"
    using padded_append [of "length gap" "[0x00]" 1] padded_append [of "length gap + 1" "[0x00]" 512]
    by (metis (no_types, lifting) add.assoc append.assoc numeral_plus_one one_plus_numeral semiring_norm(2,3,4,5,6,8))
  have "loads (cmd_frame 24 lba x @ gap @ [0xFE] @ data) c =
      (replicate 6 0xFF @ padded (length gap + 513) [0x00], ?c4)"
    unfolding loads_append frame gap token data fst_conv snd_conv pad ..
  then show ?thesis by (rule that) (use d in simp_all)
qed

lemma loads_write:
  assumes "sd_ready c" "sd_miso c = []" "\<not> sd_read_active c" "0xFE \<notin> set gap" "length data = 512" "5 \<le> m"
  obtains c' where "loads (cmd_frame 24 lba x @ gap @ [0xFE] @ data @ [k1, k2] @ replicate m 0xFF) c =
      (replicate 6 0xFF @ [0x00] @ replicate (length gap + 513) 0xFF @ [0xE5, 0, 0, 0, 0] @ replicate (m - 4) 0xFF, c')"
    "sd_ready c'" "sd_miso c' = []" "\<not> sd_read_active c'" "sd_overlay c' = (sd_overlay c)(lba \<mapsto> data)"
    "image_view c' = image_view c"
proof -
  obtain d where d: "loads (cmd_frame 24 lba x @ gap @ [0xFE] @ data) c = (replicate 6 0xFF @ padded (length gap + 513) [0x00], d)"
    "sd_wstate d = W_RECV_CRC" "sd_w_crc_cnt d = 0" "sd_miso d = []" "sd_w_block d = data" "sd_w_lba d = lba"
    "\<not> sd_read_active d" "\<not> sd_w_multi d" "\<not> sd_in_frame d" "sd_overlay d = sd_overlay c" "image_view d = image_view c"
    by (rule loads_write_data [OF assms(1-5)])
  obtain e where e: "loads [k1, k2] d = ([0xFF, 0xE5], e)" "sd_overlay e = (sd_overlay d)(sd_w_lba d \<mapsto> sd_w_block d)"
    "sd_miso e = []" "sd_wstate e = W_BUSY" "sd_w_busy e = 4" "\<not> sd_w_multi e" "\<not> sd_read_active e"
    "sd_in_frame e = sd_in_frame d" "image_view e = image_view d"
    by (rule loads_crc [of d k1 k2]) (use d assms(5) in simp_all)
  let ?f = "e\<lparr>sd_w_busy := 0, sd_wstate := W_IDLE\<rparr>"
  have m: "replicate m 0xFF = replicate 5 0xFF @ replicate (m - 5) (0xFF :: u8)"
    using assms(6) by (simp flip: replicate_add)
  have five: "loads (replicate 5 0xFF) e = ([0, 0, 0, 0, 0xFF], ?f)"
    using loads_busy [of e 4 "replicate 5 0xFF"] e by (simp add: eval_nat_numeral del: loads.simps)
  have ready: "sd_ready ?f" "\<not> sd_read_active ?f" "sd_miso ?f = []" using e d by (simp_all add: sd_ready_def)
  have rest: "loads (replicate (m - 5) 0xFF) ?f = (replicate (m - 5) 0xFF, ?f)"
    using loads_idle [OF ready(1,2), of "m - 5"] ready(3) by (simp add: padded_def set_miso_same)
  have pad: "padded (length gap + 513) [0x00] @ [0xFF, 0xE5] = [0x00] @ replicate (length gap + 513) 0xFF @ [0xE5]"
    by (simp add: padded_def replicate_append_same flip: replicate_Suc)
  have fin: "replicate (m - 4) (0xFF :: u8) = 0xFF # replicate (m - 5) 0xFF"
    using assms(6) by (simp flip: replicate_Suc add: Suc_diff_le)
  have "loads ((cmd_frame 24 lba x @ gap @ [0xFE] @ data) @ [k1, k2] @ replicate 5 0xFF @ replicate (m - 5) 0xFF) c =
      (replicate 6 0xFF @ (padded (length gap + 513) [0x00] @ [0xFF, 0xE5]) @ [0, 0, 0, 0, 0xFF] @ replicate (m - 5) 0xFF, ?f)"
    by (simp only: loads_append [of "cmd_frame 24 lba x @ gap @ [0xFE] @ data"] loads_append [of "[k1, k2]"]
        loads_append [of "replicate 5 0xFF"] d(1) e(1) five rest fst_conv snd_conv) simp
  then have "loads (cmd_frame 24 lba x @ gap @ [0xFE] @ data @ [k1, k2] @ replicate m 0xFF) c =
      (replicate 6 0xFF @ [0x00] @ replicate (length gap + 513) 0xFF @ [0xE5, 0, 0, 0, 0] @ replicate (m - 4) 0xFF, ?f)"
    unfolding m pad fin by simp
  then show ?thesis by (rule that) (use ready e d in simp_all)
qed

text \<open>A read command on an idle card loads the response, the start token, the sector and its CRC, then idles.\<close>

definition read_block :: "sd_card \<Rightarrow> u32 \<Rightarrow> u8 list" where
  "read_block c lba = [0xFF, 0xFE] @ read_sector lba c @ crc_bytes (read_sector lba c)"

lemma length_crc_bytes [simp]: "length (crc_bytes d) = 2"
  by (simp add: crc_bytes_def Let_def)

lemma queue_read_block_eq:
  "queue_read_block lba c =
     c\<lparr>sd_miso := sd_miso c @ read_block c lba, sd_read_blocks := sd_read_blocks c + 1\<rparr>"
  by (simp add: queue_read_block_def read_block_def push_def Let_def)

lemma image_view_read_blocks [simp]: "image_view (c\<lparr>sd_read_blocks := n\<rparr>) = image_view c"
  by (simp add: image_view_def)

lemma read_block_cong:
  "sd_overlay c' = sd_overlay c \<Longrightarrow> sd_fp c' = sd_fp c \<Longrightarrow> sd_img_bytes c' = sd_img_bytes c \<Longrightarrow>
   sd_base_lba c' = sd_base_lba c \<Longrightarrow> read_block c' lba = read_block c lba"
  using read_sector_cong [of c' c lba] by (simp add: read_block_def)

lemma loads_read:
  assumes "sd_ready c" "sd_miso c = []" "\<not> sd_read_active c"
  obtains c' where "loads (cmd_frame 17 lba y @ replicate n 0xFF) c =
      (replicate 6 0xFF @ padded n (0x00 # read_block c lba), c')"
    "sd_overlay c' = sd_overlay c" "image_view c' = image_view c"
proof -
  let ?d = "after_frame 17 lba y c"
  have e: "read_block (push [0xFF, 0] (c\<lparr>sd_in_frame := True, sd_frame := f, sd_cmd_count := k\<rparr>)) lba = read_block c lba" for f k
    by (rule read_block_cong) simp_all
  have d: "sd_miso ?d = 0xFF # 0x00 # read_block c lba" "sd_wstate ?d = W_IDLE" "\<not> sd_in_frame ?d" "\<not> sd_read_active ?d"
    "sd_overlay ?d = sd_overlay c" "image_view ?d = image_view c"
    using assms by (simp_all add: after_frame_def handle_frame_def Let_def queue_read_block_eq e sd_ready_def)
  let ?e = "?d\<lparr>sd_miso := 0x00 # read_block c lba\<rparr>"
  have frame: "loads (cmd_frame 17 lba y) c = (replicate 6 0xFF, ?e)"
    using loads_command [OF assms _ d(1)] by simp
  have "loads (replicate n 0xFF) ?e = (padded n (0x00 # read_block c lba), ?e\<lparr>sd_miso := drop n (0x00 # read_block c lba)\<rparr>)"
    using loads_idle [of ?e n] d by (simp add: sd_ready_def del: loads.simps)
  then have "loads (cmd_frame 17 lba y @ replicate n 0xFF) c =
      (replicate 6 0xFF @ padded n (0x00 # read_block c lba), ?e\<lparr>sd_miso := drop n (0x00 # read_block c lba)\<rparr>)"
    unfolding loads_append frame by simp
  then show ?thesis by (rule that) (use d in simp_all)
qed

lemma read_block_written:
  "sd_overlay c lba = Some data \<Longrightarrow> length data = 512 \<Longrightarrow> read_block c lba = [0xFF, 0xFE] @ data @ crc_bytes data"
  by (simp add: read_block_def read_sector_def)

lemma read_other_sector:
  assumes "sd_overlay c' = (sd_overlay c)(lba \<mapsto> data)" "image_view c' = image_view c" "\<not> sd_writeback c" "l \<noteq> lba"
  shows "read_sector l c' = read_sector l c"
  using assms by (auto simp: read_sector_def image_offset_def image_view_def split: option.splits)

text \<open>C27 Write and read back, on the pins: on an idle card at a byte boundary, whose shift register
  holds \<open>mi\<close>, a host clocks in CMD24 for a sector, any bytes before the data token, the token, a
  512-byte block and any two CRC bytes, then five or more poll bytes, then CMD17 for the same sector
  and idle bytes.  The card sends in every byte time, one byte late: idle bytes during the command,
  R1 while the host goes on, idle bytes while it receives the block, the data-accepted token, four
  busy bytes, idle bytes, and after the second command R1, the start token, exactly the data and its
  CRC.  The sector then reads as the data and, without writeback, every other sector as before.\<close>

theorem sd_write_then_read:
  assumes "pin_state c = (0, 0, mi, 8, False, False)" "sd_ready c" "sd_miso c = []" "\<not> sd_read_active c"
    and "0xFE \<notin> set gap" "length data = 512" "5 \<le> m"
  shows "let sent = cmd_frame 24 lba x @ gap @ [0xFE] @ data @ [k1, k2] @ replicate m 0xFF @
                    cmd_frame 17 lba y @ replicate (Suc n) 0xFF;
             (bits, c') = spi_bits (concat (map byte_bits sent)) c
         in bits = concat (map byte_bits
                 ([mi] @ replicate 6 0xFF @ [0x00] @ replicate (length gap + 513) 0xFF @
                  [0xE5, 0x00, 0x00, 0x00, 0x00] @ replicate (m - 4) 0xFF @
                  replicate 6 0xFF @ padded n ([0x00, 0xFF, 0xFE] @ data @ crc_bytes data))) \<and>
            read_sector lba c' = data \<and>
            (\<not> sd_writeback c \<longrightarrow> (\<forall>l. l \<noteq> lba \<longrightarrow> read_sector l c' = read_sector l c))"
proof -
  let ?w = "cmd_frame 24 lba x @ gap @ [0xFE] @ data @ [k1, k2] @ replicate m 0xFF"
  let ?sent = "?w @ cmd_frame 17 lba y @ replicate (Suc n) 0xFF"
  let ?reply = "[0x00, 0xFF, 0xFE] @ data @ crc_bytes data"
  obtain d where d: "loads ?w c = (replicate 6 0xFF @ [0x00] @ replicate (length gap + 513) 0xFF @ [0xE5, 0, 0, 0, 0] @
      replicate (m - 4) 0xFF, d)" "sd_ready d" "sd_miso d = []" "\<not> sd_read_active d"
    "sd_overlay d = (sd_overlay c)(lba \<mapsto> data)" "image_view d = image_view c"
    by (rule loads_write [OF assms(2-7)])
  obtain e where e: "loads (cmd_frame 17 lba y @ replicate (Suc n) 0xFF) d = (replicate 6 0xFF @ padded (Suc n) ?reply, e)"
    "sd_overlay e = sd_overlay d" "image_view e = image_view d"
    using loads_read [OF d(2-4), of lba y "Suc n"] read_block_written [of d lba data] d(5) assms(6) by auto
  have all: "loads ?sent c = (replicate 6 0xFF @ [0x00] @ replicate (length gap + 513) 0xFF @ [0xE5, 0, 0, 0, 0] @
      replicate (m - 4) 0xFF @ replicate 6 0xFF @ padded (Suc n) ?reply, e)"
    using loads_append [of ?w "cmd_frame 17 lba y @ replicate (Suc n) 0xFF" c]
    unfolding d(1) fst_conv snd_conv e(1) by (simp only: append_assoc)
  have pad: "padded (Suc n) ?reply = padded n ?reply @ padded 1 (drop n ?reply)" by (simp add: padded_append)
  have one: "butlast (xs @ padded 1 ys) = xs" for xs ys by (simp add: padded_rules)
  have bits: "fst (spi_bits (concat (map byte_bits ?sent)) c) = concat (map byte_bits
       ([mi] @ replicate 6 0xFF @ [0x00] @ replicate (length gap + 513) 0xFF @ [0xE5, 0, 0, 0, 0] @
        replicate (m - 4) 0xFF @ replicate 6 0xFF @ padded n ?reply))"
    unfolding spi_session(1) [OF assms(1)] all fst_conv pad
    using one [of "[mi] @ replicate 6 0xFF @ [0x00] @ replicate (length gap + 513) 0xFF @ [0xE5, 0, 0, 0, 0] @
        replicate (m - 4) 0xFF @ replicate 6 0xFF @ padded n ?reply" "drop n ?reply"] by (simp only: append_assoc append_Cons append_Nil)
  have ov: "sd_overlay e = (sd_overlay c)(lba \<mapsto> data)" "image_view e = image_view c" using d(5,6) e(2,3) by simp_all
  have "read_sector lba e = data" using ov(1) assms(6) by (simp add: read_sector_def)
  moreover have "read_sector l (snd (spi_bits (concat (map byte_bits ?sent)) c)) = read_sector l e" for l
    unfolding spi_session(2) [OF assms(1)] all by simp
  ultimately show ?thesis
    unfolding Let_def split_beta append_assoc using bits read_other_sector [OF ov] by (simp only: append_assoc simp_thms) blast
qed

theorem sd_write_then_read_witness:
  "let c = snd (sd_tick False True False (snd (attach_hdd (Some [7]) sd_initial)));
       sent = cmd_frame 24 9000 1 @ [0xFF] @ [0xFE] @ replicate 512 0x5A @ [0, 0] @ replicate 8 0xFF @
              cmd_frame 17 9000 1 @ replicate (Suc 520) 0xFF
   in read_sector 9000 (snd (spi_bits (concat (map byte_bits sent)) c)) = replicate 512 0x5A \<and>
      read_sector 8192 (snd (spi_bits (concat (map byte_bits sent)) c)) = read_sector 8192 c"
proof -
  let ?c = "snd (sd_tick False True False (snd (attach_hdd (Some [7]) sd_initial)))"
  have c: "pin_state ?c = (0, 0, 0xFF, 8, False, False)" "sd_ready ?c" "sd_miso ?c = []" "\<not> sd_read_active ?c" "\<not> sd_writeback ?c"
    by (simp_all add: sd_tick_def sd_select_def sd_initial_def attach_hdd_def attach_def Let_def pin_state_def sd_ready_def)
  have h: "0xFE \<notin> set [0xFF :: u8]" "length (replicate 512 (0x5A :: u8)) = 512" "(5 :: nat) \<le> 8" by simp_all
  show ?thesis
    using sd_write_then_read [OF c(1-4) h, of 9000 1 0 0 1 520] c(5) unfolding Let_def split_beta by simp
qed

section \<open>Streaming reads\<close>

text \<open>The bytes loaded while the host clocks idle bytes into a ready card.\<close>

lemma loads_idle_Suc:
  "sd_ready c \<Longrightarrow> loads (replicate (Suc n) 0xFF) c =
     (fst (pop_miso c) # fst (loads (replicate n 0xFF) (snd (pop_miso c))), snd (loads (replicate n 0xFF) (snd (pop_miso c))))"
  by (simp add: observe_ready split_beta)

lemma loads_queued:
  "sd_ready c \<Longrightarrow> sd_miso c = q @ r \<Longrightarrow> loads (replicate (length q) 0xFF) c = (q, c\<lparr>sd_miso := r\<rparr>)"
proof (induction q arbitrary: c)
  case (Cons b q)
  have "pop_miso c = (b, c\<lparr>sd_miso := q @ r\<rparr>)" using Cons.prems by (simp add: pop_miso_def refill_miso_def Let_def)
  then show ?case using Cons.IH [of "c\<lparr>sd_miso := q @ r\<rparr>"] Cons.prems
    by (simp add: loads_idle_Suc del: loads.simps replicate.simps) (simp add: sd_ready_def)
qed (simp add: set_miso_same)

lemma length_read_block: "sd_core c \<Longrightarrow> length (read_block c l) = 516"
  by (auto simp: read_block_def read_sector_def file_read_def Let_def sd_core_def split: option.split)

text \<open>A card in the middle of a streaming read, at a block boundary before sector \<open>l\<close>.\<close>

definition streaming :: "sd_card \<Rightarrow> u32 \<Rightarrow> sd_card \<Rightarrow> bool" where
  "streaming c l c' \<longleftrightarrow> sd_overlay c' = sd_overlay c \<and> sd_fp c' = sd_fp c \<and> sd_img_bytes c' = sd_img_bytes c \<and>
     sd_base_lba c' = sd_base_lba c \<and> sd_miso c' = [] \<and> sd_read_active c' \<and> sd_ready c' \<and> sd_read_lba c' = l"

lemma loads_streaming_block:
  assumes "sd_core c" "streaming c l c'"
  obtains c'' where "loads (replicate 516 0xFF) c' = (read_block c l, c'')" "streaming c (l + 1) c''"
proof -
  let ?q = "c'\<lparr>sd_miso := read_block c l, sd_read_blocks := sd_read_blocks c' + 1, sd_read_lba := l + 1\<rparr>"
  have rb: "read_block c' l = read_block c l" using assms(2) by (intro read_block_cong) (simp_all add: streaming_def)
  have r: "sd_ready c'" "sd_ready ?q" using assms(2) by (simp_all add: streaming_def sd_ready_def)
  have "pop_miso c' = pop_miso ?q"
    using assms(2) rb unfolding streaming_def
    by (simp add: pop_miso_def refill_miso_def Let_def queue_read_block_eq) (simp add: read_block_def)
  then have "loads (replicate (Suc 515) 0xFF) c' = loads (replicate (Suc 515) 0xFF) ?q"
    unfolding loads_idle_Suc [OF r(1)] loads_idle_Suc [OF r(2)] by simp
  moreover have "loads (replicate 516 0xFF) ?q = (read_block c l, ?q\<lparr>sd_miso := []\<rparr>)"
    using loads_queued [OF r(2), of "read_block c l" "[]"] length_read_block [OF assms(1)] by simp
  ultimately have "loads (replicate 516 0xFF) c' = (read_block c l, ?q\<lparr>sd_miso := []\<rparr>)"
    by (simp del: loads.simps replicate.simps)
  then show ?thesis by (rule that) (use assms(2) in \<open>simp add: streaming_def sd_ready_def\<close>)
qed

lemma loads_streaming:
  "sd_core c \<Longrightarrow> streaming c l c' \<Longrightarrow>
   fst (loads (replicate (516 * k) 0xFF) c') = concat (map (\<lambda>i. read_block c (l + of_nat i)) [0..<k])"
proof (induction k arbitrary: l c')
  case (Suc k)
  obtain c'' where o: "loads (replicate 516 0xFF) c' = (read_block c l, c'')" "streaming c (l + 1) c''"
    by (rule loads_streaming_block [OF Suc.prems])
  have "replicate (516 * Suc k) (0xFF :: u8) = replicate 516 0xFF @ replicate (516 * k) 0xFF"
    by (simp flip: replicate_add)
  moreover have "map (\<lambda>i. read_block c (l + of_nat i)) [0..<Suc k] =
      read_block c l # map (\<lambda>i. read_block c (l + 1 + of_nat i)) [0..<k]"
    by (simp add: upt_rec [of 0 "Suc k"] map_Suc_upt [symmetric] algebra_simps del: upt_Suc)
  ultimately show ?case using Suc.IH [OF Suc.prems(1) o(2)] by (simp only: loads_append o fst_conv snd_conv concat.simps)
qed simp

text \<open>Streaming reads: after CMD18 the host reads R1 and then, for as long as it keeps clocking, the
  blocks of consecutive sectors back to back, 516 bytes each, with no gap.\<close>

theorem sd_streaming_read:
  assumes "sd_ready c" "sd_core c" "sd_miso c = []" "\<not> sd_read_active c"
  shows "fst (loads (cmd_frame 18 lba y @ replicate (1 + 516 * Suc n) 0xFF) c) =
    replicate 6 0xFF @ [0x00] @ concat (map (\<lambda>i. read_block c (lba + of_nat i)) [0..<Suc n])"
proof -
  let ?d = "after_frame 18 lba y c"
  have e: "read_block (push [0xFF, 0] (c\<lparr>sd_in_frame := True, sd_frame := f, sd_cmd_count := k\<rparr>)) lba = read_block c lba" for f k
    by (rule read_block_cong) simp_all
  have d: "sd_miso ?d = 0xFF # 0x00 # read_block c lba" "streaming c (lba + 1) (?d\<lparr>sd_miso := []\<rparr>)" "sd_ready ?d"
    using assms by (simp_all add: after_frame_def handle_frame_def Let_def queue_read_block_eq e streaming_def sd_ready_def)
  let ?e = "?d\<lparr>sd_miso := 0x00 # read_block c lba\<rparr>"
  have frame: "loads (cmd_frame 18 lba y) c = (replicate 6 0xFF, ?e)"
    using loads_command [OF assms(1,3,4) _ d(1)] by simp
  have "loads (replicate (length (0x00 # read_block c lba)) 0xFF) ?e = (0x00 # read_block c lba, ?e\<lparr>sd_miso := []\<rparr>)"
    by (rule loads_queued) (use d(3) in \<open>simp_all add: sd_ready_def\<close>)
  then have first: "loads (replicate 517 0xFF) ?e = (0x00 # read_block c lba, ?d\<lparr>sd_miso := []\<rparr>)"
    using length_read_block [OF assms(2)] by simp
  have split: "replicate (1 + 516 * Suc n) (0xFF :: u8) = replicate 517 0xFF @ replicate (516 * n) 0xFF"
    by (simp flip: replicate_add)
  have "map (\<lambda>i. read_block c (lba + of_nat i)) [0..<Suc n] =
      read_block c lba # map (\<lambda>i. read_block c (lba + 1 + of_nat i)) [0..<n]"
    by (simp add: upt_rec [of 0 "Suc n"] map_Suc_upt [symmetric] algebra_simps del: upt_Suc)
  then show ?thesis
    unfolding split loads_append frame first fst_conv snd_conv loads_streaming [OF assms(2) d(2)] by simp
qed

theorem sd_streaming_read_witness:
  "let c = snd (attach_hdd (Some [7]) sd_initial)
   in fst (loads (cmd_frame 18 8192 0 @ replicate (1 + 516 * Suc 1) 0xFF) c) =
        replicate 6 0xFF @ [0x00] @ concat (map (\<lambda>i. read_block c (8192 + of_nat i)) [0..<Suc 1])"
  unfolding Let_def
  by (rule sd_streaming_read)
     (simp_all add: attach_hdd_def attach_def sd_initial_def sd_ready_def sd_core_def)


end
