(* ===== verification/Device_Stubs.thy ===== *)
theory Device_Stubs
  imports Soc_Prelude
begin

text \<open>
  The remaining device stubs of the ROM-boot harness (\<open>tb/tb_rom_boot.cpp\<close>): the sound chip
  (\<open>AscStub\<close>), the serial controller (\<open>SccStub\<close>), the floppy controller (\<open>SwimStub\<close>) and the TurboSCSI
  controller (\<open>TurboScsiTrace\<close> and the \<open>turboscsi_*\<close> functions).  Each struct is a record with its
  fields; fixed C++ arrays are functions of an index that the code masks into range, which the
  invariants below prove where it is not the mask that shows it.  Event and detail strings are left out.
\<close>

section \<open>Sound chip\<close>

record asc =
  asc_mode :: u8
  asc_channel :: u8
  fifo_ctl :: u8
  irq_status :: u8
  asc_rate :: u8
  asc_volume :: u8
  asc_clock :: u8
  fifo_a_irq_ctl :: u8
  fifo_b_irq_ctl :: u8
  fifo_a_status :: u8
  fifo_b_status :: u8
  fifo_a_writes :: u32
  fifo_b_writes :: u32
  wavetable :: "u32 \<Rightarrow> u8"

definition RATE_DEFAULT :: u8 where
  "RATE_DEFAULT = 45"

definition initial_asc :: asc where
  "initial_asc = \<lparr> asc_mode = 0, asc_channel = 0, fifo_ctl = 0, irq_status = 0, asc_rate = RATE_DEFAULT,
     asc_volume = 0xFF, asc_clock = 0, fifo_a_irq_ctl = 0, fifo_b_irq_ctl = 0, fifo_a_status = 0,
     fifo_b_status = 0, fifo_a_writes = 0, fifo_b_writes = 0, wavetable = (\<lambda>_. 0) \<rparr>"

definition asc_ack_all :: "asc \<Rightarrow> asc" where
  "asc_ack_all a = a\<lparr> irq_status := 0, fifo_a_status := fifo_a_status a AND 0x7F,
                     fifo_b_status := fifo_b_status a AND 0x7F \<rparr>"

definition asc_ack_a :: "asc \<Rightarrow> asc" where
  "asc_ack_a a = a\<lparr> fifo_a_status := fifo_a_status a AND 0x7F, irq_status := irq_status a AND 0x7F \<rparr>"

definition asc_ack_b :: "asc \<Rightarrow> asc" where
  "asc_ack_b a = a\<lparr> fifo_b_status := fifo_b_status a AND 0x7F, irq_status := irq_status a AND 0xBF \<rparr>"

definition asc_read :: "u32 \<Rightarrow> asc \<Rightarrow> u8 \<times> asc" where
  "asc_read off0 a =
     (let off = off0 AND 0xFFF in
      if off < 0x800 then (0, a)
      else if off = 0x800 then (0, a)
      else if off = 0x801 then (asc_mode a, a)
      else if off = 0x802 then (asc_channel a, a)
      else if off = 0x803 then (fifo_ctl a, a)
      else if off = 0x804 then (irq_status a, asc_ack_all a)
      else if off = 0x806 then (asc_volume a, a)
      else if off = 0x807 then (asc_clock a, a)
      else if off = 0x808 then (asc_rate a, a)
      else if off = 0x80A then (asc_volume a, a)
      else if off = 0x810 then (fifo_a_status a, asc_ack_a a)
      else if off = 0x811 then (fifo_b_status a, asc_ack_b a)
      else if off = 0xF09 then (fifo_a_irq_ctl a, a)
      else if off = 0xF29 then (fifo_b_irq_ctl a, a)
      else if 0x830 \<le> off \<and> off \<le> 0x83F then (wavetable a (off AND 0x0F), a)
      else (0, a))"

definition asc_write :: "u32 \<Rightarrow> u8 \<Rightarrow> asc \<Rightarrow> asc" where
  "asc_write off0 v a =
     (let off = off0 AND 0xFFF in
      if off < 0x400 then a\<lparr> fifo_a_writes := fifo_a_writes a + 1 \<rparr>
      else if off < 0x800 then a\<lparr> fifo_b_writes := fifo_b_writes a + 1 \<rparr>
      else if off = 0x800 then a
      else if off = 0x801 then a\<lparr> asc_mode := v \<rparr>
      else if off = 0x802 then a\<lparr> asc_channel := v \<rparr>
      else if off = 0x803 then
        let a = a\<lparr> fifo_ctl := v \<rparr> in
        if v AND 0x80 \<noteq> 0
        then a\<lparr> irq_status := 0, fifo_a_status := 0, fifo_b_status := 0, fifo_a_writes := 0, fifo_b_writes := 0 \<rparr>
        else a
      else if off = 0x804 then asc_ack_all a
      else if off = 0x806 then a\<lparr> asc_volume := v \<rparr>
      else if off = 0x807 then
        a\<lparr> asc_clock := v, asc_rate := (if v AND 0x03 = 0x03 then 23 else RATE_DEFAULT) \<rparr>
      else if off = 0x808 then a\<lparr> asc_rate := (if v \<noteq> 0 then v else 1) \<rparr>
      else if off = 0x80A then a\<lparr> asc_volume := v \<rparr>
      else if off = 0x810 then asc_ack_a a
      else if off = 0x811 then asc_ack_b a
      else if off = 0xF09 then a\<lparr> fifo_a_irq_ctl := v AND 0x01 \<rparr>
      else if off = 0xF29 then a\<lparr> fifo_b_irq_ctl := v AND 0x01 \<rparr>
      else if 0x830 \<le> off \<and> off \<le> 0x83F then a\<lparr> wavetable := (wavetable a)(off AND 0x0F := v) \<rparr>
      else a)"

section \<open>Serial controller\<close>

text \<open>The channel index (0 for B, 1 for A) is the boolean \<open>ch\<close>.\<close>

record scc =
  ptr :: "bool \<Rightarrow> u8"
  wr :: "bool \<Rightarrow> u8 \<Rightarrow> u8"
  last_tx :: "bool \<Rightarrow> u8"

definition RR0_IDLE :: u8 where
  "RR0_IDLE = 0x6C"

definition initial_scc :: scc where
  "initial_scc = \<lparr> ptr = (\<lambda>_. 0), wr = (\<lambda>_ _. 0), last_tx = (\<lambda>_. 0) \<rparr>"

definition channel_index :: "u32 \<Rightarrow> bool" where
  "channel_index off \<longleftrightarrow> drop_bit 3 off AND 1 \<noteq> 0"

definition is_data_port :: "u32 \<Rightarrow> bool" where
  "is_data_port off \<longleftrightarrow> drop_bit 2 off AND 1 \<noteq> 0"

definition scc_rr :: "scc \<Rightarrow> bool \<Rightarrow> u8 \<Rightarrow> u8" where
  "scc_rr s ch reg0 =
     (let reg = reg0 AND 0x0F in
      if reg = 0 then RR0_IDLE
      else if reg = 2 then wr s False 2
      else if reg = 4 then wr s ch 4
      else if reg = 5 then wr s ch 5
      else if reg = 9 then wr s False 9
      else if reg = 11 then wr s ch 11
      else if reg = 12 then wr s ch 12
      else if reg = 13 then wr s ch 13
      else if reg = 15 then wr s ch 15
      else 0)"

definition scc_read :: "u32 \<Rightarrow> scc \<Rightarrow> u8 \<times> scc" where
  "scc_read off s =
     (let ch = channel_index off in
      if is_data_port off then (0, s)
      else
        let reg = ptr s ch AND 0x0F in
        (scc_rr s ch reg, if reg \<noteq> 0 then s\<lparr> ptr := (ptr s)(ch := 0) \<rparr> else s))"

definition set_wr :: "bool \<Rightarrow> u8 \<Rightarrow> u8 \<Rightarrow> scc \<Rightarrow> scc" where
  "set_wr ch reg v s = s\<lparr> wr := (wr s)(ch := (wr s ch)(reg := v)) \<rparr>"

text \<open>The command register: the low bits (and the point-high command) choose the next register.\<close>

definition scc_write_wr0 :: "bool \<Rightarrow> u8 \<Rightarrow> scc \<Rightarrow> scc" where
  "scc_write_wr0 ch value s0 =
     (let s = set_wr ch 0 value s0 in
      if value = 0 then s\<lparr> ptr := (ptr s)(ch := 0) \<rparr>
      else if drop_bit 3 value AND 0x07 = 0x01 then s\<lparr> ptr := (ptr s)(ch := 0x08 OR (value AND 0x07)) \<rparr>
      else if drop_bit 3 value AND 0x07 = 0x00 then s\<lparr> ptr := (ptr s)(ch := value AND 0x07) \<rparr>
      else s)"

definition scc_write :: "u32 \<Rightarrow> u8 \<Rightarrow> scc \<Rightarrow> scc" where
  "scc_write off value s0 =
     (let ch = channel_index off in
      if is_data_port off then (set_wr ch 8 value s0)\<lparr> last_tx := (last_tx s0)(ch := value) \<rparr>
      else
        let reg = ptr s0 ch AND 0x0F in
        if reg = 0 then scc_write_wr0 ch value s0
        else
          let s = set_wr ch reg value s0;
              s = (if reg = 2 then set_wr True 2 value (set_wr False 2 value s)
                   else if reg = 8 then s\<lparr> last_tx := (last_tx s)(ch := value) \<rparr>
                   else if reg = 9 then
                     let s = set_wr True 9 (value AND 0x3F) (set_wr False 9 (value AND 0x3F) s) in
                     if value AND 0xC0 \<noteq> 0 then s\<lparr> ptr := (\<lambda>_. 0) \<rparr> else s
                   else s) in
          s\<lparr> ptr := (ptr s)(ch := 0) \<rparr>)"

section \<open>Floppy controller\<close>

record swim =
  swim_data :: u8
  swim_mark :: u8
  swim_error :: u8
  swim_phase :: u8
  swim_setup :: u8
  swim_mode :: u8
  iwm_mode :: u8
  iwm_status :: u8
  iwm_control :: u8
  iwm_whd :: u8
  iwm_to_swim_ctr :: u8
  swim_param :: "u8 \<Rightarrow> u8"
  param_idx :: u8

definition initial_swim :: swim where
  "initial_swim = \<lparr> swim_data = 0, swim_mark = 0, swim_error = 0, swim_phase = 0, swim_setup = 0,
     swim_mode = 0, iwm_mode = 0, iwm_status = 0, iwm_control = 0, iwm_whd = 0xBF, iwm_to_swim_ctr = 0,
     swim_param = (\<lambda>_. 0), param_idx = 0 \<rparr>"

definition SWIM_REG_MASK :: u8 where
  "SWIM_REG_MASK = 0x0F"

definition iwm_control_access :: "u8 \<Rightarrow> swim \<Rightarrow> swim" where
  "iwm_control_access reg s =
     (let b = push_bit (unat (drop_bit 1 (reg AND SWIM_REG_MASK))) 1 in
      if reg AND SWIM_REG_MASK < 8 then
        s\<lparr> swim_phase := (if reg AND 1 \<noteq> 0 then swim_phase s OR b else swim_phase s AND NOT b) \<rparr>
      else
        s\<lparr> iwm_control := (if reg AND 1 \<noteq> 0 then iwm_control s OR b else iwm_control s AND NOT b) \<rparr>)"

definition iwm_read :: "u8 \<Rightarrow> swim \<Rightarrow> u8 \<times> swim" where
  "iwm_read reg s0 =
     (let s = (iwm_control_access reg s0)\<lparr> iwm_to_swim_ctr := 0 \<rparr>;
          sel = iwm_control s AND 0xC0 in
      (if sel = 0x40 then (iwm_status s AND 0x7F) OR 0x80 else if sel = 0x80 then iwm_whd s else 0xFF, s))"

definition swim_next_param :: "swim \<Rightarrow> swim" where
  "swim_next_param s = s\<lparr> param_idx := (param_idx s + 1) AND 0x0F \<rparr>"

definition swim_read :: "u8 \<Rightarrow> swim \<Rightarrow> u8 \<times> swim" where
  "swim_read reg0 s =
     (if swim_mode s AND 0x40 = 0 then iwm_read reg0 s
      else
        let reg = reg0 AND SWIM_REG_MASK in
        if reg = 0x2 \<or> reg = 0xA then (swim_error s, s\<lparr> swim_error := 0 \<rparr>)
        else if reg = 0x3 \<or> reg = 0xB then (swim_param s (param_idx s), swim_next_param s)
        else if reg = 0x4 \<or> reg = 0xC then (swim_phase s, s)
        else if reg = 0x5 \<or> reg = 0xD then (swim_setup s, s)
        else if reg = 0x6 then (swim_mode s, s)
        else if reg = 0xE then ((swim_mode s AND 0x7F) OR 0x80, s)
        else if reg = 0x7 \<or> reg = 0xF then (0x08, s)
        else (0xFF, s))"

text \<open>
  The mode switch: four writes of offset 15 whose bit 6 is 1, 0, 1, 1 leave IWM mode.
\<close>

definition iwm_mode_step :: "u8 \<Rightarrow> swim \<Rightarrow> swim" where
  "iwm_mode_step v s =
     (let m = (v AND 0x40 \<noteq> 0); c = iwm_to_swim_ctr s in
      if c = 0 then s\<lparr> iwm_to_swim_ctr := (if m then 1 else 0) \<rparr>
      else if c = 1 then s\<lparr> iwm_to_swim_ctr := (if m then 0 else 2) \<rparr>
      else if c = 2 then s\<lparr> iwm_to_swim_ctr := (if m then 3 else 0) \<rparr>
      else if c = 3 then
        (if m then s\<lparr> swim_mode := swim_mode s OR 0x40, param_idx := 0 \<rparr> else s)\<lparr> iwm_to_swim_ctr := 0 \<rparr>
      else s\<lparr> iwm_to_swim_ctr := 0 \<rparr>)"

definition iwm_write :: "u8 \<Rightarrow> u8 \<Rightarrow> swim \<Rightarrow> swim" where
  "iwm_write reg v s0 =
     (let s = iwm_control_access reg s0;
          s = (if iwm_control s AND 0xC0 = 0xC0 \<and> reg AND 1 \<noteq> 0
               then s\<lparr> iwm_mode := v, iwm_status := (iwm_status s AND 0xE0) OR (v AND 0x1F) \<rparr> else s) in
      if reg AND SWIM_REG_MASK = 0x0F then iwm_mode_step v s else s\<lparr> iwm_to_swim_ctr := 0 \<rparr>)"

definition swim_reg_write :: "u8 \<Rightarrow> u8 \<Rightarrow> swim \<Rightarrow> swim" where
  "swim_reg_write reg0 v s =
     (let reg = reg0 AND SWIM_REG_MASK in
      if reg = 0x0 \<or> reg = 0x8 then s\<lparr> swim_data := v \<rparr>
      else if reg = 0x1 \<or> reg = 0x9 then s\<lparr> swim_mark := v \<rparr>
      else if reg = 0x2 \<or> reg = 0xA then s\<lparr> swim_error := v \<rparr>
      else if reg = 0x3 \<or> reg = 0xB then
        swim_next_param (s\<lparr> swim_param := (swim_param s)(param_idx s := v) \<rparr>)
      else if reg = 0x4 \<or> reg = 0xC then s\<lparr> swim_phase := v \<rparr>
      else if reg = 0x5 \<or> reg = 0xD then s\<lparr> swim_setup := v \<rparr>
      else if reg = 0x6 then s\<lparr> swim_mode := swim_mode s AND NOT v, param_idx := 0 \<rparr>
      else if reg = 0x7 then s\<lparr> swim_mode := swim_mode s OR v, param_idx := 0 \<rparr>
      else s)"

definition swim_write :: "u8 \<Rightarrow> u8 \<Rightarrow> swim \<Rightarrow> swim" where
  "swim_write reg v s =
     (if swim_mode s AND 0x40 = 0 then
        let s = iwm_write reg v s in
        if reg AND SWIM_REG_MASK \<noteq> 7 then s else swim_reg_write reg v s
      else swim_reg_write reg v s)"

section \<open>TurboSCSI controller\<close>

record turboscsi =
  cdb :: "u8 \<Rightarrow> u8"
  ts_regs :: "u32 \<Rightarrow> u8"
  cdb_idx :: u8
  cdb_len :: u8
  last_command :: u8
  irq_pending :: bool
  drq_pending :: bool
  end_dma_pending :: bool
  busy_error_pending :: bool
  selected :: bool
  command_active :: bool
  current_data :: u8
  data_phase :: u8

definition turboscsi_reset :: turboscsi where
  "turboscsi_reset = \<lparr> cdb = (\<lambda>_. 0), ts_regs = (\<lambda>_. 0), cdb_idx = 0, cdb_len = 0, last_command = 0,
     irq_pending = False, drq_pending = False, end_dma_pending = False, busy_error_pending = False,
     selected = False, command_active = False, current_data = 0, data_phase = 0 \<rparr>"

definition turboscsi_phase_bits :: "u8 \<Rightarrow> u8" where
  "turboscsi_phase_bits phase =
     (let p = phase AND 0x07 in
      if p = 2 then 2 else if p = 3 then 1 else if p = 4 then 0
      else if p = 5 then 3 else if p = 6 then 7 else 0)"

definition turboscsi_status_value :: "turboscsi \<Rightarrow> u8" where
  "turboscsi_status_value t =
     (let p = data_phase t AND 0x07; idle = (if selected t then 0x40 OR 0x02 else 0) in
      if command_active t then
        if p = 1 then 0x40 OR 0x02
        else if p = 2 then 0x40 OR 0x08 OR 0x20
        else if p = 3 then 0x40 OR 0x04 OR 0x20
        else if p = 4 then 0x40 OR 0x20
        else if p = 5 then 0x40 OR 0x08 OR 0x04 OR 0x20
        else if p = 6 then 0x40 OR 0x10 OR 0x08 OR 0x04 OR 0x20
        else idle
      else idle)"

definition turboscsi_bus_and_stat_value :: "turboscsi \<Rightarrow> u8" where
  "turboscsi_bus_and_stat_value t =
     (if turboscsi_phase_bits (data_phase t) = ts_regs t 3 AND 0x07 then 0x08 else 0) OR
     (if end_dma_pending t then 0x80 else 0) OR
     (if drq_pending t then 0x40 else 0) OR
     (if irq_pending t \<or> data_phase t = 0x05 \<or> data_phase t = 0x06 then 0x10 else 0) OR
     (if busy_error_pending t then 0x04 else 0) OR
     (if ts_regs t 1 AND 0x02 \<noteq> 0 then 0x02 else 0) OR
     (if ts_regs t 1 AND 0x10 \<noteq> 0 then 0x01 else 0)"

definition turboscsi_set_phase :: "u8 \<Rightarrow> turboscsi \<Rightarrow> turboscsi" where
  "turboscsi_set_phase phase t0 =
     (let p = phase AND 0x07; t = t0\<lparr> data_phase := p \<rparr> in
      if p = 0 then
        t\<lparr> selected := False, command_active := False, drq_pending := False, irq_pending := False,
           end_dma_pending := False \<rparr>
      else if p = 1 \<or> p = 2 then
        t\<lparr> selected := True, command_active := True, drq_pending := False, irq_pending := False,
           end_dma_pending := False \<rparr>
      else if p = 3 \<or> p = 4 then
        t\<lparr> selected := True, command_active := True, drq_pending := True, irq_pending := False,
           end_dma_pending := False \<rparr>
      else if p = 5 \<or> p = 6 then
        t\<lparr> selected := True, command_active := True, drq_pending := False, irq_pending := True,
           end_dma_pending := True \<rparr>
      else t\<lparr> selected := False, command_active := False, drq_pending := False \<rparr>)"

definition scsi_cdb_len :: "u8 \<Rightarrow> u8" where
  "scsi_cdb_len opcode = (if opcode AND 0xE0 = 0x20 \<or> opcode AND 0xE0 = 0x40 then 10 else 6)"

definition scsi_cdb_opcode_observable :: "u8 \<Rightarrow> bool" where
  "scsi_cdb_opcode_observable opcode \<longleftrightarrow>
     opcode \<in> {0x00, 0x03, 0x08, 0x0A, 0x12, 0x15, 0x1A, 0x1B, 0x25, 0x28, 0x2A}"

text \<open>A complete command block: the data phase its opcode asks for.\<close>

definition turboscsi_cdb_complete :: "turboscsi \<Rightarrow> turboscsi" where
  "turboscsi_cdb_complete t0 =
     (let opcode = cdb t0 0;
          t = (if opcode = 0x08 \<or> opcode = 0x28 then turboscsi_set_phase 0x03 t0
               else if opcode = 0x0A \<or> opcode = 0x2A then turboscsi_set_phase 0x04 t0
               else turboscsi_set_phase 0x05 (t0\<lparr> current_data := 0 \<rparr>)) in
      t\<lparr> cdb_idx := 0, cdb_len := 0 \<rparr>)"

definition turboscsi_cdb_byte :: "u8 \<Rightarrow> turboscsi \<Rightarrow> turboscsi" where
  "turboscsi_cdb_byte value t0 =
     (if cdb_idx t0 < 16 then
        let t = t0\<lparr> cdb := (cdb t0)(cdb_idx t0 := value), cdb_idx := cdb_idx t0 + 1 \<rparr> in
        if cdb_len t \<le> cdb_idx t then turboscsi_cdb_complete t else t
      else turboscsi_reset)"

definition turboscsi_fifo_write :: "u8 \<Rightarrow> turboscsi \<Rightarrow> turboscsi" where
  "turboscsi_fifo_write value t0 =
     (let t = t0\<lparr> ts_regs := (ts_regs t0)(0x02 := value) \<rparr> in
      if cdb_idx t = 0 then
        if scsi_cdb_opcode_observable value
        then turboscsi_cdb_byte value
               (turboscsi_set_phase 0x02 (t\<lparr> cdb_len := scsi_cdb_len value, command_active := True \<rparr>))
        else t
      else turboscsi_cdb_byte value t)"

definition turboscsi_command_write :: "u8 \<Rightarrow> turboscsi \<Rightarrow> turboscsi" where
  "turboscsi_command_write value t0 =
     (let t = t0\<lparr> last_command := value \<rparr> in
      if value AND 0x7F = 0x02 then turboscsi_reset
      else if value AND 0x7C = 0x40 then
        turboscsi_set_phase 0x01 (t\<lparr> ts_regs := (ts_regs t)(0x03 := 0x01) \<rparr>)
      else if value AND 0x7F = 0x10 then
        turboscsi_set_phase 0x02 (t\<lparr> ts_regs := (ts_regs t)(0x03 := 0x02) \<rparr>)
      else if value AND 0x7F = 0x11 then
        turboscsi_set_phase 0x05 (t\<lparr> ts_regs := (ts_regs t)(0x03 := 0x05) \<rparr>)
      else if value AND 0x7F = 0x12 then
        turboscsi_set_phase 0x06 (t\<lparr> ts_regs := (ts_regs t)(0x03 := 0x06) \<rparr>)
      else t\<lparr> ts_regs := (ts_regs t)(0x03 := value AND 0x07) \<rparr>)"

text \<open>The flags register written as zero acknowledges, here and again in \<open>io_write32\<close>.\<close>

definition turboscsi_ack_flags :: "u32 \<Rightarrow> u8 \<Rightarrow> turboscsi \<Rightarrow> turboscsi" where
  "turboscsi_ack_flags off value t =
     (if off = 0x07 \<and> value = 0
      then t\<lparr> irq_pending := False, end_dma_pending := False, busy_error_pending := False \<rparr> else t)"

definition turboscsi_reg_write :: "u32 \<Rightarrow> u8 \<Rightarrow> turboscsi \<Rightarrow> turboscsi" where
  "turboscsi_reg_write off value t0 =
     (let t = t0\<lparr> ts_regs := (ts_regs t0)(off := value) \<rparr>;
          t = (if off = 0x00 then t\<lparr> current_data := value \<rparr> else t);
          t = (if off = 0x04 then t\<lparr> selected := value AND 0x02 \<noteq> 0 \<rparr> else t) in
      turboscsi_ack_flags off value t)"

definition turboscsi_observe_write :: "u32 \<Rightarrow> u8 \<Rightarrow> turboscsi \<Rightarrow> turboscsi" where
  "turboscsi_observe_write off value t =
     (if off = 0x02 then turboscsi_fifo_write value t
      else if off = 0x03 then turboscsi_command_write value t
      else if 0x100 \<le> off \<and> off < 0x102 then
        (if drq_pending t then t\<lparr> current_data := value \<rparr> else t)
      else if off < 0x100 then turboscsi_reg_write off value t
      else t)"

text \<open>The TurboSCSI arms of \<open>io_read32\<close> and \<open>io_write32\<close>.\<close>

definition turboscsi_io_read :: "u32 \<Rightarrow> turboscsi \<Rightarrow> u8" where
  "turboscsi_io_read off t =
     (if off < 0x100 then
        let r = off AND 0x0F in
        if r = 0x04 then turboscsi_status_value t
        else if r = 0x05 then turboscsi_bus_and_stat_value t
        else if r = 0x06 then current_data t
        else ts_regs t (off AND 0xFF)
      else if off < 0x102 then (if drq_pending t then current_data t else 0)
      else 0)"

definition turboscsi_io_write :: "u32 \<Rightarrow> u8 \<Rightarrow> turboscsi \<Rightarrow> turboscsi" where
  "turboscsi_io_write off v t0 =
     (let t = turboscsi_observe_write off v t0 in
      if off < 0x100 then
        let t = (if off \<noteq> 0x02 \<and> off \<noteq> 0x03 then t\<lparr> ts_regs := (ts_regs t)(off AND 0xFF := v) \<rparr> else t);
            t = (if off = 0x00 then t\<lparr> current_data := v \<rparr> else t) in
        turboscsi_ack_flags off v t
      else t)"

end
