(* ===== verification/Device_Stubs_Props.thy ===== *)
theory Device_Stubs_Props
  imports Device_Stubs
begin

unbundle bit_operations_syntax

text \<open>
  Properties of the device stubs: the invariant of each (array indices in range, no dead state), the
  register round trip of the serial controller, the command-block collector of the SCSI controller and
  the mode switch of the floppy controller.  Each device interprets \<open>step_machine\<close> on its accesses.
\<close>

section \<open>Accesses\<close>

text \<open>A device access as the bus makes it.\<close>

datatype access = Rd u32 | Wr u32 u8

fun asc_access :: "asc \<Rightarrow> access \<Rightarrow> asc" where
  "asc_access a (Rd off) = snd (asc_read off a)"
| "asc_access a (Wr off v) = asc_write off v a"

fun scc_access :: "scc \<Rightarrow> access \<Rightarrow> scc" where
  "scc_access s (Rd off) = snd (scc_read off s)"
| "scc_access s (Wr off v) = scc_write off v s"

fun swim_access :: "swim \<Rightarrow> access \<Rightarrow> swim" where
  "swim_access s (Rd reg) = snd (swim_read (ucast reg) s)"
| "swim_access s (Wr reg v) = swim_write (ucast reg) v s"

fun turboscsi_access :: "turboscsi \<Rightarrow> access \<Rightarrow> turboscsi" where
  "turboscsi_access t (Rd off) = t"
| "turboscsi_access t (Wr off v) = turboscsi_io_write off v t"

section \<open>Sound chip\<close>

definition asc_inv :: "asc \<Rightarrow> bool" where
  "asc_inv a \<longleftrightarrow> asc_rate a \<noteq> 0 \<and> fifo_a_irq_ctl a \<le> 1 \<and> fifo_b_irq_ctl a \<le> 1"

lemma and_1_le: "(v :: u8) AND 1 \<le> 1"
  by (rule word_and_le1)

lemma asc_ack_inv [simp]:
  "asc_inv (asc_ack_all a) = asc_inv a" "asc_inv (asc_ack_a a) = asc_inv a" "asc_inv (asc_ack_b a) = asc_inv a"
  by (simp_all add: asc_inv_def asc_ack_all_def asc_ack_a_def asc_ack_b_def)

lemma asc_inv_write: "asc_inv a \<Longrightarrow> asc_inv (asc_write off v a)"
proof -
  assume a: "asc_inv a"
  then have "asc_inv (a\<lparr> fifo_a_writes := x \<rparr>)" "asc_inv (a\<lparr> fifo_b_writes := x \<rparr>)" "asc_inv (a\<lparr> asc_mode := v \<rparr>)"
    "asc_inv (a\<lparr> asc_channel := v \<rparr>)" "asc_inv (a\<lparr> fifo_ctl := v \<rparr>)"
    "asc_inv (a\<lparr> fifo_ctl := v, irq_status := 0, fifo_a_status := 0, fifo_b_status := 0, fifo_a_writes := 0, fifo_b_writes := 0 \<rparr>)"
    "asc_inv (a\<lparr> asc_volume := v \<rparr>)" "asc_inv (a\<lparr> asc_clock := v, asc_rate := (if c then 23 else RATE_DEFAULT) \<rparr>)"
    "asc_inv (a\<lparr> asc_rate := (if v \<noteq> 0 then v else 1) \<rparr>)" "asc_inv (a\<lparr> fifo_a_irq_ctl := v AND 1 \<rparr>)"
    "asc_inv (a\<lparr> fifo_b_irq_ctl := v AND 1 \<rparr>)" "asc_inv (a\<lparr> wavetable := w \<rparr>)" for x c w
    by (simp_all add: asc_inv_def RATE_DEFAULT_def and_1_le)
  with a show ?thesis by (simp add: asc_write_def Let_def)
qed

lemma asc_inv_read: "asc_inv a \<Longrightarrow> asc_inv (snd (asc_read off a))"
  by (simp add: asc_read_def Let_def)

interpretation asc_machine: step_machine asc_access asc_inv
proof
  fix s i
  assume "asc_inv s"
  then show "asc_inv (asc_access s i)" by (cases i) (simp_all add: asc_inv_write asc_inv_read)
qed

section \<open>Serial controller\<close>

definition scc_inv :: "scc \<Rightarrow> bool" where
  "scc_inv s \<longleftrightarrow> (\<forall>ch. ptr s ch < 16)"

lemma and_7_less: "(v :: u8) AND 7 < 16" "8 OR ((v :: u8) AND 7) < 16"
proof -
  have "v AND 7 \<le> 7" by (rule word_and_le1)
  then show "v AND 7 < 16" by (rule le_less_trans) simp
  have "8 OR (v AND 7) = (8 OR (v AND 7)) AND 0x0F"
    by (rule word8_eqI) (auto simp: bit_or_iff bit_and_iff)
  also have "\<dots> \<le> 0x0F" by (rule word_and_le1)
  finally show "8 OR (v AND 7) < 16" by (rule le_less_trans) simp
qed

lemma set_wr_ptr [simp]: "ptr (set_wr ch reg v s) = ptr s" "last_tx (set_wr ch reg v s) = last_tx s"
  by (simp_all add: set_wr_def)

lemma set_wr_wr: "wr (set_wr ch reg v s) = (wr s)(ch := (wr s ch)(reg := v))"
  by (simp add: set_wr_def)

lemma scc_inv_write: "scc_inv s \<Longrightarrow> scc_inv (scc_write off v s)"
  by (simp add: scc_write_def scc_write_wr0_def scc_inv_def Let_def and_7_less)

lemma scc_inv_read: "scc_inv s \<Longrightarrow> scc_inv (snd (scc_read off s))"
  by (simp add: scc_read_def scc_inv_def Let_def)

interpretation scc_machine: step_machine scc_access scc_inv
proof
  fix s i
  assume "scc_inv s"
  then show "scc_inv (scc_access s i)" by (cases i) (simp_all add: scc_inv_write scc_inv_read)
qed

section \<open>SCSI controller\<close>

text \<open>
  The collector is empty or strictly inside a command block of six or ten bytes, and a transfer is
  requested exactly in a data phase.
\<close>

definition turboscsi_inv :: "turboscsi \<Rightarrow> bool" where
  "turboscsi_inv t \<longleftrightarrow>
     (cdb_idx t = 0 \<or> cdb_idx t < cdb_len t \<and> (cdb_len t = 6 \<or> cdb_len t = 10)) \<and>
     (drq_pending t \<longleftrightarrow> data_phase t = 3 \<or> data_phase t = 4)"

lemma phase_frame [simp]:
  "cdb_idx (turboscsi_set_phase p t) = cdb_idx t" "cdb_len (turboscsi_set_phase p t) = cdb_len t"
  "cdb (turboscsi_set_phase p t) = cdb t" "data_phase (turboscsi_set_phase p t) = p AND 7"
  "ts_regs (turboscsi_set_phase p t) = ts_regs t"
  by (simp_all add: turboscsi_set_phase_def Let_def)

lemma phase_drq: "drq_pending (turboscsi_set_phase p t) \<longleftrightarrow> p AND 7 = 3 \<or> p AND 7 = 4"
  by (simp add: turboscsi_set_phase_def Let_def)

lemma turboscsi_inv_reset: "turboscsi_inv turboscsi_reset"
  by (simp add: turboscsi_inv_def turboscsi_reset_def)

lemma cdb_complete_frame:
  "cdb_idx (turboscsi_cdb_complete t) = 0" "cdb (turboscsi_cdb_complete t) = cdb t"
  "turboscsi_inv (turboscsi_cdb_complete t)"
  by (simp_all add: turboscsi_cdb_complete_def Let_def turboscsi_inv_def phase_drq)

lemma turboscsi_inv_cdb_byte:
  assumes "cdb_idx t < cdb_len t" "cdb_len t = 6 \<or> cdb_len t = 10" "drq_pending t \<longleftrightarrow> data_phase t = 3 \<or> data_phase t = 4"
  shows "turboscsi_inv (turboscsi_cdb_byte v t)"
proof -
  have "cdb_idx t < 16" using assms(1,2) by (elim disjE) (simp_all add: word_less_nat_alt)
  then show ?thesis
    using assms cdb_complete_frame(3) by (simp add: turboscsi_cdb_byte_def Let_def turboscsi_inv_def not_le)
qed

lemma scsi_cdb_len_cases: "scsi_cdb_len v = 6 \<or> scsi_cdb_len v = 10"
  by (simp add: scsi_cdb_len_def)

lemma turboscsi_inv_fifo: "turboscsi_inv t \<Longrightarrow> turboscsi_inv (turboscsi_fifo_write v t)"
proof (cases "cdb_idx t = 0")
  case True
  assume "turboscsi_inv t"
  let ?t = "turboscsi_set_phase 0x02 (t\<lparr> ts_regs := (ts_regs t)(0x02 := v), cdb_len := scsi_cdb_len v, command_active := True \<rparr>)"
  have "turboscsi_inv (turboscsi_cdb_byte v ?t)"
    using True scsi_cdb_len_cases [of v] by (intro turboscsi_inv_cdb_byte) (auto simp: phase_drq)
  then show ?thesis
    using True \<open>turboscsi_inv t\<close> by (simp add: turboscsi_fifo_write_def Let_def turboscsi_inv_def)
next
  case False
  assume "turboscsi_inv t"
  then show ?thesis
    using False by (simp add: turboscsi_fifo_write_def Let_def turboscsi_inv_def [of t] turboscsi_inv_cdb_byte)
qed

lemma turboscsi_inv_frame:
  assumes "turboscsi_inv t" "cdb_idx t' = cdb_idx t" "cdb_len t' = cdb_len t" "drq_pending t' = drq_pending t" "data_phase t' = data_phase t"
  shows "turboscsi_inv t'"
  using assms by (simp add: turboscsi_inv_def)

lemma turboscsi_inv_set_phase: "turboscsi_inv t \<Longrightarrow> turboscsi_inv (turboscsi_set_phase p (t\<lparr> last_command := c, ts_regs := r \<rparr>))"
  by (simp add: turboscsi_inv_def phase_drq)

lemma turboscsi_inv_command: "turboscsi_inv t \<Longrightarrow> turboscsi_inv (turboscsi_command_write v t)"
  by (simp add: turboscsi_command_write_def Let_def turboscsi_inv_reset turboscsi_inv_set_phase)
     (simp add: turboscsi_inv_def)

lemma turboscsi_inv_reg: "turboscsi_inv t \<Longrightarrow> turboscsi_inv (turboscsi_reg_write off v t)"
  by (erule turboscsi_inv_frame)
     (simp_all add: turboscsi_reg_write_def turboscsi_ack_flags_def Let_def)

lemma turboscsi_inv_observe: "turboscsi_inv t \<Longrightarrow> turboscsi_inv (turboscsi_observe_write off v t)"
  by (simp add: turboscsi_observe_write_def turboscsi_inv_fifo turboscsi_inv_command turboscsi_inv_reg)
     (simp add: turboscsi_inv_def)

lemma turboscsi_inv_write: "turboscsi_inv t \<Longrightarrow> turboscsi_inv (turboscsi_io_write off v t)"
  by (drule turboscsi_inv_observe [of _ off v], erule turboscsi_inv_frame)
     (simp_all add: turboscsi_io_write_def turboscsi_ack_flags_def Let_def)

interpretation turboscsi_machine: step_machine turboscsi_access turboscsi_inv
proof
  fix s i
  assume "turboscsi_inv s"
  then show "turboscsi_inv (turboscsi_access s i)" by (cases i) (simp_all add: turboscsi_inv_write)
qed

section \<open>Floppy controller\<close>

definition swim_inv :: "swim \<Rightarrow> bool" where
  "swim_inv s \<longleftrightarrow> param_idx s < 16 \<and> iwm_to_swim_ctr s \<le> 3"

lemma and_15_less: "(v :: u8) AND 15 < 16"
proof -
  have "v AND 15 \<le> 15" by (rule word_and_le1)
  then show ?thesis by (rule le_less_trans) simp
qed

lemma iwm_control_frame [simp]:
  "param_idx (iwm_control_access reg s) = param_idx s" "iwm_to_swim_ctr (iwm_control_access reg s) = iwm_to_swim_ctr s"
  "swim_mode (iwm_control_access reg s) = swim_mode s"
  by (simp_all add: iwm_control_access_def Let_def)

lemma iwm_write_frame:
  "swim_inv s \<Longrightarrow> swim_inv (iwm_write reg v s)"
  by (simp add: iwm_write_def iwm_mode_step_def swim_inv_def Let_def)

lemma swim_reg_write_inv: "swim_inv s \<Longrightarrow> swim_inv (swim_reg_write reg v s)"
  by (simp add: swim_reg_write_def swim_next_param_def swim_inv_def Let_def and_15_less)

lemma swim_inv_write: "swim_inv s \<Longrightarrow> swim_inv (swim_write reg v s)"
  by (simp add: swim_write_def iwm_write_frame swim_reg_write_inv Let_def)

lemma swim_inv_read: "swim_inv s \<Longrightarrow> swim_inv (snd (swim_read reg s))"
  by (simp add: swim_read_def iwm_read_def swim_next_param_def swim_inv_def Let_def and_15_less)

interpretation swim_machine: step_machine swim_access swim_inv
proof
  fix s i
  assume "swim_inv s"
  then show "swim_inv (swim_access s i)" by (cases i) (simp_all add: swim_inv_write swim_inv_read)
qed

text \<open>The mode switch.  An access that is not a write of offset 15 or of offset 7 resets the count.\<close>

fun is_mode_write :: "bool \<Rightarrow> access \<Rightarrow> bool" where
  "is_mode_write b (Wr reg v) \<longleftrightarrow> ucast reg AND SWIM_REG_MASK = 0x0F \<and> (v AND 0x40 \<noteq> 0) = b"
| "is_mode_write b (Rd reg) \<longleftrightarrow> False"

fun is_mode7_write :: "access \<Rightarrow> bool" where
  "is_mode7_write (Wr reg v) \<longleftrightarrow> ucast reg AND SWIM_REG_MASK = 0x07"
| "is_mode7_write (Rd reg) \<longleftrightarrow> False"

definition swim_pattern :: "bool list" where
  "swim_pattern = [True, False, True, True]"

lemma iwm_step_cases:
  assumes "swim_mode s AND 0x40 = 0" "\<not> is_mode7_write i"
  defines "k \<equiv> iwm_to_swim_ctr s" and "t \<equiv> swim_access s i"
  shows "(swim_mode t AND 0x40 \<noteq> 0 \<longrightarrow> k = 3 \<and> is_mode_write True i \<and> param_idx t = 0) \<and>
    (swim_mode t AND 0x40 = 0 \<longrightarrow>
      iwm_to_swim_ctr t = 0 \<or> (k = 0 \<and> iwm_to_swim_ctr t = 1 \<and> is_mode_write True i) \<or>
      (k = 1 \<and> iwm_to_swim_ctr t = 2 \<and> is_mode_write False i) \<or>
      (k = 2 \<and> iwm_to_swim_ctr t = 3 \<and> is_mode_write True i))"
proof (cases i)
  case (Rd reg)
  then show ?thesis
    using assms(1) unfolding t_def by (simp add: swim_read_def iwm_read_def Let_def)
next
  case (Wr reg v)
  then have "swim_access s i = iwm_write (ucast reg) v s"
    using assms(1,2) by (simp add: swim_write_def Let_def)
  then show ?thesis
    using assms(1) Wr unfolding t_def k_def by (simp add: iwm_write_def iwm_mode_step_def Let_def)
qed

text \<open>The count \<open>k\<close> means that the last \<open>k\<close> accesses were the first \<open>k\<close> of the pattern.\<close>

definition ends_with_prefix :: "nat \<Rightarrow> access list \<Rightarrow> bool" where
  "ends_with_prefix k as \<longleftrightarrow> k \<le> length as \<and>
     list_all2 is_mode_write (take k swim_pattern) (drop (length as - k) as)"

lemma ends_with_prefix_snoc:
  "ends_with_prefix k as \<Longrightarrow> k < 4 \<Longrightarrow> is_mode_write (swim_pattern ! k) a \<Longrightarrow> ends_with_prefix (Suc k) (as @ [a])"
proof -
  assume a: "ends_with_prefix k as" "k < 4" "is_mode_write (swim_pattern ! k) a"
  have "take (Suc k) swim_pattern = take k swim_pattern @ [swim_pattern ! k]"
    using a(2) by (intro take_Suc_conv_app_nth) (simp add: swim_pattern_def)
  then show ?thesis
    using a by (simp add: ends_with_prefix_def list_all2_appendI)
qed

lemma iwm_count:
  "swim_mode s AND 0x40 = 0 \<Longrightarrow> iwm_to_swim_ctr s = 0 \<Longrightarrow> \<not> (\<exists>a \<in> set as. is_mode7_write a) \<Longrightarrow>
   (\<forall>n \<le> length as. swim_mode (foldl swim_access s (take n as)) AND 0x40 = 0) \<Longrightarrow>
   \<exists>k \<le> 3. iwm_to_swim_ctr (foldl swim_access s as) = of_nat k \<and> ends_with_prefix k as"
proof (induction as rule: rev_induct)
  case Nil
  then show ?case by (intro exI [of _ 0]) (simp add: ends_with_prefix_def)
next
  case (snoc a as)
  let ?t = "foldl swim_access s as"
  have "swim_mode (foldl swim_access s (take n as)) AND 0x40 = 0" if "n \<le> length as" for n
    using snoc.prems(4) [rule_format, of n] that by simp
  with snoc obtain k where k: "k \<le> 3" "iwm_to_swim_ctr ?t = of_nat k" "ends_with_prefix k as" by auto
  have m: "swim_mode ?t AND 0x40 = 0" using snoc.prems(4) [rule_format, of "length as"] by simp
  have m': "swim_mode (swim_access ?t a) AND 0x40 = 0" using snoc.prems(4) [rule_format, of "Suc (length as)"] by simp
  note c = iwm_step_cases [OF m, of a]
  have zero: "ends_with_prefix 0 (as @ [a])" by (simp add: ends_with_prefix_def)
  have kk: "k = 0 \<or> k = 1 \<or> k = 2 \<or> k = 3" using k(1) by arith
  then consider "iwm_to_swim_ctr (swim_access ?t a) = 0"
    | "k = 0" "iwm_to_swim_ctr (swim_access ?t a) = 1" "is_mode_write True a"
    | "k = 1" "iwm_to_swim_ctr (swim_access ?t a) = 2" "is_mode_write False a"
    | "k = 2" "iwm_to_swim_ctr (swim_access ?t a) = 3" "is_mode_write True a"
    using c m' k(2) snoc.prems(3) by auto
  then show ?case
  proof cases
    case 1 then show ?thesis using zero by (intro exI [of _ 0]) simp
  next
    case 2 then show ?thesis using ends_with_prefix_snoc [OF k(3)] by (intro exI [of _ 1]) (simp add: swim_pattern_def)
  next
    case 3 then show ?thesis using ends_with_prefix_snoc [OF k(3)] by (intro exI [of _ 2]) (simp add: swim_pattern_def numeral_2_eq_2)
  next
    case 4 then show ?thesis using ends_with_prefix_snoc [OF k(3)] by (intro exI [of _ 3]) (simp add: swim_pattern_def eval_nat_numeral)
  qed
qed

lemma mode_write_step:
  assumes "swim_mode s AND 0x40 = 0" "is_mode_write b i"
  shows "swim_mode (swim_access s i) =
      (if iwm_to_swim_ctr s = 3 \<and> b then swim_mode s OR 0x40 else swim_mode s)"
    "iwm_to_swim_ctr (swim_access s i) =
      (if iwm_to_swim_ctr s = 0 then (if b then 1 else 0) else if iwm_to_swim_ctr s = 1 then (if b then 0 else 2)
       else if iwm_to_swim_ctr s = 2 then (if b then 3 else 0) else 0)"
proof -
  obtain reg v where i: "i = Wr reg v" using assms(2) by (cases i) auto
  have "swim_access s i = iwm_write (ucast reg) v s"
    using assms i by (simp add: swim_write_def Let_def SWIM_REG_MASK_def)
  then show "swim_mode (swim_access s i) =
      (if iwm_to_swim_ctr s = 3 \<and> b then swim_mode s OR 0x40 else swim_mode s)"
    "iwm_to_swim_ctr (swim_access s i) =
      (if iwm_to_swim_ctr s = 0 then (if b then 1 else 0) else if iwm_to_swim_ctr s = 1 then (if b then 0 else 2)
       else if iwm_to_swim_ctr s = 2 then (if b then 3 else 0) else 0)"
    using assms i by (auto simp: iwm_write_def iwm_mode_step_def Let_def)
qed

lemma mode_bit_set: "(x OR 0x40) AND 0x40 \<noteq> (0 :: u8)"
proof -
  have "bit ((x OR 0x40) AND 0x40) 6" by (simp add: bit_or_iff bit_and_iff)
  then show ?thesis by (metis bit_0_eq bot_apply bot_bool_def)
qed

text \<open>
  The floppy controller leaves its power-on mode only by the documented handshake.  As long as
  offset 7 is not written, the access that switches the mode is the last of four consecutive accesses
  that were all writes of offset 15 and whose bit 6 was 1, 0, 1, 1; and that sequence does switch it.
\<close>

theorem swim_mode_entered_only_by_handshake:
  assumes "swim_mode s AND 0x40 = 0" and "iwm_to_swim_ctr s = 0" and "\<not> (\<exists>b \<in> set (as @ [a]). is_mode7_write b)"
    and "\<forall>n \<le> length as. swim_mode (foldl swim_access s (take n as)) AND 0x40 = 0"
  shows "(swim_mode (foldl swim_access s (as @ [a])) AND 0x40 \<noteq> 0 \<longrightarrow> ends_with_prefix 4 (as @ [a])) \<and>
    (list_all2 is_mode_write swim_pattern bs \<longrightarrow> swim_mode (foldl swim_access s bs) AND 0x40 \<noteq> 0)"
proof (intro conjI impI)
  let ?t = "foldl swim_access s as"
  assume sw: "swim_mode (foldl swim_access s (as @ [a])) AND 0x40 \<noteq> 0"
  obtain k where k: "k \<le> 3" "iwm_to_swim_ctr ?t = of_nat k" "ends_with_prefix k as"
    using iwm_count [OF assms(1,2) _ assms(4)] assms(3) by auto
  have m: "swim_mode ?t AND 0x40 = 0" using assms(4) [rule_format, of "length as"] by simp
  have "iwm_to_swim_ctr ?t = 3" "is_mode_write True a"
    using iwm_step_cases [OF m, of a] sw assms(3) by auto
  moreover have "k = 0 \<or> k = 1 \<or> k = 2 \<or> k = 3" using k(1) by arith
  ultimately have "k = 3" using k(2) by auto
  then show "ends_with_prefix 4 (as @ [a])"
    using ends_with_prefix_snoc [OF k(3)] \<open>is_mode_write True a\<close> by (simp add: swim_pattern_def eval_nat_numeral)
next
  assume "list_all2 is_mode_write swim_pattern bs"
  then obtain b1 b2 b3 b4 where bs: "bs = [b1, b2, b3, b4]" "is_mode_write True b1" "is_mode_write False b2"
    "is_mode_write True b3" "is_mode_write True b4"
    by (auto simp: swim_pattern_def list_all2_Cons1)
  note s1 = mode_write_step [OF assms(1) bs(2), unfolded assms(2), simplified]
  have m1: "swim_mode (swim_access s b1) AND 0x40 = 0" using s1 assms(1) by simp
  note s2 = mode_write_step [OF m1 bs(3), unfolded s1, simplified]
  have m2: "swim_mode (swim_access (swim_access s b1) b2) AND 0x40 = 0" using s2 assms(1) by simp
  note s3 = mode_write_step [OF m2 bs(4), unfolded s2, simplified]
  have m3: "swim_mode (swim_access (swim_access (swim_access s b1) b2) b3) AND 0x40 = 0" using s3 assms(1) by simp
  note s4 = mode_write_step(1) [OF m3 bs(5), unfolded s3, simplified]
  show "swim_mode (foldl swim_access s bs) AND 0x40 \<noteq> 0"
    unfolding bs(1) using s4 mode_bit_set by simp
qed

theorem swim_mode_entered_only_by_handshake_witness:
  "swim_mode (foldl swim_access initial_swim [Wr 15 0x57, Wr 15 0x17, Wr 15 0x57, Wr 15 0x57]) AND 0x40 \<noteq> 0"
  using swim_mode_entered_only_by_handshake [of initial_swim "[]" "Rd 0" "[Wr 15 0x57, Wr 15 0x17, Wr 15 0x57, Wr 15 0x57]"]
  by (simp add: initial_swim_def swim_pattern_def SWIM_REG_MASK_def)

section \<open>Register round trip of the serial controller\<close>

text \<open>Selecting register \<open>r\<close>: its number, with the point-high command for 8 and up.\<close>

definition select_byte :: "u8 \<Rightarrow> u8" where
  "select_byte r = (if r < 8 then r else 0x08 OR (r AND 0x07))"

definition scc_write_reg :: "u32 \<Rightarrow> u8 \<Rightarrow> u8 \<Rightarrow> scc \<Rightarrow> scc" where
  "scc_write_reg off r v s = scc_write off v (scc_write off (select_byte r) s)"

definition scc_read_reg :: "u32 \<Rightarrow> u8 \<Rightarrow> scc \<Rightarrow> u8 \<times> scc" where
  "scc_read_reg off r s = scc_read off (scc_write off (select_byte r) s)"

lemma scc_select:
  assumes "\<not> is_data_port off" "ptr s (channel_index off) = 0" "r \<in> {2, 4, 5, 9, 11, 12, 13, 15}"
  shows "scc_write off (select_byte r) s =
    (set_wr (channel_index off) 0 (select_byte r) s)\<lparr> ptr := (ptr s)(channel_index off := r) \<rparr>"
  using assms(3)
  by (elim insertE emptyE)
     (use assms(1,2) in \<open>simp_all add: scc_write_def scc_write_wr0_def select_byte_def Let_def\<close>)

lemma scc_write_selected:
  assumes "\<not> is_data_port off" "ptr s (channel_index off) = r" "r \<in> {2, 4, 5, 9, 11, 12, 13, 15}"
  shows "ptr (scc_write off v s) (channel_index off) = 0"
    "scc_rr (scc_write off v s) (channel_index off) r = (if r = 9 then v AND 0x3F else v)"
    "r \<noteq> 2 \<Longrightarrow> r \<noteq> 9 \<Longrightarrow> wr (scc_write off v s) = (wr s)(channel_index off := (wr s (channel_index off))(r := v))"
  using assms(3)
  by (elim insertE emptyE;
      use assms(1,2) in \<open>simp add: scc_write_def scc_rr_def set_wr_wr Let_def\<close>)+

lemma scc_read_selected:
  assumes "\<not> is_data_port off" "ptr s (channel_index off) = r" "r \<in> {2, 4, 5, 9, 11, 12, 13, 15}"
  shows "fst (scc_read off s) = scc_rr s (channel_index off) r" "ptr (snd (scc_read off s)) (channel_index off) = 0"
  using assms(3)
  by (elim insertE emptyE; use assms(1,2) in \<open>simp add: scc_read_def Let_def\<close>)+

lemma scc_rr_cong:
  "wr s False 2 = wr t False 2 \<Longrightarrow> wr s False 9 = wr t False 9 \<Longrightarrow> (\<forall>n. n \<noteq> 0 \<longrightarrow> wr s ch n = wr t ch n) \<Longrightarrow>
   scc_rr s ch q = scc_rr t ch q"
  by (simp add: scc_rr_def Let_def)

text \<open>
  The serial controller keeps what is written to its readable registers.  On either channel,
  selecting such a register and writing it, then selecting and reading it, returns the byte written
  (the two reset bits of register 9 masked off), leaves the pointer back at register 0, and does not
  change what the other channel reads from its own registers.
\<close>

theorem scc_register_roundtrip:
  assumes "\<not> is_data_port off" and "ptr s (channel_index off) = 0" and "r \<in> {2, 4, 5, 9, 11, 12, 13, 15}"
  shows "fst (scc_read_reg off r (scc_write_reg off r v s)) = (if r = 9 then v AND 0x3F else v) \<and>
    ptr (snd (scc_read_reg off r (scc_write_reg off r v s))) (channel_index off) = 0 \<and>
    (r \<noteq> 2 \<and> r \<noteq> 9 \<longrightarrow>
      scc_rr (scc_write_reg off r v s) (\<not> channel_index off) q = scc_rr s (\<not> channel_index off) q)"
proof -
  let ?ch = "channel_index off"
  let ?s1 = "scc_write off (select_byte r) s" and ?s2 = "scc_write_reg off r v s"
  let ?s3 = "scc_write off (select_byte r) ?s2"
  have s1: "ptr ?s1 ?ch = r" "wr ?s1 = (wr s)(?ch := (wr s ?ch)(0 := select_byte r))"
    unfolding scc_select [OF assms] by (simp_all add: set_wr_wr)
  note w = scc_write_selected [OF assms(1) s1(1) assms(3), of v, folded scc_write_reg_def]
  have s3: "ptr ?s3 ?ch = r" "wr ?s3 = (wr ?s2)(?ch := (wr ?s2 ?ch)(0 := select_byte r))"
    unfolding scc_select [OF assms(1) w(1) assms(3)] by (simp_all add: set_wr_wr)
  have same: "scc_rr ?s3 ?ch r = scc_rr ?s2 ?ch r" by (rule scc_rr_cong) (simp_all add: s3)
  have other: "scc_rr ?s2 (\<not> ?ch) q = scc_rr s (\<not> ?ch) q" if "r \<noteq> 2" "r \<noteq> 9"
    by (rule scc_rr_cong) (use that in \<open>auto simp: w(3) s1(2)\<close>)
  show ?thesis
    using scc_read_selected [OF assms(1) s3(1) assms(3)] w(2) same other by (simp add: scc_read_reg_def)
qed

theorem scc_register_roundtrip_witness:
  "fst (scc_read_reg 8 12 (scc_write_reg 8 12 0x5A initial_scc)) = 0x5A"
  using scc_register_roundtrip [of 8 initial_scc 12 "0x5A"]
  by (simp add: is_data_port_def initial_scc_def)

section \<open>Command blocks of the SCSI controller\<close>

lemma io_write_fifo: "turboscsi_io_write 2 v t = turboscsi_fifo_write v t"
  by (simp add: turboscsi_io_write_def turboscsi_observe_write_def turboscsi_ack_flags_def)

lemma of_nat_u8_eq: "i < 256 \<Longrightarrow> j < 256 \<Longrightarrow> (of_nat i = (of_nat j :: u8)) \<longleftrightarrow> i = j"
  by (simp add: word_unat_eq_iff unat_of_nat)

lemma of_nat_u8_less: "i < 256 \<Longrightarrow> j < 256 \<Longrightarrow> (of_nat i < (of_nat j :: u8)) \<longleftrightarrow> i < j"
  by (simp add: word_less_nat_alt unat_of_nat)

text \<open>The collector \<open>i\<close> bytes into a block of \<open>len\<close>, holding the bytes \<open>bs\<close> so far.\<close>

definition collecting :: "nat \<Rightarrow> u8 list \<Rightarrow> turboscsi \<Rightarrow> bool" where
  "collecting len bs t \<longleftrightarrow> cdb_idx t = of_nat (length bs) \<and> cdb_len t = of_nat len \<and>
     (\<forall>j < length bs. cdb t (of_nat j) = bs ! j)"

lemma cdb_stored:
  assumes "length bs < 10" "\<forall>j < length bs. c (of_nat j) = bs ! j" "j < Suc (length bs)"
  shows "(c(of_nat (length bs) := b)) (of_nat j :: u8) = (bs @ [b]) ! j"
proof (cases "j = length bs")
  case True then show ?thesis by simp
next
  case False
  then have "(of_nat j :: u8) \<noteq> of_nat (length bs)" using assms(1,3) by (simp add: of_nat_u8_eq)
  then show ?thesis using False assms(2,3) by (simp add: nth_append less_Suc_eq)
qed

lemma cdb_byte_collects:
  assumes "collecting len bs t" "len \<le> 10" "Suc (length bs) < len"
  shows "collecting len (bs @ [b]) (turboscsi_cdb_byte b t)"
proof -
  have "cdb_idx t < 16" using assms of_nat_u8_less [of "length bs" 16] by (simp add: collecting_def)
  moreover have "(of_nat (Suc (length bs)) :: u8) < of_nat len" using assms(2,3) by (subst of_nat_u8_less) simp_all
  then have "\<not> cdb_len t \<le> cdb_idx t + 1" using assms(1) by (simp add: collecting_def add.commute)
  ultimately show ?thesis
    using assms cdb_stored [of bs "cdb t" _ b] by (simp add: turboscsi_cdb_byte_def Let_def collecting_def add.commute)
qed

lemma cdb_byte_completes:
  assumes "collecting len bs t" "len \<le> 10" "Suc (length bs) = len"
  shows "\<exists>t'. turboscsi_cdb_byte b t = turboscsi_cdb_complete t' \<and> (\<forall>j < len. cdb t' (of_nat j) = (bs @ [b]) ! j)"
proof -
  let ?t = "t\<lparr> cdb := (cdb t)(cdb_idx t := b), cdb_idx := cdb_idx t + 1 \<rparr>"
  have "cdb_idx t < 16" using assms of_nat_u8_less [of "length bs" 16] by (simp add: collecting_def)
  moreover have "cdb_len t \<le> cdb_idx t + 1" using assms(1,3) by (auto simp: collecting_def add.commute)
  ultimately have "turboscsi_cdb_byte b t = turboscsi_cdb_complete ?t" by (simp add: turboscsi_cdb_byte_def Let_def)
  moreover have "\<forall>j < len. cdb ?t (of_nat j) = (bs @ [b]) ! j"
    using assms cdb_stored [of bs "cdb t" _ b] by (simp add: collecting_def)
  ultimately show ?thesis by blast
qed

lemma fifo_continues:
  assumes "collecting len bs t" "bs \<noteq> []" "length bs < 256"
  shows "turboscsi_fifo_write b t = turboscsi_cdb_byte b (t\<lparr> ts_regs := (ts_regs t)(2 := b) \<rparr>)"
    "collecting len bs (t\<lparr> ts_regs := (ts_regs t)(2 := b) \<rparr>)"
proof -
  have "cdb_idx t \<noteq> 0" using assms of_nat_u8_eq [of "length bs" 0] by (simp add: collecting_def)
  then show "turboscsi_fifo_write b t = turboscsi_cdb_byte b (t\<lparr> ts_regs := (ts_regs t)(2 := b) \<rparr>)"
    by (simp add: turboscsi_fifo_write_def Let_def)
  show "collecting len bs (t\<lparr> ts_regs := (ts_regs t)(2 := b) \<rparr>)" using assms(1) by (simp add: collecting_def)
qed

lemma feed_collects:
  "collecting len cs t \<Longrightarrow> cs \<noteq> [] \<Longrightarrow> len \<le> 10 \<Longrightarrow> length cs + length bs < len \<Longrightarrow>
   collecting len (cs @ bs) (foldl (\<lambda>t b. turboscsi_io_write 2 b t) t bs)"
proof (induction bs arbitrary: cs t)
  case Nil then show ?case by simp
next
  case (Cons b bs)
  have "collecting len (cs @ [b]) (turboscsi_io_write 2 b t)"
    using Cons.prems fifo_continues [OF Cons.prems(1,2), of b] by (simp add: io_write_fifo cdb_byte_collects)
  from Cons.IH [OF this] Cons.prems show ?case by simp
qed

text \<open>
  A SCSI command block is collected whole.  From an empty collector, writing a supported opcode and
  then exactly the rest of its block to the FIFO leaves the block in the buffer byte for byte, the
  collector empty again, and the controller in the phase the opcode asks for: data-in for the reads,
  data-out for the writes, status otherwise, with a transfer requested exactly for reads and writes.
\<close>

theorem scsi_cdb_collected:
  fixes t op bs
  defines "t' \<equiv> foldl (\<lambda>t b. turboscsi_io_write 2 b t) t (op # bs)"
  assumes "cdb_idx t = 0" and "scsi_cdb_opcode_observable op" and "Suc (length bs) = unat (scsi_cdb_len op)"
  shows "cdb_idx t' = 0 \<and> (\<forall>j \<le> length bs. cdb t' (of_nat j) = (op # bs) ! j) \<and>
    data_phase t' = (if op = 0x08 \<or> op = 0x28 then 3 else if op = 0x0A \<or> op = 0x2A then 4 else 5) \<and>
    (drq_pending t' \<longleftrightarrow> op \<in> {0x08, 0x28, 0x0A, 0x2A})"
proof -
  define len where "len = Suc (length bs)"
  have len: "len = 6 \<or> len = 10" "scsi_cdb_len op = of_nat len"
    using scsi_cdb_len_cases [of op] assms(4) unfolding len_def by auto
  obtain cs b where bs: "bs = cs @ [b]" using len(1) unfolding len_def by (cases bs rule: rev_cases) auto
  let ?t0 = "turboscsi_set_phase 2 (t\<lparr> ts_regs := (ts_regs t)(2 := op), cdb_len := scsi_cdb_len op, command_active := True \<rparr>)"
  have "collecting len [] ?t0" using assms(2) len(2) by (simp add: collecting_def)
  from cdb_byte_collects [OF this, of op] len(1)
  have 1: "collecting len [op] (turboscsi_io_write 2 op t)"
    using assms(2,3) by (auto simp: io_write_fifo turboscsi_fifo_write_def Let_def)
  let ?t = "foldl (\<lambda>t b. turboscsi_io_write 2 b t) (turboscsi_io_write 2 op t) cs"
  have 2: "collecting len (op # cs) ?t" using feed_collects [OF 1, of cs] len(1) bs unfolding len_def by auto
  note f = fifo_continues [OF 2]
  obtain u where u: "turboscsi_io_write 2 b ?t = turboscsi_cdb_complete u" "\<forall>j < len. cdb u (of_nat j) = (op # bs) ! j"
    using cdb_byte_completes [OF f(2), of b b] f(1) len(1) bs unfolding len_def by (auto simp: io_write_fifo)
  have t': "t' = turboscsi_cdb_complete u" by (simp add: t'_def bs u(1))
  have op: "cdb u 0 = op" using u(2) [rule_format, of 0] unfolding len_def by simp
  show ?thesis
    using u(2) cdb_complete_frame(1,2) [of u]
    by (simp add: t' len_def less_Suc_eq_le turboscsi_cdb_complete_def op Let_def phase_drq)
qed

theorem scsi_cdb_collected_witness:
  "data_phase (foldl (\<lambda>t b. turboscsi_io_write 2 b t) turboscsi_reset [0x08, 0x00, 0x12, 0x34, 0x02, 0x00]) = 3"
  using scsi_cdb_collected [of turboscsi_reset "0x08" "[0x00, 0x12, 0x34, 0x02, 0x00]"]
  by (simp add: turboscsi_reset_def scsi_cdb_opcode_observable_def scsi_cdb_len_def)

text \<open>
  A block that was begun is not dropped by the commands that start a new one: neither flushing the
  FIFO (command 01) nor selecting a target resets the collector, so the opcode of the next block is
  taken as a parameter byte of the old one.
\<close>

lemma partial_cdb_survives_flush_and_select:
  "cdb_idx (turboscsi_io_write 3 0x41 (turboscsi_io_write 3 0x01 t)) = cdb_idx t"
  by (simp add: turboscsi_io_write_def turboscsi_observe_write_def turboscsi_command_write_def
      turboscsi_ack_flags_def Let_def)

end
