(* ===== verification/Device_Bounds.thy ===== *)
theory Device_Bounds
  imports Device_Stubs_Props
begin

unbundle bit_operations_syntax

text \<open>
  The arrays of the device stubs are never indexed out of range: the contract of a device that stays
  within its arrays, its interpretation on the four stubs, and the property over every run of bus
  accesses.
\<close>

section \<open>The fixed arrays\<close>

text \<open>
  The C++ arrays have a size, the functions that model them do not.  For each device, \<open>clip\<close> blanks
  everything the functions hold outside the declared sizes.  A device stays within its arrays when
  blanking before a step or after it makes no difference (an access that wrote outside would leave
  something in the first state and not in the second) and the value read does not change either.
\<close>

locale bounded_arrays = step_machine step inv
  for step :: "'s \<Rightarrow> 'i \<Rightarrow> 's" and inv :: "'s \<Rightarrow> bool" +
  fixes clip :: "'s \<Rightarrow> 's" and reads :: "'s \<Rightarrow> 'o \<Rightarrow> 'v"
  assumes step_clip: "inv s \<Longrightarrow> step (clip s) i = clip (step s i)"
    and reads_clip: "inv s \<Longrightarrow> reads (clip s) off = reads s off"
begin

lemma run_clip: "inv s \<Longrightarrow> foldl step (clip s) as = clip (foldl step s as)"
  by (induction as rule: rev_induct) (simp_all add: step_clip run_inv)

lemma run_reads_clip: "inv s \<Longrightarrow> reads (foldl step (clip s) as) off = reads (foldl step s as) off"
  by (simp add: run_clip reads_clip run_inv)

end

definition clip_to :: "'i :: linorder \<Rightarrow> ('i \<Rightarrow> u8) \<Rightarrow> 'i \<Rightarrow> u8" where
  "clip_to n f i = (if i < n then f i else 0)"

lemma clip_to_in: "i < n \<Longrightarrow> clip_to n f i = f i"
  by (simp add: clip_to_def)

lemma clip_to_upd: "i < n \<Longrightarrow> (clip_to n f)(i := v) = clip_to n (f(i := v))"
  by (auto simp: clip_to_def)

lemma clip_to_zero: "clip_to n (\<lambda>_. 0) = (\<lambda>_. 0)"
  by (auto simp: clip_to_def)

subsection \<open>Sound chip: sixteen wavetable bytes\<close>

definition asc_clip :: "asc \<Rightarrow> asc" where
  "asc_clip a = a\<lparr> wavetable := clip_to 16 (wavetable a) \<rparr>"

lemma and_15_less_u32: "(x :: u32) AND 15 < 16"
proof -
  have "x AND 15 \<le> 15" by (rule word_and_le1)
  then show ?thesis by (rule le_less_trans) simp
qed

lemma asc_write_clip: "asc_write off v (asc_clip a) = asc_clip (asc_write off v a)"
  by (simp add: asc_write_def asc_clip_def Let_def asc_ack_all_def asc_ack_a_def asc_ack_b_def clip_to_upd and_15_less_u32)

lemma asc_read_clip: "asc_read off (asc_clip a) = (fst (asc_read off a), asc_clip (snd (asc_read off a)))"
  by (simp add: asc_read_def asc_clip_def Let_def asc_ack_all_def asc_ack_a_def asc_ack_b_def clip_to_in and_15_less_u32)

interpretation asc_arrays: bounded_arrays asc_access asc_inv asc_clip "\<lambda>a off. fst (asc_read off a)"
proof
  fix s i
  show "asc_access (asc_clip s) i = asc_clip (asc_access s i)" by (cases i) (simp_all add: asc_write_clip asc_read_clip)
qed (simp add: asc_read_clip)

subsection \<open>Serial controller: sixteen write registers per channel\<close>

definition scc_clip :: "scc \<Rightarrow> scc" where
  "scc_clip s = s\<lparr> wr := (\<lambda>ch. clip_to 16 (wr s ch)) \<rparr>"

lemma scc_clip_sel [simp]: "ptr (scc_clip s) = ptr s" "last_tx (scc_clip s) = last_tx s"
  by (simp_all add: scc_clip_def)

lemma scc_clip_upd [simp]:
  "(scc_clip s)\<lparr> ptr := p \<rparr> = scc_clip (s\<lparr> ptr := p \<rparr>)" "(scc_clip s)\<lparr> last_tx := l \<rparr> = scc_clip (s\<lparr> last_tx := l \<rparr>)"
  by (simp_all add: scc_clip_def)

lemma set_wr_clip: "reg < 16 \<Longrightarrow> set_wr ch reg v (scc_clip s) = scc_clip (set_wr ch reg v s)"
  by (auto simp: set_wr_def scc_clip_def clip_to_def fun_eq_iff intro!: scc.equality)

lemma scc_write_clip: "scc_write off v (scc_clip s) = scc_clip (scc_write off v s)"
  by (simp add: scc_write_def scc_write_wr0_def Let_def set_wr_clip and_15_less)

lemma scc_rr_clip: "scc_rr (scc_clip s) ch reg = scc_rr s ch reg"
  by (simp add: scc_rr_def Let_def scc_clip_def clip_to_in)

lemma scc_read_clip: "scc_read off (scc_clip s) = (fst (scc_read off s), scc_clip (snd (scc_read off s)))"
  by (simp add: scc_read_def Let_def scc_rr_clip)

interpretation scc_arrays: bounded_arrays scc_access scc_inv scc_clip "\<lambda>s off. fst (scc_read off s)"
proof
  fix s i
  show "scc_access (scc_clip s) i = scc_clip (scc_access s i)" by (cases i) (simp_all add: scc_write_clip scc_read_clip)
qed (simp add: scc_read_clip)

subsection \<open>Floppy controller: sixteen parameter bytes\<close>

definition swim_clip :: "swim \<Rightarrow> swim" where
  "swim_clip s = s\<lparr> swim_param := clip_to 16 (swim_param s) \<rparr>"

lemma swim_clip_sel [simp]:
  "swim_mode (swim_clip s) = swim_mode s" "param_idx (swim_clip s) = param_idx s" "swim_phase (swim_clip s) = swim_phase s"
  "iwm_control (swim_clip s) = iwm_control s" "iwm_status (swim_clip s) = iwm_status s" "iwm_whd (swim_clip s) = iwm_whd s"
  "iwm_to_swim_ctr (swim_clip s) = iwm_to_swim_ctr s" "swim_error (swim_clip s) = swim_error s" "swim_setup (swim_clip s) = swim_setup s"
  by (simp_all add: swim_clip_def)

lemma swim_clip_upd [simp]:
  "(swim_clip s)\<lparr> swim_mode := x \<rparr> = swim_clip (s\<lparr> swim_mode := x \<rparr>)" "(swim_clip s)\<lparr> param_idx := x \<rparr> = swim_clip (s\<lparr> param_idx := x \<rparr>)"
  "(swim_clip s)\<lparr> swim_phase := x \<rparr> = swim_clip (s\<lparr> swim_phase := x \<rparr>)" "(swim_clip s)\<lparr> iwm_control := x \<rparr> = swim_clip (s\<lparr> iwm_control := x \<rparr>)"
  "(swim_clip s)\<lparr> iwm_status := x \<rparr> = swim_clip (s\<lparr> iwm_status := x \<rparr>)" "(swim_clip s)\<lparr> iwm_mode := x \<rparr> = swim_clip (s\<lparr> iwm_mode := x \<rparr>)"
  "(swim_clip s)\<lparr> iwm_to_swim_ctr := x \<rparr> = swim_clip (s\<lparr> iwm_to_swim_ctr := x \<rparr>)" "(swim_clip s)\<lparr> swim_error := x \<rparr> = swim_clip (s\<lparr> swim_error := x \<rparr>)"
  "(swim_clip s)\<lparr> swim_setup := x \<rparr> = swim_clip (s\<lparr> swim_setup := x \<rparr>)" "(swim_clip s)\<lparr> swim_data := x \<rparr> = swim_clip (s\<lparr> swim_data := x \<rparr>)"
  "(swim_clip s)\<lparr> swim_mark := x \<rparr> = swim_clip (s\<lparr> swim_mark := x \<rparr>)"
  by (simp_all add: swim_clip_def)

lemma swim_param_clip:
  "param_idx s < 16 \<Longrightarrow> swim_param (swim_clip s) (param_idx s) = swim_param s (param_idx s)"
  "param_idx s < 16 \<Longrightarrow> (swim_clip s)\<lparr> swim_param := (swim_param (swim_clip s))(param_idx s := v) \<rparr> =
     swim_clip (s\<lparr> swim_param := (swim_param s)(param_idx s := v) \<rparr>)"
  by (simp_all add: swim_clip_def clip_to_in clip_to_upd)

lemma iwm_access_clip: "iwm_control_access reg (swim_clip s) = swim_clip (iwm_control_access reg s)"
  by (simp add: iwm_control_access_def Let_def)

lemma iwm_step_clip: "iwm_mode_step v (swim_clip s) = swim_clip (iwm_mode_step v s)"
  by (simp add: iwm_mode_step_def Let_def)

lemma iwm_write_clip: "iwm_write reg v (swim_clip s) = swim_clip (iwm_write reg v s)"
  by (simp add: iwm_write_def Let_def iwm_access_clip iwm_step_clip)

lemma swim_next_clip: "swim_next_param (swim_clip s) = swim_clip (swim_next_param s)"
  by (simp add: swim_next_param_def)

lemma swim_reg_clip: "swim_inv s \<Longrightarrow> swim_reg_write reg v (swim_clip s) = swim_clip (swim_reg_write reg v s)"
  by (simp add: swim_reg_write_def Let_def swim_param_clip swim_next_clip swim_inv_def)

lemma swim_write_clip: "swim_inv s \<Longrightarrow> swim_write reg v (swim_clip s) = swim_clip (swim_write reg v s)"
  by (simp add: swim_write_def Let_def iwm_write_clip swim_reg_clip iwm_write_frame)

lemma iwm_read_clip: "iwm_read reg (swim_clip s) = (fst (iwm_read reg s), swim_clip (snd (iwm_read reg s)))"
  by (simp add: iwm_read_def Let_def iwm_access_clip)

lemma swim_read_clip: "swim_inv s \<Longrightarrow> swim_read reg (swim_clip s) = (fst (swim_read reg s), swim_clip (snd (swim_read reg s)))"
  by (simp add: swim_read_def Let_def iwm_read_clip swim_next_clip swim_param_clip swim_inv_def)

interpretation swim_arrays: bounded_arrays swim_access swim_inv swim_clip "\<lambda>s reg. fst (swim_read reg s)"
proof
  fix s i assume "swim_inv s"
  then show "swim_access (swim_clip s) i = swim_clip (swim_access s i)" by (cases i) (simp_all add: swim_write_clip swim_read_clip)
qed (simp add: swim_read_clip)

subsection \<open>SCSI controller: sixteen command bytes and 256 registers\<close>

definition turboscsi_clip :: "turboscsi \<Rightarrow> turboscsi" where
  "turboscsi_clip t = t\<lparr> cdb := clip_to 16 (cdb t), ts_regs := clip_to 0x100 (ts_regs t) \<rparr>"

lemma ts_clip_sel [simp]:
  "cdb_idx (turboscsi_clip t) = cdb_idx t" "cdb_len (turboscsi_clip t) = cdb_len t" "irq_pending (turboscsi_clip t) = irq_pending t"
  "drq_pending (turboscsi_clip t) = drq_pending t" "end_dma_pending (turboscsi_clip t) = end_dma_pending t"
  "busy_error_pending (turboscsi_clip t) = busy_error_pending t" "selected (turboscsi_clip t) = selected t"
  "command_active (turboscsi_clip t) = command_active t" "current_data (turboscsi_clip t) = current_data t"
  "data_phase (turboscsi_clip t) = data_phase t"
  by (simp_all add: turboscsi_clip_def)

lemma ts_clip_upd [simp]:
  "(turboscsi_clip t)\<lparr> cdb_idx := x \<rparr> = turboscsi_clip (t\<lparr> cdb_idx := x \<rparr>)" "(turboscsi_clip t)\<lparr> cdb_len := x \<rparr> = turboscsi_clip (t\<lparr> cdb_len := x \<rparr>)"
  "(turboscsi_clip t)\<lparr> last_command := x \<rparr> = turboscsi_clip (t\<lparr> last_command := x \<rparr>)"
  "(turboscsi_clip t)\<lparr> current_data := x \<rparr> = turboscsi_clip (t\<lparr> current_data := x \<rparr>)"
  "(turboscsi_clip t)\<lparr> data_phase := x \<rparr> = turboscsi_clip (t\<lparr> data_phase := x \<rparr>)"
  "(turboscsi_clip t)\<lparr> irq_pending := b \<rparr> = turboscsi_clip (t\<lparr> irq_pending := b \<rparr>)"
  "(turboscsi_clip t)\<lparr> drq_pending := b \<rparr> = turboscsi_clip (t\<lparr> drq_pending := b \<rparr>)"
  "(turboscsi_clip t)\<lparr> end_dma_pending := b \<rparr> = turboscsi_clip (t\<lparr> end_dma_pending := b \<rparr>)"
  "(turboscsi_clip t)\<lparr> busy_error_pending := b \<rparr> = turboscsi_clip (t\<lparr> busy_error_pending := b \<rparr>)"
  "(turboscsi_clip t)\<lparr> selected := b \<rparr> = turboscsi_clip (t\<lparr> selected := b \<rparr>)"
  "(turboscsi_clip t)\<lparr> command_active := b \<rparr> = turboscsi_clip (t\<lparr> command_active := b \<rparr>)"
  by (simp_all add: turboscsi_clip_def)

lemma ts_clip_arrays:
  "i < 16 \<Longrightarrow> cdb (turboscsi_clip t) i = cdb t i" "r < 0x100 \<Longrightarrow> ts_regs (turboscsi_clip t) r = ts_regs t r"
  "i < 16 \<Longrightarrow> (turboscsi_clip t)\<lparr> cdb := (cdb (turboscsi_clip t))(i := v) \<rparr> = turboscsi_clip (t\<lparr> cdb := (cdb t)(i := v) \<rparr>)"
  "r < 0x100 \<Longrightarrow> (turboscsi_clip t)\<lparr> ts_regs := (ts_regs (turboscsi_clip t))(r := v) \<rparr> =
     turboscsi_clip (t\<lparr> ts_regs := (ts_regs t)(r := v) \<rparr>)"
  by (simp_all add: turboscsi_clip_def clip_to_in clip_to_upd)

lemma ts_reset_clip: "turboscsi_clip turboscsi_reset = turboscsi_reset"
  by (simp add: turboscsi_clip_def turboscsi_reset_def clip_to_zero)

lemma ts_phase_clip: "turboscsi_set_phase p (turboscsi_clip t) = turboscsi_clip (turboscsi_set_phase p t)"
  by (simp add: turboscsi_set_phase_def Let_def)

lemma ts_complete_clip: "turboscsi_cdb_complete (turboscsi_clip t) = turboscsi_clip (turboscsi_cdb_complete t)"
  by (simp add: turboscsi_cdb_complete_def Let_def ts_phase_clip ts_clip_arrays(1))

lemma ts_cdb_byte_clip: "turboscsi_cdb_byte v (turboscsi_clip t) = turboscsi_clip (turboscsi_cdb_byte v t)"
  by (simp add: turboscsi_cdb_byte_def Let_def ts_clip_arrays(3) ts_complete_clip ts_reset_clip)

lemma ts_fifo_clip: "turboscsi_fifo_write v (turboscsi_clip t) = turboscsi_clip (turboscsi_fifo_write v t)"
  by (simp add: turboscsi_fifo_write_def Let_def ts_clip_arrays(4) ts_phase_clip ts_cdb_byte_clip)

lemma ts_command_clip: "turboscsi_command_write v (turboscsi_clip t) = turboscsi_clip (turboscsi_command_write v t)"
proof -
  have "(turboscsi_clip (t\<lparr> last_command := c \<rparr>))\<lparr> ts_regs := (ts_regs (turboscsi_clip t))(3 := x) \<rparr> =
      turboscsi_clip (t\<lparr> last_command := c, ts_regs := (ts_regs t)(3 := x) \<rparr>)" for c x
    by (simp add: turboscsi_clip_def clip_to_upd)
  moreover have "ts_regs (turboscsi_clip (t\<lparr> last_command := c \<rparr>)) = ts_regs (turboscsi_clip t)" for c
    by (simp add: turboscsi_clip_def)
  ultimately show ?thesis by (simp add: turboscsi_command_write_def Let_def ts_phase_clip ts_reset_clip)
qed

lemma ts_ack_clip: "turboscsi_ack_flags off v (turboscsi_clip t) = turboscsi_clip (turboscsi_ack_flags off v t)"
  by (simp add: turboscsi_ack_flags_def)

lemma ts_reg_clip: "off < 0x100 \<Longrightarrow> turboscsi_reg_write off v (turboscsi_clip t) = turboscsi_clip (turboscsi_reg_write off v t)"
  by (simp add: turboscsi_reg_write_def Let_def ts_clip_arrays(4) ts_ack_clip)

lemma ts_observe_clip: "turboscsi_observe_write off v (turboscsi_clip t) = turboscsi_clip (turboscsi_observe_write off v t)"
  by (simp add: turboscsi_observe_write_def ts_fifo_clip ts_command_clip ts_reg_clip)

lemma and_ff_less: "(x :: u32) AND 0xFF < 0x100"
proof -
  have "x AND 0xFF \<le> 0xFF" by (rule word_and_le1)
  then show ?thesis by (rule le_less_trans) simp
qed

lemma ts_write_clip: "turboscsi_io_write off v (turboscsi_clip t) = turboscsi_clip (turboscsi_io_write off v t)"
  by (simp add: turboscsi_io_write_def Let_def ts_observe_clip ts_clip_arrays(4) and_ff_less ts_ack_clip)

lemma ts_read_clip: "turboscsi_io_read off (turboscsi_clip t) = turboscsi_io_read off t"
  by (simp add: turboscsi_io_read_def Let_def turboscsi_status_value_def turboscsi_bus_and_stat_value_def
      ts_clip_arrays(2) and_ff_less)

interpretation turboscsi_arrays: bounded_arrays turboscsi_access turboscsi_inv turboscsi_clip "\<lambda>t off. turboscsi_io_read off t"
proof
  fix s i
  show "turboscsi_access (turboscsi_clip s) i = turboscsi_clip (turboscsi_access s i)" by (cases i) (simp_all add: ts_write_clip)
qed (simp add: ts_read_clip)

text \<open>
  C36 The arrays of the device stubs are never indexed out of range.  Whatever the functions that model
  the arrays hold, inside or outside the declared sizes, and whatever bus accesses follow a reset:
  blanking everything outside the arrays before the accesses gives the same state as blanking it
  after them, and every byte read afterwards is the same, so no access writes or reads outside the
  sixteen wavetable bytes of the sound chip, the sixteen registers per channel of the serial
  controller, the sixteen parameter bytes of the floppy controller, and the sixteen command bytes and
  256 registers of the SCSI controller.  The stored indices stay in range: the register pointers and
  the parameter pointer below 16, the command index below the length of the block being collected,
  which is six or ten.
\<close>

theorem device_indices_in_range:
  "let a = initial_asc\<lparr> wavetable := wt \<rparr>; s = initial_scc\<lparr> wr := ws \<rparr>;
       w = initial_swim\<lparr> swim_param := ps \<rparr>; t = turboscsi_reset\<lparr> cdb := cs, ts_regs := regs \<rparr> in
    foldl asc_access (asc_clip a) as = asc_clip (foldl asc_access a as) \<and>
    fst (asc_read off (foldl asc_access (asc_clip a) as)) = fst (asc_read off (foldl asc_access a as)) \<and>
    foldl scc_access (scc_clip s) as = scc_clip (foldl scc_access s as) \<and>
    fst (scc_read off (foldl scc_access (scc_clip s) as)) = fst (scc_read off (foldl scc_access s as)) \<and>
    foldl swim_access (swim_clip w) as = swim_clip (foldl swim_access w as) \<and>
    fst (swim_read reg (foldl swim_access (swim_clip w) as)) = fst (swim_read reg (foldl swim_access w as)) \<and>
    foldl turboscsi_access (turboscsi_clip t) as = turboscsi_clip (foldl turboscsi_access t as) \<and>
    turboscsi_io_read off (foldl turboscsi_access (turboscsi_clip t) as) = turboscsi_io_read off (foldl turboscsi_access t as) \<and>
    asc_inv (foldl asc_access a as) \<and> scc_inv (foldl scc_access s as) \<and>
    swim_inv (foldl swim_access w as) \<and> turboscsi_inv (foldl turboscsi_access t as)"
proof -
  let ?a = "initial_asc\<lparr> wavetable := wt \<rparr>" and ?s = "initial_scc\<lparr> wr := ws \<rparr>"
  let ?w = "initial_swim\<lparr> swim_param := ps \<rparr>" and ?t = "turboscsi_reset\<lparr> cdb := cs, ts_regs := regs \<rparr>"
  have i: "asc_inv ?a" "scc_inv ?s" "swim_inv ?w" "turboscsi_inv ?t"
    by (simp_all add: scc_inv_def initial_scc_def swim_inv_def initial_swim_def asc_inv_def
        initial_asc_def RATE_DEFAULT_def turboscsi_inv_def turboscsi_reset_def)
  show ?thesis
    unfolding Let_def
    by (intro conjI asc_arrays.run_clip [OF i(1)] asc_arrays.run_reads_clip [OF i(1)] asc_machine.run_inv [OF i(1)]
        scc_arrays.run_clip [OF i(2)] scc_arrays.run_reads_clip [OF i(2)] scc_machine.run_inv [OF i(2)]
        swim_arrays.run_clip [OF i(3)] swim_arrays.run_reads_clip [OF i(3)] swim_machine.run_inv [OF i(3)]
        turboscsi_arrays.run_clip [OF i(4)] turboscsi_arrays.run_reads_clip [OF i(4)] turboscsi_machine.run_inv [OF i(4)])
qed

end
