(* ===== verification/Rtc_Sidechannel.thy ===== *)
theory Rtc_Sidechannel
  imports Soc_Prelude
begin

text \<open>
  The real-time clock and parameter memory of the ROM-boot harness: \<open>RtcSidechannelModel\<close> of
  \<open>tb/tb_rom_boot.cpp\<close>.  The chip sees three wires (enable, clock, data) and is sampled whenever the
  processor changes VIA1 port B.

  \<open>rtc\<close> has the fields of the struct in its order; \<open>pram\<close> is \<open>std::array<uint8_t, 256>\<close> indexed by a
  byte.  \<open>rtc_sample\<close> is \<open>sample\<close>, cut at its three conditional blocks: \<open>rtc_select\<close> (enable falls),
  \<open>rtc_clk_fall\<close> (clock falls while selected) and \<open>rtc_deselect\<close> (enable rises).  The free variable
  \<open>host_cycle\<close> of the source is the argument \<open>now\<close>.  The calls of \<open>periph_event\<close> only write a trace
  line and are left out, with the arguments (address, port latches) that nothing else uses.
\<close>

section \<open>State\<close>

record rtc =
  rtc_initialized :: bool
  prev_enb :: bool
  prev_clk :: bool
  rtc_active :: bool
  is_read :: bool
  rtc_cmd :: u8
  rtc_data :: u8
  cmd_bits :: u8
  data_bits :: u8
  read_shift :: u8
  data_line :: bool
  is_extended :: bool
  xp_addr_done :: bool
  xp_addr :: u8
  seconds_base :: u32
  seconds_base_cycle :: u64
  write_protect :: bool
  test_mode :: bool
  pram :: "u8 \<Rightarrow> u8"

definition CYCLES_PER_SECOND :: u64 where
  "CYCLES_PER_SECOND = 50000"

definition pram_reset_byte :: "u8 \<Rightarrow> u8" where
  "pram_reset_byte addr =
     (if addr = 0x02 then 0x4F else if addr = 0x03 then 0x48
      else if addr = 0x08 then 0x13 else if addr = 0x09 then 0x88
      else if addr = 0x0B then 0x4C else if addr = 0x0C then 0x4E
      else if addr = 0x0D then 0x75 else if addr = 0x0E then 0x4D
      else if addr = 0x0F then 0x63 else if addr = 0x10 then 0xA8 else 0)"

definition is_extended_cmd :: "u8 \<Rightarrow> bool" where
  "is_extended_cmd c \<longleftrightarrow> c AND 0x78 = 0x38"

definition is_pram_reg :: "u8 \<Rightarrow> bool" where
  "is_pram_reg reg \<longleftrightarrow> 8 \<le> reg \<and> reg \<le> 11 \<or> 16 \<le> reg"

definition xpram_addr_for :: "u8 \<Rightarrow> u8 \<Rightarrow> u8" where
  "xpram_addr_for c addr_byte = push_bit 5 (c AND 0x07) OR (drop_bit 2 addr_byte AND 0x1F)"

definition rtc_reset :: "u64 \<Rightarrow> rtc" where
  "rtc_reset now = \<lparr> rtc_initialized = False, prev_enb = True, prev_clk = False, rtc_active = False,
     is_read = False, rtc_cmd = 0, rtc_data = 0, cmd_bits = 0, data_bits = 0, read_shift = 0,
     data_line = True, is_extended = False, xp_addr_done = False, xp_addr = 0,
     seconds_base = 0, seconds_base_cycle = now, write_protect = False, test_mode = False,
     pram = pram_reset_byte \<rparr>"

section \<open>Registers\<close>

definition seconds_now :: "rtc \<Rightarrow> u64 \<Rightarrow> u32" where
  "seconds_now r now = seconds_base r + ucast ((now - seconds_base_cycle r) div CYCLES_PER_SECOND)"

definition cmd_reg :: "u8 \<Rightarrow> u8" where
  "cmd_reg c = drop_bit 2 c AND 0x1F"

definition read_byte_for_cmd :: "rtc \<Rightarrow> u8 \<Rightarrow> u64 \<Rightarrow> u8" where
  "read_byte_for_cmd r c now =
     (let sec = seconds_now r now; reg = cmd_reg c in
      if reg = 0 \<or> reg = 4 then ucast sec
      else if reg = 1 \<or> reg = 5 then ucast (drop_bit 8 sec)
      else if reg = 2 \<or> reg = 6 then ucast (drop_bit 16 sec)
      else if reg = 3 \<or> reg = 7 then ucast (drop_bit 24 sec)
      else if reg = 12 then (if test_mode r then 0x80 else 0)
      else if reg = 13 then (if write_protect r then 0x80 else 0)
      else if is_pram_reg reg then pram r reg else 0)"

text \<open>\<open>(sec & ~mask) | (v << (idx * 8))\<close> of \<open>write_byte_for_cmd\<close>.\<close>

definition set_seconds_byte :: "u32 \<Rightarrow> nat \<Rightarrow> u8 \<Rightarrow> u32" where
  "set_seconds_byte sec idx v =
     (sec AND NOT (push_bit (idx * 8) 0xFF)) OR push_bit (idx * 8) (ucast v)"

definition write_byte_for_cmd :: "u8 \<Rightarrow> u8 \<Rightarrow> u64 \<Rightarrow> rtc \<Rightarrow> rtc" where
  "write_byte_for_cmd c v now r =
     (let reg = cmd_reg c in
      if reg = 13 then r\<lparr> write_protect := v AND 0x80 \<noteq> 0 \<rparr>
      else if write_protect r then r
      else if reg = 12 then r\<lparr> test_mode := v AND 0x80 \<noteq> 0 \<rparr>
      else if reg < 8 then
        r\<lparr> seconds_base := set_seconds_byte (seconds_now r now) (unat (drop_bit 2 c AND 0x03)) v,
           seconds_base_cycle := now \<rparr>
      else if is_pram_reg reg then r\<lparr> pram := (pram r)(reg := v) \<rparr>
      else r)"

definition write_xpram :: "u8 \<Rightarrow> rtc \<Rightarrow> rtc" where
  "write_xpram v r = (if write_protect r then r else r\<lparr> pram := (pram r)(xp_addr r := v) \<rparr>)"

section \<open>The serial protocol\<close>

definition rtc_select :: "bool \<Rightarrow> rtc \<Rightarrow> rtc" where
  "rtc_select enb r =
     (if \<not> enb \<and> prev_enb r then
        r\<lparr> rtc_active := True, is_read := False, rtc_cmd := 0, rtc_data := 0, cmd_bits := 0,
           data_bits := 0, read_shift := 0, data_line := True, is_extended := False,
           xp_addr_done := False, xp_addr := 0 \<rparr>
      else r)"

text \<open>The pull-up: a released data line reads as one.\<close>

definition pull_up :: "bool \<Rightarrow> rtc \<Rightarrow> rtc" where
  "pull_up data_oe r = (if \<not> data_oe then r\<lparr> data_line := True \<rparr> else r)"

text \<open>The arm \<open>cmd_bits < 8\<close>: one command bit, and the decode at the eighth.\<close>

definition rtc_cmd_bit :: "u64 \<Rightarrow> bool \<Rightarrow> bool \<Rightarrow> rtc \<Rightarrow> rtc" where
  "rtc_cmd_bit now host_bit data_oe r0 =
     (let r = pull_up data_oe r0;
          r = r\<lparr> rtc_cmd := shift_in (rtc_cmd r) host_bit, cmd_bits := cmd_bits r + 1 \<rparr> in
      if cmd_bits r = 8 then
        let r = r\<lparr> is_read := rtc_cmd r AND 0x80 \<noteq> 0, is_extended := is_extended_cmd (rtc_cmd r) \<rparr> in
        if is_read r \<and> \<not> is_extended r
        then r\<lparr> read_shift := read_byte_for_cmd r (rtc_cmd r) now \<rparr> else r
      else r)"

text \<open>The arm of the second byte of an extended command, the address.\<close>

definition rtc_addr_bit :: "bool \<Rightarrow> bool \<Rightarrow> rtc \<Rightarrow> rtc" where
  "rtc_addr_bit host_bit data_oe r0 =
     (let r = pull_up data_oe r0;
          r = r\<lparr> rtc_data := shift_in (rtc_data r) host_bit, data_bits := data_bits r + 1 \<rparr> in
      if data_bits r = 8 then
        let r = r\<lparr> xp_addr := xpram_addr_for (rtc_cmd r) (rtc_data r), xp_addr_done := True \<rparr>;
            r = (if is_read r then r\<lparr> read_shift := pram r (xp_addr r) \<rparr> else r) in
        r\<lparr> rtc_data := 0, data_bits := 0 \<rparr>
      else r)"

definition rtc_read_bit :: "rtc \<Rightarrow> rtc" where
  "rtc_read_bit r =
     r\<lparr> data_line := read_shift r AND 0x80 \<noteq> 0, read_shift := push_bit 1 (read_shift r),
        data_bits := data_bits r + 1 \<rparr>"

definition rtc_write_bit :: "bool \<Rightarrow> bool \<Rightarrow> rtc \<Rightarrow> rtc" where
  "rtc_write_bit host_bit data_oe r0 =
     (let r = pull_up data_oe r0 in
      r\<lparr> rtc_data := shift_in (rtc_data r) host_bit, data_bits := data_bits r + 1 \<rparr>)"

definition rtc_clk_fall :: "u64 \<Rightarrow> bool \<Rightarrow> bool \<Rightarrow> bool \<Rightarrow> bool \<Rightarrow> rtc \<Rightarrow> rtc" where
  "rtc_clk_fall now enb clk cpu_data_bit data_oe r =
     (if rtc_active r \<and> \<not> enb \<and> \<not> clk \<and> prev_clk r then
        let host_bit = (if data_oe then cpu_data_bit else True) in
        if cmd_bits r < 8 then rtc_cmd_bit now host_bit data_oe r
        else if is_extended r \<and> \<not> xp_addr_done r \<and> data_bits r < 8 then rtc_addr_bit host_bit data_oe r
        else if is_read r \<and> \<not> data_oe \<and> data_bits r < 8 then rtc_read_bit r
        else if \<not> is_read r \<and> data_bits r < 8 then rtc_write_bit host_bit data_oe r
        else r
      else r)"

definition rtc_commit :: "u64 \<Rightarrow> rtc \<Rightarrow> rtc" where
  "rtc_commit now r =
     (if \<not> is_read r \<and> cmd_bits r = 8 \<and> data_bits r = 8 then
        if is_extended r \<and> xp_addr_done r then write_xpram (rtc_data r) r
        else if \<not> is_extended r then write_byte_for_cmd (rtc_cmd r) (rtc_data r) now r
        else r
      else r)"

definition rtc_deselect :: "u64 \<Rightarrow> bool \<Rightarrow> rtc \<Rightarrow> rtc" where
  "rtc_deselect now enb r =
     (if enb \<and> \<not> prev_enb r \<and> rtc_active r
      then (rtc_commit now r)\<lparr> rtc_active := False, data_line := True \<rparr> else r)"

definition rtc_sample :: "u64 \<Rightarrow> bool \<Rightarrow> bool \<Rightarrow> bool \<Rightarrow> bool \<Rightarrow> rtc \<Rightarrow> rtc" where
  "rtc_sample now enb clk cpu_data_bit data_oe r0 =
     (let r = (if rtc_initialized r0 then r0
               else r0\<lparr> rtc_initialized := True, prev_enb := enb, prev_clk := clk \<rparr>);
          r = rtc_select enb r;
          r = rtc_clk_fall now enb clk cpu_data_bit data_oe r;
          r = rtc_deselect now enb r in
      r\<lparr> prev_enb := enb, prev_clk := clk \<rparr>)"

end
