(* ===== verification/Via1.thy ===== *)
theory Via1
  imports Rtc_Sidechannel
begin

text \<open>
  The first versatile interface adapter of the ROM-boot harness: \<open>struct Via1\<close> and the \<open>via1_*\<close>
  functions of \<open>tb/tb_rom_boot.cpp\<close>, with the reset overlay, the ADB shift shadow, the two timers and
  the wiring to the clock chip (\<open>Rtc_Sidechannel\<close>).

  \<open>via_sys\<close> collects the process variables these functions share: the adapter, the clock chip, the
  overlay flag, the cycle counter and the timer prescaler.  Messages and trace lines are left out.
  The last section is the bit-banged transactions of the clock self test, which drive the chip
  through the port registers exactly as the ROM does.
\<close>

section \<open>State\<close>

record via1 =
  orb :: u8
  ora :: u8
  ddrb :: u8
  ddra :: u8
  t1cl :: u8
  t1ch :: u8
  t1ll :: u8
  t1lh :: u8
  t2cl :: u8
  t2ch :: u8
  sr :: u8
  acr :: u8
  pcr :: u8
  ifr :: u8
  ier :: u8
  t1_running :: bool
  t1_latch :: u16
  t1_counter :: u16
  t2_running :: bool
  t2_latch :: u16
  t2_counter :: u16
  adb_shift_in_progress :: bool
  adb_shift_complete_cyc :: u64
  adb_last_byte :: u8
  adb_transaction_id :: u32

definition initial_via1 :: via1 where
  "initial_via1 = \<lparr> orb = 0x80, ora = 0, ddrb = 0, ddra = 0, t1cl = 0, t1ch = 0, t1ll = 0, t1lh = 0,
     t2cl = 0, t2ch = 0, sr = 0xFF, acr = 0, pcr = 0, ifr = 0, ier = 0x80,
     t1_running = False, t1_latch = 0, t1_counter = 0, t2_running = False, t2_latch = 0,
     t2_counter = 0, adb_shift_in_progress = False, adb_shift_complete_cyc = 0,
     adb_last_byte = 0, adb_transaction_id = 0 \<rparr>"

record via_sys =
  via :: via1
  rtc_chip :: rtc
  overlay :: bool
  strict_overlay :: bool
  host_cycle :: u64
  via1_timer_div :: u64
  via1_timer_div_ctr :: u64

definition ADB_SHIFT_DELAY_CYCLES :: u64 where
  "ADB_SHIFT_DELAY_CYCLES = 200"

definition VIA1_TIMER_DIV_REALISTIC :: u64 where
  "VIA1_TIMER_DIV_REALISTIC = 128"

definition initial_via_sys :: via_sys where
  "initial_via_sys = \<lparr> via = initial_via1, rtc_chip = rtc_reset 0, overlay = True,
     strict_overlay = False, host_cycle = 0, via1_timer_div = VIA1_TIMER_DIV_REALISTIC,
     via1_timer_div_ctr = 0 \<rparr>"

section \<open>Ticks\<close>

definition via1_adb_tick :: "via_sys \<Rightarrow> via_sys" where
  "via1_adb_tick s =
     (if adb_shift_in_progress (via s) \<and> adb_shift_complete_cyc (via s) \<le> host_cycle s
      then s\<lparr> via := (via s)\<lparr> ifr := ifr (via s) OR 0x04, adb_shift_in_progress := False \<rparr> \<rparr>
      else s)"

definition set_t1_bytes :: "via1 \<Rightarrow> via1" where
  "set_t1_bytes v = v\<lparr> t1cl := ucast (t1_counter v AND 0xFF),
                      t1ch := ucast (drop_bit 8 (t1_counter v) AND 0xFF) \<rparr>"

definition set_t2_bytes :: "via1 \<Rightarrow> via1" where
  "set_t2_bytes v = v\<lparr> t2cl := ucast (t2_counter v AND 0xFF),
                      t2ch := ucast (drop_bit 8 (t2_counter v) AND 0xFF) \<rparr>"

text \<open>The Timer 1 and the Timer 2 block of \<open>via1_timer_tick\<close>.\<close>

definition t1_tick :: "via1 \<Rightarrow> via1" where
  "t1_tick v0 =
     (if t1_running v0 then
        let v = (if t1_counter v0 = 0 then v0\<lparr> t1_counter := 1 \<rparr> else v0);
            v = set_t1_bytes (v\<lparr> t1_counter := t1_counter v - 1 \<rparr>) in
        if t1_counter v = 0 then
          let v = v\<lparr> ifr := ifr v OR 0x40 \<rparr> in
          if acr v AND 0x40 \<noteq> 0
          then set_t1_bytes (v\<lparr> t1_counter := (if t1_latch v \<noteq> 0 then t1_latch v else 1) \<rparr>)
          else v\<lparr> t1_running := False \<rparr>
        else v
      else v0)"

definition t2_tick :: "via1 \<Rightarrow> via1" where
  "t2_tick v0 =
     (if t2_running v0 \<and> acr v0 AND 0x20 = 0 then
        let v = (if t2_counter v0 = 0 then v0\<lparr> t2_counter := 1 \<rparr> else v0);
            v = set_t2_bytes (v\<lparr> t2_counter := t2_counter v - 1 \<rparr>) in
        if t2_counter v = 0 then v\<lparr> ifr := ifr v OR 0x20, t2_running := False \<rparr> else v
      else v0)"

definition via1_timer_tick :: "via_sys \<Rightarrow> via_sys" where
  "via1_timer_tick s0 =
     (if \<not> t1_running (via s0) \<and> \<not> t2_running (via s0) then s0
      else
        let s = (if via1_timer_div s0 = 0 then s0\<lparr> via1_timer_div := 1 \<rparr> else s0);
            s = s\<lparr> via1_timer_div_ctr := via1_timer_div_ctr s + 1 \<rparr> in
        if via1_timer_div_ctr s mod via1_timer_div s \<noteq> 0 then s
        else s\<lparr> via := t2_tick (t1_tick (via s)) \<rparr>)"

section \<open>Ports and overlay\<close>

definition via1_input_a :: u8 where
  "via1_input_a = 0xC1"

definition via1_input_b :: "via_sys \<Rightarrow> u8" where
  "via1_input_b s = 0x08 OR (if data_line (rtc_chip s) then 0x01 else 0)"

definition via1_port_a_read :: "via_sys \<Rightarrow> u8" where
  "via1_port_a_read s = (ora (via s) AND ddra (via s)) OR (via1_input_a AND NOT (ddra (via s)))"

definition via1_overlay_active :: "via_sys \<Rightarrow> bool" where
  "via1_overlay_active s =
     (if ddrb (via s) AND 0x08 \<noteq> 0 then orb (via s) AND 0x08 \<noteq> 0 else True)"

definition via1_port_b_read :: "via_sys \<Rightarrow> u8" where
  "via1_port_b_read s =
     (let raw = (orb (via s) AND ddrb (via s)) OR (via1_input_b s AND NOT (ddrb (via s)));
          overlay_live = (if ddrb (via s) AND 0x08 \<noteq> 0 then orb (via s) AND 0x08 \<noteq> 0 else True) in
      (raw AND 0xF7) OR (if overlay_live then 0x08 else 0))"

definition via1_ca2_independent_irq :: "via1 \<Rightarrow> bool" where
  "via1_ca2_independent_irq v \<longleftrightarrow> pcr v AND 0x0A = 0x02"

definition via1_cb2_independent_irq :: "via1 \<Rightarrow> bool" where
  "via1_cb2_independent_irq v \<longleftrightarrow> pcr v AND 0xA0 = 0x20"

definition via1_clear_pa_handshake :: "via1 \<Rightarrow> via1" where
  "via1_clear_pa_handshake v =
     v\<lparr> ifr := ifr v AND NOT (0x02 OR (if via1_ca2_independent_irq v then 0 else 0x01)) \<rparr>"

definition via1_clear_pb_handshake :: "via1 \<Rightarrow> via1" where
  "via1_clear_pb_handshake v =
     v\<lparr> ifr := ifr v AND NOT (0x10 OR (if via1_cb2_independent_irq v then 0 else 0x08)) \<rparr>"

definition via1_update_overlay :: "via_sys \<Rightarrow> via_sys" where
  "via1_update_overlay s = s\<lparr> overlay := overlay s \<and> via1_overlay_active s \<rparr>"

definition is_high_rom_fetch :: "u32 \<Rightarrow> bool" where
  "is_high_rom_fetch a \<longleftrightarrow> 0x40000000 \<le> a \<and> a < 0x50000000"

definition maybe_clear_overlay_from_high_rom_fetch :: "u32 \<Rightarrow> via_sys \<Rightarrow> via_sys" where
  "maybe_clear_overlay_from_high_rom_fetch addr s =
     (if strict_overlay s then s
      else if \<not> overlay s \<or> \<not> is_high_rom_fetch addr then s
      else s\<lparr> overlay := False \<rparr>)"

section \<open>Registers\<close>

text \<open>The interrupt flag register as read: bit 7 summarises the enabled pending flags.\<close>

definition ifr_read :: "via1 \<Rightarrow> u8" where
  "ifr_read v = (ifr v AND 0x7F) OR (if ifr v AND ier v AND 0x7F \<noteq> 0 then 0x80 else 0)"

definition map_via :: "(via1 \<Rightarrow> via1) \<Rightarrow> via_sys \<Rightarrow> via_sys" where
  "map_via f s = s\<lparr> via := f (via s) \<rparr>"

definition clear_ifr :: "u8 \<Rightarrow> via1 \<Rightarrow> via1" where
  "clear_ifr m v = v\<lparr> ifr := ifr v AND NOT m \<rparr>"

definition via1_read_reg :: "u8 \<Rightarrow> via_sys \<Rightarrow> u8 \<times> via_sys" where
  "via1_read_reg idx s =
     (if idx = 0 then (via1_port_b_read s, map_via via1_clear_pb_handshake s)
      else if idx = 1 then (via1_port_a_read s, map_via via1_clear_pa_handshake s)
      else if idx = 2 then (ddrb (via s), s)
      else if idx = 3 then (ddra (via s), s)
      else if idx = 4 then (t1cl (via s), map_via (clear_ifr 0x40) s)
      else if idx = 5 then (t1ch (via s), s)
      else if idx = 6 then (t1ll (via s), s)
      else if idx = 7 then (t1lh (via s), s)
      else if idx = 8 then (t2cl (via s), map_via (clear_ifr 0x20) s)
      else if idx = 9 then (t2ch (via s), s)
      else if idx = 10 then (0xFF, map_via (clear_ifr 0x04) s)
      else if idx = 11 then (acr (via s), s)
      else if idx = 12 then (pcr (via s), s)
      else if idx = 13 then (ifr_read (via s), s)
      else if idx = 14 then (ier (via s), s)
      else if idx = 15 then (via1_port_a_read s, s)
      else (0, s))"

definition latch_low :: "u16 \<Rightarrow> u8 \<Rightarrow> u16" where
  "latch_low l v = (l AND 0xFF00) OR ucast v"

definition latch_high :: "u16 \<Rightarrow> u8 \<Rightarrow> u16" where
  "latch_high l v = push_bit 8 (ucast v) OR (l AND 0x00FF)"

text \<open>The arms of \<open>via1_write_reg\<close> that do more than store a byte.\<close>

definition write_t1ch :: "u8 \<Rightarrow> via1 \<Rightarrow> via1" where
  "write_t1ch v a =
     (let l = latch_high (t1_latch a) v in
      a\<lparr> t1ch := v, t1_latch := l, ifr := ifr a AND NOT 0x40,
         t1_counter := (if l \<noteq> 0 then l else 1), t1_running := True \<rparr>)"

definition write_t2ch :: "u8 \<Rightarrow> via1 \<Rightarrow> via1" where
  "write_t2ch v a =
     (let l = latch_high (t2_latch a) v in
      a\<lparr> t2ch := v, t2_latch := l, ifr := ifr a AND NOT 0x20,
         t2_counter := (if l \<noteq> 0 then l else 1), t2_running := True \<rparr>)"

definition write_sr :: "u8 \<Rightarrow> u64 \<Rightarrow> via1 \<Rightarrow> via1" where
  "write_sr v now a =
     a\<lparr> sr := v, adb_last_byte := v, adb_transaction_id := adb_transaction_id a + 1,
        adb_shift_in_progress := True, adb_shift_complete_cyc := now + ADB_SHIFT_DELAY_CYCLES,
        ifr := ifr a AND NOT 0x04 \<rparr>"

definition write_ier :: "u8 \<Rightarrow> via1 \<Rightarrow> via1" where
  "write_ier v a =
     a\<lparr> ier := (if v AND 0x80 \<noteq> 0 then ier a OR (v AND 0x7F) else ier a AND NOT (v AND 0x7F)) OR 0x80 \<rparr>"

definition via1_write_reg :: "u8 \<Rightarrow> u8 \<Rightarrow> via_sys \<Rightarrow> via_sys" where
  "via1_write_reg idx v s =
     (if idx = 0 then
        via1_update_overlay (map_via (\<lambda>a. via1_clear_pb_handshake (a\<lparr> orb := v \<rparr>)) s)
      else if idx = 1 then map_via (\<lambda>a. via1_clear_pa_handshake (a\<lparr> ora := v \<rparr>)) s
      else if idx = 2 then via1_update_overlay (map_via (\<lambda>a. a\<lparr> ddrb := v \<rparr>) s)
      else if idx = 3 then map_via (\<lambda>a. a\<lparr> ddra := v \<rparr>) s
      else if idx = 4 then map_via (\<lambda>a. a\<lparr> t1cl := v, t1_latch := latch_low (t1_latch a) v \<rparr>) s
      else if idx = 5 then map_via (write_t1ch v) s
      else if idx = 6 then map_via (\<lambda>a. a\<lparr> t1ll := v, t1_latch := latch_low (t1_latch a) v \<rparr>) s
      else if idx = 7 then
        map_via (\<lambda>a. clear_ifr 0x40 (a\<lparr> t1lh := v, t1_latch := latch_high (t1_latch a) v \<rparr>)) s
      else if idx = 8 then map_via (\<lambda>a. a\<lparr> t2cl := v, t2_latch := latch_low (t2_latch a) v \<rparr>) s
      else if idx = 9 then map_via (write_t2ch v) s
      else if idx = 10 then map_via (write_sr v (host_cycle s)) s
      else if idx = 11 then map_via (\<lambda>a. a\<lparr> acr := v \<rparr>) s
      else if idx = 12 then map_via (\<lambda>a. a\<lparr> pcr := v \<rparr>) s
      else if idx = 13 then map_via (clear_ifr (v AND 0x7F)) s
      else if idx = 14 then map_via (write_ier v) s
      else if idx = 15 then map_via (\<lambda>a. a\<lparr> ora := v \<rparr>) s
      else s)"

section \<open>Wiring to the clock chip\<close>

definition via1_update_rtc_pins :: "via_sys \<Rightarrow> via_sys" where
  "via1_update_rtc_pins s =
     (let v = via s;
          enb = (if ddrb v AND 0x04 \<noteq> 0 then orb v AND 0x04 \<noteq> 0 else True);
          clk = (if ddrb v AND 0x02 \<noteq> 0 then orb v AND 0x02 \<noteq> 0 else False);
          data_oe = (ddrb v AND 0x01 \<noteq> 0);
          data_bit = (orb v AND 0x01 \<noteq> 0) in
      s\<lparr> rtc_chip := rtc_sample (host_cycle s) enb clk data_bit data_oe (rtc_chip s) \<rparr>)"

text \<open>
  A processor write to VIA1: the register, then the chip pins when port B or its direction changed.
  \<open>rtc_selftest_write_via1\<close> and the VIA1 arm of \<open>io_write32\<close> both have this form.
\<close>

definition rtc_selftest_write_via1 :: "u8 \<Rightarrow> u8 \<Rightarrow> via_sys \<Rightarrow> via_sys" where
  "rtc_selftest_write_via1 idx v s =
     (let s = via1_write_reg idx v s in
      if idx = 0 \<or> idx = 2 then via1_update_rtc_pins s else s)"

section \<open>Bit-banged clock transactions\<close>

definition rtc_selftest_set_pins :: "bool \<Rightarrow> bool \<Rightarrow> bool \<Rightarrow> bool \<Rightarrow> via_sys \<Rightarrow> via_sys" where
  "rtc_selftest_set_pins enb clk data data_oe s =
     rtc_selftest_write_via1 0 ((if enb then 0x04 else 0) OR (if clk then 0x02 else 0) OR
                                (if data then 0x01 else 0))
       (rtc_selftest_write_via1 2 (0x06 OR (if data_oe then 0x01 else 0)) s)"

definition rtc_selftest_shift_in_bit :: "bool \<Rightarrow> via_sys \<Rightarrow> via_sys" where
  "rtc_selftest_shift_in_bit b s =
     rtc_selftest_set_pins False False b True (rtc_selftest_set_pins False True b True s)"

definition rtc_selftest_shift_in_pullup_one :: "bool \<Rightarrow> via_sys \<Rightarrow> via_sys" where
  "rtc_selftest_shift_in_pullup_one b s =
     rtc_selftest_set_pins False False False (\<not> b) (rtc_selftest_set_pins False True False (\<not> b) s)"

definition rtc_selftest_shift_out_bit :: "via_sys \<Rightarrow> bool \<times> via_sys" where
  "rtc_selftest_shift_out_bit s =
     (case via1_read_reg 0 (rtc_selftest_set_pins False False False False
             (rtc_selftest_set_pins False True False False s)) of
        (v, s') \<Rightarrow> (v AND 0x01 \<noteq> 0, s'))"

text \<open>\<open>for (int i = 7; i >= 0; i--) shift(((w >> i) & 1) != 0)\<close>, for either way of driving a bit.\<close>

fun shift_in_byte :: "(bool \<Rightarrow> via_sys \<Rightarrow> via_sys) \<Rightarrow> nat \<Rightarrow> u8 \<Rightarrow> via_sys \<Rightarrow> via_sys" where
  "shift_in_byte shift 0 w s = s"
| "shift_in_byte shift (Suc i) w s = shift_in_byte shift i w (shift (drop_bit i w AND 1 \<noteq> 0) s)"

fun shift_out_byte :: "nat \<Rightarrow> u8 \<Rightarrow> via_sys \<Rightarrow> u8 \<times> via_sys" where
  "shift_out_byte 0 out s = (out, s)"
| "shift_out_byte (Suc n) out s =
     (case rtc_selftest_shift_out_bit s of (b, s') \<Rightarrow> shift_out_byte n (shift_in out b) s')"

text \<open>The data half of every transaction, chosen by the read bit of the command.\<close>

definition data_half :: "(bool \<Rightarrow> via_sys \<Rightarrow> via_sys) \<Rightarrow> u8 \<Rightarrow> u8 \<Rightarrow> via_sys \<Rightarrow> u8 \<times> via_sys" where
  "data_half shift cmd data_byte s =
     (if cmd AND 0x80 \<noteq> 0 then shift_out_byte 8 0 s
      else (0, shift_in_byte shift 8 data_byte s))"

definition finish_transaction :: "u8 \<times> via_sys \<Rightarrow> u8 \<times> via_sys" where
  "finish_transaction os = (fst os, rtc_selftest_set_pins True False False False (snd os))"

definition rtc_transaction ::
  "(bool \<Rightarrow> via_sys \<Rightarrow> via_sys) \<Rightarrow> u8 \<Rightarrow> u8 \<Rightarrow> via_sys \<Rightarrow> u8 \<times> via_sys" where
  "rtc_transaction shift cmd data_byte s =
     finish_transaction (data_half shift cmd data_byte
       (shift_in_byte shift 8 cmd (rtc_selftest_set_pins False False False True s)))"

definition rtc_xpram_transaction ::
  "(bool \<Rightarrow> via_sys \<Rightarrow> via_sys) \<Rightarrow> u8 \<Rightarrow> u8 \<Rightarrow> u8 \<Rightarrow> via_sys \<Rightarrow> u8 \<times> via_sys" where
  "rtc_xpram_transaction shift cmd addr_byte data_byte s =
     finish_transaction (data_half shift cmd data_byte
       (shift_in_byte shift 8 addr_byte
         (shift_in_byte shift 8 cmd (rtc_selftest_set_pins False False False True s))))"

definition rtc_selftest_transaction :: "u8 \<Rightarrow> u8 \<Rightarrow> via_sys \<Rightarrow> u8 \<times> via_sys" where
  "rtc_selftest_transaction = rtc_transaction rtc_selftest_shift_in_bit"

definition rtc_selftest_xpram_transaction :: "u8 \<Rightarrow> u8 \<Rightarrow> u8 \<Rightarrow> via_sys \<Rightarrow> u8 \<times> via_sys" where
  "rtc_selftest_xpram_transaction = rtc_xpram_transaction rtc_selftest_shift_in_bit"

definition rtc_selftest_transaction_pullup_ones :: "u8 \<Rightarrow> u8 \<Rightarrow> via_sys \<Rightarrow> u8 \<times> via_sys" where
  "rtc_selftest_transaction_pullup_ones = rtc_transaction rtc_selftest_shift_in_pullup_one"

definition rtc_selftest_xpram_transaction_pullup_ones ::
  "u8 \<Rightarrow> u8 \<Rightarrow> u8 \<Rightarrow> via_sys \<Rightarrow> u8 \<times> via_sys" where
  "rtc_selftest_xpram_transaction_pullup_ones =
     rtc_xpram_transaction rtc_selftest_shift_in_pullup_one"

definition rtc_selftest_xpram_cmd :: "u8 \<Rightarrow> bool \<Rightarrow> u8" where
  "rtc_selftest_xpram_cmd addr read =
     (if read then 0x80 else 0) OR 0x38 OR (drop_bit 5 addr AND 0x07)"

definition rtc_selftest_xpram_addr_byte :: "u8 \<Rightarrow> u8" where
  "rtc_selftest_xpram_addr_byte addr = push_bit 2 (addr AND 0x1F) OR 0x01"

definition rtc_selftest_xpram_read :: "u8 \<Rightarrow> via_sys \<Rightarrow> u8 \<times> via_sys" where
  "rtc_selftest_xpram_read addr s =
     rtc_selftest_xpram_transaction (rtc_selftest_xpram_cmd addr True)
       (rtc_selftest_xpram_addr_byte addr) 0 s"

definition rtc_selftest_xpram_write :: "u8 \<Rightarrow> u8 \<Rightarrow> via_sys \<Rightarrow> via_sys" where
  "rtc_selftest_xpram_write addr value s =
     snd (rtc_selftest_xpram_transaction (rtc_selftest_xpram_cmd addr False)
       (rtc_selftest_xpram_addr_byte addr) value s)"

definition rtc_selftest_read_seconds :: "via_sys \<Rightarrow> u32 \<times> via_sys" where
  "rtc_selftest_read_seconds s =
     (case rtc_selftest_transaction 0x81 0 s of (b0, s) \<Rightarrow>
      case rtc_selftest_transaction 0x85 0 s of (b1, s) \<Rightarrow>
      case rtc_selftest_transaction 0x89 0 s of (b2, s) \<Rightarrow>
      case rtc_selftest_transaction 0x8D 0 s of (b3, s) \<Rightarrow>
        (be_word b3 b2 b1 b0, s))"

section \<open>One simulated cycle\<close>

text \<open>What \<open>tick\<close> does besides clocking the design: count the cycle and run the two device ticks.\<close>

definition via_cycle :: "via_sys \<Rightarrow> via_sys" where
  "via_cycle s = via1_timer_tick (via1_adb_tick (s\<lparr> host_cycle := host_cycle s + 1 \<rparr>))"

section \<open>Self tests\<close>

text \<open>
  \<open>run_rtc_sidechannel_selftest\<close>: the script of the clock self test and its verdict.  Where the source
  passes by an idle line that is not high it returns false at once; the event log is left out.
\<close>

definition rtc_selftest_advance :: "u64 \<Rightarrow> via_sys \<Rightarrow> via_sys" where
  "rtc_selftest_advance n s = s\<lparr> host_cycle := host_cycle s + n \<rparr>"

definition rtc_selftest_do :: "u8 \<Rightarrow> u8 \<Rightarrow> via_sys \<Rightarrow> via_sys" where
  "rtc_selftest_do cmd d s = snd (rtc_selftest_transaction cmd d s)"

definition rtc_selftest_start :: "via_sys \<Rightarrow> via_sys" where
  "rtc_selftest_start s =
     rtc_selftest_set_pins True False False False
       (s\<lparr> via := initial_via1, rtc_chip := rtc_reset 0, overlay := True, host_cycle := 0 \<rparr>)"

definition run_rtc_sidechannel_selftest :: "via_sys \<Rightarrow> bool" where
  "run_rtc_sidechannel_selftest s0 =
     (let s = rtc_selftest_start s0;
          (pb, s) = via1_read_reg 0 s in
      if pb AND 1 \<noteq> 1 then False
      else
        let s = rtc_selftest_do 0x20 0x5A s;
            (pram8, s) = rtc_selftest_transaction 0xA0 0 s;
            (pram9_default, s) = rtc_selftest_transaction 0xA4 0 s;
            s = rtc_selftest_xpram_write 0x42 0xA6 s;
            (xpram42, s) = rtc_selftest_xpram_read 0x42 s;
            s = snd (rtc_selftest_transaction_pullup_ones 0x40 0x5C s);
            (pram16_pullup, s) = rtc_selftest_transaction_pullup_ones 0xC0 0 s;
            s = snd (rtc_selftest_xpram_transaction_pullup_ones (rtc_selftest_xpram_cmd 0x44 False)
                      (rtc_selftest_xpram_addr_byte 0x44) 0x96 s);
            (xpram44_pullup, s) =
              rtc_selftest_xpram_transaction_pullup_ones (rtc_selftest_xpram_cmd 0x44 True)
                (rtc_selftest_xpram_addr_byte 0x44) 0 s;
            s = rtc_selftest_do 0x34 0x80 s;
            s = rtc_selftest_xpram_write 0x42 0x19 s;
            (xpram42_protected, s) = rtc_selftest_xpram_read 0x42 s;
            s = rtc_selftest_do 0x37 0x00 s;
            s = rtc_selftest_do 0x01 0x04 s;
            s = rtc_selftest_do 0x05 0x03 s;
            s = rtc_selftest_do 0x09 0x02 s;
            s = rtc_selftest_do 0x0D 0x01 s;
            (sec0, s) = rtc_selftest_read_seconds s;
            s = rtc_selftest_advance (CYCLES_PER_SECOND * 2) s;
            (sec2, s) = rtc_selftest_read_seconds s;
            (sec_before_test, s) = rtc_selftest_read_seconds s;
            s = rtc_selftest_do 0x31 0x80 s;
            (test_mode, s) = rtc_selftest_transaction 0xB1 0 s;
            s = rtc_selftest_advance CYCLES_PER_SECOND s;
            (sec_after_test, s) = rtc_selftest_read_seconds s;
            s = rtc_selftest_do 0x31 0x00 s in
        pram8 = 0x5A \<and> pram9_default = 0x88 \<and> xpram42 = 0xA6 \<and> pram16_pullup = 0x5C \<and>
        xpram44_pullup = 0x96 \<and> xpram42_protected = 0xA6 \<and> sec0 = 0x01020304 \<and>
        sec2 = 0x01020306 \<and> test_mode = 0x80 \<and> sec_before_test + 1 = sec_after_test)"

text \<open>
  \<open>run_via1_t1_selftest\<close>: the adapter is reset, then its fields are set directly and its registers
  exercised.  \<open>set_flags\<close> is \<open>via1.ifr |= m\<close>.
\<close>

definition set_flags :: "u8 \<Rightarrow> via1 \<Rightarrow> via1" where
  "set_flags m a = a\<lparr> ifr := ifr a OR m \<rparr>"

fun timer_ticks :: "nat \<Rightarrow> via_sys \<Rightarrow> via_sys" where
  "timer_ticks 0 s = s"
| "timer_ticks (Suc n) s = timer_ticks n (via1_timer_tick s)"

definition run_via1_t1_selftest :: "via_sys \<Rightarrow> bool" where
  "run_via1_t1_selftest s0 =
     (let s = s0\<lparr> via := initial_via1, overlay := True, rtc_chip := rtc_reset (host_cycle s0) \<rparr>;
          (pb, s) = via1_read_reg 0 s;
          ok_orb_mux_reset = (pb AND 0xE8 = 0x08);
          ok_overlay_reset = via1_overlay_active s;
          s = via1_write_reg 0 0x00 s;
          ok_overlay_ddr_gated = via1_overlay_active s;
          s = via1_write_reg 2 0x08 s;
          ok_overlay_clear = (\<not> overlay s \<and> \<not> via1_overlay_active s);
          s = map_via (\<lambda>a. a\<lparr> ifr := 0, ier := 0x80, acr := 0, t1_latch := 0, t1_counter := 0,
                t1_running := False, t2_latch := 0, t2_counter := 0, t2_running := False \<rparr>) s;
          s = s\<lparr> via1_timer_div := 1, via1_timer_div_ctr := 0 \<rparr>;
          s = via1_write_reg 5 0x00 (via1_write_reg 4 0x04 s);
          s = timer_ticks 4 s;
          ok_oneshot = (ifr (via s) AND 0x40 \<noteq> 0);
          s = snd (via1_read_reg 4 s);
          ok_t1cl_ack = (ifr (via s) AND 0x40 = 0);
          s = snd (via1_read_reg 1 (map_via (set_flags 0x02) s));
          ok_ora_ack = (ifr (via s) AND 0x02 = 0);
          s = map_via (\<lambda>a. clear_ifr 0x40 (a\<lparr> acr := acr a OR 0x40 \<rparr>)) s;
          s = via1_write_reg 5 0x00 (via1_write_reg 4 0x02 s);
          s = timer_ticks 2 s;
          ok_freerun = (ifr (via s) AND 0x40 \<noteq> 0 \<and> t1_running (via s) \<and> t1_counter (via s) \<noteq> 0);
          s = map_via (\<lambda>a. clear_ifr 0x20 (a\<lparr> acr := acr a AND NOT 0x20 \<rparr>)) s;
          s = via1_write_reg 9 0x00 (via1_write_reg 8 0x03 s);
          s = timer_ticks 3 s;
          ok_t2 = (ifr (via s) AND 0x20 \<noteq> 0 \<and> \<not> t2_running (via s));
          s = snd (via1_read_reg 8 s);
          ok_t2cl_ack = (ifr (via s) AND 0x20 = 0);
          s = map_via (\<lambda>a. set_flags 0x20 (a\<lparr> ier := 0x80 \<rparr>)) s;
          ok_ifr_summary_masked = (fst (via1_read_reg 13 s) AND 0x80 = 0);
          s = via1_write_reg 14 0xA0 s;
          ok_ifr_summary_enabled = (fst (via1_read_reg 13 s) AND 0x80 \<noteq> 0) in
      ok_orb_mux_reset \<and> ok_overlay_reset \<and> ok_overlay_ddr_gated \<and> ok_overlay_clear \<and>
      ok_oneshot \<and> ok_t1cl_ack \<and> ok_ora_ack \<and> ok_freerun \<and> ok_t2 \<and> ok_t2cl_ack \<and>
      ok_ifr_summary_masked \<and> ok_ifr_summary_enabled)"

end
