(* ===== verification/Via1_Props.thy ===== *)
theory Via1_Props
  imports Via1
begin

unbundle bit_operations_syntax

text \<open>
  Properties of the first adapter and of the clock chip behind it.

  The first half shows that a bit-banged transaction over the port pins is one register access of the
  chip.  \<open>bit_driver\<close> is the contract of a way to put a bit on the wires; its lemmas carry a command,
  an address and a data byte through the pins once, for any driver, and the two drivers of the source
  interpret it.  \<open>rtc_store\<close> is what the chip keeps between transactions, the abstract state of the
  refinement.  The second half is the adapter itself: flags, timers, the shift shadow and the overlay.
\<close>

section \<open>Samples of the chip\<close>

lemma sample_still [simp]:
  "rtc_initialized r \<Longrightarrow> prev_enb r = enb \<Longrightarrow> prev_clk r = clk \<Longrightarrow> rtc_sample now enb clk d oe r = r"
  by (cases enb) (simp_all add: rtc_sample_def Let_def rtc_select_def rtc_clk_fall_def rtc_deselect_def)

lemma sample_select:
  "rtc_initialized r \<Longrightarrow> prev_enb r \<Longrightarrow> \<not> prev_clk r \<Longrightarrow>
   rtc_sample now False False d oe r = (rtc_select False r)\<lparr> prev_enb := False, prev_clk := False \<rparr>"
  by (simp add: rtc_sample_def Let_def rtc_select_def rtc_clk_fall_def rtc_deselect_def)

lemma sample_rise:
  "rtc_initialized r \<Longrightarrow> \<not> prev_enb r \<Longrightarrow>
   rtc_sample now False True d oe r = r\<lparr> prev_clk := True \<rparr>"
  by (cases r) (simp add: rtc_sample_def Let_def rtc_select_def rtc_clk_fall_def rtc_deselect_def)

lemma sample_deselect:
  "rtc_initialized r \<Longrightarrow> \<not> prev_enb r \<Longrightarrow> \<not> prev_clk r \<Longrightarrow> rtc_active r \<Longrightarrow>
   rtc_sample now True False d oe r =
     (rtc_commit now r)\<lparr> rtc_active := False, data_line := True, prev_enb := True, prev_clk := False \<rparr>"
  by (simp add: rtc_sample_def Let_def rtc_select_def rtc_clk_fall_def rtc_deselect_def)

text \<open>A falling clock edge while selected, without the edge detector.\<close>

definition rtc_edge :: "u64 \<Rightarrow> bool \<Rightarrow> bool \<Rightarrow> rtc \<Rightarrow> rtc" where
  "rtc_edge now cpu_data_bit data_oe r =
     (let host_bit = (if data_oe then cpu_data_bit else True) in
      if cmd_bits r < 8 then rtc_cmd_bit now host_bit data_oe r
      else if is_extended r \<and> \<not> xp_addr_done r \<and> data_bits r < 8 then rtc_addr_bit host_bit data_oe r
      else if is_read r \<and> \<not> data_oe \<and> data_bits r < 8 then rtc_read_bit r
      else if \<not> is_read r \<and> data_bits r < 8 then rtc_write_bit host_bit data_oe r
      else r)"

text \<open>What the chip stores between transactions.\<close>

definition rtc_store :: "rtc \<Rightarrow> u32 \<times> u64 \<times> bool \<times> bool \<times> (u8 \<Rightarrow> u8)" where
  "rtc_store r = (seconds_base r, seconds_base_cycle r, write_protect r, test_mode r, pram r)"

lemma read_byte_store: "rtc_store r = rtc_store r' \<Longrightarrow> read_byte_for_cmd r = read_byte_for_cmd r'"
  by (intro ext) (simp add: rtc_store_def read_byte_for_cmd_def seconds_now_def Let_def)

lemma read_byte_updates [simp]:
  "read_byte_for_cmd (r\<lparr> prev_clk := b \<rparr>) = read_byte_for_cmd r"
  "read_byte_for_cmd (r\<lparr> data_line := b \<rparr>) = read_byte_for_cmd r"
  "read_byte_for_cmd (r\<lparr> is_read := b \<rparr>) = read_byte_for_cmd r"
  "read_byte_for_cmd (r\<lparr> is_extended := b \<rparr>) = read_byte_for_cmd r"
  "read_byte_for_cmd (r\<lparr> rtc_cmd := w \<rparr>) = read_byte_for_cmd r"
  "read_byte_for_cmd (r\<lparr> cmd_bits := w \<rparr>) = read_byte_for_cmd r"
  by (rule read_byte_store, simp add: rtc_store_def)+

lemma pull_up_prev_clk [simp]: "pull_up oe (r\<lparr> prev_clk := c \<rparr>) = (pull_up oe r)\<lparr> prev_clk := c \<rparr>"
  by (simp add: pull_up_def)

lemma pull_up_fields [simp]:
  "rtc_cmd (pull_up oe r) = rtc_cmd r" "cmd_bits (pull_up oe r) = cmd_bits r"
  "rtc_data (pull_up oe r) = rtc_data r" "data_bits (pull_up oe r) = data_bits r"
  "is_read (pull_up oe r) = is_read r" "pram (pull_up oe r) = pram r"
  "rtc_initialized (pull_up oe r) = rtc_initialized r" "prev_enb (pull_up oe r) = prev_enb r"
  "prev_clk (pull_up oe r) = prev_clk r" "rtc_active (pull_up oe r) = rtc_active r"
  "read_byte_for_cmd (pull_up oe r) = read_byte_for_cmd r"
  by (simp_all add: pull_up_def)

lemma rtc_cmd_bit_prev_clk [simp]:
  "rtc_cmd_bit now b oe (r\<lparr> prev_clk := c \<rparr>) = (rtc_cmd_bit now b oe r)\<lparr> prev_clk := c \<rparr>"
  by (simp add: rtc_cmd_bit_def Let_def)

lemma rtc_addr_bit_prev_clk [simp]:
  "rtc_addr_bit b oe (r\<lparr> prev_clk := c \<rparr>) = (rtc_addr_bit b oe r)\<lparr> prev_clk := c \<rparr>"
  by (simp add: rtc_addr_bit_def Let_def)

lemma rtc_rw_bit_prev_clk [simp]:
  "rtc_read_bit (r\<lparr> prev_clk := c \<rparr>) = (rtc_read_bit r)\<lparr> prev_clk := c \<rparr>"
  "rtc_write_bit b oe (r\<lparr> prev_clk := c \<rparr>) = (rtc_write_bit b oe r)\<lparr> prev_clk := c \<rparr>"
  by (simp_all add: rtc_read_bit_def rtc_write_bit_def Let_def)

lemma rtc_edge_prev_clk [simp]:
  "rtc_edge now b oe (r\<lparr> prev_clk := c \<rparr>) = (rtc_edge now b oe r)\<lparr> prev_clk := c \<rparr>"
  by (simp add: rtc_edge_def Let_def)

lemma rtc_edge_frame [simp]:
  "rtc_initialized (rtc_edge now b oe r) = rtc_initialized r"
  "prev_enb (rtc_edge now b oe r) = prev_enb r"
  "prev_clk (rtc_edge now b oe r) = prev_clk r"
  "rtc_active (rtc_edge now b oe r) = rtc_active r"
  by (simp_all add: rtc_edge_def rtc_cmd_bit_def rtc_addr_bit_def rtc_read_bit_def rtc_write_bit_def Let_def)

lemma sample_fall:
  assumes "rtc_initialized r" "\<not> prev_enb r" "prev_clk r" "rtc_active r"
  shows "rtc_sample now False False d oe r = (rtc_edge now d oe r)\<lparr> prev_clk := False \<rparr>"
proof -
  have "rtc_clk_fall now False False d oe r = rtc_edge now d oe r"
    using assms by (simp add: rtc_clk_fall_def rtc_edge_def)
  then show ?thesis
    using assms by (simp add: rtc_sample_def Let_def rtc_select_def rtc_deselect_def)
qed

section \<open>Driving the pins\<close>

definition port_pins :: "bool \<Rightarrow> bool \<Rightarrow> bool \<Rightarrow> u8" where
  "port_pins enb clk data = (if enb then 0x04 else 0) OR (if clk then 0x02 else 0) OR (if data then 0x01 else 0)"

lemma port_pins_bits [simp]:
  "(port_pins enb clk data AND 0x04 = 0) = (\<not> enb)"
  "(port_pins enb clk data AND 0x02 = 0) = (\<not> clk)"
  "bit (port_pins enb clk data) 0 = data"
  by (cases enb; cases clk; cases data; simp add: port_pins_def)+

lemma set_pins_eq:
  fixes s defines "p \<equiv> via s"
  defines "now \<equiv> host_cycle s"
  shows "rtc_selftest_set_pins enb clk d oe s =
     s\<lparr> via := via1_clear_pb_handshake (p\<lparr> ddrb := 0x06 OR (if oe then 0x01 else 0), orb := port_pins enb clk d \<rparr>),
        rtc_chip := rtc_sample now enb clk d oe
          (rtc_sample now (orb p AND 0x04 \<noteq> 0) (orb p AND 0x02 \<noteq> 0) (orb p AND 0x01 \<noteq> 0) oe (rtc_chip s)) \<rparr>"
  unfolding p_def now_def
  by (cases oe)
     (simp_all add: rtc_selftest_set_pins_def rtc_selftest_write_via1_def via1_write_reg_def
      via1_update_rtc_pins_def via1_update_overlay_def via1_overlay_active_def map_via_def
      via1_clear_pb_handshake_def Let_def port_pins_def [symmetric] via1_cb2_independent_irq_def)


definition rtc_selected :: "via_sys \<Rightarrow> bool" where
  "rtc_selected s \<longleftrightarrow> rtc_initialized (rtc_chip s) \<and> \<not> prev_enb (rtc_chip s) \<and> \<not> prev_clk (rtc_chip s) \<and>
     rtc_active (rtc_chip s) \<and> orb (via s) AND 0x04 = 0 \<and> orb (via s) AND 0x02 = 0"

definition rtc_idle :: "via_sys \<Rightarrow> bool" where
  "rtc_idle s \<longleftrightarrow> rtc_initialized (rtc_chip s) \<and> prev_enb (rtc_chip s) \<and> \<not> prev_clk (rtc_chip s) \<and>
     orb (via s) AND 0x04 \<noteq> 0 \<and> orb (via s) AND 0x02 = 0"

lemma clear_pb_orb [simp]:
  "orb (via1_clear_pb_handshake v) = orb v" "ddrb (via1_clear_pb_handshake v) = ddrb v"
  by (simp_all add: via1_clear_pb_handshake_def)

lemma clock_pulse:
  fixes s b oe
  assumes "rtc_selected s"
  defines "s' \<equiv> rtc_selftest_set_pins False False b oe (rtc_selftest_set_pins False True b oe s)"
  shows "rtc_chip s' = rtc_edge (host_cycle s) b oe (rtc_chip s)"
    and "rtc_selected s'" and "host_cycle s' = host_cycle s" and "overlay s' = overlay s"
    and "ddrb (via s') = 0x06 OR (if oe then 0x01 else 0)"
proof -
  let ?r = "rtc_chip s"
  have r: "rtc_initialized ?r" "\<not> prev_enb ?r" "\<not> prev_clk ?r" "rtc_active ?r"
    and pins: "orb (via s) AND 0x04 = 0" "orb (via s) AND 0x02 = 0"
    using assms(1) by (simp_all add: rtc_selected_def)
  have "?r\<lparr> prev_clk := False \<rparr> = ?r" using r by simp
  then show chip: "rtc_chip s' = rtc_edge (host_cycle s) b oe ?r"
    using r pins rtc_edge_prev_clk [where r = ?r and c = False]
    by (simp add: s'_def set_pins_eq sample_rise sample_fall)
  show "rtc_selected s'"
    using r unfolding rtc_selected_def chip by (simp add: s'_def set_pins_eq)
  show "host_cycle s' = host_cycle s" "overlay s' = overlay s"
    "ddrb (via s') = 0x06 OR (if oe then 0x01 else 0)"
    by (simp_all add: s'_def set_pins_eq)
qed

text \<open>
  The chip without its data line: what a transaction leaves there between bits is of no interest.
  A chip accepts a bit from the host in every phase but the data phase of a read.
\<close>

definition strip :: "rtc \<Rightarrow> rtc" where
  "strip r = r\<lparr> data_line := True \<rparr>"

definition accepting :: "rtc \<Rightarrow> bool" where
  "accepting r \<longleftrightarrow> cmd_bits r < 8 \<or> (is_extended r \<and> \<not> xp_addr_done r \<and> data_bits r < 8) \<or> \<not> is_read r"

lemma strip_arms:
  "strip (rtc_cmd_bit now b oe r) = rtc_cmd_bit now b True (strip r)"
  "strip (rtc_addr_bit b oe r) = rtc_addr_bit b True (strip r)"
  "strip (rtc_write_bit b oe r) = rtc_write_bit b True (strip r)"
  by (simp_all add: strip_def rtc_cmd_bit_def rtc_addr_bit_def rtc_write_bit_def pull_up_def Let_def)

lemma strip_fields [simp]:
  "cmd_bits (strip r) = cmd_bits r" "data_bits (strip r) = data_bits r" "is_read (strip r) = is_read r"
  "is_extended (strip r) = is_extended r" "xp_addr_done (strip r) = xp_addr_done r"
  by (simp_all add: strip_def)

lemma strip_edge:
  assumes "accepting r" and "oe \<longrightarrow> d = b" and "\<not> oe \<longrightarrow> b"
  shows "strip (rtc_edge now d oe r) = rtc_edge now b True (strip r)"
proof -
  have h: "(if oe then d else True) = b" using assms by auto
  show ?thesis
    using assms(1) unfolding rtc_edge_def Let_def h by (auto simp: strip_arms accepting_def)
qed

lemma accepting_strip [simp]: "accepting (strip r) = accepting r"
  by (simp add: accepting_def strip_def)

definition edges :: "u64 \<Rightarrow> rtc \<Rightarrow> bool list \<Rightarrow> rtc" where
  "edges now = foldl (\<lambda>r b. rtc_edge now b True r)"

fun accepts :: "u64 \<Rightarrow> rtc \<Rightarrow> bool list \<Rightarrow> bool" where
  "accepts now r [] \<longleftrightarrow> True"
| "accepts now r (b # bs) \<longleftrightarrow> accepting r \<and> accepts now (rtc_edge now b True r) bs"

lemma accepts_append: "accepts now r (bs @ cs) \<longleftrightarrow> accepts now r bs \<and> accepts now (edges now r bs) cs"
  by (induction bs arbitrary: r) (simp_all add: edges_def)

lemma edges_append: "edges now r (bs @ cs) = edges now (edges now r bs) cs"
  by (simp add: edges_def)

text \<open>The bits of a byte in the order the loops send them.\<close>

lemma shift_in_byte_bits: "shift_in_byte shift 8 w s = foldl (\<lambda>s b. shift b s) s (byte_bits w)"
  by (simp add: eval_nat_numeral byte_bits_def bit_drop_bit_eq)

lemma shift_in_byte_id: "foldl shift_in w0 (byte_bits w) = w"
  by (rule word8_eqI) (auto simp: byte_bits_def bit_shift_in)

text \<open>Phase by phase, what clocking bits into the chip does.\<close>

lemma edges_cmd:
  "cmd_bits r = of_nat n \<Longrightarrow> n + length bs < 8 \<Longrightarrow>
   accepts now r bs \<and> edges now r bs =
     r\<lparr> rtc_cmd := foldl shift_in (rtc_cmd r) bs, cmd_bits := of_nat (n + length bs) \<rparr>"
proof (induction bs arbitrary: r n)
  case Nil then show ?case by (simp add: edges_def)
next
  case (Cons b bs)
  have "n = 0 \<or> n = 1 \<or> n = 2 \<or> n = 3 \<or> n = 4 \<or> n = 5 \<or> n = 6" using Cons.prems(2) by simp arith
  then have c: "cmd_bits r < 8" "cmd_bits r + 1 \<noteq> 8" using Cons.prems(1) by auto
  let ?r = "r\<lparr> rtc_cmd := shift_in (rtc_cmd r) b, cmd_bits := of_nat (Suc n) \<rparr>"
  have e: "rtc_edge now b True r = ?r"
    using c Cons.prems(1) by (simp add: rtc_edge_def rtc_cmd_bit_def pull_up_def add.commute)
  show ?case
    using Cons.IH [of ?r "Suc n"] Cons.prems(2) c
    by (simp add: e edges_def accepting_def)
qed

lemma edges_addr:
  "cmd_bits r = 8 \<Longrightarrow> is_extended r \<Longrightarrow> \<not> xp_addr_done r \<Longrightarrow> data_bits r = of_nat n \<Longrightarrow> n + length bs < 8 \<Longrightarrow>
   accepts now r bs \<and> edges now r bs =
     r\<lparr> rtc_data := foldl shift_in (rtc_data r) bs, data_bits := of_nat (n + length bs) \<rparr>"
proof (induction bs arbitrary: r n)
  case Nil then show ?case by (simp add: edges_def)
next
  case (Cons b bs)
  have "n = 0 \<or> n = 1 \<or> n = 2 \<or> n = 3 \<or> n = 4 \<or> n = 5 \<or> n = 6" using Cons.prems(5) by simp arith
  then have c: "data_bits r < 8" "data_bits r + 1 \<noteq> 8" using Cons.prems(4) by auto
  let ?r = "r\<lparr> rtc_data := shift_in (rtc_data r) b, data_bits := of_nat (Suc n) \<rparr>"
  have e: "rtc_edge now b True r = ?r"
    using c Cons.prems by (simp add: rtc_edge_def rtc_addr_bit_def pull_up_def add.commute)
  show ?case
    using Cons.IH [of ?r "Suc n"] Cons.prems c
    by (simp add: e edges_def accepting_def)
qed

lemma edges_write:
  "cmd_bits r = 8 \<Longrightarrow> \<not> is_read r \<Longrightarrow> is_extended r \<longrightarrow> xp_addr_done r \<Longrightarrow> data_bits r = of_nat n \<Longrightarrow>
   n + length bs \<le> 8 \<Longrightarrow>
   accepts now r bs \<and> edges now r bs =
     r\<lparr> rtc_data := foldl shift_in (rtc_data r) bs, data_bits := of_nat (n + length bs) \<rparr>"
proof (induction bs arbitrary: r n)
  case Nil then show ?case by (simp add: edges_def)
next
  case (Cons b bs)
  have "n = 0 \<or> n = 1 \<or> n = 2 \<or> n = 3 \<or> n = 4 \<or> n = 5 \<or> n = 6 \<or> n = 7" using Cons.prems(5) by simp arith
  then have c: "data_bits r < 8" using Cons.prems(4) by auto
  let ?r = "r\<lparr> rtc_data := shift_in (rtc_data r) b, data_bits := of_nat (Suc n) \<rparr>"
  have e: "rtc_edge now b True r = ?r"
    using c Cons.prems by (auto simp: rtc_edge_def rtc_write_bit_def pull_up_def add.commute)
  show ?case
    using Cons.IH [of ?r "Suc n"] Cons.prems c
    by (simp add: e edges_def accepting_def)
qed

lemma byte_bits_snoc: "byte_bits w = map (bit w) [7, 6, 5, 4, 3, 2, 1] @ [bit w 0]"
  by (simp add: byte_bits_def)

definition cmd_done :: "u8 \<Rightarrow> u64 \<Rightarrow> rtc \<Rightarrow> rtc" where
  "cmd_done c now r =
     (let r = r\<lparr> rtc_cmd := c, cmd_bits := 8, is_read := c AND 0x80 \<noteq> 0, is_extended := is_extended_cmd c \<rparr> in
      if is_read r \<and> \<not> is_extended r then r\<lparr> read_shift := read_byte_for_cmd r c now \<rparr> else r)"

lemma edges_cmd_byte:
  assumes "cmd_bits r = 0"
  shows "accepts now r (byte_bits c) \<and> edges now r (byte_bits c) = cmd_done c now r"
proof -
  let ?bs = "map (bit c) [7, 6, 5, 4, 3, 2, 1]"
  let ?r = "r\<lparr> rtc_cmd := foldl shift_in (rtc_cmd r) ?bs, cmd_bits := 7 \<rparr>"
  have 1: "accepts now r ?bs \<and> edges now r ?bs = ?r"
    using edges_cmd [of r 0 ?bs now] assms by simp
  have w: "shift_in (foldl shift_in (rtc_cmd r) ?bs) (bit c 0) = c"
    using shift_in_byte_id [of "rtc_cmd r" c] unfolding byte_bits_snoc by simp
  have 2: "rtc_edge now (bit c 0) True ?r = cmd_done c now r"
    using w by (simp add: rtc_edge_def rtc_cmd_bit_def pull_up_def cmd_done_def Let_def)
  show ?thesis
    unfolding byte_bits_snoc accepts_append edges_append conjunct2 [OF 1]
    using 1 2 by (simp add: accepting_def edges_def)
qed

lemma edges_addr_byte:
  assumes "cmd_bits r = 8" "is_extended r" "\<not> xp_addr_done r" "data_bits r = 0"
  shows "accepts now r (byte_bits a) \<and> edges now r (byte_bits a) =
    (let x = xpram_addr_for (rtc_cmd r) a in
     (if is_read r then r\<lparr> read_shift := pram r x \<rparr> else r)\<lparr> xp_addr := x, xp_addr_done := True, rtc_data := 0 \<rparr>)"
proof -
  let ?bs = "map (bit a) [7, 6, 5, 4, 3, 2, 1]"
  let ?r = "r\<lparr> rtc_data := foldl shift_in (rtc_data r) ?bs, data_bits := 7 \<rparr>"
  have 1: "accepts now r ?bs \<and> edges now r ?bs = ?r"
    using edges_addr [of r 0 ?bs now] assms by simp
  have w: "shift_in (foldl shift_in (rtc_data r) ?bs) (bit a 0) = a"
    using shift_in_byte_id [of "rtc_data r" a] unfolding byte_bits_snoc by simp
  have z: "r\<lparr> data_bits := 0 \<rparr> = r" using assms(4) by (cases r) simp
  have 2: "rtc_edge now (bit a 0) True ?r =
     (let x = xpram_addr_for (rtc_cmd r) a; r = r\<lparr> data_bits := 0 \<rparr> in
      (if is_read r then r\<lparr> read_shift := pram r x \<rparr> else r)\<lparr> xp_addr := x, xp_addr_done := True, rtc_data := 0 \<rparr>)"
    using w assms(1-3) by (simp add: rtc_edge_def rtc_addr_bit_def pull_up_def Let_def)
  show ?thesis
    unfolding byte_bits_snoc accepts_append edges_append conjunct2 [OF 1]
    using 1 2 assms(1-3) unfolding z by (simp add: accepting_def edges_def)
qed

lemma edges_write_byte:
  assumes "cmd_bits r = 8" "\<not> is_read r" "is_extended r \<longrightarrow> xp_addr_done r" "data_bits r = 0"
  shows "accepts now r (byte_bits d) \<and> edges now r (byte_bits d) = r\<lparr> rtc_data := d, data_bits := 8 \<rparr>"
  using edges_write [of r 0 "byte_bits d" now] assms shift_in_byte_id [of "rtc_data r" d]
  by (simp add: byte_bits_def)

text \<open>Bits read back through port B.\<close>

lemma port_b_data: "\<not> bit (ddrb (via s)) 0 \<Longrightarrow> (via1_port_b_read s AND 1 \<noteq> 0) = data_line (rtc_chip s)"
  by (simp add: via1_port_b_read_def via1_input_b_def Let_def bit_or_iff bit_and_iff bit_not_iff)

lemma shift_out_bit:
  assumes "rtc_selected s" "cmd_bits (rtc_chip s) = 8" "is_read (rtc_chip s)"
    "is_extended (rtc_chip s) \<longrightarrow> xp_addr_done (rtc_chip s)" "data_bits (rtc_chip s) < 8"
  shows "\<exists>s'. rtc_selftest_shift_out_bit s = (bit (read_shift (rtc_chip s)) 7, s') \<and>
    rtc_chip s' = rtc_read_bit (rtc_chip s) \<and> rtc_selected s' \<and> host_cycle s' = host_cycle s \<and>
    overlay s' = overlay s"
proof -
  let ?s = "rtc_selftest_set_pins False False False False (rtc_selftest_set_pins False True False False s)"
  note p = clock_pulse [OF assms(1), where b = False and oe = False]
  have chip: "rtc_chip ?s = rtc_read_bit (rtc_chip s)"
    unfolding p(1) using assms by (auto simp: rtc_edge_def)
  have b7: "(read_shift (rtc_chip s) AND 0x80 \<noteq> 0) = bit (read_shift (rtc_chip s)) 7"
    using and_exp_eq_0_iff_not_bit [of "read_shift (rtc_chip s)" 7] by simp
  have "via1_port_b_read ?s AND 1 \<noteq> 0 \<longleftrightarrow> bit (read_shift (rtc_chip s)) 7"
    using port_b_data [of ?s] p(5) by (simp add: chip rtc_read_bit_def b7)
  then show ?thesis
    using p chip by (auto simp: rtc_selftest_shift_out_bit_def via1_read_reg_def map_via_def rtc_selected_def)
qed

lemma byte_bits_push: "n < 8 \<Longrightarrow> take n (byte_bits (push_bit 1 w)) = take n (tl (byte_bits w))"
proof -
  assume "n < 8"
  have b: "bit (push_bit (Suc 0) w) k = bit w (k - 1)" if "0 < k" "k < 8" for k
    using that unfolding bit_push_bit_iff by simp
  have "n = 0 \<or> n = 1 \<or> n = 2 \<or> n = 3 \<or> n = 4 \<or> n = 5 \<or> n = 6 \<or> n = 7" using \<open>n < 8\<close> by arith
  then show ?thesis
    unfolding byte_bits_def by (elim disjE) (simp_all add: b del: push_bit_Suc push_bit_eq_mult)
qed

lemma shift_out_byte:
  assumes "rtc_selected s" "cmd_bits (rtc_chip s) = 8" "is_read (rtc_chip s)"
    "is_extended (rtc_chip s) \<longrightarrow> xp_addr_done (rtc_chip s)" "n \<le> 8" "data_bits (rtc_chip s) = of_nat (8 - n)"
  shows "\<exists>s'. shift_out_byte n out s = (foldl shift_in out (take n (byte_bits (read_shift (rtc_chip s)))), s') \<and>
    rtc_selected s' \<and> host_cycle s' = host_cycle s \<and> overlay s' = overlay s \<and>
    is_read (rtc_chip s') \<and> rtc_store (rtc_chip s') = rtc_store (rtc_chip s)"
  using assms
proof (induction n arbitrary: s out)
  case 0 then show ?case by auto
next
  case (Suc n)
  let ?r = "rtc_chip s"
  have "n = 0 \<or> n = 1 \<or> n = 2 \<or> n = 3 \<or> n = 4 \<or> n = 5 \<or> n = 6 \<or> n = 7" using Suc.prems(5) by simp arith
  then have d: "data_bits ?r < 8" and d': "data_bits ?r + 1 = of_nat (8 - n)" using Suc.prems(6) by auto
  obtain s1 where s1: "rtc_selftest_shift_out_bit s = (bit (read_shift ?r) 7, s1)"
    "rtc_chip s1 = rtc_read_bit ?r" "rtc_selected s1" "host_cycle s1 = host_cycle s" "overlay s1 = overlay s"
    using shift_out_bit [OF Suc.prems(1-4) d] by auto
  have t: "take (Suc n) (byte_bits w) = bit w 7 # take n (tl (byte_bits w))" for w
    by (simp add: byte_bits_def)
  have "\<exists>s'. shift_out_byte n (shift_in out (bit (read_shift ?r) 7)) s1 =
     (foldl shift_in (shift_in out (bit (read_shift ?r) 7)) (take n (byte_bits (read_shift (rtc_chip s1)))), s') \<and>
    rtc_selected s' \<and> host_cycle s' = host_cycle s1 \<and> overlay s' = overlay s1 \<and>
    is_read (rtc_chip s') \<and> rtc_store (rtc_chip s') = rtc_store (rtc_chip s1)"
    using Suc.prems s1(3) d' by (intro Suc.IH) (simp_all add: s1(2) rtc_read_bit_def)
  then show ?case
    using s1 byte_bits_push [of n "read_shift ?r"] Suc.prems(5) unfolding t
    by (auto simp: rtc_read_bit_def rtc_store_def simp del: push_bit_Suc)
qed

text \<open>Selecting and releasing the chip.\<close>

definition fresh :: "rtc \<Rightarrow> rtc" where
  "fresh r = (rtc_select False r)\<lparr> prev_enb := False, prev_clk := False \<rparr>"

lemma begin_transaction:
  fixes s
  assumes "rtc_idle s"
  defines "s' \<equiv> rtc_selftest_set_pins False False False True s"
  shows "strip (rtc_chip s') = fresh (rtc_chip s)" "rtc_selected s'" "host_cycle s' = host_cycle s"
    "overlay s' = overlay s"
proof -
  have r: "rtc_initialized (rtc_chip s)" "prev_enb (rtc_chip s)" "\<not> prev_clk (rtc_chip s)"
    and p: "orb (via s) AND 0x04 \<noteq> 0" "orb (via s) AND 0x02 = 0"
    using assms(1) by (simp_all add: rtc_idle_def)
  then have c: "rtc_chip s' = fresh (rtc_chip s)"
    by (simp add: s'_def set_pins_eq sample_select fresh_def)
  show "strip (rtc_chip s') = fresh (rtc_chip s)"
    using r unfolding c by (simp add: fresh_def rtc_select_def strip_def)
  show "rtc_selected s'"
    using r unfolding rtc_selected_def c by (simp add: fresh_def rtc_select_def s'_def set_pins_eq)
  show "host_cycle s' = host_cycle s" "overlay s' = overlay s" by (simp_all add: s'_def set_pins_eq)
qed

lemma commit_store: "rtc_store (rtc_commit now (strip r)) = rtc_store (rtc_commit now r)"
  by (simp add: rtc_commit_def strip_def rtc_store_def write_xpram_def write_byte_for_cmd_def
      seconds_now_def Let_def)

lemma commit_frame [simp]:
  "rtc_initialized (rtc_commit now r) = rtc_initialized r"
  by (simp add: rtc_commit_def write_xpram_def write_byte_for_cmd_def Let_def)

lemma end_transaction:
  fixes s
  assumes "rtc_selected s"
  defines "s' \<equiv> rtc_selftest_set_pins True False False False s"
  shows "rtc_idle s'" "host_cycle s' = host_cycle s" "overlay s' = overlay s"
    "rtc_store (rtc_chip s') = rtc_store (rtc_commit (host_cycle s) (strip (rtc_chip s)))"
proof -
  have r: "rtc_initialized (rtc_chip s)" "\<not> prev_enb (rtc_chip s)" "\<not> prev_clk (rtc_chip s)" "rtc_active (rtc_chip s)"
    and p: "orb (via s) AND 0x04 = 0" "orb (via s) AND 0x02 = 0"
    using assms(1) by (simp_all add: rtc_selected_def)
  have c: "rtc_chip s' = (rtc_commit (host_cycle s) (rtc_chip s))\<lparr> rtc_active := False, data_line := True,
      prev_enb := True, prev_clk := False \<rparr>"
    using r p by (simp add: s'_def set_pins_eq sample_deselect)
  show "rtc_idle s'"
    using r unfolding rtc_idle_def c by (simp add: s'_def set_pins_eq)
  show "host_cycle s' = host_cycle s" "overlay s' = overlay s" by (simp_all add: s'_def set_pins_eq)
  show "rtc_store (rtc_chip s') = rtc_store (rtc_commit (host_cycle s) (strip (rtc_chip s)))"
    unfolding commit_store c by (simp add: rtc_store_def)
qed

lemma read_byte_fresh: "read_byte_for_cmd (fresh r) = read_byte_for_cmd r"
  by (rule read_byte_store) (simp add: fresh_def rtc_select_def rtc_store_def)

lemma cmd_done_fresh:
  assumes "prev_enb r"
  shows "cmd_bits (cmd_done c now (fresh r)) = 8" "rtc_cmd (cmd_done c now (fresh r)) = c"
    "is_read (cmd_done c now (fresh r)) = (c AND 0x80 \<noteq> 0)"
    "is_extended (cmd_done c now (fresh r)) = is_extended_cmd c"
    "\<not> xp_addr_done (cmd_done c now (fresh r))" "data_bits (cmd_done c now (fresh r)) = 0"
    "rtc_store (cmd_done c now (fresh r)) = rtc_store r"
    "c AND 0x80 \<noteq> 0 \<Longrightarrow> \<not> is_extended_cmd c \<Longrightarrow> read_shift (cmd_done c now (fresh r)) = read_byte_for_cmd r c now"
  using assms read_byte_fresh [of r]
  by (simp_all add: cmd_done_def Let_def rtc_store_def)
     (simp_all add: fresh_def rtc_select_def)

lemma commit_plain:
  assumes "rtc_store r = rtc_store q" "\<not> is_read r" "cmd_bits r = 8" "\<not> is_extended r" "rtc_cmd r = c"
  shows "rtc_store (rtc_commit now (r\<lparr> rtc_data := d, data_bits := 8 \<rparr>)) = rtc_store (write_byte_for_cmd c d now q)"
  using assms by (simp add: rtc_commit_def write_byte_for_cmd_def seconds_now_def rtc_store_def Let_def)

lemma commit_extended:
  assumes "rtc_store r = rtc_store q" "\<not> is_read r" "cmd_bits r = 8" "is_extended r" "xp_addr_done r"
  shows "rtc_store (rtc_commit now (r\<lparr> rtc_data := d, data_bits := 8 \<rparr>)) =
     rtc_store (write_xpram d (q\<lparr> xp_addr := xp_addr r \<rparr>))"
  using assms by (simp add: rtc_commit_def write_xpram_def rtc_store_def Let_def)

text \<open>
  A way to drive one bit onto the wires.  The self test has two: driving the line both ways, and
  driving zeros only and leaving ones to the pull-up.
\<close>

locale bit_driver =
  fixes shift :: "bool \<Rightarrow> via_sys \<Rightarrow> via_sys"
  assumes shift_selected: "rtc_selected s \<Longrightarrow> rtc_selected (shift b s)"
    and shift_cycle: "rtc_selected s \<Longrightarrow> host_cycle (shift b s) = host_cycle s"
    and shift_overlay: "rtc_selected s \<Longrightarrow> overlay (shift b s) = overlay s"
    and shift_chip: "rtc_selected s \<Longrightarrow> accepting (rtc_chip s) \<Longrightarrow>
          strip (rtc_chip (shift b s)) = rtc_edge (host_cycle s) b True (strip (rtc_chip s))"
begin

lemma bits_frame:
  "rtc_selected s \<Longrightarrow> rtc_selected (foldl (\<lambda>s b. shift b s) s bs) \<and>
     host_cycle (foldl (\<lambda>s b. shift b s) s bs) = host_cycle s \<and>
     overlay (foldl (\<lambda>s b. shift b s) s bs) = overlay s"
  by (induction bs arbitrary: s) (simp_all add: shift_selected shift_cycle shift_overlay)

text \<open>As long as the chip accepts bits, driving a sequence is clocking the chip with it.\<close>

lemma bits_chip:
  assumes "rtc_selected s" and "accepts (host_cycle s) (strip (rtc_chip s)) bs"
  shows "strip (rtc_chip (foldl (\<lambda>s b. shift b s) s bs)) = edges (host_cycle s) (strip (rtc_chip s)) bs"
  using assms
proof (induction bs arbitrary: s)
  case Nil then show ?case by (simp add: edges_def)
next
  case (Cons b bs)
  then show ?case
    using shift_chip [of s b] by (simp add: edges_def shift_selected shift_cycle)
qed

lemma byte_sent:
  assumes "rtc_selected s" and "accepts (host_cycle s) (strip (rtc_chip s)) (byte_bits w)"
  shows "strip (rtc_chip (shift_in_byte shift 8 w s)) = edges (host_cycle s) (strip (rtc_chip s)) (byte_bits w)"
    and "rtc_selected (shift_in_byte shift 8 w s)" and "host_cycle (shift_in_byte shift 8 w s) = host_cycle s"
    and "overlay (shift_in_byte shift 8 w s) = overlay s"
  using bits_chip [OF assms] bits_frame [OF assms(1), of "byte_bits w"] unfolding shift_in_byte_bits by auto

lemma command_sent:
  fixes s cmd
  assumes "rtc_idle s"
  defines "s' \<equiv> shift_in_byte shift 8 cmd (rtc_selftest_set_pins False False False True s)"
  shows "strip (rtc_chip s') = cmd_done cmd (host_cycle s) (fresh (rtc_chip s))"
    and "rtc_selected s'" and "host_cycle s' = host_cycle s" and "overlay s' = overlay s"
proof -
  note b = begin_transaction [OF assms(1)]
  have f: "cmd_bits (fresh (rtc_chip s)) = 0"
    using assms(1) by (simp add: fresh_def rtc_select_def rtc_idle_def)
  note e = edges_cmd_byte [OF f, of "host_cycle s" cmd]
  show "strip (rtc_chip s') = cmd_done cmd (host_cycle s) (fresh (rtc_chip s))"
    "rtc_selected s'" "host_cycle s' = host_cycle s" "overlay s' = overlay s"
    using byte_sent [OF b(2), of cmd] e b unfolding s'_def by simp_all
qed

text \<open>The data half of a write, from a chip that has taken the command (and the address).\<close>

lemma write_half:
  assumes "rtc_selected s" "cmd AND 0x80 = 0" "cmd_bits (rtc_chip s) = 8" "\<not> is_read (rtc_chip s)"
    "is_extended (rtc_chip s) \<longrightarrow> xp_addr_done (rtc_chip s)" "data_bits (rtc_chip s) = 0"
  shows "\<exists>s'. finish_transaction (data_half shift cmd d s) = (0, s') \<and> rtc_idle s' \<and>
     host_cycle s' = host_cycle s \<and> overlay s' = overlay s \<and>
     rtc_store (rtc_chip s') = rtc_store (rtc_commit (host_cycle s) ((strip (rtc_chip s))\<lparr> rtc_data := d, data_bits := 8 \<rparr>))"
proof -
  have "accepts (host_cycle s) (strip (rtc_chip s)) (byte_bits d) \<and>
    edges (host_cycle s) (strip (rtc_chip s)) (byte_bits d) = (strip (rtc_chip s))\<lparr> rtc_data := d, data_bits := 8 \<rparr>"
    using assms by (intro edges_write_byte) simp_all
  with byte_sent [OF assms(1), of d]
  have b: "strip (rtc_chip (shift_in_byte shift 8 d s)) = (strip (rtc_chip s))\<lparr> rtc_data := d, data_bits := 8 \<rparr>"
    "rtc_selected (shift_in_byte shift 8 d s)" "host_cycle (shift_in_byte shift 8 d s) = host_cycle s"
    "overlay (shift_in_byte shift 8 d s) = overlay s" by auto
  show ?thesis
    using end_transaction [OF b(2)] b(1,3,4) assms(2) by (simp add: finish_transaction_def data_half_def)
qed

lemma read_half:
  assumes "rtc_selected s" "cmd AND 0x80 \<noteq> 0" "cmd_bits (rtc_chip s) = 8" "is_read (rtc_chip s)"
    "is_extended (rtc_chip s) \<longrightarrow> xp_addr_done (rtc_chip s)" "data_bits (rtc_chip s) = 0"
  shows "\<exists>s'. finish_transaction (data_half shift cmd d s) = (read_shift (rtc_chip s), s') \<and> rtc_idle s' \<and>
     host_cycle s' = host_cycle s \<and> overlay s' = overlay s \<and>
     rtc_store (rtc_chip s') = rtc_store (rtc_chip s)"
proof -
  have "take 8 (byte_bits w) = byte_bits w" for w by (simp add: byte_bits_def)
  then obtain s1 where s1: "shift_out_byte 8 0 s = (read_shift (rtc_chip s), s1)" "rtc_selected s1"
    "host_cycle s1 = host_cycle s" "overlay s1 = overlay s" "is_read (rtc_chip s1)"
    "rtc_store (rtc_chip s1) = rtc_store (rtc_chip s)"
    using shift_out_byte [OF assms(1,3-5), of 8 0] assms(6) by (auto simp: shift_in_byte_id)
  have "rtc_store (rtc_commit (host_cycle s1) (strip (rtc_chip s1))) = rtc_store (rtc_chip s1)"
    unfolding commit_store using s1(5) by (simp add: rtc_commit_def)
  then show ?thesis
    using end_transaction [OF s1(2)] s1 assms(2) by (simp add: finish_transaction_def data_half_def)
qed

lemma strip_eqD:
  assumes "strip r = r'"
  shows "cmd_bits r = cmd_bits r'" "is_read r = is_read r'" "is_extended r = is_extended r'"
    "xp_addr_done r = xp_addr_done r'" "data_bits r = data_bits r'" "read_shift r = read_shift r'"
    "rtc_store r = rtc_store r'"
  by (simp_all add: assms [symmetric] strip_def rtc_store_def)

lemma transaction:
  assumes "rtc_idle s" and "\<not> is_extended_cmd cmd"
  shows "\<exists>s'. rtc_transaction shift cmd d s =
       (if cmd AND 0x80 \<noteq> 0 then read_byte_for_cmd (rtc_chip s) cmd (host_cycle s) else 0, s') \<and>
     rtc_idle s' \<and> host_cycle s' = host_cycle s \<and> overlay s' = overlay s \<and>
     rtc_store (rtc_chip s') =
       (if cmd AND 0x80 \<noteq> 0 then rtc_store (rtc_chip s)
        else rtc_store (write_byte_for_cmd cmd d (host_cycle s) (rtc_chip s)))"
proof -
  let ?s = "shift_in_byte shift 8 cmd (rtc_selftest_set_pins False False False True s)"
  note c = command_sent [OF assms(1), of cmd]
  have en: "prev_enb (rtc_chip s)" using assms(1) by (simp add: rtc_idle_def)
  note x = strip_eqD [OF c(1), unfolded cmd_done_fresh [OF en]]
  show ?thesis
  proof (cases "cmd AND 0x80 = 0")
    case True
    note commit_plain [OF cmd_done_fresh(7) [OF en], of cmd "host_cycle s" cmd "host_cycle s" d]
    then show ?thesis
      using write_half [OF c(2) True, of d] x True assms(2) c(1,3,4)
      by (simp add: rtc_transaction_def cmd_done_fresh [OF en])
  next
    case False
    then show ?thesis
      using read_half [OF c(2) False, of d] x assms(2) c(3,4)
      by (simp add: rtc_transaction_def cmd_done_fresh(8) [OF en])
  qed
qed

lemma xpram_transaction:
  assumes "rtc_idle s" and "is_extended_cmd cmd"
  shows "\<exists>s'. rtc_xpram_transaction shift cmd a d s =
       (if cmd AND 0x80 \<noteq> 0 then pram (rtc_chip s) (xpram_addr_for cmd a) else 0, s') \<and>
     rtc_idle s' \<and> host_cycle s' = host_cycle s \<and> overlay s' = overlay s \<and>
     rtc_store (rtc_chip s') =
       (if cmd AND 0x80 \<noteq> 0 then rtc_store (rtc_chip s)
        else rtc_store (write_xpram d ((rtc_chip s)\<lparr> xp_addr := xpram_addr_for cmd a \<rparr>)))"
proof -
  let ?s = "shift_in_byte shift 8 cmd (rtc_selftest_set_pins False False False True s)"
  let ?t = "shift_in_byte shift 8 a ?s"
  let ?c = "cmd_done cmd (host_cycle s) (fresh (rtc_chip s))"
  let ?x = "xpram_addr_for cmd a"
  let ?r = "(if is_read ?c then ?c\<lparr> read_shift := pram ?c ?x \<rparr> else ?c)\<lparr> xp_addr := ?x, xp_addr_done := True, rtc_data := 0 \<rparr>"
  note c = command_sent [OF assms(1), of cmd]
  have en: "prev_enb (rtc_chip s)" using assms(1) by (simp add: rtc_idle_def)
  note cd = cmd_done_fresh [OF en, of cmd "host_cycle s"]
  have e: "accepts (host_cycle s) ?c (byte_bits a) \<and> edges (host_cycle s) ?c (byte_bits a) = ?r"
    using edges_addr_byte [of ?c "host_cycle s" a] assms(2) by (simp add: cd Let_def)
  have t: "strip (rtc_chip ?t) = ?r" "rtc_selected ?t" "host_cycle ?t = host_cycle s" "overlay ?t = overlay s"
    using byte_sent [OF c(2), of a] e c by simp_all
  have pr: "pram ?c = pram (rtc_chip s)" using cd(7) by (simp add: rtc_store_def)
  have rs: "rtc_store ?r = rtc_store (rtc_chip s)" using cd(7) by (simp add: rtc_store_def)
  note x = strip_eqD [OF t(1)]
  show ?thesis
  proof (cases "cmd AND 0x80 = 0")
    case True
    note commit_extended [OF rs, where d = d and now = "host_cycle s"]
    then show ?thesis
      using write_half [OF t(2) True, of d] x True assms(2) t(1,3,4)
      by (simp add: rtc_xpram_transaction_def cd)
  next
    case False
    then show ?thesis
      using read_half [OF t(2) False, of d] x assms(2) t(3,4) rs
      by (simp add: rtc_xpram_transaction_def cd pr)
  qed
qed

end

interpretation driven: bit_driver rtc_selftest_shift_in_bit
  by unfold_locales
     (simp_all add: rtc_selftest_shift_in_bit_def clock_pulse strip_edge)

interpretation pulled: bit_driver rtc_selftest_shift_in_pullup_one
  by unfold_locales
     (simp_all add: rtc_selftest_shift_in_pullup_one_def clock_pulse strip_edge)


section \<open>The chip as a register file\<close>

text \<open>\<open>clock_sim s X now\<close>: between transactions, at cycle \<open>now\<close>, the chip of \<open>s\<close> stores what \<open>X\<close> stores.\<close>

definition clock_sim :: "via_sys \<Rightarrow> rtc \<Rightarrow> u64 \<Rightarrow> bool" where
  "clock_sim s X now \<longleftrightarrow> rtc_idle s \<and> host_cycle s = now \<and> rtc_store (rtc_chip s) = rtc_store X"

lemma write_byte_store:
  "rtc_store r = rtc_store r' \<Longrightarrow>
   rtc_store (write_byte_for_cmd c d now r) = rtc_store (write_byte_for_cmd c d now r')"
  by (simp add: rtc_store_def write_byte_for_cmd_def seconds_now_def Let_def)

lemma write_xpram_store:
  "rtc_store r = rtc_store r' \<Longrightarrow>
   rtc_store (write_xpram d (r\<lparr> xp_addr := a \<rparr>)) = rtc_store (write_xpram d (r'\<lparr> xp_addr := a \<rparr>))"
  by (simp add: rtc_store_def write_xpram_def)

context bit_driver
begin

lemma sim_write:
  assumes "clock_sim s X now" "\<not> is_extended_cmd c" "c AND 0x80 = 0"
  shows "clock_sim (snd (rtc_transaction shift c d s)) (write_byte_for_cmd c d now X) now"
  using transaction [of s c d] assms write_byte_store [of "rtc_chip s" X] by (auto simp: clock_sim_def)

lemma sim_read:
  assumes "clock_sim s X now" "\<not> is_extended_cmd c" "c AND 0x80 \<noteq> 0"
  shows "clock_sim (snd (rtc_transaction shift c d s)) X now"
    and "fst (rtc_transaction shift c d s) = read_byte_for_cmd X c now"
  using transaction [of s c d] assms read_byte_store [of "rtc_chip s" X] by (auto simp: clock_sim_def)

lemma sim_xwrite:
  assumes "clock_sim s X now" "is_extended_cmd c" "c AND 0x80 = 0"
  shows "clock_sim (snd (rtc_xpram_transaction shift c a d s))
           (write_xpram d (X\<lparr> xp_addr := xpram_addr_for c a \<rparr>)) now"
  using xpram_transaction [of s c a d] assms write_xpram_store [of "rtc_chip s" X]
  by (auto simp: clock_sim_def)

lemma sim_xread:
  assumes "clock_sim s X now" "is_extended_cmd c" "c AND 0x80 \<noteq> 0"
  shows "clock_sim (snd (rtc_xpram_transaction shift c a d s)) X now"
    and "fst (rtc_xpram_transaction shift c a d s) = pram X (xpram_addr_for c a)"
  using xpram_transaction [of s c a d] assms by (auto simp: clock_sim_def rtc_store_def)

end

text \<open>The command and address bytes of the self test name every cell of the parameter memory.\<close>

lemma xpram_addr_of_bytes [simp]:
  "xpram_addr_for (rtc_selftest_xpram_cmd addr rd) (rtc_selftest_xpram_addr_byte addr) = addr"
  unfolding xpram_addr_for_def rtc_selftest_xpram_cmd_def rtc_selftest_xpram_addr_byte_def
  by (rule word8_eqI, unfold bit_or_iff bit_and_iff bit_push_bit_iff bit_drop_bit_eq comp_def,
      elim insertE emptyE; cases rd; simp)

lemma xpram_cmd_flags [simp]:
  "is_extended_cmd (rtc_selftest_xpram_cmd addr rd)"
  "(rtc_selftest_xpram_cmd addr rd AND 0x80 = 0) = (\<not> rd)"
proof -
  have b7: "(w AND 0x80 = 0) = (\<not> bit w 7)" for w :: u8
    using and_exp_eq_0_iff_not_bit [of w 7] by simp
  show "(rtc_selftest_xpram_cmd addr rd AND 0x80 = 0) = (\<not> rd)"
    unfolding b7 by (simp add: rtc_selftest_xpram_cmd_def bit_simps)
  show "is_extended_cmd (rtc_selftest_xpram_cmd addr rd)"
    unfolding is_extended_cmd_def
    by (rule word8_eqI) (auto simp: rtc_selftest_xpram_cmd_def bit_simps)
qed

lemmas selftest_transaction_defs =
  rtc_selftest_transaction_def rtc_selftest_xpram_transaction_def
  rtc_selftest_transaction_pullup_ones_def rtc_selftest_xpram_transaction_pullup_ones_def
  rtc_selftest_xpram_read_def rtc_selftest_xpram_write_def rtc_selftest_do_def

lemma transaction_both:
  assumes "shift \<in> {rtc_selftest_shift_in_bit, rtc_selftest_shift_in_pullup_one}"
  shows "bit_driver shift"
  using assms driven.bit_driver_axioms pulled.bit_driver_axioms by auto

text \<open>
  C24 A plain clock transaction bit-banged through the port B registers is one register access of the
  chip, whichever way the host drives its one bits.  A read command returns the byte of the register
  it names and changes nothing the chip stores; a write command does exactly the register write.
  The chip is idle again, no time has passed and the boot overlay is as before.
\<close>

theorem rtc_transaction_refines:
  assumes "shift \<in> {rtc_selftest_shift_in_bit, rtc_selftest_shift_in_pullup_one}"
    and "rtc_idle s" and "\<not> is_extended_cmd cmd"
  shows "\<exists>s'. rtc_transaction shift cmd d s =
       (if cmd AND 0x80 \<noteq> 0 then read_byte_for_cmd (rtc_chip s) cmd (host_cycle s) else 0, s') \<and>
     rtc_idle s' \<and> host_cycle s' = host_cycle s \<and> overlay s' = overlay s \<and>
     rtc_store (rtc_chip s') =
       (if cmd AND 0x80 \<noteq> 0 then rtc_store (rtc_chip s)
        else rtc_store (write_byte_for_cmd cmd d (host_cycle s) (rtc_chip s)))"
  by (rule bit_driver.transaction [OF transaction_both [OF assms(1)] assms(2,3)])

definition idle_sys :: via_sys where
  "idle_sys = rtc_selftest_set_pins True False False False initial_via_sys"

lemma idle_sys_idle: "rtc_idle idle_sys" "\<not> write_protect (rtc_chip idle_sys)"
  by (simp_all add: idle_sys_def rtc_idle_def set_pins_eq rtc_sample_def rtc_select_def rtc_clk_fall_def
      rtc_deselect_def initial_via_sys_def rtc_reset_def initial_via1_def Let_def)

theorem rtc_transaction_refines_witness:
  "\<exists>s'. rtc_transaction rtc_selftest_shift_in_pullup_one 0x20 0x5A idle_sys = (0, s') \<and> rtc_idle s'"
  using rtc_transaction_refines [of rtc_selftest_shift_in_pullup_one idle_sys "0x20" "0x5A"] idle_sys_idle
  by (auto simp: is_extended_cmd_def)

text \<open>
  Parameter memory round trip over the wires: a byte written to any of the 256 extended cells is
  what a later read of that cell returns, and every other cell still reads as before.
\<close>

theorem xpram_write_read:
  assumes "rtc_idle s" and "\<not> write_protect (rtc_chip s)"
  shows "fst (rtc_selftest_xpram_read b (rtc_selftest_xpram_write a v s)) =
           (if b = a then v else fst (rtc_selftest_xpram_read b s))"
proof -
  have X: "clock_sim s (rtc_chip s) (host_cycle s)" using assms(1) by (simp add: clock_sim_def)
  note w = driven.sim_xwrite [OF X xpram_cmd_flags(1), of a False "rtc_selftest_xpram_addr_byte a" v]
  have "fst (rtc_selftest_xpram_read b (rtc_selftest_xpram_write a v s)) =
      pram (write_xpram v ((rtc_chip s)\<lparr> xp_addr := a \<rparr>)) b"
    using driven.sim_xread(2) [OF w xpram_cmd_flags(1)] by (simp add: selftest_transaction_defs)
  moreover have "fst (rtc_selftest_xpram_read b s) = pram (rtc_chip s) b"
    using driven.sim_xread(2) [OF X xpram_cmd_flags(1)] by (simp add: selftest_transaction_defs)
  ultimately show ?thesis using assms(2) by (simp add: write_xpram_def)
qed

theorem xpram_write_read_witness:
  "fst (rtc_selftest_xpram_read 0x42 (rtc_selftest_xpram_write 0x42 0xA6 idle_sys)) = 0xA6"
  using xpram_write_read [OF idle_sys_idle, of "0x42" "0x42" "0xA6"] by simp

text \<open>
  C35 Write protection: while the protect bit is set no transaction of either kind changes anything the
  chip stores, except a write of the protect register itself, which leaves the clock, the test flag
  and the memory alone.
\<close>

theorem write_protect_blocks:
  assumes "rtc_idle s" and "write_protect (rtc_chip s)"
  shows "(is_extended_cmd cmd \<longrightarrow>
      rtc_store (rtc_chip (snd (rtc_selftest_xpram_transaction cmd a d s))) = rtc_store (rtc_chip s)) \<and>
    (\<not> is_extended_cmd cmd \<longrightarrow>
      (let r = rtc_chip (snd (rtc_selftest_transaction cmd d s)) in
       (cmd_reg cmd \<noteq> 13 \<longrightarrow> rtc_store r = rtc_store (rtc_chip s)) \<and>
       pram r = pram (rtc_chip s) \<and> test_mode r = test_mode (rtc_chip s) \<and>
       seconds_now r (host_cycle s) = seconds_now (rtc_chip s) (host_cycle s)))"
proof (intro conjI impI)
  assume "is_extended_cmd cmd"
  have "rtc_store (write_xpram d ((rtc_chip s)\<lparr> xp_addr := x \<rparr>)) = rtc_store (rtc_chip s)" for x
    using assms(2) by (simp add: write_xpram_def rtc_store_def)
  with driven.xpram_transaction [OF assms(1) \<open>is_extended_cmd cmd\<close>, of a d]
  show "rtc_store (rtc_chip (snd (rtc_selftest_xpram_transaction cmd a d s))) = rtc_store (rtc_chip s)"
    by (auto simp: selftest_transaction_defs)
next
  let ?r = "rtc_chip (snd (rtc_selftest_transaction cmd d s))"
  assume "\<not> is_extended_cmd cmd"
  from driven.transaction [OF assms(1) this, of d]
  have st: "rtc_store ?r = (if cmd AND 0x80 \<noteq> 0 then rtc_store (rtc_chip s)
        else rtc_store (write_byte_for_cmd cmd d (host_cycle s) (rtc_chip s)))"
    by (auto simp: selftest_transaction_defs)
  have "write_byte_for_cmd cmd d (host_cycle s) (rtc_chip s) =
      (if cmd_reg cmd = 13 then (rtc_chip s)\<lparr> write_protect := d AND 0x80 \<noteq> 0 \<rparr> else rtc_chip s)"
    using assms(2) by (simp add: write_byte_for_cmd_def Let_def)
  with st show "let r = ?r in (cmd_reg cmd \<noteq> 13 \<longrightarrow> rtc_store r = rtc_store (rtc_chip s)) \<and>
       pram r = pram (rtc_chip s) \<and> test_mode r = test_mode (rtc_chip s) \<and>
       seconds_now r (host_cycle s) = seconds_now (rtc_chip s) (host_cycle s)"
    by (simp add: rtc_store_def seconds_now_def Let_def split: if_splits)
qed

definition protected_sys :: via_sys where
  "protected_sys = idle_sys\<lparr> rtc_chip := (rtc_chip idle_sys)\<lparr> write_protect := True \<rparr> \<rparr>"

lemma protected_sys_idle: "rtc_idle protected_sys" "write_protect (rtc_chip protected_sys)"
  using idle_sys_idle by (simp_all add: protected_sys_def rtc_idle_def)

theorem write_protect_blocks_witness:
  "pram (rtc_chip (snd (rtc_selftest_transaction 0x20 0x5A protected_sys))) = pram (rtc_chip protected_sys)"
  using write_protect_blocks [OF protected_sys_idle, of "0x20" 0 "0x5A"]
  by (simp add: is_extended_cmd_def Let_def)

section \<open>The seconds counter\<close>

lemma seconds_bytes:
  "set_seconds_byte (set_seconds_byte (set_seconds_byte (set_seconds_byte x 0 b0) 1 b1) 2 b2) 3 b3 =
   be_word b3 b2 b1 b0"
proof (rule bit_word_eqI)
  fix n assume "n < LENGTH(32)"
  then have "n < 32" by simp
  have m: "(0xFF :: u32) = mask 8" by (simp add: mask_eq_exp_minus_1)
  from \<open>n < 32\<close> show "bit (set_seconds_byte (set_seconds_byte (set_seconds_byte (set_seconds_byte x 0 b0) 1 b1) 2 b2) 3 b3) n =
      bit (be_word b3 b2 b1 b0) n"
    unfolding set_seconds_byte_def be_word_def m bit_or_iff bit_and_iff bit_not_iff bit_push_bit_iff bit_mask_iff
    by (cases n rule: word32_byte_cases) (auto simp: bit_simps)
qed

lemma seconds_regs:
  "cmd_reg 0x81 = 0" "cmd_reg 0x85 = 1" "cmd_reg 0x89 = 2" "cmd_reg 0x8D = 3"
  "cmd_reg 0x01 = 0" "cmd_reg 0x05 = 1" "cmd_reg 0x09 = 2" "cmd_reg 0x0D = 3"
  by (simp_all add: cmd_reg_def)

lemma sim_read_seconds:
  assumes "clock_sim s X now"
  shows "clock_sim (snd (rtc_selftest_read_seconds s)) X now"
    and "fst (rtc_selftest_read_seconds s) = seconds_now X now"
proof -
  have p: "\<not> is_extended_cmd 0x81" "\<not> is_extended_cmd 0x85" "\<not> is_extended_cmd 0x89" "\<not> is_extended_cmd 0x8D"
    "0x81 AND (0x80 :: u8) \<noteq> 0" "0x85 AND (0x80 :: u8) \<noteq> 0" "0x89 AND (0x80 :: u8) \<noteq> 0" "0x8D AND (0x80 :: u8) \<noteq> 0"
    by (simp_all add: is_extended_cmd_def)
  note a0 = driven.sim_read [OF assms p(1,5), of 0]
  note a1 = driven.sim_read [OF a0(1) p(2,6), of 0]
  note a2 = driven.sim_read [OF a1(1) p(3,7), of 0]
  note a3 = driven.sim_read [OF a2(1) p(4,8), of 0]
  show "clock_sim (snd (rtc_selftest_read_seconds s)) X now"
    using a3(1) by (simp add: rtc_selftest_read_seconds_def split_beta rtc_selftest_transaction_def)
  show "fst (rtc_selftest_read_seconds s) = seconds_now X now"
    using a0(2) a1(2) a2(2) a3(2)
    by (simp add: rtc_selftest_read_seconds_def split_beta rtc_selftest_transaction_def
        read_byte_for_cmd_def Let_def seconds_regs)
qed

lemma sim_advance: "clock_sim s X now \<Longrightarrow> clock_sim (rtc_selftest_advance k s) X (now + k)"
  by (simp add: clock_sim_def rtc_selftest_advance_def rtc_idle_def)

lemma sim_do:
  assumes "clock_sim s X now" "\<not> is_extended_cmd c" "c AND 0x80 = 0"
  shows "clock_sim (rtc_selftest_do c d s) (write_byte_for_cmd c d now X) now"
  using driven.sim_write [OF assms] by (simp add: selftest_transaction_defs)

lemma write_seconds:
  assumes "\<not> write_protect X" "cmd_reg c < 8"
  shows "write_byte_for_cmd c d now X =
     X\<lparr> seconds_base := set_seconds_byte (seconds_now X now) (unat (drop_bit 2 c AND 0x03)) d,
        seconds_base_cycle := now \<rparr>"
proof -
  have "cmd_reg c \<noteq> 13" "cmd_reg c \<noteq> 12" using assms(2) by auto
  then show ?thesis using assms by (simp add: write_byte_for_cmd_def Let_def)
qed

lemma seconds_now_set [simp]: "seconds_now (X\<lparr> seconds_base := b, seconds_base_cycle := now \<rparr>) now = b"
  by (simp add: seconds_now_def)

definition set_clock :: "u8 \<Rightarrow> u8 \<Rightarrow> u8 \<Rightarrow> u8 \<Rightarrow> via_sys \<Rightarrow> via_sys" where
  "set_clock b3 b2 b1 b0 s =
     rtc_selftest_do 0x0D b3 (rtc_selftest_do 0x09 b2 (rtc_selftest_do 0x05 b1 (rtc_selftest_do 0x01 b0 s)))"

lemma sim_set_clock:
  assumes "clock_sim s X now" "\<not> write_protect X"
  shows "clock_sim (set_clock b3 b2 b1 b0 s) (X\<lparr> seconds_base := be_word b3 b2 b1 b0, seconds_base_cycle := now \<rparr>) now"
proof -
  have p: "\<not> is_extended_cmd 0x01" "\<not> is_extended_cmd 0x05" "\<not> is_extended_cmd 0x09" "\<not> is_extended_cmd 0x0D"
    "0x01 AND (0x80 :: u8) = 0" "0x05 AND (0x80 :: u8) = 0" "0x09 AND (0x80 :: u8) = 0" "0x0D AND (0x80 :: u8) = 0"
    by (simp_all add: is_extended_cmd_def)
  note a0 = sim_do [OF assms(1) p(1,5), of b0]
  note a1 = sim_do [OF a0 p(2,6), of b1]
  note a2 = sim_do [OF a1 p(3,7), of b2]
  note a3 = sim_do [OF a2 p(4,8), of b3]
  show ?thesis
    using a3 assms(2) seconds_bytes [of "seconds_now X now" b0 b1 b2 b3]
    by (simp add: set_clock_def write_seconds seconds_regs)
qed

text \<open>
  Setting the clock: after the four seconds bytes have been written over the wires, a read of the
  clock any number of cycles later returns the value set plus the whole seconds that have passed,
  with 32-bit wrap-around.
\<close>

theorem rtc_seconds_set_read:
  assumes "rtc_idle s" and "\<not> write_protect (rtc_chip s)"
  shows "fst (rtc_selftest_read_seconds (rtc_selftest_advance k
           (rtc_selftest_do 0x0D b3 (rtc_selftest_do 0x09 b2 (rtc_selftest_do 0x05 b1 (rtc_selftest_do 0x01 b0 s)))))) =
         be_word b3 b2 b1 b0 + ucast (k div CYCLES_PER_SECOND)"
proof -
  have "clock_sim s (rtc_chip s) (host_cycle s)" using assms(1) by (simp add: clock_sim_def)
  from sim_read_seconds(2) [OF sim_advance [OF sim_set_clock [OF this assms(2), of b3 b2 b1 b0], of k]]
  show ?thesis by (simp add: set_clock_def seconds_now_def)
qed

theorem rtc_seconds_set_read_witness:
  "fst (rtc_selftest_read_seconds (rtc_selftest_advance 150000
     (rtc_selftest_do 0x0D 0xFF (rtc_selftest_do 0x09 0xFF (rtc_selftest_do 0x05 0xFF
       (rtc_selftest_do 0x01 0xFF idle_sys)))))) = 2"
  using rtc_seconds_set_read [OF idle_sys_idle, of 150000 "0xFF" "0xFF" "0xFF" "0xFF"]
  by (simp add: CYCLES_PER_SECOND_def be_word_def)

section \<open>The self tests pass\<close>

text \<open>
  Abstract chip: an idle system is known by its cycle and its store, and the scripts of the self test
  are evaluated on these two alone.
\<close>

fun rtc_of :: "u32 \<times> u64 \<times> bool \<times> bool \<times> (u8 \<Rightarrow> u8) \<Rightarrow> rtc" where
  "rtc_of (b, c, w, t, p) =
     (rtc_reset 0)\<lparr> seconds_base := b, seconds_base_cycle := c, write_protect := w, test_mode := t, pram := p \<rparr>"

definition chip_view :: "via_sys \<Rightarrow> rtc" where
  "chip_view s = rtc_of (rtc_store (rtc_chip s))"

lemma rtc_store_rtc_of [simp]: "rtc_store (rtc_of st) = st"
  by (cases st) (simp add: rtc_store_def)

lemma chip_view_sim: "rtc_idle s \<Longrightarrow> clock_sim s (chip_view s) (host_cycle s)"
  by (simp add: clock_sim_def chip_view_def)

lemma simD: "clock_sim s X now \<Longrightarrow> rtc_idle s \<and> host_cycle s = now \<and> chip_view s = rtc_of (rtc_store X)"
  by (simp add: clock_sim_def chip_view_def)

lemma view_do [simp]:
  assumes "\<not> is_extended_cmd c" "c AND 0x80 = 0" "rtc_idle s"
  shows "rtc_idle (rtc_selftest_do c d s)" "host_cycle (rtc_selftest_do c d s) = host_cycle s"
    "chip_view (rtc_selftest_do c d s) = rtc_of (rtc_store (write_byte_for_cmd c d (host_cycle s) (chip_view s)))"
  using simD [OF sim_do [OF chip_view_sim [OF assms(3)] assms(1,2)]] by auto

context bit_driver
begin

lemma view_write:
  assumes "\<not> is_extended_cmd c" "c AND 0x80 = 0" "rtc_idle s"
  shows "rtc_idle (snd (rtc_transaction shift c d s))"
    "host_cycle (snd (rtc_transaction shift c d s)) = host_cycle s"
    "chip_view (snd (rtc_transaction shift c d s)) = rtc_of (rtc_store (write_byte_for_cmd c d (host_cycle s) (chip_view s)))"
  using simD [OF sim_write [OF chip_view_sim [OF assms(3)] assms(1,2)]] by auto

lemma view_read:
  assumes "\<not> is_extended_cmd c" "c AND 0x80 \<noteq> 0" "rtc_idle s"
  shows "rtc_idle (snd (rtc_transaction shift c d s))"
    "host_cycle (snd (rtc_transaction shift c d s)) = host_cycle s"
    "chip_view (snd (rtc_transaction shift c d s)) = chip_view s"
    "fst (rtc_transaction shift c d s) = read_byte_for_cmd (chip_view s) c (host_cycle s)"
  using simD [OF sim_read(1) [OF chip_view_sim [OF assms(3)] assms(1,2)]]
    sim_read(2) [OF chip_view_sim [OF assms(3)] assms(1,2)] by (auto simp: chip_view_def)

lemma view_xpram:
  assumes "is_extended_cmd c" "rtc_idle s"
  shows "rtc_idle (snd (rtc_xpram_transaction shift c a d s))"
    "host_cycle (snd (rtc_xpram_transaction shift c a d s)) = host_cycle s"
    "chip_view (snd (rtc_xpram_transaction shift c a d s)) =
       (if c AND 0x80 = 0 then rtc_of (rtc_store (write_xpram d ((chip_view s)\<lparr> xp_addr := xpram_addr_for c a \<rparr>)))
        else chip_view s)"
    "c AND 0x80 \<noteq> 0 \<Longrightarrow> fst (rtc_xpram_transaction shift c a d s) = pram (chip_view s) (xpram_addr_for c a)"
proof -
  note sw = sim_xwrite [OF chip_view_sim [OF assms(2)] assms(1)]
    and sr = sim_xread [OF chip_view_sim [OF assms(2)] assms(1)]
  show "rtc_idle (snd (rtc_xpram_transaction shift c a d s))"
    "host_cycle (snd (rtc_xpram_transaction shift c a d s)) = host_cycle s"
    "chip_view (snd (rtc_xpram_transaction shift c a d s)) =
       (if c AND 0x80 = 0 then rtc_of (rtc_store (write_xpram d ((chip_view s)\<lparr> xp_addr := xpram_addr_for c a \<rparr>)))
        else chip_view s)"
    using simD [OF sw] simD [OF sr(1)] by (cases "c AND 0x80 = 0"; auto simp: chip_view_def)+
  show "c AND 0x80 \<noteq> 0 \<Longrightarrow> fst (rtc_xpram_transaction shift c a d s) = pram (chip_view s) (xpram_addr_for c a)"
    by (rule sr(2))
qed

end

lemma view_seconds [simp]:
  assumes "rtc_idle s"
  shows "rtc_idle (snd (rtc_selftest_read_seconds s))"
    "host_cycle (snd (rtc_selftest_read_seconds s)) = host_cycle s"
    "chip_view (snd (rtc_selftest_read_seconds s)) = chip_view s"
    "fst (rtc_selftest_read_seconds s) = seconds_now (chip_view s) (host_cycle s)"
  using simD [OF sim_read_seconds(1) [OF chip_view_sim [OF assms]]]
    sim_read_seconds(2) [OF chip_view_sim [OF assms]] by (auto simp: chip_view_def)

lemma view_advance [simp]:
  "rtc_idle (rtc_selftest_advance k s) = rtc_idle s"
  "host_cycle (rtc_selftest_advance k s) = host_cycle s + k"
  "chip_view (rtc_selftest_advance k s) = chip_view s"
  by (simp_all add: rtc_selftest_advance_def rtc_idle_def chip_view_def)

lemma view_port_b [simp]:
  "rtc_idle (snd (via1_read_reg 0 s)) = rtc_idle s"
  "host_cycle (snd (via1_read_reg 0 s)) = host_cycle s"
  "chip_view (snd (via1_read_reg 0 s)) = chip_view s"
  by (simp_all add: via1_read_reg_def map_via_def rtc_idle_def chip_view_def)

lemma view_start:
  "rtc_idle (rtc_selftest_start s)" "host_cycle (rtc_selftest_start s) = 0"
  "chip_view (rtc_selftest_start s) = rtc_reset 0" "fst (via1_read_reg 0 (rtc_selftest_start s)) AND 1 = 1"
  by (simp_all add: rtc_selftest_start_def rtc_idle_def chip_view_def rtc_store_def set_pins_eq rtc_sample_def
      rtc_select_def rtc_clk_fall_def rtc_deselect_def rtc_reset_def initial_via1_def via1_read_reg_def
      via1_port_b_read_def via1_input_b_def via1_clear_pb_handshake_def Let_def port_pins_def)

lemma is_extended_cmd_literal:
  "is_extended_cmd (numeral k) \<longleftrightarrow> numeral k AND 0x78 = (0x38 :: u8)" "\<not> is_extended_cmd 1"
  by (simp_all add: is_extended_cmd_def)

lemmas view_rules = selftest_transaction_defs
  driven.view_write driven.view_read driven.view_xpram pulled.view_write pulled.view_read pulled.view_xpram
  write_byte_for_cmd_def read_byte_for_cmd_def write_xpram_def cmd_reg_def is_extended_cmd_literal is_pram_reg_def
  rtc_store_def rtc_reset_def seconds_now_def set_seconds_byte_def pram_reset_byte_def CYCLES_PER_SECOND_def

text \<open>
  The clock self test of the harness passes from every state: with what the refinement says of
  each transaction, all ten of its checks hold.
\<close>

theorem rtc_selftest_passes: "run_rtc_sidechannel_selftest s"
  unfolding run_rtc_sidechannel_selftest_def
  by (simp add: Let_def split_beta view_start view_rules cong: let_weak_cong)

end
