(* ===== verification/Rom_Boot_Bus.thy ===== *)
theory Rom_Boot_Bus
  imports Via1 Device_Stubs
begin

text \<open>
  The memory map and the bus side of the ROM-boot harness (\<open>tb/tb_rom_boot.cpp\<close>): address
  classification, the device window, the 32-bit data port, the instruction port and the two
  per-cycle bus drivers.

  \<open>MemModel\<close> comes from the processor submodule, so its constants and its byte operations are the
  record \<open>'m mem_model\<close>, an argument of every definition that uses them.  The simulated core is seen
  only through its pins: \<open>daxi_pins\<close> and \<open>ifetch_pins\<close> are what the drivers read of them, and the
  outputs are the values the drivers set (data and response 0 where they leave the pin alone because
  nothing is valid).  \<open>harness\<close> collects the process variables.  A formatted
  stop message is a constructor of \<open>stop_reason\<close> with the numbers it prints.  Access statistics, watch
  and event logs do not feed back into the run and are left out.
\<close>

section \<open>Address map\<close>

record 'm mem_model =
  mem_read8 :: "'m \<Rightarrow> u32 \<Rightarrow> u8"
  mem_read32 :: "'m \<Rightarrow> u32 \<Rightarrow> u32"
  mem_write8 :: "'m \<Rightarrow> u32 \<Rightarrow> u8 \<Rightarrow> 'm"
  RAM_DECODE_SIZE :: u32
  MEM_VRAM_BASE :: u32
  MEM_VRAM_SIZE :: u32

definition Q700_ROM_BASE :: u32 where
  "Q700_ROM_BASE = 0x40000000"

definition Q700_ROM_SIZE :: u32 where
  "Q700_ROM_SIZE = 0x00100000"

definition OVERLAY_BYTES :: u32 where
  "OVERLAY_BYTES = 0x00040000"

definition AXI_RESP_OKAY :: u32 where
  "AXI_RESP_OKAY = 0"

definition AXI_RESP_SLVERR :: u32 where
  "AXI_RESP_SLVERR = 2"

definition AXI_RESP_DECERR :: u32 where
  "AXI_RESP_DECERR = 3"

definition IO_BASE :: u32 where
  "IO_BASE = 0x50000000"

definition IO_SIZE :: u32 where
  "IO_SIZE = 0x01000000"

definition IO_MIRROR_MASK :: u32 where
  "IO_MIRROR_MASK = 0x00FC0000"

text \<open>The device windows, base and size, in the order the code tests them.\<close>

datatype device = Dev_VIA1 | Dev_VIA2 | Dev_ENET | Dev_SONIC | Dev_SCC | Dev_ORWELL | Dev_TURBOSCSI
  | Dev_ASC | Dev_SWIM

fun dev_base :: "device \<Rightarrow> u32" where
  "dev_base Dev_VIA1 = 0x50000000"
| "dev_base Dev_VIA2 = 0x50002000"
| "dev_base Dev_ENET = 0x50008000"
| "dev_base Dev_SONIC = 0x5000A000"
| "dev_base Dev_SCC = 0x5000C000"
| "dev_base Dev_ORWELL = 0x5000E000"
| "dev_base Dev_TURBOSCSI = 0x5000F000"
| "dev_base Dev_ASC = 0x50014000"
| "dev_base Dev_SWIM = 0x5001E000"

fun dev_size :: "device \<Rightarrow> u32" where
  "dev_size Dev_VIA1 = 0x2000"
| "dev_size Dev_VIA2 = 0x2000"
| "dev_size Dev_ENET = 0x8"
| "dev_size Dev_SONIC = 0x1100"
| "dev_size Dev_SCC = 0x2000"
| "dev_size Dev_ORWELL = 0x100"
| "dev_size Dev_TURBOSCSI = 0x102"
| "dev_size Dev_ASC = 0x2000"
| "dev_size Dev_SWIM = 0x2000"

definition all_devices :: "device list" where
  "all_devices = [Dev_VIA1, Dev_VIA2, Dev_ENET, Dev_SONIC, Dev_SCC, Dev_ORWELL, Dev_TURBOSCSI, Dev_ASC, Dev_SWIM]"

definition q700_io_canonical :: "u32 \<Rightarrow> u32" where
  "q700_io_canonical a = a AND NOT IO_MIRROR_MASK"

definition in_range :: "u32 \<Rightarrow> u32 \<Rightarrow> u32 \<Rightarrow> bool" where
  "in_range a base len \<longleftrightarrow> base \<le> a \<and> a < base + len"

text \<open>The \<open>if\<close>/\<open>else if\<close> chain over the canonical address that \<open>io_read32\<close> and \<open>io_write32\<close> share.\<close>

definition io_device :: "u32 \<Rightarrow> device option" where
  "io_device ca = find (\<lambda>d. in_range ca (dev_base d) (dev_size d)) all_devices"

definition io_addr_backed :: "u32 \<Rightarrow> bool" where
  "io_addr_backed a \<longleftrightarrow>
     (let ca = q700_io_canonical a in list_ex (\<lambda>d. in_range ca (dev_base d) (dev_size d)) all_devices)"

definition DAFB_REG_BASE :: u32 where
  "DAFB_REG_BASE = 0xF9800000"

definition DAFB_REG_SIZE :: u32 where
  "DAFB_REG_SIZE = 0x1000"

definition is_dafb_reg_addr :: "u32 \<Rightarrow> bool" where
  "is_dafb_reg_addr addr \<longleftrightarrow> DAFB_REG_BASE \<le> addr \<and> addr < DAFB_REG_BASE + DAFB_REG_SIZE"

definition is_dafb_vram_addr :: "'m mem_model \<Rightarrow> u32 \<Rightarrow> bool" where
  "is_dafb_vram_addr M addr \<longleftrightarrow> MEM_VRAM_BASE M \<le> addr \<and> addr < MEM_VRAM_BASE M + MEM_VRAM_SIZE M"

section \<open>Harness state\<close>

record axi =
  ar_outstanding :: bool
  ar_addr :: u32
  ar_len :: u8
  ar_size :: u8
  ar_burst :: u8
  ar_beat :: u8
  ar_delay :: int
  aw_done :: bool
  w_done :: bool
  aw_addr :: u32
  w_data :: u32
  w_strb :: u32
  b_resp :: u32
  b_delay :: int
  b_pending :: bool

definition initial_axi :: axi where
  "initial_axi = \<lparr> ar_outstanding = False, ar_addr = 0, ar_len = 0, ar_size = 2, ar_burst = 1, ar_beat = 0,
     ar_delay = 0, aw_done = False, w_done = False, aw_addr = 0, w_data = 0, w_strb = 0, b_resp = 0,
     b_delay = 0, b_pending = False \<rparr>"

datatype stop_reason = Not_Stopped | Sentinel_Pass | Sentinel_Fail | Stop_Ifetch_Berr u32 | End_Ifetch_Berr u32
  | Cycle_Budget_Exhausted | Restored
  | Stop_Pc u32 u64 | End_Breakpoint u32 u64
  | Sad_Mac u32 u32 u32 | Disk_Prompt u32 u64 u32 u32 u32 u32
  | Stuck_Pc u32 u32 u64 | End_Stuck_Pc u32 u32 u64
  | No_Progress u64 u64 | End_No_Progress u64 u64
  | Stop_Exc u8 u32 u32 u32 u64 u32 | End_Exc u8 u32 u32 u32 u64 u32
  | Max_Insts_Reached | Low_Pc_Fetch | Ramtest_Bad_Range | Arch_Replay_Restored

record 'm harness =
  sys :: via_sys
  via2_regs :: "u8 \<Rightarrow> u8"
  h_asc :: asc
  h_scc :: scc
  h_swim :: swim
  h_turboscsi :: turboscsi
  h_mem :: 'm
  rom_img :: "u8 list"
  visible_ram_size :: u32
  strict_axi_resp :: bool
  unmapped_write_count :: "(u32 \<times> u64) list"
  unmapped_read_count :: "(u32 \<times> u64) list"
  if_pending :: int
  if_addr_q :: u32
  ax :: axi
  sim_time :: u64
  stop_cycle :: u64
  stop_on_ifetch_berr :: bool
  end_on_ifetch_berr :: bool
  last_ifetch_berr_addr :: u32
  last_logged_pc :: u32
  last_same_pc_count :: u32
  test_done :: bool
  h_stop_reason :: stop_reason

text \<open>\<open>std::map<uint32_t, uint64_t>\<close> as its elements in key order; \<open>bump\<close> is \<open>m[k]++\<close>.\<close>

fun smap_update :: "u32 \<Rightarrow> (u64 \<Rightarrow> u64) \<Rightarrow> (u32 \<times> u64) list \<Rightarrow> (u32 \<times> u64) list" where
  "smap_update k f [] = [(k, f 0)]"
| "smap_update k f ((k', v) # m) =
     (if k < k' then (k, f 0) # (k', v) # m
      else if k = k' then (k, f v) # m
      else (k', v) # smap_update k f m)"

definition bump :: "u32 \<Rightarrow> (u32 \<times> u64) list \<Rightarrow> (u32 \<times> u64) list" where
  "bump k = smap_update k (\<lambda>v. v + 1)"

section \<open>Classification\<close>

definition overlay_rom_for_ifetch :: "'m harness \<Rightarrow> u32 \<Rightarrow> bool" where
  "overlay_rom_for_ifetch h a \<longleftrightarrow> overlay (sys h) \<and> a < OVERLAY_BYTES"

definition overlay_rom_for_data :: "'m harness \<Rightarrow> u32 \<Rightarrow> bool" where
  "overlay_rom_for_data h a \<longleftrightarrow> strict_overlay (sys h) \<and> overlay (sys h) \<and> a < OVERLAY_BYTES"

definition daxi_resp_for_access :: "'m mem_model \<Rightarrow> 'm harness \<Rightarrow> u32 \<Rightarrow> bool \<Rightarrow> u32" where
  "daxi_resp_for_access M h a is_write =
     (let aa = a AND NOT 0x3; rom = (if is_write then AXI_RESP_SLVERR else AXI_RESP_OKAY) in
      if \<not> strict_axi_resp h then AXI_RESP_OKAY
      else if overlay_rom_for_data h aa then rom
      else if aa < visible_ram_size h then AXI_RESP_OKAY
      else if Q700_ROM_BASE \<le> aa \<and> aa < 0x50000000 then rom
      else if in_range aa IO_BASE IO_SIZE then (if io_addr_backed aa then AXI_RESP_OKAY else AXI_RESP_DECERR)
      else if is_dafb_vram_addr M aa then AXI_RESP_OKAY
      else if is_dafb_reg_addr aa then AXI_RESP_DECERR
      else AXI_RESP_DECERR)"

definition daxi_rresp_for_addr :: "'m mem_model \<Rightarrow> 'm harness \<Rightarrow> u32 \<Rightarrow> u32" where
  "daxi_rresp_for_addr M h a = daxi_resp_for_access M h a False"

definition daxi_bresp_for_addr :: "'m mem_model \<Rightarrow> 'm harness \<Rightarrow> u32 \<Rightarrow> u32" where
  "daxi_bresp_for_addr M h a = daxi_resp_for_access M h a True"

datatype addr_class = AC_RAM | AC_ROM | AC_IO | AC_UNMAPPED

definition classify :: "'m mem_model \<Rightarrow> 'm harness \<Rightarrow> u32 \<Rightarrow> addr_class" where
  "classify M h a =
     (if overlay_rom_for_data h a then AC_ROM
      else if a < visible_ram_size h then AC_RAM
      else if a < RAM_DECODE_SIZE M then AC_UNMAPPED
      else if Q700_ROM_BASE \<le> a \<and> a < Q700_ROM_BASE + Q700_ROM_SIZE then AC_ROM
      else if 0x40000000 \<le> a \<and> a < 0x50000000 then AC_ROM
      else if in_range a IO_BASE IO_SIZE then AC_IO
      else if is_dafb_reg_addr a then AC_UNMAPPED
      else if is_dafb_vram_addr M a then AC_RAM
      else if 0xFFFF0000 \<le> a \<and> a < 0xFFFF0010 then AC_RAM
      else AC_UNMAPPED)"

definition rom_offset_of :: "'m harness \<Rightarrow> u32 \<Rightarrow> u32" where
  "rom_offset_of h a =
     (if overlay_rom_for_ifetch h a then a AND (Q700_ROM_SIZE - 1)
      else (a - Q700_ROM_BASE) AND (Q700_ROM_SIZE - 1))"

definition rom_read8 :: "'m harness \<Rightarrow> u32 \<Rightarrow> u8" where
  "rom_read8 h off = (if unat off < length (rom_img h) then rom_img h ! unat off else 0xFF)"

definition cpu_read8 :: "'m mem_model \<Rightarrow> 'm harness \<Rightarrow> u32 \<Rightarrow> u8" where
  "cpu_read8 M h a =
     (if overlay_rom_for_ifetch h a then rom_read8 h (rom_offset_of h a)
      else case classify M h a of
        AC_ROM \<Rightarrow> rom_read8 h (rom_offset_of h a)
      | AC_RAM \<Rightarrow> mem_read8 M (h_mem h) a
      | _ \<Rightarrow> 0xFF)"

definition peek_cpu32 :: "'m mem_model \<Rightarrow> 'm harness \<Rightarrow> u32 \<Rightarrow> u32" where
  "peek_cpu32 M h a = be_word (cpu_read8 M h a) (cpu_read8 M h (a + 1)) (cpu_read8 M h (a + 2)) (cpu_read8 M h (a + 3))"

definition peek_data8 :: "'m mem_model \<Rightarrow> 'm harness \<Rightarrow> u32 \<Rightarrow> u8" where
  "peek_data8 M h a =
     (case classify M h a of
        AC_ROM \<Rightarrow> rom_read8 h (rom_offset_of h a)
      | AC_RAM \<Rightarrow> mem_read8 M (h_mem h) a
      | _ \<Rightarrow> 0xFF)"

definition peek_data32 :: "'m mem_model \<Rightarrow> 'm harness \<Rightarrow> u32 \<Rightarrow> u32" where
  "peek_data32 M h a = be_word (peek_data8 M h a) (peek_data8 M h (a + 1)) (peek_data8 M h (a + 2)) (peek_data8 M h (a + 3))"

section \<open>The device window\<close>

definition via_reg_index :: "u32 \<Rightarrow> u8" where
  "via_reg_index ca = ucast (drop_bit 9 ca AND 0xF)"

definition swim_reg_index :: "u32 \<Rightarrow> u8" where
  "swim_reg_index ca = ucast (drop_bit 9 (ca - dev_base Dev_SWIM) AND 0x0F)"

text \<open>One byte read from a device: the value and the harness after the read's side effects.\<close>

definition device_read :: "device \<Rightarrow> u32 \<Rightarrow> 'm harness \<Rightarrow> u8 \<times> 'm harness" where
  "device_read d ca h =
     (case d of
        Dev_VIA1 \<Rightarrow> (case via1_read_reg (via_reg_index ca) (sys h) of (v, s) \<Rightarrow> (v, h\<lparr> sys := s \<rparr>))
      | Dev_VIA2 \<Rightarrow>
          (let idx = via_reg_index ca in
           (if idx = 13 then 0 else if idx = 0 then 0xC7 else via2_regs h idx, h))
      | Dev_ENET \<Rightarrow> (0, h)
      | Dev_SONIC \<Rightarrow> (0, h)
      | Dev_SCC \<Rightarrow> (case scc_read (ca - dev_base Dev_SCC) (h_scc h) of (v, s) \<Rightarrow> (v, h\<lparr> h_scc := s \<rparr>))
      | Dev_ORWELL \<Rightarrow> (0, h)
      | Dev_TURBOSCSI \<Rightarrow> (turboscsi_io_read (ca - dev_base Dev_TURBOSCSI) (h_turboscsi h), h)
      | Dev_ASC \<Rightarrow> (case asc_read (ca - dev_base Dev_ASC) (h_asc h) of (v, s) \<Rightarrow> (v, h\<lparr> h_asc := s \<rparr>))
      | Dev_SWIM \<Rightarrow> (case swim_read (swim_reg_index ca) (h_swim h) of (v, s) \<Rightarrow> (v, h\<lparr> h_swim := s \<rparr>)))"

definition device_write :: "device \<Rightarrow> u32 \<Rightarrow> u8 \<Rightarrow> 'm harness \<Rightarrow> 'm harness" where
  "device_write d ca v h =
     (case d of
        Dev_VIA1 \<Rightarrow> h\<lparr> sys := rtc_selftest_write_via1 (via_reg_index ca) v (sys h) \<rparr>
      | Dev_VIA2 \<Rightarrow> h\<lparr> via2_regs := (via2_regs h)(via_reg_index ca := v) \<rparr>
      | Dev_ENET \<Rightarrow> h
      | Dev_SONIC \<Rightarrow> h
      | Dev_SCC \<Rightarrow> h\<lparr> h_scc := scc_write (ca - dev_base Dev_SCC) v (h_scc h) \<rparr>
      | Dev_ORWELL \<Rightarrow> h
      | Dev_TURBOSCSI \<Rightarrow> h\<lparr> h_turboscsi := turboscsi_io_write (ca - dev_base Dev_TURBOSCSI) v (h_turboscsi h) \<rparr>
      | Dev_ASC \<Rightarrow> h\<lparr> h_asc := asc_write (ca - dev_base Dev_ASC) v (h_asc h) \<rparr>
      | Dev_SWIM \<Rightarrow> h\<lparr> h_swim := swim_write (swim_reg_index ca) v (h_swim h) \<rparr>)"

definition io_read32 :: "u32 \<Rightarrow> 'm harness \<Rightarrow> u32 \<times> 'm harness" where
  "io_read32 a h =
     (let ca = q700_io_canonical a;
          (v, h') = (case io_device ca of
             Some d \<Rightarrow> device_read d ca h
           | None \<Rightarrow> (0, h\<lparr> unmapped_read_count := bump (a AND NOT 0xFF) (unmapped_read_count h) \<rparr>)) in
      (ucast v * 0x01010101, h'))"

definition io_write_lane :: "u32 \<Rightarrow> u32 \<Rightarrow> u8 \<Rightarrow> 'm harness \<Rightarrow> 'm harness" where
  "io_write_lane a lane_addr v h =
     (let ca = q700_io_canonical lane_addr in
      case io_device ca of
        Some d \<Rightarrow> device_write d ca v h
      | None \<Rightarrow> h\<lparr> unmapped_write_count := bump (a AND NOT 0xFF) (unmapped_write_count h) \<rparr>)"

text \<open>The lane loop: lane \<open>i\<close> is the byte at \<open>a + i\<close>, strobe bit \<open>3 - i\<close>.\<close>

definition lane_byte :: "u32 \<Rightarrow> nat \<Rightarrow> u8" where
  "lane_byte data i = ucast (drop_bit ((3 - i) * 8) data AND 0xFF)"

definition lane_on :: "u32 \<Rightarrow> nat \<Rightarrow> bool" where
  "lane_on strb i \<longleftrightarrow> strb AND push_bit (3 - i) 1 \<noteq> 0"

definition io_write32 :: "u32 \<Rightarrow> u32 \<Rightarrow> u32 \<Rightarrow> 'm harness \<Rightarrow> 'm harness" where
  "io_write32 a data strb h =
     fold (\<lambda>i h. if lane_on strb i then io_write_lane a (a + of_nat i) (lane_byte data i) h else h) [0, 1, 2, 3] h"

section \<open>The data port\<close>

definition daxi_read32 :: "'m mem_model \<Rightarrow> u32 \<Rightarrow> 'm harness \<Rightarrow> u32 \<times> 'm harness" where
  "daxi_read32 M a h =
     (let aa = a AND NOT 0x3 in
      case classify M h aa of
        AC_IO \<Rightarrow> io_read32 aa h
      | AC_ROM \<Rightarrow>
          (be_word (cpu_read8 M h aa) (cpu_read8 M h (aa + 1)) (cpu_read8 M h (aa + 2)) (cpu_read8 M h (aa + 3)), h)
      | AC_RAM \<Rightarrow> (mem_read32 M (h_mem h) aa, h)
      | AC_UNMAPPED \<Rightarrow>
          (if is_dafb_reg_addr aa then (0xFFFFFFFF, h)
           else (0xFFFFFFFF, h\<lparr> unmapped_read_count := bump (aa AND NOT 0xFF) (unmapped_read_count h) \<rparr>)))"

definition ram_write_lanes :: "'m mem_model \<Rightarrow> u32 \<Rightarrow> u32 \<Rightarrow> u32 \<Rightarrow> 'm \<Rightarrow> 'm" where
  "ram_write_lanes M aa data strb m =
     fold (\<lambda>i m. if lane_on strb i then mem_write8 M m (aa + of_nat i) (lane_byte data i) else m) [0, 1, 2, 3] m"

text \<open>The sentinel word that ends a synthetic test.\<close>

definition check_sentinel :: "u32 \<Rightarrow> u32 \<Rightarrow> u32 \<Rightarrow> 'm harness \<Rightarrow> 'm harness" where
  "check_sentinel aa data strb h =
     (if aa = 0xFFFF0000 \<and> strb = 0xF \<and> (data = 0xC0FFEE00 \<or> data = 0xDEADBEEF)
      then h\<lparr> test_done := True, h_stop_reason := (if data = 0xC0FFEE00 then Sentinel_Pass else Sentinel_Fail) \<rparr>
      else h)"

definition daxi_write32 :: "'m mem_model \<Rightarrow> u32 \<Rightarrow> u32 \<Rightarrow> u32 \<Rightarrow> 'm harness \<Rightarrow> 'm harness" where
  "daxi_write32 M a data strb h =
     (let aa = a AND NOT 0x3 in
      case classify M h a of
        AC_IO \<Rightarrow> io_write32 aa data strb h
      | AC_ROM \<Rightarrow> h\<lparr> unmapped_write_count := bump (a AND NOT 0xFF) (unmapped_write_count h) \<rparr>
      | AC_RAM \<Rightarrow> check_sentinel aa data strb (h\<lparr> h_mem := ram_write_lanes M aa data strb (h_mem h) \<rparr>)
      | AC_UNMAPPED \<Rightarrow>
          (if is_dafb_reg_addr aa then h
           else h\<lparr> unmapped_write_count := bump (a AND NOT 0xFF) (unmapped_write_count h) \<rparr>))"

section \<open>The instruction port\<close>

definition load_fetch_line :: "'m mem_model \<Rightarrow> 'm harness \<Rightarrow> u32 \<Rightarrow> u8 list" where
  "load_fetch_line M h addr = map (\<lambda>i. cpu_read8 M h ((addr AND NOT 0xF) + of_nat i)) [0..<16]"

definition ifetch_byte_backed :: "'m mem_model \<Rightarrow> 'm harness \<Rightarrow> u32 \<Rightarrow> bool" where
  "ifetch_byte_backed M h a \<longleftrightarrow> overlay_rom_for_ifetch h a \<or> classify M h a = AC_RAM \<or> classify M h a = AC_ROM"

definition ifetch_line_backed :: "'m mem_model \<Rightarrow> 'm harness \<Rightarrow> u32 \<Rightarrow> bool" where
  "ifetch_line_backed M h addr \<longleftrightarrow> list_all (\<lambda>i. ifetch_byte_backed M h ((addr AND NOT 0xF) + of_nat i)) [0..<16]"

definition check_stop_on_ifetch_berr :: "'m mem_model \<Rightarrow> u32 \<Rightarrow> 'm harness \<Rightarrow> bool \<times> 'm harness" where
  "check_stop_on_ifetch_berr M addr h =
     (if \<not> stop_on_ifetch_berr h \<and> \<not> end_on_ifetch_berr h \<or> ifetch_line_backed M h addr then (False, h)
      else
        let line = addr AND NOT 0xF in
        (True, h\<lparr> last_ifetch_berr_addr := line,
                  h_stop_reason := (if stop_on_ifetch_berr h then Stop_Ifetch_Berr line else End_Ifetch_Berr line),
                  test_done := True \<rparr>))"

record ifetch_pins =
  if_req :: bool
  if_addr :: u32

text \<open>The answer of a cycle: four words, least significant first, and the fault flag.\<close>

record ifetch_out =
  if_rdata :: "u32 list"
  if_rvalid :: bool
  if_fault :: bool

definition no_fetch :: ifetch_out where
  "no_fetch = \<lparr> if_rdata = [], if_rvalid = False, if_fault = False \<rparr>"

definition line_words :: "u8 list \<Rightarrow> u32 list" where
  "line_words l =
     [be_word (l ! 12) (l ! 13) (l ! 14) (l ! 15), be_word (l ! 8) (l ! 9) (l ! 10) (l ! 11),
      be_word (l ! 4) (l ! 5) (l ! 6) (l ! 7), be_word (l ! 0) (l ! 1) (l ! 2) (l ! 3)]"

definition ifetch_respond :: "'m mem_model \<Rightarrow> 'm harness \<Rightarrow> ifetch_out \<times> 'm harness" where
  "ifetch_respond M h =
     (if if_pending h > 0 then
        let h = h\<lparr> if_pending := if_pending h - 1 \<rparr> in
        if if_pending h = 0
        then (\<lparr> if_rdata = line_words (load_fetch_line M h (if_addr_q h)), if_rvalid = True,
                if_fault = \<not> ifetch_line_backed M h (if_addr_q h) \<rparr>, h)
        else (no_fetch, h)
      else (no_fetch, h))"

definition drive_ifetch :: "'m mem_model \<Rightarrow> ifetch_pins \<Rightarrow> 'm harness \<Rightarrow> ifetch_out \<times> 'm harness" where
  "drive_ifetch M p h =
     (if if_req p \<and> if_pending h = 0 then
        case check_stop_on_ifetch_berr M (if_addr p) h of
          (True, h) \<Rightarrow> (no_fetch, h)
        | (False, h) \<Rightarrow>
            ifetch_respond M (h\<lparr> sys := maybe_clear_overlay_from_high_rom_fetch (if_addr p) (sys h),
                                 if_addr_q := if_addr p, if_pending := 2 \<rparr>)
      else ifetch_respond M h)"

section \<open>The data port driver\<close>

record daxi_pins =
  daxi_arvalid :: bool
  daxi_araddr :: u32
  daxi_arlen :: u8
  daxi_arsize :: u8
  daxi_arburst :: u8
  daxi_rready :: bool
  daxi_awvalid :: bool
  daxi_awaddr :: u32
  daxi_wvalid :: bool
  daxi_wdata :: u32
  daxi_wstrb :: u32
  daxi_bready :: bool

record daxi_out =
  daxi_arready :: bool
  daxi_rvalid :: bool
  daxi_rlast :: bool
  daxi_rdata :: u32
  daxi_rresp :: u32
  daxi_awready :: bool
  daxi_wready :: bool
  daxi_bvalid :: bool
  daxi_bresp :: u32

text \<open>The read-address handshake at the top of \<open>drive_daxi\<close>.\<close>

definition accept_ar :: "daxi_pins \<Rightarrow> axi \<Rightarrow> axi" where
  "accept_ar p a =
     (if daxi_arvalid p \<and> \<not> ar_outstanding a \<and> \<not> b_pending a
      then a\<lparr> ar_addr := daxi_araddr p, ar_len := daxi_arlen p, ar_size := daxi_arsize p,
              ar_burst := daxi_arburst p, ar_beat := 0, ar_outstanding := True, ar_delay := 1 \<rparr>
      else a)"

definition beat_address :: "axi \<Rightarrow> u32" where
  "beat_address a =
     (if ar_burst a = 1 then ar_addr a + push_bit (unat (ar_size a)) (ucast (ar_beat a)) else ar_addr a)"

definition finish_beat :: "bool \<Rightarrow> axi \<Rightarrow> axi" where
  "finish_beat rready a =
     (if rready then
        if ar_beat a = ar_len a then a\<lparr> ar_outstanding := False \<rparr> else a\<lparr> ar_beat := ar_beat a + 1 \<rparr>
      else a)"

text \<open>The read channel: (valid, last, data, response) and the harness after the beat's read.\<close>

definition drive_read :: "'m mem_model \<Rightarrow> bool \<Rightarrow> 'm harness \<Rightarrow> (bool \<times> bool \<times> u32 \<times> u32) \<times> 'm harness" where
  "drive_read M rready h =
     (if ar_outstanding (ax h) then
        if ar_delay (ax h) > 0 then ((False, False, 0, 0), h\<lparr> ax := (ax h)\<lparr> ar_delay := ar_delay (ax h) - 1 \<rparr> \<rparr>)
        else
          let a = beat_address (ax h); (d, h') = daxi_read32 M a h in
          ((True, ar_beat (ax h) = ar_len (ax h), d, daxi_rresp_for_addr M h' a),
           h'\<lparr> ax := finish_beat rready (ax h') \<rparr>)
      else ((False, False, 0, 0), h))"

definition accept_aw_w :: "daxi_pins \<Rightarrow> axi \<Rightarrow> axi" where
  "accept_aw_w p a0 =
     (let aw = (daxi_awvalid p \<and> \<not> aw_done a0 \<and> \<not> b_pending a0);
          w = (daxi_wvalid p \<and> \<not> w_done a0 \<and> \<not> b_pending a0);
          a = (if aw then a0\<lparr> aw_addr := daxi_awaddr p, aw_done := True \<rparr> else a0) in
      if w then a\<lparr> w_data := daxi_wdata p, w_strb := daxi_wstrb p, w_done := True \<rparr> else a)"

definition commit_write :: "'m mem_model \<Rightarrow> 'm harness \<Rightarrow> 'm harness" where
  "commit_write M h0 =
     (if aw_done (ax h0) \<and> w_done (ax h0) \<and> \<not> b_pending (ax h0) then
        let h = daxi_write32 M (aw_addr (ax h0) AND NOT 0x3) (w_data (ax h0)) (w_strb (ax h0)) h0 in
        h\<lparr> ax := (ax h)\<lparr> b_resp := daxi_bresp_for_addr M h (aw_addr (ax h)), aw_done := False, w_done := False,
                         b_pending := True, b_delay := 1 \<rparr> \<rparr>
      else h0)"

definition drive_b :: "bool \<Rightarrow> axi \<Rightarrow> (bool \<times> u32) \<times> axi" where
  "drive_b bready a =
     (if b_pending a then
        if b_delay a > 0 then ((False, 0), a\<lparr> b_delay := b_delay a - 1 \<rparr>)
        else ((True, b_resp a), if bready then a\<lparr> b_pending := False \<rparr> else a)
      else ((False, 0), a))"

definition drive_daxi :: "'m mem_model \<Rightarrow> daxi_pins \<Rightarrow> 'm harness \<Rightarrow> daxi_out \<times> 'm harness" where
  "drive_daxi M p h0 =
     (let arready = (\<not> ar_outstanding (ax h0) \<and> \<not> b_pending (ax h0));
          h1 = h0\<lparr> ax := accept_ar p (ax h0) \<rparr>;
          ((rv, rl, rd, rr), h2) = drive_read M (daxi_rready p) h1;
          awready = (\<not> aw_done (ax h2) \<and> \<not> b_pending (ax h2));
          wready = (\<not> w_done (ax h2) \<and> \<not> b_pending (ax h2));
          h3 = commit_write M (h2\<lparr> ax := accept_aw_w p (ax h2) \<rparr>);
          ((bv, br), a) = drive_b (daxi_bready p) (ax h3) in
      (\<lparr> daxi_arready = arready, daxi_rvalid = rv, daxi_rlast = rl, daxi_rdata = rd, daxi_rresp = rr,
         daxi_awready = awready, daxi_wready = wready, daxi_bvalid = bv, daxi_bresp = br \<rparr>,
       h3\<lparr> ax := a \<rparr>))"

section \<open>One cycle\<close>

definition tick_cycle :: "'m harness \<Rightarrow> 'm harness" where
  "tick_cycle h0 =
     (let t = sim_time h0 + 1;
          h = h0\<lparr> sim_time := t,
                  sys := via1_timer_tick (via1_adb_tick ((sys h0)\<lparr> host_cycle := t \<rparr>)) \<rparr> in
      if stop_cycle h \<noteq> 0 \<and> stop_cycle h \<le> sim_time h
      then h\<lparr> test_done := True, h_stop_reason := Cycle_Budget_Exhausted \<rparr> else h)"

section \<open>Self tests of the bus\<close>

text \<open>The scripts and verdicts of the self tests; the local design and memory they make are not read.\<close>

definition run_adb_shadow_selftest :: "'m harness \<Rightarrow> bool" where
  "run_adb_shadow_selftest h0 =
     (let h = h0\<lparr> sys := (sys h0)\<lparr> via := initial_via1, overlay := True, host_cycle := 0 \<rparr>, sim_time := 0 \<rparr>;
          sr_addr = dev_base Dev_VIA1 + push_bit 9 10;
          h = io_write32 sr_addr 0xA5000000 0x8 h;
          saw_write = (adb_last_byte (via (sys h)) = 0xA5 \<and> adb_shift_in_progress (via (sys h)));
          t = sim_time h + ADB_SHIFT_DELAY_CYCLES;
          h = h\<lparr> sim_time := t, sys := via1_adb_tick ((sys h)\<lparr> host_cycle := t \<rparr>) \<rparr>;
          saw_complete = (ifr (via (sys h)) AND 0x04 \<noteq> 0);
          (read_back, h) = io_read32 sr_addr h;
          saw_read = (read_back = 0xFFFFFFFF);
          saw_read_clear = (ifr (via (sys h)) AND 0x04 = 0) in
      saw_write \<and> saw_complete \<and> saw_read \<and> saw_read_clear)"

text \<open>The serial half and the sound half of \<open>run_scc_asc_selftest\<close>.\<close>

definition selftest_scc :: "'m harness \<Rightarrow> bool \<times> 'm harness" where
  "selftest_scc h0 =
     (let h = h0;
          scc_b_ctrl = dev_base Dev_SCC + 0x00;
          scc_b_data = dev_base Dev_SCC + 0x04;
          scc_a_ctrl = dev_base Dev_SCC + 0x08;
          (rr0, h) = io_read32 scc_a_ctrl h;
          h = io_write32 scc_a_ctrl 0x02000000 0x8 h;
          h = io_write32 scc_a_ctrl 0x5A000000 0x8 h;
          h = io_write32 scc_b_ctrl 0x02000000 0x8 h;
          (rr2_b, h) = io_read32 scc_b_ctrl h;
          h = io_write32 scc_b_data 0xA5000000 0x8 h;
          (idle_data, h) = io_read32 scc_b_data h in
      (rr0 = 0x6C6C6C6C \<and> rr2_b = 0x5A5A5A5A \<and> idle_data = 0, h))"

definition selftest_asc :: "'m harness \<Rightarrow> bool" where
  "selftest_asc h0 =
     (let (asc_version, h) = io_read32 (dev_base Dev_ASC + 0x800) h0;
          h = io_write32 (dev_base Dev_ASC + 0x806) 0x40000000 0x8 h;
          h = io_write32 (dev_base Dev_ASC + 0x807) 0x03000000 0x8 h;
          h = io_write32 (dev_base Dev_ASC + 0x000) 0x80000000 0x8 h;
          h = io_write32 (dev_base Dev_ASC + 0x400) 0x40000000 0x8 h;
          h = io_write32 (dev_base Dev_ASC + 0xF09) 0x01000000 0x8 h;
          (volume, h) = io_read32 (dev_base Dev_ASC + 0x80A) h;
          (rate, h) = io_read32 (dev_base Dev_ASC + 0x808) h;
          (irq_ctl, h) = io_read32 (dev_base Dev_ASC + 0xF09) h in
      asc_version = 0 \<and> volume = 0x40404040 \<and> rate = 0x17171717 \<and> irq_ctl = 0x01010101 \<and>
      fifo_a_writes (h_asc h) = 1 \<and> fifo_b_writes (h_asc h) = 1)"

definition run_scc_asc_selftest :: "'m harness \<Rightarrow> bool" where
  "run_scc_asc_selftest h0 =
     (case selftest_scc (h0\<lparr> h_scc := initial_scc, h_asc := initial_asc \<rparr>) of
        (ok_scc, h) \<Rightarrow> ok_scc \<and> selftest_asc h)"

text \<open>\<open>for (uint8_t b : read6_cdb) io_write32(fifo_addr, ((uint32_t)b) << 24, 0x8u)\<close>.\<close>

fun selftest_fifo_writes :: "u32 list \<Rightarrow> 'm harness \<Rightarrow> 'm harness" where
  "selftest_fifo_writes [] h = h"
| "selftest_fifo_writes (b # bs) h =
     selftest_fifo_writes bs (io_write32 (dev_base Dev_TURBOSCSI + 0x02) (push_bit 24 b) 0x8 h)"

definition run_scsi_window_selftest :: "'m harness \<Rightarrow> bool" where
  "run_scsi_window_selftest h0 =
     (let h = h0\<lparr> h_turboscsi := turboscsi_reset \<rparr>;
          base = dev_base Dev_TURBOSCSI;
          h = io_write32 base 0x12000000 0x8 h;
          (reg_read, h) = io_read32 base h;
          h = io_write32 (base + 0x03) 0x41000000 0x8 h;
          h = io_write32 (base + 0x03) 0x10000000 0x8 h;
          (seq_read, h) = io_read32 (base + 0x06) h;
          (status_read, h) = io_read32 (base + 0x04) h;
          (intr_read, h) = io_read32 (base + 0x05) h;
          h = selftest_fifo_writes [0x08, 0x00, 0x12, 0x34, 0x02, 0x00] h;
          (data_status, h) = io_read32 (base + 0x04) h;
          (data_intr, h) = io_read32 (base + 0x05) h;
          h = io_write32 (base + 0x100) 0x34000000 0x8 h;
          (dma_read, h) = io_read32 (base + 0x100) h;
          h = io_write32 (base + 0x102) 0x56000000 0x8 h;
          (gap_read, h) = io_read32 (base + 0x102) h in
      reg_read = 0x12121212 \<and> seq_read = 0x12121212 \<and> status_read = 0x68686868 \<and> intr_read = 0x08080808 \<and>
      data_status = 0x64646464 \<and> data_intr = 0x40404040 \<and> dma_read = 0x34343434 \<and> gap_read = 0)"

definition run_harness_strictness_selftest :: "'m mem_model \<Rightarrow> 'm harness \<Rightarrow> bool" where
  "run_harness_strictness_selftest M h0 =
     (let h = h0\<lparr> rom_img := [0xDE, 0xAD, 0xBE, 0xEF] @ replicate 12 0xFF,
                  h_mem := mem_write8 M (mem_write8 M (mem_write8 M (mem_write8 M (h_mem h0) 0 0x11) 1 0x22) 2 0x33) 3 0x44 \<rparr>;
          h = h\<lparr> sys := (sys h)\<lparr> overlay := True, strict_overlay := False \<rparr>, strict_axi_resp := False \<rparr>;
          (legacy_low_read, h) = daxi_read32 M 0 h;
          legacy_unmapped_rresp = daxi_rresp_for_addr M h 0x60000000;
          h = h\<lparr> sys := maybe_clear_overlay_from_high_rom_fetch Q700_ROM_BASE (sys h) \<rparr>;
          legacy_auto_cleared = (\<not> overlay (sys h));
          h = h\<lparr> sys := (sys h)\<lparr> overlay := True, strict_overlay := True \<rparr>, strict_axi_resp := True \<rparr>;
          (strict_low_read, h) = daxi_read32 M 0 h;
          strict_unmapped_rresp = daxi_rresp_for_addr M h 0x60000000;
          strict_io_gap_rresp = daxi_rresp_for_addr M h 0x50004000;
          strict_rom_bresp = daxi_bresp_for_addr M h Q700_ROM_BASE;
          strict_overlay_bresp = daxi_bresp_for_addr M h 0;
          h = h\<lparr> sys := maybe_clear_overlay_from_high_rom_fetch Q700_ROM_BASE (sys h) \<rparr>;
          strict_overlay_retained = overlay (sys h) in
      legacy_low_read = 0x11223344 \<and> legacy_unmapped_rresp = AXI_RESP_OKAY \<and> legacy_auto_cleared \<and>
      strict_low_read = 0xDEADBEEF \<and> strict_unmapped_rresp = AXI_RESP_DECERR \<and>
      strict_io_gap_rresp = AXI_RESP_DECERR \<and> strict_rom_bresp = AXI_RESP_SLVERR \<and>
      strict_overlay_bresp = AXI_RESP_SLVERR \<and> strict_overlay_retained)"

end
