(* ===== verification/Rom_Boot_Selftests.thy ===== *)
theory Rom_Boot_Selftests
  imports Rom_Boot_Bus
begin

unbundle bit_operations_syntax

text \<open>
  The self tests of the ROM-boot harness that go through the bus, evaluated step by step on the model:
  each script is run with the state of every step normalised before the next.
\<close>

section \<open>Self tests\<close>

text \<open>A byte write is one lane.\<close>

lemma io_write_top_lane: "io_write32 a data 0x8 h = io_write_lane a a (ucast (drop_bit 24 data)) h"
proof -
  have "ucast (drop_bit 24 data AND 0xFF) = (ucast (drop_bit 24 data) :: u8)"
    by (rule word8_eqI) (auto simp: bit_ucast_iff bit_and_iff)
  then show ?thesis by (simp add: io_write32_def lane_on_def lane_byte_def)
qed

lemmas io_eval = io_write_top_lane io_write_lane_def io_read32_def q700_io_canonical_def IO_MIRROR_MASK_def
  io_device_def all_devices_def in_range_def device_read_def device_write_def

lemma first_of_six: "\<not> (6 :: u8) \<le> 1"
  by (simp add: word_le_nat_alt)

lemmas turboscsi_eval = first_of_six turboscsi_reset_def turboscsi_io_read_def turboscsi_io_write_def
  turboscsi_observe_write_def turboscsi_reg_write_def turboscsi_command_write_def turboscsi_fifo_write_def
  turboscsi_cdb_byte_def turboscsi_cdb_complete_def turboscsi_set_phase_def turboscsi_ack_flags_def
  turboscsi_status_value_def turboscsi_bus_and_stat_value_def turboscsi_phase_bits_def scsi_cdb_len_def
  scsi_cdb_opcode_observable_def

lemma adb_shadow_selftest_ok: "run_adb_shadow_selftest h"
  by (simp add: run_adb_shadow_selftest_def io_eval via_reg_index_def via1_read_reg_def via1_write_reg_def
      initial_via1_def write_sr_def map_via_def ADB_SHIFT_DELAY_CYCLES_def rtc_selftest_write_via1_def
      via1_adb_tick_def clear_ifr_def Let_def cong: let_weak_cong)

lemma scsi_window_selftest_ok: "run_scsi_window_selftest h"
  unfolding run_scsi_window_selftest_def Let_def split_beta
  by (simp add: io_eval turboscsi_eval Let_def cong: let_weak_cong)

lemma selftest_scc_ok:
  "\<exists>s. selftest_scc (h\<lparr> h_scc := initial_scc, h_asc := a \<rparr>) = (True, h\<lparr> h_asc := a, h_scc := s \<rparr>)"
  by (simp add: selftest_scc_def io_eval initial_scc_def RR0_IDLE_def scc_read_def scc_write_def
      scc_write_wr0_def scc_rr_def set_wr_def channel_index_def is_data_port_def Let_def cong: let_weak_cong)
     blast

lemma selftest_asc_ok: "selftest_asc (h\<lparr> h_asc := initial_asc, h_scc := s \<rparr>)"
  by (simp add: selftest_asc_def io_eval initial_asc_def RATE_DEFAULT_def asc_read_def asc_write_def Let_def
      cong: let_weak_cong)

lemma scc_asc_selftest_ok: "run_scc_asc_selftest h"
  using selftest_scc_ok [where h = h and a = initial_asc] selftest_asc_ok
  by (auto simp: run_scc_asc_selftest_def)

text \<open>
  The device self tests of the harness pass from every state: the ADB shadow, the serial and sound
  registers and the SCSI window all answer through the bus as their checks demand.
\<close>

theorem device_selftests_pass:
  "run_adb_shadow_selftest h \<and> run_scc_asc_selftest h \<and> run_scsi_window_selftest h"
  by (intro conjI adb_shadow_selftest_ok scc_asc_selftest_ok scsi_window_selftest_ok)

end
