(* ===== verification/Rom_Boot_Args.thy ===== *)
theory Rom_Boot_Args
  imports Soc_Prelude
begin

unbundle bit_operations_syntax

text \<open>
  The command-line arguments of the ROM-boot harness (\<open>parse_args\<close> and the list parsers of
  \<open>tb/tb_rom_boot.cpp\<close>): numbers as \<open>std::stoull\<close> reads them, sizes, lists of breakpoints, exception
  vectors, checkpoint points and watched address ranges.  A parser that exits is \<open>Inl\<close> of the exit
  status; a \<open>std::stoull\<close> that throws where nothing catches it ends the process by \<open>std::terminate\<close>,
  which is \<open>Inl ABORT\<close>.

  A sort in the source is not stable, but the sorted values are equal wherever their keys are, so
  \<open>sort_key\<close> is the same list.
\<close>

section \<open>Numbers\<close>

definition is_space :: "char \<Rightarrow> bool" where
  "is_space c \<longleftrightarrow> c = CHR '' '' \<or> (let n = of_char c :: nat in 9 \<le> n \<and> n \<le> 13)"

text \<open>The value of a digit; anything that is not one is past every base used here.\<close>

definition digit_val :: "char \<Rightarrow> nat" where
  "digit_val c =
     (let n = of_char c :: nat in
      if 48 \<le> n \<and> n \<le> 57 then n - 48
      else if 97 \<le> n \<and> n \<le> 102 then n - 87
      else if 65 \<le> n \<and> n \<le> 70 then n - 55
      else 99)"

definition digits_val :: "nat \<Rightarrow> string \<Rightarrow> nat" where
  "digits_val b ds = foldl (\<lambda>a c. a * b + digit_val c) 0 ds"

definition has_hex_prefix :: "string \<Rightarrow> bool" where
  "has_hex_prefix s = (case s of z # x # d # _ \<Rightarrow> z = CHR ''0'' \<and> (x = CHR ''x'' \<or> x = CHR ''X'') \<and> digit_val d < 16 | _ \<Rightarrow> False)"

definition is_sign :: "char \<Rightarrow> bool" where
  "is_sign c \<longleftrightarrow> c = CHR ''-'' \<or> c = CHR ''+''"

text \<open>
  \<open>std::stoull(tok, &consumed, base)\<close>: the value and the number of characters read, or \<open>None\<close> when it
  throws (no digits, or a value past 64 bits).  Base 0 reads the base off the prefix.
\<close>

definition stoull :: "nat \<Rightarrow> string \<Rightarrow> (u64 \<times> nat) option" where
  "stoull base tok =
     (let sp = takeWhile is_space tok; r0 = dropWhile is_space tok;
          signed = (r0 \<noteq> [] \<and> is_sign (hd r0));
          r1 = (if signed then tl r0 else r0);
          hex = (base = 0 \<and> has_hex_prefix r1);
          b = (if base \<noteq> 0 then base else if hex then 16 else if r1 \<noteq> [] \<and> hd r1 = CHR ''0'' then 8 else 10);
          r2 = (if hex then drop 2 r1 else r1);
          ds = takeWhile (\<lambda>c. digit_val c < b) r2;
          v = digits_val b ds in
      if ds = [] \<or> 2 ^ 64 \<le> v then None
      else Some (if signed \<and> hd r0 = CHR ''-'' then - of_nat v else of_nat v,
                 length sp + (if signed then 1 else 0) + (if hex then 2 else 0) + length ds))"

definition parse_uint64_auto :: "string \<Rightarrow> nat + u64" where
  "parse_uint64_auto tok =
     (case stoull 0 tok of
        None \<Rightarrow> Inl 2
      | Some (v, consumed) \<Rightarrow> if consumed \<noteq> length tok then Inl 2 else Inr v)"

section \<open>Sizes\<close>

text \<open>The limits \<open>RAM_WINDOW_MIN\<close> and \<open>RAM_BACKING_SIZE\<close> belong to the memory model.\<close>

definition parse_byte_size_arg :: "u64 \<Rightarrow> u64 \<Rightarrow> string \<Rightarrow> nat + u32" where
  "parse_byte_size_arg window_min backing_size tok =
     (if tok = [] then Inl 2
      else
        let kilo = (last tok = CHR ''k'' \<or> last tok = CHR ''K'');
            mega = (last tok = CHR ''m'' \<or> last tok = CHR ''M'');
            number = (if kilo \<or> mega then butlast tok else tok);
            scale = (if kilo then 1024 else if mega then 1024 * 1024 else 1) :: u64 in
        case parse_uint64_auto number of
          Inl e \<Rightarrow> Inl e
        | Inr n \<Rightarrow>
            if n = 0 \<or> n > (- 1) div scale then Inl 2
            else
              let bytes = n * scale in
              if bytes > backing_size \<or> bytes < window_min \<or> bytes AND 0x3 \<noteq> 0 \<or> bytes AND (bytes - 1) \<noteq> 0
              then Inl 2 else Inr (ucast bytes))"

section \<open>Lists\<close>

fun unique_by :: "('a \<Rightarrow> 'b) \<Rightarrow> 'a list \<Rightarrow> 'a list" where
  "unique_by f (x # y # zs) = (if f x = f y then unique_by f (x # zs) else x # unique_by f (y # zs))"
| "unique_by f xs = xs"

definition ABORT :: nat where
  "ABORT = 134"

fun push_uint64s :: "string list \<Rightarrow> u64 list \<Rightarrow> nat + u64 list" where
  "push_uint64s [] out = Inr out"
| "push_uint64s (tok # ts) out =
     (if tok = [] then push_uint64s ts out
      else case stoull 10 tok of None \<Rightarrow> Inl ABORT | Some (v, _) \<Rightarrow> push_uint64s ts (out @ [v]))"

definition parse_uint64_list :: "string \<Rightarrow> u64 list \<Rightarrow> nat + u64 list" where
  "parse_uint64_list spec out =
     (case push_uint64s (getline_commas [] spec) out of Inl e \<Rightarrow> Inl e | Inr l \<Rightarrow> Inr (unique_by id (sort l)))"

record pc_breakpoint =
  bp_pc :: u32
  bp_hits :: u64

fun push_breakpoints :: "string list \<Rightarrow> pc_breakpoint list \<Rightarrow> nat + pc_breakpoint list" where
  "push_breakpoints [] out = Inr out"
| "push_breakpoints (tok # ts) out =
     (if tok = [] then push_breakpoints ts out
      else case parse_uint64_auto tok of
             Inl e \<Rightarrow> Inl e
           | Inr pc64 \<Rightarrow>
               if pc64 > 0xFFFFFFFF then Inl 2
               else push_breakpoints ts (out @ [\<lparr> bp_pc = ucast pc64, bp_hits = 0 \<rparr>]))"

definition parse_pc_breakpoint_list :: "string \<Rightarrow> pc_breakpoint list \<Rightarrow> nat + pc_breakpoint list" where
  "parse_pc_breakpoint_list spec out =
     (case push_breakpoints (getline_commas [] spec) out of
        Inl e \<Rightarrow> Inl e
      | Inr l \<Rightarrow> Inr (unique_by bp_pc (sort_key bp_pc l)))"

definition add_exc_vec :: "u8 list \<Rightarrow> u8 \<Rightarrow> u8 list" where
  "add_exc_vec vecs vec = (if vec \<in> set vecs then vecs else sort (vecs @ [vec]))"

fun parse_exc_tokens :: "string list \<Rightarrow> u8 list \<Rightarrow> nat + u8 list" where
  "parse_exc_tokens [] out = Inr out"
| "parse_exc_tokens (tok # ts) out =
     (if tok = [] then parse_exc_tokens ts out
      else case parse_uint64_auto tok of
             Inl e \<Rightarrow> Inl e
           | Inr vec64 \<Rightarrow>
               if vec64 = 0 \<or> vec64 > 255 then Inl 2 else parse_exc_tokens ts (add_exc_vec out (ucast vec64)))"

definition parse_exc_list :: "string \<Rightarrow> u8 list \<Rightarrow> nat + u8 list" where
  "parse_exc_list spec out = parse_exc_tokens (getline_commas [] spec) out"

text \<open>Bus error, illegal instruction and F-line.\<close>

definition enable_rom_fault_vecs :: "u8 list \<Rightarrow> u8 list" where
  "enable_rom_fault_vecs vecs = add_exc_vec (add_exc_vec (add_exc_vec vecs 2) 4) 11"

section \<open>Watched ranges\<close>

record watch_range =
  wr_start :: u32
  wr_end :: u32

definition is_blank :: "char \<Rightarrow> bool" where
  "is_blank c \<longleftrightarrow> c = CHR '' '' \<or> c = CHR 0x09 \<or> c = CHR 0x0D \<or> c = CHR 0x0A"

definition trim_token :: "string \<Rightarrow> string" where
  "trim_token s = rev (dropWhile is_blank (rev (dropWhile is_blank s)))"

definition parse_watch_u32 :: "string \<Rightarrow> nat + u32" where
  "parse_watch_u32 tok =
     (case stoull 0 tok of
        None \<Rightarrow> Inl 2
      | Some (v, consumed) \<Rightarrow> if consumed \<noteq> length tok \<or> v > 0xFFFFFFFF then Inl 2 else Inr (ucast v))"

definition add_data_watch_range :: "u32 \<Rightarrow> u32 \<Rightarrow> watch_range list \<Rightarrow> nat + watch_range list" where
  "add_data_watch_range start fin out =
     (if fin < start then Inl 2 else Inr (out @ [\<lparr> wr_start = start, wr_end = fin \<rparr>]))"

text \<open>\<open>find\<close> of a separator from a position: the text before and after it.\<close>

fun split_at_sep :: "string \<Rightarrow> string \<Rightarrow> string \<Rightarrow> (string \<times> string) option" where
  "split_at_sep sep acc [] = None"
| "split_at_sep sep acc (c # cs) =
     (if take (length sep) (c # cs) = sep then Some (rev acc, drop (length sep) (c # cs))
      else split_at_sep sep (c # acc) cs)"

definition watch_pair :: "string \<times> string \<Rightarrow> (u32 \<Rightarrow> u32 \<Rightarrow> nat + 'a) \<Rightarrow> nat + 'a" where
  "watch_pair ab k =
     (case parse_watch_u32 (trim_token (fst ab)) of
        Inl e \<Rightarrow> Inl e
      | Inr x \<Rightarrow> (case parse_watch_u32 (trim_token (snd ab)) of Inl e \<Rightarrow> Inl e | Inr y \<Rightarrow> k x y))"

text \<open>One token: \<open>a..b\<close>, \<open>a+len\<close>, \<open>a-b\<close> (not a leading minus), or one address.\<close>

definition add_watch_token :: "string \<Rightarrow> watch_range list \<Rightarrow> nat + watch_range list" where
  "add_watch_token tok out =
     (case split_at_sep ''..'' [] tok of
        Some ab \<Rightarrow> watch_pair ab (\<lambda>a b. add_data_watch_range a b out)
      | None \<Rightarrow>
          (case split_at_sep ''+'' [] tok of
             Some ab \<Rightarrow>
               watch_pair ab (\<lambda>a len. if len = 0 \<or> a > 0xFFFFFFFF - (len - 1) then Inl 2
                                      else add_data_watch_range a (a + len - 1) out)
           | None \<Rightarrow>
               (case split_at_sep ''-'' [hd tok] (tl tok) of
                  Some ab \<Rightarrow> watch_pair ab (\<lambda>a b. add_data_watch_range a b out)
                | None \<Rightarrow> (case parse_watch_u32 tok of Inl e \<Rightarrow> Inl e | Inr a \<Rightarrow> add_data_watch_range a a out))))"

fun add_watch_tokens :: "string list \<Rightarrow> watch_range list \<Rightarrow> nat + watch_range list" where
  "add_watch_tokens [] out = Inr out"
| "add_watch_tokens (raw # ts) out =
     (let tok = trim_token raw in
      if tok = [] then add_watch_tokens ts out
      else case add_watch_token tok out of Inl e \<Rightarrow> Inl e | Inr out' \<Rightarrow> add_watch_tokens ts out')"

definition parse_data_watch_list :: "string \<Rightarrow> watch_range list \<Rightarrow> nat + watch_range list" where
  "parse_data_watch_list spec out =
     (case add_watch_tokens (getline_commas [] spec) out of
        Inl e \<Rightarrow> Inl e
      | Inr l \<Rightarrow> Inr (unique_by (\<lambda>r. (wr_start r, wr_end r)) (sort_key wr_start (sort_key wr_end l))))"

text \<open>
  Whether an access touches a watched range: the hull of the bytes accessed (all four for a read, the
  strobed ones for a write) is compared with each range in turn.
\<close>

definition access_hull :: "u32 \<Rightarrow> u32 \<Rightarrow> bool \<Rightarrow> u32 \<times> u32" where
  "access_hull addr strb write =
     fold (\<lambda>lane (first, last).
             if write \<and> strb AND push_bit (3 - lane) 1 = 0 then (first, last)
             else let b = addr + of_nat lane in (if b < first then b else first, if b > last then b else last))
       [0, 1, 2, 3] (0xFFFFFFFF, 0)"

fun first_overlap :: "u32 \<Rightarrow> u32 \<Rightarrow> watch_range list \<Rightarrow> watch_range option" where
  "first_overlap lo hi [] = None"
| "first_overlap lo hi (r # rs) = (if lo \<le> wr_end r \<and> wr_start r \<le> hi then Some r else first_overlap lo hi rs)"

definition data_watch_access_matches :: "watch_range list \<Rightarrow> u32 \<Rightarrow> u32 \<Rightarrow> bool \<Rightarrow> watch_range option" where
  "data_watch_access_matches ranges addr strb write =
     (if ranges = [] then None
      else case access_hull addr strb write of
             (lo, hi) \<Rightarrow> if lo = 0xFFFFFFFF then None else first_overlap lo hi ranges)"

end
