(* ===== verification/Via1_Adapter.thy ===== *)
theory Via1_Adapter
  imports Via1
begin

unbundle bit_operations_syntax

text \<open>
  The first adapter as the ROM sees it over a run: an inductive step relation of everything that can
  happen to it, its reachable states and their invariant, the one-way overlay, the interrupt registers,
  the exact moment a timer or the ADB shift shadow raises its flag, and the timer self test.
\<close>

section \<open>Steps\<close>

inductive via_step :: "via_sys \<Rightarrow> via_sys \<Rightarrow> bool" where
  reg_read: "via_step s (snd (via1_read_reg idx s))"
| reg_write: "via_step s (rtc_selftest_write_via1 idx v s)"
| cycle: "via_step s (via_cycle s)"
| fetch: "via_step s (maybe_clear_overlay_from_high_rom_fetch addr s)"

inductive via_run :: "via_sys \<Rightarrow> via_sys \<Rightarrow> bool" where
  idle: "via_run s s"
| more: "via_run s t \<Longrightarrow> via_step t u \<Longrightarrow> via_run s u"

definition via_inv :: "via1 \<Rightarrow> bool" where
  "via_inv v \<longleftrightarrow> bit (ier v) 7 \<and> \<not> bit (ifr v) 7 \<and> (t1_running v \<longrightarrow> t1_counter v \<noteq> 0) \<and>
     (t2_running v \<longrightarrow> t2_counter v \<noteq> 0)"

lemma bit7_literals [simp]:
  "bit (0x80 :: u8) 7" "\<not> bit (0x7F :: u8) 7" "\<not> bit (0x40 :: u8) 7" "\<not> bit (0x20 :: u8) 7" "\<not> bit (0x04 :: u8) 7"
  by simp_all

lemma via_inv_t1_tick: "via_inv v \<Longrightarrow> via_inv (t1_tick v)"
  by (simp add: via_inv_def t1_tick_def set_t1_bytes_def Let_def bit_or_iff)

lemma via_inv_t2_tick: "via_inv v \<Longrightarrow> via_inv (t2_tick v)"
  by (simp add: via_inv_def t2_tick_def set_t2_bytes_def Let_def bit_or_iff)

lemma via_inv_timer_tick: "via_inv (via s) \<Longrightarrow> via_inv (via (via1_timer_tick s))"
  by (simp add: via1_timer_tick_def Let_def via_inv_t1_tick via_inv_t2_tick)

lemma via_inv_adb_tick: "via_inv (via s) \<Longrightarrow> via_inv (via (via1_adb_tick s))"
  by (simp add: via1_adb_tick_def via_inv_def bit_or_iff)

lemma via_inv_cycle: "via_inv (via s) \<Longrightarrow> via_inv (via (via_cycle s))"
  by (simp add: via_cycle_def via_inv_timer_tick via_inv_adb_tick)

lemma via_inv_read: "via_inv (via s) \<Longrightarrow> via_inv (via (snd (via1_read_reg idx s)))"
  by (simp add: via1_read_reg_def map_via_def via_inv_def via1_clear_pb_handshake_def
      via1_clear_pa_handshake_def clear_ifr_def bit_and_iff)

lemma via_update_rtc_pins [simp]: "via (via1_update_rtc_pins s) = via s" "overlay (via1_update_rtc_pins s) = overlay s"
  by (simp_all add: via1_update_rtc_pins_def Let_def)

lemma via_update_overlay [simp]: "via (via1_update_overlay s) = via s"
  by (simp add: via1_update_overlay_def)

lemmas via_op_defs = via1_clear_pb_handshake_def via1_clear_pa_handshake_def clear_ifr_def
  write_t1ch_def write_t2ch_def write_sr_def write_ier_def

lemma via_inv_write_reg:
  assumes "via_inv (via s)" shows "via_inv (via (via1_write_reg idx v s))"
proof -
  have "via_inv (via1_clear_pb_handshake (a\<lparr> orb := v \<rparr>))" "via_inv (via1_clear_pa_handshake (a\<lparr> ora := v \<rparr>))"
    "via_inv (a\<lparr> ddrb := v \<rparr>)" "via_inv (a\<lparr> ddra := v \<rparr>)"
    "via_inv (a\<lparr> t1cl := v, t1_latch := l \<rparr>)" "via_inv (write_t1ch v a)" "via_inv (a\<lparr> t1ll := v, t1_latch := l \<rparr>)"
    "via_inv (clear_ifr 0x40 (a\<lparr> t1lh := v, t1_latch := l \<rparr>))" "via_inv (a\<lparr> t2cl := v, t2_latch := l \<rparr>)"
    "via_inv (write_t2ch v a)" "via_inv (write_sr v now a)" "via_inv (a\<lparr> acr := v \<rparr>)" "via_inv (a\<lparr> pcr := v \<rparr>)"
    "via_inv (clear_ifr m a)" "via_inv (write_ier v a)" "via_inv (a\<lparr> ora := v \<rparr>)"
    if "via_inv a" for a l now m
    using that by (simp_all add: via_inv_def via_op_defs Let_def bit_and_iff bit_or_iff bit_not_iff)
  with assms show ?thesis by (simp add: via1_write_reg_def map_via_def)
qed

lemma via_step_inv: "via_step s t \<Longrightarrow> via_inv (via s) \<Longrightarrow> via_inv (via t)"
  by (induction rule: via_step.induct)
     (simp_all add: via_inv_read via_inv_write_reg via_inv_cycle rtc_selftest_write_via1_def Let_def
      maybe_clear_overlay_from_high_rom_fetch_def)

text \<open>
  C32 Invariant of the adapter in every state reachable from reset by register reads, register writes,
  cycles and ROM fetches: the enable register reads back with bit 7 set, the flag register never holds
  the summary bit, and a timer that runs has a non-zero counter, so the guards of the tick against a
  zero counter never fire.
\<close>

theorem via_reachable_inv: "via_run initial_via_sys s \<Longrightarrow> via_inv (via s)"
proof (induction initial_via_sys s rule: via_run.induct)
  case idle
  show ?case by (simp add: via_inv_def initial_via_sys_def initial_via1_def)
next
  case (more t u)
  then show ?case using via_step_inv by blast
qed

theorem via_reachable_inv_witness: "via_inv (via (via_cycle initial_via_sys))"
  by (rule via_reachable_inv [OF via_run.more [OF via_run.idle via_step.cycle]])

lemma timer_tick_frame [simp]: "overlay (via1_timer_tick s) = overlay s" "host_cycle (via1_timer_tick s) = host_cycle s"
  by (simp_all add: via1_timer_tick_def Let_def)

lemma adb_tick_frame [simp]: "overlay (via1_adb_tick s) = overlay s" "host_cycle (via1_adb_tick s) = host_cycle s"
  by (simp_all add: via1_adb_tick_def)

lemma via_step_overlay: "via_step s t \<Longrightarrow> \<not> overlay s \<Longrightarrow> \<not> overlay t"
  by (induction rule: via_step.induct)
     (simp_all add: via_cycle_def via1_read_reg_def map_via_def rtc_selftest_write_via1_def via1_write_reg_def
      via1_update_overlay_def maybe_clear_overlay_from_high_rom_fetch_def Let_def)

text \<open>
  C34 The reset overlay is one-way: once it is off, no sequence of register accesses, cycles and fetches
  turns it on again.
\<close>

theorem overlay_one_way: "via_run s t \<Longrightarrow> \<not> overlay s \<Longrightarrow> \<not> overlay t"
  by (induction rule: via_run.induct) (auto dest: via_step_overlay)

theorem overlay_one_way_witness:
  "\<not> overlay (rtc_selftest_write_via1 0 0x08
      (rtc_selftest_write_via1 2 0x08 (rtc_selftest_write_via1 0 0 initial_via_sys)))"
  by (rule overlay_one_way [OF via_run.more [OF via_run.idle via_step.reg_write]])
     (simp add: rtc_selftest_write_via1_def via1_write_reg_def map_via_def via1_update_overlay_def
      via1_overlay_active_def via1_clear_pb_handshake_def Let_def)

section \<open>Timers\<close>

lemma t1_tick_frame [simp]:
  "acr (t1_tick v) = acr v" "t1_latch (t1_tick v) = t1_latch v" "t2_running (t1_tick v) = t2_running v"
  "adb_shift_in_progress (t1_tick v) = adb_shift_in_progress v"
  "adb_shift_complete_cyc (t1_tick v) = adb_shift_complete_cyc v"
  by (simp_all add: t1_tick_def set_t1_bytes_def Let_def)

lemma t2_tick_frame [simp]:
  "acr (t2_tick v) = acr v" "t1_latch (t2_tick v) = t1_latch v" "t1_running (t2_tick v) = t1_running v"
  "t1_counter (t2_tick v) = t1_counter v" "adb_shift_in_progress (t2_tick v) = adb_shift_in_progress v"
  "adb_shift_complete_cyc (t2_tick v) = adb_shift_complete_cyc v"
  by (simp_all add: t2_tick_def set_t2_bytes_def Let_def)

lemma tick_flags:
  "bit (ifr (t2_tick v)) 6 = bit (ifr v) 6" "bit (ifr (t2_tick v)) 2 = bit (ifr v) 2"
  "bit (ifr (t1_tick v)) 2 = bit (ifr v) 2"
  by (simp_all add: t1_tick_def t2_tick_def set_t1_bytes_def set_t2_bytes_def Let_def bit_or_iff)

text \<open>One decrement of a running Timer 1 that has more than one count left, and the last one.\<close>

lemma t1_tick_count:
  assumes "t1_running v" "unat (t1_counter v) = Suc n" "0 < n"
  shows "t1_running (t1_tick v)" "unat (t1_counter (t1_tick v)) = n" "bit (ifr (t1_tick v)) 6 = bit (ifr v) 6"
proof -
  have nz: "t1_counter v \<noteq> 0" using assms(2) by auto
  have d: "unat (t1_counter v - 1) = n" using assms(2) nz by (simp add: unat_minus_one)
  then have "t1_counter v - 1 \<noteq> 0" using assms(3) by auto
  then show "t1_running (t1_tick v)" "unat (t1_counter (t1_tick v)) = n" "bit (ifr (t1_tick v)) 6 = bit (ifr v) 6"
    using assms(1) nz d by (simp_all add: t1_tick_def set_t1_bytes_def Let_def)
qed

lemma t1_tick_wrap:
  assumes "t1_running v" "unat (t1_counter v) = 1"
  shows "bit (ifr (t1_tick v)) 6" "t1_running (t1_tick v) \<longleftrightarrow> acr v AND 0x40 \<noteq> 0"
    "acr v AND 0x40 \<noteq> 0 \<Longrightarrow> t1_counter (t1_tick v) = (if t1_latch v \<noteq> 0 then t1_latch v else 1)"
proof -
  have "t1_counter v = 1" using assms(2) by (metis unat_1 word_unat_eq_iff)
  then show "bit (ifr (t1_tick v)) 6" "t1_running (t1_tick v) \<longleftrightarrow> acr v AND 0x40 \<noteq> 0"
    "acr v AND 0x40 \<noteq> 0 \<Longrightarrow> t1_counter (t1_tick v) = (if t1_latch v \<noteq> 0 then t1_latch v else 1)"
    using assms(1) by (simp_all add: t1_tick_def set_t1_bytes_def Let_def bit_or_iff)
qed

text \<open>The prescaler, counted in natural numbers.\<close>

lemma timer_tick_prescaled:
  assumes "t1_running (via s)" "via1_timer_div s \<noteq> 0" "Suc (unat (via1_timer_div_ctr s)) < 2 ^ 64"
  shows "unat (via1_timer_div_ctr (via1_timer_tick s)) = Suc (unat (via1_timer_div_ctr s))"
    "via1_timer_div (via1_timer_tick s) = via1_timer_div s"
    "via (via1_timer_tick s) =
       (if Suc (unat (via1_timer_div_ctr s)) mod unat (via1_timer_div s) = 0
        then t2_tick (t1_tick (via s)) else via s)"
proof -
  have c: "unat (via1_timer_div_ctr s + 1) = Suc (unat (via1_timer_div_ctr s))"
    using assms(3) by (simp add: unat_word_ariths)
  have m: "(via1_timer_div_ctr s + 1) mod via1_timer_div s = 0 \<longleftrightarrow>
      Suc (unat (via1_timer_div_ctr s)) mod unat (via1_timer_div s) = 0"
    by (simp add: unat_eq_zero [symmetric] unat_mod_distrib c)
  show "unat (via1_timer_div_ctr (via1_timer_tick s)) = Suc (unat (via1_timer_div_ctr s))"
    "via1_timer_div (via1_timer_tick s) = via1_timer_div s"
    "via (via1_timer_tick s) =
       (if Suc (unat (via1_timer_div_ctr s)) mod unat (via1_timer_div s) = 0
        then t2_tick (t1_tick (via s)) else via s)"
    using assms(1,2) c m by (simp_all add: via1_timer_tick_def Let_def)
qed

lemma timer_ticks_Suc: "timer_ticks (Suc m) s = via1_timer_tick (timer_ticks m s)"
  by (induction m arbitrary: s) simp_all

text \<open>
  Before the wrap: with the prescaler \<open>d\<close> aligned, \<open>m\<close> ticks have counted down \<open>m div d\<close>.
\<close>

lemma timer1_countdown:
  fixes s
  defines "d \<equiv> unat (via1_timer_div s)" and "c \<equiv> unat (via1_timer_div_ctr s)" and "n \<equiv> unat (t1_counter (via s))"
  assumes "t1_running (via s)" "0 < d" "c mod d = 0" "c + n * d < 2 ^ 64" "m < n * d"
  shows "t1_running (via (timer_ticks m s)) \<and> via1_timer_div (timer_ticks m s) = via1_timer_div s \<and>
    unat (via1_timer_div_ctr (timer_ticks m s)) = c + m \<and>
    unat (t1_counter (via (timer_ticks m s))) = n - m div d \<and>
    bit (ifr (via (timer_ticks m s))) 6 = bit (ifr (via s)) 6 \<and>
    acr (via (timer_ticks m s)) = acr (via s) \<and> t1_latch (via (timer_ticks m s)) = t1_latch (via s)"
  using assms(8)
proof (induction m)
  case 0 then show ?case using assms by simp
next
  case (Suc m)
  let ?t = "timer_ticks m s"
  have IH: "t1_running (via ?t)" "via1_timer_div ?t = via1_timer_div s"
    "unat (via1_timer_div_ctr ?t) = c + m" "unat (t1_counter (via ?t)) = n - m div d"
    "bit (ifr (via ?t)) 6 = bit (ifr (via s)) 6" "acr (via ?t) = acr (via s)" "t1_latch (via ?t) = t1_latch (via s)"
    using Suc by auto
  have nz: "via1_timer_div ?t \<noteq> 0" using IH(2) assms(5) d_def by auto
  have lt: "Suc (unat (via1_timer_div_ctr ?t)) < 2 ^ 64" using IH(3) Suc.prems assms(7) by linarith
  note tt = timer_tick_prescaled [OF IH(1) nz lt, unfolded IH(2,3), folded d_def]
  have cm: "Suc (c + m) mod d = Suc m mod d" using assms(6) by (metis add_Suc_right mod_add_left_eq plus_nat.add_0)
  show ?case
  proof (cases "Suc m mod d = 0")
    case False
    then have "Suc m div d = m div d" by (simp add: div_Suc)
    then show ?thesis using False tt IH cm by (simp add: timer_ticks_Suc del: timer_ticks.simps)
  next
    case True
    then have dv: "Suc m div d = Suc (m div d)" by (simp add: div_Suc)
    have "Suc m div d < n" using Suc.prems assms(5) by (simp add: less_mult_imp_div_less)
    then have cnt: "unat (t1_counter (via ?t)) = Suc (n - Suc m div d)" "0 < n - Suc m div d" using IH(4) dv by simp_all
    note t1 = t1_tick_count [OF IH(1) cnt]
    show ?thesis using True tt IH cm t1 by (simp add: timer_ticks_Suc tick_flags del: timer_ticks.simps)
  qed
qed

text \<open>
  C33 Timer 1 raises its flag on exactly the right tick.  When it runs with \<open>n\<close> counts left and
  prescaler \<open>d\<close>, the flag (clear before) stays clear for \<open>n * d - 1\<close> ticks and is set by tick
  \<open>n * d\<close>; the timer then runs on, reloaded from its latch, exactly in free-run mode.
\<close>

theorem timer1_fires_exactly:
  fixes s
  defines "d \<equiv> unat (via1_timer_div s)" and "c \<equiv> unat (via1_timer_div_ctr s)" and "n \<equiv> unat (t1_counter (via s))"
  assumes "t1_running (via s)" "0 < d" "0 < n" "c mod d = 0" "c + n * d < 2 ^ 64" "\<not> bit (ifr (via s)) 6" "m \<le> n * d"
  shows "(bit (ifr (via (timer_ticks m s))) 6 \<longleftrightarrow> m = n * d) \<and>
     (t1_running (via (timer_ticks m s)) \<longleftrightarrow> m < n * d \<or> acr (via s) AND 0x40 \<noteq> 0) \<and>
     (m = n * d \<and> acr (via s) AND 0x40 \<noteq> 0 \<longrightarrow>
        t1_counter (via (timer_ticks m s)) = (if t1_latch (via s) \<noteq> 0 then t1_latch (via s) else 1))"
proof (cases "m < n * d")
  case True
  then show ?thesis
    using timer1_countdown [of s m] assms by auto
next
  case False
  then have m: "m = n * d" using assms(10) by simp
  obtain k where k: "n * d = Suc k" using assms(5,6) by (metis gr0_implies_Suc mult_pos_pos)
  obtain i where i: "n = Suc i" using assms(6) gr0_implies_Suc by blast
  let ?t = "timer_ticks k s"
  have t: "t1_running (via ?t)" "via1_timer_div ?t = via1_timer_div s"
    "unat (via1_timer_div_ctr ?t) = c + k" "unat (t1_counter (via ?t)) = n - k div d"
    "acr (via ?t) = acr (via s)" "t1_latch (via ?t) = t1_latch (via s)"
    using timer1_countdown [of s k] assms(4-9) k unfolding d_def c_def n_def by auto
  have "k = i * d + (d - 1)" using k assms(5) i by (simp add: algebra_simps)
  then have "k div d = i" using assms(5) by (intro div_nat_eqI) (simp_all add: mult.commute)
  then have one: "unat (t1_counter (via ?t)) = 1" using t(4) i by simp
  have nz: "via1_timer_div ?t \<noteq> 0" using t(2) assms(5) d_def by auto
  have lt: "Suc (unat (via1_timer_div_ctr ?t)) < 2 ^ 64" using t(3) k assms(8) by linarith
  have al: "Suc (c + k) mod d = 0" using assms(7) by (simp flip: add_Suc_right k)
  note tt = timer_tick_prescaled(3) [OF t(1) nz lt, unfolded t(2,3), folded d_def]
  show ?thesis
    using tt al t1_tick_wrap [OF t(1) one] t(5,6) unfolding m k
    by (simp add: timer_ticks_Suc tick_flags del: timer_ticks.simps)
qed

definition timer_sys :: via_sys where
  "timer_sys = via1_write_reg 5 0 (via1_write_reg 4 0x04 (initial_via_sys\<lparr> via1_timer_div := 2 \<rparr>))"

theorem timer1_fires_exactly_witness:
  "bit (ifr (via (timer_ticks 8 timer_sys))) 6 \<and> \<not> bit (ifr (via (timer_ticks 7 timer_sys))) 6"
proof -
  have s: "t1_running (via timer_sys)" "unat (via1_timer_div timer_sys) = 2" "unat (via1_timer_div_ctr timer_sys) = 0"
    "unat (t1_counter (via timer_sys)) = 4" "\<not> bit (ifr (via timer_sys)) 6"
    by (simp_all add: timer_sys_def via1_write_reg_def map_via_def write_t1ch_def latch_high_def latch_low_def
        initial_via_sys_def initial_via1_def Let_def)
  show ?thesis
    using timer1_fires_exactly [of timer_sys 8] timer1_fires_exactly [of timer_sys 7] s by simp
qed

section \<open>The ADB shift shadow\<close>

lemma adb_cycle_waiting:
  assumes "adb_shift_in_progress (via s)" "\<not> bit (ifr (via s)) 2" "host_cycle s + 1 < adb_shift_complete_cyc (via s)"
  shows "adb_shift_in_progress (via (via_cycle s))" "\<not> bit (ifr (via (via_cycle s))) 2"
    "adb_shift_complete_cyc (via (via_cycle s)) = adb_shift_complete_cyc (via s)"
    "host_cycle (via_cycle s) = host_cycle s + 1"
proof -
  have "\<not> adb_shift_complete_cyc (via s) \<le> host_cycle s + 1" using assms(3) by simp
  then show "adb_shift_in_progress (via (via_cycle s))" "\<not> bit (ifr (via (via_cycle s))) 2"
    "adb_shift_complete_cyc (via (via_cycle s)) = adb_shift_complete_cyc (via s)"
    "host_cycle (via_cycle s) = host_cycle s + 1"
    using assms by (simp_all add: via_cycle_def via1_adb_tick_def via1_timer_tick_def Let_def tick_flags)
qed

lemma adb_cycle_complete:
  assumes "adb_shift_in_progress (via s)" "adb_shift_complete_cyc (via s) \<le> host_cycle s + 1"
  shows "\<not> adb_shift_in_progress (via (via_cycle s))" "bit (ifr (via (via_cycle s))) 2"
  using assms by (simp_all add: via_cycle_def via1_adb_tick_def via1_timer_tick_def Let_def tick_flags bit_or_iff)

lemma adb_cycle_after:
  assumes "\<not> adb_shift_in_progress (via s)"
  shows "\<not> adb_shift_in_progress (via (via_cycle s))" "bit (ifr (via (via_cycle s))) 2 = bit (ifr (via s)) 2"
  using assms by (simp_all add: via_cycle_def via1_adb_tick_def via1_timer_tick_def Let_def tick_flags)

text \<open>
  The ADB shift shadow: after a write of the shift register the shift-complete flag is clear for
  the next 199 cycles, is set by cycle 200 and stays set while the ROM does not touch the adapter; the
  shift register then reads as all ones, the empty bus, and that read clears the flag.
\<close>

theorem adb_shift_completes_after_200:
  assumes "unat (host_cycle s) + 200 < 2 ^ 64"
  shows "(bit (ifr (via ((via_cycle ^^ k) (via1_write_reg 10 v s)))) 2 \<longleftrightarrow> 200 \<le> k) \<and>
    fst (via1_read_reg 10 ((via_cycle ^^ k) (via1_write_reg 10 v s))) = 0xFF \<and>
    \<not> bit (ifr (via (snd (via1_read_reg 10 ((via_cycle ^^ k) (via1_write_reg 10 v s)))))) 2"
proof -
  let ?w = "via1_write_reg 10 v s"
  define run where "run j = (via_cycle ^^ j) ?w" for j
  have run_Suc: "run (Suc j) = via_cycle (run j)" for j by (simp add: run_def)
  have c200: "unat (host_cycle s + 200) = unat (host_cycle s) + 200"
    using assms by (simp add: unat_word_ariths)
  have hc: "unat (host_cycle s + of_nat j) = unat (host_cycle s) + j" if "j \<le> 200" for j
    using that assms by (simp add: unat_word_ariths unat_of_nat)
  have wait: "adb_shift_in_progress (via (run j)) \<and> \<not> bit (ifr (via (run j))) 2 \<and>
      adb_shift_complete_cyc (via (run j)) = host_cycle s + 200 \<and> host_cycle (run j) = host_cycle s + of_nat j"
    if "j < 200" for j
    using that
  proof (induction j)
    case 0
    show ?case by (simp add: run_def via1_write_reg_def map_via_def write_sr_def ADB_SHIFT_DELAY_CYCLES_def bit_and_iff bit_not_iff)
  next
    case (Suc j)
    then have IH: "adb_shift_in_progress (via (run j))" "\<not> bit (ifr (via (run j))) 2"
      "adb_shift_complete_cyc (via (run j)) = host_cycle s + 200" "host_cycle (run j) = host_cycle s + of_nat j" by auto
    have "host_cycle (run j) + 1 < adb_shift_complete_cyc (via (run j))"
      using hc [of "Suc j"] c200 Suc.prems by (simp add: IH word_less_nat_alt ac_simps)
    from adb_cycle_waiting [OF IH(1,2) this] show ?case by (simp add: run_Suc IH ac_simps)
  qed
  have fire: "\<not> adb_shift_in_progress (via (run (200 + j))) \<and> bit (ifr (via (run (200 + j)))) 2" for j
  proof (induction j)
    case 0
    have "adb_shift_complete_cyc (via (run 199)) \<le> host_cycle (run 199) + 1" using wait [of 199] by (simp add: ac_simps)
    with wait [of 199] run_Suc [of 199] show ?case using adb_cycle_complete [of "run 199"] by simp
  next
    case (Suc j)
    then show ?case using adb_cycle_after [of "run (200 + j)"] run_Suc [of "200 + j"] by simp
  qed
  have "bit (ifr (via (run k))) 2 \<longleftrightarrow> 200 \<le> k"
    using wait [of k] fire [of "k - 200"] by (cases "k < 200") auto
  then show ?thesis
    unfolding run_def by (simp add: via1_read_reg_def map_via_def clear_ifr_def bit_and_iff bit_not_iff)
qed

theorem adb_shift_completes_after_200_witness:
  "bit (ifr (via ((via_cycle ^^ 200) (via1_write_reg 10 0xA5 initial_via_sys)))) 2 \<and>
   \<not> bit (ifr (via ((via_cycle ^^ 199) (via1_write_reg 10 0xA5 initial_via_sys)))) 2"
  using adb_shift_completes_after_200 [of initial_via_sys 200 "0xA5"]
    adb_shift_completes_after_200 [of initial_via_sys 199 "0xA5"]
  by (simp add: initial_via_sys_def del: funpow.simps)

section \<open>Interrupt registers\<close>

lemma bit7_only: "bit (0x80 :: u8) n \<longleftrightarrow> n = 7"
proof -
  have "bit (push_bit 7 (1 :: u8)) n \<longleftrightarrow> n = 7" unfolding bit_push_bit_iff bit_1_iff by auto
  then show "bit (0x80 :: u8) n \<longleftrightarrow> n = 7" by simp
qed

text \<open>
  The interrupt registers.  A read of the flag register shows the seven flags, and its bit 7 is set
  exactly when an enabled flag is pending; a write of it clears the flags written as one; a write of
  the enable register sets or clears the enables written as one, as its own bit 7 says; bits not
  named in a write keep their value.
\<close>

theorem interrupt_registers:
  assumes "n < 7"
  shows "(bit (fst (via1_read_reg 13 s)) n \<longleftrightarrow> bit (ifr (via s)) n) \<and>
    (bit (fst (via1_read_reg 13 s)) 7 \<longleftrightarrow> (\<exists>k<7. bit (ifr (via s)) k \<and> bit (ier (via s)) k)) \<and>
    (bit (ifr (via (via1_write_reg 13 v s))) n \<longleftrightarrow> bit (ifr (via s)) n \<and> \<not> bit v n) \<and>
    (bit (ier (via (via1_write_reg 14 v s))) n \<longleftrightarrow>
       (if bit v 7 then bit (ier (via s)) n \<or> bit v n else bit (ier (via s)) n \<and> \<not> bit v n))"
proof -
  have m: "(0x7F :: u8) = mask 7" by (simp add: mask_eq_exp_minus_1)
  have b7: "(w AND 0x80 = 0) = (\<not> bit w 7)" for w :: u8
    using and_exp_eq_0_iff_not_bit [of w 7] by simp
  have z: "(w AND 0x7F = 0) = (\<forall>k<7. \<not> bit w k)" for w :: u8
    unfolding m bit_eq_iff bit_and_iff bit_mask_iff bit_0_eq using bit_imp_le_length [of w] by auto
  have "n = 0 \<or> n = 1 \<or> n = 2 \<or> n = 3 \<or> n = 4 \<or> n = 5 \<or> n = 6" using assms by arith
  then show ?thesis
    using z [of "ifr (via s) AND ier (via s)"]
    by (elim disjE) (simp_all add: via1_read_reg_def via1_write_reg_def map_via_def clear_ifr_def write_ier_def ifr_read_def
        bit_or_iff bit_and_iff bit_not_iff bit7_only b7 and.assoc)
qed

theorem interrupt_registers_witness:
  "bit (ier (via (via1_write_reg 14 0xA0 initial_via_sys))) 5"
  using interrupt_registers [of 5 initial_via_sys "0xA0"] by simp

section \<open>The timer self test\<close>

lemma timer_ticks_numeral [simp]: "timer_ticks (numeral k) s = timer_ticks (pred_numeral k) (via1_timer_tick s)"
  by (simp add: numeral_eq_Suc)

text \<open>
  The timer self test of the harness passes from every state: port multiplexing, the data-direction
  gate of the overlay, both timers in all their modes and their acknowledgement.
\<close>

theorem via1_selftest_passes: "run_via1_t1_selftest s"
  by (simp add: run_via1_t1_selftest_def initial_via1_def rtc_reset_def via1_read_reg_def via1_write_reg_def
      map_via_def via1_port_b_read_def via1_input_b_def via1_port_a_read_def via1_input_a_def
      via1_overlay_active_def via1_cb2_independent_irq_def via1_ca2_independent_irq_def via1_update_overlay_def
      via_op_defs set_flags_def ifr_read_def latch_low_def latch_high_def via1_timer_tick_def t1_tick_def t2_tick_def
      set_t1_bytes_def set_t2_bytes_def Let_def cong: let_weak_cong)

end
