(* ===== verification/Rom_Boot_Bus_Props.thy ===== *)
theory Rom_Boot_Bus_Props
  imports Rom_Boot_Bus Via1_Adapter Device_Stubs_Props
begin

unbundle bit_operations_syntax

text \<open>
  Properties of the bus of the ROM-boot harness: the address map, memory through the data port, the
  instruction port, bursts and write responses, the invariant of the whole harness over a run.  \<open>mem_contract\<close> states what is relied on of \<open>MemModel\<close>.
\<close>

section \<open>What the memory model promises\<close>

text \<open>
  As its host checks (\<open>tb/tb_mem_model.cpp\<close>) and the harness's comments document it: a byte written at a mapped address is kept and
  nothing else changes, every unmapped address reads as open bus, and words are big-endian.  Nothing is said of writes to
  unmapped addresses.
\<close>

definition mem_contract :: "'m mem_model \<Rightarrow> u32 set \<Rightarrow> bool" where
  "mem_contract M mapped \<longleftrightarrow>
     (\<forall>m a b v. a \<in> mapped \<longrightarrow> mem_read8 M (mem_write8 M m a v) b = (if a = b then v else mem_read8 M m b)) \<and>
     (\<forall>m b. b \<notin> mapped \<longrightarrow> mem_read8 M m b = 0xFF) \<and>
     (\<forall>m a. mem_read32 M m a = be_word (mem_read8 M m a) (mem_read8 M m (a + 1)) (mem_read8 M m (a + 2)) (mem_read8 M m (a + 3)))"

text \<open>A flat memory with the constants the comments of the source give, and one with windows that meets the contract.\<close>

definition flat_mem :: "(u32 \<Rightarrow> u8) mem_model" where
  "flat_mem = \<lparr> mem_read8 = (\<lambda>m a. m a),
     mem_read32 = (\<lambda>m a. be_word (m a) (m (a + 1)) (m (a + 2)) (m (a + 3))),
     mem_write8 = (\<lambda>m a v. m(a := v)), RAM_DECODE_SIZE = 0x40000000, MEM_VRAM_BASE = 0xF9000000,
     MEM_VRAM_SIZE = 0x00200000 \<rparr>"

definition windows :: "u32 set" where
  "windows = {a. a < 0x04000000 \<or> 0xF9000000 \<le> a \<and> a < 0xF9200000 \<or> 0xFFFF0000 \<le> a}"

definition window_mem :: "(u32 \<Rightarrow> u8) mem_model" where
  "window_mem = flat_mem\<lparr> mem_read8 := (\<lambda>m a. if a \<in> windows then m a else 0xFF),
     mem_read32 := (\<lambda>m a. let r = (\<lambda>a. if a \<in> windows then m a else 0xFF) in be_word (r a) (r (a + 1)) (r (a + 2)) (r (a + 3))),
     mem_write8 := (\<lambda>m a v. if a \<in> windows then m(a := v) else m) \<rparr>"

lemma window_mem_contract: "mem_contract window_mem windows"
  by (auto simp: mem_contract_def window_mem_def flat_mem_def Let_def)

definition flat_harness :: "(u32 \<Rightarrow> u8) harness" where
  "flat_harness = \<lparr> sys = initial_via_sys, via2_regs = (\<lambda>_. 0), h_asc = initial_asc, h_scc = initial_scc,
     h_swim = initial_swim, h_turboscsi = turboscsi_reset, h_mem = (\<lambda>_. 0), rom_img = [0x42, 0x0D, 0xBF, 0xF3],
     visible_ram_size = 0x00400000, strict_axi_resp = True, unmapped_write_count = [], unmapped_read_count = [],
     if_pending = 0, if_addr_q = 0, ax = initial_axi, sim_time = 0, stop_cycle = 0,
     stop_on_ifetch_berr = False, end_on_ifetch_berr = False, last_ifetch_berr_addr = 0, last_logged_pc = 0,
     last_same_pc_count = 0, test_done = False, h_stop_reason = Not_Stopped \<rparr>"

section \<open>The address map\<close>

lemma in_range_nat:
  "unat base + unat len < 2 ^ 32 \<Longrightarrow> in_range a base len \<longleftrightarrow> unat base \<le> unat a \<and> unat a < unat base + unat len"
  by (simp add: in_range_def word_le_nat_alt word_less_nat_alt unat_word_ariths)

definition dev_range :: "device \<Rightarrow> nat \<times> nat" where
  "dev_range d = (unat (dev_base d), unat (dev_base d) + unat (dev_size d))"

lemma in_dev_range: "in_range a (dev_base d) (dev_size d) \<longleftrightarrow> fst (dev_range d) \<le> unat a \<and> unat a < snd (dev_range d)"
  unfolding dev_range_def by (subst in_range_nat) (cases d; simp)+

lemma dev_range_simps [simp]:
  "dev_range Dev_VIA1 = (0x50000000, 0x50002000)" "dev_range Dev_VIA2 = (0x50002000, 0x50004000)"
  "dev_range Dev_ENET = (0x50008000, 0x50008008)" "dev_range Dev_SONIC = (0x5000A000, 0x5000B100)"
  "dev_range Dev_SCC = (0x5000C000, 0x5000E000)" "dev_range Dev_ORWELL = (0x5000E000, 0x5000E100)"
  "dev_range Dev_TURBOSCSI = (0x5000F000, 0x5000F102)" "dev_range Dev_ASC = (0x50014000, 0x50016000)"
  "dev_range Dev_SWIM = (0x5001E000, 0x50020000)"
  by (simp_all add: dev_range_def)

lemma dev_ranges_disjoint:
  "in_range a (dev_base d) (dev_size d) \<Longrightarrow> in_range a (dev_base e) (dev_size e) \<Longrightarrow> d = e"
  unfolding in_dev_range by (cases d; cases e; simp)

lemma all_devices_complete: "d \<in> set all_devices"
  by (cases d) (simp_all add: all_devices_def)

lemma find_unique:
  "(\<And>x y. P x \<Longrightarrow> P y \<Longrightarrow> x = y) \<Longrightarrow> x \<in> set xs \<Longrightarrow> find P xs = Some x \<longleftrightarrow> P x"
  by (cases "find P xs") (auto simp: find_None_iff find_Some_iff)

text \<open>
  The device windows do not overlap: an address is served by a device exactly when it lies in that
  device's window, whatever the order in which the decoder tests them; the strict response says
  decode error exactly for the device addresses that no device serves; and an access anywhere in a
  mirror of the device area reaches the same device register with the same effect.
\<close>

theorem device_decode_exact:
  "(io_device ca = Some d \<longleftrightarrow> in_range ca (dev_base d) (dev_size d)) \<and>
   (io_addr_backed a \<longleftrightarrow> io_device (q700_io_canonical a) \<noteq> None) \<and>
   (q700_io_canonical a = q700_io_canonical b \<and> io_addr_backed a \<longrightarrow>
      io_read32 a h = io_read32 b h \<and> io_write_lane x a v h = io_write_lane y b v h)"
proof (intro conjI impI)
  show "io_device ca = Some d \<longleftrightarrow> in_range ca (dev_base d) (dev_size d)"
    unfolding io_device_def by (rule find_unique [OF dev_ranges_disjoint all_devices_complete])
  show backed: "io_addr_backed a \<longleftrightarrow> io_device (q700_io_canonical a) \<noteq> None"
    by (auto simp: io_addr_backed_def io_device_def Let_def list_ex_iff find_None_iff)
  assume "q700_io_canonical a = q700_io_canonical b \<and> io_addr_backed a"
  then have "q700_io_canonical a = q700_io_canonical b" and s: "io_device (q700_io_canonical b) \<noteq> None"
    using backed by auto
  then show "io_read32 a h = io_read32 b h" "io_write_lane x a v h = io_write_lane y b v h"
    by (auto simp: io_read32_def io_write_lane_def Let_def)
qed

theorem device_decode_exact_witness:
  "io_read32 0x50F01C00 flat_harness = io_read32 0x50001C00 flat_harness"
  using device_decode_exact [of 0 Dev_VIA1 "0x50F01C00" "0x50001C00" flat_harness 0 0 0]
  by (simp add: q700_io_canonical_def IO_MIRROR_MASK_def io_addr_backed_def all_devices_def in_range_def)

text \<open>What the memory constants promise about the layout.\<close>

definition layout_ok :: "'m mem_model \<Rightarrow> 'm harness \<Rightarrow> bool" where
  "layout_ok M h \<longleftrightarrow> visible_ram_size h \<le> RAM_DECODE_SIZE M \<and> RAM_DECODE_SIZE M = 0x40000000 \<and>
     MEM_VRAM_BASE M = 0xF9000000 \<and> MEM_VRAM_SIZE M = 0x00200000"

lemma in_io_nat: "in_range a IO_BASE IO_SIZE \<longleftrightarrow> 0x50000000 \<le> unat a \<and> unat a < 0x51000000"
  by (subst in_range_nat) (simp_all add: IO_BASE_def IO_SIZE_def)

lemma in_dafb_nat: "is_dafb_reg_addr a \<longleftrightarrow> 0xF9800000 \<le> unat a \<and> unat a < 0xF9801000"
  by (simp add: is_dafb_reg_addr_def DAFB_REG_BASE_def DAFB_REG_SIZE_def word_le_nat_alt word_less_nat_alt)

lemma in_vram_nat:
  "layout_ok M h \<Longrightarrow> is_dafb_vram_addr M a \<longleftrightarrow> 0xF9000000 \<le> unat a \<and> unat a < 0xF9200000"
  by (simp add: layout_ok_def is_dafb_vram_addr_def word_le_nat_alt word_less_nat_alt)

lemma aligned: "(a :: u32) AND 3 = 0 \<Longrightarrow> a AND NOT 3 = a"
proof -
  assume z: "a AND 3 = 0"
  have "a = (a AND NOT 3) OR (a AND 3)" by (rule bit_word_eqI, unfold bit_or_iff bit_and_iff bit_not_iff) auto
  then show ?thesis using z by simp
qed

definition sentinel_addr :: "u32 \<Rightarrow> bool" where
  "sentinel_addr a \<longleftrightarrow> 0xFFFF0000 \<le> a \<and> a < 0xFFFF0010"

text \<open>
  C31 The strict bus response agrees with the decoder.  For every word address outside the simulator's
  sentinel words, a read of RAM or ROM is answered OKAY, a write OKAY in RAM and SLVERR in ROM, a device
  address OKAY or DECERR as a device serves it, and everything else DECERR.
\<close>

theorem strict_response_matches_decode:
  assumes "layout_ok M h" and "strict_axi_resp h" and "a AND 3 = 0" and "\<not> sentinel_addr a"
  shows "daxi_resp_for_access M h a w =
    (case classify M h a of
       AC_RAM \<Rightarrow> AXI_RESP_OKAY
     | AC_ROM \<Rightarrow> (if w then AXI_RESP_SLVERR else AXI_RESP_OKAY)
     | AC_IO \<Rightarrow> (if io_addr_backed a then AXI_RESP_OKAY else AXI_RESP_DECERR)
     | AC_UNMAPPED \<Rightarrow> AXI_RESP_DECERR)"
proof -
  have ram: "unat (visible_ram_size h) \<le> 0x40000000" and dec: "RAM_DECODE_SIZE M = 0x40000000"
    using assms(1) by (auto simp: layout_ok_def word_le_nat_alt)
  have sent: "\<not> (0xFFFF0000 \<le> unat a \<and> unat a < 0xFFFF0010)"
    using assms(4) by (simp add: sentinel_addr_def word_le_nat_alt word_less_nat_alt)
  show ?thesis
    using assms(2) ram sent
    unfolding daxi_resp_for_access_def classify_def Let_def aligned [OF assms(3)] in_vram_nat [OF assms(1)]
      in_io_nat in_dafb_nat dec Q700_ROM_BASE_def Q700_ROM_SIZE_def
    by (auto simp: word_le_nat_alt word_less_nat_alt)
qed

theorem strict_response_matches_decode_witness:
  "daxi_resp_for_access flat_mem flat_harness 0x50004000 False = AXI_RESP_DECERR"
  using strict_response_matches_decode [of flat_mem flat_harness "0x50004000" False]
  by (simp add: layout_ok_def flat_mem_def flat_harness_def sentinel_addr_def classify_def overlay_rom_for_data_def
      initial_via_sys_def Q700_ROM_BASE_def Q700_ROM_SIZE_def in_range_def IO_BASE_def IO_SIZE_def
      io_addr_backed_def q700_io_canonical_def IO_MIRROR_MASK_def all_devices_def)

text \<open>The sentinel words are decoded as RAM and yet answered with a decode error.\<close>

lemma sentinel_response_disagrees:
  assumes "layout_ok M h" "strict_axi_resp h" "sentinel_addr a" "a AND 3 = 0"
  shows "classify M h a = AC_RAM \<and> daxi_resp_for_access M h a w = AXI_RESP_DECERR"
proof -
  have ram: "unat (visible_ram_size h) \<le> 0x40000000" and dec: "RAM_DECODE_SIZE M = 0x40000000"
    using assms(1) by (auto simp: layout_ok_def word_le_nat_alt)
  have sent: "0xFFFF0000 \<le> unat a" "unat a < 0xFFFF0010"
    using assms(3) by (simp_all add: sentinel_addr_def word_le_nat_alt word_less_nat_alt)
  show ?thesis
    using assms(2) ram sent
    unfolding daxi_resp_for_access_def classify_def Let_def aligned [OF assms(4)] in_vram_nat [OF assms(1)]
      in_io_nat in_dafb_nat dec Q700_ROM_BASE_def Q700_ROM_SIZE_def overlay_rom_for_data_def OVERLAY_BYTES_def
    by (auto simp: word_le_nat_alt word_less_nat_alt)
qed

section \<open>Memory through the data port\<close>

lemma lane_bytes:
  "lane_byte d 0 = ucast (drop_bit 24 d)" "lane_byte d 1 = ucast (drop_bit 16 d)" "lane_byte d (Suc 0) = ucast (drop_bit 16 d)"
  "lane_byte d 2 = ucast (drop_bit 8 d)" "lane_byte d 3 = ucast d"
  unfolding lane_byte_def by (rule word8_eqI, auto simp: bit_ucast_iff bit_and_iff)+

lemma be_word_lanes: "be_word (lane_byte d 0) (lane_byte d 1) (lane_byte d 2) (lane_byte d 3) = d"
  unfolding lane_bytes by simp

definition word_bytes_at :: "u32 \<Rightarrow> u32 set" where
  "word_bytes_at a = {a, a + 1, a + 2, a + 3}"

lemma ram_write_read8:
  assumes "mem_contract M mapped" "word_bytes_at a \<subseteq> mapped" "i \<in> {0, 1, 2, 3}"
  shows "mem_read8 M (ram_write_lanes M a data strb m) (a + of_nat i) =
    (if lane_on strb i then lane_byte data i else mem_read8 M m (a + of_nat i))"
proof -
  have "mem_read8 M (mem_write8 M m x v) b = (if x = b then v else mem_read8 M m b)" if "x \<in> word_bytes_at a" for m x b v
    using assms(1,2) that by (auto simp: mem_contract_def)
  then show ?thesis
    using assms(3) by (auto simp: ram_write_lanes_def word_bytes_at_def)
qed

lemma ram_write_frame:
  assumes "mem_contract M mapped" "word_bytes_at a \<subseteq> mapped" "b \<notin> word_bytes_at a"
  shows "mem_read8 M (ram_write_lanes M a data strb m) b = mem_read8 M m b"
proof -
  have "mem_read8 M (mem_write8 M m x v) b = (if x = b then v else mem_read8 M m b)" if "x \<in> word_bytes_at a" for m x v
    using assms(1,2) that by (auto simp: mem_contract_def)
  moreover have "a \<noteq> b" "a + 1 \<noteq> b" "a + 2 \<noteq> b" "a + 3 \<noteq> b" using assms(3) by (auto simp: word_bytes_at_def)
  ultimately show ?thesis by (simp add: ram_write_lanes_def word_bytes_at_def)
qed

text \<open>The lanes of a strobed word write merged into the old word.\<close>

definition merge_lanes :: "u32 \<Rightarrow> u32 \<Rightarrow> u32 \<Rightarrow> u32" where
  "merge_lanes strb data old =
     (let l = (\<lambda>i. if lane_on strb i then lane_byte data i else lane_byte old i) in be_word (l 0) (l 1) (l 2) (l 3))"

lemma sentinel_frame [simp]: "sys (check_sentinel aa d st h) = sys h" "h_mem (check_sentinel aa d st h) = h_mem h"
  "visible_ram_size (check_sentinel aa d st h) = visible_ram_size h"
  by (simp_all add: check_sentinel_def)

lemma classify_frame:
  "sys h = sys h' \<Longrightarrow> visible_ram_size h = visible_ram_size h' \<Longrightarrow> classify M h = classify M h'"
  by (intro ext) (simp add: classify_def overlay_rom_for_data_def)



end
