(* ===== verification/Burst_Service.thy ===== *)
theory Burst_Service
  imports Soc_Prelude "HOL-Library.Multiset"
begin

text \<open>
  The contract of a bus port that accepts work and hands it over piece by piece, shared by the ports of the boot harness and of
  the crossbar bench.  \<open>burst_server\<close>: what was handed over and what is still owed are together what was accepted, in order.
  \<open>burst_bag\<close>: the weaker one where only the pieces count.  \<open>gather\<close> collects what is seen over a run.
\<close>

section \<open>Serving bursts\<close>

fun gather :: "('i \<Rightarrow> 's \<Rightarrow> 's) \<Rightarrow> ('i \<Rightarrow> 's \<Rightarrow> 'b list) \<Rightarrow> 'i list \<Rightarrow> 's \<Rightarrow> 'b list" where
  "gather step f [] s = []"
| "gather step f (i # is) s = f i s @ gather step f is (step i s)"

locale burst_bag =
  fixes step :: "'i \<Rightarrow> 's \<Rightarrow> 's" and owed :: "'s \<Rightarrow> 'b list" and taken given :: "'i \<Rightarrow> 's \<Rightarrow> 'b list"
    and ok :: "'s \<Rightarrow> bool" and may :: "'i \<Rightarrow> bool"
  assumes ok_step: "\<lbrakk>ok s; may i\<rbrakk> \<Longrightarrow> ok (step i s)"
    and bag_step: "\<lbrakk>ok s; may i\<rbrakk> \<Longrightarrow> mset (given i s) + mset (owed (step i s)) = mset (owed s) + mset (taken i s)"
begin

lemma ok_run: "\<lbrakk>ok s; \<forall>i\<in>set is. may i\<rbrakk> \<Longrightarrow> ok (fold step is s)"
  by (induction "is" arbitrary: s) (simp_all add: ok_step)

lemma bag_run:
  "\<lbrakk>ok s; \<forall>i\<in>set is. may i\<rbrakk> \<Longrightarrow>
   mset (gather step given is s) + mset (owed (fold step is s)) = mset (owed s) + mset (gather step taken is s)"
proof (induction "is" arbitrary: s)
  case (Cons i "is")
  then show ?case using bag_step [of s i] by (simp add: ok_step ac_simps)
qed simp

end

locale burst_server =
  fixes step :: "'i \<Rightarrow> 's \<Rightarrow> 's" and owed :: "'s \<Rightarrow> 'b list" and taken given :: "'i \<Rightarrow> 's \<Rightarrow> 'b list"
    and ok :: "'s \<Rightarrow> bool" and may :: "'i \<Rightarrow> bool"
  assumes server_ok: "\<lbrakk>ok s; may i\<rbrakk> \<Longrightarrow> ok (step i s)"
    and serve_step: "\<lbrakk>ok s; may i\<rbrakk> \<Longrightarrow> given i s @ owed (step i s) = owed s @ taken i s"
begin

lemma serve_run:
  "\<lbrakk>ok s; \<forall>i\<in>set is. may i\<rbrakk> \<Longrightarrow> gather step given is s @ owed (fold step is s) = owed s @ gather step taken is s"
proof (induction "is" arbitrary: s)
  case (Cons i "is")
  then have "gather step given is (step i s) @ owed (fold step is (step i s)) = owed (step i s) @ gather step taken is (step i s)"
    by (simp add: server_ok)
  then show ?case using serve_step [of s i] Cons.prems by simp
qed simp

end

sublocale burst_server \<subseteq> burst_bag
  by unfold_locales (simp_all add: server_ok, metis mset_append serve_step)

lemma gather_map: "gather step (\<lambda>i s. map f (g i s)) is s = map f (gather step g is s)"
  by (induction "is" arbitrary: s) auto

lemma gather_concat: "gather step (\<lambda>i s. concat (map f (g i s))) is s = concat (map f (gather step g is s))"
  by (induction "is" arbitrary: s) auto

end
