(* ===== verification/Rom_Boot_Run.thy ===== *)
theory Rom_Boot_Run
  imports Rom_Boot_Bus_Props Burst_Service
begin

unbundle bit_operations_syntax

text \<open>
  Runs of the ROM-boot harness: the inductive relation of everything the main loop does to the
  harness in a cycle, with the pins of the core arbitrary, and what holds of every reachable state;
  the protocol of the two ports over several cycles.
\<close>

section \<open>Counters kept in order\<close>

definition smap_sorted :: "(u32 \<times> u64) list \<Rightarrow> bool" where
  "smap_sorted m \<longleftrightarrow> sorted_wrt (<) (map fst m)"

lemma smap_update_keys: "set (map fst (smap_update k f m)) = insert k (set (map fst m))"
  by (induction k f m rule: smap_update.induct) auto

lemma smap_update_sorted: "smap_sorted m \<Longrightarrow> smap_sorted (smap_update k f m)"
proof (induction k f m rule: smap_update.induct)
  case (1 k f) show ?case by (simp add: smap_sorted_def)
next
  case (2 k f k' v m)
  have "\<forall>x \<in> set (map fst (smap_update k f m)). k' < x" if "k' < k"
    using 2(2) that unfolding smap_update_keys by (auto simp: smap_sorted_def)
  then show ?case using 2 by (auto simp: smap_sorted_def)
qed

lemma bump_sorted: "smap_sorted m \<Longrightarrow> smap_sorted (bump k m)"
  by (simp add: bump_def smap_update_sorted)

section \<open>The devices keep their invariants\<close>

definition devices_inv :: "'m harness \<Rightarrow> bool" where
  "devices_inv h \<longleftrightarrow> via_inv (via (sys h)) \<and> scc_inv (h_scc h) \<and> swim_inv (h_swim h) \<and>
     turboscsi_inv (h_turboscsi h) \<and> asc_inv (h_asc h) \<and>
     smap_sorted (unmapped_write_count h) \<and> smap_sorted (unmapped_read_count h)"

lemma via_inv_cpu_write: "via_inv (via s) \<Longrightarrow> via_inv (via (rtc_selftest_write_via1 idx v s))"
  by (simp add: rtc_selftest_write_via1_def Let_def via_inv_write_reg)

lemma devices_inv_read: "devices_inv h \<Longrightarrow> devices_inv (snd (io_read32 a h))"
proof -
  assume h: "devices_inv h"
  have "devices_inv (snd (device_read d ca h))" for d ca
    using h via_inv_read [of "sys h" "via_reg_index ca"] scc_inv_read [of "h_scc h"] asc_inv_read [of "h_asc h"]
      swim_inv_read [of "h_swim h"]
    by (cases d) (simp_all add: device_read_def devices_inv_def split_beta Let_def)
  moreover have "devices_inv (h\<lparr> unmapped_read_count := bump k (unmapped_read_count h) \<rparr>)" for k
    using h by (simp add: devices_inv_def bump_sorted)
  ultimately show ?thesis by (simp add: io_read32_def Let_def split_beta split: option.split)
qed

lemma devices_inv_lane: "devices_inv h \<Longrightarrow> devices_inv (io_write_lane x a v h)"
proof -
  assume h: "devices_inv h"
  have "devices_inv (device_write d ca v h)" for d ca
    using h by (cases d) (simp_all add: device_write_def devices_inv_def via_inv_cpu_write scc_inv_write asc_inv_write
        swim_inv_write turboscsi_inv_write)
  moreover have "devices_inv (h\<lparr> unmapped_write_count := bump k (unmapped_write_count h) \<rparr>)" for k
    using h by (simp add: devices_inv_def bump_sorted)
  ultimately show ?thesis by (simp add: io_write_lane_def Let_def split: option.split)
qed

lemma devices_inv_io_write: "devices_inv h \<Longrightarrow> devices_inv (io_write32 a d strb h)"
  by (simp add: io_write32_def devices_inv_lane)

lemma devices_inv_daxi_read: "devices_inv h \<Longrightarrow> devices_inv (snd (daxi_read32 M a h))"
  by (simp add: daxi_read32_def Let_def devices_inv_read split: addr_class.split)
     (simp add: devices_inv_def bump_sorted)

lemma devices_inv_daxi_write: "devices_inv h \<Longrightarrow> devices_inv (daxi_write32 M a d strb h)"
  by (simp add: daxi_write32_def Let_def devices_inv_io_write split: addr_class.split)
     (simp add: devices_inv_def bump_sorted check_sentinel_def)

section \<open>What an access leaves alone\<close>

lemma via1_read_frame [simp]:
  "overlay (snd (via1_read_reg idx s)) = overlay s" "strict_overlay (snd (via1_read_reg idx s)) = strict_overlay s"
  by (simp_all add: via1_read_reg_def map_via_def)

lemma cpu_write_strict [simp]: "strict_overlay (rtc_selftest_write_via1 idx v s) = strict_overlay s"
  by (simp add: rtc_selftest_write_via1_def via1_write_reg_def map_via_def via1_update_overlay_def
      via1_update_rtc_pins_def Let_def)

text \<open>The part of the harness that no data access changes, and what a read keeps besides.\<close>

definition fixed :: "'m harness \<Rightarrow> axi \<times> u8 list \<times> bool \<times> u32 \<times> bool \<times> int \<times> u32" where
  "fixed h = (ax h, rom_img h, strict_axi_resp h, visible_ram_size h, strict_overlay (sys h), if_pending h, if_addr_q h)"

lemma fixed_updates [simp]:
  "fixed (h\<lparr> unmapped_read_count := c \<rparr>) = fixed h" "fixed (h\<lparr> unmapped_write_count := c \<rparr>) = fixed h"
  "fixed (h\<lparr> h_mem := m \<rparr>) = fixed h" "fixed (check_sentinel aa d st h) = fixed h"
  by (simp_all add: fixed_def check_sentinel_def)

lemma device_read_frame:
  "fixed (snd (device_read d ca h)) = fixed h" "overlay (sys (snd (device_read d ca h))) = overlay (sys h)"
  by (cases d; simp add: device_read_def fixed_def split_beta Let_def)+

lemma device_write_frame: "fixed (device_write d ca v h) = fixed h"
  by (cases d; simp add: device_write_def fixed_def)

lemma io_read_frame:
  "fixed (snd (io_read32 a h)) = fixed h" "overlay (sys (snd (io_read32 a h))) = overlay (sys h)"
  by (simp_all add: io_read32_def Let_def split_beta device_read_frame split: option.split)

lemma io_lane_frame: "fixed (io_write_lane x a v h) = fixed h"
  by (simp add: io_write_lane_def Let_def device_write_frame split: option.split)

lemma io_write_frame: "fixed (io_write32 a d strb h) = fixed h"
  by (simp add: io_write32_def io_lane_frame)

lemma daxi_read_frame:
  "fixed (snd (daxi_read32 M a h)) = fixed h" "overlay (sys (snd (daxi_read32 M a h))) = overlay (sys h)"
  by (simp_all add: daxi_read32_def Let_def io_read_frame split: addr_class.split)

lemma daxi_write_frame: "fixed (daxi_write32 M a d strb h) = fixed h"
  by (simp add: daxi_write32_def Let_def io_write_frame split: addr_class.split)

lemma fixedD:
  assumes "fixed h' = fixed h"
  shows "ax h' = ax h" "rom_img h' = rom_img h" "strict_axi_resp h' = strict_axi_resp h"
    "visible_ram_size h' = visible_ram_size h" "strict_overlay (sys h') = strict_overlay (sys h)"
    "if_pending h' = if_pending h" "if_addr_q h' = if_addr_q h"
  using assms by (simp_all add: fixed_def)

lemma bresp_cong:
  assumes "strict_axi_resp h' = strict_axi_resp h" "visible_ram_size h' = visible_ram_size h"
    "strict_overlay (sys h') = strict_overlay (sys h)" "strict_overlay (sys h) \<longrightarrow> overlay (sys h') = overlay (sys h)"
  shows "daxi_bresp_for_addr M h' a = daxi_bresp_for_addr M h a"
proof -
  have ov: "overlay_rom_for_data h' = overlay_rom_for_data h"
    using assms(3,4) by (intro ext) (auto simp: overlay_rom_for_data_def)
  show ?thesis unfolding daxi_bresp_for_addr_def daxi_resp_for_access_def ov assms(1,2) by (rule refl)
qed

section \<open>Steps of the harness\<close>

inductive harness_step :: "'m mem_model \<Rightarrow> 'm harness \<Rightarrow> 'm harness \<Rightarrow> bool" for M where
  data_port: "harness_step M h (snd (drive_daxi M p h))"
| instr_port: "harness_step M h (snd (drive_ifetch M q h))"
| clock: "harness_step M h (tick_cycle h)"

inductive harness_run :: "'m mem_model \<Rightarrow> 'm harness \<Rightarrow> 'm harness \<Rightarrow> bool" for M where
  start: "harness_run M h h"
| more: "harness_run M h g \<Longrightarrow> harness_step M g k \<Longrightarrow> harness_run M h k"

text \<open>
  The port invariant: delays are 0 or 1, a pending response is the response of the address it is for,
  and while it is pending no write is half accepted.
\<close>

definition axi_inv :: "'m mem_model \<Rightarrow> 'm harness \<Rightarrow> bool" where
  "axi_inv M h \<longleftrightarrow> ar_delay (ax h) \<in> {0, 1} \<and> b_delay (ax h) \<in> {0, 1} \<and> if_pending h \<in> {0, 1} \<and>
     (b_pending (ax h) \<longrightarrow> \<not> aw_done (ax h) \<and> \<not> w_done (ax h) \<and>
        b_resp (ax h) = daxi_bresp_for_addr M h (aw_addr (ax h)))"

definition harness_inv :: "'m mem_model \<Rightarrow> 'm harness \<Rightarrow> bool" where
  "harness_inv M h \<longleftrightarrow> devices_inv h \<and> axi_inv M h"

lemma axi_inv_frame:
  assumes "axi_inv M h" "fixed h' = fixed h" "strict_overlay (sys h) \<longrightarrow> overlay (sys h') = overlay (sys h)"
  shows "axi_inv M h'"
  using assms(1) fixedD [OF assms(2)] bresp_cong [of h' h M] assms(3) by (simp add: axi_inv_def)

lemma devices_inv_ax [simp]: "devices_inv (h\<lparr> ax := a \<rparr>) = devices_inv h"
  by (simp add: devices_inv_def)

lemma bresp_ax [simp]: "daxi_bresp_for_addr M (h\<lparr> ax := a \<rparr>) = daxi_bresp_for_addr M h"
  by (intro ext bresp_cong) simp_all

lemma harness_inv_accept_ar: "harness_inv M h \<Longrightarrow> harness_inv M (h\<lparr> ax := accept_ar p (ax h) \<rparr>)"
  by (simp add: harness_inv_def axi_inv_def accept_ar_def)

lemma harness_inv_drive_read: "harness_inv M h \<Longrightarrow> harness_inv M (snd (drive_read M rr h))"
proof -
  assume h: "harness_inv M h"
  let ?h = "snd (daxi_read32 M (beat_address (ax h)) h)"
  have d: "devices_inv ?h" using h by (simp add: harness_inv_def devices_inv_daxi_read)
  have a: "axi_inv M ?h"
    using h unfolding harness_inv_def by (intro axi_inv_frame [OF _ daxi_read_frame(1) impI [OF daxi_read_frame(2)]]) simp
  have "harness_inv M (?h\<lparr> ax := finish_beat rr (ax ?h) \<rparr>)"
    using d a by (simp add: harness_inv_def axi_inv_def finish_beat_def)
  moreover have "harness_inv M (h\<lparr> ax := (ax h)\<lparr> ar_delay := ar_delay (ax h) - 1 \<rparr> \<rparr>)" if "ar_delay (ax h) > 0"
    using h that by (auto simp: harness_inv_def axi_inv_def)
  ultimately show ?thesis using h by (simp add: drive_read_def Let_def split_beta)
qed

lemma harness_inv_accept_w: "harness_inv M h \<Longrightarrow> harness_inv M (h\<lparr> ax := accept_aw_w p (ax h) \<rparr>)"
  by (simp add: harness_inv_def axi_inv_def accept_aw_w_def Let_def)

lemma harness_inv_commit: "harness_inv M h \<Longrightarrow> harness_inv M (commit_write M h)"
proof -
  assume h: "harness_inv M h"
  let ?h = "daxi_write32 M (aw_addr (ax h) AND NOT 0x3) (w_data (ax h)) (w_strb (ax h)) h"
  have d: "devices_inv ?h" using h by (simp add: harness_inv_def devices_inv_daxi_write)
  have x: "ax ?h = ax h" "if_pending ?h = if_pending h" using fixedD [OF daxi_write_frame] by simp_all
  have "harness_inv M (?h\<lparr> ax := (ax ?h)\<lparr> b_resp := daxi_bresp_for_addr M ?h (aw_addr (ax ?h)), aw_done := False,
      w_done := False, b_pending := True, b_delay := 1 \<rparr> \<rparr>)"
    using d h x by (simp add: harness_inv_def axi_inv_def)
  then show ?thesis using h by (simp add: commit_write_def Let_def)
qed

lemma harness_inv_drive_b: "harness_inv M h \<Longrightarrow> harness_inv M (h\<lparr> ax := snd (drive_b br (ax h)) \<rparr>)"
  by (auto simp: harness_inv_def axi_inv_def drive_b_def)

lemma harness_inv_daxi: "harness_inv M h \<Longrightarrow> harness_inv M (snd (drive_daxi M p h))"
  by (simp add: drive_daxi_def Let_def split_beta harness_inv_accept_ar harness_inv_drive_read harness_inv_accept_w
      harness_inv_commit harness_inv_drive_b)

lemma harness_inv_ifetch_respond:
  "devices_inv h \<Longrightarrow> axi_inv M (h\<lparr> if_pending := 0 \<rparr>) \<Longrightarrow> if_pending h \<in> {0, 1, 2} \<Longrightarrow>
   harness_inv M (snd (ifetch_respond M h))"
proof -
  assume d: "devices_inv h" and a: "axi_inv M (h\<lparr> if_pending := 0 \<rparr>)" and p: "if_pending h \<in> {0, 1, 2}"
  have b: "daxi_bresp_for_addr M (h\<lparr> if_pending := n \<rparr>) = daxi_bresp_for_addr M h" for n
    by (intro ext bresp_cong) simp_all
  have n: "harness_inv M (h\<lparr> if_pending := n \<rparr>)" if "n \<in> {0, 1}" for n
    using d a that by (simp add: harness_inv_def axi_inv_def devices_inv_def b)
  show ?thesis
  proof (cases "if_pending h = 0")
    case True
    then have "h\<lparr> if_pending := 0 \<rparr> = h" by (cases h) simp
    with True n [of 0] show ?thesis by (simp add: ifetch_respond_def)
  next
    case False
    with n [of "if_pending h - 1"] p show ?thesis by (auto simp: ifetch_respond_def Let_def)
  qed
qed

lemma harness_inv_ifetch: "harness_inv M h \<Longrightarrow> harness_inv M (snd (drive_ifetch M q h))"
proof -
  assume h: "harness_inv M h"
  define c where "c = snd (check_stop_on_ifetch_berr M (if_addr q) h)"
  define g where "g = c\<lparr> sys := maybe_clear_overlay_from_high_rom_fetch (if_addr q) (sys c), if_addr_q := if_addr q, if_pending := 2 \<rparr>"
  have c: "harness_inv M c"
    using h bresp_cong [of c h M]
    by (simp add: c_def check_stop_on_ifetch_berr_def Let_def harness_inv_def axi_inv_def devices_inv_def)
  have "devices_inv g"
    using c by (simp add: g_def harness_inv_def devices_inv_def maybe_clear_overlay_from_high_rom_fetch_def)
  moreover have "axi_inv M (g\<lparr> if_pending := 0 \<rparr>)"
  proof -
    have "daxi_bresp_for_addr M (g\<lparr> if_pending := 0 \<rparr>) a = daxi_bresp_for_addr M c a" for a
      by (rule bresp_cong) (simp_all add: g_def maybe_clear_overlay_from_high_rom_fetch_def)
    then show ?thesis using c by (simp add: g_def harness_inv_def axi_inv_def)
  qed
  ultimately have g: "harness_inv M (snd (ifetch_respond M g))"
    by (rule harness_inv_ifetch_respond) (simp add: g_def)
  have r: "harness_inv M (snd (ifetch_respond M h))"
  proof (rule harness_inv_ifetch_respond)
    show "devices_inv h" "if_pending h \<in> {0, 1, 2}" using h by (auto simp: harness_inv_def axi_inv_def)
    have "daxi_bresp_for_addr M (h\<lparr> if_pending := 0 \<rparr>) a = daxi_bresp_for_addr M h a" for a
      by (rule bresp_cong) simp_all
    then show "axi_inv M (h\<lparr> if_pending := 0 \<rparr>)" using h by (simp add: harness_inv_def axi_inv_def)
  qed
  show ?thesis
    using r g c by (auto simp: drive_ifetch_def g_def c_def split: prod.split bool.split)
qed

lemma harness_inv_tick: "harness_inv M h \<Longrightarrow> harness_inv M (tick_cycle h)"
proof -
  assume h: "harness_inv M h"
  have s: "strict_overlay (via1_timer_tick (via1_adb_tick (x\<lparr> host_cycle := t \<rparr>))) = strict_overlay x"
    "overlay (via1_timer_tick (via1_adb_tick (x\<lparr> host_cycle := t \<rparr>))) = overlay x" for x t
    by (simp_all add: via1_timer_tick_def via1_adb_tick_def Let_def)
  have b: "daxi_bresp_for_addr M (tick_cycle h) a = daxi_bresp_for_addr M h a" for a
    by (rule bresp_cong) (simp_all add: tick_cycle_def Let_def s)
  have "via_inv (via (via1_timer_tick (via1_adb_tick ((sys h)\<lparr> host_cycle := t \<rparr>))))" for t
    using h by (simp add: harness_inv_def devices_inv_def via_inv_timer_tick via_inv_adb_tick)
  then have "devices_inv (tick_cycle h)" using h by (simp add: tick_cycle_def harness_inv_def devices_inv_def Let_def)
  moreover have "axi_inv M (tick_cycle h)"
    using h b by (simp add: harness_inv_def axi_inv_def) (simp add: tick_cycle_def Let_def)
  ultimately show ?thesis by (simp add: harness_inv_def)
qed

lemma harness_step_inv: "harness_step M h g \<Longrightarrow> harness_inv M h \<Longrightarrow> harness_inv M g"
  by (induction rule: harness_step.induct) (simp_all add: harness_inv_daxi harness_inv_ifetch harness_inv_tick)

text \<open>
  Invariant of the whole harness.  Whatever the core puts on its pins, every state the main loop
  reaches from a state that satisfies the invariant satisfies it: the devices keep theirs, the access
  counters stay in key order, the port delays are 0 or 1, at most one fetch is under way, and a pending
  write response is the response of the address written with no second write half accepted.
\<close>

theorem harness_reachable_inv: "harness_run M h g \<Longrightarrow> harness_inv M h \<Longrightarrow> harness_inv M g"
  by (induction rule: harness_run.induct) (auto dest: harness_step_inv)

lemma flat_harness_inv: "harness_inv flat_mem flat_harness"
  by (simp add: harness_inv_def devices_inv_def axi_inv_def flat_harness_def via_inv_def initial_via_sys_def
      initial_via1_def scc_inv_def initial_scc_def swim_inv_def initial_swim_def turboscsi_inv_reset asc_inv_def
      initial_asc_def RATE_DEFAULT_def smap_sorted_def initial_axi_def)

theorem harness_reachable_inv_witness: "harness_inv flat_mem (tick_cycle flat_harness)"
  by (rule harness_reachable_inv [OF harness_run.more [OF harness_run.start harness_step.clock] flat_harness_inv])

section \<open>The instruction port over two cycles\<close>

text \<open>
  An instruction fetch is answered in the second cycle.  A request on an idle port, when the harness
  does not stop on it, is not answered in its own cycle; whatever other activity follows, the next
  cycle of the port answers with the sixteen bytes of the requested line, each read as the processor
  sees it (through the overlay, the ROM mirror or RAM), and the fault flag exactly when some byte of the
  line is not backed; the port is then idle again.
\<close>

theorem fetch_answered_in_second_cycle:
  assumes "if_req q" and "if_pending h = 0" and "\<not> fst (check_stop_on_ifetch_berr M (if_addr q) h)"
  shows "\<not> if_rvalid (fst (drive_ifetch M q h)) \<and> if_pending (snd (drive_ifetch M q h)) = 1 \<and>
    if_addr_q (snd (drive_ifetch M q h)) = if_addr q \<and>
    (if_pending g = 1 \<and> if_addr_q g = if_addr q \<longrightarrow>
      if_rvalid (fst (drive_ifetch M q' g)) \<and>
      if_rdata (fst (drive_ifetch M q' g)) = line_words (map (\<lambda>i. cpu_read8 M g ((if_addr q AND NOT 0xF) + of_nat i)) [0..<16]) \<and>
      (if_fault (fst (drive_ifetch M q' g)) \<longleftrightarrow> (\<exists>i<16. \<not> ifetch_byte_backed M g ((if_addr q AND NOT 0xF) + of_nat i))) \<and>
      if_pending (snd (drive_ifetch M q' g)) = 0)"
proof -
  have c: "check_stop_on_ifetch_berr M (if_addr q) h = (False, h)"
    using assms(3) by (simp add: check_stop_on_ifetch_berr_def Let_def split: if_splits)
  have cl: "classify M (g\<lparr> if_pending := n \<rparr>) = classify M g" for g :: "'a harness" and n
    by (rule classify_frame) simp_all
  have r: "cpu_read8 M (g\<lparr> if_pending := n \<rparr>) = cpu_read8 M g" for g :: "'a harness" and n
    by (intro ext) (simp add: cpu_read8_def cl overlay_rom_for_ifetch_def rom_read8_def rom_offset_of_def
        split: addr_class.split)
  have b: "ifetch_byte_backed M (g\<lparr> if_pending := n \<rparr>) = ifetch_byte_backed M g" for g :: "'a harness" and n
    by (intro ext) (simp add: ifetch_byte_backed_def cl overlay_rom_for_ifetch_def)
  show ?thesis
    using assms(1,2)
    by (auto simp: drive_ifetch_def c ifetch_respond_def Let_def no_fetch_def load_fetch_line_def
        ifetch_line_backed_def r b list_all_iff simp del: upt_rec_numeral)
qed

theorem fetch_answered_in_second_cycle_witness:
  "if_pending (snd (drive_ifetch flat_mem \<lparr> if_req = True, if_addr = 0x4000002A \<rparr> flat_harness)) = 1"
  using fetch_answered_in_second_cycle [of "\<lparr> if_req = True, if_addr = 0x4000002A \<rparr>" flat_harness flat_mem flat_harness]
  by (simp add: flat_harness_def check_stop_on_ifetch_berr_def)

section \<open>Writes and bursts on the data port\<close>

text \<open>A write does not look at the port registers.\<close>

lemma device_write_ax: "device_write d ca v (h\<lparr> ax := x \<rparr>) = (device_write d ca v h)\<lparr> ax := x \<rparr>"
  by (cases d) (simp_all add: device_write_def)

lemma io_write_lane_ax: "io_write_lane y ca v (h\<lparr> ax := x \<rparr>) = (io_write_lane y ca v h)\<lparr> ax := x \<rparr>"
  by (simp add: io_write_lane_def Let_def device_write_ax split: option.split)

lemma fold_commute: "(\<And>i h. f i (g h) = g (f i h)) \<Longrightarrow> fold f is (g h) = g (fold f is h)"
  by (induction "is" arbitrary: h) simp_all

lemma io_write_ax: "io_write32 a d st (h\<lparr> ax := x \<rparr>) = (io_write32 a d st h)\<lparr> ax := x \<rparr>"
  unfolding io_write32_def by (rule fold_commute [where g = "\<lambda>h. h\<lparr> ax := x \<rparr>"]) (simp add: io_write_lane_ax)

lemma daxi_write_ax: "daxi_write32 M a d st (h\<lparr> ax := x \<rparr>) = (daxi_write32 M a d st h)\<lparr> ax := x \<rparr>"
proof -
  have cl: "classify M (h\<lparr> ax := x \<rparr>) = classify M h" by (rule classify_frame) simp_all
  show ?thesis
    unfolding daxi_write32_def Let_def cl
    by (cases "classify M h a") (auto simp: io_write_ax check_sentinel_def)
qed

text \<open>
  One bus cycle of the harness: the instruction port is served, then the data port, then the clock.  What the pins of the data port
  show in it, and what the port still holds.
\<close>

definition before_data :: "'m mem_model \<Rightarrow> ifetch_pins \<times> daxi_pins \<Rightarrow> 'm harness \<Rightarrow> 'm harness" where
  "before_data M i h = snd (drive_ifetch M (fst i) h)"

definition data_out :: "'m mem_model \<Rightarrow> ifetch_pins \<times> daxi_pins \<Rightarrow> 'm harness \<Rightarrow> daxi_out" where
  "data_out M i h = fst (drive_daxi M (snd i) (before_data M i h))"

definition after_data :: "'m mem_model \<Rightarrow> ifetch_pins \<times> daxi_pins \<Rightarrow> 'm harness \<Rightarrow> 'm harness" where
  "after_data M i h = snd (drive_daxi M (snd i) (before_data M i h))"

definition bus_cycle :: "'m mem_model \<Rightarrow> ifetch_pins \<times> daxi_pins \<Rightarrow> 'm harness \<Rightarrow> 'm harness" where
  "bus_cycle M i h = tick_cycle (after_data M i h)"

definition aw_taken :: "'m mem_model \<Rightarrow> ifetch_pins \<times> daxi_pins \<Rightarrow> 'm harness \<Rightarrow> u32 list" where
  "aw_taken M i h = (if daxi_awvalid (snd i) \<and> daxi_awready (data_out M i h) then [daxi_awaddr (snd i)] else [])"

definition w_taken :: "'m mem_model \<Rightarrow> ifetch_pins \<times> daxi_pins \<Rightarrow> 'm harness \<Rightarrow> (u32 \<times> u32) list" where
  "w_taken M i h = (if daxi_wvalid (snd i) \<and> daxi_wready (data_out M i h) then [(daxi_wdata (snd i), daxi_wstrb (snd i))] else [])"

definition b_taken :: "'m mem_model \<Rightarrow> ifetch_pins \<times> daxi_pins \<Rightarrow> 'm harness \<Rightarrow> u32 list" where
  "b_taken M i h = (if daxi_bvalid (data_out M i h) \<and> daxi_bready (snd i) then [daxi_bresp (data_out M i h)] else [])"

definition aw_held :: "'m harness \<Rightarrow> u32 list" where
  "aw_held h = (if aw_done (ax h) then [aw_addr (ax h)] else [])"

definition w_held :: "'m harness \<Rightarrow> (u32 \<times> u32) list" where
  "w_held h = (if w_done (ax h) then [(w_data (ax h), w_strb (ax h))] else [])"

definition b_held :: "'m harness \<Rightarrow> u32 list" where
  "b_held h = (if b_pending (ax h) then [b_resp (ax h)] else [])"

text \<open>The writes that are complete in a cycle: address and data paired as they arrived; their effect and their answers.\<close>

definition writes_complete :: "'m mem_model \<Rightarrow> ifetch_pins \<times> daxi_pins \<Rightarrow> 'm harness \<Rightarrow> (u32 \<times> u32 \<times> u32) list" where
  "writes_complete M i h = zip (aw_held h @ aw_taken M i h) (w_held h @ w_taken M i h)"

definition perform_write :: "'m mem_model \<Rightarrow> u32 \<times> u32 \<times> u32 \<Rightarrow> 'm harness \<Rightarrow> 'm harness" where
  "perform_write M w h = (case w of (a, d, strb) \<Rightarrow> daxi_write32 M (a AND NOT 0x3) d strb h)"

definition write_answers :: "'m mem_model \<Rightarrow> ifetch_pins \<times> daxi_pins \<Rightarrow> 'm harness \<Rightarrow> u32 list" where
  "write_answers M i h = map (\<lambda>w. daxi_bresp_for_addr M (after_data M i h) (fst w)) (writes_complete M i h)"

definition after_read :: "'m mem_model \<Rightarrow> ifetch_pins \<times> daxi_pins \<Rightarrow> 'm harness \<Rightarrow> 'm harness" where
  "after_read M i h =
     (let g = before_data M i h in snd (drive_read M (daxi_rready (snd i)) (g\<lparr> ax := accept_ar (snd i) (ax g) \<rparr>)))"

definition write_ok :: "'m harness \<Rightarrow> bool" where
  "write_ok h \<longleftrightarrow> \<not> (aw_done (ax h) \<and> w_done (ax h)) \<and>
     (b_pending (ax h) \<longrightarrow> \<not> aw_done (ax h) \<and> \<not> w_done (ax h) \<and> b_delay (ax h) = 0)"

lemma ifetch_ax [simp]: "ax (before_data M i h) = ax h"
proof -
  have r: "ax (snd (ifetch_respond M h)) = ax h" for h by (simp add: ifetch_respond_def Let_def)
  have "ax (snd (check_stop_on_ifetch_berr M a h)) = ax h" for a by (simp add: check_stop_on_ifetch_berr_def Let_def)
  then show ?thesis
    by (auto simp: before_data_def drive_ifetch_def r split: prod.split bool.split) (metis snd_conv)+
qed

lemma cycle_ax [simp]: "ax (bus_cycle M i h) = ax (after_data M i h)"
  by (simp add: bus_cycle_def tick_cycle_def Let_def)

text \<open>The write side of the registers, which the read channel leaves alone.\<close>

definition write_side :: "axi \<Rightarrow> bool \<times> bool \<times> u32 \<times> u32 \<times> u32 \<times> bool \<times> int \<times> u32" where
  "write_side a = (aw_done a, w_done a, aw_addr a, w_data a, w_strb a, b_pending a, b_delay a, b_resp a)"

lemma drive_read_ax:
  "ax (snd (drive_read M r h)) =
     (if ar_outstanding (ax h) then if ar_delay (ax h) > 0 then (ax h)\<lparr> ar_delay := ar_delay (ax h) - 1 \<rparr> else finish_beat r (ax h)
      else ax h)"
proof -
  have "ax (snd (daxi_read32 M a h)) = ax h" for a by (rule fixedD(1)) (rule daxi_read_frame(1))
  then show ?thesis by (simp add: drive_read_def Let_def split_beta)
qed

lemma after_read_write_side: "write_side (ax (after_read M i h)) = write_side (ax h)"
  by (simp add: after_read_def Let_def drive_read_ax write_side_def finish_beat_def accept_ar_def)

lemma after_read_fields [simp]:
  "aw_done (ax (after_read M i h)) = aw_done (ax h)" "w_done (ax (after_read M i h)) = w_done (ax h)"
  "aw_addr (ax (after_read M i h)) = aw_addr (ax h)" "w_data (ax (after_read M i h)) = w_data (ax h)"
  "w_strb (ax (after_read M i h)) = w_strb (ax h)" "b_pending (ax (after_read M i h)) = b_pending (ax h)"
  "b_delay (ax (after_read M i h)) = b_delay (ax h)" "b_resp (ax (after_read M i h)) = b_resp (ax h)"
  using after_read_write_side [of M i h] by (simp_all add: write_side_def)

definition after_commit :: "'m mem_model \<Rightarrow> ifetch_pins \<times> daxi_pins \<Rightarrow> 'm harness \<Rightarrow> 'm harness" where
  "after_commit M i h = (let g = after_read M i h in commit_write M (g\<lparr> ax := accept_aw_w (snd i) (ax g) \<rparr>))"

lemma data_stages:
  "after_data M i h = (after_commit M i h)\<lparr> ax := snd (drive_b (daxi_bready (snd i)) (ax (after_commit M i h))) \<rparr>"
  "daxi_awready (data_out M i h) = (\<not> aw_done (ax h) \<and> \<not> b_pending (ax h))"
  "daxi_wready (data_out M i h) = (\<not> w_done (ax h) \<and> \<not> b_pending (ax h))"
  "(daxi_bvalid (data_out M i h), daxi_bresp (data_out M i h)) = fst (drive_b (daxi_bready (snd i)) (ax (after_commit M i h)))"
proof -
  let ?g = "before_data M i h"
  obtain rv rl rd rr k where r: "drive_read M (daxi_rready (snd i)) (?g\<lparr> ax := accept_ar (snd i) (ax ?g) \<rparr>) = ((rv, rl, rd, rr), k)"
    by (metis surj_pair)
  then have k: "after_read M i h = k" by (simp add: after_read_def Let_def)
  obtain bv br a where b: "drive_b (daxi_bready (snd i)) (ax (after_commit M i h)) = ((bv, br), a)" by (metis surj_pair)
  note b' = b [unfolded after_commit_def Let_def k]
  have d: "drive_daxi M (snd i) ?g =
     (\<lparr> daxi_arready = \<not> ar_outstanding (ax ?g) \<and> \<not> b_pending (ax ?g), daxi_rvalid = rv, daxi_rlast = rl, daxi_rdata = rd, daxi_rresp = rr,
        daxi_awready = \<not> aw_done (ax k) \<and> \<not> b_pending (ax k), daxi_wready = \<not> w_done (ax k) \<and> \<not> b_pending (ax k), daxi_bvalid = bv,
        daxi_bresp = br \<rparr>, (after_commit M i h)\<lparr> ax := a \<rparr>)"
    unfolding drive_daxi_def Let_def r prod.case b' after_commit_def k by (rule refl)
  show "after_data M i h = (after_commit M i h)\<lparr> ax := snd (drive_b (daxi_bready (snd i)) (ax (after_commit M i h))) \<rparr>"
    unfolding after_data_def d b by simp
  show "daxi_awready (data_out M i h) = (\<not> aw_done (ax h) \<and> \<not> b_pending (ax h))"
    "daxi_wready (data_out M i h) = (\<not> w_done (ax h) \<and> \<not> b_pending (ax h))"
    unfolding data_out_def d using after_read_fields [of M i h] by (simp_all add: k)
  show "(daxi_bvalid (data_out M i h), daxi_bresp (data_out M i h)) = fst (drive_b (daxi_bready (snd i)) (ax (after_commit M i h)))"
    unfolding data_out_def d b by simp
qed

text \<open>The state after a write is performed and the response is set, with the port registers left out of it.\<close>

definition after_writes :: "'m mem_model \<Rightarrow> ifetch_pins \<times> daxi_pins \<Rightarrow> 'm harness \<Rightarrow> 'm harness" where
  "after_writes M i h = fold (perform_write M) (writes_complete M i h) (after_read M i h)"

lemma commit_write_alt:
  "commit_write M (h\<lparr> ax := a \<rparr>) =
     (if aw_done a \<and> w_done a \<and> \<not> b_pending a then
        let w = daxi_write32 M (aw_addr a AND NOT 0x3) (w_data a) (w_strb a) h in
        w\<lparr> ax := a\<lparr> b_resp := daxi_bresp_for_addr M w (aw_addr a), aw_done := False, w_done := False, b_pending := True, b_delay := 1 \<rparr> \<rparr>
      else h\<lparr> ax := a \<rparr>)"
  by (simp add: commit_write_def Let_def daxi_write_ax)

lemma commit_write_idle: "\<not> (aw_done (ax h) \<and> w_done (ax h) \<and> \<not> b_pending (ax h)) \<Longrightarrow> commit_write M h = h"
  by (auto simp: commit_write_def)

lemma after_commit_cases:
  assumes "write_ok h"
  shows "after_commit M i h = (after_writes M i h)\<lparr> ax := (let a = accept_aw_w (snd i) (ax (after_read M i h)) in
    case writes_complete M i h of [] \<Rightarrow> a
    | w # _ \<Rightarrow> a\<lparr> b_resp := daxi_bresp_for_addr M (after_writes M i h) (fst w), aw_done := False, w_done := False, b_pending := True, b_delay := 1 \<rparr>) \<rparr>"
  using assms
  by (cases "aw_done (ax h)"; cases "w_done (ax h)"; cases "b_pending (ax h)"; cases "daxi_awvalid (snd i)"; cases "daxi_wvalid (snd i)")
     (simp_all add: after_commit_def Let_def commit_write_alt accept_aw_w_def after_writes_def writes_complete_def aw_held_def w_held_def aw_taken_def
        w_taken_def data_stages perform_write_def write_ok_def commit_write_idle)

lemma after_data_effect: "write_ok h \<Longrightarrow> (after_data M i h)\<lparr> ax := x \<rparr> = (after_writes M i h)\<lparr> ax := x \<rparr>"
  by (simp add: data_stages after_commit_cases)

lemma write_cycle_facts:
  assumes "write_ok h"
  shows "write_ok (bus_cycle M i h)"
    and "map fst (writes_complete M i h) @ aw_held (bus_cycle M i h) = aw_held h @ aw_taken M i h"
    and "map snd (writes_complete M i h) @ w_held (bus_cycle M i h) = w_held h @ w_taken M i h"
    and "b_taken M i h @ b_held (bus_cycle M i h) = b_held h @ write_answers M i h"
    and "b_pending (ax h) \<Longrightarrow> daxi_bvalid (data_out M i h) \<and> daxi_bresp (data_out M i h) = b_resp (ax h)"
proof -
  define A where "A = ax (after_commit M i h)"
  have out: "daxi_bvalid (data_out M i h) = fst (fst (drive_b (daxi_bready (snd i)) A))" "daxi_bresp (data_out M i h) = snd (fst (drive_b (daxi_bready (snd i)) A))"
    using data_stages(4) [of M i h, folded A_def] by (metis fst_conv, metis snd_conv)
  have ax: "ax (after_data M i h) = snd (drive_b (daxi_bready (snd i)) A)" by (simp add: data_stages(1) A_def)
  have resp: "daxi_bresp_for_addr M (after_data M i h) = daxi_bresp_for_addr M (after_writes M i h)"
    by (simp add: data_stages(1) after_commit_cases [OF assms])
  note d = accept_aw_w_def writes_complete_def aw_held_def w_held_def b_held_def aw_taken_def w_taken_def b_taken_def write_answers_def write_ok_def
    data_stages(2,3) ax out resp drive_b_def Let_def
  note A = A_def [unfolded after_commit_cases [OF assms]]
  show "write_ok (bus_cycle M i h)"
    using assms
    by (cases "aw_done (ax h)"; cases "w_done (ax h)"; cases "b_pending (ax h)"; cases "daxi_awvalid (snd i)"; cases "daxi_wvalid (snd i)")
       (simp_all add: d A)
  show "map fst (writes_complete M i h) @ aw_held (bus_cycle M i h) = aw_held h @ aw_taken M i h"
    using assms
    by (cases "aw_done (ax h)"; cases "w_done (ax h)"; cases "b_pending (ax h)"; cases "daxi_awvalid (snd i)"; cases "daxi_wvalid (snd i)")
       (simp_all add: d A)
  show "map snd (writes_complete M i h) @ w_held (bus_cycle M i h) = w_held h @ w_taken M i h"
    using assms
    by (cases "aw_done (ax h)"; cases "w_done (ax h)"; cases "b_pending (ax h)"; cases "daxi_awvalid (snd i)"; cases "daxi_wvalid (snd i)")
       (simp_all add: d A)
  show "b_taken M i h @ b_held (bus_cycle M i h) = b_held h @ write_answers M i h"
    using assms
    by (cases "aw_done (ax h)"; cases "w_done (ax h)"; cases "b_pending (ax h)"; cases "daxi_awvalid (snd i)"; cases "daxi_wvalid (snd i)")
       (simp_all add: d A)
  show "daxi_bvalid (data_out M i h) \<and> daxi_bresp (data_out M i h) = b_resp (ax h)" if "b_pending (ax h)"
    using assms that by (simp add: d A)
qed

interpretation aw_port: burst_server "bus_cycle M" aw_held "aw_taken M" "\<lambda>i h. map fst (writes_complete M i h)" write_ok "\<lambda>_. True" for M
  by unfold_locales (simp_all add: write_cycle_facts(1,2))

interpretation w_port: burst_server "bus_cycle M" w_held "w_taken M" "\<lambda>i h. map snd (writes_complete M i h)" write_ok "\<lambda>_. True" for M
  by unfold_locales (simp_all add: write_cycle_facts(1,3))

interpretation b_port: burst_server "bus_cycle M" b_held "write_answers M" "b_taken M" write_ok "\<lambda>_. True" for M
  by unfold_locales (simp_all add: write_cycle_facts(1,4))

definition idle_pins :: daxi_pins where
  "idle_pins = \<lparr> daxi_arvalid = False, daxi_araddr = 0, daxi_arlen = 0, daxi_arsize = 2, daxi_arburst = 1,
     daxi_rready = True, daxi_awvalid = False, daxi_awaddr = 0, daxi_wvalid = False, daxi_wdata = 0,
     daxi_wstrb = 0, daxi_bready = True \<rparr>"

definition no_fetch_pins :: ifetch_pins where
  "no_fetch_pins = \<lparr> if_req = False, if_addr = 0 \<rparr>"

text \<open>
  C22 Every write is performed once and answered once, whatever the core does with its pins.  Over any run of bus cycles from a
  port with no write under way, the addresses and the data words the port accepts, in whatever cycles they come, are paired in
  order; no complete pair is left waiting; the responses handed over, followed by the one still held, are those of the
  performed writes, one each and in order.  In every cycle the harness outside the port registers changes by the read channel and
  by exactly the writes that are complete in it.  A response that is held is on the pins in every cycle until the core takes it.
\<close>

theorem write_performed_and_answered_once:
  assumes "\<not> aw_done (ax h)" "\<not> w_done (ax h)" "\<not> b_pending (ax h)"
  shows "let run = bus_cycle M; g = fold run cs h; writes = gather run (writes_complete M) cs h in
    map fst writes @ aw_held g = gather run (aw_taken M) cs h \<and>
    map snd writes @ w_held g = gather run (w_taken M) cs h \<and> (aw_held g = [] \<or> w_held g = []) \<and>
    gather run (b_taken M) cs h @ b_held g = gather run (write_answers M) cs h \<and>
    length (gather run (write_answers M) cs h) = length writes \<and>
    (after_data M i g)\<lparr> ax := x \<rparr> = (fold (perform_write M) (writes_complete M i g) (after_read M i g))\<lparr> ax := x \<rparr> \<and>
    (\<forall>r. b_held g = [r] \<longrightarrow> daxi_bvalid (data_out M i g) \<and> daxi_bresp (data_out M i g) = r)"
proof -
  let ?g = "fold (bus_cycle M) cs h"
  have ok: "write_ok h" and e: "aw_held h = []" "w_held h = []" "b_held h = []"
    using assms by (simp_all add: write_ok_def aw_held_def w_held_def b_held_def)
  have g: "write_ok ?g" using aw_port.ok_run [OF ok] by simp
  have n: "length (gather (bus_cycle M) (write_answers M) cs h) = length (gather (bus_cycle M) (writes_complete M) cs h)"
    by (induction cs arbitrary: h) (simp_all add: write_answers_def)
  have r: "\<forall>r. b_held ?g = [r] \<longrightarrow> daxi_bvalid (data_out M i ?g) \<and> daxi_bresp (data_out M i ?g) = r"
    using write_cycle_facts(5) [OF g] by (auto simp: b_held_def)
  have w: "aw_held ?g = [] \<or> w_held ?g = []" using g by (auto simp: write_ok_def aw_held_def w_held_def)
  from aw_port.serve_run [OF ok, of cs M] w_port.serve_run [OF ok, of cs M] b_port.serve_run [OF ok, of cs M] n r w
    after_data_effect [OF g, where M = M and i = i and x = x] show ?thesis
    unfolding Let_def by (simp add: e gather_map after_writes_def)
qed

definition addr_first :: daxi_pins where
  "addr_first = idle_pins\<lparr> daxi_awvalid := True, daxi_awaddr := 0x1000, daxi_bready := False \<rparr>"

definition data_later :: daxi_pins where
  "data_later = idle_pins\<lparr> daxi_wvalid := True, daxi_wdata := 0x11223344, daxi_wstrb := 0xF, daxi_bready := False \<rparr>"

theorem write_performed_and_answered_once_witness:
  "let run = bus_cycle flat_mem; cs = [(no_fetch_pins, addr_first), (no_fetch_pins, data_later), (no_fetch_pins, addr_first), (no_fetch_pins, idle_pins)] in
    map fst (gather run (writes_complete flat_mem) cs flat_harness) @ aw_held (fold run cs flat_harness) = [0x1000] \<and>
    map snd (gather run (writes_complete flat_mem) cs flat_harness) @ w_held (fold run cs flat_harness) = [(0x11223344, 0xF)] \<and>
    length (gather run (b_taken flat_mem) cs flat_harness @ b_held (fold run cs flat_harness)) = 1"
proof -
  let ?cs = "[(no_fetch_pins, addr_first), (no_fetch_pins, data_later), (no_fetch_pins, addr_first), (no_fetch_pins, idle_pins)]"
  have t: "gather (bus_cycle flat_mem) (aw_taken flat_mem) ?cs flat_harness = [0x1000]"
    "gather (bus_cycle flat_mem) (w_taken flat_mem) ?cs flat_harness = [(0x11223344, 0xF)]"
    "gather (bus_cycle flat_mem) (writes_complete flat_mem) ?cs flat_harness = [(0x1000, 0x11223344, 0xF)]"
    by code_simp+
  have "\<not> aw_done (ax flat_harness)" "\<not> w_done (ax flat_harness)" "\<not> b_pending (ax flat_harness)"
    by (simp_all add: flat_harness_def initial_axi_def)
  from write_performed_and_answered_once [OF this, where M = flat_mem and cs = ?cs and i = "(no_fetch_pins, idle_pins)" and x = initial_axi] t
  show ?thesis unfolding Let_def t by (simp only: t) simp
qed

text \<open>Burst reads: the read side of the registers, which the write channels leave alone.\<close>

definition read_side :: "axi \<Rightarrow> bool \<times> u32 \<times> u8 \<times> u8 \<times> u8 \<times> u8 \<times> int" where
  "read_side a = (ar_outstanding a, ar_addr a, ar_len a, ar_size a, ar_burst a, ar_beat a, ar_delay a)"

lemma after_data_read_side: "read_side (ax (bus_cycle M i h)) = read_side (ax (after_read M i h))"
proof -
  have w: "ax (daxi_write32 M a d st g) = ax g" for a d st g by (rule fixedD(1)) (rule daxi_write_frame)
  have "read_side (ax (after_commit M i h)) = read_side (ax (after_read M i h))"
    by (simp add: after_commit_def Let_def commit_write_alt accept_aw_w_def read_side_def)
  then show ?thesis by (simp add: data_stages(1) drive_b_def read_side_def)
qed

lemma read_out:
  assumes "ar_outstanding (ax h)" "ar_delay (ax h) = 0"
  shows "daxi_rvalid (data_out M i h)" "daxi_rlast (data_out M i h) = (ar_beat (ax h) = ar_len (ax h))"
    "daxi_rdata (data_out M i h) = fst (daxi_read32 M (beat_address (ax h)) (before_data M i h))"
    "daxi_rresp (data_out M i h) = daxi_rresp_for_addr M (snd (daxi_read32 M (beat_address (ax h)) (before_data M i h))) (beat_address (ax h))"
proof -
  let ?g = "before_data M i h"
  have ar: "?g\<lparr> ax := accept_ar (snd i) (ax h) \<rparr> = ?g" using assms(1) ifetch_ax [of M i h] by (simp add: accept_ar_def)
  have "fst (drive_read M (daxi_rready (snd i)) ?g) =
      (True, ar_beat (ax h) = ar_len (ax h), fst (daxi_read32 M (beat_address (ax h)) ?g),
        daxi_rresp_for_addr M (snd (daxi_read32 M (beat_address (ax h)) ?g)) (beat_address (ax h)))"
    using assms by (simp add: drive_read_def Let_def split_beta)
  then show "daxi_rvalid (data_out M i h)" "daxi_rlast (data_out M i h) = (ar_beat (ax h) = ar_len (ax h))"
    "daxi_rdata (data_out M i h) = fst (daxi_read32 M (beat_address (ax h)) (before_data M i h))"
    "daxi_rresp (data_out M i h) = daxi_rresp_for_addr M (snd (daxi_read32 M (beat_address (ax h)) (before_data M i h))) (beat_address (ax h))"
    by (simp_all add: data_out_def drive_daxi_def Let_def split_beta ar)
qed

text \<open>Beat \<open>k\<close> of the burst that the pins \<open>p\<close> asked for is due.\<close>

definition beat_due :: "daxi_pins \<Rightarrow> nat \<Rightarrow> 'm harness \<Rightarrow> bool" where
  "beat_due p k h \<longleftrightarrow>
     read_side (ax h) = (True, daxi_araddr p, daxi_arlen p, daxi_arsize p, daxi_arburst p, of_nat k, 0)"

lemma accepted_due:
  assumes "\<not> ar_outstanding (ax h)" "\<not> b_pending (ax h)" "daxi_arvalid (snd i)"
  shows "beat_due (snd i) 0 (bus_cycle M i h)" "daxi_arready (data_out M i h)" "\<not> daxi_rvalid (data_out M i h)"
proof -
  have "beat_due (snd i) 0 (after_read M i h)"
    using assms by (simp add: beat_due_def read_side_def after_read_def Let_def drive_read_ax accept_ar_def)
  then show "beat_due (snd i) 0 (bus_cycle M i h)" by (simp only: beat_due_def after_data_read_side)
  show "daxi_arready (data_out M i h)" "\<not> daxi_rvalid (data_out M i h)"
    using assms by (simp_all add: data_out_def drive_daxi_def Let_def split_beta accept_ar_def drive_read_def)
qed

lemma beat_number: "k \<le> 255 \<Longrightarrow> (of_nat k :: u8) = n \<longleftrightarrow> k = unat n"
proof -
  assume "k \<le> 255"
  then have "unat (of_nat k :: u8) = k" by (simp add: unat_of_nat)
  then show ?thesis by auto
qed

lemma due_step:
  assumes "beat_due p k h" "k \<le> unat (daxi_arlen p)"
  shows "daxi_rready (snd i) \<Longrightarrow> k < unat (daxi_arlen p) \<Longrightarrow> beat_due p (Suc k) (bus_cycle M i h)"
    and "\<not> daxi_rready (snd i) \<Longrightarrow> beat_due p k (bus_cycle M i h)"
    and "ar_outstanding (ax (bus_cycle M i h)) \<longleftrightarrow> \<not> (daxi_rready (snd i) \<and> k = unat (daxi_arlen p))"
proof -
  have k: "(of_nat k :: u8) = daxi_arlen p \<longleftrightarrow> k = unat (daxi_arlen p)"
    using assms(2) unat_u8_less [of "daxi_arlen p"] by (intro beat_number) simp
  have r: "read_side (ax (after_read M i h)) = read_side (finish_beat (daxi_rready (snd i)) (ax h))"
    using assms(1) by (simp add: beat_due_def read_side_def after_read_def Let_def drive_read_ax accept_ar_def)
  have "ar_outstanding (ax (bus_cycle M i h)) = fst (read_side (ax (bus_cycle M i h)))" by (simp add: read_side_def)
  then show "ar_outstanding (ax (bus_cycle M i h)) \<longleftrightarrow> \<not> (daxi_rready (snd i) \<and> k = unat (daxi_arlen p))"
    using assms(1) k by (simp only: after_data_read_side r) (auto simp: beat_due_def read_side_def finish_beat_def)
  show "beat_due p (Suc k) (bus_cycle M i h)" if "daxi_rready (snd i)" "k < unat (daxi_arlen p)"
    using assms(1) that k by (simp only: beat_due_def after_data_read_side r) (auto simp: beat_due_def read_side_def finish_beat_def add.commute)
  show "beat_due p k (bus_cycle M i h)" if "\<not> daxi_rready (snd i)"
    using assms(1) that by (simp only: beat_due_def after_data_read_side r) (auto simp: beat_due_def read_side_def finish_beat_def)
qed

lemma due_run:
  assumes "beat_due p k h" "k + length (filter (\<lambda>i. daxi_rready (snd i)) cs) \<le> unat (daxi_arlen p)"
  shows "beat_due p (k + length (filter (\<lambda>i. daxi_rready (snd i)) cs)) (fold (bus_cycle M) cs h)"
  using assms
proof (induction cs arbitrary: k h)
  case (Cons i cs)
  then show ?case
    using due_step(1) [OF Cons.prems(1), of i M] due_step(2) [OF Cons.prems(1), of i M]
      Cons.IH [of "Suc k" "bus_cycle M i h"] Cons.IH [of k "bus_cycle M i h"] by (cases "daxi_rready (snd i)") simp_all
qed simp

definition burst_address :: "daxi_pins \<Rightarrow> nat \<Rightarrow> u32" where
  "burst_address p k =
     (if daxi_arburst p = 1 then daxi_araddr p + push_bit (unat (daxi_arsize p)) (of_nat k) else daxi_araddr p)"

lemma due_address: "beat_due p k h \<Longrightarrow> k \<le> 255 \<Longrightarrow> beat_address (ax h) = burst_address p k"
  by (auto simp: beat_due_def read_side_def beat_address_def burst_address_def unsigned_of_nat take_bit_nat_eq_self)

text \<open>
  C21 A burst read is accepted, delivers its beats and ends.  A port without a read or a response under way accepts the address in the cycle
  it is on the pins and gives no beat yet.  From then on, whatever the core does with its other pins, a beat is valid in every
  cycle: after \<open>k\<close> cycles in which the core took one, stalled cycles in between or not, it is beat \<open>k\<close>, read from the address of beat
  \<open>k\<close> in the state of that cycle, with the decoder's response and the last flag exactly on beat \<open>len\<close>; when the core takes that one
  the port is free.
\<close>

theorem burst_read_completes:
  assumes "\<not> ar_outstanding (ax h)" and "\<not> b_pending (ax h)" and "daxi_arvalid p"
    and "k = length (filter (\<lambda>i. daxi_rready (snd i)) cs)" and "k \<le> unat (daxi_arlen p)"
  shows "let g = fold (bus_cycle M) cs (bus_cycle M (f, p) h); a = burst_address p k; x = daxi_read32 M a (before_data M i g) in
    daxi_arready (data_out M (f, p) h) \<and> \<not> daxi_rvalid (data_out M (f, p) h) \<and>
    daxi_rvalid (data_out M i g) \<and> daxi_rdata (data_out M i g) = fst x \<and> daxi_rresp (data_out M i g) = daxi_rresp_for_addr M (snd x) a \<and>
    (daxi_rlast (data_out M i g) \<longleftrightarrow> k = unat (daxi_arlen p)) \<and>
    (ar_outstanding (ax (bus_cycle M i g)) \<longleftrightarrow> \<not> (daxi_rready (snd i) \<and> k = unat (daxi_arlen p)))"
proof -
  note a = accepted_due [of h "(f, p)", simplified, OF assms(1-3), where M = M]
  define g where "g = fold (bus_cycle M) cs (bus_cycle M (f, p) h)"
  have due: "beat_due p k g" using due_run [OF a(1), of cs M] assms(4,5) by (simp add: g_def)
  have k: "k \<le> 255" using assms(5) unat_u8_less [of "daxi_arlen p"] by simp
  have o: "ar_outstanding (ax g)" "ar_delay (ax g) = 0" "ar_beat (ax g) = of_nat k" "ar_len (ax g) = daxi_arlen p"
    using due by (simp_all add: beat_due_def read_side_def)
  have l: "(of_nat k :: u8) = daxi_arlen p \<longleftrightarrow> k = unat (daxi_arlen p)" using k by (rule beat_number)
  show ?thesis
    using a(2,3) read_out [OF o(1,2), of M i] due_step(3) [OF due assms(5), of M i]
    unfolding Let_def g_def [symmetric] due_address [OF due k] by (simp only: o(3,4) l) simp
qed

theorem burst_read_completes_witness:
  "let p = idle_pins\<lparr> daxi_arvalid := True, daxi_araddr := 0x1000, daxi_arlen := 1, daxi_arsize := 2, daxi_arburst := 1, daxi_rready := False \<rparr>;
       g = fold (bus_cycle flat_mem) [(no_fetch_pins, p), (no_fetch_pins, idle_pins)] (bus_cycle flat_mem (no_fetch_pins, p) flat_harness) in
   daxi_rvalid (data_out flat_mem (no_fetch_pins, idle_pins) g) \<and> daxi_rlast (data_out flat_mem (no_fetch_pins, idle_pins) g) \<and>
   \<not> ar_outstanding (ax (bus_cycle flat_mem (no_fetch_pins, idle_pins) g))"
proof -
  let ?p = "idle_pins\<lparr> daxi_arvalid := True, daxi_araddr := 0x1000, daxi_arlen := 1, daxi_arsize := 2, daxi_arburst := 1, daxi_rready := False \<rparr>"
  show ?thesis
    using burst_read_completes [of flat_harness ?p 1 "[(no_fetch_pins, ?p), (no_fetch_pins, idle_pins)]" flat_mem no_fetch_pins "(no_fetch_pins, idle_pins)"]
    unfolding Let_def by (simp add: flat_harness_def initial_axi_def idle_pins_def)
qed

text \<open>
  While the master is not ready the beat is read again in every cycle, side effects included: with the
  serial pointer at register 2, a stalled read shows first that register and then register 0.
\<close>

lemma stalled_read_repeats:
  fixes h
  defines "s \<equiv> h\<lparr> h_scc := initial_scc\<lparr> ptr := (\<lambda>_. 2), wr := (\<lambda>_ _. 0x5A) \<rparr>,
     ax := initial_axi\<lparr> ar_outstanding := True, ar_addr := 0x5000C008 \<rparr> \<rparr>"
  shows "fst (io_read32 (beat_address (ax s)) s) = 0x5A5A5A5A"
    "fst (io_read32 (beat_address (ax s)) (snd (io_read32 (beat_address (ax s)) s))) = 0x6C6C6C6C"
  by (simp_all add: s_def initial_axi_def beat_address_def io_read32_def q700_io_canonical_def IO_MIRROR_MASK_def
      io_device_def all_devices_def in_range_def device_read_def initial_scc_def scc_read_def scc_rr_def
      channel_index_def is_data_port_def RR0_IDLE_def Let_def)

lemma stalled_beat_keeps_address:
  assumes "ar_outstanding (ax h)" "ar_delay (ax h) = 0"
  shows "beat_address (ax (snd (drive_read M False h))) = beat_address (ax h)"
    "ar_outstanding (ax (snd (drive_read M False h)))"
proof -
  have "ax (snd (daxi_read32 M a h)) = ax h" for a by (rule fixedD(1)) (rule daxi_read_frame(1))
  then show "beat_address (ax (snd (drive_read M False h))) = beat_address (ax h)"
    "ar_outstanding (ax (snd (drive_read M False h)))"
    using assms by (simp_all add: drive_read_def Let_def split_beta finish_beat_def)
qed

end
