(* ===== verification/Checkpoint.thy ===== *)
theory Checkpoint
  imports Rom_Boot_Run "HOL-Library.Monad_Syntax"
begin

unbundle bit_operations_syntax

text \<open>
  Checkpoints of the ROM-boot harness (\<open>serialize_harness\<close>, \<open>deserialize_harness\<close>, \<open>save_checkpoint\<close>
  and \<open>restore_checkpoint\<close> of \<open>tb/tb_rom_boot.cpp\<close>).

  The stream is the sequence of values in the order of the \<open><<\<close> and \<open>>>\<close> operators, each with the C++
  type it is written or read at; how Verilator lays them out in a file is not modelled, and a read
  at another type than was written, or past the end, is \<open>None\<close>.  The raw memory block is read and
  written through the two functions of \<open>'m mem_image\<close>.  The saved design follows the harness on the
  stream and is left there.

  The reader takes five format versions: older ones lack the timer state (before 4), the burst
  state (before 5), the extended parameter memory (before 3) or the clock altogether (version 1).
\<close>

section \<open>The stream\<close>

datatype cell = CB bool | C8 u8 | C16 u16 | C32 u32 | C64 u64 | CRaw "u8 list"

fun get_b :: "cell list \<Rightarrow> (bool \<times> cell list) option" where
  "get_b (CB v # r) = Some (v, r)"
| "get_b _ = None"

fun get_8 :: "cell list \<Rightarrow> (u8 \<times> cell list) option" where
  "get_8 (C8 v # r) = Some (v, r)"
| "get_8 _ = None"

fun get_16 :: "cell list \<Rightarrow> (u16 \<times> cell list) option" where
  "get_16 (C16 v # r) = Some (v, r)"
| "get_16 _ = None"

fun get_32 :: "cell list \<Rightarrow> (u32 \<times> cell list) option" where
  "get_32 (C32 v # r) = Some (v, r)"
| "get_32 _ = None"

fun get_64 :: "cell list \<Rightarrow> (u64 \<times> cell list) option" where
  "get_64 (C64 v # r) = Some (v, r)"
| "get_64 _ = None"

fun get_raw :: "nat \<Rightarrow> cell list \<Rightarrow> (u8 list \<times> cell list) option" where
  "get_raw n (CRaw bs # r) = (if length bs = n then Some (bs, r) else None)"
| "get_raw n _ = None"

text \<open>A run of reads of one byte each.\<close>

fun get_8s :: "nat \<Rightarrow> cell list \<Rightarrow> (u8 list \<times> cell list) option" where
  "get_8s 0 r = Some ([], r)"
| "get_8s (Suc n) r = do { (v, r) \<leftarrow> get_8 r; (vs, r) \<leftarrow> get_8s n r; Some (v # vs, r) }"

text \<open>\<open>(uint32_t)n\<close> and \<open>(int)tmp32\<close> for a C++ \<open>int\<close>.\<close>

definition put_int :: "int \<Rightarrow> cell" where
  "put_int n = C32 (word_of_int n)"

definition get_int :: "cell list \<Rightarrow> (int \<times> cell list) option" where
  "get_int r = do { (t, r) \<leftarrow> get_32 r; Some (sint t, r) }"

text \<open>\<open>(uint32_t)b\<close> and \<open>(uint8_t)tmp32\<close> for a byte field.\<close>

definition put_8_as_32 :: "u8 \<Rightarrow> cell" where
  "put_8_as_32 b = C32 (ucast b)"

definition get_8_as_32 :: "cell list \<Rightarrow> (u8 \<times> cell list) option" where
  "get_8_as_32 r = do { (t, r) \<leftarrow> get_32 r; Some (ucast t, r) }"

section \<open>Access counters\<close>

definition serialize_map :: "(u32 \<times> u64) list \<Rightarrow> cell list" where
  "serialize_map m = C32 (of_nat (length m)) # concat (map (\<lambda>(k, v). [C32 k, C64 v]) m)"

fun get_entries :: "nat \<Rightarrow> (u32 \<times> u64) list \<Rightarrow> cell list \<Rightarrow> ((u32 \<times> u64) list \<times> cell list) option" where
  "get_entries 0 m r = Some (m, r)"
| "get_entries (Suc n) m r =
     do { (key, r) \<leftarrow> get_32 r; (val, r) \<leftarrow> get_64 r; get_entries n (smap_update key (\<lambda>_. val) m) r }"

definition deserialize_map :: "cell list \<Rightarrow> ((u32 \<times> u64) list \<times> cell list) option" where
  "deserialize_map r = do { (n, r) \<leftarrow> get_32 r; get_entries (unat n) [] r }"

section \<open>The adapter\<close>

definition put_via1 :: "via1 \<Rightarrow> cell list" where
  "put_via1 v =
     map C8 [orb v, ora v, ddrb v, ddra v, t1cl v, t1ch v, t1ll v, t1lh v, t2cl v, t2ch v, sr v, acr v, pcr v, ifr v, ier v] @
     [CB (adb_shift_in_progress v), C64 (adb_shift_complete_cyc v), C8 (adb_last_byte v),
      CB (t1_running v), C16 (t1_latch v), C16 (t1_counter v),
      CB (t2_running v), C16 (t2_latch v), C16 (t2_counter v), C32 (adb_transaction_id v)]"

definition word16 :: "u8 \<Rightarrow> u8 \<Rightarrow> u16" where
  "word16 hi lo = push_bit 8 (ucast hi) OR ucast lo"

definition get_via1_timers :: "u32 \<Rightarrow> via1 \<Rightarrow> cell list \<Rightarrow> (via1 \<times> cell list) option" where
  "get_via1_timers version v r =
     (if 4 \<le> version then
        do { (r1, r) \<leftarrow> get_b r; (l1, r) \<leftarrow> get_16 r; (c1, r) \<leftarrow> get_16 r;
             (r2, r) \<leftarrow> get_b r; (l2, r) \<leftarrow> get_16 r; (c2, r) \<leftarrow> get_16 r; (t, r) \<leftarrow> get_32 r;
             Some (v\<lparr> t1_running := r1, t1_latch := l1, t1_counter := c1, t2_running := r2, t2_latch := l2,
                      t2_counter := c2, adb_transaction_id := t \<rparr>, r) }
      else
        Some (v\<lparr> t1_running := False, t1_latch := word16 (t1lh v) (t1ll v), t1_counter := word16 (t1ch v) (t1cl v),
                 t2_running := False, t2_latch := word16 (t2ch v) (t2cl v), t2_counter := word16 (t2ch v) (t2cl v),
                 adb_transaction_id := 0 \<rparr>, r))"

definition get_via1 :: "u32 \<Rightarrow> via1 \<Rightarrow> cell list \<Rightarrow> (via1 \<times> cell list) option" where
  "get_via1 version v r =
     do { (b, r) \<leftarrow> get_8s 15 r; (ip, r) \<leftarrow> get_b r; (cc, r) \<leftarrow> get_64 r; (lb, r) \<leftarrow> get_8 r;
          get_via1_timers version
            (v\<lparr> orb := b ! 0, ora := b ! 1, ddrb := b ! 2, ddra := b ! 3, t1cl := b ! 4, t1ch := b ! 5, t1ll := b ! 6,
                t1lh := b ! 7, t2cl := b ! 8, t2ch := b ! 9, sr := b ! 10, acr := b ! 11, pcr := b ! 12, ifr := b ! 13,
                ier := b ! 14, adb_shift_in_progress := ip, adb_shift_complete_cyc := cc, adb_last_byte := lb \<rparr>) r }"

section \<open>The data port\<close>

definition put_axi :: "axi \<Rightarrow> cell list" where
  "put_axi a =
     [CB (ar_outstanding a), C32 (ar_addr a), put_8_as_32 (ar_len a), put_8_as_32 (ar_size a),
      put_8_as_32 (ar_burst a), put_8_as_32 (ar_beat a), put_int (ar_delay a), CB (aw_done a), CB (w_done a),
      C32 (aw_addr a), C32 (w_data a), C32 (w_strb a), put_int (b_delay a), CB (b_pending a)]"

definition get_axi_burst :: "u32 \<Rightarrow> axi \<Rightarrow> cell list \<Rightarrow> (axi \<times> cell list) option" where
  "get_axi_burst version a r =
     (if 5 \<le> version then
        do { (len, r) \<leftarrow> get_8_as_32 r; (sz, r) \<leftarrow> get_8_as_32 r; (bu, r) \<leftarrow> get_8_as_32 r; (be, r) \<leftarrow> get_8_as_32 r;
             Some (a\<lparr> ar_len := len, ar_size := sz, ar_burst := bu, ar_beat := be \<rparr>, r) }
      else Some (a\<lparr> ar_len := 0, ar_size := 2, ar_burst := 1, ar_beat := 0 \<rparr>, r))"

definition get_axi :: "u32 \<Rightarrow> axi \<Rightarrow> cell list \<Rightarrow> (axi \<times> cell list) option" where
  "get_axi version a r =
     do { (ao, r) \<leftarrow> get_b r; (aa, r) \<leftarrow> get_32 r;
          (a, r) \<leftarrow> get_axi_burst version (a\<lparr> ar_outstanding := ao, ar_addr := aa \<rparr>) r;
          (ad, r) \<leftarrow> get_int r; (awd, r) \<leftarrow> get_b r; (wd, r) \<leftarrow> get_b r; (awa, r) \<leftarrow> get_32 r; (wdt, r) \<leftarrow> get_32 r;
          (ws, r) \<leftarrow> get_32 r; (bd, r) \<leftarrow> get_int r; (bp, r) \<leftarrow> get_b r;
          Some (a\<lparr> ar_delay := ad, aw_done := awd, w_done := wd, aw_addr := awa, w_data := wdt, w_strb := ws,
                   b_delay := bd, b_pending := bp \<rparr>, r) }"

section \<open>The clock chip\<close>

definition all_bytes :: "u8 list" where
  "all_bytes = map of_nat [0..<256]"

definition put_rtc :: "rtc \<Rightarrow> cell list" where
  "put_rtc c =
     [CB (rtc_initialized c), CB (prev_enb c), CB (prev_clk c), CB (rtc_active c), CB (is_read c), C8 (rtc_cmd c),
      C8 (rtc_data c), C8 (cmd_bits c), C8 (data_bits c), C8 (read_shift c), CB (data_line c), CB (is_extended c),
      CB (xp_addr_done c), C8 (xp_addr c), CB (write_protect c), CB (test_mode c), C32 (seconds_base c),
      C64 (seconds_base_cycle c)] @ map (\<lambda>i. C8 (pram c i)) all_bytes"

text \<open>The parameter memory after its first bytes have been read over \<open>f\<close>.\<close>

definition pram_of :: "u8 list \<Rightarrow> (u8 \<Rightarrow> u8) \<Rightarrow> u8 \<Rightarrow> u8" where
  "pram_of bs f i = (if unat i < length bs then bs ! unat i else f i)"

definition get_rtc_store :: "u32 \<Rightarrow> rtc \<Rightarrow> cell list \<Rightarrow> (rtc \<times> cell list) option" where
  "get_rtc_store version c r =
     (if 3 \<le> version then
        do { (ex, r) \<leftarrow> get_b r; (xd, r) \<leftarrow> get_b r; (xa, r) \<leftarrow> get_8 r; (wp, r) \<leftarrow> get_b r; (tm, r) \<leftarrow> get_b r;
             (sb, r) \<leftarrow> get_32 r; (sc, r) \<leftarrow> get_64 r; (p, r) \<leftarrow> get_8s 256 r;
             Some (c\<lparr> is_extended := ex, xp_addr_done := xd, xp_addr := xa, write_protect := wp, test_mode := tm,
                      seconds_base := sb, seconds_base_cycle := sc, pram := pram_of p (pram c) \<rparr>, r) }
      else
        do { (sb, r) \<leftarrow> get_32 r; (sc, r) \<leftarrow> get_64 r; (p, r) \<leftarrow> get_8s 20 r;
             Some (c\<lparr> seconds_base := sb, seconds_base_cycle := sc, pram := pram_of p pram_reset_byte,
                      is_extended := False, xp_addr_done := False, xp_addr := 0, write_protect := False,
                      test_mode := False \<rparr>, r) })"

definition get_rtc :: "u32 \<Rightarrow> u64 \<Rightarrow> rtc \<Rightarrow> cell list \<Rightarrow> (rtc \<times> cell list) option" where
  "get_rtc version now c r =
     (if 2 \<le> version then
        do { (ini, r) \<leftarrow> get_b r; (pe, r) \<leftarrow> get_b r; (pc, r) \<leftarrow> get_b r; (ac, r) \<leftarrow> get_b r; (ir, r) \<leftarrow> get_b r;
             (cm, r) \<leftarrow> get_8 r; (da, r) \<leftarrow> get_8 r; (cb, r) \<leftarrow> get_8 r; (db, r) \<leftarrow> get_8 r; (rs, r) \<leftarrow> get_8 r; (dl, r) \<leftarrow> get_b r;
             get_rtc_store version
               (c\<lparr> rtc_initialized := ini, prev_enb := pe, prev_clk := pc, rtc_active := ac, is_read := ir, rtc_cmd := cm,
                   rtc_data := da, cmd_bits := cb, data_bits := db, read_shift := rs, data_line := dl \<rparr>) r }
      else Some (rtc_reset now, r))"

section \<open>The harness\<close>

record 'm mem_image =
  mem_data :: "'m \<Rightarrow> u8 list"
  mem_load :: "u8 list \<Rightarrow> 'm \<Rightarrow> 'm"

definition serialize_harness :: "'m mem_image \<Rightarrow> 'm harness \<Rightarrow> cell list" where
  "serialize_harness D h =
     [C64 (sim_time h), C64 (host_cycle (sys h)), CB (overlay (sys h))] @ put_via1 (via (sys h)) @
     map (\<lambda>i. C8 (via2_regs h (of_nat i))) [0..<16] @
     serialize_map (unmapped_write_count h) @ serialize_map (unmapped_read_count h) @
     [put_int (if_pending h), C32 (if_addr_q h)] @ put_axi (ax h) @
     [C32 (last_logged_pc h), C32 (last_same_pc_count h), C32 (of_nat (length (mem_data D (h_mem h)))),
      CRaw (mem_data D (h_mem h))] @ put_rtc (rtc_chip (sys h))"

text \<open>
  The reader changes the harness as it goes, so a memory block of the wrong size (result false) leaves
  everything before it restored.  \<open>b_resp\<close> is not saved but computed again from the address.
\<close>

definition restore_front ::
  "'m mem_model \<Rightarrow> u32 \<Rightarrow> 'm harness \<Rightarrow> cell list \<Rightarrow> ('m harness \<times> cell list) option" where
  "restore_front M version g r =
     do { (st, r) \<leftarrow> get_64 r; (hc, r) \<leftarrow> get_64 r; (ov, r) \<leftarrow> get_b r;
          (v, r) \<leftarrow> get_via1 version (via (sys g)) r;
          (v2, r) \<leftarrow> get_8s 16 r;
          (wc, r) \<leftarrow> deserialize_map r; (rc, r) \<leftarrow> deserialize_map r;
          (ip, r) \<leftarrow> get_int r; (ia, r) \<leftarrow> get_32 r;
          (a, r) \<leftarrow> get_axi version (ax g) r;
          (let g = g\<lparr> sim_time := st, sys := (sys g)\<lparr> host_cycle := hc, overlay := ov, via := v \<rparr>,
                      via2_regs := pram_of v2 (via2_regs g), unmapped_write_count := wc, unmapped_read_count := rc,
                      if_pending := ip, if_addr_q := ia \<rparr> in
           do { (lp, r) \<leftarrow> get_32 r; (lc, r) \<leftarrow> get_32 r;
                Some (g\<lparr> ax := a\<lparr> b_resp := (if b_pending a then daxi_bresp_for_addr M g (aw_addr a) else 0) \<rparr>,
                         last_logged_pc := lp, last_same_pc_count := lc \<rparr>, r) }) }"

definition deserialize_harness ::
  "'m mem_model \<Rightarrow> 'm mem_image \<Rightarrow> u32 \<Rightarrow> 'm harness \<Rightarrow> cell list \<Rightarrow> ((bool \<times> 'm harness) \<times> cell list) option" where
  "deserialize_harness M D version g r =
     do { (g, r) \<leftarrow> restore_front M version g r;
          (n, r) \<leftarrow> get_32 r;
          if unat n \<noteq> length (mem_data D (h_mem g)) then Some ((False, g), r)
          else
            do { (bs, r) \<leftarrow> get_raw (unat n) r;
                 (c, r) \<leftarrow> get_rtc version (host_cycle (sys g)) (rtc_chip (sys g)) r;
                 Some ((True, g\<lparr> h_mem := mem_load D bs (h_mem g), sys := (sys g)\<lparr> rtc_chip := c \<rparr> \<rparr>), r) } }"

definition CHECKPOINT_MAGIC :: u32 where
  "CHECKPOINT_MAGIC = 0x5142434B"

definition CHECKPOINT_VERSION :: u32 where
  "CHECKPOINT_VERSION = 5"

definition save_checkpoint :: "'m mem_image \<Rightarrow> cell list \<Rightarrow> 'm harness \<Rightarrow> cell list" where
  "save_checkpoint D dut h = [C32 CHECKPOINT_MAGIC, C32 CHECKPOINT_VERSION] @ serialize_harness D h @ dut"

text \<open>The result is the verdict, the harness and what is left on the stream for the design.\<close>

definition restore_checkpoint ::
  "'m mem_model \<Rightarrow> 'm mem_image \<Rightarrow> cell list \<Rightarrow> 'm harness \<Rightarrow> ((bool \<times> 'm harness) \<times> cell list) option" where
  "restore_checkpoint M D r g =
     do { (magic, r) \<leftarrow> get_32 r; (version, r) \<leftarrow> get_32 r;
          if magic \<noteq> CHECKPOINT_MAGIC \<or> version < 1 \<or> 5 < version then Some ((False, g), r)
          else
            do { ((ok, g), r) \<leftarrow> deserialize_harness M D version g r;
                 if ok then Some ((True, g\<lparr> test_done := False, h_stop_reason := Restored \<rparr>), r)
                 else Some ((False, g), r) } }"

end
