(* ===== verification/Rom_Boot_Watch.thy ===== *)
theory Rom_Boot_Watch
  imports Rom_Boot_Args Checkpoint
begin

unbundle bit_operations_syntax

text \<open>
  What ends a run of the ROM-boot harness, and the main loop that composes it with the ports and the
  clock (\<open>tb/tb_rom_boot.cpp\<close>, from \<open>check_pc_breakpoints\<close> to the loop of \<open>main\<close>).

  The simulated core is seen through a \<open>core\<close>: the debug outputs after the clock edge of the cycle.
  The pins and internal signals of the core that \<open>progress_signature\<close> mixes before and after the port
  state are two lists.  Saving a checkpoint file is recorded in \<open>saved_points\<close>.  Trace, probe, sample and event logs
  are left out.  The raw memory block is reached through \<open>'m ram_model\<close>.
\<close>

section \<open>State\<close>

record boundary_event =
  ev_seq :: u32
  ev_kind :: u32
  ev_pc :: u32
  ev_next_pc :: u32
  ev_vec :: u8
  ev_fault_pc :: u32
  ev_fault_addr :: u32
  ev_keep_tag :: u32

definition no_boundary :: boundary_event where
  "no_boundary = \<lparr> ev_seq = 0, ev_kind = 0, ev_pc = 0, ev_next_pc = 0, ev_vec = 0, ev_fault_pc = 0,
     ev_fault_addr = 0, ev_keep_tag = 0 \<rparr>"

definition DBG_BOUNDARY_NONE :: u32 where "DBG_BOUNDARY_NONE = 0"

definition DBG_BOUNDARY_RETIRE :: u32 where "DBG_BOUNDARY_RETIRE = 1"

definition DBG_BOUNDARY_EXC :: u32 where "DBG_BOUNDARY_EXC = 2"

definition SAD_MAC_PC :: u32 where "SAD_MAC_PC = 0x40849AFA"

definition DISK_PROMPT_PC :: u32 where "DISK_PROMPT_PC = 0x40898E3E"

record watch_config =
  stop_pc_hit_target :: u64
  end_pc_hit_target :: u64
  stop_exc_vecs :: "u8 list"
  end_exc_vecs :: "u8 list"
  stop_on_exc_after_committed :: u64
  end_on_exc_after_committed :: u64
  stop_on_sad_mac :: bool
  stop_on_disk_prompt :: bool
  disk_prompt_hit_target :: u64
  stuck_pc_threshold :: u64
  end_on_stuck_pc :: bool
  no_progress_cycle_threshold :: u64
  end_on_no_progress :: bool
  stop_on_low_pc :: bool
  max_insts :: u64

definition default_config :: watch_config where
  "default_config = \<lparr> stop_pc_hit_target = 1, end_pc_hit_target = 1, stop_exc_vecs = [], end_exc_vecs = [],
     stop_on_exc_after_committed = 0, end_on_exc_after_committed = 0, stop_on_sad_mac = False,
     stop_on_disk_prompt = False, disk_prompt_hit_target = 32, stuck_pc_threshold = 8192, end_on_stuck_pc = False,
     no_progress_cycle_threshold = 500000, end_on_no_progress = False, stop_on_low_pc = False, max_insts = 5000 \<rparr>"

datatype saved_point = At_Commit u64 | At_Cycle u64

record checkpointing =
  checkpoint_prefix_set :: bool
  checkpoint_points :: "u64 list"
  next_checkpoint_point :: nat
  checkpoint_every :: u64
  next_checkpoint_commit :: u64
  checkpoint_cycle_points :: "u64 list"
  next_checkpoint_cycle_point :: nat
  saved_points :: "saved_point list"

record fastfill =
  ff_enabled :: bool
  ff_hits :: u64
  ff_skips :: u64
  ff_bytes :: u64
  ff_sentinels :: u64

record q700_descriptor =
  descriptor_selected :: bool
  descriptor_entry :: u32
  feature_word :: u32

record next_pc =
  np_valid :: bool
  np_pc :: u32
  np_commit_pc :: u32
  np_committed :: u32

record 'm boot =
  hs :: "'m harness"
  cfg :: watch_config
  stop_pcs :: "pc_breakpoint list"
  end_pcs :: "pc_breakpoint list"
  disk_prompt_hits :: u64
  precise_boundary_pending :: bool
  precise_boundary_stop :: boundary_event
  ck :: checkpointing
  ff :: fastfill
  q700 :: q700_descriptor
  arch_next_pc :: next_pc
  prev_committed :: u32
  prev_boundary_seq :: u32
  no_progress_cycles :: u64
  prev_progress_sig :: u64

record core =
  dbg_committed :: u32
  dbg_last_pc :: u32
  dbg_pc :: u32
  dbg_boundary :: boundary_event
  arch_reg :: "nat \<Rightarrow> u32"
  sig_front :: "u64 list"
  sig_back :: "u64 list"

definition map_hs :: "('m harness \<Rightarrow> 'm harness) \<Rightarrow> 'm boot \<Rightarrow> 'm boot" where
  "map_hs f b = b\<lparr> hs := f (hs b) \<rparr>"

text \<open>\<open>stop_reason = ...; test_done = true\<close>.\<close>

definition stop_run :: "stop_reason \<Rightarrow> 'm harness \<Rightarrow> 'm harness" where
  "stop_run reason h = h\<lparr> test_done := True, h_stop_reason := reason \<rparr>"

section \<open>Breakpoints\<close>

text \<open>The loop over the breakpoints: the address and hit count of the one that stops, and the counts after.\<close>

fun check_pc_breakpoints :: "u32 \<Rightarrow> u64 \<Rightarrow> pc_breakpoint list \<Rightarrow> u64 option \<times> pc_breakpoint list" where
  "check_pc_breakpoints pc target [] = (None, [])"
| "check_pc_breakpoints pc target (b # bs) =
     (if bp_pc b \<noteq> pc then
        (case check_pc_breakpoints pc target bs of (r, bs') \<Rightarrow> (r, b # bs'))
      else
        let b' = b\<lparr> bp_hits := bp_hits b + 1 \<rparr> in
        if target \<le> bp_hits b' then (Some (bp_hits b'), b' # bs)
        else (case check_pc_breakpoints pc target bs of (r, bs') \<Rightarrow> (r, b' # bs')))"

definition check_stop_pc :: "u32 \<Rightarrow> 'm boot \<Rightarrow> bool \<times> 'm boot" where
  "check_stop_pc pc b =
     (case check_pc_breakpoints pc (stop_pc_hit_target (cfg b)) (stop_pcs b) of
        (None, bs) \<Rightarrow> (False, b\<lparr> stop_pcs := bs \<rparr>)
      | (Some n, bs) \<Rightarrow> (True, map_hs (stop_run (Stop_Pc pc n)) (b\<lparr> stop_pcs := bs \<rparr>)))"

definition check_end_pc :: "u32 \<Rightarrow> 'm boot \<Rightarrow> bool \<times> 'm boot" where
  "check_end_pc pc b =
     (case check_pc_breakpoints pc (end_pc_hit_target (cfg b)) (end_pcs b) of
        (None, bs) \<Rightarrow> (False, b\<lparr> end_pcs := bs \<rparr>)
      | (Some n, bs) \<Rightarrow> (True, map_hs (stop_run (End_Breakpoint pc n)) (b\<lparr> end_pcs := bs \<rparr>)))"

section \<open>Outcomes and watchdogs\<close>

definition check_rom_outcome_commit :: "(nat \<Rightarrow> u32) \<Rightarrow> u32 \<Rightarrow> 'm boot \<Rightarrow> bool \<times> 'm boot" where
  "check_rom_outcome_commit reg pc b =
     (if stop_on_sad_mac (cfg b) \<and> pc = SAD_MAC_PC then
        (True, map_hs (stop_run (Sad_Mac pc (reg 6) (reg 7))) b)
      else if stop_on_disk_prompt (cfg b) \<and> pc = DISK_PROMPT_PC then
        let b = b\<lparr> disk_prompt_hits := disk_prompt_hits b + 1 \<rparr> in
        if disk_prompt_hit_target (cfg b) \<le> disk_prompt_hits b then
          (True, map_hs (stop_run (Disk_Prompt pc (disk_prompt_hits b) (reg 0) (reg 1) (reg 3) (reg 4))) b)
        else (False, b)
      else (False, b))"

definition check_stuck_pc_commit :: "watch_config \<Rightarrow> u32 \<Rightarrow> 'm harness \<Rightarrow> bool \<times> 'm harness" where
  "check_stuck_pc_commit c pc h =
     (if pc = last_logged_pc h then
        let h = h\<lparr> last_same_pc_count := last_same_pc_count h + 1 \<rparr>; n = last_same_pc_count h; t = stuck_pc_threshold c in
        if t \<noteq> 0 \<and> t \<le> ucast n then
          (True, stop_run (if end_on_stuck_pc c then End_Stuck_Pc pc n t else Stuck_Pc pc n t) h)
        else (False, h)
      else (False, h\<lparr> last_same_pc_count := 0, last_logged_pc := pc \<rparr>))"

definition check_no_progress_watchdog :: "watch_config \<Rightarrow> u64 \<Rightarrow> 'm harness \<Rightarrow> bool \<times> 'm harness" where
  "check_no_progress_watchdog c n h =
     (let t = no_progress_cycle_threshold c in
      if t = 0 \<or> n < t then (False, h)
      else (True, stop_run (if end_on_no_progress c then End_No_Progress n t else No_Progress n t) h))"

section \<open>Exceptions at instruction boundaries\<close>

definition exc_vec_configured :: "u8 list \<Rightarrow> u8 \<Rightarrow> bool" where
  "exc_vec_configured vecs vec \<longleftrightarrow> vec \<noteq> 0 \<and> vec \<in> set vecs"

definition rom_exception_class :: "u8 \<Rightarrow> string" where
  "rom_exception_class vec =
     (if vec = 2 then ''bus-error'' else if vec = 4 then ''illegal-instruction'' else if vec = 11 then ''f-line''
      else ''exception'')"

text \<open>The event when it is a new one.\<close>

definition poll_new_boundary_event :: "core \<Rightarrow> 'm boot \<Rightarrow> boundary_event option \<times> 'm boot" where
  "poll_new_boundary_event c b =
     (let ev = dbg_boundary c in
      if ev_seq ev = 0 \<or> ev_seq ev = prev_boundary_seq b \<or> ev_kind ev = DBG_BOUNDARY_NONE then (None, b)
      else (Some ev, b\<lparr> prev_boundary_seq := ev_seq ev \<rparr>))"

definition arm_precise_boundary_stop :: "boundary_event \<Rightarrow> 'm boot \<Rightarrow> 'm boot" where
  "arm_precise_boundary_stop ev b = b\<lparr> precise_boundary_pending := True, precise_boundary_stop := ev \<rparr>"

definition check_exception_boundary ::
  "boundary_event \<Rightarrow> u8 list \<Rightarrow> u64 \<Rightarrow> (u8 \<Rightarrow> u32 \<Rightarrow> u32 \<Rightarrow> u32 \<Rightarrow> u64 \<Rightarrow> u32 \<Rightarrow> stop_reason) \<Rightarrow> u64 \<Rightarrow> 'm boot \<Rightarrow> bool \<times> 'm boot"
  where
  "check_exception_boundary ev vecs min_committed reason committed b =
     (if vecs = [] \<or> ev_kind ev \<noteq> DBG_BOUNDARY_EXC then (False, b)
      else if \<not> exc_vec_configured vecs (ev_vec ev) then (False, b)
      else if committed < min_committed then (False, b)
      else
        (True, arm_precise_boundary_stop ev
           (map_hs (stop_run (reason (ev_vec ev) (ev_next_pc ev) (ev_fault_pc ev) (ev_fault_addr ev) committed (ev_seq ev))) b)))"

definition check_stop_on_exception_boundary :: "boundary_event \<Rightarrow> u64 \<Rightarrow> 'm boot \<Rightarrow> bool \<times> 'm boot" where
  "check_stop_on_exception_boundary ev committed b =
     check_exception_boundary ev (stop_exc_vecs (cfg b)) (stop_on_exc_after_committed (cfg b)) Stop_Exc committed b"

definition check_end_on_exception_boundary :: "boundary_event \<Rightarrow> u64 \<Rightarrow> 'm boot \<Rightarrow> bool \<times> 'm boot" where
  "check_end_on_exception_boundary ev committed b =
     check_exception_boundary ev (end_exc_vecs (cfg b)) (end_on_exc_after_committed (cfg b)) End_Exc committed b"

section \<open>Checkpoints on the way\<close>

text \<open>The points not after \<open>now\<close>, from the next one on, are saved in order.\<close>

fun due_points :: "nat \<Rightarrow> u64 list \<Rightarrow> u64 \<Rightarrow> nat \<times> u64 list" where
  "due_points k [] now = (k, [])"
| "due_points k (p # ps) now =
     (if p \<le> now then (case due_points (Suc k) ps now of (k', l) \<Rightarrow> (k', p # l)) else (k, []))"

definition maybe_periodic_checkpoint :: "u64 \<Rightarrow> checkpointing \<Rightarrow> checkpointing" where
  "maybe_periodic_checkpoint committed k =
     (if \<not> checkpoint_prefix_set k then k
      else
        let (n, due) = due_points (next_checkpoint_point k) (drop (next_checkpoint_point k) (checkpoint_points k)) committed;
            k = k\<lparr> next_checkpoint_point := n, saved_points := saved_points k @ map At_Commit due \<rparr> in
        if checkpoint_every k \<noteq> 0 \<and> next_checkpoint_commit k \<le> committed then
          k\<lparr> saved_points := saved_points k @ [At_Commit committed], next_checkpoint_commit := committed + checkpoint_every k \<rparr>
        else k)"

definition maybe_cycle_checkpoint :: "u64 \<Rightarrow> checkpointing \<Rightarrow> checkpointing" where
  "maybe_cycle_checkpoint now k =
     (if \<not> checkpoint_prefix_set k then k
      else
        let (n, due) = due_points (next_checkpoint_cycle_point k)
                         (drop (next_checkpoint_cycle_point k) (checkpoint_cycle_points k)) now in
        k\<lparr> next_checkpoint_cycle_point := n, saved_points := saved_points k @ map At_Cycle due \<rparr>)"

section \<open>Host-side memory test\<close>

record 'm ram_model =
  ram_image :: "'m mem_image"
  RAM_OFF :: nat
  RAM_BACKING_SIZE :: u32
  mem_write32 :: "'m \<Rightarrow> u32 \<Rightarrow> u32 \<Rightarrow> 'm"

definition fill_pattern :: "nat \<Rightarrow> u8" where
  "fill_pattern i = [0x6D, 0xB6, 0xDB] ! (i mod 3)"

fun fill_bytes :: "nat \<Rightarrow> nat \<Rightarrow> nat \<Rightarrow> u8 list \<Rightarrow> u8 list" where
  "fill_bytes i 0 base ram = ram"
| "fill_bytes i (Suc n) base ram = fill_bytes (Suc i) n base (ram[base + i := fill_pattern i])"

definition fastfill_memory :: "'m ram_model \<Rightarrow> u32 \<Rightarrow> u32 \<Rightarrow> 'm \<Rightarrow> 'm" where
  "fastfill_memory K start fin m =
     mem_load (ram_image K)
       (fill_bytes 0 (unat (fin - start)) (RAM_OFF K + unat start) (mem_data (ram_image K) m)) m"

definition fastfill_sentinel :: "'m ram_model \<Rightarrow> u32 \<Rightarrow> 'm boot \<Rightarrow> 'm boot" where
  "fastfill_sentinel K s b =
     (let v = visible_ram_size (hs b) in
      if 4 \<le> v \<and> 4 \<le> RAM_BACKING_SIZE K \<and> s \<le> v - 4 \<and> s \<le> RAM_BACKING_SIZE K - 4 then
        map_hs (\<lambda>h. h\<lparr> h_mem := mem_write32 K (h_mem h) s 0xFFFFFFFF \<rparr>)
          (b\<lparr> ff := (ff b)\<lparr> ff_sentinels := ff_sentinels (ff b) + 1 \<rparr> \<rparr>)
      else b)"

definition maybe_apply_ramtest_mame_state_fastfill ::
  "'m ram_model \<Rightarrow> (nat \<Rightarrow> u32) \<Rightarrow> u32 \<Rightarrow> 'm boot \<Rightarrow> 'm boot" where
  "maybe_apply_ramtest_mame_state_fastfill K reg retired_pc b =
     (if \<not> ff_enabled (ff b) then b
      else if retired_pc \<noteq> 0x40847280 then b
      else
        let start = reg 8; fin = reg 9 in
        if ff_hits (ff b) \<noteq> 0 \<and> start = fin then b\<lparr> ff := (ff b)\<lparr> ff_skips := ff_skips (ff b) + 1 \<rparr> \<rparr>
        else if fin \<le> start \<or> visible_ram_size (hs b) < fin \<or> RAM_BACKING_SIZE K < fin
        then map_hs (stop_run Ramtest_Bad_Range) b
        else
          let b = map_hs (\<lambda>h. h\<lparr> h_mem := fastfill_memory K start fin (h_mem h) \<rparr>) b;
              b = fastfill_sentinel K (reg 12) b in
          b\<lparr> ff := (ff b)\<lparr> ff_hits := ff_hits (ff b) + 1, ff_bytes := ff_bytes (ff b) + ucast (fin - start) \<rparr> \<rparr>)"

section \<open>The main loop\<close>

definition sig_mix :: "u64 \<Rightarrow> u64 \<Rightarrow> u64" where
  "sig_mix v sig = (sig XOR v) * 0x100000001B3"

definition port_values :: "axi \<Rightarrow> u64 list" where
  "port_values a =
     [of_bool (ar_outstanding a), ucast (ar_addr a), ucast (word_of_int (ar_delay a) :: u32), of_bool (aw_done a),
      of_bool (w_done a), ucast (aw_addr a), of_bool (b_pending a), ucast (word_of_int (b_delay a) :: u32)]"

definition progress_signature :: "core \<Rightarrow> axi \<Rightarrow> u64" where
  "progress_signature c a =
     fold sig_mix ([ucast (dbg_committed c), ucast (dbg_pc c), ucast (dbg_last_pc c)] @ sig_front c @ port_values a @ sig_back c)
       0xCBF29CE484222325"

text \<open>The Quadra descriptor the ROM accepts.\<close>

definition note_descriptor :: "(nat \<Rightarrow> u32) \<Rightarrow> u32 \<Rightarrow> q700_descriptor \<Rightarrow> q700_descriptor" where
  "note_descriptor reg pc d =
     (if \<not> descriptor_selected d \<and> pc AND 0x00FFFFFF = 0x00002F96 then
        let entry_off = reg 9 AND 0x000FFFFF in
        if reg 2 AND 0xFF = 0x08 \<and> (entry_off = 0x0000390C \<or> entry_off = 0x0000388C) then
          \<lparr> descriptor_selected = True, descriptor_entry = reg 9, feature_word = reg 1 \<rparr>
        else d
      else d)"

text \<open>The exception checks and the breakpoint checks of a boundary event.\<close>

definition boundary_exception :: "boundary_event \<Rightarrow> u64 \<Rightarrow> 'm boot \<Rightarrow> bool \<times> 'm boot" where
  "boundary_exception ev committed b =
     (if ev_kind ev = DBG_BOUNDARY_EXC then
        let (stopped, b) = check_stop_on_exception_boundary ev committed b in
        if stopped then (True, b) else check_end_on_exception_boundary ev committed b
      else (False, b))"

definition boundary_breakpoints :: "boundary_event \<Rightarrow> 'm boot \<Rightarrow> 'm boot" where
  "boundary_breakpoints ev b =
     (if \<not> test_done (hs b) \<and> ev_kind ev = DBG_BOUNDARY_RETIRE then
        let (ended, b) = check_end_pc (ev_pc ev) b;
            (stopped, b) = (if ended then (True, b) else check_stop_pc (ev_pc ev) b) in
        if stopped then arm_precise_boundary_stop ev b else b
      else b)"

definition handle_boundary :: "core \<Rightarrow> boundary_event \<Rightarrow> 'm boot \<Rightarrow> bool \<times> 'm boot" where
  "handle_boundary c ev b0 =
     (let b = b0\<lparr> arch_next_pc := \<lparr> np_valid = True, np_pc = ev_next_pc ev, np_commit_pc = ev_pc ev,
                    np_committed = dbg_committed c \<rparr> \<rparr>;
          (stopped, b) = boundary_exception ev (ucast (dbg_committed c)) b in
      (stopped, boundary_breakpoints ev b))"

definition handle_commit :: "'m ram_model \<Rightarrow> core \<Rightarrow> 'm boot \<Rightarrow> 'm boot" where
  "handle_commit K c b0 =
     (let pc = dbg_last_pc c;
          b = maybe_apply_ramtest_mame_state_fastfill K (arch_reg c) pc b0;
          b = b\<lparr> q700 := note_descriptor (arch_reg c) pc (q700 b) \<rparr>;
          b = (if \<not> test_done (hs b) then snd (check_rom_outcome_commit (arch_reg c) pc b) else b);
          b = (if \<not> test_done (hs b) then map_hs (\<lambda>h. snd (check_stuck_pc_commit (cfg b) pc h)) b else b);
          b = b\<lparr> prev_committed := dbg_committed c, no_progress_cycles := 0,
                 ck := maybe_periodic_checkpoint (ucast (dbg_committed c)) (ck b) \<rparr> in
      if \<not> test_done (hs b) \<and> max_insts (cfg b) \<le> ucast (dbg_committed c)
      then map_hs (stop_run Max_Insts_Reached) b else b)"

definition handle_idle :: "u64 \<Rightarrow> 'm boot \<Rightarrow> 'm boot" where
  "handle_idle sig b0 =
     (if sig \<noteq> prev_progress_sig b0 then b0\<lparr> no_progress_cycles := 0 \<rparr>
      else
        let b = b0\<lparr> no_progress_cycles := no_progress_cycles b0 + 1 \<rparr> in
        map_hs (\<lambda>h. snd (check_no_progress_watchdog (cfg b) (no_progress_cycles b) h)) b)"

definition check_low_pc :: "core \<Rightarrow> 'm boot \<Rightarrow> 'm boot" where
  "check_low_pc c b =
     (if \<not> test_done (hs b) \<and> stop_on_low_pc (cfg b) \<and> \<not> overlay (sys (hs b)) \<and> dbg_pc c \<noteq> 0 \<and> dbg_pc c < 0x10000000
      then map_hs (stop_run Low_Pc_Fetch) b else b)"

text \<open>What follows the clock edge in the body of the loop.\<close>

definition boundary_phase :: "core \<Rightarrow> 'm boot \<Rightarrow> bool \<times> 'm boot" where
  "boundary_phase c b0 =
     (case poll_new_boundary_event c b0 of
        (None, b) \<Rightarrow> (False, b)
      | (Some ev, b) \<Rightarrow> handle_boundary c ev b)"

definition progress_phase :: "'m ram_model \<Rightarrow> core \<Rightarrow> bool \<Rightarrow> u64 \<Rightarrow> 'm boot \<Rightarrow> 'm boot" where
  "progress_phase K c stopped_on_exception sig b =
     (if stopped_on_exception then b\<lparr> no_progress_cycles := 0 \<rparr>
      else if dbg_committed c \<noteq> prev_committed b then handle_commit K c b
      else handle_idle sig b)\<lparr> prev_progress_sig := sig \<rparr>"

definition after_tick :: "'m ram_model \<Rightarrow> core \<Rightarrow> 'm boot \<Rightarrow> 'm boot" where
  "after_tick K c b0 =
     (let (stopped_on_exception, b) = boundary_phase c b0;
          b = check_low_pc c (progress_phase K c stopped_on_exception (progress_signature c (ax (hs b))) b) in
      b\<lparr> ck := maybe_cycle_checkpoint (sim_time (hs b)) (ck b) \<rparr>)"

record cycle_input =
  ci_fetch :: ifetch_pins
  ci_data :: daxi_pins
  ci_core :: core

definition boot_cycle :: "'m mem_model \<Rightarrow> 'm ram_model \<Rightarrow> cycle_input \<Rightarrow> 'm boot \<Rightarrow> 'm boot" where
  "boot_cycle M K i b =
     after_tick K (ci_core i)
       (map_hs (\<lambda>h. tick_cycle (snd (drive_daxi M (ci_data i) (snd (drive_ifetch M (ci_fetch i) h))))) b)"

text \<open>\<open>while (!test_done && !Verilated::gotFinish())\<close>: the inputs end when the simulation finishes.\<close>

fun boot_loop :: "'m mem_model \<Rightarrow> 'm ram_model \<Rightarrow> cycle_input list \<Rightarrow> 'm boot \<Rightarrow> 'm boot" where
  "boot_loop M K [] b = b"
| "boot_loop M K (i # is) b = (if test_done (hs b) then b else boot_loop M K is (boot_cycle M K i b))"

section \<open>Self tests\<close>

definition run_rom_outcome_selftest :: "'m boot \<Rightarrow> bool" where
  "run_rom_outcome_selftest b0 =
     (let b = b0\<lparr> cfg := (cfg b0)\<lparr> stop_on_sad_mac := True, stop_on_disk_prompt := False \<rparr>, disk_prompt_hits := 0,
                 hs := (hs b0)\<lparr> test_done := False \<rparr> \<rparr>;
          (sad_stopped, b) = check_rom_outcome_commit (\<lambda>_. 0) SAD_MAC_PC b;
          sad_reason = (h_stop_reason (hs b) = Sad_Mac 0x40849AFA 0 0);
          b = b\<lparr> cfg := (cfg b)\<lparr> stop_on_sad_mac := False, stop_on_disk_prompt := True, disk_prompt_hit_target := 2 \<rparr>,
                disk_prompt_hits := 0, hs := (hs b)\<lparr> test_done := False \<rparr> \<rparr>;
          (first, b) = check_rom_outcome_commit (\<lambda>_. 0) DISK_PROMPT_PC b;
          (second, b) = check_rom_outcome_commit (\<lambda>_. 0) DISK_PROMPT_PC b;
          disk_reason = (h_stop_reason (hs b) = Disk_Prompt 0x40898E3E 2 0 0 0 0) in
      sad_stopped \<and> sad_reason \<and> \<not> first \<and> second \<and> disk_reason)"

definition run_watchdog_selftest :: "'m boot \<Rightarrow> bool" where
  "run_watchdog_selftest b =
     (let c = (cfg b)\<lparr> stuck_pc_threshold := 2, no_progress_cycle_threshold := 3, end_on_stuck_pc := False,
                        end_on_no_progress := False \<rparr>;
          h = (hs b)\<lparr> test_done := False, last_logged_pc := 0, last_same_pc_count := 0 \<rparr>;
          (pc0, h) = check_stuck_pc_commit c 0x4000002A h;
          (pc1, h) = check_stuck_pc_commit c 0x4000002A h;
          (pc2, h) = check_stuck_pc_commit c 0x4000002A h;
          pc_reason = (h_stop_reason h = Stuck_Pc 0x4000002A 2 2);
          h = h\<lparr> test_done := False \<rparr>;
          (np0, h) = check_no_progress_watchdog c 1 h;
          (np1, h) = check_no_progress_watchdog c 2 h;
          (np2, h) = check_no_progress_watchdog c 3 h;
          np_reason = (h_stop_reason h = No_Progress 3 3) in
      \<not> pc0 \<and> \<not> pc1 \<and> pc2 \<and> pc_reason \<and> \<not> np0 \<and> \<not> np1 \<and> np2 \<and> np_reason)"

definition run_stop_on_exc_selftest :: "'m boot \<Rightarrow> bool" where
  "run_stop_on_exc_selftest b0 =
     (let b = b0\<lparr> hs := (hs b0)\<lparr> test_done := False \<rparr>, precise_boundary_pending := False,
                 precise_boundary_stop := no_boundary, cfg := (cfg b0)\<lparr> stop_exc_vecs := [4], stop_on_exc_after_committed := 1 \<rparr> \<rparr>;
          ev = \<lparr> ev_seq = 1, ev_kind = DBG_BOUNDARY_EXC, ev_pc = 0x40000100, ev_next_pc = 0x40001234, ev_vec = 4,
                 ev_fault_pc = 0x40005678, ev_fault_addr = 0x50F01C00, ev_keep_tag = 7 \<rparr>;
          (r, b) = check_stop_on_exception_boundary ev 0 b;
          suppressed = (\<not> r \<and> \<not> precise_boundary_pending b \<and> \<not> test_done (hs b));
          (stopped, b) = check_stop_on_exception_boundary ev 0 (b\<lparr> cfg := (cfg b)\<lparr> stop_on_exc_after_committed := 0 \<rparr> \<rparr>);
          armed = (precise_boundary_pending b \<and> ev_keep_tag (precise_boundary_stop b) = ev_keep_tag ev \<and>
                   ev_next_pc (precise_boundary_stop b) = ev_next_pc ev);
          reason_ok = (case h_stop_reason (hs b) of Stop_Exc vec _ _ _ _ _ \<Rightarrow> vec = 4 | _ \<Rightarrow> False) in
      suppressed \<and> stopped \<and> armed \<and> reason_ok)"

end
