(* ===== verification/Checkpoint_Props.thy ===== *)
theory Checkpoint_Props
  imports Checkpoint
begin

unbundle bit_operations_syntax

text \<open>
  Restoring a checkpoint gives back the state that was saved.  The locale \<open>codec\<close> is the contract of
  a writer and its reader on the stream; the pieces of the harness are its interpretations, and the
  round trip of the whole file is composed from them.  What the file does not carry, and what a file
  that does not fit does to the harness, is stated as well.
\<close>

section \<open>A writer and its reader\<close>

locale codec =
  fixes put :: "'a \<Rightarrow> cell list" and get :: "cell list \<Rightarrow> ('a \<times> cell list) option" and storable :: "'a \<Rightarrow> bool"
  assumes get_put: "storable v \<Longrightarrow> get (put v @ r) = Some (v, r)"
begin

text \<open>No stored value is the beginning of another: the stream needs no separators.\<close>

lemma put_injective:
  assumes "storable v" "storable w" "put v @ r = put w @ s"
  shows "v = w \<and> r = s"
proof -
  have "get (put v @ r) = get (put w @ s)" using assms(3) by (rule arg_cong)
  then show ?thesis unfolding get_put [OF assms(1)] get_put [OF assms(2)] by simp
qed

end

named_theorems get_simps

lemma get_8s_put [get_simps]: "length bs = n \<Longrightarrow> get_8s n (map C8 bs @ r) = Some (bs, r)"
proof (induction bs arbitrary: n)
  case Nil then show ?case by simp
next
  case (Cons b bs)
  then obtain k where "n = Suc k" "length bs = k" by (cases n) auto
  then show ?case using Cons.IH [of k] by simp
qed

definition c_int :: "int \<Rightarrow> bool" where
  "c_int n \<longleftrightarrow> - (2 ^ 31) \<le> n \<and> n < 2 ^ 31"

lemma get_int_put [get_simps]: "c_int n \<Longrightarrow> get_int (put_int n # r) = Some (n, r)"
proof -
  assume n: "c_int n"
  have "sint (word_of_int n :: u32) = n"
    using n by (simp add: c_int_def sint_sbintrunc' signed_take_bit_int_eq_self)
  then show ?thesis by (simp add: get_int_def put_int_def)
qed

lemma get_8_as_32_put [get_simps]: "get_8_as_32 (put_8_as_32 b # r) = Some (b, r)"
proof -
  have "ucast (ucast b :: u32) = b" by (rule bit_word_eqI) (simp add: bit_simps)
  then show ?thesis by (simp add: get_8_as_32_def put_8_as_32_def)
qed

section \<open>Counters\<close>

lemma smap_update_append:
  "\<forall>x \<in> set (map fst m). x < k \<Longrightarrow> smap_update k f m = m @ [(k, f 0)]"
  by (induction k f m rule: smap_update.induct) auto

lemma get_entries_put:
  "smap_sorted (m @ m') \<Longrightarrow>
   get_entries (length m') m (concat (map (\<lambda>(k, v). [C32 k, C64 v]) m') @ r) = Some (m @ m', r)"
proof (induction m' arbitrary: m)
  case Nil then show ?case by simp
next
  case (Cons kv m')
  obtain k v where kv: "kv = (k, v)" by (cases kv)
  have "\<forall>x \<in> set (map fst m). x < k" using Cons.prems unfolding kv smap_sorted_def by (auto simp: sorted_wrt_append)
  then have "smap_update k (\<lambda>_. v) m = m @ [(k, v)]" by (rule smap_update_append)
  then show ?case using Cons.IH [of "m @ [(k, v)]"] Cons.prems unfolding kv by simp
qed

definition storable_map :: "(u32 \<times> u64) list \<Rightarrow> bool" where
  "storable_map m \<longleftrightarrow> smap_sorted m \<and> length m < 2 ^ 32"

interpretation counters: codec serialize_map deserialize_map storable_map
proof unfold_locales
  fix m r assume "storable_map m"
  then show "deserialize_map (serialize_map m @ r) = Some (m, r)"
    using get_entries_put [of "[]" m r]
    by (simp add: storable_map_def serialize_map_def deserialize_map_def unat_of_nat)
qed

section \<open>Adapter, data port and clock chip\<close>

interpretation adapter: codec put_via1 "get_via1 CHECKPOINT_VERSION v0" "\<lambda>_. True" for v0
proof unfold_locales
  fix v :: via1 and r
  let ?bs = "[orb v, ora v, ddrb v, ddra v, t1cl v, t1ch v, t1ll v, t1lh v, t2cl v, t2ch v, sr v, acr v, pcr v, ifr v, ier v]"
  have "get_8s 15 (map C8 ?bs @ s) = Some (?bs, s)" for s by (rule get_8s_put) simp
  then show "get_via1 CHECKPOINT_VERSION v0 (put_via1 v @ r) = Some (v, r)"
    unfolding get_via1_def put_via1_def append_assoc
    by (simp del: list.map add: get_via1_timers_def CHECKPOINT_VERSION_def)
qed

definition storable_axi :: "axi \<Rightarrow> bool" where
  "storable_axi a \<longleftrightarrow> c_int (ar_delay a) \<and> c_int (b_delay a)"

lemma get_axi_put [get_simps]:
  "storable_axi a \<Longrightarrow> get_axi CHECKPOINT_VERSION a0 (put_axi a @ r) = Some (a\<lparr> b_resp := b_resp a0 \<rparr>, r)"
  by (simp add: get_axi_def put_axi_def get_axi_burst_def CHECKPOINT_VERSION_def storable_axi_def get_simps)

lemma pram_of_map: "pram_of (map (\<lambda>i. f (of_nat i)) [0..<n]) g i = (if unat i < n then f i else g i)"
  by (simp add: pram_of_def)

lemma pram_of_all: "pram_of (map f all_bytes) g = f"
proof
  fix i :: u8
  have "unat i < 256" using unsigned_less [of i] by simp
  then show "pram_of (map f all_bytes) g i = f i" using pram_of_map [of f 256 g i] by (simp add: all_bytes_def comp_def)
qed

interpretation clock: codec put_rtc "get_rtc CHECKPOINT_VERSION now c0" "\<lambda>_. True" for now c0
proof unfold_locales
  fix c :: rtc and r
  have "get_8s 256 (map C8 (map (pram c) all_bytes) @ r) = Some (map (pram c) all_bytes, r)"
    by (rule get_8s_put) (simp add: all_bytes_def)
  then show "get_rtc CHECKPOINT_VERSION now c0 (put_rtc c @ r) = Some (c, r)"
    by (simp add: get_rtc_def put_rtc_def get_rtc_store_def CHECKPOINT_VERSION_def pram_of_all comp_def)
qed

section \<open>The whole file\<close>

text \<open>The harness that can be written: the widths of the stream hold its lengths and counters.\<close>

definition storable_harness :: "'m mem_image \<Rightarrow> 'm harness \<Rightarrow> bool" where
  "storable_harness D h \<longleftrightarrow> storable_map (unmapped_write_count h) \<and> storable_map (unmapped_read_count h) \<and>
     c_int (if_pending h) \<and> storable_axi (ax h) \<and> length (mem_data D (h_mem h)) < 2 ^ 32"

text \<open>The state of \<open>g\<close> with everything the file carries taken from \<open>h\<close>.\<close>

definition restored_front :: "'m mem_model \<Rightarrow> 'm harness \<Rightarrow> 'm harness \<Rightarrow> 'm harness" where
  "restored_front M h g =
     (let g = g\<lparr> sim_time := sim_time h,
                 sys := (sys g)\<lparr> host_cycle := host_cycle (sys h), overlay := overlay (sys h), via := via (sys h) \<rparr>,
                 via2_regs := (\<lambda>i. if unat i < 16 then via2_regs h i else via2_regs g i),
                 unmapped_write_count := unmapped_write_count h, unmapped_read_count := unmapped_read_count h,
                 if_pending := if_pending h, if_addr_q := if_addr_q h \<rparr> in
      g\<lparr> ax := (ax h)\<lparr> b_resp := (if b_pending (ax h) then daxi_bresp_for_addr M g (aw_addr (ax h)) else 0) \<rparr>,
         last_logged_pc := last_logged_pc h, last_same_pc_count := last_same_pc_count h \<rparr>)"

definition serialize_front :: "'m harness \<Rightarrow> cell list" where
  "serialize_front h =
     [C64 (sim_time h), C64 (host_cycle (sys h)), CB (overlay (sys h))] @ put_via1 (via (sys h)) @
     map C8 (map (\<lambda>i. via2_regs h (of_nat i)) [0..<16]) @
     serialize_map (unmapped_write_count h) @ serialize_map (unmapped_read_count h) @
     [put_int (if_pending h), C32 (if_addr_q h)] @ put_axi (ax h) @ [C32 (last_logged_pc h), C32 (last_same_pc_count h)]"

lemma serialize_harness_parts:
  "serialize_harness D h @ r =
   serialize_front h @ C32 (of_nat (length (mem_data D (h_mem h)))) # CRaw (mem_data D (h_mem h)) # put_rtc (rtc_chip (sys h)) @ r"
  by (simp add: serialize_harness_def serialize_front_def comp_def)

lemma restore_front_put:
  assumes "storable_harness D h"
  shows "restore_front M CHECKPOINT_VERSION g (serialize_front h @ r) = Some (restored_front M h g, r)"
proof -
  have regs: "get_8s 16 (map C8 (map (\<lambda>i. via2_regs h (of_nat i)) [0..<16]) @ s) =
      Some (map (\<lambda>i. via2_regs h (of_nat i)) [0..<16], s)" for s
    by (rule get_8s_put) simp
  have p: "pram_of (map (\<lambda>i. via2_regs h (of_nat i)) [0..<16]) (via2_regs g) =
      (\<lambda>i. if unat i < 16 then via2_regs h i else via2_regs g i)"
    by (rule ext) (rule pram_of_map)
  show ?thesis
    using assms unfolding storable_harness_def restore_front_def serialize_front_def append_assoc append_Cons append_Nil
    by (simp only: get_64.simps get_b.simps get_32.simps Option.bind.bind_lunit prod.case adapter.get_put regs p counters.get_put
        get_simps Let_def restored_front_def simp_thms) simp
qed

definition same_setup :: "'m mem_image \<Rightarrow> 'm harness \<Rightarrow> 'm harness \<Rightarrow> bool" where
  "same_setup D h g \<longleftrightarrow> strict_axi_resp g = strict_axi_resp h \<and> visible_ram_size g = visible_ram_size h \<and>
     strict_overlay (sys g) = strict_overlay (sys h) \<and> length (mem_data D (h_mem g)) = length (mem_data D (h_mem h))"

definition restored :: "'m harness \<Rightarrow> 'm harness \<Rightarrow> 'm harness" where
  "restored h g =
     g\<lparr> sim_time := sim_time h,
        sys := (sys g)\<lparr> host_cycle := host_cycle (sys h), overlay := overlay (sys h), via := via (sys h),
                         rtc_chip := rtc_chip (sys h) \<rparr>,
        via2_regs := (\<lambda>i. if unat i < 16 then via2_regs h i else via2_regs g i),
        unmapped_write_count := unmapped_write_count h, unmapped_read_count := unmapped_read_count h,
        if_pending := if_pending h, if_addr_q := if_addr_q h,
        ax := (if b_pending (ax h) then ax h else (ax h)\<lparr> b_resp := 0 \<rparr>),
        last_logged_pc := last_logged_pc h, last_same_pc_count := last_same_pc_count h, h_mem := h_mem h,
        test_done := False, h_stop_reason := Restored \<rparr>"

lemma restored_front_mem [simp]: "h_mem (restored_front M h g) = h_mem g"
  by (simp add: restored_front_def Let_def)

lemma restored_front_restored:
  assumes "harness_inv M h" "same_setup D h g"
  shows "(restored_front M h g)\<lparr> h_mem := h_mem h, sys := (sys (restored_front M h g))\<lparr> rtc_chip := rtc_chip (sys h) \<rparr>,
           test_done := False, h_stop_reason := Restored \<rparr> = restored h g"
proof -
  let ?g = "g\<lparr> sim_time := sim_time h,
              sys := (sys g)\<lparr> host_cycle := host_cycle (sys h), overlay := overlay (sys h), via := via (sys h) \<rparr>,
              via2_regs := (\<lambda>i. if unat i < 16 then via2_regs h i else via2_regs g i),
              unmapped_write_count := unmapped_write_count h, unmapped_read_count := unmapped_read_count h,
              if_pending := if_pending h, if_addr_q := if_addr_q h \<rparr>"
  have "daxi_bresp_for_addr M ?g a = daxi_bresp_for_addr M h a" for a
    using assms(2) by (intro bresp_cong) (simp_all add: same_setup_def)
  moreover have "b_pending (ax h) \<longrightarrow> b_resp (ax h) = daxi_bresp_for_addr M h (aw_addr (ax h))"
    using assms(1) by (simp add: harness_inv_def axi_inv_def)
  ultimately have "(ax h)\<lparr> b_resp := (if b_pending (ax h) then daxi_bresp_for_addr M ?g (aw_addr (ax h)) else 0) \<rparr> =
      (if b_pending (ax h) then ax h else (ax h)\<lparr> b_resp := 0 \<rparr>)"
    by (cases "ax h") simp
  then show ?thesis unfolding restored_front_def Let_def restored_def by (cases g) simp
qed

text \<open>
  C23 Restoring what was saved: if the memory block can be copied back, the harness restored from a
  checkpoint is the saved one in every field the file carries (devices behind the adapter, clock
  chip, counters, both ports, memory), including the response of a write still in flight, which is
  computed again; the rest keeps the value it had before, the run is marked as not finished, and
  exactly the part of the file that holds the simulated design is left to be read.
\<close>

theorem checkpoint_roundtrip:
  assumes "harness_inv M h" "storable_harness D h" "same_setup D h g"
    "mem_load D (mem_data D (h_mem h)) (h_mem g) = h_mem h"
  shows "restore_checkpoint M D (save_checkpoint D dut h) g = Some ((True, restored h g), dut)"
proof -
  have len: "unat (of_nat (length (mem_data D (h_mem h))) :: u32) = length (mem_data D (h_mem h))"
    using assms(2) by (simp add: storable_harness_def unat_of_nat)
  have "deserialize_harness M D CHECKPOINT_VERSION g (serialize_harness D h @ dut) =
      Some ((True, (restored_front M h g)\<lparr> h_mem := h_mem h,
                     sys := (sys (restored_front M h g))\<lparr> rtc_chip := rtc_chip (sys h) \<rparr> \<rparr>), dut)"
    using assms(3,4) unfolding serialize_harness_parts deserialize_harness_def restore_front_put [OF assms(2)]
    by (simp add: len same_setup_def clock.get_put)
  then show ?thesis using restored_front_restored [OF assms(1,3)]
    by (simp add: restore_checkpoint_def save_checkpoint_def CHECKPOINT_VERSION_def)
qed

text \<open>
  C37 A file that does not fit is refused.  A wrong magic number or a version outside 1 to 5 leaves the
  harness untouched, whatever follows in the file and whatever the memory is.  A file saved by a build
  whose memory has another size (\<open>D'\<close> is the image of that build, \<open>D\<close> the one of the restoring
  build) is refused at its memory block: the fields stored before it are already taken from the file,
  the memory, the clock chip and the stop state are the ones before the restore, and nothing of the
  memory block is consumed.
\<close>

theorem checkpoint_refused:
  "(magic \<noteq> CHECKPOINT_MAGIC \<or> version < 1 \<or> 5 < version \<longrightarrow>
      restore_checkpoint M D (C32 magic # C32 version # r) g = Some ((False, g), r)) \<and>
   (storable_harness D' h \<and> length (mem_data D' (h_mem h)) \<noteq> length (mem_data D (h_mem g)) \<longrightarrow>
      (let g' = restored_front M h g in
       restore_checkpoint M D (save_checkpoint D' dut h) g =
         Some ((False, g'), CRaw (mem_data D' (h_mem h)) # put_rtc (rtc_chip (sys h)) @ dut) \<and>
       h_mem g' = h_mem g \<and> rtc_chip (sys g') = rtc_chip (sys g) \<and>
       test_done g' = test_done g \<and> h_stop_reason g' = h_stop_reason g))"
proof (intro conjI impI)
  assume "magic \<noteq> CHECKPOINT_MAGIC \<or> version < 1 \<or> 5 < version"
  then show "restore_checkpoint M D (C32 magic # C32 version # r) g = Some ((False, g), r)"
    by (simp add: restore_checkpoint_def)
next
  assume h: "storable_harness D' h \<and> length (mem_data D' (h_mem h)) \<noteq> length (mem_data D (h_mem g))"
  have len: "unat (of_nat (length (mem_data D' (h_mem h))) :: u32) = length (mem_data D' (h_mem h))"
    using h by (simp add: storable_harness_def unat_of_nat)
  have kept: "rtc_chip (sys (restored_front M h g)) = rtc_chip (sys g)" "test_done (restored_front M h g) = test_done g"
    "h_stop_reason (restored_front M h g) = h_stop_reason g"
    by (simp_all add: restored_front_def Let_def)
  have "deserialize_harness M D CHECKPOINT_VERSION g (serialize_harness D' h @ dut) =
      Some ((False, restored_front M h g), CRaw (mem_data D' (h_mem h)) # put_rtc (rtc_chip (sys h)) @ dut)"
    using h unfolding serialize_harness_parts deserialize_harness_def restore_front_put [OF conjunct1 [OF h]]
    by (simp add: len)
  then show "let g' = restored_front M h g in
       restore_checkpoint M D (save_checkpoint D' dut h) g =
         Some ((False, g'), CRaw (mem_data D' (h_mem h)) # put_rtc (rtc_chip (sys h)) @ dut) \<and>
       h_mem g' = h_mem g \<and> rtc_chip (sys g') = rtc_chip (sys g) \<and>
       test_done g' = test_done g \<and> h_stop_reason g' = h_stop_reason g"
    using kept by (simp add: restore_checkpoint_def save_checkpoint_def CHECKPOINT_VERSION_def)
qed

text \<open>A memory of one word, to apply the two properties to.\<close>

definition word_image :: "(u32 \<Rightarrow> u8) mem_image" where
  "word_image = \<lparr> mem_data = (\<lambda>m. [m 0, m 1, m 2, m 3]),
     mem_load = (\<lambda>bs m. if length bs = 4 then m(0 := bs ! 0, 1 := bs ! 1, 2 := bs ! 2, 3 := bs ! 3) else m) \<rparr>"

definition saved_harness :: "(u32 \<Rightarrow> u8) harness" where
  "saved_harness = flat_harness\<lparr> h_mem := (\<lambda>_. 0)(0 := 0x42), unmapped_write_count := [(0x10, 3), (0x20, 1)],
     ax := initial_axi\<lparr> b_pending := True, b_delay := 1, aw_addr := 0x40000000, b_resp := AXI_RESP_SLVERR \<rparr>,
     last_logged_pc := 0x4080002A \<rparr>"

lemma saved_harness_facts:
  "harness_inv flat_mem saved_harness" "storable_harness word_image saved_harness"
  "same_setup word_image saved_harness flat_harness"
proof -
  have "daxi_bresp_for_addr flat_mem saved_harness 0x40000000 = AXI_RESP_SLVERR"
    by (simp add: daxi_bresp_for_addr_def daxi_resp_for_access_def saved_harness_def flat_harness_def
        overlay_rom_for_data_def initial_via_sys_def Q700_ROM_BASE_def)
  then show "harness_inv flat_mem saved_harness"
    using flat_harness_inv
    by (simp add: harness_inv_def devices_inv_def axi_inv_def saved_harness_def smap_sorted_def initial_axi_def)
  show "storable_harness word_image saved_harness"
    by (simp add: storable_harness_def saved_harness_def flat_harness_def word_image_def storable_map_def smap_sorted_def
        c_int_def storable_axi_def initial_axi_def)
  show "same_setup word_image saved_harness flat_harness"
    by (simp add: same_setup_def saved_harness_def flat_harness_def word_image_def)
qed

theorem checkpoint_roundtrip_witness:
  "restore_checkpoint flat_mem word_image (save_checkpoint word_image [CB True] saved_harness) flat_harness =
   Some ((True, restored saved_harness flat_harness), [CB True])"
proof -
  have "mem_load word_image (mem_data word_image (h_mem saved_harness)) (h_mem flat_harness) = h_mem saved_harness"
    by (rule ext) (simp add: word_image_def saved_harness_def flat_harness_def)
  then show ?thesis by (rule checkpoint_roundtrip [OF saved_harness_facts])
qed

text \<open>The memory of a build with two words: a file it saves does not fit a build with one.\<close>

definition two_word_image :: "(u32 \<Rightarrow> u8) mem_image" where
  "two_word_image = \<lparr> mem_data = (\<lambda>m. map (\<lambda>i. m (of_nat i)) [0..<8]),
     mem_load = (\<lambda>bs m. if length bs = 8 then (\<lambda>a. if unat a < 8 then bs ! unat a else m a) else m) \<rparr>"

theorem checkpoint_refused_witness:
  "restore_checkpoint flat_mem word_image [C32 CHECKPOINT_MAGIC, C32 6] flat_harness = Some ((False, flat_harness), []) \<and>
   (\<exists>g r. restore_checkpoint flat_mem word_image (save_checkpoint two_word_image [CB True] saved_harness) flat_harness =
      Some ((False, g), r) \<and> h_mem g = h_mem flat_harness)"
proof -
  have "storable_harness two_word_image saved_harness"
    using saved_harness_facts(2) by (simp add: storable_harness_def two_word_image_def)
  moreover have "length (mem_data two_word_image (h_mem saved_harness)) \<noteq> length (mem_data word_image (h_mem flat_harness))"
    by (simp add: two_word_image_def word_image_def)
  moreover have "(5 :: u32) < 6" by simp
  ultimately show ?thesis
    using checkpoint_refused [of CHECKPOINT_MAGIC 6 flat_mem word_image "[]" flat_harness two_word_image saved_harness "[CB True]"]
    unfolding Let_def by blast
qed

section \<open>What the file leaves out\<close>

text \<open>
  The state of the sound, serial, floppy and SCSI stubs and of the timer prescaler is not in the file:
  harnesses that differ only there are saved identically, so after a restore those devices keep
  whatever state the restoring process had.
\<close>

lemma checkpoint_omits_stub_state:
  "save_checkpoint D dut (h\<lparr> h_asc := a, h_scc := s, h_swim := w, h_turboscsi := t,
     sys := (sys h)\<lparr> via1_timer_div_ctr := n \<rparr> \<rparr>) = save_checkpoint D dut h"
  "h_scc (restored h g) = h_scc g" "h_swim (restored h g) = h_swim g" "h_asc (restored h g) = h_asc g"
  "h_turboscsi (restored h g) = h_turboscsi g"
  "via1_timer_div_ctr (sys (restored h g)) = via1_timer_div_ctr (sys g)"
  by (simp_all add: save_checkpoint_def serialize_harness_def restored_def)

end
