(* ===== verification/Rom_Boot_Watch_Props.thy ===== *)
theory Rom_Boot_Watch_Props
  imports Rom_Boot_Watch Checkpoint_Props
begin

unbundle bit_operations_syntax

text \<open>
  The main loop ends, keeps the invariant of the harness, and its stop conditions fire exactly when
  they say: the cycle budget, the progress watchdog, the stuck address and the breakpoints.
\<close>

section \<open>What a cycle leaves alone\<close>

definition budget :: "'m harness \<Rightarrow> u64 \<times> u64" where
  "budget h = (sim_time h, stop_cycle h)"

named_theorems budget_simps

lemma budget_updates [budget_simps]:
  "budget (h\<lparr> unmapped_read_count := c \<rparr>) = budget h" "budget (h\<lparr> unmapped_write_count := c \<rparr>) = budget h"
  "budget (h\<lparr> h_mem := m \<rparr>) = budget h" "budget (h\<lparr> ax := a \<rparr>) = budget h" "budget (h\<lparr> sys := s \<rparr>) = budget h"
  "budget (h\<lparr> if_pending := n \<rparr>) = budget h" "budget (check_sentinel aa d st h) = budget h" "budget (stop_run r h) = budget h"
  "budget (h\<lparr> if_addr_q := x \<rparr>) = budget h" "budget (snd (check_stop_on_ifetch_berr M fa h)) = budget h"
  by (simp_all add: budget_def check_sentinel_def stop_run_def check_stop_on_ifetch_berr_def Let_def)

lemma budget_device [budget_simps]:
  "budget (snd (device_read d ca h)) = budget h" "budget (device_write d ca v h) = budget h"
  by (cases d; simp add: device_read_def device_write_def budget_def split_beta Let_def)+

lemma budget_io [budget_simps]: "budget (snd (io_read32 a h)) = budget h" "budget (io_write32 a d strb h) = budget h"
proof -
  have lane: "budget (io_write_lane x y v h) = budget h" for x y v and h :: "'a harness"
    by (simp add: io_write_lane_def Let_def budget_simps split: option.split)
  show "budget (snd (io_read32 a h)) = budget h"
    by (simp add: io_read32_def Let_def split_beta budget_simps split: option.split)
  show "budget (io_write32 a d strb h) = budget h" by (simp add: io_write32_def lane)
qed

lemma budget_daxi [budget_simps]:
  "budget (snd (daxi_read32 M a h)) = budget h" "budget (daxi_write32 M a d strb h) = budget h"
  by (simp_all add: daxi_read32_def daxi_write32_def Let_def budget_simps split: addr_class.split)

lemma budget_drive_daxi [budget_simps]: "budget (snd (drive_daxi M p h)) = budget h"
proof -
  have r: "budget (snd (drive_read M rr h)) = budget h" for rr and h :: "'a harness"
    by (simp add: drive_read_def Let_def split_beta budget_simps)
  have c: "budget (commit_write M h) = budget h" for h :: "'a harness"
    by (simp add: commit_write_def Let_def budget_simps)
  show ?thesis by (simp add: drive_daxi_def Let_def split_beta r c budget_simps)
qed

lemma budget_drive_ifetch [budget_simps]: "budget (snd (drive_ifetch M q h)) = budget h"
proof -
  have r: "budget (snd (ifetch_respond M h)) = budget h" for h :: "'a harness"
    by (simp add: ifetch_respond_def Let_def budget_simps)
  show ?thesis
    using budget_updates(10) [of M "if_addr q" h]
    by (cases "check_stop_on_ifetch_berr M (if_addr q) h") (auto simp: drive_ifetch_def r budget_simps split: bool.split)
qed

text \<open>
  What follows the clock edge touches neither the devices nor the ports nor the clock, only the memory
  (host-side test) and the stop state; and a stopped run stays stopped.
\<close>

definition machine where
  "machine h = ((sim_time h, stop_cycle h, sys h, ax h, if_pending h, strict_axi_resp h, visible_ram_size h),
     (h_asc h, h_scc h, h_swim h, h_turboscsi h, unmapped_write_count h, unmapped_read_count h))"

definition keeps :: "'m boot \<Rightarrow> 'm boot \<Rightarrow> bool" where
  "keeps b b' \<longleftrightarrow> machine (hs b') = machine (hs b) \<and> (test_done (hs b) \<longrightarrow> test_done (hs b')) \<and> cfg b' = cfg b"

lemma machine_budget: "machine h' = machine h \<Longrightarrow> budget h' = budget h"
  by (simp add: machine_def budget_def)

lemma machine_inv:
  assumes "machine h' = machine h" "harness_inv M h"
  shows "harness_inv M h'"
proof -
  have "daxi_bresp_for_addr M h' a = daxi_bresp_for_addr M h a" for a
    using assms(1) by (intro bresp_cong) (simp_all add: machine_def)
  then show ?thesis using assms by (simp add: machine_def harness_inv_def devices_inv_def axi_inv_def)
qed

lemma keeps_refl [simp]: "keeps b b"
  by (simp add: keeps_def)

lemma keeps_trans: "keeps a b \<Longrightarrow> keeps b c \<Longrightarrow> keeps a c"
  by (simp add: keeps_def)

lemma keeps_stop [simp]: "keeps b (map_hs (stop_run r) b)"
  by (simp add: keeps_def map_hs_def machine_def stop_run_def)

lemma keeps_pure:
  "hs b' = hs b \<Longrightarrow> cfg b' = cfg b \<Longrightarrow> keeps b b'"
  by (simp add: keeps_def)

lemma keeps_update [simp]:
  "keeps b (b\<lparr> stop_pcs := x1 \<rparr>) " "keeps b (b\<lparr> end_pcs := x1 \<rparr>)" "keeps b (b\<lparr> disk_prompt_hits := x2 \<rparr>)"
  "keeps b (b\<lparr> ck := x3 \<rparr>)" "keeps b (b\<lparr> ff := x4 \<rparr>)" "keeps b (b\<lparr> q700 := x5 \<rparr>)" "keeps b (b\<lparr> arch_next_pc := x6 \<rparr>)"
  "keeps b (b\<lparr> prev_progress_sig := x7 \<rparr>)" "keeps b (b\<lparr> prev_boundary_seq := x8 \<rparr>)" "keeps b (b\<lparr> no_progress_cycles := x9 \<rparr>)"
  "keeps b (arm_precise_boundary_stop ev b)"
  by (simp_all add: keeps_def arm_precise_boundary_stop_def)

lemma keeps_breakpoints: "keeps b (snd (check_stop_pc pc b))" "keeps b (snd (check_end_pc pc b))"
proof -
  have "keeps b (map_hs (stop_run r) (b\<lparr> stop_pcs := x \<rparr>))" "keeps b (map_hs (stop_run r) (b\<lparr> end_pcs := x \<rparr>))" for r x
    by (rule keeps_trans [OF _ keeps_stop]; simp)+
  then show "keeps b (snd (check_stop_pc pc b))" "keeps b (snd (check_end_pc pc b))"
    by (simp_all add: check_stop_pc_def check_end_pc_def split: prod.split option.split)
qed

lemma keeps_outcome: "keeps b (snd (check_rom_outcome_commit reg pc b))"
proof -
  have "keeps b (map_hs (stop_run r) (b\<lparr> disk_prompt_hits := x \<rparr>))" for r x
    by (rule keeps_trans [OF _ keeps_stop]) simp
  then show ?thesis by (simp add: check_rom_outcome_commit_def Let_def)
qed

lemma keeps_watchdogs:
  "keeps b (map_hs (\<lambda>h. snd (check_stuck_pc_commit c pc h)) b)"
  "keeps b (map_hs (\<lambda>h. snd (check_no_progress_watchdog c n h)) b)"
  by (simp_all add: keeps_def map_hs_def check_stuck_pc_commit_def check_no_progress_watchdog_def stop_run_def machine_def Let_def)

lemma keeps_exception:
  "keeps b (snd (check_stop_on_exception_boundary ev n b))" "keeps b (snd (check_end_on_exception_boundary ev n b))"
proof -
  have "keeps b (arm_precise_boundary_stop ev (map_hs (stop_run r) b))" for r
    by (rule keeps_trans [OF keeps_stop keeps_update(11)])
  then have "keeps b (snd (check_exception_boundary ev vecs m r n b))" for vecs m r
    by (simp add: check_exception_boundary_def)
  then show "keeps b (snd (check_stop_on_exception_boundary ev n b))" "keeps b (snd (check_end_on_exception_boundary ev n b))"
    by (simp_all add: check_stop_on_exception_boundary_def check_end_on_exception_boundary_def)
qed

lemma keeps_fastfill: "keeps b (maybe_apply_ramtest_mame_state_fastfill K reg pc b)"
proof -
  have m: "keeps b (map_hs (\<lambda>h. h\<lparr> h_mem := fastfill_memory K x y (h_mem h) \<rparr>) b)" for b :: "'a boot" and x y
    by (simp add: keeps_def map_hs_def machine_def)
  have s: "keeps b (fastfill_sentinel K x b)" for b :: "'a boot" and x
    by (simp add: fastfill_sentinel_def Let_def keeps_def map_hs_def machine_def)
  show ?thesis
    by (simp add: maybe_apply_ramtest_mame_state_fastfill_def Let_def keeps_trans [OF keeps_trans [OF m s] keeps_update(5)])
qed

lemma keeps_boundary: "keeps b (snd (handle_boundary c ev b))"
proof -
  have e: "keeps b (snd (boundary_exception ev n b))" for n and b :: "'a boot"
    using keeps_exception(1) [of b ev n] keeps_trans [OF keeps_exception(1,2), of b ev n ev n]
    by (simp add: boundary_exception_def Let_def split_beta)
  have k: "keeps b (snd (if fst (check_end_pc pc b) then (True, snd (check_end_pc pc b))
      else check_stop_pc pc (snd (check_end_pc pc b))))" for pc and b :: "'a boot"
    using keeps_breakpoints(2) [of b pc] keeps_trans [OF keeps_breakpoints(2,1), of b pc pc] by simp
  have p: "keeps b (boundary_breakpoints ev b)" for b :: "'a boot"
    using k [of b "ev_pc ev"] keeps_trans [OF k [of b "ev_pc ev"] keeps_update(11) [of _ ev]]
    by (simp add: boundary_breakpoints_def Let_def split_beta)
  show ?thesis
    unfolding handle_boundary_def Let_def split_beta snd_conv by (rule keeps_trans [OF keeps_trans [OF keeps_update(7) e] p])
qed

lemma keeps_commit: "keeps b (handle_commit K c b)"
proof -
  have out: "keeps x (if \<not> test_done (hs x) then snd (check_rom_outcome_commit r pc x) else x)" for x :: "'a boot" and r pc
    by (simp add: keeps_outcome)
  have stuck: "keeps x (if \<not> test_done (hs x) then map_hs (\<lambda>h. snd (check_stuck_pc_commit (cfg x) pc h)) x else x)"
    for x :: "'a boot" and pc
    by (simp add: keeps_watchdogs)
  have fin: "keeps x (x\<lparr> prev_committed := p, no_progress_cycles := 0, ck := k \<rparr>)" for x :: "'a boot" and p k
    by (simp add: keeps_def)
  have last: "keeps x (if \<not> test_done (hs x) \<and> max_insts (cfg x) \<le> n then map_hs (stop_run Max_Insts_Reached) x else x)"
    for x :: "'a boot" and n by simp
  show ?thesis unfolding handle_commit_def Let_def
    by (rule keeps_trans [OF keeps_trans [OF keeps_trans [OF keeps_trans [OF keeps_trans
          [OF keeps_fastfill keeps_update(6)] out] stuck] fin] last])
qed

lemma keeps_boundary_phase: "keeps b (snd (boundary_phase c b))"
proof -
  have p: "keeps b (snd (poll_new_boundary_event c b))" by (simp add: poll_new_boundary_event_def Let_def)
  then show ?thesis
    using keeps_trans [OF p keeps_boundary]
    by (cases "poll_new_boundary_event c b") (auto simp: boundary_phase_def split: option.split)
qed

lemma keeps_progress_phase: "keeps b (progress_phase K c st s b)"
proof -
  have idle: "keeps x (handle_idle s x)" for x :: "'a boot"
    unfolding handle_idle_def Let_def
    by (cases "s = prev_progress_sig x") (simp, rule keeps_trans [OF keeps_update(10) keeps_watchdogs(2)], simp)
  have "keeps b (if st then b\<lparr> no_progress_cycles := 0 \<rparr> else if dbg_committed c \<noteq> prev_committed b then handle_commit K c b
      else handle_idle s b)"
    by (simp add: keeps_commit idle)
  then show ?thesis unfolding progress_phase_def by (rule keeps_trans [OF _ keeps_update(8)])
qed

lemma keeps_after_tick: "keeps b (after_tick K c b)"
proof -
  have low: "keeps x (check_low_pc c x)" for x :: "'a boot"
    by (simp add: check_low_pc_def)
  show ?thesis
    unfolding after_tick_def Let_def split_beta
    by (rule keeps_trans [OF keeps_trans [OF keeps_trans [OF keeps_boundary_phase keeps_progress_phase] low] keeps_update(4)])
qed

section \<open>The loop ends\<close>

lemma boot_cycle_budget:
  "sim_time (hs (boot_cycle M K i b)) = sim_time (hs b) + 1" "stop_cycle (hs (boot_cycle M K i b)) = stop_cycle (hs b)"
  "stop_cycle (hs b) \<noteq> 0 \<Longrightarrow> stop_cycle (hs b) \<le> sim_time (hs b) + 1 \<Longrightarrow> test_done (hs (boot_cycle M K i b))"
proof -
  let ?h = "snd (drive_daxi M (ci_data i) (snd (drive_ifetch M (ci_fetch i) (hs b))))"
  let ?b = "b\<lparr> hs := tick_cycle ?h \<rparr>"
  have bud: "budget ?h = budget (hs b)" by (simp add: budget_simps)
  have k: "keeps ?b (boot_cycle M K i b)"
    using keeps_after_tick [of ?b K "ci_core i"] by (simp add: boot_cycle_def map_hs_def)
  have t: "budget (tick_cycle ?h) = (sim_time (hs b) + 1, stop_cycle (hs b))"
    using bud by (simp add: budget_def tick_cycle_def Let_def)
  show "sim_time (hs (boot_cycle M K i b)) = sim_time (hs b) + 1" "stop_cycle (hs (boot_cycle M K i b)) = stop_cycle (hs b)"
    using machine_budget [of "hs (boot_cycle M K i b)" "tick_cycle ?h"] k t by (simp_all add: keeps_def budget_def)
  assume "stop_cycle (hs b) \<noteq> 0" "stop_cycle (hs b) \<le> sim_time (hs b) + 1"
  then have "test_done (tick_cycle ?h)" using bud by (simp add: budget_def tick_cycle_def Let_def)
  then show "test_done (hs (boot_cycle M K i b))" using k by (simp add: keeps_def)
qed

text \<open>
  C1 The main loop ends.  With a cycle budget set, a run has stopped after at most the cycles left to the
  budget (at least one), whatever the core does in them; and it never takes more cycles than that.
\<close>

theorem boot_loop_ends:
  assumes "stop_cycle (hs b) \<noteq> 0" and "sim_time (hs b) < stop_cycle (hs b)"
    and "unat (stop_cycle (hs b)) - unat (sim_time (hs b)) \<le> length is"
  shows "test_done (hs (boot_loop M K is b)) \<and>
    unat (sim_time (hs (boot_loop M K is b))) \<le> unat (stop_cycle (hs b))"
  using assms
proof (induction "is" arbitrary: b)
  case Nil
  then show ?case by (simp add: word_less_nat_alt)
next
  case (Cons i "is")
  let ?b = "boot_cycle M K i b"
  have up: "unat (sim_time (hs b) + 1) = unat (sim_time (hs b)) + 1"
  proof -
    have "unat (stop_cycle (hs b)) < 2 ^ 64" using unsigned_less [of "stop_cycle (hs b)"] by simp
    then show ?thesis using Cons.prems(2) by (simp add: unat_word_ariths word_less_nat_alt)
  qed
  show ?case
  proof (cases "test_done (hs b)")
    case True then show ?thesis using Cons.prems(2) by (simp add: word_less_nat_alt)
  next
    case False
    show ?thesis
    proof (cases "sim_time (hs b) + 1 < stop_cycle (hs b)")
      case True
      then show ?thesis
        using Cons.IH [of ?b] Cons.prems False up by (simp add: boot_cycle_budget word_less_nat_alt)
    next
      case now: False
      then have d: "test_done (hs ?b)" using Cons.prems(1) boot_cycle_budget(3) [of b M K i] by simp
      then have "boot_loop M K is ?b = ?b" by (cases "is") simp_all
      then show ?thesis using d False up Cons.prems(2) by (simp add: boot_cycle_budget word_less_nat_alt)
    qed
  qed
qed

text \<open>A run with an idle core, to apply the properties to.\<close>

definition idle_core :: core where
  "idle_core = \<lparr> dbg_committed = 0, dbg_last_pc = 0, dbg_pc = 0, dbg_boundary = no_boundary, arch_reg = (\<lambda>_. 0),
     sig_front = [], sig_back = [] \<rparr>"

definition idle_input :: cycle_input where
  "idle_input = \<lparr> ci_fetch = \<lparr> if_req = False, if_addr = 0 \<rparr>, ci_data = idle_pins, ci_core = idle_core \<rparr>"

definition flat_boot :: "u64 \<Rightarrow> watch_config \<Rightarrow> (u32 \<Rightarrow> u8) boot" where
  "flat_boot n c = \<lparr> hs = flat_harness\<lparr> stop_cycle := n \<rparr>, cfg = c, stop_pcs = [], end_pcs = [],
     disk_prompt_hits = 0, precise_boundary_pending = False, precise_boundary_stop = no_boundary,
     ck = \<lparr> checkpoint_prefix_set = False, checkpoint_points = [], next_checkpoint_point = 0, checkpoint_every = 0,
            next_checkpoint_commit = 0, checkpoint_cycle_points = [], next_checkpoint_cycle_point = 0, saved_points = [] \<rparr>,
     ff = \<lparr> ff_enabled = False, ff_hits = 0, ff_skips = 0, ff_bytes = 0, ff_sentinels = 0 \<rparr>,
     q700 = \<lparr> descriptor_selected = False, descriptor_entry = 0, feature_word = 0 \<rparr>,
     arch_next_pc = \<lparr> np_valid = False, np_pc = 0, np_commit_pc = 0, np_committed = 0 \<rparr>, prev_committed = 0,
     prev_boundary_seq = 0, no_progress_cycles = 0, prev_progress_sig = progress_signature idle_core initial_axi \<rparr>"

definition flat_ram :: "(u32 \<Rightarrow> u8) ram_model" where
  "flat_ram = \<lparr> ram_image = word_image, RAM_OFF = 0, RAM_BACKING_SIZE = 4, mem_write32 = (\<lambda>m a v. m) \<rparr>"

theorem boot_loop_ends_witness:
  "test_done (hs (boot_loop flat_mem flat_ram [idle_input, idle_input] (flat_boot 2 default_config)))"
  using boot_loop_ends [of "flat_boot 2 default_config" "[idle_input, idle_input]" flat_mem flat_ram]
  by (simp add: flat_boot_def flat_harness_def)

section \<open>The loop keeps the invariant\<close>

lemma boot_cycle_inv: "harness_inv M (hs b) \<Longrightarrow> harness_inv M (hs (boot_cycle M K i b))"
proof -
  let ?h = "tick_cycle (snd (drive_daxi M (ci_data i) (snd (drive_ifetch M (ci_fetch i) (hs b)))))"
  assume "harness_inv M (hs b)"
  then have "harness_inv M ?h" by (simp add: harness_inv_ifetch harness_inv_daxi harness_inv_tick)
  moreover have "machine (hs (boot_cycle M K i b)) = machine ?h"
    using keeps_after_tick [of "b\<lparr> hs := ?h \<rparr>" K "ci_core i"] by (simp add: boot_cycle_def map_hs_def keeps_def)
  ultimately show ?thesis by (metis machine_inv)
qed

text \<open>
  C2 Invariant of the harness over a whole run of the main loop: whatever the core shows on its ports and
  debug outputs in each cycle, the devices keep their invariants, the access counters stay in key
  order, the port delays are 0 or 1, at most one fetch is under way, and a pending write response is
  the response of the address written with no second write half accepted.
\<close>

theorem boot_loop_inv: "harness_inv M (hs b) \<Longrightarrow> harness_inv M (hs (boot_loop M K is b))"
  by (induction "is" arbitrary: b) (simp_all add: boot_cycle_inv)

theorem boot_loop_inv_witness:
  "harness_inv flat_mem (hs (boot_loop flat_mem flat_ram [idle_input, idle_input] (flat_boot 0 default_config)))"
proof (rule boot_loop_inv)
  show "harness_inv flat_mem (hs (flat_boot 0 default_config))"
    using flat_harness_inv by (simp add: flat_boot_def flat_harness_def)
qed

section \<open>The progress watchdog\<close>

definition progress :: "'m boot \<Rightarrow> u32 \<times> u64 \<times> u64" where
  "progress b = (prev_committed b, prev_progress_sig b, no_progress_cycles b)"

lemma progress_updates [simp]:
  "progress (map_hs f b) = progress b" "progress (b\<lparr> stop_pcs := x \<rparr>) = progress b" "progress (b\<lparr> end_pcs := x \<rparr>) = progress b"
  "progress (arm_precise_boundary_stop ev b) = progress b" "progress (b\<lparr> arch_next_pc := y \<rparr>) = progress b"
  "progress (b\<lparr> prev_boundary_seq := z \<rparr>) = progress b"
  by (simp_all add: progress_def map_hs_def arm_precise_boundary_stop_def)

lemma progress_checks [simp]:
  "progress (snd (check_stop_pc pc b)) = progress b" "progress (snd (check_end_pc pc b)) = progress b"
  "progress (snd (check_stop_on_exception_boundary ev n b)) = progress b"
  "progress (snd (check_end_on_exception_boundary ev n b)) = progress b"
  by (simp_all add: check_stop_pc_def check_end_pc_def check_stop_on_exception_boundary_def
      check_end_on_exception_boundary_def check_exception_boundary_def split: prod.split option.split)

lemma progress_boundary [simp]: "progress (snd (boundary_phase c b)) = progress b"
proof -
  have "progress (snd (boundary_exception ev n b)) = progress b" "progress (boundary_breakpoints ev b) = progress b"
    for ev n and b :: "'a boot"
    by (simp_all add: boundary_exception_def boundary_breakpoints_def Let_def split_beta)
  then have "progress (snd (handle_boundary c ev b)) = progress b" for ev and b :: "'a boot"
    by (simp add: handle_boundary_def Let_def split_beta)
  moreover have "progress (snd (poll_new_boundary_event c b)) = progress b"
    by (simp add: poll_new_boundary_event_def Let_def)
  ultimately show ?thesis
    by (cases "poll_new_boundary_event c b") (auto simp: boundary_phase_def split: option.split)
qed

text \<open>
  A cycle without progress: the run does not stop on an exception, no instruction was committed and the
  signature of core and ports is that of the cycle before.
\<close>

definition clocked :: "'m mem_model \<Rightarrow> cycle_input \<Rightarrow> 'm boot \<Rightarrow> 'm boot" where
  "clocked M i b = map_hs (\<lambda>h. tick_cycle (snd (drive_daxi M (ci_data i) (snd (drive_ifetch M (ci_fetch i) h))))) b"

definition quiet :: "'m mem_model \<Rightarrow> cycle_input \<Rightarrow> 'm boot \<Rightarrow> bool" where
  "quiet M i b \<longleftrightarrow> \<not> fst (boundary_phase (ci_core i) (clocked M i b)) \<and> dbg_committed (ci_core i) = prev_committed b \<and>
     progress_signature (ci_core i) (ax (hs (clocked M i b))) = prev_progress_sig b"

lemma cycle_counts:
  "no_progress_cycles (boot_cycle M K i b) = (if quiet M i b then no_progress_cycles b + 1 else 0)"
  "quiet M i b \<Longrightarrow> t = no_progress_cycle_threshold (cfg b) \<Longrightarrow> t \<noteq> 0 \<Longrightarrow> t \<le> no_progress_cycles b + 1 \<Longrightarrow>
   test_done (hs (boot_cycle M K i b))"
  "cfg (boot_cycle M K i b) = cfg b"
proof -
  let ?c = "ci_core i" and ?b = "clocked M i b"
  let ?x = "snd (boundary_phase ?c ?b)"
  let ?s = "progress_signature ?c (ax (hs ?x))"
  let ?y = "progress_phase K ?c (fst (boundary_phase ?c ?b)) ?s ?x"
  have kx: "keeps ?b ?x" by (rule keeps_boundary_phase)
  have ax: "ax (hs ?x) = ax (hs ?b)" using kx by (simp add: keeps_def machine_def)
  have px: "prev_committed ?x = prev_committed b" "prev_progress_sig ?x = prev_progress_sig b"
    "no_progress_cycles ?x = no_progress_cycles b"
    using progress_boundary [of ?c ?b] by (simp_all add: progress_def clocked_def map_hs_def)
  have cyc: "boot_cycle M K i b = (check_low_pc ?c ?y)\<lparr> ck := maybe_cycle_checkpoint (sim_time (hs (check_low_pc ?c ?y))) (ck (check_low_pc ?c ?y)) \<rparr>"
    by (simp add: boot_cycle_def clocked_def after_tick_def Let_def split_beta)
  have com: "no_progress_cycles (handle_commit K ?c z) = 0" for z :: "'a boot"
    by (simp add: handle_commit_def Let_def map_hs_def)
  have "no_progress_cycles ?y = (if quiet M i b then no_progress_cycles b + 1 else 0)"
    using px by (simp add: progress_phase_def quiet_def ax handle_idle_def Let_def map_hs_def com)
  then show "no_progress_cycles (boot_cycle M K i b) = (if quiet M i b then no_progress_cycles b + 1 else 0)"
    by (simp add: cyc check_low_pc_def map_hs_def)
  show "cfg (boot_cycle M K i b) = cfg b"
    using keeps_after_tick [of ?b K ?c] by (simp add: boot_cycle_def clocked_def keeps_def map_hs_def)
  assume q: "quiet M i b" and t: "t = no_progress_cycle_threshold (cfg b)" "t \<noteq> 0" "t \<le> no_progress_cycles b + 1"
  have "cfg ?x = cfg b" using kx by (simp add: keeps_def clocked_def map_hs_def)
  then have "test_done (hs ?y)"
    using q t px by (simp add: progress_phase_def quiet_def ax handle_idle_def Let_def map_hs_def
        check_no_progress_watchdog_def stop_run_def leD)
  then show "test_done (hs (boot_cycle M K i b))" by (simp add: cyc check_low_pc_def)
qed

fun all_quiet :: "'m mem_model \<Rightarrow> 'm ram_model \<Rightarrow> cycle_input list \<Rightarrow> 'm boot \<Rightarrow> bool" where
  "all_quiet M K [] b \<longleftrightarrow> True"
| "all_quiet M K (i # is) b \<longleftrightarrow> quiet M i b \<and> all_quiet M K is (boot_cycle M K i b)"

text \<open>
  C3 The progress watchdog: a cycle in which nothing is committed and neither the core nor the ports change
  adds one to the count, any other cycle sets it to zero, and a run of unchanging cycles that makes
  the count reach the threshold has stopped, however long the cycle budget is.
\<close>

theorem no_progress_watchdog_stops:
  assumes "0 < no_progress_cycle_threshold (cfg b)" and "no_progress_cycles b < no_progress_cycle_threshold (cfg b)"
    and "all_quiet M K is b"
    and "unat (no_progress_cycle_threshold (cfg b)) - unat (no_progress_cycles b) \<le> length is"
  shows "test_done (hs (boot_loop M K is b)) \<and>
    no_progress_cycles (boot_cycle M K i b) = (if quiet M i b then no_progress_cycles b + 1 else 0)"
proof
  show "no_progress_cycles (boot_cycle M K i b) = (if quiet M i b then no_progress_cycles b + 1 else 0)"
    by (rule cycle_counts(1))
  show "test_done (hs (boot_loop M K is b))"
    using assms
  proof (induction "is" arbitrary: b)
    case Nil then show ?case by (simp add: word_less_nat_alt)
  next
    case (Cons i "is")
    let ?t = "no_progress_cycle_threshold (cfg b)"
    have "unat ?t < 2 ^ 64" using unsigned_less [of ?t] by simp
    then have up: "unat (no_progress_cycles b + 1) = unat (no_progress_cycles b) + 1"
      using Cons.prems(2) by (simp add: unat_word_ariths word_less_nat_alt)
    have q: "quiet M i b" "all_quiet M K is (boot_cycle M K i b)" using Cons.prems(3) by simp_all
    show ?case
    proof (cases "?t \<le> no_progress_cycles b + 1")
      case True
      then have d: "test_done (hs (boot_cycle M K i b))" using cycle_counts(2) [OF q(1)] Cons.prems(1) by (simp add: word_gt_0)
      then have "boot_loop M K is (boot_cycle M K i b) = boot_cycle M K i b" by (cases "is") simp_all
      then show ?thesis using d by simp
    next
      case False
      then show ?thesis
        using Cons.IH [of "boot_cycle M K i b"] Cons.prems q up by (simp add: cycle_counts word_less_nat_alt not_le)
    qed
  qed
qed

theorem no_progress_watchdog_stops_witness:
  "test_done (hs (boot_loop flat_mem flat_ram [idle_input] (flat_boot 0 (default_config\<lparr> no_progress_cycle_threshold := 1 \<rparr>))))"
proof -
  let ?b = "flat_boot 0 (default_config\<lparr> no_progress_cycle_threshold := 1 \<rparr>)"
  have "snd (drive_daxi flat_mem idle_pins h) = h" if "ax h = initial_axi"
    for h :: "(u32 \<Rightarrow> u8) harness"
    using that by (cases h) (simp add: drive_daxi_def accept_ar_def drive_read_def accept_aw_w_def commit_write_def drive_b_def
        idle_pins_def initial_axi_def Let_def)
  then have "ax (hs (clocked flat_mem idle_input ?b)) = initial_axi"
    by (simp add: clocked_def map_hs_def idle_input_def flat_boot_def flat_harness_def drive_ifetch_def ifetch_respond_def
        tick_cycle_def Let_def split_beta)
  then have "all_quiet flat_mem flat_ram [idle_input] ?b"
    by (simp add: quiet_def idle_input_def)
      (simp add: idle_core_def boundary_phase_def poll_new_boundary_event_def no_boundary_def flat_boot_def Let_def)
  then show ?thesis
    using no_progress_watchdog_stops [of ?b flat_mem flat_ram "[idle_input]" idle_input]
    by (simp add: flat_boot_def default_config_def)
qed

section \<open>The stuck address\<close>

text \<open>The history of committed addresses, the latest first; before the first commit it is the initial value.\<close>

definition commits :: "watch_config \<Rightarrow> u32 list \<Rightarrow> 'm harness \<Rightarrow> 'm harness" where
  "commits c pcs h = foldl (\<lambda>h p. snd (check_stuck_pc_commit c p h)) h pcs"

definition history :: "'m harness \<Rightarrow> u32 list \<Rightarrow> u32 list" where
  "history h pcs = rev (last_logged_pc h # pcs)"

lemma stuck_step:
  "last_logged_pc (snd (check_stuck_pc_commit c p h)) = p"
  "last_same_pc_count (snd (check_stuck_pc_commit c p h)) = (if p = last_logged_pc h then last_same_pc_count h + 1 else 0)"
  by (simp_all add: check_stuck_pc_commit_def Let_def stop_run_def)

lemma commits_count:
  assumes "last_same_pc_count h = 0"
  shows "last_logged_pc (commits c pcs h) = hd (history h pcs) \<and>
    last_same_pc_count (commits c pcs h) =
      of_nat (length (takeWhile (\<lambda>q. q = hd (history h pcs)) (tl (history h pcs))))"
proof (induction pcs rule: rev_induct)
  case Nil then show ?case by (simp add: commits_def history_def assms)
next
  case (snoc p pcs)
  have h: "history h (pcs @ [p]) = p # history h pcs" by (simp add: history_def)
  obtain x xs where x: "history h pcs = x # xs" by (cases "history h pcs") (simp_all add: history_def)
  have c: "commits c (pcs @ [p]) h = snd (check_stuck_pc_commit c p (commits c pcs h))" by (simp add: commits_def)
  show ?case using snoc unfolding c h x by (auto simp: stuck_step)
qed

text \<open>
  The stuck-address check stops a run exactly when the address just committed has been committed, without
  another in between, as often again as the threshold says; a threshold of zero switches it off.
\<close>

theorem stuck_pc_exact:
  assumes "last_same_pc_count h = 0" and "length pcs < 2 ^ 32 - 1"
  shows "fst (check_stuck_pc_commit c p (commits c pcs h)) \<longleftrightarrow>
    stuck_pc_threshold c \<noteq> 0 \<and> unat (stuck_pc_threshold c) \<le> length (takeWhile (\<lambda>q. q = p) (history h pcs))"
proof -
  obtain x xs where x: "history h pcs = x # xs" by (cases "history h pcs") (simp_all add: history_def)
  let ?n = "length (takeWhile (\<lambda>q. q = x) xs)"
  have "length (history h pcs) = Suc (length pcs)" by (simp add: history_def)
  then have "length xs = length pcs" unfolding x by simp
  then have "?n \<le> length pcs" using length_takeWhile_le [of "\<lambda>q. q = x" xs] by simp
  then have n: "unat (ucast (of_nat ?n + 1 :: u32) :: u64) = ?n + 1"
    using assms(2) by (simp add: unsigned_ucast_eq unat_of_nat unat_word_ariths take_bit_nat_eq_self)
  have k: "last_logged_pc (commits c pcs h) = x" "last_same_pc_count (commits c pcs h) = of_nat ?n"
    using commits_count [OF assms(1), of c pcs] unfolding x by simp_all
  show ?thesis
    unfolding check_stuck_pc_commit_def Let_def k x using n by (auto simp: word_le_nat_alt k unat_gt_0)
qed

theorem stuck_pc_exact_witness:
  "fst (check_stuck_pc_commit (default_config\<lparr> stuck_pc_threshold := 2 \<rparr>) 0x2A
     (commits (default_config\<lparr> stuck_pc_threshold := 2 \<rparr>) [0x2A, 0x2A] flat_harness))"
  using stuck_pc_exact [of flat_harness "[0x2A, 0x2A]" "default_config\<lparr> stuck_pc_threshold := 2 \<rparr>" "0x2A"]
  by (simp add: flat_harness_def history_def)

section \<open>Breakpoints\<close>

lemma check_pc_distinct:
  assumes "distinct (map bp_pc bs)"
  shows "check_pc_breakpoints pc target bs =
    ((case find (\<lambda>b. bp_pc b = pc) bs of
        None \<Rightarrow> None
      | Some b \<Rightarrow> if target \<le> bp_hits b + 1 then Some (bp_hits b + 1) else None),
     map (\<lambda>b. if bp_pc b = pc then b\<lparr> bp_hits := bp_hits b + 1 \<rparr> else b) bs)"
  using assms
proof (induction bs)
  case Nil then show ?case by simp
next
  case (Cons b bs)
  have "find (\<lambda>b. bp_pc b = pc) bs = None \<and> map (\<lambda>b. if bp_pc b = pc then b\<lparr> bp_hits := bp_hits b + 1 \<rparr> else b) bs = bs"
    if "bp_pc b = pc"
  proof -
    have "\<forall>x \<in> set bs. bp_pc x \<noteq> pc" using Cons.prems that by (simp add: image_iff) metis
    then show ?thesis by (simp add: find_None_iff map_idI)
  qed
  then show ?case using Cons by (auto simp: Let_def)
qed

definition visits :: "u64 \<Rightarrow> u32 list \<Rightarrow> pc_breakpoint list \<Rightarrow> pc_breakpoint list" where
  "visits target pcs bs = foldl (\<lambda>bs p. snd (check_pc_breakpoints p target bs)) bs pcs"

lemma visits_hits:
  assumes "distinct (map bp_pc bs)"
  shows "visits target pcs bs = map (\<lambda>b. b\<lparr> bp_hits := bp_hits b + of_nat (count_list pcs (bp_pc b)) \<rparr>) bs"
proof (induction pcs rule: rev_induct)
  case Nil then show ?case by (simp add: visits_def)
next
  case (snoc p pcs)
  let ?v = "visits target pcs bs"
  have "map bp_pc ?v = map bp_pc bs" using snoc by simp
  then have "distinct (map bp_pc ?v)" using assms by simp
  then have "visits target (pcs @ [p]) bs = map (\<lambda>b. if bp_pc b = p then b\<lparr> bp_hits := bp_hits b + 1 \<rparr> else b) ?v"
    by (simp add: visits_def check_pc_distinct)
  then show ?case unfolding snoc by (simp add: comp_def algebra_simps)
qed

lemma unique_by_sorted:
  "sorted (map f xs) \<Longrightarrow> sorted_wrt (<) (map f (unique_by f xs)) \<and> f ` set (unique_by f xs) = f ` set xs"
proof (induction f xs rule: unique_by.induct)
  case (1 f x y zs)
  show ?case
  proof (cases "f x = f y")
    case True then show ?thesis using 1 by auto
  next
    case False
    then have "sorted_wrt (<) (map f (unique_by f (y # zs)))" "f ` set (unique_by f (y # zs)) = f ` set (y # zs)"
      using 1 by auto
    moreover have "\<forall>z \<in> f ` set (y # zs). f x < z" using 1(3) False by fastforce
    ultimately show ?thesis using False by auto
  qed
qed auto

lemma breakpoints_parsed:
  assumes "parse_pc_breakpoint_list spec [] = Inr bs"
  shows "sorted_wrt (<) (map bp_pc bs) \<and> (\<forall>b \<in> set bs. bp_hits b = 0)"
proof -
  have zero: "\<forall>b \<in> set out. bp_hits b = 0 \<Longrightarrow> push_breakpoints ts out = Inr l \<Longrightarrow> \<forall>b \<in> set l. bp_hits b = 0" for ts out l
    by (induction ts out rule: push_breakpoints.induct) (auto split: if_splits sum.splits)
  have sub: "set (unique_by f xs) \<subseteq> set xs" for f :: "pc_breakpoint \<Rightarrow> u32" and xs
    by (induction f xs rule: unique_by.induct) auto
  obtain l where l: "push_breakpoints (getline_commas [] spec) [] = Inr l" "bs = unique_by bp_pc (sort_key bp_pc l)"
    using assms by (auto simp: parse_pc_breakpoint_list_def split: sum.splits)
  show ?thesis
    using unique_by_sorted [of bp_pc "sort_key bp_pc l"] zero [OF _ l(1)] sub [of bp_pc "sort_key bp_pc l"]
    unfolding l(2) by auto
qed

text \<open>
  Breakpoints count visits.  With the list an argument gives, after any sequence of retired addresses
  the check of the next one stops exactly when it is in the list and its visits, this one included,
  have reached the target; the count it reports is that number of visits.
\<close>

theorem breakpoints_count_visits:
  assumes "parse_pc_breakpoint_list spec [] = Inr bs"
  shows "fst (check_pc_breakpoints pc target (visits target pcs bs)) =
    (if pc \<in> bp_pc ` set bs \<and> target \<le> of_nat (count_list pcs pc) + 1 then Some (of_nat (count_list pcs pc) + 1) else None)"
proof -
  have d: "distinct (map bp_pc bs)" and z: "\<forall>b \<in> set bs. bp_hits b = 0"
    using breakpoints_parsed [OF assms] by (auto simp: strict_sorted_iff)
  let ?v = "visits target pcs bs"
  have v: "?v = map (\<lambda>b. b\<lparr> bp_hits := bp_hits b + of_nat (count_list pcs (bp_pc b)) \<rparr>) bs" by (rule visits_hits [OF d])
  then have "distinct (map bp_pc ?v)" using d by (simp add: comp_def)
  moreover have "find (\<lambda>b. bp_pc b = pc) ?v = None" if "pc \<notin> bp_pc ` set bs"
    using that by (auto simp: v find_None_iff)
  moreover have "\<exists>b. find (\<lambda>b. bp_pc b = pc) ?v = Some b \<and> bp_hits b = of_nat (count_list pcs pc)" if "pc \<in> bp_pc ` set bs"
  proof -
    have "find (\<lambda>b. bp_pc b = pc) ?v \<noteq> None" using that by (auto simp: v find_None_iff image_iff)
    then obtain b where b: "find (\<lambda>b. bp_pc b = pc) ?v = Some b" by blast
    then have "b \<in> set ?v" "bp_pc b = pc" by (auto simp: find_Some_iff)
    then show ?thesis using b z by (auto simp: v)
  qed
  ultimately show ?thesis by (cases "pc \<in> bp_pc ` set bs") (auto simp: check_pc_distinct)
qed

theorem breakpoints_count_visits_witness:
  "fst (check_pc_breakpoints 0x40 2 (visits 2 [0x40, 0x44] [\<lparr> bp_pc = 0x40, bp_hits = 0 \<rparr>])) = Some 2"
proof -
  have "parse_pc_breakpoint_list ''0x40,,64'' [] = Inr [\<lparr> bp_pc = 0x40, bp_hits = 0 \<rparr>]"
    by (simp add: parse_pc_breakpoint_list_def parse_uint64_auto_def stoull_def is_space_def is_sign_def has_hex_prefix_def
        digit_val_def digits_val_def Let_def)
  from breakpoints_count_visits [OF this, of "0x40" 2 "[0x40, 0x44]"] show ?thesis by simp
qed

section \<open>Self tests\<close>

text \<open>
  The three self tests of the stop conditions pass from every state.
\<close>

lemma watch_selftests_pass:
  "run_rom_outcome_selftest b" "run_watchdog_selftest b" "run_stop_on_exc_selftest b"
  by (simp_all add: run_rom_outcome_selftest_def run_watchdog_selftest_def run_stop_on_exc_selftest_def
      check_rom_outcome_commit_def check_stuck_pc_commit_def check_no_progress_watchdog_def
      check_stop_on_exception_boundary_def check_exception_boundary_def exc_vec_configured_def SAD_MAC_PC_def
      DISK_PROMPT_PC_def DBG_BOUNDARY_EXC_def arm_precise_boundary_stop_def no_boundary_def stop_run_def map_hs_def Let_def word_le_nat_alt)

end
