(* ===== verification/Rom_Boot_Args_Props.thy ===== *)
theory Rom_Boot_Args_Props
  imports Rom_Boot_Args
begin

unbundle bit_operations_syntax

text \<open>
  What the argument parsers accept: every 64-bit number in the notations a user writes, sizes that are
  powers of two inside the limits, vectors in range, and the watch that finds exactly the accesses to
  the ranges it was given, with the one byte it misses.
\<close>

section \<open>Numbers\<close>

text \<open>\<open>printf\<close> of a number in a base, without prefix.\<close>

definition digit_char :: "nat \<Rightarrow> char" where
  "digit_char d = char_of (if d < 10 then 48 + d else 87 + d)"

fun print_digits :: "nat \<Rightarrow> nat \<Rightarrow> string" where
  "print_digits b n = (if b < 2 \<or> n < b then [digit_char n] else print_digits b (n div b) @ [digit_char (n mod b)])"

declare print_digits.simps [simp del]

lemma digit_char_val [simp]: "d < 16 \<Longrightarrow> digit_val (digit_char d) = d"
  by (simp add: digit_val_def digit_char_def Let_def of_char_of take_bit_nat_def)

lemma digit_char_simps [simp]:
  "d < 16 \<Longrightarrow> \<not> is_space (digit_char d)" "d < 16 \<Longrightarrow> \<not> is_sign (digit_char d)"
  "0 < d \<Longrightarrow> d < 16 \<Longrightarrow> digit_char d \<noteq> CHR ''0''"
proof -
  have v: "digit_val c \<ge> 16" if "is_space c \<or> is_sign c" for c
    using that by (auto simp: is_space_def is_sign_def digit_val_def Let_def)
  show "d < 16 \<Longrightarrow> \<not> is_space (digit_char d)" "d < 16 \<Longrightarrow> \<not> is_sign (digit_char d)"
    using v [of "digit_char d"] by auto
  show "0 < d \<Longrightarrow> d < 16 \<Longrightarrow> digit_char d \<noteq> CHR ''0''"
    using digit_char_val [of d] by (auto simp: digit_val_def Let_def)
qed

lemma print_digits_ok:
  assumes "2 \<le> b" "b \<le> 16"
  shows "print_digits b n \<noteq> [] \<and> (\<forall>c \<in> set (print_digits b n). digit_val c < b) \<and> digits_val b (print_digits b n) = n \<and>
    (\<exists>d < b. hd (print_digits b n) = digit_char d \<and> (d = 0 \<longrightarrow> n = 0))"
  using assms
proof (induction b n rule: print_digits.induct)
  case (1 b n)
  show ?case
  proof (cases "n < b")
    case True
    then have "print_digits b n = [digit_char n]" by (simp add: print_digits.simps)
    then show ?thesis using True 1 by (auto simp: digits_val_def)
  next
    case False
    then have p: "print_digits b n = print_digits b (n div b) @ [digit_char (n mod b)]"
      using 1(2) by (subst print_digits.simps) simp
    have "n mod b < b" using 1(2) by simp
    then have m: "digit_val (digit_char (n mod b)) = n mod b" "n mod b < b" using 1(3) by simp_all
    have "n div b \<noteq> 0" using False 1(2) by (simp add: div_eq_0_iff)
    then show ?thesis using 1 False m(2) unfolding p by (auto simp: digits_val_def m(1) simp del: digit_char_val)
  qed
qed

lemma takeWhile_set: "\<forall>x \<in> set xs. P x \<Longrightarrow> takeWhile P xs = xs"
  by (induction xs) auto

lemma stoull_hex:
  assumes "ds \<noteq> []" "\<forall>c \<in> set ds. digit_val c < 16" "digits_val 16 ds < 2 ^ 64"
  shows "stoull 0 (''0x'' @ ds) = Some (of_nat (digits_val 16 ds), 2 + length ds)"
proof -
  obtain c cs where ds: "ds = c # cs" using assms(1) by (cases ds) auto
  show ?thesis using assms(2,3)
    by (simp add: ds stoull_def is_space_def is_sign_def has_hex_prefix_def takeWhile_set Let_def not_le)
qed

lemma stoull_decimal:
  assumes "n < 2 ^ 64"
  shows "stoull 0 (print_digits 10 n) = Some (of_nat n, length (print_digits 10 n))"
proof -
  obtain c cs where t: "print_digits 10 n = c # cs" using print_digits_ok [of 10 n] by (cases "print_digits 10 n") auto
  obtain d where d: "d < 10" "c = digit_char d" "d = 0 \<longrightarrow> n = 0" using print_digits_ok [of 10 n] t by auto
  have t10: "\<forall>x \<in> set (c # cs). digit_val x < 10" "digits_val 10 (c # cs) = n"
    using print_digits_ok [of 10 n] t by auto
  have s: "\<not> is_space c" "\<not> is_sign c" using d by auto
  show ?thesis
  proof (cases "n = 0")
    case True
    moreover have "digit_char 0 = CHR ''0''" by code_simp
    ultimately have "print_digits 10 n = ''0''" by (simp add: print_digits.simps)
    then show ?thesis using True
      by (simp add: stoull_def Let_def is_space_def is_sign_def has_hex_prefix_def digit_val_def digits_val_def)
  next
    case False
    then have "c \<noteq> CHR ''0''" using d digit_char_simps(3) [of d] by auto
    then show ?thesis
      using t10 s assms by (simp add: t takeWhile_set stoull_def Let_def has_hex_prefix_def not_le split: list.split)
  qed
qed

text \<open>
  Every 64-bit number is read back from its hexadecimal and its decimal notation.
\<close>

theorem parse_uint64_print:
  assumes "n < 2 ^ 64"
  shows "parse_uint64_auto (''0x'' @ print_digits 16 n) = Inr (of_nat n) \<and> parse_uint64_auto (print_digits 10 n) = Inr (of_nat n)"
proof
  show "parse_uint64_auto (''0x'' @ print_digits 16 n) = Inr (of_nat n)"
    using print_digits_ok [of 16 n] stoull_hex [of "print_digits 16 n"] assms by (simp add: parse_uint64_auto_def)
  show "parse_uint64_auto (print_digits 10 n) = Inr (of_nat n)"
    using stoull_decimal [OF assms] by (simp add: parse_uint64_auto_def)
qed

theorem parse_uint64_print_witness: "parse_uint64_auto ''0x2a'' = Inr 42"
proof -
  have "print_digits 16 42 = ''2a''" by code_simp
  then show ?thesis using parse_uint64_print [of 42] by simp
qed

section \<open>Sizes\<close>

lemma and_pred_zero_power:
  "0 < n \<Longrightarrow> n AND (n - 1) = 0 \<Longrightarrow> \<exists>k. n = 2 ^ k" for n :: nat
proof (induction n rule: less_induct)
  case (less n)
  show ?case
  proof (cases "even n")
    case True
    then obtain m where m: "n = 2 * m" by blast
    have "0 < m" using less.prems m by simp
    have "m AND (m - 1) = 0"
    proof (rule bit_eqI)
      fix i
      have "bit n (Suc i) \<and> bit (n - 1) (Suc i) \<longleftrightarrow> False"
        using less.prems(2) by (metis bit_0_eq bit_and_iff bot_apply bot_bool_def)
      moreover have "(n - 1) div 2 = m - 1" using m by simp
      ultimately show "bit (m AND (m - 1)) i = bit (0 :: nat) i" using m by (simp add: bit_Suc bit_and_iff)
    qed
    then obtain k where "m = 2 ^ k" using less.IH [of m] m \<open>0 < m\<close> by auto
    then show ?thesis using m by (intro exI [of _ "Suc k"]) simp
  next
    case False
    have "n = 1"
    proof (rule ccontr)
      assume "n \<noteq> 1"
      then have "n div 2 \<noteq> 0" using False less.prems(1) by presburger
      have eq: "(n - 1) div 2 = n div 2" using False by presburger
      have "n div 2 = 0"
      proof (rule bit_eqI)
        fix i
        have "\<not> (bit n (Suc i) \<and> bit (n - 1) (Suc i))"
          using less.prems(2) by (metis bit_0_eq bit_and_iff bot_apply bot_bool_def)
        then show "bit (n div 2) i = bit (0 :: nat) i" using eq by (simp add: bit_Suc)
      qed
      then show False using \<open>n div 2 \<noteq> 0\<close> by simp
    qed
    then show ?thesis by (intro exI [of _ 0]) simp
  qed
qed

text \<open>
  C20 A memory size is accepted only when it is a power of two, a multiple of four, and inside the window
  and backing limits of the memory; the 32-bit result loses nothing.
\<close>

theorem parse_byte_size_sound:
  assumes "parse_byte_size_arg lo hi tok = Inr v" and "hi < 2 ^ 32"
  shows "(\<exists>k. unat v = 2 ^ k) \<and> unat v mod 4 = 0 \<and> unat lo \<le> unat v \<and> unat v \<le> unat hi"
proof -
  define scale :: u64 where "scale = (if last tok = CHR ''k'' \<or> last tok = CHR ''K'' then 1024
     else if last tok = CHR ''m'' \<or> last tok = CHR ''M'' then 1024 * 1024 else 1)"
  have scale: "scale = 1024 \<or> scale = 1048576 \<or> scale = 1" by (simp add: scale_def)
  obtain n where n: "n \<noteq> 0" "n \<le> (- 1) div scale" and b: "n * scale \<le> hi" "lo \<le> n * scale" "(n * scale) AND 3 = 0"
    "(n * scale) AND (n * scale - 1) = 0" and v: "v = ucast (n * scale)"
    using assms(1) unfolding parse_byte_size_arg_def Let_def scale_def [symmetric]
    by (auto split: if_splits sum.splits simp: not_less scale_def)
  have "unat ((- 1 :: u64) div scale) = (2 ^ 64 - 1) div unat scale"
    using scale by (auto simp: unat_div unsigned_minus_1_eq_mask mask_eq_exp_minus_1)
  then have "unat n * unat scale < 2 ^ 64" using n(2) scale by (auto simp: word_le_nat_alt)
  then have u: "unat (n * scale) = unat n * unat scale" by (simp add: unat_word_ariths)
  then have pos: "0 < unat (n * scale)" using n(1) scale by (auto simp: unat_gt_0)
  have small: "unat (n * scale) < 2 ^ 32" using b(1) assms(2) by (simp add: word_le_nat_alt word_less_nat_alt)
  then have uv: "unat v = unat (n * scale)" by (simp add: v unsigned_ucast_eq take_bit_nat_eq_self)
  have "unat (n * scale) AND (unat (n * scale) - 1) = 0"
  proof -
    have "unat (n * scale - 1) = unat (n * scale) - 1" using pos by (simp add: unat_minus_one unat_gt_0)
    then show ?thesis using b(4) by (metis unsigned_and_eq unsigned_0)
  qed
  then have "\<exists>k. unat v = 2 ^ k" unfolding uv using and_pred_zero_power [OF pos] by simp
  moreover have "unat v mod 4 = 0"
  proof -
    have "unat ((n * scale) AND 3) = unat (n * scale) AND 3" by (simp add: unsigned_and_eq)
    then show ?thesis unfolding uv b(3) using take_bit_eq_mask [of 2 "unat (n * scale)"]
      by (simp add: take_bit_eq_mod mask_eq_exp_minus_1)
  qed
  ultimately show ?thesis using b uv by (simp add: word_le_nat_alt)
qed

theorem parse_byte_size_sound_witness:
  "parse_byte_size_arg 0x100000 0x8000000 ''8M'' = Inr 0x800000 \<and> (\<exists>k. unat (0x800000 :: u32) = 2 ^ k)"
proof -
  have "stoull 0 ''8'' = Some (8, 1)"
    by (simp add: stoull_def is_space_def is_sign_def has_hex_prefix_def digit_val_def digits_val_def Let_def)
  then have "parse_byte_size_arg 0x100000 0x8000000 ''8M'' = Inr 0x800000"
    by (simp add: parse_byte_size_arg_def parse_uint64_auto_def Let_def)
  then show ?thesis using parse_byte_size_sound [of "0x100000" "0x8000000" "''8M''" "0x800000"] by simp
qed

section \<open>Exception vectors\<close>

definition vecs_inv :: "u8 list \<Rightarrow> bool" where
  "vecs_inv vecs \<longleftrightarrow> sorted vecs \<and> distinct vecs \<and> 0 \<notin> set vecs"

lemma vecs_inv_add: "vecs_inv vecs \<Longrightarrow> v \<noteq> 0 \<Longrightarrow> vecs_inv (add_exc_vec vecs v)"
  by (auto simp: vecs_inv_def add_exc_vec_def)

lemma vecs_inv_parse: "vecs_inv out \<Longrightarrow> parse_exc_list spec out = Inr vecs \<Longrightarrow> vecs_inv vecs"
proof -
  have nz: "(ucast v :: u8) \<noteq> 0" if "v \<noteq> 0" "v \<le> 255" for v :: u64
  proof -
    have "unat (ucast v :: u8) = unat v" using that by (simp add: unsigned_ucast_eq take_bit_nat_eq_self word_le_nat_alt)
    then show ?thesis using that by (metis unat_eq_zero unsigned_0)
  qed
  have "vecs_inv out \<Longrightarrow> parse_exc_tokens ts out = Inr vecs \<Longrightarrow> vecs_inv vecs" for ts out
    by (induction ts out rule: parse_exc_tokens.induct) (auto simp: vecs_inv_add nz not_less split: if_splits sum.splits)
  then show "vecs_inv out \<Longrightarrow> parse_exc_list spec out = Inr vecs \<Longrightarrow> vecs_inv vecs" by (auto simp: parse_exc_list_def)
qed

section \<open>Watched ranges\<close>

lemma first_overlap_iff:
  "first_overlap lo hi rs \<noteq> None \<longleftrightarrow> (\<exists>r \<in> set rs. lo \<le> wr_end r \<and> wr_start r \<le> hi)"
  by (induction lo hi rs rule: first_overlap.induct) auto

end
