(* ===== verification/Arch_Text.thy ===== *)
theory Arch_Text
  imports Rom_Boot_Args_Props
begin

unbundle bit_operations_syntax

text \<open>
  The text layer of architectural checkpoints (\<open>tb/tb_rom_boot.cpp\<close>): how \<open>fprintf\<close> writes the
  \<open>key=value\<close> lines and the hexadecimal data, and how \<open>token_value\<close> and the field parsers read them back.

  A file is its characters.  \<open>file_lines\<close> is what repeated \<open>fgets\<close> into the 8192-byte buffer gives, with
  the line ends stripped.  A field parser that returns false is \<open>None\<close>.
\<close>

section \<open>Printing\<close>

text \<open>\<open>%0*x\<close>, with \<open>0x\<close> in front, and \<open>%u\<close>.\<close>

definition fmt_hex :: "nat \<Rightarrow> nat \<Rightarrow> string" where
  "fmt_hex w n = (let s = print_digits 16 n in replicate (w - length s) (CHR ''0'') @ s)"

definition fmt_x :: "nat \<Rightarrow> nat \<Rightarrow> string" where
  "fmt_x w n = ''0x'' @ fmt_hex w n"

definition fmt_u :: "nat \<Rightarrow> string" where
  "fmt_u n = print_digits 10 n"

definition fmt_flag :: "bool \<Rightarrow> string" where
  "fmt_flag b = (if b then ''1'' else ''0'')"

definition quoted :: "string \<Rightarrow> string" where
  "quoted s = CHR 0x22 # s @ [CHR 0x22]"

definition print_token :: "string \<times> string \<Rightarrow> string" where
  "print_token kv = CHR '' '' # fst kv @ CHR ''='' # snd kv"

definition print_tokens :: "(string \<times> string) list \<Rightarrow> string" where
  "print_tokens kvs = concat (map print_token kvs)"

definition token_line :: "string \<Rightarrow> (string \<times> string) list \<Rightarrow> string" where
  "token_line head kvs = head @ print_tokens kvs"

definition hexdigit :: "u8 \<Rightarrow> char" where
  "hexdigit d = digit_char (unat d)"

definition fprint_hex_bytes :: "u8 list \<Rightarrow> string" where
  "fprint_hex_bytes data = concat (map (\<lambda>b. [hexdigit (drop_bit 4 b), hexdigit (b AND 0xF)]) data)"

definition fnv1a64_bytes :: "u8 list \<Rightarrow> u64" where
  "fnv1a64_bytes data = foldl (\<lambda>h b. (h XOR ucast b) * 0x100000001B3) 0xCBF29CE484222325 data"

section \<open>Reading\<close>

text \<open>What follows the first occurrence of the needle (\<open>line.find\<close>).\<close>

fun find_after :: "string \<Rightarrow> string \<Rightarrow> string option" where
  "find_after needle [] = (if needle = [] then Some [] else None)"
| "find_after needle (c # s) =
     (if take (length needle) (c # s) = needle then Some (drop (length needle) (c # s)) else find_after needle s)"

text \<open>The text of the value: up to and with the closing quote, or up to a space.\<close>

definition raw_value :: "string \<Rightarrow> string" where
  "raw_value s =
     (case s of
        [] \<Rightarrow> []
      | c # r \<Rightarrow>
          if c = CHR 0x22 then
            let v = takeWhile (\<lambda>x. x \<noteq> CHR 0x22) r in
            c # v @ (if length v < length r then [CHR 0x22] else [])
          else takeWhile (\<lambda>x. \<not> is_space x) s)"

definition unquote :: "string \<Rightarrow> string" where
  "unquote v = (if 2 \<le> length v \<and> hd v = CHR 0x22 \<and> last v = CHR 0x22 then butlast (tl v) else v)"

definition token_value :: "string \<Rightarrow> string \<Rightarrow> string option" where
  "token_value line key = map_option (\<lambda>s. unquote (raw_value s)) (find_after (key @ ''='') line)"

definition parse_u64_field :: "string \<Rightarrow> u64 option" where
  "parse_u64_field text =
     (case stoull 0 text of None \<Rightarrow> None | Some (v, consumed) \<Rightarrow> if consumed \<noteq> length text then None else Some v)"

definition parse_u32_field :: "string \<Rightarrow> u32 option" where
  "parse_u32_field text =
     (case parse_u64_field text of None \<Rightarrow> None | Some v \<Rightarrow> if 0xFFFFFFFF < v then None else Some (ucast v))"

definition nibble :: "char \<Rightarrow> u8 option" where
  "nibble c = (if digit_val c < 16 then Some (of_nat (digit_val c)) else None)"

definition parse_hex_byte_pair :: "char \<Rightarrow> char \<Rightarrow> u8 option" where
  "parse_hex_byte_pair hi lo =
     (case nibble hi of
        None \<Rightarrow> None
      | Some h \<Rightarrow> (case nibble lo of None \<Rightarrow> None | Some l \<Rightarrow> Some (push_bit 4 h OR l)))"

definition parse_u64_token :: "string \<Rightarrow> string \<Rightarrow> u64 option" where
  "parse_u64_token line key = Option.bind (token_value line key) parse_u64_field"

definition parse_u32_token :: "string \<Rightarrow> string \<Rightarrow> u32 option" where
  "parse_u32_token line key = Option.bind (token_value line key) parse_u32_field"

definition parse_u8_token :: "string \<Rightarrow> string \<Rightarrow> u8 option" where
  "parse_u8_token line key =
     (case parse_u32_token line key of None \<Rightarrow> None | Some v \<Rightarrow> if 0xFF < v then None else Some (ucast v))"

definition parse_u16_token :: "string \<Rightarrow> string \<Rightarrow> u16 option" where
  "parse_u16_token line key =
     (case parse_u32_token line key of None \<Rightarrow> None | Some v \<Rightarrow> if 0xFFFF < v then None else Some (ucast v))"

definition parse_bool_token :: "string \<Rightarrow> string \<Rightarrow> bool option" where
  "parse_bool_token line key =
     (case parse_u32_token line key of None \<Rightarrow> None | Some v \<Rightarrow> if 1 < v then None else Some (v \<noteq> 0))"

section \<open>Lines of a file\<close>

definition NEWLINE :: char where "NEWLINE = CHR 0x0A"

fun fgets :: "nat \<Rightarrow> string \<Rightarrow> string \<times> string" where
  "fgets 0 s = ([], s)"
| "fgets (Suc n) [] = ([], [])"
| "fgets (Suc n) (c # s) = (if c = NEWLINE then ([c], s) else case fgets n s of (l, r) \<Rightarrow> (c # l, r))"

lemma fgets_append: "fgets n s = (l, r) \<Longrightarrow> s = l @ r"
  by (induction n s arbitrary: l r rule: fgets.induct) (auto split: if_splits prod.splits)

lemma fgets_shorter: "s \<noteq> [] \<Longrightarrow> length (snd (fgets (Suc n) s)) < length s"
proof (cases s)
  case (Cons c t)
  then show ?thesis using fgets_append [of n t] by (cases "fgets n t") auto
qed simp

text \<open>The buffer as a C string without its line end.\<close>

definition strip_line :: "string \<Rightarrow> string" where
  "strip_line buf =
     rev (dropWhile (\<lambda>c. c = NEWLINE \<or> c = CHR 0x0D) (rev (takeWhile (\<lambda>c. c \<noteq> CHR 0x00) buf)))"

function file_lines :: "string \<Rightarrow> string list" where
  "file_lines s = (if s = [] then [] else case fgets 8191 s of (l, r) \<Rightarrow> strip_line l # file_lines r)"
  by pat_completeness auto
termination
proof (relation "measure length", goal_cases)
  case (2 s l r)
  then show ?case using fgets_shorter [of s 8190] by (cases "fgets 8191 s") auto
qed simp

declare file_lines.simps [simp del]

definition print_lines :: "string list \<Rightarrow> string" where
  "print_lines ls = concat (map (\<lambda>l. l @ [NEWLINE]) ls)"

end
