(* ===== verification/Arch_Checkpoint.thy ===== *)
theory Arch_Checkpoint
  imports Rom_Boot_Watch Rom_Patches Arch_Text
begin

unbundle bit_operations_syntax

text \<open>
  Architectural checkpoints of the ROM-boot harness (\<open>tb/tb_rom_boot.cpp\<close>): a text file with the
  registers, the adapter, the ROM and the memory, written by \<open>save_arch_checkpoint\<close> after the pipeline
  is drained and the data cache flushed, and read by \<open>parse_arch_replay_checkpoint\<close> and
  \<open>apply_arch_replay\<close>.

  The simulated core is the parameter \<open>'d dut_model\<close>: what the harness reads of it (\<open>arch_view\<close> and the
  data-port pins) and how a clock with given inputs changes it.  The memory block is reached through
  \<open>'m mem_image\<close> and its layout is \<open>mem_layout\<close>; both belong to the memory model of the core.  A result
  that the source returns as false is \<open>None\<close>.  A store through a data line that leaves its block is
  undefined in the source; the model marks it in \<open>wild_store\<close>.  The numbers of a fetch fault that only its
  message shows (debug addresses and commit count) are the argument \<open>dbg\<close> of \<open>reason_text\<close>.
\<close>

section \<open>The core and the memory\<close>

record arch_view =
  av_committed :: u32
  av_pc :: u32
  av_last_pc :: u32
  av_actual_next :: u32
  av_ccr :: u32
  av_sr :: u32
  av_reg :: "nat \<Rightarrow> u32"
  av_vbr :: u32
  av_cacr :: u32
  av_sfc :: u32
  av_dfc :: u32
  av_usp :: u32
  av_ssp :: u32
  av_isp :: u32
  av_tc :: u32
  av_itt0 :: u32
  av_itt1 :: u32
  av_dtt0 :: u32
  av_dtt1 :: u32
  av_urp :: u32
  av_srp :: u32
  av_rob_head :: u32
  av_rob_tail :: u32
  av_int_iq :: u32
  av_mem_iq :: u32
  av_lsu_busy :: bool
  av_exc_active :: bool
  av_cache_maint_wait :: bool
  av_dcache_state :: u32
  av_fq_valid0 :: bool
  av_fq_valid1 :: bool
  av_flush_done :: bool

datatype arch_load = Load_None | Load_Reg u32 u32 | Load_Ccr u32 | Load_Ctrl u32 u32 | Load_Mmu u32 u32 | Load_Pc u32

record dut_ctl =
  c_halt :: bool
  c_stop_req :: bool
  c_keep_tag :: u32
  c_flush_req :: bool
  c_load :: arch_load

definition idle_ctl :: dut_ctl where
  "idle_ctl = \<lparr> c_halt = False, c_stop_req = False, c_keep_tag = 0, c_flush_req = False, c_load = Load_None \<rparr>"

record 'd dut_model =
  dut_view :: "'d \<Rightarrow> arch_view"
  dut_daxi :: "'d \<Rightarrow> daxi_pins"
  dut_tick :: "dut_ctl \<Rightarrow> ifetch_out \<Rightarrow> daxi_out \<Rightarrow> 'd \<Rightarrow> 'd"
  dut_eval :: "dut_ctl \<Rightarrow> 'd \<Rightarrow> 'd"

record mem_segment =
  ms_base :: u32
  ms_off :: nat
  ms_size :: nat

record mem_layout =
  lay_ram :: mem_segment
  lay_vram :: mem_segment
  lay_magic :: mem_segment
  lay_fill :: u8
  lay_window_min :: u32
  lay_window_default :: u32

section \<open>Draining the pipeline\<close>

definition arch_checkpoint_quiesced :: "arch_view \<Rightarrow> bool" where
  "arch_checkpoint_quiesced v \<longleftrightarrow>
     av_rob_head v AND 0x3F = av_rob_tail v AND 0x3F \<and> av_int_iq v AND 0xF = 0 \<and> av_mem_iq v AND 0xF = 0 \<and>
     \<not> av_lsu_busy v \<and> \<not> av_exc_active v \<and> \<not> av_cache_maint_wait v \<and> av_dcache_state v < 11 \<and>
     \<not> av_fq_valid0 v \<and> \<not> av_fq_valid1 v"

text \<open>A cycle without instruction supply: the data port keeps running.\<close>

definition drain_cycle ::
  "'d dut_model \<Rightarrow> 'm mem_model \<Rightarrow> dut_ctl \<Rightarrow> 'd \<times> 'm boot \<Rightarrow> 'd \<times> 'm boot" where
  "drain_cycle X M c s =
     (let (d, b) = s;
          (out, h) = drive_daxi M (dut_daxi X d) ((hs b)\<lparr> if_pending := 0 \<rparr>) in
      (dut_tick X c no_fetch out d, b\<lparr> hs := tick_cycle h \<rparr>))"

definition note_commit_progress ::
  "'d dut_model \<Rightarrow> bool \<Rightarrow> ('d \<times> 'm boot) \<times> u32 \<Rightarrow> ('d \<times> 'm boot) \<times> u32" where
  "note_commit_progress X freeze s =
     (let ((d, b), prev) = s; v = dut_view X d in
      if \<not> freeze \<and> av_committed v \<noteq> prev then
        ((d, b\<lparr> arch_next_pc := \<lparr> np_valid = True, np_pc = av_actual_next v, np_commit_pc = av_last_pc v,
                                   np_committed = av_committed v \<rparr> \<rparr>), av_committed v)
      else s)"

fun drain_arch_checkpoint_pipeline ::
  "'d dut_model \<Rightarrow> 'm mem_model \<Rightarrow> dut_ctl \<Rightarrow> bool \<Rightarrow> nat \<Rightarrow> ('d \<times> 'm boot) \<times> u32 \<Rightarrow> bool \<times> ('d \<times> 'm boot) \<times> u32" where
  "drain_arch_checkpoint_pipeline X M c freeze 0 s = (arch_checkpoint_quiesced (dut_view X (fst (fst s))), s)"
| "drain_arch_checkpoint_pipeline X M c freeze (Suc n) s =
     (if arch_checkpoint_quiesced (dut_view X (fst (fst s))) then (True, s)
      else drain_arch_checkpoint_pipeline X M c freeze n
             (note_commit_progress X freeze (drain_cycle X M c (fst s), snd s)))"

text \<open>The loop that waits for the data-cache flush.\<close>

fun flush_loop ::
  "'d dut_model \<Rightarrow> 'm mem_model \<Rightarrow> dut_ctl \<Rightarrow> bool \<Rightarrow> nat \<Rightarrow> ('d \<times> 'm boot) \<times> u32 \<Rightarrow> bool \<times> ('d \<times> 'm boot) \<times> u32" where
  "flush_loop X M c freeze 0 s = (False, s)"
| "flush_loop X M c freeze (Suc n) s =
     (let s = note_commit_progress X freeze (drain_cycle X M c (fst s), snd s) in
      if av_flush_done (dut_view X (fst (fst s))) then (True, s) else flush_loop X M c freeze n s)"

definition engage_precise_boundary_halt ::
  "'d dut_model \<Rightarrow> 'm mem_model \<Rightarrow> 'd \<times> 'm boot \<Rightarrow> dut_ctl \<times> 'd \<times> 'm boot" where
  "engage_precise_boundary_halt X M s =
     (if \<not> precise_boundary_pending (snd s) then (idle_ctl, s)
      else
        let c = idle_ctl\<lparr> c_halt := True, c_keep_tag := ev_keep_tag (precise_boundary_stop (snd s)) AND 0x1F \<rparr>;
            (d, b) = drain_cycle X M (c\<lparr> c_stop_req := True \<rparr>) s in
        (c, dut_eval X c d, b))"

record flush_report =
  fr_attempted :: bool
  fr_completed :: bool
  fr_start_cycle :: u64
  fr_end_cycle :: u64
  fr_start_committed :: u32
  fr_end_committed :: u32

definition flush_dcache_before_arch_checkpoint ::
  "'d dut_model \<Rightarrow> 'm mem_model \<Rightarrow> dut_ctl \<Rightarrow> u64 \<Rightarrow> 'd \<times> 'm boot \<Rightarrow> flush_report \<times> 'd \<times> 'm boot" where
  "flush_dcache_before_arch_checkpoint X M c timeout s =
     (let (d0, b0) = s; n = unat timeout; freeze = precise_boundary_pending b0;
          s = ((d0, map_hs (\<lambda>h. h\<lparr> stop_cycle := 0 \<rparr>) b0), av_committed (dut_view X d0));
          (drained_before, s) = drain_arch_checkpoint_pipeline X M c freeze n s;
          (completed, (d, b), prev) = flush_loop X M (c\<lparr> c_flush_req := True \<rparr>) freeze n s;
          (drained_after, (d, b), prev) = drain_arch_checkpoint_pipeline X M c freeze n ((dut_eval X c d, b), prev) in
      (\<lparr> fr_attempted = True, fr_completed = completed, fr_start_cycle = sim_time (hs b0), fr_end_cycle = sim_time (hs b),
         fr_start_committed = av_committed (dut_view X d0), fr_end_committed = av_committed (dut_view X d) \<rparr>,
       d, map_hs (\<lambda>h. h\<lparr> stop_cycle := stop_cycle (hs b0), test_done := test_done (hs b0),
                          h_stop_reason := h_stop_reason (hs b0) \<rparr>) b))"

section \<open>Stop messages\<close>

definition exc_tokens :: "u8 \<Rightarrow> u32 \<Rightarrow> u32 \<Rightarrow> u32 \<Rightarrow> u64 \<Rightarrow> u32 \<Rightarrow> (string \<times> string) list" where
  "exc_tokens vec handler fpc faddr committed seq =
     [(''class'', rom_exception_class vec), (''source'', ''boundary''), (''vec'', fmt_u (unat vec)),
      (''handler_pc'', fmt_x 8 (unat handler)), (''fault_pc'', fmt_x 8 (unat fpc)), (''fault_addr'', fmt_x 8 (unat faddr)),
      (''committed'', fmt_u (unat committed)), (''boundary_seq'', fmt_u (unat seq))]"

definition berr_tokens :: "u32 \<times> u32 \<times> u32 \<Rightarrow> u32 \<Rightarrow> (string \<times> string) list" where
  "berr_tokens dbg a =
     (let (pc, last_pc, committed) = dbg in
      [(''addr'', fmt_x 8 (unat a)), (''dbg_pc'', fmt_x 8 (unat pc)), (''dbg_last_pc'', fmt_x 8 (unat last_pc)),
       (''committed'', fmt_u (unat committed))])"

definition stuck_tokens :: "u32 \<Rightarrow> u32 \<Rightarrow> u64 \<Rightarrow> (string \<times> string) list" where
  "stuck_tokens pc n t = [(''pc'', fmt_x 8 (unat pc)), (''repeats'', fmt_u (unat n)), (''threshold'', fmt_u (unat t))]"

definition idle_tokens :: "u64 \<Rightarrow> u64 \<Rightarrow> (string \<times> string) list" where
  "idle_tokens n t = [(''cycles'', fmt_u (unat n)), (''threshold'', fmt_u (unat t))]"

definition hit_tokens :: "u32 \<Rightarrow> u64 \<Rightarrow> (string \<times> string) list" where
  "hit_tokens pc n = [(''pc'', fmt_x 8 (unat pc)), (''hit'', fmt_u (unat n))]"

fun reason_parts :: "u32 \<times> u32 \<times> u32 \<Rightarrow> stop_reason \<Rightarrow> string \<times> (string \<times> string) list" where
  "reason_parts dbg Not_Stopped = (''??'', [])"
| "reason_parts dbg Sentinel_Pass = (''sentinel-PASS'', [])"
| "reason_parts dbg Sentinel_Fail = (''sentinel-FAIL'', [])"
| "reason_parts dbg (Stop_Ifetch_Berr a) = (''stop-ifetch-berr'', berr_tokens dbg a)"
| "reason_parts dbg (End_Ifetch_Berr a) = (''end-ifetch-berr'', berr_tokens dbg a)"
| "reason_parts dbg Cycle_Budget_Exhausted = (''cycle-budget-exhausted'', [])"
| "reason_parts dbg Restored = (''restored'', [])"
| "reason_parts dbg (Stop_Pc pc n) = (''stop-pc'', hit_tokens pc n)"
| "reason_parts dbg (End_Breakpoint pc n) = (''end-breakpoint'', hit_tokens pc n)"
| "reason_parts dbg (Sad_Mac pc d6 d7) =
     (''sad-mac'', [(''pc'', fmt_x 8 (unat pc)), (''code'', fmt_x 8 (unat d6)), (''d7'', fmt_x 8 (unat d7))])"
| "reason_parts dbg (Disk_Prompt pc n d0 d1 d3 d4) =
     (''disk-prompt'', hit_tokens pc n @ [(''d0'', fmt_x 8 (unat d0)), (''d1'', fmt_x 8 (unat d1)),
        (''d3'', fmt_x 8 (unat d3)), (''d4'', fmt_x 8 (unat d4))])"
| "reason_parts dbg (Stuck_Pc pc n t) = (''stuck-pc'', stuck_tokens pc n t)"
| "reason_parts dbg (End_Stuck_Pc pc n t) = (''end-stuck-pc'', stuck_tokens pc n t)"
| "reason_parts dbg (No_Progress n t) = (''no-progress'', idle_tokens n t)"
| "reason_parts dbg (End_No_Progress n t) = (''end-no-progress'', idle_tokens n t)"
| "reason_parts dbg (Stop_Exc v h p a c s) = (''stop-exc'', exc_tokens v h p a c s)"
| "reason_parts dbg (End_Exc v h p a c s) = (''end-exc'', exc_tokens v h p a c s)"
| "reason_parts dbg Max_Insts_Reached = (''max-insts-reached'', [])"
| "reason_parts dbg Low_Pc_Fetch = (''low-pc-fetch'', [])"
| "reason_parts dbg Ramtest_Bad_Range = (''ramtest-mame-state-bad-range'', [])"
| "reason_parts dbg Arch_Replay_Restored = (''arch-replay-restored'', [])"

definition reason_text :: "u32 \<times> u32 \<times> u32 \<Rightarrow> stop_reason \<Rightarrow> string" where
  "reason_text dbg r = (case reason_parts dbg r of (head, kvs) \<Rightarrow> head @ print_tokens kvs)"

section \<open>Writing the file\<close>

definition chunk_line :: "nat \<times> u8 list \<Rightarrow> string" where
  "chunk_line c =
     ''data'' @ print_tokens [(''off'', fmt_x 8 (fst c)), (''bytes'', fmt_u (length (snd c))), (''hex'', fprint_hex_bytes (snd c))]"

function full_chunks :: "nat \<Rightarrow> u8 list \<Rightarrow> (nat \<times> u8 list) list" where
  "full_chunks off data = (if data = [] then [] else (off, take 32 data) # full_chunks (off + 32) (drop 32 data))"
  by pat_completeness auto
termination by (relation "measure (length \<circ> snd)") auto

declare full_chunks.simps [simp del]

text \<open>Runs of at most 32 bytes that differ from the default.\<close>

function sparse_chunks :: "u8 \<Rightarrow> nat \<Rightarrow> u8 list \<Rightarrow> (nat \<times> u8 list) list" where
  "sparse_chunks dflt off [] = []"
| "sparse_chunks dflt off (b # data) =
     (if b = dflt then sparse_chunks dflt (Suc off) data
      else
        let run = takeWhile (\<lambda>x. x \<noteq> dflt) (take 32 (b # data)) in
        (off, run) # sparse_chunks dflt (off + length run) (drop (length run) (b # data)))"
  by pat_completeness auto
termination by (relation "measure (length \<circ> snd \<circ> snd)") auto

definition segment_tokens :: "string \<Rightarrow> u32 \<Rightarrow> u8 list \<Rightarrow> string \<Rightarrow> (string \<times> string) list" where
  "segment_tokens name base data encoding =
     [(''name'', name), (''base'', fmt_x 8 (unat base)), (''size'', fmt_x 8 (length data)), (''encoding'', encoding)]"

definition write_full_segment :: "string \<Rightarrow> u32 \<Rightarrow> u8 list \<Rightarrow> string list" where
  "write_full_segment name base data =
     [''segment'' @ print_tokens (segment_tokens name base data ''hex-full'' @
        [(''chunk_bytes'', ''32''), (''checksum_fnv1a64'', fmt_x 16 (unat (fnv1a64_bytes data)))])] @
     map chunk_line (full_chunks 0 data) @ [''endsegment'' @ print_tokens [(''name'', name)]]"

definition write_sparse_segment :: "string \<Rightarrow> u32 \<Rightarrow> u8 list \<Rightarrow> u8 \<Rightarrow> string list" where
  "write_sparse_segment name base data dflt =
     (let chunks = sparse_chunks dflt 0 data in
      [''segment'' @ print_tokens (segment_tokens name base data ''sparse-hex'' @
         [(''default'', fmt_x 2 (unat dflt)), (''chunk_bytes'', ''32''),
          (''material_bytes'', fmt_u (sum_list (map (length \<circ> snd) chunks))), (''chunks'', fmt_u (length chunks)),
          (''checksum_fnv1a64'', fmt_x 16 (unat (fnv1a64_bytes data)))])] @
      map chunk_line chunks @ [''endsegment'' @ print_tokens [(''name'', name)]])"

definition saved_sr :: "arch_view \<Rightarrow> u32" where
  "saved_sr v = (av_sr v AND 0xFFE0 OR (av_ccr v AND 0x1F)) AND 0xFFFF"

definition run_tokens :: "arch_view \<Rightarrow> string \<Rightarrow> string \<Rightarrow> 'm boot \<Rightarrow> (string \<times> string) list" where
  "run_tokens v before now b =
     [(''cycle'', fmt_x 16 (unat (sim_time (hs b)))), (''committed'', fmt_x 8 (unat (av_committed v))),
      (''stop_reason_before_flush'', quoted before), (''stop_reason'', quoted now),
      (''overlay'', fmt_flag (overlay (sys (hs b)))), (''visible_ram'', fmt_x 8 (unat (visible_ram_size (hs b)))),
      (''q700_descriptor_selected'', fmt_flag (descriptor_selected (q700 b)))]"

definition flush_tokens :: "flush_report \<Rightarrow> (string \<times> string) list" where
  "flush_tokens r =
     [(''attempted'', fmt_flag (fr_attempted r)), (''completed'', fmt_flag (fr_completed r)),
      (''start_cycle'', fmt_x 16 (unat (fr_start_cycle r))), (''end_cycle'', fmt_x 16 (unat (fr_end_cycle r))),
      (''start_committed'', fmt_x 8 (unat (fr_start_committed r))), (''end_committed'', fmt_x 8 (unat (fr_end_committed r)))]"

definition quiesce_tokens :: "arch_view \<Rightarrow> (string \<times> string) list" where
  "quiesce_tokens v =
     (let rob_head = av_rob_head v AND 0x3F; rob_tail = av_rob_tail v AND 0x3F in
      [(''rob_empty'', fmt_flag (rob_head = rob_tail)), (''rob_head'', fmt_u (unat rob_head)),
       (''rob_tail'', fmt_u (unat rob_tail)), (''int_iq_count'', fmt_u (unat (av_int_iq v AND 0xF))),
       (''mem_iq_count'', fmt_u (unat (av_mem_iq v AND 0xF))), (''lsu_busy'', fmt_flag (av_lsu_busy v)),
       (''exc_active'', fmt_flag (av_exc_active v)), (''cache_maint_wait'', fmt_flag (av_cache_maint_wait v)),
       (''dcache_flush_busy'', fmt_flag (11 \<le> av_dcache_state v)),
       (''flush_queue_empty'', fmt_flag (\<not> av_fq_valid0 v \<and> \<not> av_fq_valid1 v))])"

definition arch_tokens :: "arch_view \<Rightarrow> (string \<times> string) list" where
  "arch_tokens v =
     [(''ccr'', fmt_x 2 (unat (av_ccr v AND 0x1F))), (''sr'', fmt_x 4 (unat (saved_sr v))),
      (''sr_source'', ''commit_arch_sr_15_5_plus_ccr_rat'')]"

definition reg_line :: "char \<Rightarrow> nat \<Rightarrow> u32 \<Rightarrow> string" where
  "reg_line kind i x = ''reg '' @ [kind] @ fmt_u i @ ''='' @ fmt_x 8 (unat x)"

definition pc_tokens :: "arch_view \<Rightarrow> next_pc \<Rightarrow> (string \<times> string) list" where
  "pc_tokens v n =
     (if np_valid n then
        [(''next_valid'', ''1''), (''next'', fmt_x 8 (unat (np_pc n))), (''source'', ''debug_boundary_or_last_observed_retire''),
         (''commit_pc'', fmt_x 8 (unat (np_commit_pc n))), (''committed'', fmt_x 8 (unat (np_committed n))),
         (''fetch_dbg_pc'', fmt_x 8 (unat (av_pc v))), (''dbg_last_pc'', fmt_x 8 (unat (av_last_pc v)))]
      else
        [(''next_valid'', ''0''), (''next'', ''unknown''), (''source'', ''not_observed''),
         (''fetch_dbg_pc'', fmt_x 8 (unat (av_pc v))), (''dbg_last_pc'', fmt_x 8 (unat (av_last_pc v)))])"

definition control_tokens :: "arch_view \<Rightarrow> (string \<times> string) list" where
  "control_tokens v =
     [(''vbr'', fmt_x 8 (unat (av_vbr v))), (''cacr'', fmt_x 8 (unat (av_cacr v))), (''sfc'', fmt_x 8 (unat (av_sfc v))),
      (''dfc'', fmt_x 8 (unat (av_dfc v))), (''usp'', fmt_x 8 (unat (av_usp v))), (''ssp'', fmt_x 8 (unat (av_ssp v))),
      (''isp'', fmt_x 8 (unat (av_isp v)))]"

definition mmu_tokens :: "arch_view \<Rightarrow> (string \<times> string) list" where
  "mmu_tokens v =
     [(''tc'', fmt_x 8 (unat (av_tc v))), (''itt0'', fmt_x 8 (unat (av_itt0 v))), (''itt1'', fmt_x 8 (unat (av_itt1 v))),
      (''dtt0'', fmt_x 8 (unat (av_dtt0 v))), (''dtt1'', fmt_x 8 (unat (av_dtt1 v))), (''urp'', fmt_x 8 (unat (av_urp v))),
      (''srp'', fmt_x 8 (unat (av_srp v)))]"

definition via1_tokens :: "via_sys \<Rightarrow> (string \<times> string) list" where
  "via1_tokens s =
     (let w = via s in
      [(''orb'', fmt_x 2 (unat (orb w))), (''ora'', fmt_x 2 (unat (ora w))), (''ddrb'', fmt_x 2 (unat (ddrb w))),
       (''ddra'', fmt_x 2 (unat (ddra w))), (''t1cl'', fmt_x 2 (unat (t1cl w))), (''t1ch'', fmt_x 2 (unat (t1ch w))),
       (''t1ll'', fmt_x 2 (unat (t1ll w))), (''t1lh'', fmt_x 2 (unat (t1lh w))), (''t2cl'', fmt_x 2 (unat (t2cl w))),
       (''t2ch'', fmt_x 2 (unat (t2ch w))), (''sr'', fmt_x 2 (unat (sr w))), (''acr'', fmt_x 2 (unat (acr w))),
       (''pcr'', fmt_x 2 (unat (pcr w))), (''ifr'', fmt_x 2 (unat (ifr w))), (''ier'', fmt_x 2 (unat (ier w))),
       (''t1_running'', fmt_flag (t1_running w)), (''t1_latch'', fmt_x 4 (unat (t1_latch w))),
       (''t1_counter'', fmt_x 4 (unat (t1_counter w))), (''t2_running'', fmt_flag (t2_running w)),
       (''t2_latch'', fmt_x 4 (unat (t2_latch w))), (''t2_counter'', fmt_x 4 (unat (t2_counter w))),
       (''adb_shift_in_progress'', fmt_flag (adb_shift_in_progress w)),
       (''adb_shift_complete_cyc'', fmt_x 16 (unat (adb_shift_complete_cyc w))),
       (''adb_last_byte'', fmt_x 2 (unat (adb_last_byte w))), (''adb_transaction_id'', fmt_x 8 (unat (adb_transaction_id w))),
       (''rtc_data_line'', fmt_flag (data_line (rtc_chip s))),
       (''via1_timer_div'', fmt_x 16 (unat (via1_timer_div s))), (''via1_timer_div_ctr'', fmt_x 16 (unat (via1_timer_div_ctr s)))])"

definition q700_tokens :: "q700_descriptor \<Rightarrow> (string \<times> string) list" where
  "q700_tokens q =
     [(''selected'', fmt_flag (descriptor_selected q)), (''entry'', fmt_x 8 (unat (descriptor_entry q))),
      (''feature'', fmt_x 8 (unat (feature_word q)))]"

definition replay_tokens :: "(string \<times> string) list" where
  "replay_tokens =
     [(''supported'', ''debug_arch_load_v2''), (''io_state'', ''via1-v1''), (''io_restore'', ''partial-via1-v1''),
      (''caches'', ''reset''), (''queues'', ''reset''), (''predictors'', ''reset'')]"

definition gap_lines :: "string list" where
  "gap_lines =
     [''gap restore=debug_arch_load_is_simulation_only_until_fpga_debug_path_exists'',
      ''gap replay_io=only_via1_rtc_line_q700_descriptor_restored_other_io_reset'',
      ''gap peripherals=scc_scsi_asc_swim_dafb_not_part_of_arch_replay'',
      ''gap rtc=only_rtc_data_line_restored_in_arch_checkpoint_v2'',
      ''gap sr=observed_via_commit_internal_until_public_debug_port_exists'',
      ''gap pc=boundary_resume_pc_requires_dbg_boundary_next_pc'']"

definition rom_patch_line :: "rom_patch \<Rightarrow> string" where
  "rom_patch_line p =
     ''rom_patch'' @ print_tokens [(''set'', rp_set p), (''off'', fmt_x 5 (unat (rp_off p))),
       (''value'', fmt_x 2 (unat (rp_value p))), (''desc'', quoted (rp_description p))]"

definition segment_bytes :: "mem_segment \<Rightarrow> u8 list \<Rightarrow> u8 list" where
  "segment_bytes g raw = take (ms_size g) (drop (ms_off g) raw)"

definition write_mem_segment :: "string \<Rightarrow> mem_segment \<Rightarrow> u8 list \<Rightarrow> u8 \<Rightarrow> string list" where
  "write_mem_segment name g raw = write_sparse_segment name (ms_base g) (segment_bytes g raw)"

definition memory_lines :: "mem_layout \<Rightarrow> u8 list \<Rightarrow> u8 list \<Rightarrow> string list" where
  "memory_lines L rom raw =
     [''memory begin''] @ (if rom = [] then [] else write_full_segment ''q700-rom'' Q700_ROM_BASE rom) @
     write_mem_segment ''ram'' (lay_ram L) raw (lay_fill L) @ write_mem_segment ''vram'' (lay_vram L) raw (lay_fill L) @
     write_mem_segment ''magic'' (lay_magic L) raw (lay_fill L) @ [''memory end'']"

definition FORMAT_LINE :: string where "FORMAT_LINE = ''format m68k-ooo-arch-checkpoint-v1''"

definition END_LINE :: string where "END_LINE = ''end format=m68k-ooo-arch-checkpoint-v1''"

definition state_lines :: "arch_view \<Rightarrow> flush_report \<Rightarrow> string \<Rightarrow> string \<Rightarrow> 'm boot \<Rightarrow> string list" where
  "state_lines v r before now b =
     [FORMAT_LINE, ''producer tb-rom-boot'', ''endianness big'',
      token_line ''run'' (run_tokens v before now b), token_line ''flush'' (flush_tokens r),
      token_line ''quiesce'' (quiesce_tokens v), token_line ''arch'' (arch_tokens v)] @
     map (\<lambda>i. reg_line (CHR ''d'') i (av_reg v i)) [0..<8] @ map (\<lambda>i. reg_line (CHR ''a'') i (av_reg v (8 + i))) [0..<8] @
     [token_line ''pc'' (pc_tokens v (arch_next_pc b)), token_line ''control'' (control_tokens v),
      token_line ''mmu'' (mmu_tokens v), token_line ''io via1'' (via1_tokens (sys (hs b))),
      token_line ''io q700_descriptor'' (q700_tokens (q700 b)), token_line ''replay'' replay_tokens] @ gap_lines"

text \<open>What the system calls do: the directory, the open, the close.\<close>

datatype file_io = Dir_Fails | Open_Fails | Close_Fails | Io_Ok

definition save_arch_checkpoint ::
  "'d dut_model \<Rightarrow> 'm mem_model \<Rightarrow> 'm mem_image \<Rightarrow> mem_layout \<Rightarrow> u64 \<Rightarrow> patch_list \<Rightarrow> u32 \<times> u32 \<times> u32 \<Rightarrow> file_io \<Rightarrow>
   'd \<times> 'm boot \<Rightarrow> (bool \<times> string) \<times> 'd \<times> 'm boot" where
  "save_arch_checkpoint X M D L timeout patches dbg io s =
     (if io = Dir_Fails then ((False, []), s)
      else
        let before = reason_text dbg (h_stop_reason (hs (snd s)));
            engaged = precise_boundary_pending (snd s);
            (c, s) = engage_precise_boundary_halt X M s;
            (report, d, b) = flush_dcache_before_arch_checkpoint X M c timeout s;
            release = (if engaged then dut_eval X idle_ctl d else d) in
        if io = Open_Fails then ((False, []), release, b)
        else
          ((io \<noteq> Close_Fails,
            print_lines (state_lines (dut_view X d) report before (reason_text dbg (h_stop_reason (hs b))) b @
              map rom_patch_line patches @ memory_lines L (rom_img (hs b)) (mem_data D (h_mem (hs b))) @ [END_LINE])),
           release, b\<lparr> precise_boundary_pending := False \<rparr>))"

end
