(* ===== verification/Arch_Replay.thy ===== *)
theory Arch_Replay
  imports Arch_Checkpoint
begin

unbundle bit_operations_syntax

text \<open>
  Reading an architectural checkpoint back (\<open>parse_arch_replay_checkpoint\<close> and \<open>apply_arch_replay\<close> of
  \<open>tb/tb_rom_boot.cpp\<close>): the fields of the file in \<open>arch_replay_checkpoint\<close> (grouped as the file groups
  them), the memory segments, the checks a checkpoint has to pass, and the debug loads that put the
  state into the core.

  Every line is one case of \<open>replay_line\<close>, in the order of the source; a line no case knows is skipped.
\<close>

section \<open>The checkpoint\<close>

record arch_core =
  cp_regs :: "u32 list"
  cp_ccr :: u32
  cp_sr :: u32
  cp_pc :: u32
  cp_commit_pc :: u32
  cp_vbr :: u32
  cp_cacr :: u32
  cp_sfc :: u32
  cp_dfc :: u32
  cp_usp :: u32
  cp_ssp :: u32
  cp_isp :: u32
  cp_tc :: u32
  cp_itt0 :: u32
  cp_itt1 :: u32
  cp_dtt0 :: u32
  cp_dtt1 :: u32
  cp_urp :: u32
  cp_srp :: u32

record arch_quiesce =
  flush_attempted :: u32
  flush_completed :: u32
  quiesce_rob_empty :: u32
  quiesce_int_iq_count :: u32
  quiesce_mem_iq_count :: u32
  quiesce_lsu_busy :: u32
  quiesce_exc_active :: u32
  quiesce_cache_maint_wait :: u32
  quiesce_dcache_flush_busy :: u32
  quiesce_flush_queue_empty :: u32

record arch_contract =
  replay_supported :: string
  replay_io_state :: string
  replay_io_restore :: string
  replay_caches :: string
  replay_queues :: string
  replay_predictors :: string

record arch_io =
  io_via1 :: via1
  via1_timer_div_snapshot :: u64
  via1_timer_div_ctr_snapshot :: u64
  via1_rtc_data_line :: u32
  q700_selected_snapshot :: u32
  q700_entry_snapshot :: u32
  q700_feature_snapshot :: u32

record arch_seen =
  has_format :: bool
  has_run :: bool
  has_overlay :: bool
  has_visible_ram :: bool
  has_flush :: bool
  has_quiesce :: bool
  has_arch :: bool
  has_pc :: bool
  has_control :: bool
  has_mmu :: bool
  has_replay :: bool
  has_io_via1 :: bool
  has_io_q700_descriptor :: bool
  has_reg :: "bool list"
  saw_memory_begin :: bool
  saw_memory_end :: bool
  saw_end_format :: bool
  saw_rom :: bool
  saw_ram :: bool
  saw_vram :: bool
  saw_magic :: bool

record arch_replay_checkpoint =
  cp_cycle :: u64
  cp_committed :: u32
  cp_overlay :: u32
  cp_visible_ram :: u32
  cp_core :: arch_core
  cp_quiesce :: arch_quiesce
  cp_contract :: arch_contract
  cp_io :: arch_io
  cp_seen :: arch_seen

definition Q700_RESET_PC :: u32 where "Q700_RESET_PC = 0x4000002A"

definition initial_replay :: "mem_layout \<Rightarrow> arch_replay_checkpoint" where
  "initial_replay L =
     \<lparr> cp_cycle = 0, cp_committed = 0, cp_overlay = 1, cp_visible_ram = lay_window_default L,
       cp_core = \<lparr> cp_regs = replicate 16 0, cp_ccr = 0, cp_sr = 0x2000, cp_pc = Q700_RESET_PC, cp_commit_pc = 0, cp_vbr = 0,
         cp_cacr = 0, cp_sfc = 0, cp_dfc = 0, cp_usp = 0, cp_ssp = 0, cp_isp = 0, cp_tc = 0, cp_itt0 = 0, cp_itt1 = 0,
         cp_dtt0 = 0, cp_dtt1 = 0, cp_urp = 0, cp_srp = 0 \<rparr>,
       cp_quiesce = \<lparr> flush_attempted = 0, flush_completed = 0, quiesce_rob_empty = 0, quiesce_int_iq_count = 0,
         quiesce_mem_iq_count = 0, quiesce_lsu_busy = 0, quiesce_exc_active = 0, quiesce_cache_maint_wait = 0,
         quiesce_dcache_flush_busy = 0, quiesce_flush_queue_empty = 0 \<rparr>,
       cp_contract = \<lparr> replay_supported = [], replay_io_state = [], replay_io_restore = [], replay_caches = [],
         replay_queues = [], replay_predictors = [] \<rparr>,
       cp_io = \<lparr> io_via1 = initial_via1, via1_timer_div_snapshot = 1, via1_timer_div_ctr_snapshot = 0, via1_rtc_data_line = 1,
         q700_selected_snapshot = 0, q700_entry_snapshot = 0, q700_feature_snapshot = 0 \<rparr>,
       cp_seen = \<lparr> has_format = False, has_run = False, has_overlay = False, has_visible_ram = False, has_flush = False,
         has_quiesce = False, has_arch = False, has_pc = False, has_control = False, has_mmu = False, has_replay = False,
         has_io_via1 = False, has_io_q700_descriptor = False, has_reg = replicate 16 False, saw_memory_begin = False,
         saw_memory_end = False, saw_end_format = False, saw_rom = False, saw_ram = False, saw_vram = False,
         saw_magic = False \<rparr> \<rparr>"

definition see :: "(arch_seen \<Rightarrow> arch_seen) \<Rightarrow> arch_replay_checkpoint \<Rightarrow> arch_replay_checkpoint" where
  "see f cp = cp\<lparr> cp_seen := f (cp_seen cp) \<rparr>"

section \<open>Lines of state\<close>

text \<open>A field that may be missing: the old value then.\<close>

definition optional_field :: "(string \<Rightarrow> 'a option) \<Rightarrow> string \<Rightarrow> string \<Rightarrow> 'a \<Rightarrow> 'a option" where
  "optional_field parse line key dflt = (case token_value line key of None \<Rightarrow> Some dflt | Some v \<Rightarrow> parse v)"

definition bad_window :: "mem_layout \<Rightarrow> u32 \<Rightarrow> bool" where
  "bad_window L w \<longleftrightarrow>
     w = 0 \<or> ms_size (lay_ram L) < unat w \<or> w < lay_window_min L \<or> w AND 3 \<noteq> 0 \<or> w AND (w - 1) \<noteq> 0"

definition replay_window :: "mem_layout \<Rightarrow> string \<Rightarrow> arch_replay_checkpoint \<Rightarrow> arch_replay_checkpoint option" where
  "replay_window L line cp =
     (case token_value line ''visible_ram'' of
        None \<Rightarrow> Some cp
      | Some t \<Rightarrow> do { w \<leftarrow> parse_u32_field t;
                       if bad_window L w then None
                       else Some (see (\<lambda>s. s\<lparr> has_visible_ram := True \<rparr>) (cp\<lparr> cp_visible_ram := w \<rparr>)) })"

definition replay_overlay :: "string \<Rightarrow> arch_replay_checkpoint \<Rightarrow> arch_replay_checkpoint option" where
  "replay_overlay line cp =
     (case token_value line ''overlay'' of
        None \<Rightarrow> Some cp
      | Some t \<Rightarrow> do { x \<leftarrow> parse_u32_field t;
                       if 1 < x then None
                       else Some (see (\<lambda>s. s\<lparr> has_overlay := True \<rparr>) (cp\<lparr> cp_overlay := x \<rparr>)) })"

definition replay_run :: "mem_layout \<Rightarrow> string \<Rightarrow> arch_replay_checkpoint \<Rightarrow> arch_replay_checkpoint option" where
  "replay_run L line cp =
     do { cyc \<leftarrow> optional_field parse_u64_field line ''cycle'' (cp_cycle cp);
          com \<leftarrow> optional_field parse_u32_field line ''committed'' (cp_committed cp);
          cp \<leftarrow> replay_window L line (cp\<lparr> cp_cycle := cyc, cp_committed := com \<rparr>);
          cp \<leftarrow> replay_overlay line cp;
          Some (see (\<lambda>s. s\<lparr> has_run := True \<rparr>) cp) }"

definition replay_flush :: "string \<Rightarrow> arch_replay_checkpoint \<Rightarrow> arch_replay_checkpoint option" where
  "replay_flush line cp =
     do { a \<leftarrow> parse_u32_token line ''attempted'';
          c \<leftarrow> parse_u32_token line ''completed'';
          Some (see (\<lambda>s. s\<lparr> has_flush := True \<rparr>)
            (cp\<lparr> cp_quiesce := (cp_quiesce cp)\<lparr> flush_attempted := a, flush_completed := c \<rparr> \<rparr>)) }"

definition replay_quiesce :: "string \<Rightarrow> arch_replay_checkpoint \<Rightarrow> arch_replay_checkpoint option" where
  "replay_quiesce line cp =
     do { re \<leftarrow> parse_u32_token line ''rob_empty'';
          ic \<leftarrow> parse_u32_token line ''int_iq_count'';
          mc \<leftarrow> parse_u32_token line ''mem_iq_count'';
          lb \<leftarrow> parse_u32_token line ''lsu_busy'';
          ea \<leftarrow> parse_u32_token line ''exc_active'';
          cm \<leftarrow> parse_u32_token line ''cache_maint_wait'';
          db \<leftarrow> parse_u32_token line ''dcache_flush_busy'';
          fe \<leftarrow> parse_u32_token line ''flush_queue_empty'';
          Some (see (\<lambda>s. s\<lparr> has_quiesce := True \<rparr>)
            (cp\<lparr> cp_quiesce := (cp_quiesce cp)\<lparr> quiesce_rob_empty := re, quiesce_int_iq_count := ic,
                   quiesce_mem_iq_count := mc, quiesce_lsu_busy := lb, quiesce_exc_active := ea,
                   quiesce_cache_maint_wait := cm, quiesce_dcache_flush_busy := db, quiesce_flush_queue_empty := fe \<rparr> \<rparr>)) }"

definition replay_arch :: "string \<Rightarrow> arch_replay_checkpoint \<Rightarrow> arch_replay_checkpoint option" where
  "replay_arch line cp =
     do { c \<leftarrow> parse_u32_token line ''ccr'';
          s \<leftarrow> parse_u32_token line ''sr'';
          Some (see (\<lambda>s. s\<lparr> has_arch := True \<rparr>) (cp\<lparr> cp_core := (cp_core cp)\<lparr> cp_ccr := c, cp_sr := s \<rparr> \<rparr>)) }"

definition replay_reg :: "string \<Rightarrow> arch_replay_checkpoint \<Rightarrow> arch_replay_checkpoint option" where
  "replay_reg line cp =
     (if length line < 8 \<or> line ! 6 \<noteq> CHR ''='' then None
      else
        let kind = line ! 4; n = (of_char (line ! 5) :: int) - 48 in
        if kind \<noteq> CHR ''d'' \<and> kind \<noteq> CHR ''a'' \<or> n < 0 \<or> 7 < n then None
        else
          do { v \<leftarrow> parse_u32_field (drop 7 line);
               let idx = (if kind = CHR ''d'' then nat n else 8 + nat n) in
               Some (see (\<lambda>s. s\<lparr> has_reg := (has_reg s)[idx := True] \<rparr>)
                 (cp\<lparr> cp_core := (cp_core cp)\<lparr> cp_regs := (cp_regs (cp_core cp))[idx := v] \<rparr> \<rparr>)) })"

definition replay_pc :: "string \<Rightarrow> arch_replay_checkpoint \<Rightarrow> arch_replay_checkpoint option" where
  "replay_pc line cp =
     do { valid \<leftarrow> parse_u32_token line ''next_valid'';
          if valid = 0 then None
          else
            do { pc \<leftarrow> parse_u32_token line ''next'';
                 let commit = (case parse_u32_token line ''commit_pc'' of None \<Rightarrow> cp_commit_pc (cp_core cp) | Some v \<Rightarrow> v) in
                 Some (see (\<lambda>s. s\<lparr> has_pc := True \<rparr>)
                   (cp\<lparr> cp_core := (cp_core cp)\<lparr> cp_pc := pc, cp_commit_pc := commit \<rparr> \<rparr>)) } }"

definition replay_control :: "string \<Rightarrow> arch_replay_checkpoint \<Rightarrow> arch_replay_checkpoint option" where
  "replay_control line cp =
     do { vbr \<leftarrow> parse_u32_token line ''vbr''; cacr \<leftarrow> parse_u32_token line ''cacr''; sfc \<leftarrow> parse_u32_token line ''sfc'';
          dfc \<leftarrow> parse_u32_token line ''dfc''; usp \<leftarrow> parse_u32_token line ''usp''; ssp \<leftarrow> parse_u32_token line ''ssp'';
          isp \<leftarrow> parse_u32_token line ''isp'';
          Some (see (\<lambda>s. s\<lparr> has_control := True \<rparr>)
            (cp\<lparr> cp_core := (cp_core cp)\<lparr> cp_vbr := vbr, cp_cacr := cacr, cp_sfc := sfc, cp_dfc := dfc, cp_usp := usp,
                   cp_ssp := ssp, cp_isp := isp \<rparr> \<rparr>)) }"

definition replay_mmu :: "string \<Rightarrow> arch_replay_checkpoint \<Rightarrow> arch_replay_checkpoint option" where
  "replay_mmu line cp =
     do { tc \<leftarrow> parse_u32_token line ''tc''; itt0 \<leftarrow> parse_u32_token line ''itt0''; itt1 \<leftarrow> parse_u32_token line ''itt1'';
          dtt0 \<leftarrow> parse_u32_token line ''dtt0''; dtt1 \<leftarrow> parse_u32_token line ''dtt1''; urp \<leftarrow> parse_u32_token line ''urp'';
          srp \<leftarrow> parse_u32_token line ''srp'';
          Some (see (\<lambda>s. s\<lparr> has_mmu := True \<rparr>)
            (cp\<lparr> cp_core := (cp_core cp)\<lparr> cp_tc := tc, cp_itt0 := itt0, cp_itt1 := itt1, cp_dtt0 := dtt0, cp_dtt1 := dtt1,
                   cp_urp := urp, cp_srp := srp \<rparr> \<rparr>)) }"

definition replay_contract :: "string \<Rightarrow> arch_replay_checkpoint \<Rightarrow> arch_replay_checkpoint option" where
  "replay_contract line cp =
     do { sup \<leftarrow> token_value line ''supported''; ios \<leftarrow> token_value line ''io_state'';
          let ior = (case token_value line ''io_restore'' of None \<Rightarrow> replay_io_restore (cp_contract cp) | Some v \<Rightarrow> v) in
          do { ca \<leftarrow> token_value line ''caches''; qu \<leftarrow> token_value line ''queues''; pr \<leftarrow> token_value line ''predictors'';
               Some (see (\<lambda>s. s\<lparr> has_replay := True \<rparr>)
                 (cp\<lparr> cp_contract := \<lparr> replay_supported = sup, replay_io_state = ios, replay_io_restore = ior,
                        replay_caches = ca, replay_queues = qu, replay_predictors = pr \<rparr> \<rparr>)) } }"

definition replay_via1_regs :: "string \<Rightarrow> via1 option" where
  "replay_via1_regs line =
     do { v0 \<leftarrow> parse_u8_token line ''orb''; v1 \<leftarrow> parse_u8_token line ''ora''; v2 \<leftarrow> parse_u8_token line ''ddrb'';
          v3 \<leftarrow> parse_u8_token line ''ddra''; v4 \<leftarrow> parse_u8_token line ''t1cl''; v5 \<leftarrow> parse_u8_token line ''t1ch'';
          v6 \<leftarrow> parse_u8_token line ''t1ll''; v7 \<leftarrow> parse_u8_token line ''t1lh''; v8 \<leftarrow> parse_u8_token line ''t2cl'';
          v9 \<leftarrow> parse_u8_token line ''t2ch''; v10 \<leftarrow> parse_u8_token line ''sr''; v11 \<leftarrow> parse_u8_token line ''acr'';
          v12 \<leftarrow> parse_u8_token line ''pcr''; v13 \<leftarrow> parse_u8_token line ''ifr''; v14 \<leftarrow> parse_u8_token line ''ier'';
          r1 \<leftarrow> parse_bool_token line ''t1_running''; l1 \<leftarrow> parse_u16_token line ''t1_latch'';
          c1 \<leftarrow> parse_u16_token line ''t1_counter''; r2 \<leftarrow> parse_bool_token line ''t2_running'';
          l2 \<leftarrow> parse_u16_token line ''t2_latch''; c2 \<leftarrow> parse_u16_token line ''t2_counter'';
          ap \<leftarrow> parse_bool_token line ''adb_shift_in_progress''; ac \<leftarrow> parse_u64_token line ''adb_shift_complete_cyc'';
          ab \<leftarrow> parse_u8_token line ''adb_last_byte''; at \<leftarrow> parse_u32_token line ''adb_transaction_id'';
          Some \<lparr> orb = v0, ora = v1, ddrb = v2, ddra = v3, t1cl = v4, t1ch = v5, t1ll = v6, t1lh = v7, t2cl = v8, t2ch = v9,
                 sr = v10, acr = v11, pcr = v12, ifr = v13, ier = v14, t1_running = r1, t1_latch = l1, t1_counter = c1,
                 t2_running = r2, t2_latch = l2, t2_counter = c2, adb_shift_in_progress = ap, adb_shift_complete_cyc = ac,
                 adb_last_byte = ab, adb_transaction_id = at \<rparr> }"

definition replay_via1 :: "string \<Rightarrow> arch_replay_checkpoint \<Rightarrow> arch_replay_checkpoint option" where
  "replay_via1 line cp =
     do { w \<leftarrow> replay_via1_regs line; rtc_line \<leftarrow> parse_u32_token line ''rtc_data_line'';
          d \<leftarrow> parse_u64_token line ''via1_timer_div''; k \<leftarrow> parse_u64_token line ''via1_timer_div_ctr'';
          if 1 < rtc_line then None
          else Some (see (\<lambda>s. s\<lparr> has_io_via1 := True \<rparr>)
            (cp\<lparr> cp_io := (cp_io cp)\<lparr> io_via1 := w, via1_timer_div_snapshot := d, via1_timer_div_ctr_snapshot := k,
                   via1_rtc_data_line := rtc_line \<rparr> \<rparr>)) }"

definition replay_q700 :: "string \<Rightarrow> arch_replay_checkpoint \<Rightarrow> arch_replay_checkpoint option" where
  "replay_q700 line cp =
     do { s \<leftarrow> parse_u32_token line ''selected'';
          if 1 < s then None
          else
            do { e \<leftarrow> parse_u32_token line ''entry''; f \<leftarrow> parse_u32_token line ''feature'';
                 Some (see (\<lambda>s. s\<lparr> has_io_q700_descriptor := True \<rparr>)
                   (cp\<lparr> cp_io := (cp_io cp)\<lparr> q700_selected_snapshot := s, q700_entry_snapshot := e,
                          q700_feature_snapshot := f \<rparr> \<rparr>)) } }"

section \<open>Memory segments\<close>

record replay_segment =
  rs_name :: string
  rs_base :: u32
  rs_size :: u64
  rs_encoding :: string
  rs_default :: u8
  rs_active :: bool

definition no_segment :: replay_segment where
  "no_segment = \<lparr> rs_name = [], rs_base = 0, rs_size = 0, rs_encoding = [], rs_default = 0xFF, rs_active = False \<rparr>"

text \<open>Where the data lines of the open segment go: the ROM image, or the memory block from an offset on.\<close>

datatype seg_target = In_Rom | In_Mem nat

record replay_state =
  rp_cp :: arch_replay_checkpoint
  rp_seg :: replay_segment
  rp_target :: "seg_target option"
  rp_target_size :: nat
  rp_rom :: "u8 list"
  rp_raw :: "u8 list"
  wild_store :: bool

definition fill_segment :: "nat \<Rightarrow> nat \<Rightarrow> u8 \<Rightarrow> u8 list \<Rightarrow> u8 list" where
  "fill_segment off n v raw = take off raw @ replicate n v @ drop (off + n) raw"

definition mem_target :: "mem_segment \<Rightarrow> replay_segment \<Rightarrow> replay_state \<Rightarrow> replay_state option" where
  "mem_target g seg st =
     (if rs_base seg \<noteq> ms_base g \<or> unat (rs_size seg) \<noteq> ms_size g then None
      else Some (st\<lparr> rp_target := Some (In_Mem (ms_off g)), rp_target_size := ms_size g,
                     rp_raw := fill_segment (ms_off g) (ms_size g) (rs_default seg) (rp_raw st) \<rparr>))"

definition replay_segment_target :: "mem_layout \<Rightarrow> replay_segment \<Rightarrow> replay_state \<Rightarrow> replay_state option" where
  "replay_segment_target L seg st =
     (if rs_name seg = ''q700-rom'' then
        if rs_base seg \<noteq> Q700_ROM_BASE \<or> rs_size seg = 0 \<or> ucast Q700_ROM_SIZE < rs_size seg then None
        else Some (st\<lparr> rp_target := Some In_Rom, rp_target_size := unat (rs_size seg),
                       rp_rom := replicate (unat (rs_size seg)) (rs_default seg) \<rparr>)
      else if rs_name seg = ''ram'' then mem_target (lay_ram L) seg st
      else if rs_name seg = ''vram'' then mem_target (lay_vram L) seg st
      else if rs_name seg = ''magic'' then mem_target (lay_magic L) seg st
      else None)"

definition see_segment :: "string \<Rightarrow> arch_seen \<Rightarrow> arch_seen" where
  "see_segment name s =
     (if name = ''q700-rom'' then s\<lparr> saw_rom := True \<rparr> else if name = ''ram'' then s\<lparr> saw_ram := True \<rparr>
      else if name = ''vram'' then s\<lparr> saw_vram := True \<rparr> else if name = ''magic'' then s\<lparr> saw_magic := True \<rparr> else s)"

definition map_cp :: "(arch_replay_checkpoint \<Rightarrow> arch_replay_checkpoint) \<Rightarrow> replay_state \<Rightarrow> replay_state" where
  "map_cp f st = st\<lparr> rp_cp := f (rp_cp st) \<rparr>"

definition replay_segment_line :: "mem_layout \<Rightarrow> string \<Rightarrow> replay_state \<Rightarrow> replay_state option" where
  "replay_segment_line L line st =
     do { name \<leftarrow> token_value line ''name''; base \<leftarrow> parse_u32_token line ''base''; len \<leftarrow> parse_u64_token line ''size'';
          enc \<leftarrow> token_value line ''encoding'';
          dflt \<leftarrow> optional_field (\<lambda>t. do { d \<leftarrow> parse_u32_field t; if 0xFF < d then None else Some (ucast d) })
                    line ''default'' 0xFF;
          let seg = \<lparr> rs_name = name, rs_base = base, rs_size = len, rs_encoding = enc, rs_default = dflt, rs_active = True \<rparr> in
          do { st \<leftarrow> replay_segment_target L seg (st\<lparr> rp_seg := seg \<rparr>);
               Some (map_cp (see (see_segment name)) st) } }"

text \<open>A store of \<open>seg_target[i]\<close>, where \<open>i\<close> has wrapped at 64 bits.\<close>

definition poke_target :: "seg_target \<Rightarrow> u64 \<Rightarrow> u8 \<Rightarrow> replay_state \<Rightarrow> replay_state" where
  "poke_target t i v st =
     (case t of
        In_Rom \<Rightarrow>
          if unat i < length (rp_rom st) then st\<lparr> rp_rom := (rp_rom st)[unat i := v] \<rparr> else st\<lparr> wild_store := True \<rparr>
      | In_Mem off \<Rightarrow>
          let j = unat (of_nat off + i) in
          if j < length (rp_raw st) then st\<lparr> rp_raw := (rp_raw st)[j := v] \<rparr> else st\<lparr> wild_store := True \<rparr>)"

fun store_hex :: "seg_target \<Rightarrow> u64 \<Rightarrow> string \<Rightarrow> replay_state \<Rightarrow> replay_state option" where
  "store_hex t off (hi # lo # r) st =
     (case parse_hex_byte_pair hi lo of None \<Rightarrow> None | Some b \<Rightarrow> store_hex t (off + 1) r (poke_target t off b st))"
| "store_hex t off r st = Some st"

definition replay_data_line :: "string \<Rightarrow> replay_state \<Rightarrow> replay_state option" where
  "replay_data_line line st =
     (if \<not> rs_active (rp_seg st) then None
      else
        case rp_target st of
          None \<Rightarrow> None
        | Some t \<Rightarrow>
            do { off \<leftarrow> parse_u64_token line ''off''; bytes \<leftarrow> parse_u32_token line ''bytes''; v \<leftarrow> token_value line ''hex'';
                 if length v \<noteq> 2 * unat bytes \<or> rp_target_size st < unat (off + ucast bytes) then None
                 else store_hex t off v st })"

section \<open>The whole file\<close>

definition starts :: "string \<Rightarrow> string \<Rightarrow> bool" where
  "starts p line \<longleftrightarrow> take (length p) line = p"

definition on_cp :: "(arch_replay_checkpoint \<Rightarrow> arch_replay_checkpoint option) \<Rightarrow> replay_state \<Rightarrow> replay_state option" where
  "on_cp f st = map_option (\<lambda>cp. st\<lparr> rp_cp := cp \<rparr>) (f (rp_cp st))"

definition replay_state_line :: "mem_layout \<Rightarrow> string \<Rightarrow> (arch_replay_checkpoint \<Rightarrow> arch_replay_checkpoint option) option" where
  "replay_state_line L line =
     (if starts ''run '' line then Some (replay_run L line)
      else if starts ''flush '' line then Some (replay_flush line)
      else if starts ''quiesce '' line then Some (replay_quiesce line)
      else if starts ''arch '' line then Some (replay_arch line)
      else if starts ''reg '' line then Some (replay_reg line)
      else if starts ''pc '' line then Some (replay_pc line)
      else if starts ''control '' line then Some (replay_control line)
      else if starts ''mmu '' line then Some (replay_mmu line)
      else if starts ''replay '' line then Some (replay_contract line)
      else if starts ''io via1 '' line then Some (replay_via1 line)
      else if starts ''io q700_descriptor '' line then Some (replay_q700 line)
      else None)"

definition replay_line :: "mem_layout \<Rightarrow> string \<Rightarrow> replay_state \<Rightarrow> replay_state option" where
  "replay_line L line st =
     (if line = [] then Some st
      else if line = FORMAT_LINE then Some (map_cp (see (\<lambda>s. s\<lparr> has_format := True \<rparr>)) st)
      else if line = ''memory begin'' then Some (map_cp (see (\<lambda>s. s\<lparr> saw_memory_begin := True \<rparr>)) st)
      else if line = ''memory end'' then Some (map_cp (see (\<lambda>s. s\<lparr> saw_memory_end := True \<rparr>)) st)
      else if line = END_LINE then Some (map_cp (see (\<lambda>s. s\<lparr> saw_end_format := True \<rparr>)) st)
      else
        case replay_state_line L line of
          Some f \<Rightarrow> on_cp f st
        | None \<Rightarrow>
            if starts ''segment '' line then replay_segment_line L line st
            else if starts ''endsegment '' line then
              Some (st\<lparr> rp_seg := no_segment, rp_target := None, rp_target_size := 0 \<rparr>)
            else if starts ''data '' line then replay_data_line line st
            else Some st)"

fun replay_lines :: "mem_layout \<Rightarrow> string list \<Rightarrow> replay_state \<Rightarrow> replay_state option" where
  "replay_lines L [] st = Some st"
| "replay_lines L (l # ls) st = (case replay_line L l st of None \<Rightarrow> None | Some st \<Rightarrow> replay_lines L ls st)"

definition complete_seen :: "arch_seen \<Rightarrow> bool" where
  "complete_seen s \<longleftrightarrow>
     has_format s \<and> has_run s \<and> has_overlay s \<and> has_flush s \<and> has_quiesce s \<and> has_arch s \<and> has_pc s \<and> has_control s \<and>
     has_mmu s \<and> has_replay s \<and> list_all id (has_reg s) \<and> saw_memory_begin s \<and> saw_memory_end s \<and> saw_end_format s \<and>
     saw_rom s \<and> saw_ram s \<and> saw_vram s \<and> saw_magic s"

definition safe_quiesce :: "arch_quiesce \<Rightarrow> bool" where
  "safe_quiesce q \<longleftrightarrow>
     flush_attempted q = 1 \<and> flush_completed q = 1 \<and> quiesce_rob_empty q = 1 \<and> quiesce_int_iq_count q = 0 \<and>
     quiesce_mem_iq_count q = 0 \<and> quiesce_lsu_busy q = 0 \<and> quiesce_exc_active q = 0 \<and> quiesce_cache_maint_wait q = 0 \<and>
     quiesce_dcache_flush_busy q = 0 \<and> quiesce_flush_queue_empty q = 1"

definition known_contract :: "arch_replay_checkpoint \<Rightarrow> bool" where
  "known_contract cp \<longleftrightarrow>
     (let c = cp_contract cp;
          v1 = (replay_supported c = ''debug_arch_load_v1'' \<and> replay_io_state c = ''reset'');
          v2 = (replay_supported c = ''debug_arch_load_v2'' \<and> replay_io_state c = ''via1-v1'') in
      (v1 \<or> v2) \<and> replay_caches c = ''reset'' \<and> replay_queues c = ''reset'' \<and> replay_predictors c = ''reset'' \<and>
      (v2 \<longrightarrow> has_io_via1 (cp_seen cp)))"

definition accept_replay :: "arch_replay_checkpoint \<Rightarrow> bool" where
  "accept_replay cp \<longleftrightarrow>
     complete_seen (cp_seen cp) \<and> safe_quiesce (cp_quiesce cp) \<and> known_contract cp \<and>
     cp_pc (cp_core cp) \<noteq> 0 \<and> cp_pc (cp_core cp) \<noteq> 0xFFFFFFFF"

definition start_replay :: "mem_layout \<Rightarrow> u8 list \<Rightarrow> u8 list \<Rightarrow> replay_state" where
  "start_replay L rom raw =
     \<lparr> rp_cp = initial_replay L, rp_seg = no_segment, rp_target = None, rp_target_size = 0, rp_rom = rom, rp_raw = raw,
       wild_store = False \<rparr>"

definition parse_arch_replay_checkpoint :: "mem_layout \<Rightarrow> string option \<Rightarrow> u8 list \<Rightarrow> u8 list \<Rightarrow> replay_state option" where
  "parse_arch_replay_checkpoint L file rom raw =
     do { text \<leftarrow> file;
          st \<leftarrow> replay_lines L (file_lines text) (start_replay L rom raw);
          if accept_replay (rp_cp st) then Some st else None }"

section \<open>Loading the state\<close>

definition reset_replay_io_state :: "'m boot \<Rightarrow> 'm boot" where
  "reset_replay_io_state b =
     map_hs (\<lambda>h. h\<lparr> sys := (sys h)\<lparr> overlay := True, via := initial_via1, rtc_chip := rtc_reset 0 \<rparr>, via2_regs := (\<lambda>_. 0),
                    h_asc := initial_asc, h_swim := initial_swim, h_turboscsi := turboscsi_reset,
                    unmapped_write_count := [], unmapped_read_count := [], if_pending := 0, if_addr_q := 0,
                    ax := initial_axi, last_logged_pc := 0, last_same_pc_count := 0 \<rparr>)
       (b\<lparr> q700 := \<lparr> descriptor_selected = False, descriptor_entry = 0, feature_word = 0 \<rparr>,
           arch_next_pc := \<lparr> np_valid = False, np_pc = 0, np_commit_pc = 0, np_committed = 0 \<rparr> \<rparr>)"

definition restore_via1 :: "arch_io \<Rightarrow> via_sys \<Rightarrow> via_sys" where
  "restore_via1 io s =
     s\<lparr> via := io_via1 io, via1_timer_div := (if via1_timer_div_snapshot io \<noteq> 0 then via1_timer_div_snapshot io else 1),
        via1_timer_div_ctr := via1_timer_div_ctr_snapshot io,
        rtc_chip := (rtc_chip s)\<lparr> data_line := via1_rtc_data_line io \<noteq> 0 \<rparr> \<rparr>"

definition restore_io :: "arch_replay_checkpoint \<Rightarrow> 'm boot \<Rightarrow> 'm boot" where
  "restore_io cp b0 =
     (let b = reset_replay_io_state b0;
          b = (if has_io_via1 (cp_seen cp) then map_hs (\<lambda>h. h\<lparr> sys := restore_via1 (cp_io cp) (sys h) \<rparr>) b else b);
          b = (if has_io_q700_descriptor (cp_seen cp) then
                 b\<lparr> q700 := \<lparr> descriptor_selected = q700_selected_snapshot (cp_io cp) \<noteq> 0,
                              descriptor_entry = q700_entry_snapshot (cp_io cp),
                              feature_word = q700_feature_snapshot (cp_io cp) \<rparr> \<rparr> else b);
          b = (if has_visible_ram (cp_seen cp) then map_hs (\<lambda>h. h\<lparr> visible_ram_size := cp_visible_ram cp \<rparr>) b else b) in
      map_hs (\<lambda>h. h\<lparr> sys := (sys h)\<lparr> overlay := cp_overlay cp \<noteq> 0 \<rparr> \<rparr>) b)"

text \<open>The debug loads in the order of the pulses.\<close>

definition replay_loads :: "arch_replay_checkpoint \<Rightarrow> arch_load list" where
  "replay_loads cp =
     (let c = cp_core cp in
      [Load_Pc (cp_pc c)] @ map (\<lambda>i. Load_Reg (of_nat i) (cp_regs c ! i)) [0..<16] @
      [Load_Reg 16 0, Load_Reg 17 0, Load_Reg 18 0, Load_Ccr (cp_ccr c AND 0x1F),
       Load_Ctrl 0 (cp_sr c), Load_Ctrl 1 (cp_vbr c), Load_Ctrl 2 (cp_cacr c), Load_Ctrl 3 (cp_sfc c), Load_Ctrl 4 (cp_dfc c),
       Load_Ctrl 5 (cp_usp c), Load_Ctrl 6 (cp_ssp c), Load_Ctrl 7 (cp_isp c), Load_Ctrl 8 (cp_committed cp),
       Load_Ctrl 9 (cp_commit_pc c),
       Load_Mmu 0 (cp_itt0 c), Load_Mmu 1 (cp_itt1 c), Load_Mmu 2 (cp_dtt0 c), Load_Mmu 3 (cp_dtt1 c), Load_Mmu 4 (cp_tc c),
       Load_Mmu 5 (cp_urp c), Load_Mmu 6 (cp_srp c), Load_Pc (cp_pc c)])"

text \<open>One pulse: a clock with the load, then the combinational evaluation without it.  The data and
  fetch ports are quiet after reset.\<close>

definition quiet_daxi :: daxi_out where
  "quiet_daxi = \<lparr> daxi_arready = False, daxi_rvalid = False, daxi_rlast = False, daxi_rdata = 0, daxi_rresp = 0,
     daxi_awready = False, daxi_wready = False, daxi_bvalid = False, daxi_bresp = 0 \<rparr>"

definition pulse_load :: "'d dut_model \<Rightarrow> arch_load \<Rightarrow> 'd \<times> 'm boot \<Rightarrow> 'd \<times> 'm boot" where
  "pulse_load X l s =
     (dut_eval X idle_ctl (dut_tick X (idle_ctl\<lparr> c_load := l \<rparr>) no_fetch quiet_daxi (fst s)), map_hs tick_cycle (snd s))"

definition finish_replay :: "arch_replay_checkpoint \<Rightarrow> 'm boot \<Rightarrow> 'm boot" where
  "finish_replay cp b =
     map_hs (\<lambda>h. h\<lparr> sim_time := cp_cycle cp, sys := (sys h)\<lparr> host_cycle := cp_cycle cp \<rparr>, test_done := False,
                    h_stop_reason := Arch_Replay_Restored \<rparr>)
       (b\<lparr> arch_next_pc := \<lparr> np_valid = True, np_pc = cp_pc (cp_core cp), np_commit_pc = cp_commit_pc (cp_core cp),
                             np_committed = cp_committed cp \<rparr> \<rparr>)"

definition apply_arch_replay ::
  "'d dut_model \<Rightarrow> 'm mem_image \<Rightarrow> mem_layout \<Rightarrow> patch_list \<Rightarrow> string option \<Rightarrow> 'd \<times> 'm boot \<Rightarrow> ('d \<times> 'm boot) option" where
  "apply_arch_replay X D L patches file s =
     do { let (d, b) = s;
          st \<leftarrow> parse_arch_replay_checkpoint L file (rom_img (hs b)) (mem_data D (h_mem (hs b)));
          let (ok, rom) = apply_active_rom_patches patches (rp_rom st);
          if \<not> ok then None
          else
            let b = map_hs (\<lambda>h. h\<lparr> rom_img := rom, h_mem := mem_load D (rp_raw st) (h_mem h) \<rparr>) b;
                (d, b) = fold (pulse_load X) (replay_loads (rp_cp st)) (d, restore_io (rp_cp st) b) in
            Some (d, finish_replay (rp_cp st) b) }"

end
