(* ===== verification/Arch_Text_Props.thy ===== *)
theory Arch_Text_Props
  imports Arch_Text
begin

unbundle bit_operations_syntax

text \<open>
  The text layer reads back what it writes: numbers through their padded notations, values through
  their keys, bytes through their hexadecimal digits and lines through the buffered reader.

  \<open>token_value\<close> searches for the key as a substring, so a key finds the first token whose own key ends
  in it.  \<open>token_find\<close> says that for every line of tokens whose values do not contain the key.
\<close>

section \<open>Searching\<close>

definition occurs :: "string \<Rightarrow> string \<Rightarrow> bool" where
  "occurs needle s \<longleftrightarrow> find_after needle s \<noteq> None"

lemma find_after_skip:
  "\<forall>i < length xs. take (length needle) (drop i (xs @ ys)) \<noteq> needle \<Longrightarrow> find_after needle (xs @ ys) = find_after needle ys"
proof (induction xs)
  case (Cons x xs)
  have "take (length needle) (drop 0 ((x # xs) @ ys)) \<noteq> needle" using Cons(2) by blast
  moreover have "\<forall>i < length xs. take (length needle) (drop i (xs @ ys)) \<noteq> needle"
    using Cons(2) by (auto dest: spec [of _ "Suc _"])
  ultimately show ?case using Cons(1) by simp
qed simp

lemma find_after_here: "find_after needle (needle @ ys) = Some ys"
  by (cases "needle @ ys") (auto simp: append_eq_Cons_conv)

lemma take_eq_append: "take (length xs) ys = xs \<longleftrightarrow> (\<exists>zs. ys = xs @ zs)"
  by (metis append_eq_conv_conj append_take_drop_id)

text \<open>A key: not empty, without the separators.\<close>

definition is_key :: "string \<Rightarrow> bool" where
  "is_key k \<longleftrightarrow> k \<noteq> [] \<and> CHR ''='' \<notin> set k \<and> CHR '' '' \<notin> set k"

lemma key_before_equals:
  assumes "is_key key" "CHR ''='' \<notin> set xs" "key @ CHR ''='' # zs = xs @ CHR ''='' # ys"
  shows "xs = key \<and> zs = ys"
proof -
  obtain us where "key = xs @ us \<and> us @ CHR ''='' # zs = CHR ''='' # ys \<or> key @ us = xs \<and> CHR ''='' # zs = us @ CHR ''='' # ys"
    using assms(3) unfolding append_eq_append_conv2 by blast
  then show ?thesis using assms(1,2) by (cases us) (auto simp: is_key_def)
qed

lemma find_after_separator:
  assumes "is_key key" "c = CHR '' '' \<or> c = CHR ''=''"
  shows "find_after (key @ ''='') (c # s) = find_after (key @ ''='') s"
  using assms by (cases key) (auto simp: is_key_def)

lemma occurs_iff: "needle \<noteq> [] \<Longrightarrow> occurs needle s \<longleftrightarrow> (\<exists>xs ys. s = xs @ needle @ ys)"
proof (induction s)
  case (Cons c s)
  have "occurs needle (c # s) \<longleftrightarrow> (\<exists>ys. c # s = needle @ ys) \<or> occurs needle s"
    by (simp add: occurs_def take_eq_append)
  also have "\<dots> \<longleftrightarrow> (\<exists>xs ys. c # s = xs @ needle @ ys)"
    unfolding Cons(1) [OF Cons(2)] by (metis append_Cons append_Nil list.exhaust list.sel(3))
  finally show ?case .
qed (simp add: occurs_def)

text \<open>No occurrence of the key begins in a token with another key.\<close>

definition foreign :: "string \<Rightarrow> string \<times> string \<Rightarrow> bool" where
  "foreign key kv \<longleftrightarrow> is_key (fst kv) \<and> (\<nexists>p. fst kv = p @ key) \<and> \<not> occurs (key @ ''='') (snd kv)"

definition separated :: "string \<Rightarrow> bool" where
  "separated ys \<longleftrightarrow> ys = [] \<or> hd ys = CHR '' ''"

lemma separated_tokens [simp]: "separated (print_tokens kvs)"
  by (cases kvs) (simp_all add: separated_def print_tokens_def print_token_def)

lemma no_start_in_value:
  assumes "is_key key" "\<not> occurs (key @ ''='') v" "separated ys" "i < length v"
  shows "take (length (key @ ''='')) (drop i (v @ ys)) \<noteq> key @ ''=''"
proof
  assume "take (length (key @ ''='')) (drop i (v @ ys)) = key @ ''=''"
  then obtain zs where z: "drop i v @ ys = (key @ ''='') @ zs" using assms(4) by (auto simp only: take_eq_append drop_append) auto
  obtain us where "drop i v = (key @ ''='') @ us \<or> drop i v @ us = key @ ''='' \<and> ys = us @ zs"
    using z unfolding append_eq_append_conv2 by blast
  then consider us where "drop i v = (key @ ''='') @ us" | us where "key @ ''='' = drop i v @ us" "ys = us @ zs" "us \<noteq> []"
    by (cases "us = []") (metis append_Nil2, metis)
  then show False
  proof cases
    case 1
    then have "v = take i v @ (key @ ''='') @ us" by (metis append_take_drop_id)
    then show False using assms(2) occurs_iff [of "key @ ''=''" v] by blast
  next
    case 2
    then have "hd us = CHR '' ''" using assms(3) by (cases us) (auto simp: separated_def)
    then have "CHR '' '' \<in> set us" using 2(3) hd_in_set by metis
    then have "CHR '' '' \<in> set (key @ ''='')" unfolding 2(1) by simp
    then show False using assms(1) by (simp add: is_key_def)
  qed
qed

lemma no_start_in_key:
  assumes "is_key key" "CHR ''='' \<notin> set k" "i < length k" "drop i k \<noteq> key"
  shows "take (length (key @ ''='')) (drop i (k @ CHR ''='' # ys)) \<noteq> key @ ''=''"
proof
  assume "take (length (key @ ''='')) (drop i (k @ CHR ''='' # ys)) = key @ ''=''"
  then obtain zs where "drop i k @ CHR ''='' # ys = (key @ ''='') @ zs" using assms(3) by (auto simp only: take_eq_append drop_append) auto
  then have "drop i k = key" using key_before_equals [of key "drop i k" zs ys] assms by (auto dest: in_set_dropD)
  then show False using assms(4) by simp
qed

lemma no_start_in_head:
  assumes "is_key key" "CHR ''='' \<notin> set h" "separated ys" "i < length h"
  shows "take (length (key @ ''='')) (drop i (h @ ys)) \<noteq> key @ ''=''"
proof (rule no_start_in_value [OF assms(1) _ assms(3,4)])
  show "\<not> occurs (key @ ''='') h" using assms(2) occurs_iff [of "key @ ''=''" h] by auto
qed

lemma find_after_head:
  "is_key key \<Longrightarrow> CHR ''='' \<notin> set h \<Longrightarrow> separated ys \<Longrightarrow> find_after (key @ ''='') (h @ ys) = find_after (key @ ''='') ys"
  by (intro find_after_skip allI impI no_start_in_head)

lemma find_after_foreign:
  assumes "is_key key" "foreign key kv" "separated ys"
  shows "find_after (key @ ''='') (print_token kv @ ys) = find_after (key @ ''='') ys"
proof -
  obtain k v where kv: "kv = (k, v)" by (cases kv)
  have k: "CHR ''='' \<notin> set k" "\<And>i. drop i k \<noteq> key" and v: "\<not> occurs (key @ ''='') v"
    using assms(2) by (auto simp: kv foreign_def is_key_def) (metis append_take_drop_id)
  have "find_after (key @ ''='') (k @ CHR ''='' # v @ ys) = find_after (key @ ''='') (CHR ''='' # v @ ys)"
    by (intro find_after_skip allI impI no_start_in_key [OF assms(1) k(1)] k(2))
  moreover have "find_after (key @ ''='') (v @ ys) = find_after (key @ ''='') ys"
    by (intro find_after_skip allI impI no_start_in_value [OF assms(1) v assms(3)])
  ultimately show ?thesis by (simp add: kv print_token_def find_after_separator [OF assms(1)] del: find_after.simps)
qed

lemma find_after_own:
  assumes "is_key key" "is_key (p @ key)"
  shows "find_after (key @ ''='') (print_token (p @ key, v) @ ys) = Some (v @ ys)"
proof -
  have p: "CHR ''='' \<notin> set (p @ key)" using assms(2) by (simp add: is_key_def)
  have "find_after (key @ ''='') (p @ (key @ ''='') @ v @ ys) = find_after (key @ ''='') ((key @ ''='') @ v @ ys)"
  proof (rule find_after_skip, intro allI impI)
    fix i assume i: "i < length p"
    then have "length (drop i (p @ key)) \<noteq> length key" by simp
    then have "drop i (p @ key) \<noteq> key" by metis
    then show "take (length (key @ ''='')) (drop i (p @ (key @ ''='') @ v @ ys)) \<noteq> key @ ''=''"
      using no_start_in_key [OF assms(1) p, of i "v @ ys"] i by simp
  qed
  also have "\<dots> = Some (v @ ys)" by (rule find_after_here)
  finally show ?thesis by (simp add: print_token_def find_after_separator [OF assms(1)] del: find_after.simps)
qed

text \<open>A value that stands for itself: no spaces, no quote in front.\<close>

definition plain :: "string \<Rightarrow> bool" where
  "plain v \<longleftrightarrow> v \<noteq> [] \<and> hd v \<noteq> CHR 0x22 \<and> (\<forall>c \<in> set v. \<not> is_space c)"

lemma takeWhile_separated: "\<forall>c \<in> set v. \<not> is_space c \<Longrightarrow> separated ys \<Longrightarrow> takeWhile (\<lambda>x. \<not> is_space x) (v @ ys) = v"
proof -
  assume v: "\<forall>c \<in> set v. \<not> is_space c" and "separated ys"
  then have "takeWhile (\<lambda>x. \<not> is_space x) ys = []" by (cases ys) (simp_all add: separated_def is_space_def)
  then show ?thesis using v by (simp add: takeWhile_append takeWhile_set)
qed

lemma plain_value: "plain v \<Longrightarrow> separated ys \<Longrightarrow> unquote (raw_value (v @ ys)) = v"
proof -
  assume v: "plain v" and ys: "separated ys"
  obtain c r where c: "v = c # r" using v by (cases v) (auto simp: plain_def)
  have "takeWhile (\<lambda>x. \<not> is_space x) (v @ ys) = v" using v ys by (metis plain_def takeWhile_separated)
  then show ?thesis using v by (simp add: c raw_value_def unquote_def plain_def)
qed

text \<open>The line of the tokens \<open>kvs\<close> behind \<open>head\<close> gives the key the value of its own token.\<close>

lemma token_find:
  assumes "is_key key" "CHR ''='' \<notin> set head" "\<forall>kv \<in> set pre. foreign key kv" "plain v"
  shows "token_value (head @ print_tokens (pre @ (key, v) # post)) key = Some v"
proof -
  have "find_after (key @ ''='') (print_tokens (pre @ kvs)) = find_after (key @ ''='') (print_tokens kvs)"
    if "\<forall>kv \<in> set pre. foreign key kv" for kvs
    using that
  proof (induction pre)
    case (Cons kv pre)
    have "print_tokens ((kv # pre) @ kvs) = print_token kv @ print_tokens (pre @ kvs)" by (simp add: print_tokens_def)
    then show ?case using Cons find_after_foreign [OF assms(1), of kv "print_tokens (pre @ kvs)"] by simp
  qed (simp add: print_tokens_def)
  then have "find_after (key @ ''='') (head @ print_tokens (pre @ (key, v) # post)) =
      find_after (key @ ''='') (print_tokens ((key, v) # post))"
    using assms(3) by (simp only: find_after_head [OF assms(1,2)] separated_tokens)
  also have "print_tokens ((key, v) # post) = print_token ([] @ key, v) @ print_tokens post" by (simp add: print_tokens_def)
  also have "find_after (key @ ''='') \<dots> = Some (v @ print_tokens post)"
    using assms(1) by (intro find_after_own) simp_all
  finally show ?thesis by (simp add: token_value_def plain_value [OF assms(4)])
qed

text \<open>
  Lines whose keys are told apart: no key ends in a later one.  Only the keys decide it, so it is
  evaluated once for each kind of line.
\<close>

definition ends_in :: "string \<Rightarrow> string \<Rightarrow> bool" where
  "ends_in key k \<longleftrightarrow> length key \<le> length k \<and> drop (length k - length key) k = key"

lemma ends_in_iff: "ends_in key k \<longleftrightarrow> (\<exists>p. k = p @ key)"
  by (auto simp: ends_in_def) (metis append_take_drop_id)

fun good_keys :: "string list \<Rightarrow> bool" where
  "good_keys [] = True"
| "good_keys (k # ks) = (is_key k \<and> list_all (\<lambda>k'. \<not> ends_in k' k) ks \<and> good_keys ks)"

definition clean :: "string \<Rightarrow> bool" where
  "clean v \<longleftrightarrow> plain v \<and> CHR ''='' \<notin> set v"

lemma clean_foreign: "is_key k \<Longrightarrow> \<not> ends_in key k \<Longrightarrow> CHR ''='' \<notin> set v \<Longrightarrow> foreign key (k, v)"
  using occurs_iff [of "key @ ''=''" v] by (auto simp: foreign_def ends_in_iff)

lemma token_clean:
  assumes "good_keys (map fst kvs)" "\<forall>v \<in> set (map snd kvs). clean v" "map_of kvs key = Some v" "CHR ''='' \<notin> set head"
  shows "token_value (head @ print_tokens kvs) key = Some v"
proof -
  have "\<exists>pre post. kvs = pre @ (key, v) # post \<and> (\<forall>kv \<in> set pre. foreign key kv) \<and> is_key key"
    using assms(1-3)
  proof (induction kvs)
    case (Cons kv kvs)
    show ?case
    proof (cases "fst kv = key")
      case True
      then have "kv # kvs = [] @ (key, v) # kvs" "is_key key" using Cons(2,4) by (cases kv; simp)+
      then show ?thesis by (metis empty_iff list.set(1))
    next
      case False
      then have m: "map_of kvs key = Some v" using Cons(4) by (cases kv) simp
      then have "key \<in> set (map fst kvs)" by (metis map_of_SomeD fst_conv image_eqI list.set_map)
      then have "foreign key kv" using Cons(2,3) clean_foreign [of "fst kv" key "snd kv"] by (auto simp: list_all_iff clean_def)
      moreover obtain pre post where "kvs = pre @ (key, v) # post" "\<forall>kv \<in> set pre. foreign key kv" "is_key key"
        using Cons m by auto
      ultimately show ?thesis by (intro exI [of _ "kv # pre"] exI [of _ post]) simp
    qed
  qed simp
  moreover have "plain v" using assms(2,3) by (auto dest!: map_of_SomeD simp: clean_def)
  ultimately show ?thesis using token_find assms(4) by blast
qed

lemma token_missing:
  assumes "is_key key" "\<forall>kv \<in> set kvs. foreign key kv" "CHR ''='' \<notin> set head"
  shows "token_value (head @ print_tokens kvs) key = None"
proof -
  have "find_after (key @ ''='') (print_tokens kvs) = None"
    using assms(2)
  proof (induction kvs)
    case (Cons kv kvs)
    have "print_tokens (kv # kvs) = print_token kv @ print_tokens kvs" by (simp add: print_tokens_def)
    then show ?case using Cons find_after_foreign [OF assms(1), of kv "print_tokens kvs"] by simp
  qed (simp add: print_tokens_def)
  then show ?thesis by (simp add: token_value_def find_after_head [OF assms(1,3)])
qed

section \<open>Numbers\<close>

lemma digits_val_zeros: "digits_val b (replicate n (CHR ''0'') @ s) = digits_val b s"
proof -
  have "foldl (\<lambda>a c. a * b + digit_val c) 0 (replicate n (CHR ''0'')) = 0"
    by (induction n) (simp_all add: digit_val_def)
  then show ?thesis by (simp add: digits_val_def)
qed

lemma fmt_hex_ok: "fmt_hex w n \<noteq> [] \<and> (\<forall>c \<in> set (fmt_hex w n). digit_val c < 16) \<and> digits_val 16 (fmt_hex w n) = n"
proof -
  have "digit_val (CHR ''0'') = 0" by (simp add: digit_val_def)
  then show ?thesis using print_digits_ok [of 16 n] by (auto simp: fmt_hex_def Let_def digits_val_zeros)
qed

lemma digit_not_space: "digit_val c < 16 \<Longrightarrow> \<not> is_space c \<and> \<not> is_sign c \<and> c \<noteq> CHR 0x22 \<and> c \<noteq> CHR ''='' \<and> c \<noteq> NEWLINE \<and> c \<noteq> CHR 0x0D \<and> c \<noteq> CHR 0x00"
  by (auto simp: is_space_def is_sign_def digit_val_def Let_def NEWLINE_def)

lemma parse_fmt [simp]:
  assumes "n < 2 ^ 64"
  shows "parse_u64_field (fmt_x w n) = Some (of_nat n)" "parse_u64_field (fmt_u n) = Some (of_nat n)"
  using assms fmt_hex_ok [of w n] stoull_hex [of "fmt_hex w n"] stoull_decimal [of n]
  by (simp_all add: parse_u64_field_def fmt_x_def fmt_u_def)

lemma clean_digits: "v \<noteq> [] \<Longrightarrow> \<forall>c \<in> set v. digit_val c < 16 \<Longrightarrow> clean v"
  using digit_not_space by (auto simp: clean_def plain_def)

lemma clean_fmt [simp]: "clean (fmt_x w n)" "clean (fmt_u n)" "clean (fmt_flag b)"
proof -
  have "\<forall>c \<in> set (fmt_hex w n). \<not> is_space c \<and> c \<noteq> CHR ''=''" using fmt_hex_ok [of w n] digit_not_space by blast
  then show "clean (fmt_x w n)" by (auto simp: clean_def plain_def fmt_x_def is_space_def)
  have "\<forall>c \<in> set (print_digits 10 n). digit_val c < 16" using print_digits_ok [of 10 n] by fastforce
  then show "clean (fmt_u n)" using print_digits_ok [of 10 n] by (simp add: fmt_u_def clean_digits)
  show "clean (fmt_flag b)" by (intro clean_digits) (simp_all add: fmt_flag_def digit_val_def)
qed

lemma parse_fmt_u32 [simp]: "parse_u32_field (fmt_x w (unat (v :: u32))) = Some v" "parse_u32_field (fmt_u (unat v)) = Some v"
proof -
  have "unat v < 2 ^ 32" using unsigned_less [of v] by simp
  then have "unat v < 2 ^ 64" "(of_nat (unat v) :: u64) \<le> 0xFFFFFFFF" "ucast (of_nat (unat v) :: u64) = v"
    by (simp_all add: word_le_nat_alt unat_of_nat take_bit_nat_eq_self unsigned_of_nat word_unat_eq_iff unsigned_ucast_eq take_bit_word_eq_self)
  then show "parse_u32_field (fmt_x w (unat v)) = Some v" "parse_u32_field (fmt_u (unat v)) = Some v"
    by (simp_all add: parse_u32_field_def)
qed

lemma parse_fmt_u64 [simp]: "parse_u64_field (fmt_x w (unat (v :: u64))) = Some v"
proof -
  have "unat v < 2 ^ 64" using unsigned_less [of v] by simp
  then show ?thesis by simp
qed

section \<open>Bytes\<close>

fun read_pairs :: "string \<Rightarrow> u8 list option" where
  "read_pairs [] = Some []"
| "read_pairs [c] = None"
| "read_pairs (hi # lo # r) =
     (case parse_hex_byte_pair hi lo of
        None \<Rightarrow> None
      | Some b \<Rightarrow> map_option ((#) b) (read_pairs r))"

lemma hex_pair [simp]: "parse_hex_byte_pair (hexdigit (drop_bit 4 b)) (hexdigit (b AND 0xF)) = Some b"
proof -
  have b: "unat b < 256" using unsigned_less [of b] by simp
  have h: "unat (drop_bit 4 b) < 16" using b by (simp add: drop_bit_eq_div unat_div)
  have l: "unat (b AND 0xF) < 16"
    using and_mask_less_size [of 4 b] by (simp add: mask_eq_exp_minus_1 word_less_nat_alt size_word_def)
  have "b AND 0xF = take_bit 4 b" by (simp add: take_bit_eq_mask mask_eq_exp_minus_1)
  then have "push_bit 4 (drop_bit 4 b) OR (b AND 0xF) = b"
    by (simp only:) (rule bit_word_eqI, auto simp: bit_simps not_less)
  then show ?thesis using h l by (simp add: parse_hex_byte_pair_def nibble_def hexdigit_def)
qed

lemma read_pairs_hex [simp]: "read_pairs (fprint_hex_bytes bs) = Some bs"
  by (induction bs) (simp_all add: fprint_hex_bytes_def)

lemma length_fprint_hex [simp]: "length (fprint_hex_bytes bs) = 2 * length bs"
  by (induction bs) (simp_all add: fprint_hex_bytes_def)

lemma hexdigit_ok: "digit_val (hexdigit (drop_bit 4 b)) < 16" "digit_val (hexdigit (b AND 0xF)) < 16"
  using hex_pair [of b] by (auto simp: parse_hex_byte_pair_def nibble_def split: if_splits)

lemma clean_hex [simp]: "bs \<noteq> [] \<Longrightarrow> clean (fprint_hex_bytes bs)"
proof (rule clean_digits)
  show "\<forall>c \<in> set (fprint_hex_bytes bs). digit_val c < 16" by (auto simp: fprint_hex_bytes_def hexdigit_ok)
qed (cases bs; simp add: fprint_hex_bytes_def)

section \<open>Lines\<close>

text \<open>A line that survives the reader: short enough for the buffer and without line ends.\<close>

definition line_chars :: "string \<Rightarrow> bool" where
  "line_chars l \<longleftrightarrow> (\<forall>c \<in> set l. c \<noteq> NEWLINE \<and> c \<noteq> CHR 0x0D \<and> c \<noteq> CHR 0x00)"

definition good_line :: "string \<Rightarrow> bool" where
  "good_line l \<longleftrightarrow> length l < 8191 \<and> line_chars l"

lemma fgets_line: "NEWLINE \<notin> set l \<Longrightarrow> length l < n \<Longrightarrow> fgets n (l @ NEWLINE # r) = (l @ [NEWLINE], r)"
proof (induction l arbitrary: n)
  case Nil then show ?case by (cases n) simp_all
next
  case (Cons c l) then show ?case by (cases n) auto
qed

lemma strip_good: "good_line l \<Longrightarrow> strip_line (l @ [NEWLINE]) = l"
proof -
  assume l: "good_line l"
  have "takeWhile (\<lambda>c. c \<noteq> CHR 0x00) (l @ [NEWLINE]) = l @ [NEWLINE]"
    using l by (intro takeWhile_set) (auto simp: good_line_def line_chars_def NEWLINE_def)
  moreover have "dropWhile (\<lambda>c. c = NEWLINE \<or> c = CHR 0x0D) (rev l) = rev l"
  proof (cases "rev l")
    case (Cons c cs)
    then have "c \<in> set l" by (metis list.set_intros(1) set_rev)
    then show ?thesis using l Cons by (simp add: good_line_def line_chars_def)
  qed simp
  ultimately show ?thesis by (simp add: strip_line_def)
qed

lemma file_lines_print: "\<forall>l \<in> set ls. good_line l \<Longrightarrow> file_lines (print_lines ls) = ls"
proof (induction ls)
  case Nil then show ?case by (subst file_lines.simps) (simp add: print_lines_def)
next
  case (Cons l ls)
  have "fgets 8191 (l @ NEWLINE # print_lines ls) = (l @ [NEWLINE], print_lines ls)"
    using Cons(2) by (intro fgets_line) (auto simp: good_line_def line_chars_def)
  moreover have "print_lines (l # ls) = l @ NEWLINE # print_lines ls" by (simp add: print_lines_def)
  ultimately show ?case using Cons by (subst file_lines.simps) (simp add: strip_good)
qed

end
