(* ===== verification/Arch_Segments.thy ===== *)
theory Arch_Segments
  imports Arch_Replay Arch_Text_Props
begin

unbundle bit_operations_syntax

text \<open>
  The memory segments of an architectural checkpoint: the data lines of a full or a sparse segment,
  read back, put exactly the written bytes in place and touch nothing else.
\<close>

section \<open>Overwriting a range\<close>

definition overlay_at :: "nat \<Rightarrow> 'a list \<Rightarrow> 'a list \<Rightarrow> 'a list" where
  "overlay_at off ys xs = take off xs @ ys @ drop (off + length ys) xs"

lemma length_overlay [simp]: "off + length ys \<le> length xs \<Longrightarrow> length (overlay_at off ys xs) = length xs"
  by (simp add: overlay_at_def)

lemma overlay_Nil [simp]: "overlay_at off [] xs = xs"
  by (simp add: overlay_at_def)

lemma overlay_nth:
  "off + length ys \<le> length xs \<Longrightarrow> i < length xs \<Longrightarrow>
    overlay_at off ys xs ! i = (if off \<le> i \<and> i < off + length ys then ys ! (i - off) else xs ! i)"
  by (auto simp: overlay_at_def nth_append min_def)

lemma overlay_Cons:
  "off < length xs \<Longrightarrow> overlay_at off (y # ys) xs = overlay_at (Suc off) ys (xs[off := y])"
  by (simp add: overlay_at_def take_Suc_conv_app_nth upd_conv_take_nth_drop add.commute)

lemma overlay_append:
  "off + length ys + length zs \<le> length xs \<Longrightarrow>
    overlay_at (off + length ys) zs (overlay_at off ys xs) = overlay_at off (ys @ zs) xs"
proof (induction ys arbitrary: off xs)
  case (Cons y ys)
  then have "overlay_at (Suc off + length ys) zs (overlay_at (Suc off) ys (xs[off := y])) = overlay_at (Suc off) (ys @ zs) (xs[off := y])"
    by (intro Cons(1)) simp
  then show ?case using Cons(2) by (simp add: overlay_Cons)
qed simp

lemma overlay_all: "length ys = length xs \<Longrightarrow> overlay_at 0 ys xs = ys"
  by (simp add: overlay_at_def)

section \<open>Data lines\<close>

definition put_bytes :: "seg_target \<Rightarrow> nat \<Rightarrow> u8 list \<Rightarrow> replay_state \<Rightarrow> replay_state" where
  "put_bytes t off bs st =
     (case t of
        In_Rom \<Rightarrow> st\<lparr> rp_rom := overlay_at off bs (rp_rom st) \<rparr>
      | In_Mem base \<Rightarrow> st\<lparr> rp_raw := overlay_at (base + off) bs (rp_raw st) \<rparr>)"

text \<open>The target block reaches \<open>n\<close> bytes far and its addresses do not wrap.\<close>

definition room :: "seg_target \<Rightarrow> nat \<Rightarrow> replay_state \<Rightarrow> bool" where
  "room t n st \<longleftrightarrow>
     (case t of
        In_Rom \<Rightarrow> n \<le> length (rp_rom st) \<and> length (rp_rom st) < 2 ^ 63
      | In_Mem base \<Rightarrow> base + n \<le> length (rp_raw st) \<and> length (rp_raw st) < 2 ^ 63)"

lemma room_put: "room t n st \<Longrightarrow> off + length bs \<le> n \<Longrightarrow> room t n (put_bytes t off bs st)"
  by (cases t) (auto simp: room_def put_bytes_def)

lemma poke_put:
  assumes "room t n st" "off < n"
  shows "poke_target t (of_nat off) b st = put_bytes t off [b] st"
proof -
  have n: "n < 2 ^ 64" using assms(1) by (cases t) (auto simp: room_def)
  then have o: "unat (of_nat off :: u64) = off" using assms(2) by (simp add: unat_of_nat take_bit_nat_eq_self)
  show ?thesis
  proof (cases t)
    case In_Rom
    then show ?thesis using assms o by (simp add: poke_target_def put_bytes_def room_def overlay_Cons)
  next
    case (In_Mem base)
    have "unat (of_nat base + of_nat off :: u64) = base + off"
      using In_Mem assms by (simp add: room_def unat_of_nat take_bit_nat_eq_self flip: of_nat_add)
    then show ?thesis using In_Mem assms by (simp add: poke_target_def put_bytes_def room_def overlay_Cons)
  qed
qed

lemma put_put:
  assumes "room t n st" "off + length xs + length ys \<le> n"
  shows "put_bytes t (off + length xs) ys (put_bytes t off xs st) = put_bytes t off (xs @ ys) st"
proof (cases t)
  case In_Rom
  then show ?thesis using assms by (simp add: put_bytes_def room_def overlay_append)
next
  case (In_Mem base)
  then show ?thesis using assms overlay_append [of "base + off" xs ys "rp_raw st"]
    by (simp add: put_bytes_def room_def add.assoc)
qed

lemma put_Nil [simp]: "put_bytes t off [] st = st"
  by (cases t) (simp_all add: put_bytes_def)

lemma store_hex_put:
  "room t n st \<Longrightarrow> off + length bs \<le> n \<Longrightarrow> store_hex t (of_nat off) (fprint_hex_bytes bs) st = Some (put_bytes t off bs st)"
proof (induction bs arbitrary: off st)
  case Nil then show ?case by (simp add: fprint_hex_bytes_def)
next
  case (Cons b bs)
  have "of_nat off + 1 = (of_nat (Suc off) :: u64)" by simp
  moreover have "room t n (put_bytes t off [b] st)" using Cons(2,3) by (simp add: room_put)
  moreover have "put_bytes t (Suc off) bs (put_bytes t off [b] st) = put_bytes t off (b # bs) st"
    using put_put [OF Cons(2), of off "[b]" bs] Cons(3) by simp
  moreover have "poke_target t (of_nat off) b st = put_bytes t off [b] st" using poke_put [OF Cons(2)] Cons(3) by simp
  ultimately show ?case using Cons(1) [of "put_bytes t off [b] st" "Suc off"] Cons(3)
    by (simp add: fprint_hex_bytes_def del: of_nat_Suc)
qed

definition open_target :: "seg_target \<Rightarrow> nat \<Rightarrow> replay_state \<Rightarrow> bool" where
  "open_target t n st \<longleftrightarrow> rs_active (rp_seg st) \<and> rp_target st = Some t \<and> rp_target_size st = n \<and> room t n st"

lemma open_put: "open_target t n st \<Longrightarrow> off + length bs \<le> n \<Longrightarrow> open_target t n (put_bytes t off bs st)"
  using room_put [of t n st off bs] by (cases t) (auto simp: open_target_def put_bytes_def)

lemma token_keys:
  assumes "good_keys (map fst kvs)" "\<forall>v \<in> set (map snd kvs). clean v" "CHR ''='' \<notin> set head" "key \<in> set (map fst kvs)"
  shows "token_value (head @ print_tokens kvs) key = map_of kvs key"
proof -
  obtain v where "map_of kvs key = Some v" using assms(4) by (auto simp: weak_map_of_SomeI) (metis weak_map_of_SomeI)
  then show ?thesis using token_clean assms by metis
qed

lemma chunk_tokens:
  assumes "bs \<noteq> []" "key \<in> set [''off'', ''bytes'', ''hex'']"
  shows "token_value (chunk_line (off, bs)) key =
    map_of [(''off'', fmt_x 8 off), (''bytes'', fmt_u (length bs)), (''hex'', fprint_hex_bytes bs)] key"
proof -
  have "good_keys [''off'', ''bytes'', ''hex'']" by code_simp
  then show ?thesis
    using token_keys [of "[(''off'', fmt_x 8 off), (''bytes'', fmt_u (length bs)), (''hex'', fprint_hex_bytes bs)]" "''data''" key] assms
    by (simp add: chunk_line_def)
qed

lemma chunk_replay:
  assumes "open_target t n st" "off + length bs \<le> n" "bs \<noteq> []" "length bs < 2 ^ 32"
  shows "replay_data_line (chunk_line (off, bs)) st = Some (put_bytes t off bs st)"
proof -
  note k = chunk_tokens [OF assms(3)]
  have n: "n < 2 ^ 63" using assms(1) by (cases t) (auto simp: open_target_def room_def)
  then have o: "off < 2 ^ 64" "off + length bs < 2 ^ 64" using assms(2) by auto
  have b: "parse_u32_field (fmt_u (length bs)) = Some (of_nat (length bs))"
    using parse_fmt_u32(2) [of "of_nat (length bs)"] assms(4) by (simp add: unat_of_nat take_bit_nat_eq_self)
  have u: "unat (of_nat (length bs) :: u32) = length bs" using assms(4) by (simp add: unat_of_nat take_bit_nat_eq_self)
  then have "ucast (of_nat (length bs) :: u32) = (of_nat (length bs) :: u64)"
    using assms(4) by (simp add: word_unat_eq_iff unsigned_ucast_eq unat_of_nat take_bit_nat_eq_self)
  then have "unat (of_nat off + ucast (of_nat (length bs) :: u32) :: u64) = off + length bs"
    using o by (simp add: unat_of_nat take_bit_nat_eq_self flip: of_nat_add)
  then show ?thesis
    using assms(1,2) o u b store_hex_put [of t n st off bs]
    by (simp add: replay_data_line_def open_target_def parse_u64_token_def parse_u32_token_def k)
qed

section \<open>Chunks\<close>

definition put_chunks :: "seg_target \<Rightarrow> (nat \<times> u8 list) list \<Rightarrow> replay_state \<Rightarrow> replay_state" where
  "put_chunks t cs st = fold (\<lambda>c. put_bytes t (fst c) (snd c)) cs st"

lemma put_chunks_simps [simp]:
  "put_chunks t [] st = st" "put_chunks t (c # cs) st = put_chunks t cs (put_bytes t (fst c) (snd c) st)"
  by (simp_all add: put_chunks_def)

lemma dispatch_data: "replay_line L (''data '' @ r) st = replay_data_line (''data '' @ r) st"
  by (simp add: replay_line_def replay_state_line_def starts_def FORMAT_LINE_def END_LINE_def)

lemma chunk_line_head: "\<exists>r. chunk_line c = ''data '' @ r"
  by (simp add: chunk_line_def print_tokens_def print_token_def)

lemma replay_chunks:
  assumes "open_target t n st" "\<forall>c \<in> set cs. fst c + length (snd c) \<le> n \<and> snd c \<noteq> [] \<and> length (snd c) < 2 ^ 32"
  shows "replay_lines L (map chunk_line cs @ ls) st = replay_lines L ls (put_chunks t cs st) \<and> open_target t n (put_chunks t cs st)"
  using assms
proof (induction cs arbitrary: st)
  case (Cons c cs)
  have "replay_line L (chunk_line c) st = replay_data_line (chunk_line c) st" using dispatch_data chunk_line_head by metis
  also have "\<dots> = Some (put_bytes t (fst c) (snd c) st)" using chunk_replay [OF Cons(2), of "fst c" "snd c"] Cons(3) by simp
  finally show ?case using Cons open_put [OF Cons(2), of "fst c" "snd c"] by simp
qed simp

declare full_chunks.simps [simp del]

lemma full_chunks_Nil [simp]: "full_chunks off [] = []"
  by (simp add: full_chunks.simps)

lemma full_chunks_step: "data \<noteq> [] \<Longrightarrow> full_chunks off data = (off, take 32 data) # full_chunks (off + 32) (drop 32 data)"
  by (simp add: full_chunks.simps [of off data])

lemma full_chunks_ok:
  "c \<in> set (full_chunks off data) \<Longrightarrow> fst c + length (snd c) \<le> off + length data \<and> snd c \<noteq> [] \<and> length (snd c) \<le> 32"
proof (induction off data rule: full_chunks.induct)
  case (1 off data)
  show ?case
  proof (cases "data = []")
    case True then show ?thesis using 1(2) by simp
  next
    case False
    then consider "c = (off, take 32 data)" | "c \<in> set (full_chunks (off + 32) (drop 32 data))"
      using 1(2) by (auto simp: full_chunks_step)
    then show ?thesis
    proof cases
      case 1 then show ?thesis using False by simp
    next
      case 2
      then have "drop 32 data \<noteq> []" by auto
      then show ?thesis using 1(1) [OF False 2] by simp
    qed
  qed
qed

lemma put_full:
  "room t n st \<Longrightarrow> off + length data \<le> n \<Longrightarrow> put_chunks t (full_chunks off data) st = put_bytes t off data st"
proof (induction off data arbitrary: st rule: full_chunks.induct)
  case (1 off data)
  show ?case
  proof (cases "data = []")
    case True then show ?thesis by simp
  next
    case False
    let ?st = "put_bytes t off (take 32 data) st"
    have r: "room t n ?st" using 1(2,3) by (intro room_put) simp_all
    have "put_chunks t (full_chunks (off + 32) (drop 32 data)) ?st = put_bytes t (off + 32) (drop 32 data) ?st"
    proof (cases "32 \<le> length data")
      case True then show ?thesis using 1(1) [OF False r] 1(3) by simp
    next
      case short: False
      then show ?thesis by simp
    qed
    also have "\<dots> = put_bytes t off data st"
    proof (cases "32 \<le> length data")
      case True then show ?thesis using put_put [OF 1(2), of off "take 32 data" "drop 32 data"] 1(3) by simp
    next
      case short: False
      then show ?thesis by simp
    qed
    finally show ?thesis using False by (simp add: full_chunks_step)
  qed
qed

lemma sparse_run:
  fixes b dflt :: u8 and data :: "u8 list"
  assumes "b \<noteq> dflt"
  defines "run \<equiv> takeWhile (\<lambda>x. x \<noteq> dflt) (take 32 (b # data))"
  shows "run \<noteq> []" "length run \<le> 32" "length run \<le> length (b # data)" "take (length run) (b # data) = run"
proof -
  show "run \<noteq> []" using assms by (simp add: run_def)
  have "length run \<le> length (take 32 (b # data))" unfolding run_def by (rule length_takeWhile_le)
  then show "length run \<le> 32" "length run \<le> length (b # data)" by simp_all
  then show "take (length run) (b # data) = run" unfolding run_def by (metis takeWhile_eq_take take_take min.absorb1)
qed

lemma sparse_chunks_ok:
  "c \<in> set (sparse_chunks dflt off data) \<Longrightarrow> fst c + length (snd c) \<le> off + length data \<and> snd c \<noteq> [] \<and> length (snd c) \<le> 32"
proof (induction dflt off data rule: sparse_chunks.induct)
  case (2 dflt off b data)
  show ?case
  proof (cases "b = dflt")
    case True then show ?thesis using 2(1,3) by simp
  next
    case False
    let ?run = "takeWhile (\<lambda>x. x \<noteq> dflt) (take 32 (b # data))"
    consider "c = (off, ?run)" | "c \<in> set (sparse_chunks dflt (off + length ?run) (drop (length ?run) (b # data)))"
      using 2(3) False unfolding sparse_chunks.simps Let_def by auto
    then show ?thesis
    proof cases
      case 1 then show ?thesis using sparse_run [OF False, of data] by simp
    next
      case c: 2
      show ?thesis using 2(2) [OF False refl c] sparse_run(3) [OF False, of data] by simp
    qed
  qed
qed simp

lemma put_over:
  assumes "room t n st" "off + length ys + length zs \<le> n" "length xs = length ys"
  shows "put_bytes t off xs (put_bytes t off (ys @ zs) st) = put_bytes t off (xs @ zs) st"
proof -
  have "overlay_at k xs (overlay_at k (ys @ zs) l) = overlay_at k (xs @ zs) l" if "k + length ys + length zs \<le> length l"
    for k and l :: "u8 list"
    using that assms(3) by (simp add: overlay_at_def add.assoc)
  then show ?thesis using assms by (cases t) (auto simp: put_bytes_def room_def)
qed

text \<open>Over a range that holds the default, the chunks put all of the data.\<close>

lemma put_sparse:
  "room t n st \<Longrightarrow> off + length data \<le> n \<Longrightarrow>
    put_chunks t (sparse_chunks dflt off data) (put_bytes t off (replicate (length data) dflt) st) = put_bytes t off data st"
proof (induction dflt off data arbitrary: st rule: sparse_chunks.induct)
  case (1 dflt off) then show ?case by simp
next
  case (2 dflt off b data)
  show ?case
  proof (cases "b = dflt")
    case True
    have "put_bytes t (Suc off) xs (put_bytes t off [b] st) = put_bytes t off (b # xs) st" if "length xs = length data" for xs
      using put_put [OF 2(3), of off "[b]" xs] 2(4) that by simp
    moreover have "room t n (put_bytes t off [b] st)" using 2(3,4) by (intro room_put) simp_all
    ultimately show ?thesis using 2(1) [OF True, of "put_bytes t off [b] st"] 2(4) True by simp
  next
    case False
    let ?run = "takeWhile (\<lambda>x. x \<noteq> dflt) (take 32 (b # data))"
    let ?rest = "drop (length ?run) (b # data)" and ?fill = "\<lambda>k. replicate k dflt" and ?st = "put_bytes t off ?run st"
    note run = sparse_run [OF False, of data]
    have l: "length (b # data) = length ?run + length ?rest" using run(3) by simp
    then have fill: "?fill (length (b # data)) = ?fill (length ?run) @ ?fill (length ?rest)" by (simp only: replicate_add)
    have "put_bytes t off ?run (put_bytes t off (?fill (length (b # data))) st) = put_bytes t off (?run @ ?fill (length ?rest)) st"
      unfolding fill using 2(3,4) l by (intro put_over) simp_all
    also have "\<dots> = put_bytes t (off + length ?run) (?fill (length ?rest)) ?st"
      using put_put [OF 2(3), of off ?run "?fill (length ?rest)"] 2(4) l by simp
    finally have "put_chunks t (sparse_chunks dflt off (b # data)) (put_bytes t off (?fill (length (b # data))) st) =
        put_chunks t (sparse_chunks dflt (off + length ?run) ?rest) (put_bytes t (off + length ?run) (?fill (length ?rest)) ?st)"
      using False unfolding sparse_chunks.simps Let_def by (simp del: take.simps drop.simps takeWhile.simps replicate.simps list.size take_Cons_numeral)
    also have "\<dots> = put_bytes t (off + length ?run) ?rest ?st"
    proof (rule 2(2) [OF False refl])
      show "room t n ?st" using 2(3,4) l by (intro room_put) simp_all
      show "off + length ?run + length ?rest \<le> n" using 2(4) l by simp
    qed
    also have "\<dots> = put_bytes t off (?run @ ?rest) st" using put_put [OF 2(3), of off ?run ?rest] 2(4) l by simp
    also have "?run @ ?rest = b # data" using run(4) by (metis append_take_drop_id)
    finally show ?thesis .
  qed
qed

section \<open>Segments\<close>

lemma dispatch_segment:
  "replay_line L (''segment '' @ r) st = replay_segment_line L (''segment '' @ r) st"
  "replay_line L (''endsegment '' @ r) st = Some (st\<lparr> rp_seg := no_segment, rp_target := None, rp_target_size := 0 \<rparr>)"
  by (simp_all add: replay_line_def replay_state_line_def starts_def FORMAT_LINE_def END_LINE_def)

lemma tokens_head: "kvs \<noteq> [] \<Longrightarrow> \<exists>r. head @ print_tokens kvs = (head @ '' '') @ r"
  by (cases kvs) (simp_all add: print_tokens_def print_token_def)

text \<open>After the whole segment: the bytes are in place, the segment is seen and closed.\<close>

definition closed :: "replay_state \<Rightarrow> replay_state" where
  "closed st = st\<lparr> rp_seg := no_segment, rp_target := None, rp_target_size := 0 \<rparr>"

lemma fmt_len: "length data < 2 ^ 64 \<Longrightarrow> parse_u64_field (fmt_x 8 (length data)) = Some (of_nat (length data))"
  by simp

lemma full_header:
  assumes "data \<noteq> []" "length data \<le> unat Q700_ROM_SIZE"
  defines "line \<equiv> ''segment'' @ print_tokens (segment_tokens ''q700-rom'' Q700_ROM_BASE data ''hex-full'' @
    [(''chunk_bytes'', ''32''), (''checksum_fnv1a64'', fmt_x 16 (unat (fnv1a64_bytes data)))])"
  obtains seg where "rs_active seg" "replay_segment_line L line st =
    Some (map_cp (see (see_segment ''q700-rom'')) (st\<lparr> rp_seg := seg, rp_target := Some In_Rom, rp_target_size := length data,
      rp_rom := replicate (length data) 0xFF \<rparr>))"
proof -
  let ?kvs = "segment_tokens ''q700-rom'' Q700_ROM_BASE data ''hex-full'' @
    [(''chunk_bytes'', ''32''), (''checksum_fnv1a64'', fmt_x 16 (unat (fnv1a64_bytes data)))]"
  have "good_keys [''name'', ''base'', ''size'', ''encoding'', ''chunk_bytes'', ''checksum_fnv1a64'']" by code_simp
  moreover have c: "clean ''q700-rom''" "clean ''hex-full''" "clean ''32''" by code_simp+
  ultimately have g: "good_keys (map fst ?kvs)" and v: "\<forall>v \<in> set (map snd ?kvs). clean v"
    by (simp only: segment_tokens_def append.simps list.map fst_conv) (use c in \<open>simp add: segment_tokens_def\<close>)
  have k: "token_value line key = map_of ?kvs key" if "key \<in> set [''name'', ''base'', ''size'', ''encoding'']" for key
  proof -
    have "key \<in> set (map fst ?kvs)" using that by (auto simp: segment_tokens_def)
    then show ?thesis unfolding line_def by (intro token_keys g v) simp_all
  qed
  have fmt_no_equals: "CHR ''='' \<notin> set (fmt_x w x)" for w x using clean_fmt(1) [of w x] by (simp add: clean_def)
  have "is_key ''default'' \<and> list_all (\<lambda>k. is_key k \<and> \<not> ends_in ''default'' k)
      [''name'', ''base'', ''size'', ''encoding'', ''chunk_bytes'', ''checksum_fnv1a64'']" by code_simp
  then have d: "token_value line ''default'' = None"
    unfolding line_def using c by (intro token_missing) (auto simp: segment_tokens_def fmt_no_equals intro!: clean_foreign)
  have n: "length data < 2 ^ 64" "of_nat (length data) \<noteq> (0 :: u64)" "\<not> ucast Q700_ROM_SIZE < (of_nat (length data) :: u64)"
    "unat (of_nat (length data) :: u64) = length data"
    using assms(1,2) by (auto simp: Q700_ROM_SIZE_def word_less_nat_alt unat_of_nat take_bit_nat_eq_self word_unat_eq_iff)
  let ?seg = "\<lparr> rs_name = ''q700-rom'', rs_base = Q700_ROM_BASE, rs_size = of_nat (length data), rs_encoding = ''hex-full'',
    rs_default = 0xFF, rs_active = True \<rparr>"
  have "map_of ?kvs ''name'' = Some ''q700-rom''" "map_of ?kvs ''base'' = Some (fmt_x 8 (unat Q700_ROM_BASE))"
    "map_of ?kvs ''size'' = Some (fmt_x 8 (length data))" "map_of ?kvs ''encoding'' = Some ''hex-full''"
    by (simp_all add: segment_tokens_def)
  then have "replay_segment_line L line st = Some (map_cp (see (see_segment ''q700-rom''))
      (st\<lparr> rp_seg := ?seg, rp_target := Some In_Rom, rp_target_size := length data, rp_rom := replicate (length data) 0xFF \<rparr>))"
    using n by (simp add: replay_segment_line_def parse_u32_token_def parse_u64_token_def k d optional_field_def
        replay_segment_target_def)
  then show thesis using that [of ?seg] by simp
qed

text \<open>The sparse header of a memory segment.\<close>

definition seg_name :: "mem_layout \<Rightarrow> string \<Rightarrow> mem_segment \<Rightarrow> bool" where
  "seg_name L name g \<longleftrightarrow>
     name = ''ram'' \<and> g = lay_ram L \<or> name = ''vram'' \<and> g = lay_vram L \<or> name = ''magic'' \<and> g = lay_magic L"

lemma seg_name_clean: "seg_name L name g \<Longrightarrow> clean name"
proof -
  have "clean ''ram''" "clean ''vram''" "clean ''magic''" by code_simp+
  then show "seg_name L name g \<Longrightarrow> clean name" by (auto simp: seg_name_def)
qed

lemma seg_name_target: "seg_name L name g \<Longrightarrow> rs_name seg = name \<Longrightarrow> replay_segment_target L seg st = mem_target g seg st"
  by (auto simp: seg_name_def replay_segment_target_def)

lemma sparse_header:
  fixes dflt :: u8 and mat cnt chk :: nat
  assumes "seg_name L name g" "length data = ms_size g" "ms_size g < 2 ^ 63"
  defines "line \<equiv> ''segment'' @ print_tokens (segment_tokens name (ms_base g) data ''sparse-hex'' @
    [(''default'', fmt_x 2 (unat dflt)), (''chunk_bytes'', ''32''), (''material_bytes'', fmt_u mat), (''chunks'', fmt_u cnt),
     (''checksum_fnv1a64'', fmt_x 16 chk)])"
  obtains seg where "rs_active seg" "replay_segment_line L line st =
    Some (map_cp (see (see_segment name)) (st\<lparr> rp_seg := seg, rp_target := Some (In_Mem (ms_off g)), rp_target_size := ms_size g,
      rp_raw := fill_segment (ms_off g) (ms_size g) dflt (rp_raw st) \<rparr>))"
proof -
  let ?kvs = "segment_tokens name (ms_base g) data ''sparse-hex'' @
    [(''default'', fmt_x 2 (unat dflt)), (''chunk_bytes'', ''32''), (''material_bytes'', fmt_u mat), (''chunks'', fmt_u cnt),
     (''checksum_fnv1a64'', fmt_x 16 chk)]"
  have "good_keys [''name'', ''base'', ''size'', ''encoding'', ''default'', ''chunk_bytes'', ''material_bytes'', ''chunks'',
      ''checksum_fnv1a64'']" by code_simp
  moreover have c: "clean ''sparse-hex''" "clean ''32''" "clean name" using seg_name_clean [OF assms(1)] by (code_simp, code_simp, simp)
  ultimately have g: "good_keys (map fst ?kvs)" and v: "\<forall>v \<in> set (map snd ?kvs). clean v"
    by (simp only: segment_tokens_def append.simps list.map fst_conv) (use c in \<open>simp add: segment_tokens_def\<close>)
  have k: "token_value line key = map_of ?kvs key" if "key \<in> set [''name'', ''base'', ''size'', ''encoding'', ''default'']" for key
  proof -
    have "key \<in> set (map fst ?kvs)" using that by (auto simp: segment_tokens_def)
    then show ?thesis unfolding line_def by (intro token_keys g v) simp_all
  qed
  have n: "length data < 2 ^ 64" "unat (of_nat (length data) :: u64) = length data"
    using assms(2,3) by (auto simp: unat_of_nat take_bit_nat_eq_self)
  have u: "unat dflt = unat (ucast dflt :: u32)" by (simp add: unsigned_ucast_eq)
  have "unat dflt < 256" using unsigned_less [of dflt] by simp
  then have d: "\<not> 0xFF < (ucast dflt :: u32)" "ucast (ucast dflt :: u32) = dflt"
    by (simp_all add: word_less_nat_alt unsigned_ucast_eq word_unat_eq_iff take_bit_word_eq_self)
  have d32: "parse_u32_field (fmt_x 2 (unat dflt)) = Some (ucast dflt)" unfolding u by (rule parse_fmt_u32)
  let ?seg = "\<lparr> rs_name = name, rs_base = ms_base g, rs_size = of_nat (length data), rs_encoding = ''sparse-hex'',
    rs_default = dflt, rs_active = True \<rparr>"
  have "map_of ?kvs ''name'' = Some name" "map_of ?kvs ''base'' = Some (fmt_x 8 (unat (ms_base g)))"
    "map_of ?kvs ''size'' = Some (fmt_x 8 (length data))" "map_of ?kvs ''encoding'' = Some ''sparse-hex''"
    "map_of ?kvs ''default'' = Some (fmt_x 2 (unat dflt))"
    by (simp_all add: segment_tokens_def)
  then have "replay_segment_line L line st = Some (map_cp (see (see_segment name))
      (st\<lparr> rp_seg := ?seg, rp_target := Some (In_Mem (ms_off g)), rp_target_size := ms_size g,
           rp_raw := fill_segment (ms_off g) (ms_size g) dflt (rp_raw st) \<rparr>))"
    using n assms(2) by (simp add: replay_segment_line_def parse_u32_token_def parse_u64_token_def k d d32 optional_field_def
        seg_name_target [OF assms(1)] mem_target_def)
  then show thesis using that [of ?seg] by simp
qed

lemma replay_line_head:
  assumes "kvs \<noteq> []"
  shows "replay_line L (''segment'' @ print_tokens kvs) st = replay_segment_line L (''segment'' @ print_tokens kvs) st"
    "replay_line L (''endsegment'' @ print_tokens kvs) st = Some (closed st)"
  using tokens_head [OF assms, of "''segment''"] tokens_head [OF assms, of "''endsegment''"] dispatch_segment
  by (auto simp: closed_def)

lemma put_updates [simp]:
  "put_bytes t off bs (map_cp f st) = map_cp f (put_bytes t off bs st)"
  "closed (map_cp f st) = map_cp f (closed st)"
  "open_target t n (map_cp f st) = open_target t n st"
  by (cases t; simp add: put_bytes_def map_cp_def closed_def open_target_def room_def)+

lemma put_chunks_map_cp [simp]: "put_chunks t cs (map_cp f st) = map_cp f (put_chunks t cs st)"
  by (induction cs arbitrary: st) simp_all

lemma replay_full_segment:
  assumes "data \<noteq> []" "length data \<le> unat Q700_ROM_SIZE"
  shows "replay_lines L (write_full_segment ''q700-rom'' Q700_ROM_BASE data @ ls) st =
    replay_lines L ls (map_cp (see (see_segment ''q700-rom'')) (closed (st\<lparr> rp_rom := data \<rparr>)))"
proof -
  let ?hdr = "''segment'' @ print_tokens (segment_tokens ''q700-rom'' Q700_ROM_BASE data ''hex-full'' @
    [(''chunk_bytes'', ''32''), (''checksum_fnv1a64'', fmt_x 16 (unat (fnv1a64_bytes data)))])"
  let ?tail = "''endsegment'' @ print_tokens [(''name'', ''q700-rom'')]"
  obtain seg where seg: "rs_active seg" and h: "replay_segment_line L ?hdr st =
    Some (map_cp (see (see_segment ''q700-rom'')) (st\<lparr> rp_seg := seg, rp_target := Some In_Rom, rp_target_size := length data,
      rp_rom := replicate (length data) 0xFF \<rparr>))"
    using full_header [OF assms] by blast
  let ?st = "st\<lparr> rp_seg := seg, rp_target := Some In_Rom, rp_target_size := length data, rp_rom := replicate (length data) 0xFF \<rparr>"
  have o: "open_target In_Rom (length data) ?st"
    using seg assms(2) by (simp add: open_target_def room_def Q700_ROM_SIZE_def)
  have "put_chunks In_Rom (full_chunks 0 data) ?st = put_bytes In_Rom 0 data ?st"
    using o by (intro put_full [of _ "length data"]) (simp_all add: open_target_def)
  also have "\<dots> = ?st\<lparr> rp_rom := data \<rparr>" by (simp add: put_bytes_def overlay_all)
  finally have "closed (put_chunks In_Rom (full_chunks 0 data) ?st) = closed (st\<lparr> rp_rom := data \<rparr>)" by (simp add: closed_def)
  moreover have "replay_lines L (map chunk_line (full_chunks 0 data) @ rest) (map_cp f ?st) =
      replay_lines L rest (map_cp f (put_chunks In_Rom (full_chunks 0 data) ?st))" for rest f
    using replay_chunks [of In_Rom "length data" "map_cp f ?st" "full_chunks 0 data" L rest] o full_chunks_ok [of _ 0 data]
    by (fastforce simp: order_le_less_trans)
  moreover have "replay_line L ?hdr st = Some (map_cp (see (see_segment ''q700-rom'')) ?st)" using h by (subst replay_line_head) simp_all
  moreover have "replay_line L ?tail x = Some (closed x)" for x by (rule replay_line_head) simp
  moreover have "write_full_segment ''q700-rom'' Q700_ROM_BASE data @ ls = ?hdr # map chunk_line (full_chunks 0 data) @ ?tail # ls"
    by (simp only: write_full_segment_def append.simps append_assoc)
  ultimately show ?thesis by (simp only: replay_lines.simps option.case put_updates)
qed

lemma fill_overlay: "fill_segment off n v raw = overlay_at off (replicate n v) raw"
  by (simp add: fill_segment_def overlay_at_def)

lemma replay_sparse_segment:
  assumes "seg_name L name g" "length data = ms_size g" "ms_off g + ms_size g \<le> length (rp_raw st)" "length (rp_raw st) < 2 ^ 63"
  shows "replay_lines L (write_sparse_segment name (ms_base g) data dflt @ ls) st =
    replay_lines L ls (map_cp (see (see_segment name)) (closed (st\<lparr> rp_raw := overlay_at (ms_off g) data (rp_raw st) \<rparr>)))"
proof -
  let ?cs = "sparse_chunks dflt 0 data" and ?t = "In_Mem (ms_off g)" and ?n = "ms_size g"
  let ?hdr = "''segment'' @ print_tokens (segment_tokens name (ms_base g) data ''sparse-hex'' @
    [(''default'', fmt_x 2 (unat dflt)), (''chunk_bytes'', ''32''), (''material_bytes'', fmt_u (sum_list (map (length \<circ> snd) ?cs))),
     (''chunks'', fmt_u (length ?cs)), (''checksum_fnv1a64'', fmt_x 16 (unat (fnv1a64_bytes data)))])"
  let ?tail = "''endsegment'' @ print_tokens [(''name'', name)]"
  have n: "?n < 2 ^ 63" using assms(3,4) by simp
  obtain seg where seg: "rs_active seg" and h: "replay_segment_line L ?hdr st =
    Some (map_cp (see (see_segment name)) (st\<lparr> rp_seg := seg, rp_target := Some ?t, rp_target_size := ?n,
      rp_raw := fill_segment (ms_off g) ?n dflt (rp_raw st) \<rparr>))"
    using sparse_header [OF assms(1,2) n] by blast
  let ?base = "st\<lparr> rp_seg := seg, rp_target := Some ?t, rp_target_size := ?n \<rparr>"
  let ?st = "put_bytes ?t 0 (replicate (length data) dflt) ?base"
  have st: "st\<lparr> rp_seg := seg, rp_target := Some ?t, rp_target_size := ?n,
      rp_raw := fill_segment (ms_off g) ?n dflt (rp_raw st) \<rparr> = ?st"
    by (simp add: put_bytes_def fill_overlay assms(2))
  have r: "room ?t ?n ?base" using assms(3,4) by (simp add: room_def)
  have "room ?t ?n ?st" by (rule room_put [OF r]) (simp add: assms(2))
  then have o: "open_target ?t ?n ?st" using seg by (simp add: open_target_def put_bytes_def)
  have "put_chunks ?t ?cs ?st = put_bytes ?t 0 data ?base" using r assms(2) by (intro put_sparse [of _ ?n]) simp_all
  then have "closed (put_chunks ?t ?cs ?st) = closed (st\<lparr> rp_raw := overlay_at (ms_off g) data (rp_raw st) \<rparr>)"
    by (simp add: put_bytes_def closed_def)
  moreover have "replay_lines L (map chunk_line ?cs @ rest) (map_cp f ?st) =
      replay_lines L rest (map_cp f (put_chunks ?t ?cs ?st))" for rest f
    using replay_chunks [of ?t ?n "map_cp f ?st" ?cs L rest] o sparse_chunks_ok [of _ dflt 0 data] assms(2)
    by (fastforce simp: order_le_less_trans)
  moreover have "replay_line L ?hdr st = Some (map_cp (see (see_segment name)) ?st)" using h st by (subst replay_line_head) simp_all
  moreover have "replay_line L ?tail x = Some (closed x)" for x by (rule replay_line_head) simp
  moreover have "write_sparse_segment name (ms_base g) data dflt @ ls = ?hdr # map chunk_line ?cs @ ?tail # ls"
    by (simp only: write_sparse_segment_def Let_def append.simps append_assoc)
  ultimately show ?thesis by (simp only: replay_lines.simps option.case put_updates)
qed

end
