(* ===== verification/Arch_Replay_Lines.thy ===== *)
theory Arch_Replay_Lines
  imports Arch_Segments
begin

unbundle bit_operations_syntax

text \<open>
  Each line of state an architectural checkpoint holds, read back by its case of the replay parser.
\<close>

section \<open>Dispatch\<close>

lemma dispatch_state:
  "replay_line L (''run '' @ r) st = on_cp (replay_run L (''run '' @ r)) st"
  "replay_line L (''flush '' @ r) st = on_cp (replay_flush (''flush '' @ r)) st"
  "replay_line L (''quiesce '' @ r) st = on_cp (replay_quiesce (''quiesce '' @ r)) st"
  "replay_line L (''arch '' @ r) st = on_cp (replay_arch (''arch '' @ r)) st"
  "replay_line L (''reg '' @ r) st = on_cp (replay_reg (''reg '' @ r)) st"
  "replay_line L (''pc '' @ r) st = on_cp (replay_pc (''pc '' @ r)) st"
  "replay_line L (''control '' @ r) st = on_cp (replay_control (''control '' @ r)) st"
  "replay_line L (''mmu '' @ r) st = on_cp (replay_mmu (''mmu '' @ r)) st"
  "replay_line L (''replay '' @ r) st = on_cp (replay_contract (''replay '' @ r)) st"
  "replay_line L (''io via1 '' @ r) st = on_cp (replay_via1 (''io via1 '' @ r)) st"
  "replay_line L (''io q700_descriptor '' @ r) st = on_cp (replay_q700 (''io q700_descriptor '' @ r)) st"
  by (simp_all add: replay_line_def replay_state_line_def starts_def FORMAT_LINE_def END_LINE_def)

lemma dispatch_ignored:
  "replay_line L (''producer '' @ r) st = Some st"
  "replay_line L (''endianness '' @ r) st = Some st"
  "replay_line L (''gap '' @ r) st = Some st"
  "replay_line L (''rom_patch '' @ r) st = Some st"
  by (simp_all add: replay_line_def replay_state_line_def starts_def FORMAT_LINE_def END_LINE_def)

lemma token_line_head: "kvs \<noteq> [] \<Longrightarrow> \<exists>r. token_line head kvs = (head @ '' '') @ r"
  unfolding token_line_def by (rule tokens_head)

lemma dispatch_tokens:
  assumes "kvs \<noteq> []"
  shows "replay_line L (token_line ''run'' kvs) st = on_cp (replay_run L (token_line ''run'' kvs)) st"
    "replay_line L (token_line ''flush'' kvs) st = on_cp (replay_flush (token_line ''flush'' kvs)) st"
    "replay_line L (token_line ''quiesce'' kvs) st = on_cp (replay_quiesce (token_line ''quiesce'' kvs)) st"
    "replay_line L (token_line ''arch'' kvs) st = on_cp (replay_arch (token_line ''arch'' kvs)) st"
    "replay_line L (token_line ''pc'' kvs) st = on_cp (replay_pc (token_line ''pc'' kvs)) st"
    "replay_line L (token_line ''control'' kvs) st = on_cp (replay_control (token_line ''control'' kvs)) st"
    "replay_line L (token_line ''mmu'' kvs) st = on_cp (replay_mmu (token_line ''mmu'' kvs)) st"
    "replay_line L (token_line ''replay'' kvs) st = on_cp (replay_contract (token_line ''replay'' kvs)) st"
    "replay_line L (token_line ''io via1'' kvs) st = on_cp (replay_via1 (token_line ''io via1'' kvs)) st"
    "replay_line L (token_line ''io q700_descriptor'' kvs) st = on_cp (replay_q700 (token_line ''io q700_descriptor'' kvs)) st"
    "replay_line L (token_line ''rom_patch'' kvs) st = Some st"
  using token_line_head [OF assms, of "''run''"] token_line_head [OF assms, of "''flush''"]
    token_line_head [OF assms, of "''quiesce''"] token_line_head [OF assms, of "''arch''"]
    token_line_head [OF assms, of "''pc''"] token_line_head [OF assms, of "''control''"]
    token_line_head [OF assms, of "''mmu''"] token_line_head [OF assms, of "''replay''"]
    token_line_head [OF assms, of "''io via1''"] token_line_head [OF assms, of "''io q700_descriptor''"]
    token_line_head [OF assms, of "''rom_patch''"]
  by (auto simp: dispatch_state [simplified] dispatch_ignored [simplified])

section \<open>Values\<close>

lemma line_tokens:
  assumes "map fst kvs = ks" "good_keys ks" "list_all clean (map snd kvs)" "CHR ''='' \<notin> set head"
  shows "\<forall>key \<in> set ks. token_value (token_line head kvs) key = map_of kvs key"
  unfolding token_line_def using assms by (intro ballI token_keys) (auto simp: list_all_iff)

lemma line_field:
  assumes "\<forall>key \<in> set ks. token_value line key = map_of kvs key" "key \<in> set ks"
  shows "token_value line key = map_of kvs key"
    "parse_u32_token line key = Option.bind (map_of kvs key) parse_u32_field"
    "parse_u64_token line key = Option.bind (map_of kvs key) parse_u64_field"
  using assms by (simp_all add: parse_u32_token_def parse_u64_token_def)

lemma parse_flag [simp]: "parse_u32_field (fmt_flag b) = Some (of_bool b)"
proof -
  have "digit_char 0 = CHR ''0''" "digit_char (Suc 0) = CHR ''1''" by code_simp+
  then have "fmt_flag b = fmt_u (unat (of_bool b :: u32))" by (cases b) (simp_all add: fmt_flag_def fmt_u_def print_digits.simps)
  then show ?thesis by simp
qed

lemma parse_narrow [simp]:
  "parse_u32_field (fmt_x w (unat (v :: u8))) = Some (ucast v)" "parse_u32_field (fmt_x w (unat (x :: u16))) = Some (ucast x)"
proof -
  have "unat x < 65536" using unsigned_less [of x] by simp
  then have "unat v = unat (ucast v :: u32)" "unat x = unat (ucast x :: u32)" by (simp_all add: unsigned_ucast_eq take_bit_nat_eq_self)
  then show "parse_u32_field (fmt_x w (unat v)) = Some (ucast v)" "parse_u32_field (fmt_x w (unat x)) = Some (ucast x)"
    using parse_fmt_u32(1) by metis+
qed

lemma narrow_bounds [simp]:
  "\<not> 0xFF < (ucast (v :: u8) :: u32)" "\<not> 0xFFFF < (ucast (x :: u16) :: u32)"
  "ucast (ucast v :: u32) = v" "ucast (ucast x :: u32) = x" "\<not> 1 < (of_bool b :: u32)" "((of_bool b :: u32) = 0) = (\<not> b)"
proof -
  have "unat v < 256" "unat x < 65536" using unsigned_less [of v] unsigned_less [of x] by simp_all
  then show "\<not> 0xFF < (ucast v :: u32)" "\<not> 0xFFFF < (ucast x :: u32)" by (simp_all add: word_less_nat_alt unsigned_ucast_eq take_bit_nat_eq_self)
qed (simp_all add: word_unat_eq_iff unsigned_ucast_eq take_bit_word_eq_self word_less_nat_alt)

section \<open>The lines\<close>

lemma flush_line:
  "replay_flush (token_line ''flush'' (flush_tokens r)) cp =
     Some (see (\<lambda>s. s\<lparr> has_flush := True \<rparr>) (cp\<lparr> cp_quiesce := (cp_quiesce cp)\<lparr>
       flush_attempted := of_bool (fr_attempted r), flush_completed := of_bool (fr_completed r) \<rparr> \<rparr>))"
proof -
  have k: "\<forall>key \<in> set [''attempted'', ''completed'', ''start_cycle'', ''end_cycle'', ''start_committed'', ''end_committed''].
    token_value (token_line ''flush'' (flush_tokens r)) key = map_of (flush_tokens r) key"
    by (rule line_tokens) (simp add: flush_tokens_def, code_simp, simp_all add: flush_tokens_def)
  then show ?thesis by (simp add: replay_flush_def parse_u32_token_def) (simp add: flush_tokens_def)
qed

lemma quiesce_line:
  "replay_quiesce (token_line ''quiesce'' (quiesce_tokens v)) cp =
     Some (see (\<lambda>s. s\<lparr> has_quiesce := True \<rparr>) (cp\<lparr> cp_quiesce := (cp_quiesce cp)\<lparr>
       quiesce_rob_empty := of_bool (av_rob_head v AND 0x3F = av_rob_tail v AND 0x3F),
       quiesce_int_iq_count := av_int_iq v AND 0xF, quiesce_mem_iq_count := av_mem_iq v AND 0xF,
       quiesce_lsu_busy := of_bool (av_lsu_busy v), quiesce_exc_active := of_bool (av_exc_active v),
       quiesce_cache_maint_wait := of_bool (av_cache_maint_wait v),
       quiesce_dcache_flush_busy := of_bool (11 \<le> av_dcache_state v),
       quiesce_flush_queue_empty := of_bool (\<not> av_fq_valid0 v \<and> \<not> av_fq_valid1 v) \<rparr> \<rparr>))"
proof -
  have k: "\<forall>key \<in> set [''rob_empty'', ''rob_head'', ''rob_tail'', ''int_iq_count'', ''mem_iq_count'', ''lsu_busy'', ''exc_active'', ''cache_maint_wait'', ''dcache_flush_busy'', ''flush_queue_empty''].
    token_value (token_line ''quiesce'' (quiesce_tokens v)) key = map_of (quiesce_tokens v) key"
    by (rule line_tokens) (simp add: quiesce_tokens_def Let_def, code_simp, simp_all add: quiesce_tokens_def Let_def)
  let ?l = "token_line ''quiesce'' (quiesce_tokens v)"
  have "parse_u32_token ?l ''rob_empty'' = Some (of_bool (av_rob_head v AND 0x3F = av_rob_tail v AND 0x3F))"
    "parse_u32_token ?l ''int_iq_count'' = Some (av_int_iq v AND 0xF)"
    "parse_u32_token ?l ''mem_iq_count'' = Some (av_mem_iq v AND 0xF)"
    "parse_u32_token ?l ''lsu_busy'' = Some (of_bool (av_lsu_busy v))"
    "parse_u32_token ?l ''exc_active'' = Some (of_bool (av_exc_active v))"
    "parse_u32_token ?l ''cache_maint_wait'' = Some (of_bool (av_cache_maint_wait v))"
    "parse_u32_token ?l ''dcache_flush_busy'' = Some (of_bool (11 \<le> av_dcache_state v))"
    "parse_u32_token ?l ''flush_queue_empty'' = Some (of_bool (\<not> av_fq_valid0 v \<and> \<not> av_fq_valid1 v))"
    by (simp_all add: line_field [OF k]) (simp_all add: quiesce_tokens_def Let_def)
  then show ?thesis by (simp only: replay_quiesce_def bind.bind_lunit)
qed

lemma arch_line:
  "replay_arch (token_line ''arch'' (arch_tokens v)) cp =
     Some (see (\<lambda>s. s\<lparr> has_arch := True \<rparr>)
       (cp\<lparr> cp_core := (cp_core cp)\<lparr> cp_ccr := av_ccr v AND 0x1F, cp_sr := saved_sr v \<rparr> \<rparr>))"
proof -
  have "clean ''commit_arch_sr_15_5_plus_ccr_rat''" by code_simp
  then have k: "\<forall>key \<in> set [''ccr'', ''sr'', ''sr_source''].
    token_value (token_line ''arch'' (arch_tokens v)) key = map_of (arch_tokens v) key"
    by - (rule line_tokens, simp add: arch_tokens_def, code_simp, simp_all add: arch_tokens_def)
  then show ?thesis by (simp add: replay_arch_def parse_u32_token_def) (simp add: arch_tokens_def)
qed

lemma pc_line:
  assumes "np_valid n"
  shows "replay_pc (token_line ''pc'' (pc_tokens v n)) cp =
     Some (see (\<lambda>s. s\<lparr> has_pc := True \<rparr>)
       (cp\<lparr> cp_core := (cp_core cp)\<lparr> cp_pc := np_pc n, cp_commit_pc := np_commit_pc n \<rparr> \<rparr>))"
proof -
  have c: "clean ''1''" "clean ''debug_boundary_or_last_observed_retire''" by code_simp+
  have one: "parse_u32_field ''1'' = Some 1" using parse_flag [of True] by (simp add: fmt_flag_def)
  have k: "\<forall>key \<in> set [''next_valid'', ''next'', ''source'', ''commit_pc'', ''committed'', ''fetch_dbg_pc'', ''dbg_last_pc''].
    token_value (token_line ''pc'' (pc_tokens v n)) key = map_of (pc_tokens v n) key"
    using assms c by - (rule line_tokens, simp add: pc_tokens_def, code_simp, simp_all add: pc_tokens_def)
  let ?l = "token_line ''pc'' (pc_tokens v n)"
  have "parse_u32_token ?l ''next_valid'' = Some 1" "parse_u32_token ?l ''next'' = Some (np_pc n)"
    "parse_u32_token ?l ''commit_pc'' = Some (np_commit_pc n)"
    by (simp_all add: line_field [OF k]) (simp_all add: pc_tokens_def assms one)
  then show ?thesis by (simp add: replay_pc_def)
qed

lemma pc_line_unknown:
  assumes "\<not> np_valid n"
  shows "replay_pc (token_line ''pc'' (pc_tokens v n)) cp = None"
proof -
  have c: "clean ''0''" "clean ''unknown''" "clean ''not_observed''" by code_simp+
  have zero: "parse_u32_field ''0'' = Some 0" using parse_flag [of False] by (simp add: fmt_flag_def)
  have k: "\<forall>key \<in> set [''next_valid'', ''next'', ''source'', ''fetch_dbg_pc'', ''dbg_last_pc''].
    token_value (token_line ''pc'' (pc_tokens v n)) key = map_of (pc_tokens v n) key"
    using assms c by - (rule line_tokens, simp add: pc_tokens_def, code_simp, simp_all add: pc_tokens_def)
  then show ?thesis by (simp add: replay_pc_def parse_u32_token_def) (simp add: pc_tokens_def zero assms)
qed

lemma control_line:
  "replay_control (token_line ''control'' (control_tokens v)) cp =
     Some (see (\<lambda>s. s\<lparr> has_control := True \<rparr>) (cp\<lparr> cp_core := (cp_core cp)\<lparr> cp_vbr := av_vbr v, cp_cacr := av_cacr v,
       cp_sfc := av_sfc v, cp_dfc := av_dfc v, cp_usp := av_usp v, cp_ssp := av_ssp v, cp_isp := av_isp v \<rparr> \<rparr>))"
proof -
  have k: "\<forall>key \<in> set [''vbr'', ''cacr'', ''sfc'', ''dfc'', ''usp'', ''ssp'', ''isp''].
    token_value (token_line ''control'' (control_tokens v)) key = map_of (control_tokens v) key"
    by (rule line_tokens) (simp add: control_tokens_def, code_simp, simp_all add: control_tokens_def)
  then show ?thesis by (simp add: replay_control_def parse_u32_token_def) (simp add: control_tokens_def)
qed

lemma mmu_line:
  "replay_mmu (token_line ''mmu'' (mmu_tokens v)) cp =
     Some (see (\<lambda>s. s\<lparr> has_mmu := True \<rparr>) (cp\<lparr> cp_core := (cp_core cp)\<lparr> cp_tc := av_tc v, cp_itt0 := av_itt0 v,
       cp_itt1 := av_itt1 v, cp_dtt0 := av_dtt0 v, cp_dtt1 := av_dtt1 v, cp_urp := av_urp v, cp_srp := av_srp v \<rparr> \<rparr>))"
proof -
  have k: "\<forall>key \<in> set [''tc'', ''itt0'', ''itt1'', ''dtt0'', ''dtt1'', ''urp'', ''srp''].
    token_value (token_line ''mmu'' (mmu_tokens v)) key = map_of (mmu_tokens v) key"
    by (rule line_tokens) (simp add: mmu_tokens_def, code_simp, simp_all add: mmu_tokens_def)
  then show ?thesis by (simp add: replay_mmu_def parse_u32_token_def) (simp add: mmu_tokens_def)
qed

lemma contract_line:
  "replay_contract (token_line ''replay'' replay_tokens) cp =
     Some (see (\<lambda>s. s\<lparr> has_replay := True \<rparr>) (cp\<lparr> cp_contract := \<lparr> replay_supported = ''debug_arch_load_v2'',
       replay_io_state = ''via1-v1'', replay_io_restore = ''partial-via1-v1'', replay_caches = ''reset'',
       replay_queues = ''reset'', replay_predictors = ''reset'' \<rparr> \<rparr>))"
proof -
  have k: "\<forall>key \<in> set [''supported'', ''io_state'', ''io_restore'', ''caches'', ''queues'', ''predictors''].
    token_value (token_line ''replay'' replay_tokens) key = map_of replay_tokens key"
    by (rule line_tokens) (simp add: replay_tokens_def, code_simp, code_simp, simp)
  then show ?thesis by (simp add: replay_contract_def) (simp add: replay_tokens_def)
qed

lemma q700_line:
  "replay_q700 (token_line ''io q700_descriptor'' (q700_tokens q)) cp =
     Some (see (\<lambda>s. s\<lparr> has_io_q700_descriptor := True \<rparr>) (cp\<lparr> cp_io := (cp_io cp)\<lparr>
       q700_selected_snapshot := of_bool (descriptor_selected q), q700_entry_snapshot := descriptor_entry q,
       q700_feature_snapshot := feature_word q \<rparr> \<rparr>))"
proof -
  have k: "\<forall>key \<in> set [''selected'', ''entry'', ''feature''].
    token_value (token_line ''io q700_descriptor'' (q700_tokens q)) key = map_of (q700_tokens q) key"
    by (rule line_tokens) (simp add: q700_tokens_def, code_simp, simp_all add: q700_tokens_def)
  let ?l = "token_line ''io q700_descriptor'' (q700_tokens q)"
  have "parse_u32_token ?l ''selected'' = Some (of_bool (descriptor_selected q))"
    "parse_u32_token ?l ''entry'' = Some (descriptor_entry q)" "parse_u32_token ?l ''feature'' = Some (feature_word q)"
    by (simp_all add: line_field [OF k]) (simp_all add: q700_tokens_def)
  then show ?thesis by (simp add: replay_q700_def)
qed

lemma via1_line:
  "replay_via1 (token_line ''io via1'' (via1_tokens s)) cp =
     Some (see (\<lambda>s. s\<lparr> has_io_via1 := True \<rparr>) (cp\<lparr> cp_io := (cp_io cp)\<lparr> io_via1 := via s,
       via1_timer_div_snapshot := via1_timer_div s, via1_timer_div_ctr_snapshot := via1_timer_div_ctr s,
       via1_rtc_data_line := of_bool (data_line (rtc_chip s)) \<rparr> \<rparr>))"
proof -
  let ?l = "token_line ''io via1'' (via1_tokens s)"
  have k: "\<forall>key \<in> set [''orb'', ''ora'', ''ddrb'', ''ddra'', ''t1cl'', ''t1ch'', ''t1ll'', ''t1lh'', ''t2cl'', ''t2ch'', ''sr'',
      ''acr'', ''pcr'', ''ifr'', ''ier'', ''t1_running'', ''t1_latch'', ''t1_counter'', ''t2_running'', ''t2_latch'', ''t2_counter'',
      ''adb_shift_in_progress'', ''adb_shift_complete_cyc'', ''adb_last_byte'', ''adb_transaction_id'', ''rtc_data_line'',
      ''via1_timer_div'', ''via1_timer_div_ctr'']. token_value ?l key = map_of (via1_tokens s) key"
    by (rule line_tokens) (simp add: via1_tokens_def Let_def, code_simp, simp_all add: via1_tokens_def Let_def)
  have "parse_u32_token ?l ''orb'' = Some (ucast (orb (via s)))" "parse_u32_token ?l ''ora'' = Some (ucast (ora (via s)))"
    "parse_u32_token ?l ''ddrb'' = Some (ucast (ddrb (via s)))" "parse_u32_token ?l ''ddra'' = Some (ucast (ddra (via s)))"
    "parse_u32_token ?l ''t1cl'' = Some (ucast (t1cl (via s)))" "parse_u32_token ?l ''t1ch'' = Some (ucast (t1ch (via s)))"
    "parse_u32_token ?l ''t1ll'' = Some (ucast (t1ll (via s)))" "parse_u32_token ?l ''t1lh'' = Some (ucast (t1lh (via s)))"
    "parse_u32_token ?l ''t2cl'' = Some (ucast (t2cl (via s)))" "parse_u32_token ?l ''t2ch'' = Some (ucast (t2ch (via s)))"
    "parse_u32_token ?l ''sr'' = Some (ucast (sr (via s)))" "parse_u32_token ?l ''acr'' = Some (ucast (acr (via s)))"
    "parse_u32_token ?l ''pcr'' = Some (ucast (pcr (via s)))" "parse_u32_token ?l ''ifr'' = Some (ucast (ifr (via s)))"
    "parse_u32_token ?l ''ier'' = Some (ucast (ier (via s)))" "parse_u32_token ?l ''t1_running'' = Some (of_bool (t1_running (via s)))"
    "parse_u32_token ?l ''t1_latch'' = Some (ucast (t1_latch (via s)))"
    "parse_u32_token ?l ''t1_counter'' = Some (ucast (t1_counter (via s)))"
    "parse_u32_token ?l ''t2_running'' = Some (of_bool (t2_running (via s)))"
    "parse_u32_token ?l ''t2_latch'' = Some (ucast (t2_latch (via s)))"
    "parse_u32_token ?l ''t2_counter'' = Some (ucast (t2_counter (via s)))"
    "parse_u32_token ?l ''adb_shift_in_progress'' = Some (of_bool (adb_shift_in_progress (via s)))"
    "parse_u64_token ?l ''adb_shift_complete_cyc'' = Some (adb_shift_complete_cyc (via s))"
    "parse_u32_token ?l ''adb_last_byte'' = Some (ucast (adb_last_byte (via s)))"
    "parse_u32_token ?l ''adb_transaction_id'' = Some (adb_transaction_id (via s))"
    "parse_u32_token ?l ''rtc_data_line'' = Some (of_bool (data_line (rtc_chip s)))"
    "parse_u64_token ?l ''via1_timer_div'' = Some (via1_timer_div s)"
    "parse_u64_token ?l ''via1_timer_div_ctr'' = Some (via1_timer_div_ctr s)"
    by (simp_all add: line_field [OF k]) (simp_all add: via1_tokens_def Let_def)
  moreover from this have "replay_via1_regs ?l = Some (via s)"
    by (cases "via s") (simp add: replay_via1_regs_def parse_u8_token_def parse_u16_token_def parse_bool_token_def)
  ultimately show ?thesis by (simp add: replay_via1_def)
qed

lemma reg_line_replay:
  assumes "i < 8" "kind = CHR ''d'' \<and> idx = i \<or> kind = CHR ''a'' \<and> idx = 8 + i"
  shows "replay_line L (reg_line kind i x) st =
    on_cp (\<lambda>cp. Some (see (\<lambda>s. s\<lparr> has_reg := (has_reg s)[idx := True] \<rparr>)
      (cp\<lparr> cp_core := (cp_core cp)\<lparr> cp_regs := (cp_regs (cp_core cp))[idx := x] \<rparr> \<rparr>))) st"
proof -
  have "fmt_u i = [digit_char i]" using assms(1) by (simp add: fmt_u_def print_digits.simps)
  then have l: "reg_line kind i x = ''reg '' @ kind # digit_char i # ''='' @ fmt_x 8 (unat x)" by (simp add: reg_line_def)
  have "(of_char (digit_char i) :: nat) = 48 + i" using assms(1) by (simp add: digit_char_def of_char_of take_bit_nat_def)
  then have c: "(of_char (digit_char i) :: int) = 48 + int i" by (metis of_nat_add of_nat_numeral of_nat_of_char)
  have "fmt_x 8 (unat x) \<noteq> []" using clean_fmt(1) [of 8 "unat x"] by (auto simp: clean_def plain_def)
  then have "0 < length (fmt_x 8 (unat x))" by simp
  moreover have "nat (int i) = i" by simp
  ultimately have "replay_reg (reg_line kind i x) cp = Some (see (\<lambda>s. s\<lparr> has_reg := (has_reg s)[idx := True] \<rparr>)
      (cp\<lparr> cp_core := (cp_core cp)\<lparr> cp_regs := (cp_regs (cp_core cp))[idx := x] \<rparr> \<rparr>))" for cp
    using assms by (auto simp: l replay_reg_def c Let_def)
  moreover have "replay_line L (reg_line kind i x) st = on_cp (replay_reg (reg_line kind i x)) st"
    unfolding l by (rule dispatch_state)
  ultimately show ?thesis by (simp add: on_cp_def)
qed

section \<open>The line of the run\<close>

text \<open>The stop messages do not hold the keys that follow them.\<close>

lemma find_missing:
  assumes "is_key key" "\<forall>kv \<in> set kvs. foreign key kv" "CHR ''='' \<notin> set head"
  shows "\<not> occurs (key @ ''='') (head @ print_tokens kvs)"
  using token_missing [OF assms] by (simp add: token_value_def occurs_def)

lemma occurs_quoted:
  assumes "needle \<noteq> []" "hd needle \<noteq> CHR 0x22" "last needle \<noteq> CHR 0x22" "occurs needle (quoted s)"
  shows "occurs needle s"
proof -
  obtain xs ys where x: "CHR 0x22 # s @ [CHR 0x22] = xs @ needle @ ys"
    using assms(4) occurs_iff [OF assms(1)] by (auto simp: quoted_def)
  then obtain xs' where xs: "xs = CHR 0x22 # xs'" using assms(1,2) by (cases xs; cases needle) auto
  obtain ys' where ys: "ys = ys' @ [CHR 0x22]"
  proof (cases ys rule: rev_cases)
    case Nil
    then have "last (CHR 0x22 # s @ [CHR 0x22]) = last needle" using assms(1) unfolding x by simp
    then show ?thesis using assms(3) by simp
  next
    case (snoc zs z)
    then have "last (CHR 0x22 # s @ [CHR 0x22]) = z" unfolding x by simp
    then show ?thesis using snoc that by simp
  qed
  have "s = xs' @ needle @ ys'" using x unfolding xs ys by simp
  then show ?thesis using occurs_iff [OF assms(1)] by blast
qed

end
