(* ===== verification/Arch_Replay_Props.thy ===== *)
theory Arch_Replay_Props
  imports Arch_Replay_Lines
begin

unbundle bit_operations_syntax

text \<open>
  An architectural checkpoint that the harness saves is accepted by the replay and gives back every
  register, the adapter and each byte of the ROM and of the three memory segments.
\<close>

section \<open>Stop messages\<close>

definition REASON_KEYS :: "string list" where
  "REASON_KEYS = [''class'', ''source'', ''vec'', ''handler_pc'', ''fault_pc'', ''fault_addr'', ''committed'', ''boundary_seq'', ''addr'',
     ''dbg_pc'', ''dbg_last_pc'', ''pc'', ''repeats'', ''threshold'', ''cycles'', ''hit'', ''code'', ''d7'', ''d0'', ''d1'', ''d3'', ''d4'']"

lemma length_print_digits: "2 \<le> b \<Longrightarrow> n < b ^ k \<Longrightarrow> 0 < k \<Longrightarrow> length (print_digits b n) \<le> k"
proof (induction k arbitrary: n)
  case (Suc k)
  show ?case
  proof (cases "n < b")
    case True then show ?thesis by (simp add: print_digits.simps)
  next
    case False
    then have "print_digits b n = print_digits b (n div b) @ [digit_char (n mod b)]" using Suc(2) by (subst print_digits.simps) simp
    moreover have "0 < k" using False Suc(3) by (cases k) simp_all
    moreover have "n div b < b ^ k" using Suc(2,3) by (simp add: less_mult_imp_div_less mult.commute)
    ultimately show ?thesis using Suc(1,2) by simp
  qed
qed simp

text \<open>Values that fit a line easily.\<close>

definition short :: "string \<Rightarrow> bool" where
  "short v \<longleftrightarrow> length v \<le> 40 \<and> line_chars v"

lemma digits_line_chars: "\<forall>c \<in> set v. digit_val c < 16 \<Longrightarrow> line_chars v"
  using digit_not_space by (auto simp: line_chars_def)

lemma short_fmt [simp]:
  "n < 2 ^ 64 \<Longrightarrow> w \<le> 16 \<Longrightarrow> short (fmt_x w n)" "n < 2 ^ 64 \<Longrightarrow> short (fmt_u n)" "short (fmt_flag b)"
proof -
  show "short (fmt_flag b)" by (simp add: fmt_flag_def short_def line_chars_def NEWLINE_def)
  assume n: "n < 2 ^ 64"
  have "line_chars (fmt_hex w n)" using fmt_hex_ok [of w n] by (intro digits_line_chars) simp
  then have "line_chars (fmt_x w n)" by (simp add: line_chars_def fmt_x_def NEWLINE_def)
  moreover have "length (print_digits 16 n) \<le> 16" using n by (intro length_print_digits) simp_all
  ultimately show "w \<le> 16 \<Longrightarrow> short (fmt_x w n)" by (simp add: short_def fmt_x_def fmt_hex_def Let_def)
  have "n < 10 ^ 20" using n by simp
  then have "length (print_digits 10 n) \<le> 20" by (intro length_print_digits) simp_all
  moreover have "line_chars (print_digits 10 n)" using print_digits_ok [of 10 n] by (intro digits_line_chars) fastforce
  ultimately show "short (fmt_u n)" by (simp add: short_def fmt_u_def)
qed

lemma short_words [simp]:
  "w \<le> 16 \<Longrightarrow> short (fmt_x w (unat (a :: u32)))" "short (fmt_u (unat (a :: u32)))" "w \<le> 16 \<Longrightarrow> short (fmt_x w (unat (x :: u64)))"
  "short (fmt_u (unat x))" "w \<le> 16 \<Longrightarrow> short (fmt_x w (unat (v :: u8)))" "short (fmt_u (unat v))"
  "w \<le> 16 \<Longrightarrow> short (fmt_x w (unat (y :: u16)))"
proof -
  have "unat a < 2 ^ 32" "unat x < 2 ^ 64" "unat v < 2 ^ 8" "unat y < 2 ^ 16"
    using unsigned_less [of a] unsigned_less [of x] unsigned_less [of v] unsigned_less [of y] by simp_all
  then have "unat a < 2 ^ 64" "unat x < 2 ^ 64" "unat v < 2 ^ 64" "unat y < 2 ^ 64" by simp_all
  then show "w \<le> 16 \<Longrightarrow> short (fmt_x w (unat a))" "short (fmt_u (unat a))" "w \<le> 16 \<Longrightarrow> short (fmt_x w (unat x))"
    "short (fmt_u (unat x))" "w \<le> 16 \<Longrightarrow> short (fmt_x w (unat v))" "short (fmt_u (unat v))"
    "w \<le> 16 \<Longrightarrow> short (fmt_x w (unat y))" by (simp_all only: short_fmt)
qed

lemma fmt_no_equals [simp]: "CHR ''='' \<notin> set (fmt_x w n)" "CHR ''='' \<notin> set (fmt_u n)"
  using clean_fmt(1) [of w n] clean_fmt(2) [of n] by (simp_all add: clean_def)

lemma class_value: "CHR ''='' \<notin> set (rom_exception_class v) \<and> short (rom_exception_class v)"
  by (simp add: rom_exception_class_def short_def line_chars_def NEWLINE_def)

lemma reason_tokens:
  "\<forall>kv \<in> set (snd (reason_parts dbg r)). fst kv \<in> set REASON_KEYS \<and> CHR ''='' \<notin> set (snd kv) \<and> short (snd kv)"
proof (cases r)
qed (simp_all add: REASON_KEYS_def berr_tokens_def hit_tokens_def stuck_tokens_def idle_tokens_def exc_tokens_def class_value
    Let_def split_beta, simp_all add: short_def line_chars_def NEWLINE_def)

lemma reason_shape:
  "length (snd (reason_parts dbg r)) \<le> 8 \<and> length (fst (reason_parts dbg r)) \<le> 30 \<and> line_chars (fst (reason_parts dbg r)) \<and>
    CHR ''='' \<notin> set (fst (reason_parts dbg r))"
  by (cases r) (simp_all add: berr_tokens_def hit_tokens_def stuck_tokens_def idle_tokens_def exc_tokens_def line_chars_def
      NEWLINE_def Let_def split_beta)

lemma reason_avoids:
  assumes "key \<in> set [''overlay'', ''visible_ram'']"
  shows "\<not> occurs (key @ ''='') (quoted (reason_text dbg r))"
proof
  have keys: "list_all (\<lambda>k. is_key k \<and> \<not> ends_in ''overlay'' k \<and> \<not> ends_in ''visible_ram'' k) REASON_KEYS" by code_simp
  have key: "is_key key" "key \<noteq> []" "hd key \<noteq> CHR 0x22" using assms by (auto simp: is_key_def)
  assume "occurs (key @ ''='') (quoted (reason_text dbg r))"
  then have "occurs (key @ ''='') (reason_text dbg r)"
  proof (rule occurs_quoted [rotated 3])
    show "hd (key @ ''='') \<noteq> CHR 0x22" using key(2,3) by (simp add: hd_append)
  qed simp_all
  moreover have "\<forall>kv \<in> set (snd (reason_parts dbg r)). foreign key kv"
  proof
    fix kv assume "kv \<in> set (snd (reason_parts dbg r))"
    then have "fst kv \<in> set REASON_KEYS" "CHR ''='' \<notin> set (snd kv)" using reason_tokens by blast+
    then show "foreign key kv" using keys assms clean_foreign [of "fst kv" key "snd kv"] by (auto simp: list_all_iff)
  qed
  ultimately show False
    using find_missing [OF key(1), of "snd (reason_parts dbg r)" "fst (reason_parts dbg r)"] reason_shape
    by (simp add: reason_text_def split_beta)
qed

section \<open>Lines that the reader takes whole\<close>

lemma line_chars_append [simp]:
  "line_chars (a @ b) \<longleftrightarrow> line_chars a \<and> line_chars b" "line_chars []"
  by (auto simp: line_chars_def)

lemma line_chars_tokens: "line_chars (print_tokens kvs) \<longleftrightarrow> (\<forall>kv \<in> set kvs. line_chars (fst kv) \<and> line_chars (snd kv))"
proof (induction kvs)
  case (Cons kv kvs)
  have "line_chars (print_token kv) \<longleftrightarrow> line_chars (fst kv) \<and> line_chars (snd kv)"
    by (auto simp: print_token_def line_chars_def NEWLINE_def)
  then show ?case using Cons by (simp add: print_tokens_def)
qed (simp add: print_tokens_def)

lemma length_tokens: "length (print_tokens kvs) = sum_list (map (\<lambda>kv. length (fst kv) + length (snd kv) + 2) kvs)"
  by (induction kvs) (simp_all add: print_tokens_def print_token_def)

lemma good_tokens:
  assumes "line_chars h" "\<forall>kv \<in> set kvs. line_chars (fst kv) \<and> line_chars (snd kv) \<and> length (fst kv) + length (snd kv) + 2 \<le> B"
    "length h + length kvs * B < 8191"
  shows "good_line (h @ print_tokens kvs)"
proof -
  have "sum_list (map (\<lambda>kv. length (fst kv) + length (snd kv) + 2) kvs) \<le> sum_list (map (\<lambda>kv. B) kvs)"
    using assms(2) by (intro sum_list_mono) blast
  then have "length (h @ print_tokens kvs) < 8191" using assms(3) by (simp add: length_tokens sum_list_triv)
  moreover have "line_chars (h @ print_tokens kvs)"
    using assms(1,2) by (simp add: line_chars_tokens)
  ultimately show ?thesis by (simp add: good_line_def)
qed

lemma reason_line: "length (reason_text dbg r) < 500 \<and> line_chars (reason_text dbg r)"
proof -
  let ?h = "fst (reason_parts dbg r)" and ?kvs = "snd (reason_parts dbg r)"
  have "list_all (\<lambda>k. length k \<le> 12 \<and> line_chars k) REASON_KEYS" by code_simp
  then have kv: "line_chars (fst kv) \<and> line_chars (snd kv) \<and> length (fst kv) + length (snd kv) + 2 \<le> 54" if "kv \<in> set ?kvs" for kv
    using reason_tokens that by (fastforce simp: list_all_iff short_def)
  have "sum_list (map (\<lambda>kv. length (fst kv) + length (snd kv) + 2) ?kvs) \<le> sum_list (map (\<lambda>kv. 54) ?kvs)"
    using kv by (intro sum_list_mono) blast
  then have "length (?h @ print_tokens ?kvs) < 500" using reason_shape [of dbg r] by (simp add: length_tokens sum_list_triv)
  moreover have "line_chars (?h @ print_tokens ?kvs)"
    using kv reason_shape [of dbg r] by (simp add: line_chars_tokens)
  ultimately show ?thesis by (simp add: reason_text_def split_beta)
qed

lemma short_line:
  assumes "short h" "length kvs \<le> 40" "list_all (\<lambda>kv. short (fst kv) \<and> short (snd kv)) kvs"
  shows "good_line (h @ print_tokens kvs)" "good_line (token_line h kvs)"
proof -
  show "good_line (h @ print_tokens kvs)"
    using assms by (intro good_tokens [where B = 82]) (fastforce simp: list_all_iff short_def)+
  then show "good_line (token_line h kvs)" by (simp add: token_line_def)
qed

section \<open>The run line\<close>

lemma foreign_reason:
  assumes "key \<in> set [''overlay'', ''visible_ram'']" "k \<in> set [''stop_reason_before_flush'', ''stop_reason'']"
  shows "foreign key (k, quoted (reason_text dbg r))"
proof -
  have "list_all (\<lambda>k. is_key k \<and> \<not> ends_in ''overlay'' k \<and> \<not> ends_in ''visible_ram'' k)
      [''stop_reason_before_flush'', ''stop_reason'']" by code_simp
  then have "is_key k" "\<not> ends_in key k" using assms by auto
  then show ?thesis using reason_avoids [OF assms(1)] by (simp add: foreign_def ends_in_iff)
qed

lemma run_fields:
  fixes b :: "'m boot" and v :: arch_view and dbg :: "u32 \<times> u32 \<times> u32" and r1 r2 :: stop_reason
  defines "line \<equiv> token_line ''run'' (run_tokens v (reason_text dbg r1) (reason_text dbg r2) b)"
  shows "token_value line ''cycle'' = Some (fmt_x 16 (unat (sim_time (hs b))))"
    "token_value line ''committed'' = Some (fmt_x 8 (unat (av_committed v)))"
    "token_value line ''overlay'' = Some (fmt_flag (overlay (sys (hs b))))"
    "token_value line ''visible_ram'' = Some (fmt_x 8 (unat (visible_ram_size (hs b))))"
proof -
  let ?t = "run_tokens v (reason_text dbg r1) (reason_text dbg r2) b"
  have plain: "plain (fmt_x w n)" "plain (fmt_flag f)" for w n f using clean_fmt by (simp_all add: clean_def)
  have keys: "list_all is_key [''cycle'', ''committed'', ''overlay'', ''visible_ram''] \<and> \<not> ends_in ''committed'' ''cycle'' \<and>
      list_all (\<lambda>k. \<not> ends_in ''overlay'' k \<and> \<not> ends_in ''visible_ram'' k) [''cycle'', ''committed''] \<and>
      \<not> ends_in ''visible_ram'' ''overlay''" by code_simp
  have flag: "CHR ''='' \<notin> set (fmt_flag f)" for f using clean_fmt(3) [of f] by (simp add: clean_def)
  have find: "token_value line key = Some x"
    if "?t = pre @ (key, x) # post" "is_key key" "\<forall>kv \<in> set pre. foreign key kv" "plain x" for pre key x post
    unfolding line_def token_line_def that(1) using that(2-4) by (intro token_find) simp_all
  show "token_value line ''cycle'' = Some (fmt_x 16 (unat (sim_time (hs b))))"
    by (rule find [of "[]"]) (use keys in \<open>simp_all add: run_tokens_def plain\<close>)
  show "token_value line ''committed'' = Some (fmt_x 8 (unat (av_committed v)))"
    by (rule find [of "take 1 ?t"]) (use keys in \<open>simp_all add: run_tokens_def plain clean_foreign\<close>)
  show "token_value line ''overlay'' = Some (fmt_flag (overlay (sys (hs b))))"
    by (rule find [of "take 4 ?t"]) (use keys in \<open>simp_all add: run_tokens_def plain clean_foreign foreign_reason\<close>)
  show "token_value line ''visible_ram'' = Some (fmt_x 8 (unat (visible_ram_size (hs b))))"
    by (rule find [of "take 5 ?t"]) (use keys in \<open>simp_all add: run_tokens_def plain clean_foreign foreign_reason flag\<close>)
qed

lemma run_line:
  assumes "\<not> bad_window L (visible_ram_size (hs b))"
  shows "replay_run L (token_line ''run'' (run_tokens v (reason_text dbg r1) (reason_text dbg r2) b)) cp =
    Some (see (\<lambda>s. s\<lparr> has_run := True, has_overlay := True, has_visible_ram := True \<rparr>)
      (cp\<lparr> cp_cycle := sim_time (hs b), cp_committed := av_committed v, cp_overlay := of_bool (overlay (sys (hs b))),
           cp_visible_ram := visible_ram_size (hs b) \<rparr>))"
  using assms by (simp add: replay_run_def optional_field_def replay_window_def replay_overlay_def run_fields) (simp add: see_def)

section \<open>What is restored\<close>

definition restored_checkpoint :: "arch_view \<Rightarrow> flush_report \<Rightarrow> 'm boot \<Rightarrow> arch_replay_checkpoint" where
  "restored_checkpoint v r b =
     \<lparr> cp_cycle = sim_time (hs b), cp_committed = av_committed v, cp_overlay = of_bool (overlay (sys (hs b))),
       cp_visible_ram = visible_ram_size (hs b),
       cp_core = \<lparr> cp_regs = map (av_reg v) [0..<16], cp_ccr = av_ccr v AND 0x1F, cp_sr = saved_sr v, cp_pc = np_pc (arch_next_pc b),
         cp_commit_pc = np_commit_pc (arch_next_pc b), cp_vbr = av_vbr v, cp_cacr = av_cacr v, cp_sfc = av_sfc v, cp_dfc = av_dfc v,
         cp_usp = av_usp v, cp_ssp = av_ssp v, cp_isp = av_isp v, cp_tc = av_tc v, cp_itt0 = av_itt0 v, cp_itt1 = av_itt1 v,
         cp_dtt0 = av_dtt0 v, cp_dtt1 = av_dtt1 v, cp_urp = av_urp v, cp_srp = av_srp v \<rparr>,
       cp_quiesce = \<lparr> flush_attempted = of_bool (fr_attempted r), flush_completed = of_bool (fr_completed r),
         quiesce_rob_empty = of_bool (av_rob_head v AND 0x3F = av_rob_tail v AND 0x3F),
         quiesce_int_iq_count = av_int_iq v AND 0xF, quiesce_mem_iq_count = av_mem_iq v AND 0xF,
         quiesce_lsu_busy = of_bool (av_lsu_busy v), quiesce_exc_active = of_bool (av_exc_active v),
         quiesce_cache_maint_wait = of_bool (av_cache_maint_wait v), quiesce_dcache_flush_busy = of_bool (11 \<le> av_dcache_state v),
         quiesce_flush_queue_empty = of_bool (\<not> av_fq_valid0 v \<and> \<not> av_fq_valid1 v) \<rparr>,
       cp_contract = \<lparr> replay_supported = ''debug_arch_load_v2'', replay_io_state = ''via1-v1'',
         replay_io_restore = ''partial-via1-v1'', replay_caches = ''reset'', replay_queues = ''reset'', replay_predictors = ''reset'' \<rparr>,
       cp_io = \<lparr> io_via1 = via (sys (hs b)), via1_timer_div_snapshot = via1_timer_div (sys (hs b)),
         via1_timer_div_ctr_snapshot = via1_timer_div_ctr (sys (hs b)),
         via1_rtc_data_line = of_bool (data_line (rtc_chip (sys (hs b)))),
         q700_selected_snapshot = of_bool (descriptor_selected (q700 b)), q700_entry_snapshot = descriptor_entry (q700 b),
         q700_feature_snapshot = feature_word (q700 b) \<rparr>,
       cp_seen = \<lparr> has_format = True, has_run = True, has_overlay = True, has_visible_ram = True, has_flush = True,
         has_quiesce = True, has_arch = True, has_pc = True, has_control = True, has_mmu = True, has_replay = True,
         has_io_via1 = True, has_io_q700_descriptor = True, has_reg = replicate 16 True, saw_memory_begin = True,
         saw_memory_end = True, saw_end_format = True, saw_rom = True, saw_ram = True, saw_vram = True, saw_magic = True \<rparr> \<rparr>"

definition no_memory :: "arch_replay_checkpoint \<Rightarrow> arch_replay_checkpoint" where
  "no_memory = see (\<lambda>s. s\<lparr> saw_memory_begin := False, saw_memory_end := False, saw_end_format := False, saw_rom := False,
     saw_ram := False, saw_vram := False, saw_magic := False \<rparr>)"

lemma replay_lines_append:
  "replay_lines L (xs @ ys) st = (case replay_lines L xs st of None \<Rightarrow> None | Some st \<Rightarrow> replay_lines L ys st)"
  by (induction xs arbitrary: st) (simp_all split: option.split)

section \<open>The state\<close>

definition put_regs :: "nat \<Rightarrow> u32 list \<Rightarrow> arch_replay_checkpoint \<Rightarrow> arch_replay_checkpoint" where
  "put_regs off xs cp =
     see (\<lambda>s. s\<lparr> has_reg := overlay_at off (replicate (length xs) True) (has_reg s) \<rparr>)
       (cp\<lparr> cp_core := (cp_core cp)\<lparr> cp_regs := overlay_at off xs (cp_regs (cp_core cp)) \<rparr> \<rparr>)"

lemma overlay_snoc:
  "off + length ys < length xs \<Longrightarrow> (overlay_at off ys xs)[off + length ys := y] = overlay_at off (ys @ [y]) xs"
  using overlay_append [of off ys "[y]" xs] overlay_Cons [of "off + length ys" "overlay_at off ys xs" y "[]"] by simp

lemma put_regs_snoc:
  assumes "off + length xs < length (cp_regs (cp_core cp))" "length (has_reg (cp_seen cp)) = length (cp_regs (cp_core cp))"
  shows "see (\<lambda>s. s\<lparr> has_reg := (has_reg s)[off + length xs := True] \<rparr>)
      ((put_regs off xs cp)\<lparr> cp_core := (cp_core (put_regs off xs cp))\<lparr>
         cp_regs := (cp_regs (cp_core (put_regs off xs cp)))[off + length xs := x] \<rparr> \<rparr>) = put_regs off (xs @ [x]) cp"
proof -
  have "(overlay_at off (replicate (length xs) True) (has_reg (cp_seen cp)))[off + length xs := True] =
      overlay_at off (replicate (length xs) True @ [True]) (has_reg (cp_seen cp))"
    using overlay_snoc [of off "replicate (length xs) True" "has_reg (cp_seen cp)" True] assms by simp
  then show ?thesis
    using overlay_snoc [OF assms(1), of x] by (simp add: put_regs_def see_def replicate_append_same)
qed

lemma reg_lines_replay:
  assumes "k \<le> 8" "kind = CHR ''d'' \<and> off = 0 \<or> kind = CHR ''a'' \<and> off = 8"
    "length (cp_regs (cp_core (rp_cp st))) = 16" "length (has_reg (cp_seen (rp_cp st))) = 16"
  shows "replay_lines L (map (\<lambda>i. reg_line kind i (f i)) [0..<k]) st = Some (map_cp (put_regs off (map f [0..<k])) st)"
  using assms(1)
proof (induction k)
  case 0 then show ?case by (simp add: map_cp_def put_regs_def see_def)
next
  case (Suc k)
  let ?st = "map_cp (put_regs off (map f [0..<k])) st"
  have "replay_line L (reg_line kind k (f k)) ?st =
      on_cp (\<lambda>cp. Some (see (\<lambda>s. s\<lparr> has_reg := (has_reg s)[off + k := True] \<rparr>)
        (cp\<lparr> cp_core := (cp_core cp)\<lparr> cp_regs := (cp_regs (cp_core cp))[off + k := f k] \<rparr> \<rparr>))) ?st"
    using Suc(2) assms(2) by (intro reg_line_replay) auto
  also have "\<dots> = Some (map_cp (put_regs off (map f [0..<Suc k])) st)"
    using put_regs_snoc [of off "map f [0..<k]" "rp_cp st" "f k"] Suc(2) assms(2-4) by (auto simp: on_cp_def map_cp_def)
  finally show ?case using Suc by (simp add: replay_lines_append)
qed

lemma put_regs_all:
  assumes "length (cp_regs (cp_core cp)) = 16" "length (has_reg (cp_seen cp)) = 16"
  shows "put_regs 8 (map (\<lambda>i. f (8 + i)) [0..<8]) (put_regs 0 (map f [0..<8]) cp) =
    see (\<lambda>s. s\<lparr> has_reg := replicate 16 True \<rparr>) (cp\<lparr> cp_core := (cp_core cp)\<lparr> cp_regs := map f [0..<16] \<rparr> \<rparr>)"
proof -
  have m: "map f [0..<8] @ map (\<lambda>i. f (8 + i)) [0..<8] = map f [0..<16]"
    by (rule nth_equalityI) (auto simp: nth_append)
  have "overlay_at 8 (map (\<lambda>i. f (8 + i)) [0..<8]) (overlay_at 0 (map f [0..<8]) (cp_regs (cp_core cp))) = map f [0..<16]"
    using overlay_append [of 0 "map f [0..<8]" "map (\<lambda>i. f (8 + i)) [0..<8]" "cp_regs (cp_core cp)"] assms(1)
    unfolding m by (simp add: overlay_all)
  moreover have "overlay_at 8 (replicate 8 True) (overlay_at 0 (replicate 8 True) (has_reg (cp_seen cp))) = replicate 16 True"
    using overlay_append [of 0 "replicate 8 True" "replicate 8 True" "has_reg (cp_seen cp)"] assms(2)
    by (simp add: overlay_all flip: replicate_add)
  ultimately show ?thesis by (simp add: put_regs_def see_def)
qed

lemma tokens_nonempty [simp]:
  "run_tokens v x y b \<noteq> []" "flush_tokens r \<noteq> []" "quiesce_tokens v \<noteq> []" "arch_tokens v \<noteq> []" "pc_tokens v n \<noteq> []"
  "control_tokens v \<noteq> []" "mmu_tokens v \<noteq> []" "via1_tokens s \<noteq> []" "q700_tokens q \<noteq> []" "replay_tokens \<noteq> []"
  by (simp_all add: run_tokens_def flush_tokens_def quiesce_tokens_def arch_tokens_def pc_tokens_def control_tokens_def
      mmu_tokens_def via1_tokens_def q700_tokens_def replay_tokens_def Let_def)

lemma on_cp_Some: "f (rp_cp st) = Some cp \<Longrightarrow> on_cp f st = Some (st\<lparr> rp_cp := cp \<rparr>)"
  by (simp add: on_cp_def)

lemma format_line: "replay_line L FORMAT_LINE st = Some (map_cp (see (\<lambda>s. s\<lparr> has_format := True \<rparr>)) st)"
  by (simp add: replay_line_def FORMAT_LINE_def)

lemma ignored_lines: "replay_lines L [''producer tb-rom-boot'', ''endianness big''] st = Some st" "replay_lines L gap_lines st = Some st"
  by (simp_all add: gap_lines_def replay_line_def replay_state_line_def starts_def FORMAT_LINE_def END_LINE_def)

lemma state_head:
  assumes "\<not> bad_window L (visible_ram_size (hs b))"
  shows "replay_lines L [FORMAT_LINE, ''producer tb-rom-boot'', ''endianness big'',
      token_line ''run'' (run_tokens v (reason_text dbg r1) (reason_text dbg r2) b), token_line ''flush'' (flush_tokens r),
      token_line ''quiesce'' (quiesce_tokens v), token_line ''arch'' (arch_tokens v)] (start_replay L rom raw) =
    Some ((start_replay L rom raw)\<lparr> rp_cp := (initial_replay L)\<lparr> cp_cycle := sim_time (hs b), cp_committed := av_committed v,
      cp_overlay := of_bool (overlay (sys (hs b))), cp_visible_ram := visible_ram_size (hs b),
      cp_core := (cp_core (initial_replay L))\<lparr> cp_ccr := av_ccr v AND 0x1F, cp_sr := saved_sr v \<rparr>,
      cp_quiesce := cp_quiesce (restored_checkpoint v r b),
      cp_seen := (cp_seen (initial_replay L))\<lparr> has_format := True, has_run := True, has_overlay := True, has_visible_ram := True,
        has_flush := True, has_quiesce := True, has_arch := True \<rparr> \<rparr> \<rparr>)"
proof -
  have i: "replay_line L ''producer tb-rom-boot'' st = Some st" "replay_line L ''endianness big'' st = Some st" for st
    using ignored_lines(1) [of L st] by (simp_all add: replay_line_def replay_state_line_def starts_def FORMAT_LINE_def END_LINE_def)
  show ?thesis
    by (simp add: i format_line dispatch_tokens on_cp_def run_line [OF assms] flush_line quiesce_line arch_line
          split del: split_of_bool)
      (simp add: start_replay_def map_cp_def see_def initial_replay_def restored_checkpoint_def split del: split_of_bool)
qed

lemma state_tail:
  assumes "np_valid (arch_next_pc b)"
  shows "replay_lines L [token_line ''pc'' (pc_tokens v (arch_next_pc b)), token_line ''control'' (control_tokens v),
      token_line ''mmu'' (mmu_tokens v), token_line ''io via1'' (via1_tokens (sys (hs b))),
      token_line ''io q700_descriptor'' (q700_tokens (q700 b)), token_line ''replay'' replay_tokens] st =
    Some (map_cp (\<lambda>cp. see (\<lambda>s. s\<lparr> has_pc := True, has_control := True, has_mmu := True, has_io_via1 := True,
        has_io_q700_descriptor := True, has_replay := True \<rparr>)
      (cp\<lparr> cp_core := (cp_core (restored_checkpoint v r b))\<lparr> cp_regs := cp_regs (cp_core cp), cp_ccr := cp_ccr (cp_core cp),
             cp_sr := cp_sr (cp_core cp) \<rparr>,
           cp_io := cp_io (restored_checkpoint v r b), cp_contract := cp_contract (restored_checkpoint v r b) \<rparr>)) st)"
  by (simp add: dispatch_tokens on_cp_def pc_line [OF assms] control_line mmu_line via1_line q700_line contract_line
      split del: split_of_bool)
    (simp add: map_cp_def see_def restored_checkpoint_def split del: split_of_bool)

lemma state_replay:
  assumes "\<not> bad_window L (visible_ram_size (hs b))" "np_valid (arch_next_pc b)"
  shows "replay_lines L (state_lines v r (reason_text dbg r1) (reason_text dbg r2) b @ ls) (start_replay L rom raw) =
    replay_lines L ls ((start_replay L rom raw)\<lparr> rp_cp := no_memory (restored_checkpoint v r b) \<rparr>)"
proof -
  have len: "length (cp_regs (cp_core (initial_replay L))) = 16" "length (has_reg (cp_seen (initial_replay L))) = 16"
    by (simp_all add: initial_replay_def)
  have regs: "replay_lines L (map (\<lambda>i. reg_line (CHR ''d'') i (av_reg v i)) [0..<8] @
      map (\<lambda>i. reg_line (CHR ''a'') i (av_reg v (8 + i))) [0..<8]) st =
    Some (map_cp (\<lambda>cp. see (\<lambda>s. s\<lparr> has_reg := replicate 16 True \<rparr>)
      (cp\<lparr> cp_core := (cp_core cp)\<lparr> cp_regs := map (av_reg v) [0..<16] \<rparr> \<rparr>)) st)"
    if "length (cp_regs (cp_core (rp_cp st))) = 16" "length (has_reg (cp_seen (rp_cp st))) = 16" for st
  proof -
    have "length (cp_regs (cp_core (put_regs 0 (map (av_reg v) [0..<8]) (rp_cp st)))) = 16"
      "length (has_reg (cp_seen (put_regs 0 (map (av_reg v) [0..<8]) (rp_cp st)))) = 16"
      using that by (simp_all add: put_regs_def see_def)
    then show ?thesis
      using that reg_lines_replay [of 8 "CHR ''d''" 0 st L "av_reg v"]
        reg_lines_replay [of 8 "CHR ''a''" 8 "map_cp (put_regs 0 (map (av_reg v) [0..<8])) st" L "\<lambda>i. av_reg v (8 + i)"]
        put_regs_all [of "rp_cp st" "av_reg v"]
      by (simp add: replay_lines_append map_cp_def)
  qed
  have steps: "(case replay_lines L (map (\<lambda>i. reg_line (CHR ''d'') i (av_reg v i)) [0..<8]) st of None \<Rightarrow> None
      | Some st \<Rightarrow> case replay_lines L (map (\<lambda>i. reg_line (CHR ''a'') i (av_reg v (8 + i))) [0..<8]) st of None \<Rightarrow> None
      | Some st \<Rightarrow> F st) =
    F (map_cp (\<lambda>cp. see (\<lambda>s. s\<lparr> has_reg := replicate 16 True \<rparr>)
      (cp\<lparr> cp_core := (cp_core cp)\<lparr> cp_regs := map (av_reg v) [0..<16] \<rparr> \<rparr>)) st)"
    if "length (cp_regs (cp_core (rp_cp st))) = 16" "length (has_reg (cp_seen (rp_cp st))) = 16"
    for st and F :: "replay_state \<Rightarrow> replay_state option"
    using regs [OF that] by (auto simp: replay_lines_append split: option.splits)
  let ?st = "(start_replay L rom raw)\<lparr> rp_cp := (initial_replay L)\<lparr> cp_cycle := sim_time (hs b), cp_committed := av_committed v,
      cp_overlay := of_bool (overlay (sys (hs b))), cp_visible_ram := visible_ram_size (hs b),
      cp_core := (cp_core (initial_replay L))\<lparr> cp_ccr := av_ccr v AND 0x1F, cp_sr := saved_sr v \<rparr>,
      cp_quiesce := cp_quiesce (restored_checkpoint v r b),
      cp_seen := (cp_seen (initial_replay L))\<lparr> has_format := True, has_run := True, has_overlay := True, has_visible_ram := True,
        has_flush := True, has_quiesce := True, has_arch := True \<rparr> \<rparr> \<rparr>"
  have "length (cp_regs (cp_core (rp_cp ?st))) = 16" "length (has_reg (cp_seen (rp_cp ?st))) = 16" using len by simp_all
  note regs = steps [OF this]
  show ?thesis
    by (simp only: state_lines_def append_assoc replay_lines_append state_head [OF assms(1)] option.case regs
        state_tail [OF assms(2), of _ _ _ r] ignored_lines)
      (simp add: start_replay_def map_cp_def see_def initial_replay_def restored_checkpoint_def no_memory_def split del: split_of_bool)
qed

section \<open>The memory\<close>

definition inside :: "mem_segment \<Rightarrow> nat \<Rightarrow> bool" where
  "inside g n \<longleftrightarrow> ms_off g + ms_size g \<le> n"

definition layout_ok :: "mem_layout \<Rightarrow> nat \<Rightarrow> bool" where
  "layout_ok L n \<longleftrightarrow> inside (lay_ram L) n \<and> inside (lay_vram L) n \<and> inside (lay_magic L) n \<and> n < 2 ^ 63"

definition covers :: "mem_segment \<Rightarrow> nat \<Rightarrow> bool" where
  "covers g i \<longleftrightarrow> ms_off g \<le> i \<and> i < ms_off g + ms_size g"

definition in_layout :: "mem_layout \<Rightarrow> nat \<Rightarrow> bool" where
  "in_layout L i \<longleftrightarrow> covers (lay_ram L) i \<or> covers (lay_vram L) i \<or> covers (lay_magic L) i"

definition copy_segment :: "mem_segment \<Rightarrow> u8 list \<Rightarrow> u8 list \<Rightarrow> u8 list" where
  "copy_segment g raw xs = overlay_at (ms_off g) (segment_bytes g raw) xs"

lemma length_segment [simp]: "inside g (length raw) \<Longrightarrow> length (segment_bytes g raw) = ms_size g"
  by (simp add: segment_bytes_def inside_def)

lemma copy_segment_nth:
  assumes "inside g (length raw)" "length xs = length raw"
  shows "length (copy_segment g raw xs) = length raw"
    "i < length raw \<Longrightarrow> copy_segment g raw xs ! i = (if covers g i then raw ! i else xs ! i)"
  using assms by (auto simp: copy_segment_def overlay_nth inside_def covers_def segment_bytes_def)

lemma replay_mem_segment:
  assumes "seg_name L name g" "inside g (length raw)" "length (rp_raw st) = length raw" "length raw < 2 ^ 63"
  shows "replay_lines L (write_mem_segment name g raw dflt @ ls) st =
    replay_lines L ls (map_cp (see (see_segment name)) (closed (st\<lparr> rp_raw := copy_segment g raw (rp_raw st) \<rparr>)))"
  unfolding write_mem_segment_def copy_segment_def
  using assms by (intro replay_sparse_segment) (simp_all add: inside_def [of g])

definition restored_memory :: "mem_layout \<Rightarrow> u8 list \<Rightarrow> u8 list \<Rightarrow> u8 list" where
  "restored_memory L raw xs = copy_segment (lay_magic L) raw (copy_segment (lay_vram L) raw (copy_segment (lay_ram L) raw xs))"

lemma restored_memory_nth:
  assumes "layout_ok L (length raw)" "length xs = length raw"
  shows "length (restored_memory L raw xs) = length raw"
    "i < length raw \<Longrightarrow> restored_memory L raw xs ! i = (if in_layout L i then raw ! i else xs ! i)"
  using assms by (auto simp: restored_memory_def layout_ok_def in_layout_def copy_segment_nth)

lemma closed_simps [simp]:
  "rp_cp (closed st) = rp_cp st" "rp_rom (closed st) = rp_rom st" "rp_raw (closed st) = rp_raw st" "wild_store (closed st) = wild_store st"
  "closed (closed st) = closed st" "closed (st\<lparr> rp_raw := x \<rparr>) = (closed st)\<lparr> rp_raw := x \<rparr>" "closed (st\<lparr> rp_rom := x \<rparr>) = (closed st)\<lparr> rp_rom := x \<rparr>"
  "rp_rom (map_cp f st) = rp_rom st" "rp_raw (map_cp f st) = rp_raw st" "wild_store (map_cp f st) = wild_store st"
  "rp_cp (map_cp f st) = f (rp_cp st)" "(map_cp f st)\<lparr> rp_raw := x \<rparr> = map_cp f (st\<lparr> rp_raw := x \<rparr>)"
  by (simp_all add: closed_def map_cp_def)

lemma marker_lines:
  "replay_line L ''memory begin'' st = Some (map_cp (see (\<lambda>s. s\<lparr> saw_memory_begin := True \<rparr>)) st)"
  "replay_line L ''memory end'' st = Some (map_cp (see (\<lambda>s. s\<lparr> saw_memory_end := True \<rparr>)) st)"
  "replay_line L END_LINE st = Some (map_cp (see (\<lambda>s. s\<lparr> saw_end_format := True \<rparr>)) st)"
  by (simp_all add: replay_line_def FORMAT_LINE_def END_LINE_def)

lemma memory_replay:
  assumes "layout_ok L (length raw)" "length (rp_raw st) = length raw" "rom \<noteq> []" "length rom \<le> unat Q700_ROM_SIZE"
  obtains st' where "replay_lines L (memory_lines L rom raw @ [END_LINE]) st = Some st'"
    "rp_rom st' = rom" "rp_raw st' = restored_memory L raw (rp_raw st)" "wild_store st' = wild_store st"
    "rp_cp st' = see (\<lambda>s. s\<lparr> saw_memory_begin := True, saw_memory_end := True, saw_end_format := True, saw_rom := True,
       saw_ram := True, saw_vram := True, saw_magic := True \<rparr>) (rp_cp st)"
proof -
  have L: "inside (lay_ram L) (length raw)" "inside (lay_vram L) (length raw)" "inside (lay_magic L) (length raw)" "length raw < 2 ^ 63"
    using assms(1) by (simp_all add: layout_ok_def)
  have names: "seg_name L ''ram'' (lay_ram L)" "seg_name L ''vram'' (lay_vram L)" "seg_name L ''magic'' (lay_magic L)"
    by (simp_all add: seg_name_def)
  let ?a = "map_cp (see (see_segment ''q700-rom''))
    (closed ((map_cp (see (\<lambda>s. s\<lparr> saw_memory_begin := True \<rparr>)) st)\<lparr> rp_rom := rom \<rparr>))"
  let ?seg = "\<lambda>name g st. map_cp (see (see_segment name)) (closed (st\<lparr> rp_raw := copy_segment g raw (rp_raw st) \<rparr>))"
  let ?b = "?seg ''ram'' (lay_ram L) ?a"
  let ?c = "?seg ''vram'' (lay_vram L) ?b"
  let ?d = "?seg ''magic'' (lay_magic L) ?c"
  let ?e = "map_cp (see (\<lambda>s. s\<lparr> saw_end_format := True \<rparr>)) (map_cp (see (\<lambda>s. s\<lparr> saw_memory_end := True \<rparr>)) ?d)"
  have raw: "length (rp_raw ?a) = length raw" "length (rp_raw ?b) = length raw" "length (rp_raw ?c) = length raw"
    using assms(2) L by (simp_all add: copy_segment_nth)
  have "replay_lines L (memory_lines L rom raw @ [END_LINE]) st =
      replay_lines L (write_full_segment ''q700-rom'' Q700_ROM_BASE rom @ write_mem_segment ''ram'' (lay_ram L) raw (lay_fill L) @
        write_mem_segment ''vram'' (lay_vram L) raw (lay_fill L) @ write_mem_segment ''magic'' (lay_magic L) raw (lay_fill L) @
        [''memory end'', END_LINE]) (map_cp (see (\<lambda>s. s\<lparr> saw_memory_begin := True \<rparr>)) st)"
    using assms(3) by (simp add: memory_lines_def marker_lines)
  also have "\<dots> = Some ?e"
    by (simp only: replay_full_segment [OF assms(3,4)] replay_mem_segment [OF names(1) L(1) raw(1) L(4)]
        replay_mem_segment [OF names(2) L(2) raw(2) L(4)] replay_mem_segment [OF names(3) L(3) raw(3) L(4)])
      (simp add: marker_lines)
  finally show thesis
    by (rule that) (simp_all add: restored_memory_def see_def see_segment_def)
qed

section \<open>Every line is good\<close>

lemma keys_line:
  assumes "map fst kvs = ks" "list_all short ks" "length ks \<le> 40" "list_all short (map snd kvs)" "short h"
  shows "good_line (token_line h kvs)"
proof (rule short_line)
  have "length kvs = length ks" using assms(1) by auto
  then show "length kvs \<le> 40" using assms(3) by simp
  show "list_all (\<lambda>kv. short (fst kv) \<and> short (snd kv)) kvs"
    using assms(2,4) unfolding assms(1) [symmetric] by (simp add: list_all_iff)
qed (rule assms)

lemma medium_line: "length l \<le> 100 \<and> line_chars l \<Longrightarrow> good_line l"
  by (simp add: good_line_def)

lemma reg_line_good: "i < 8 \<Longrightarrow> kind = CHR ''d'' \<or> kind = CHR ''a'' \<Longrightarrow> good_line (reg_line kind i x)"
proof -
  assume i: "i < 8" "kind = CHR ''d'' \<or> kind = CHR ''a''"
  have "short (fmt_u i)" "short (fmt_x 8 (unat x))" using i by simp_all
  moreover have "line_chars ''reg ''" "line_chars ''=''" "line_chars [kind]" using i(2) by (auto simp: line_chars_def NEWLINE_def)
  ultimately show ?thesis
    unfolding reg_line_def by (intro medium_line conjI) (simp add: short_def, simp only: line_chars_append short_def)
qed

lemma run_line_good: "good_line (token_line ''run'' (run_tokens v (reason_text dbg r1) (reason_text dbg r2) b))"
proof -
  have q: "line_chars (quoted (reason_text dbg r)) \<and> length (quoted (reason_text dbg r)) \<le> 600" for r
    using reason_line [of dbg r] by (auto simp: quoted_def line_chars_def NEWLINE_def)
  have s: "line_chars x \<and> length x \<le> 600" if "short x" for x using that by (simp add: short_def)
  have "list_all short [''cycle'', ''committed'', ''stop_reason_before_flush'', ''stop_reason'', ''overlay'', ''visible_ram'',
      ''q700_descriptor_selected'', ''run'']" by code_simp
  then have k: "line_chars k \<and> length k \<le> 40" if "k \<in> set [''cycle'', ''committed'', ''stop_reason_before_flush'', ''stop_reason'',
      ''overlay'', ''visible_ram'', ''q700_descriptor_selected'', ''run'']" for k
    using that by (auto simp: short_def)
  have kv: "(k, x) \<in> set (run_tokens v (reason_text dbg r1) (reason_text dbg r2) b) \<Longrightarrow>
      k \<in> set [''cycle'', ''committed'', ''stop_reason_before_flush'', ''stop_reason'', ''overlay'', ''visible_ram'',
      ''q700_descriptor_selected''] \<and> line_chars x \<and> length x \<le> 600" for k x
    using q s by (auto simp: run_tokens_def)
  show ?thesis unfolding token_line_def
  proof (rule good_tokens [where B = 650])
    show "line_chars ''run''" using k [of "''run''"] by simp
    show "length ''run'' + length (run_tokens v (reason_text dbg r1) (reason_text dbg r2) b) * 650 < 8191"
      by (simp add: run_tokens_def)
    show "\<forall>kv \<in> set (run_tokens v (reason_text dbg r1) (reason_text dbg r2) b).
        line_chars (fst kv) \<and> line_chars (snd kv) \<and> length (fst kv) + length (snd kv) + 2 \<le> 650"
    proof
      fix p assume p: "p \<in> set (run_tokens v (reason_text dbg r1) (reason_text dbg r2) b)"
      then have "line_chars (fst p) \<and> length (fst p) \<le> 40" "line_chars (snd p) \<and> length (snd p) \<le> 600"
        using kv [of "fst p" "snd p"] k [of "fst p"] by auto
      then show "line_chars (fst p) \<and> line_chars (snd p) \<and> length (fst p) + length (snd p) + 2 \<le> 650" by simp
    qed
  qed
qed

lemma pc_line_good: "good_line (token_line ''pc'' (pc_tokens v n))"
proof -
  have c: "short ''0''" "short ''1''" "short ''unknown''" "short ''not_observed''" "short ''debug_boundary_or_last_observed_retire''"
    by code_simp+
  show ?thesis
  proof (cases "np_valid n")
    case True
    then have "map fst (pc_tokens v n) = [''next_valid'', ''next'', ''source'', ''commit_pc'', ''committed'', ''fetch_dbg_pc'', ''dbg_last_pc'']"
      by (simp add: pc_tokens_def)
    then show ?thesis by (rule keys_line) (code_simp, simp, use True c in \<open>simp add: pc_tokens_def\<close>, code_simp)
  next
    case False
    then have "map fst (pc_tokens v n) = [''next_valid'', ''next'', ''source'', ''fetch_dbg_pc'', ''dbg_last_pc'']"
      by (simp add: pc_tokens_def)
    then show ?thesis by (rule keys_line) (code_simp, simp, use False c in \<open>simp add: pc_tokens_def\<close>, code_simp)
  qed
qed

lemma state_lines_good:
  "\<forall>l \<in> set (state_lines v r (reason_text dbg r1) (reason_text dbg r2) b). good_line l"
proof -
  have sc: "short ''commit_arch_sr_15_5_plus_ccr_rat''" by code_simp
  have "good_line (token_line ''flush'' (flush_tokens r))"
    by (rule keys_line) (simp add: flush_tokens_def, code_simp, simp, simp add: flush_tokens_def, code_simp)
  moreover have "good_line (token_line ''quiesce'' (quiesce_tokens v))"
    by (rule keys_line) (simp add: quiesce_tokens_def Let_def, code_simp, simp, simp add: quiesce_tokens_def Let_def, code_simp)
  moreover have "good_line (token_line ''arch'' (arch_tokens v))"
    by (rule keys_line) (simp add: arch_tokens_def, code_simp, simp, simp add: arch_tokens_def sc, code_simp)
  moreover have "good_line (token_line ''control'' (control_tokens v))"
    by (rule keys_line) (simp add: control_tokens_def, code_simp, simp, simp add: control_tokens_def, code_simp)
  moreover have "good_line (token_line ''mmu'' (mmu_tokens v))"
    by (rule keys_line) (simp add: mmu_tokens_def, code_simp, simp, simp add: mmu_tokens_def, code_simp)
  moreover have "good_line (token_line ''io via1'' (via1_tokens (sys (hs b))))"
    by (rule keys_line) (simp add: via1_tokens_def Let_def, code_simp, simp, simp add: via1_tokens_def Let_def, code_simp)
  moreover have "good_line (token_line ''io q700_descriptor'' (q700_tokens (q700 b)))"
    by (rule keys_line) (simp add: q700_tokens_def, code_simp, simp, simp add: q700_tokens_def, code_simp)
  moreover have "good_line (token_line ''replay'' replay_tokens)"
    by (rule keys_line) (simp add: replay_tokens_def, code_simp, simp, code_simp, code_simp)
  moreover have "list_all (\<lambda>l. length l \<le> 100 \<and> line_chars l) (FORMAT_LINE # ''producer tb-rom-boot'' # ''endianness big'' # gap_lines)"
    by code_simp
  then have "\<forall>l \<in> set (FORMAT_LINE # ''producer tb-rom-boot'' # ''endianness big'' # gap_lines). good_line l"
    unfolding list_all_iff using medium_line by blast
  moreover note run_line_good [of v dbg r1 r2 b] pc_line_good [of v "arch_next_pc b"] reg_line_good
  ultimately show ?thesis unfolding state_lines_def by (simp only: set_append set_map list.set ball_Un ball_simps set_upt) simp
qed

lemma chunk_line_good: "fst c < 2 ^ 64 \<Longrightarrow> snd c \<noteq> [] \<Longrightarrow> length (snd c) \<le> 32 \<Longrightarrow> good_line (chunk_line c)"
proof -
  assume c: "fst c < 2 ^ 64" "snd c \<noteq> []" "length (snd c) \<le> 32"
  have "line_chars (fprint_hex_bytes (snd c))" by (intro digits_line_chars) (auto simp: fprint_hex_bytes_def hexdigit_ok)
  moreover have "short (fmt_x 8 (fst c))" "short (fmt_u (length (snd c)))" using c by simp_all
  moreover have "short ''data''" "short ''off''" "short ''bytes''" "short ''hex''" by code_simp+
  ultimately show ?thesis
    unfolding chunk_line_def using c(3) by (intro good_tokens [where B = 200]) (auto simp: short_def)
qed

lemma sparse_counts: "length (sparse_chunks d off data) \<le> length data \<and> sum_list (map (length \<circ> snd) (sparse_chunks d off data)) \<le> length data"
proof (induction d off data rule: sparse_chunks.induct)
  case (2 dflt off b data)
  show ?case
  proof (cases "b = dflt")
    case True then show ?thesis using 2(1) [OF True] by simp
  next
    case False
    let ?run = "takeWhile (\<lambda>x. x \<noteq> dflt) (take 32 (b # data))"
    have "0 < length ?run" "length ?run \<le> length (b # data)" using sparse_run [OF False, of data] by simp_all
    then show ?thesis using 2(2) [OF False refl] False unfolding sparse_chunks.simps Let_def by (simp, intro conjI; linarith)
  qed
qed simp

lemma header_good:
  assumes "clean name" "short name" "length data < 2 ^ 64"
  shows "good_line (''segment'' @ print_tokens (segment_tokens name base data ''hex-full'' @
      [(''chunk_bytes'', ''32''), (''checksum_fnv1a64'', fmt_x 16 (unat (fnv1a64_bytes data)))]))"
    "good_line (''segment'' @ print_tokens (segment_tokens name base data ''sparse-hex'' @
      [(''default'', fmt_x 2 (unat (dflt :: u8))), (''chunk_bytes'', ''32''),
       (''material_bytes'', fmt_u (sum_list (map (length \<circ> snd) (sparse_chunks dflt 0 data)))),
       (''chunks'', fmt_u (length (sparse_chunks dflt 0 data))), (''checksum_fnv1a64'', fmt_x 16 (unat (fnv1a64_bytes data)))]))"
    "good_line (''endsegment'' @ print_tokens [(''name'', name)])"
proof -
  have s: "short ''segment''" "short ''endsegment''" "short ''name''" "short ''base''" "short ''size''" "short ''encoding''"
    "short ''chunk_bytes''" "short ''checksum_fnv1a64''" "short ''32''" "short ''hex-full''" "short ''sparse-hex''"
    "short ''default''" "short ''material_bytes''" "short ''chunks''" by code_simp+
  have "length (sparse_chunks dflt 0 data) < 2 ^ 64" "sum_list (map (length \<circ> snd) (sparse_chunks dflt 0 data)) < 2 ^ 64"
    using sparse_counts [of dflt 0 data] assms(3) by simp_all
  then have n: "short (fmt_u (length (sparse_chunks dflt 0 data)))"
    "short (fmt_u (sum_list (map (length \<circ> snd) (sparse_chunks dflt 0 data))))" "short (fmt_x 8 (length data))"
    using assms(3) by (simp_all only: short_fmt)
  show "good_line (''segment'' @ print_tokens (segment_tokens name base data ''hex-full'' @
      [(''chunk_bytes'', ''32''), (''checksum_fnv1a64'', fmt_x 16 (unat (fnv1a64_bytes data)))]))"
    by (rule short_line(1)) (use s n assms(2) in \<open>simp_all add: segment_tokens_def\<close>)
  show "good_line (''segment'' @ print_tokens (segment_tokens name base data ''sparse-hex'' @
      [(''default'', fmt_x 2 (unat dflt)), (''chunk_bytes'', ''32''),
       (''material_bytes'', fmt_u (sum_list (map (length \<circ> snd) (sparse_chunks dflt 0 data)))),
       (''chunks'', fmt_u (length (sparse_chunks dflt 0 data))), (''checksum_fnv1a64'', fmt_x 16 (unat (fnv1a64_bytes data)))]))"
    by (rule short_line(1)) (use s n assms(2) in \<open>simp_all add: segment_tokens_def\<close>)
  show "good_line (''endsegment'' @ print_tokens [(''name'', name)])"
    by (rule short_line(1)) (use s assms(2) in simp_all)
qed

lemma memory_lines_good:
  assumes "layout_ok L (length raw)" "rom \<noteq> []" "length rom \<le> unat Q700_ROM_SIZE"
  shows "\<forall>l \<in> set (memory_lines L rom raw). good_line l"
proof -
  have names: "clean ''q700-rom''" "clean ''ram''" "clean ''vram''" "clean ''magic''" "short ''q700-rom''" "short ''ram''"
    "short ''vram''" "short ''magic''" by code_simp+
  have rom: "length rom < 2 ^ 63" using assms(3) by (simp add: Q700_ROM_SIZE_def)
  have full: "\<forall>l \<in> set (write_full_segment name base data). good_line l"
    if "clean name" "short name" "length data < 2 ^ 63" for name base data
  proof -
    have "good_line (chunk_line c)" if "c \<in> set (full_chunks 0 data)" for c
      using full_chunks_ok [OF that] \<open>length data < 2 ^ 63\<close> by (intro chunk_line_good) simp_all
    moreover have "length data < 2 ^ 64" using that(3) by simp
    ultimately show ?thesis
      using header_good [OF that(1,2)] unfolding write_full_segment_def by (simp only: set_append list.set set_map ball_Un ball_simps) blast
  qed
  have sparse: "\<forall>l \<in> set (write_sparse_segment name base data d). good_line l"
    if "clean name" "short name" "length data < 2 ^ 63" for name base data d
  proof -
    have "good_line (chunk_line c)" if "c \<in> set (sparse_chunks d 0 data)" for c
      using sparse_chunks_ok [OF that] \<open>length data < 2 ^ 63\<close> by (intro chunk_line_good) simp_all
    moreover have "length data < 2 ^ 64" using that(3) by simp
    ultimately show ?thesis
      using header_good [OF that(1,2)] unfolding write_sparse_segment_def Let_def
      by (simp only: set_append list.set set_map ball_Un ball_simps) blast
  qed
  have mem: "\<forall>l \<in> set (write_mem_segment name g raw d). good_line l"
    if "clean name" "short name" "inside g (length raw)" for name g d
    unfolding write_mem_segment_def using that assms(1) by (intro sparse) (auto simp: layout_ok_def inside_def)
  have "list_all (\<lambda>l. length l \<le> 100 \<and> line_chars l) [''memory begin'', ''memory end'']" by code_simp
  then have "good_line ''memory begin''" "good_line ''memory end''" using medium_line by auto
  moreover have "inside (lay_ram L) (length raw)" "inside (lay_vram L) (length raw)" "inside (lay_magic L) (length raw)"
    using assms(1) by (simp_all add: layout_ok_def)
  note mem [OF names(2,6) this(1), of "lay_fill L"] mem [OF names(3,7) this(2), of "lay_fill L"]
    mem [OF names(4,8) this(3), of "lay_fill L"] full [OF names(1,5) rom, of Q700_ROM_BASE]
  ultimately show ?thesis using assms(2) by (simp add: memory_lines_def ball_Un)
qed

section \<open>Saving and replaying\<close>

text \<open>The part of the file that depends on the state of the core and of the harness.\<close>

definition checkpoint_text ::
  "mem_layout \<Rightarrow> patch_list \<Rightarrow> u32 \<times> u32 \<times> u32 \<Rightarrow> stop_reason \<Rightarrow> arch_view \<Rightarrow> flush_report \<Rightarrow> u8 list \<Rightarrow> u8 list \<Rightarrow> 'm boot \<Rightarrow> string"
  where
  "checkpoint_text L patches dbg before v r rom raw b =
     print_lines (state_lines v r (reason_text dbg before) (reason_text dbg (h_stop_reason (hs b))) b @
       map rom_patch_line patches @ memory_lines L rom raw @ [END_LINE])"

definition printable :: "rom_patch \<Rightarrow> bool" where
  "printable p \<longleftrightarrow> length (rp_set p) \<le> 1000 \<and> line_chars (rp_set p) \<and> length (rp_description p) \<le> 1000 \<and> line_chars (rp_description p)"

lemma rom_patch_line_good: "printable p \<Longrightarrow> good_line (rom_patch_line p)"
proof -
  assume p: "printable p"
  have s: "short ''rom_patch''" "short ''set''" "short ''off''" "short ''value''" "short ''desc''" by code_simp+
  have "line_chars (quoted (rp_description p)) \<and> length (quoted (rp_description p)) \<le> 1002"
    using p by (auto simp: printable_def quoted_def line_chars_def NEWLINE_def)
  moreover have "short (fmt_x 5 (unat (rp_off p)))" "short (fmt_x 2 (unat (rp_value p)))" by simp_all
  ultimately show ?thesis
    unfolding rom_patch_line_def using s p by (intro good_tokens [where B = 1100]) (auto simp: short_def printable_def)
qed

lemma patch_lines_replay: "replay_lines L (map rom_patch_line patches @ ls) st = replay_lines L ls st"
proof (induction patches)
  case (Cons p patches)
  have "replay_line L (rom_patch_line p) st = Some st"
    unfolding rom_patch_line_def using dispatch_tokens(11) [of _ L st] by (simp add: token_line_def)
  then show ?case using Cons by simp
qed simp

definition resumable :: "mem_layout \<Rightarrow> arch_view \<Rightarrow> flush_report \<Rightarrow> 'm boot \<Rightarrow> bool" where
  "resumable L v r b \<longleftrightarrow>
     arch_checkpoint_quiesced v \<and> fr_attempted r \<and> fr_completed r \<and> np_valid (arch_next_pc b) \<and>
     np_pc (arch_next_pc b) \<noteq> 0 \<and> np_pc (arch_next_pc b) \<noteq> 0xFFFFFFFF \<and> \<not> bad_window L (visible_ram_size (hs b))"

lemma accept_restored: "resumable L v r b \<Longrightarrow> accept_replay (restored_checkpoint v r b)"
  by (simp add: resumable_def arch_checkpoint_quiesced_def accept_replay_def restored_checkpoint_def complete_seen_def
      safe_quiesce_def known_contract_def list_all_length not_le split del: split_of_bool)

lemma accepted_resumable:
  "accept_replay (restored_checkpoint v r b) \<Longrightarrow> np_valid (arch_next_pc b) \<Longrightarrow> \<not> bad_window L (visible_ram_size (hs b)) \<Longrightarrow>
    resumable L v r b"
  by (simp add: resumable_def arch_checkpoint_quiesced_def accept_replay_def restored_checkpoint_def
      safe_quiesce_def not_le split del: split_of_bool)

lemma checkpoint_file:
  assumes "layout_ok L (length raw)" "rom \<noteq> []" "length rom \<le> unat Q700_ROM_SIZE" "\<forall>p \<in> set patches. printable p"
  shows "file_lines (checkpoint_text L patches dbg before v r rom raw b) =
    state_lines v r (reason_text dbg before) (reason_text dbg (h_stop_reason (hs b))) b @
      map rom_patch_line patches @ memory_lines L rom raw @ [END_LINE]"
proof -
  have "length END_LINE \<le> 100 \<and> line_chars END_LINE" by code_simp
  then have "\<forall>l \<in> set (state_lines v r (reason_text dbg before) (reason_text dbg (h_stop_reason (hs b))) b @
      map rom_patch_line patches @ memory_lines L rom raw @ [END_LINE]). good_line l"
    using state_lines_good [of v r dbg before "h_stop_reason (hs b)" b] memory_lines_good [OF assms(1-3)]
      rom_patch_line_good assms(4) medium_line by (simp only: set_append set_map list.set ball_Un ball_simps) blast
  then show ?thesis unfolding checkpoint_text_def by (rule file_lines_print)
qed

lemma checkpoint_lines:
  assumes "\<not> bad_window L (visible_ram_size (hs b))" "np_valid (arch_next_pc b)" "layout_ok L (length raw)" "length raw0 = length raw"
    "rom \<noteq> []" "length rom \<le> unat Q700_ROM_SIZE" "\<forall>p \<in> set patches. printable p"
  obtains st where "replay_lines L (file_lines (checkpoint_text L patches dbg before v r rom raw b)) (start_replay L rom0 raw0) = Some st"
    "rp_cp st = restored_checkpoint v r b" "rp_rom st = rom" "rp_raw st = restored_memory L raw raw0" "\<not> wild_store st"
proof -
  let ?st = "(start_replay L rom0 raw0)\<lparr> rp_cp := no_memory (restored_checkpoint v r b) \<rparr>"
  have "length (rp_raw ?st) = length raw" using assms(4) by (simp add: start_replay_def)
  then obtain st where st: "replay_lines L (memory_lines L rom raw @ [END_LINE]) ?st = Some st"
    "rp_rom st = rom" "rp_raw st = restored_memory L raw (rp_raw ?st)" "wild_store st = wild_store ?st"
    "rp_cp st = see (\<lambda>s. s\<lparr> saw_memory_begin := True, saw_memory_end := True, saw_end_format := True, saw_rom := True,
       saw_ram := True, saw_vram := True, saw_magic := True \<rparr>) (rp_cp ?st)"
    using memory_replay [OF assms(3) _ assms(5,6)] by blast
  have cp: "rp_cp st = restored_checkpoint v r b"
    using st(5) by (simp add: no_memory_def see_def restored_checkpoint_def)
  have "replay_lines L (file_lines (checkpoint_text L patches dbg before v r rom raw b)) (start_replay L rom0 raw0) = Some st"
    by (simp only: checkpoint_file [OF assms(3,5-7)] state_replay [OF assms(1,2)] patch_lines_replay st(1))
  then show thesis using that st cp by (simp add: start_replay_def)
qed

lemma parse_checkpoint:
  assumes "resumable L v r b" "layout_ok L (length raw)" "length raw0 = length raw" "rom \<noteq> []" "length rom \<le> unat Q700_ROM_SIZE"
    "\<forall>p \<in> set patches. printable p"
  obtains st where "parse_arch_replay_checkpoint L (Some (checkpoint_text L patches dbg before v r rom raw b)) rom0 raw0 = Some st"
    "rp_cp st = restored_checkpoint v r b" "rp_rom st = rom" "rp_raw st = restored_memory L raw raw0" "\<not> wild_store st"
proof -
  have b: "\<not> bad_window L (visible_ram_size (hs b))" "np_valid (arch_next_pc b)" using assms(1) by (simp_all add: resumable_def)
  obtain st where "replay_lines L (file_lines (checkpoint_text L patches dbg before v r rom raw b)) (start_replay L rom0 raw0) = Some st"
    "rp_cp st = restored_checkpoint v r b" "rp_rom st = rom" "rp_raw st = restored_memory L raw raw0" "\<not> wild_store st"
    by (rule checkpoint_lines [OF b assms(2-6)])
  then show thesis using that accept_restored [OF assms(1)] by (simp add: parse_arch_replay_checkpoint_def)
qed

section \<open>Checkpoints that are refused\<close>

lemma failing_line: "l \<in> set ls \<Longrightarrow> \<forall>st. replay_line L l st = None \<Longrightarrow> replay_lines L ls st = None"
proof (induction ls arbitrary: st)
  case (Cons a ls)
  then show ?case by (cases "replay_line L a st") auto
qed simp

lemma run_line_refused:
  "bad_window L (visible_ram_size (hs b)) \<Longrightarrow>
    replay_line L (token_line ''run'' (run_tokens v (reason_text dbg r1) (reason_text dbg r2) b)) st = None"
  by (simp add: dispatch_tokens on_cp_def replay_run_def optional_field_def replay_window_def replay_overlay_def run_fields)

lemma unresumable_refused:
  assumes "\<not> resumable L v r b" "layout_ok L (length raw)" "length raw0 = length raw" "rom \<noteq> []" "length rom \<le> unat Q700_ROM_SIZE"
    "\<forall>p \<in> set patches. printable p"
  shows "parse_arch_replay_checkpoint L (Some (checkpoint_text L patches dbg before v r rom raw b)) rom0 raw0 = None"
proof -
  let ?ls = "file_lines (checkpoint_text L patches dbg before v r rom raw b)"
  have mem: "l \<in> set (state_lines v r (reason_text dbg before) (reason_text dbg (h_stop_reason (hs b))) b) \<Longrightarrow> l \<in> set ?ls" for l
    by (simp add: checkpoint_file [OF assms(2,4-6)])
  consider (window) "bad_window L (visible_ram_size (hs b))" | (pc) "\<not> np_valid (arch_next_pc b)"
    | (rest) "\<not> bad_window L (visible_ram_size (hs b))" "np_valid (arch_next_pc b)" by blast
  then show ?thesis
  proof cases
    case window
    have "token_line ''run'' (run_tokens v (reason_text dbg before) (reason_text dbg (h_stop_reason (hs b))) b) \<in> set ?ls"
      by (rule mem) (simp only: state_lines_def set_append list.set Un_iff insert_iff simp_thms)
    then have "replay_lines L ?ls (start_replay L rom0 raw0) = None"
      by (rule failing_line) (simp only: run_line_refused [OF window] simp_thms)
    then show ?thesis by (simp add: parse_arch_replay_checkpoint_def)
  next
    case pc
    have "replay_line L (token_line ''pc'' (pc_tokens v (arch_next_pc b))) st = None" for st
      using pc_line_unknown [OF pc] by (simp add: dispatch_tokens on_cp_def)
    moreover have "token_line ''pc'' (pc_tokens v (arch_next_pc b)) \<in> set ?ls"
      by (rule mem) (simp only: state_lines_def set_append list.set Un_iff insert_iff simp_thms)
    ultimately have "replay_lines L ?ls (start_replay L rom0 raw0) = None" by (intro failing_line) blast+
    then show ?thesis by (simp add: parse_arch_replay_checkpoint_def)
  next
    case rest
    obtain st where "replay_lines L ?ls (start_replay L rom0 raw0) = Some st" "rp_cp st = restored_checkpoint v r b"
      by (rule checkpoint_lines [OF rest assms(2-6)])
    moreover have "\<not> accept_replay (restored_checkpoint v r b)" using accepted_resumable [OF _ rest(2,1)] assms(1) by blast
    ultimately show ?thesis by (simp add: parse_arch_replay_checkpoint_def)
  qed
qed

end
