(* ===== verification/Arch_Roundtrip.thy ===== *)
theory Arch_Roundtrip
  imports Arch_Replay_Props Rom_Boot_Watch_Props
begin

unbundle bit_operations_syntax

text \<open>
  Saving an architectural checkpoint and replaying it, end to end: the text that \<open>save_arch_checkpoint\<close>
  writes is accepted by the replay exactly when the core was quiesced, the flush was done and the next
  PC is known, and then \<open>apply_arch_replay\<close> gives the core, the adapter, the ROM and the memory back.
\<close>

section \<open>The file that is saved\<close>

text \<open>The core and the harness at the moment the file is written, and the report of the flush.\<close>

definition at_checkpoint ::
  "'d dut_model \<Rightarrow> 'm mem_model \<Rightarrow> u64 \<Rightarrow> 'd \<times> 'm boot \<Rightarrow> flush_report \<times> 'd \<times> 'm boot" where
  "at_checkpoint X M timeout s =
     (case engage_precise_boundary_halt X M s of (c, s) \<Rightarrow> flush_dcache_before_arch_checkpoint X M c timeout s)"

lemma saved_text:
  assumes "at_checkpoint X M timeout s = (r, d, b)"
  shows "fst (save_arch_checkpoint X M D L timeout patches dbg Io_Ok s) =
    (True, checkpoint_text L patches dbg (h_stop_reason (hs (snd s))) (dut_view X d) r (rom_img (hs b)) (mem_data D (h_mem (hs b))) b)"
proof -
  obtain c s1 where fields: "engage_precise_boundary_halt X M s = (c, s1)" by (cases "engage_precise_boundary_halt X M s")
  then have "flush_dcache_before_arch_checkpoint X M c timeout s1 = (r, d, b)" using assms by (simp add: at_checkpoint_def)
  then show ?thesis using fields by (simp add: save_arch_checkpoint_def checkpoint_text_def)
qed

definition saveable :: "'m mem_image \<Rightarrow> mem_layout \<Rightarrow> patch_list \<Rightarrow> 'm boot \<Rightarrow> bool" where
  "saveable D L patches b \<longleftrightarrow>
     layout_ok L (length (mem_data D (h_mem (hs b)))) \<and> rom_img (hs b) \<noteq> [] \<and> length (rom_img (hs b)) \<le> unat Q700_ROM_SIZE \<and>
     (\<forall>p \<in> set patches. printable p)"

text \<open>
  C4 An architectural checkpoint is complete: when the core is quiesced, the data cache flushed and the
  next PC known, the replay accepts the text that \<open>save_arch_checkpoint\<close> wrote and reads back every
  register, control register, translation register and adapter register of the saved state
  (\<open>restored_checkpoint\<close>), the whole ROM, and each byte of the RAM, VRAM and magic segments; the bytes
  outside the segments stay as they were, and no data line stores outside its block.
\<close>

theorem arch_checkpoint_roundtrip:
  assumes "at_checkpoint X M timeout s = (r, d, b)" "resumable L (dut_view X d) r b" "saveable D L patches b"
    "length raw0 = length (mem_data D (h_mem (hs b)))"
  shows "\<exists>text st. fst (save_arch_checkpoint X M D L timeout patches dbg Io_Ok s) = (True, text) \<and>
    parse_arch_replay_checkpoint L (Some text) rom0 raw0 = Some st \<and>
    rp_cp st = restored_checkpoint (dut_view X d) r b \<and> rp_rom st = rom_img (hs b) \<and> length (rp_raw st) = length raw0 \<and>
    (\<forall>i < length raw0. rp_raw st ! i = (if in_layout L i then mem_data D (h_mem (hs b)) ! i else raw0 ! i)) \<and> \<not> wild_store st"
proof -
  have b: "layout_ok L (length (mem_data D (h_mem (hs b))))" "rom_img (hs b) \<noteq> []" "length (rom_img (hs b)) \<le> unat Q700_ROM_SIZE"
    "\<forall>p \<in> set patches. printable p" using assms(3) by (simp_all add: saveable_def)
  obtain st where "parse_arch_replay_checkpoint L (Some (checkpoint_text L patches dbg (h_stop_reason (hs (snd s))) (dut_view X d) r
      (rom_img (hs b)) (mem_data D (h_mem (hs b))) b)) rom0 raw0 = Some st"
    "rp_cp st = restored_checkpoint (dut_view X d) r b" "rp_rom st = rom_img (hs b)"
    "rp_raw st = restored_memory L (mem_data D (h_mem (hs b))) raw0" "\<not> wild_store st"
    by (rule parse_checkpoint [OF assms(2) b(1) assms(4) b(2-4)])
  then show ?thesis using saved_text [OF assms(1), of D L patches dbg] restored_memory_nth [OF b(1) assms(4)] assms(4) by simp
qed

text \<open>
  C6 Only a checkpoint that can be resumed is accepted: the text saved while the pipeline or the data
  cache was still busy, after a flush that timed out, with no observed next PC (or the PC 0 or
  0xFFFFFFFF), or with a RAM window the memory does not have, is refused by the replay.
\<close>

theorem arch_replay_refuses:
  assumes "at_checkpoint X M timeout s = (r, d, b)" "\<not> resumable L (dut_view X d) r b" "saveable D L patches b"
    "length (mem_data D (h_mem (hs b0))) = length (mem_data D (h_mem (hs b)))"
    "fst (save_arch_checkpoint X M D L timeout patches dbg Io_Ok s) = (ok, text)"
  shows "apply_arch_replay X D L active (Some text) (d0, b0) = None"
proof -
  have b: "layout_ok L (length (mem_data D (h_mem (hs b))))" "rom_img (hs b) \<noteq> []" "length (rom_img (hs b)) \<le> unat Q700_ROM_SIZE"
    "\<forall>p \<in> set patches. printable p" using assms(3) by (simp_all add: saveable_def)
  have "text = checkpoint_text L patches dbg (h_stop_reason (hs (snd s))) (dut_view X d) r (rom_img (hs b)) (mem_data D (h_mem (hs b))) b"
    using saved_text [OF assms(1), of D L patches dbg] assms(5) by simp
  then have "parse_arch_replay_checkpoint L (Some text) (rom_img (hs b0)) (mem_data D (h_mem (hs b0))) = None"
    using unresumable_refused [OF assms(2) b(1) assms(4) b(2-4)] by simp
  then show ?thesis by (simp add: apply_arch_replay_def)
qed

section \<open>Loading the core\<close>

definition load_core :: "'d dut_model \<Rightarrow> arch_load \<Rightarrow> 'd \<Rightarrow> 'd" where
  "load_core X l d = dut_eval X idle_ctl (dut_tick X (idle_ctl\<lparr> c_load := l \<rparr>) no_fetch quiet_daxi d)"

lemma pulses: "fold (pulse_load X) ls (d, b) = (fold (load_core X) ls d, map_hs (tick_cycle ^^ length ls) b)"
proof (induction ls arbitrary: d b)
  case (Cons l ls)
  have "map_hs (tick_cycle ^^ length ls) (map_hs tick_cycle b) = map_hs (tick_cycle ^^ length (l # ls)) b"
    by (simp add: map_hs_def funpow_swap1)
  then show ?case using Cons by (simp add: pulse_load_def load_core_def comp_def)
qed (simp add: map_hs_def)

lemma ticks_keep:
  "overlay (sys ((tick_cycle ^^ n) h)) = overlay (sys h)" "rom_img ((tick_cycle ^^ n) h) = rom_img h"
  "h_mem ((tick_cycle ^^ n) h) = h_mem h" "visible_ram_size ((tick_cycle ^^ n) h) = visible_ram_size h"
  "rtc_chip (sys ((tick_cycle ^^ n) h)) = rtc_chip (sys h)" "ax ((tick_cycle ^^ n) h) = ax h"
  "if_pending ((tick_cycle ^^ n) h) = if_pending h" "h_scc ((tick_cycle ^^ n) h) = h_scc h"
  by (induction n) (simp_all add: tick_cycle_def via1_timer_tick_def via1_adb_tick_def Let_def)

lemma length_replay_loads: "length (replay_loads cp) = 39"
  by (simp add: replay_loads_def Let_def)

text \<open>One clock of the adapter at time \<open>t\<close>, and the part of the state it works on.\<close>

definition adapter_clock :: "u64 \<Rightarrow> via_sys \<Rightarrow> via_sys" where
  "adapter_clock t s = via1_timer_tick (via1_adb_tick (s\<lparr> host_cycle := t \<rparr>))"

definition adapter :: "via_sys \<Rightarrow> via1 \<times> u64 \<times> u64" where
  "adapter s = (via s, via1_timer_div s, via1_timer_div_ctr s)"

fun timer_clock :: "via1 \<times> u64 \<times> u64 \<Rightarrow> via1 \<times> u64 \<times> u64" where
  "timer_clock (v, d, k) =
     (if \<not> t1_running v \<and> \<not> t2_running v then (v, d, k)
      else let d = (if d = 0 then 1 else d) in (if (k + 1) mod d \<noteq> 0 then v else t2_tick (t1_tick v), d, k + 1))"

fun shift_clock :: "u64 \<Rightarrow> via1 \<times> u64 \<times> u64 \<Rightarrow> via1 \<times> u64 \<times> u64" where
  "shift_clock t (v, d, k) =
     (if adb_shift_in_progress v \<and> adb_shift_complete_cyc v \<le> t then v\<lparr> ifr := ifr v OR 0x04, adb_shift_in_progress := False \<rparr> else v, d, k)"

lemma adapter_timer_tick: "adapter (via1_timer_tick s) = timer_clock (adapter s)"
  by (simp add: adapter_def via1_timer_tick_def Let_def)

lemma adapter_adb_tick: "adapter (via1_adb_tick (s\<lparr> host_cycle := t \<rparr>)) = shift_clock t (adapter s)"
  by (simp add: adapter_def via1_adb_tick_def)

lemma adapter_clock_cong: "adapter s = adapter s' \<Longrightarrow> adapter (adapter_clock t s) = adapter (adapter_clock t s')"
  by (simp only: adapter_clock_def adapter_timer_tick adapter_adb_tick)

lemma adapter_clocks_cong: "adapter s = adapter s' \<Longrightarrow> adapter (fold adapter_clock ts s) = adapter (fold adapter_clock ts s')"
proof (induction ts arbitrary: s s')
  case (Cons t ts)
  from Cons.IH [OF adapter_clock_cong [OF Cons.prems, of t]] show ?case by simp
qed simp

lemma ticks_clock_adapter:
  "sys ((tick_cycle ^^ n) h) = fold adapter_clock (map (\<lambda>k. sim_time h + of_nat k) [1..<Suc n]) (sys h) \<and>
   sim_time ((tick_cycle ^^ n) h) = sim_time h + of_nat n"
  by (induction n) (simp_all add: tick_cycle_def adapter_clock_def Let_def add_ac)

text \<open>The registers no clock changes: ports, directions, latches, shift data and control.\<close>

definition steady :: "via1 \<Rightarrow> via1" where
  "steady v = v\<lparr> t1cl := 0, t1ch := 0, t2cl := 0, t2ch := 0, ifr := 0, t1_running := False, t1_counter := 0, t2_running := False,
     t2_counter := 0, adb_shift_in_progress := False \<rparr>"

definition at_rest :: "via1 \<Rightarrow> bool" where
  "at_rest v \<longleftrightarrow> \<not> t1_running v \<and> \<not> t2_running v \<and> \<not> adb_shift_in_progress v"

lemma steady_tick:
  "steady (t1_tick v) = steady v" "steady (t2_tick v) = steady v"
  "steady (v\<lparr> ifr := x, adb_shift_in_progress := False \<rparr>) = steady v"
  by (simp_all add: t1_tick_def t2_tick_def set_t1_bytes_def set_t2_bytes_def steady_def Let_def)

lemma adapter_clock_steady: "steady (via (adapter_clock t s)) = steady (via s)"
proof -
  have "steady (fst (timer_clock a)) = steady (fst a)" for a by (cases a) (simp add: steady_tick Let_def)
  moreover have "steady (fst (shift_clock t a)) = steady (fst a)" for a by (cases a) (simp add: steady_tick)
  moreover have "via s = fst (adapter s)" for s by (simp add: adapter_def)
  ultimately show ?thesis by (simp only: adapter_clock_def adapter_timer_tick adapter_adb_tick)
qed

lemma adapter_clocks_steady: "steady (via (fold adapter_clock ts s)) = steady (via s)"
  by (induction ts arbitrary: s) (simp_all add: adapter_clock_steady)

lemma adapter_clocks_rest: "at_rest (via s) \<Longrightarrow> via (fold adapter_clock ts s) = via s"
proof (induction ts arbitrary: s)
  case (Cons t ts)
  then have "via (adapter_clock t s) = via s"
    by (simp add: at_rest_def adapter_clock_def via1_adb_tick_def via1_timer_tick_def)
  with Cons show ?case by simp
qed simp

text \<open>
  What the adapter of the resumed harness is: the saved registers, with the timers and the shift run through the 39 clocks that
  the loads take, at the times of the harness that replays.
\<close>

definition resumed_adapter :: "'m boot \<Rightarrow> 'm boot \<Rightarrow> 'm boot \<Rightarrow> bool" where
  "resumed_adapter b b0 b1 \<longleftrightarrow>
     (let s = sys (hs b); s' = s\<lparr> via1_timer_div := (if via1_timer_div s = 0 then 1 else via1_timer_div s) \<rparr> in
      adapter (sys (hs b1)) = adapter (fold adapter_clock (map (\<lambda>k. sim_time (hs b0) + of_nat k) [1..<40]) s') \<and>
      steady (via (sys (hs b1))) = steady (via s) \<and> (at_rest (via s) \<longrightarrow> via (sys (hs b1)) = via s))"

text \<open>What a resumed harness shares with the saved one.\<close>

definition resumed :: "mem_layout \<Rightarrow> 'm mem_image \<Rightarrow> patch_list \<Rightarrow> arch_view \<Rightarrow> 'm boot \<Rightarrow> 'm boot \<Rightarrow> 'm boot \<Rightarrow> bool" where
  "resumed L D active v b b0 b1 \<longleftrightarrow>
     arch_next_pc b1 = (arch_next_pc b)\<lparr> np_committed := av_committed v \<rparr> \<and> q700 b1 = q700 b \<and>
     rom_img (hs b1) = snd (apply_active_rom_patches active (rom_img (hs b))) \<and>
     h_mem (hs b1) = mem_load D (restored_memory L (mem_data D (h_mem (hs b))) (mem_data D (h_mem (hs b0)))) (h_mem (hs b0)) \<and>
     overlay (sys (hs b1)) = overlay (sys (hs b)) \<and> visible_ram_size (hs b1) = visible_ram_size (hs b) \<and>
     data_line (rtc_chip (sys (hs b1))) = data_line (rtc_chip (sys (hs b))) \<and> ax (hs b1) = initial_axi \<and> if_pending (hs b1) = 0 \<and>
     sim_time (hs b1) = sim_time (hs b) \<and> host_cycle (sys (hs b1)) = sim_time (hs b) \<and>
     h_stop_reason (hs b1) = Arch_Replay_Restored \<and> \<not> test_done (hs b1) \<and> resumed_adapter b b0 b1"

lemma replayed_adapter:
  fixes b0 :: "'m boot"
  assumes "hs b2 = (tick_cycle ^^ 39) g" "sim_time g = sim_time (hs b0)"
    "adapter (sys g) = adapter ((sys (hs b))\<lparr> via1_timer_div := (if via1_timer_div (sys (hs b)) = 0 then 1 else via1_timer_div (sys (hs b))) \<rparr>)"
  shows "resumed_adapter b b0 (finish_replay cp b2)"
proof -
  let ?s = "(sys (hs b))\<lparr> via1_timer_div := (if via1_timer_div (sys (hs b)) = 0 then 1 else via1_timer_div (sys (hs b))) \<rparr>"
  have "adapter (sys (hs (finish_replay cp b2))) = adapter (sys (hs b2))" by (simp add: finish_replay_def map_hs_def adapter_def)
  also have "\<dots> = adapter (fold adapter_clock (map (\<lambda>k. sim_time (hs b0) + of_nat k) [1..<40]) (sys g))"
    using ticks_clock_adapter [of 39 g] assms(1,2) by (simp del: upt_rec_numeral)
  also have "\<dots> = adapter (fold adapter_clock (map (\<lambda>k. sim_time (hs b0) + of_nat k) [1..<40]) ?s)"
    by (rule adapter_clocks_cong) (rule assms(3))
  finally have a: "adapter (sys (hs (finish_replay cp b2))) =
    adapter (fold adapter_clock (map (\<lambda>k. sim_time (hs b0) + of_nat k) [1..<40]) ?s)" .
  then have "via (sys (hs (finish_replay cp b2))) = via (fold adapter_clock (map (\<lambda>k. sim_time (hs b0) + of_nat k) [1..<40]) ?s)"
    by (simp add: adapter_def del: upt_rec_numeral)
  then show ?thesis
    unfolding resumed_adapter_def Let_def
    using a adapter_clocks_steady [of "map (\<lambda>k. sim_time (hs b0) + of_nat k) [1..<40]" ?s]
      adapter_clocks_rest [of ?s "map (\<lambda>k. sim_time (hs b0) + of_nat k) [1..<40]"] by (simp del: upt_rec_numeral)
qed

text \<open>
  C5 Resuming: replaying a saved checkpoint drives the 39 debug loads of the saved registers into the
  core in order (PC, the sixteen data and address registers, the three temporaries cleared, condition
  codes, control and translation registers, PC again) and leaves the harness with the saved ROM with
  the active patches on it, the saved memory, descriptor, overlay, RAM window, clock line, time and
  next PC, quiet ports, and the run not finished.  The adapter gets all its saved registers; the loads then clock it 39
  times, so ports, directions, latches and control registers are exactly the saved ones, running timers and a shift under way are
  exactly 39 clocks further, and an adapter at rest is restored unchanged.
\<close>

theorem arch_replay_resumes:
  assumes "at_checkpoint X M timeout s = (r, d, b)" "resumable L (dut_view X d) r b" "saveable D L patches b"
    "length (mem_data D (h_mem (hs b0))) = length (mem_data D (h_mem (hs b)))"
    "fst (save_arch_checkpoint X M D L timeout patches dbg Io_Ok s) = (ok, text)"
    "fst (apply_active_rom_patches active (rom_img (hs b)))"
  shows "\<exists>b1. apply_arch_replay X D L active (Some text) (d0, b0) =
      Some (fold (load_core X) (replay_loads (restored_checkpoint (dut_view X d) r b)) d0, b1) \<and>
    resumed L D active (dut_view X d) b b0 b1"
proof -
  let ?cp = "restored_checkpoint (dut_view X d) r b"
  have b: "layout_ok L (length (mem_data D (h_mem (hs b))))" "rom_img (hs b) \<noteq> []" "length (rom_img (hs b)) \<le> unat Q700_ROM_SIZE"
    "\<forall>p \<in> set patches. printable p" using assms(3) by (simp_all add: saveable_def)
  have t: "text = checkpoint_text L patches dbg (h_stop_reason (hs (snd s))) (dut_view X d) r (rom_img (hs b)) (mem_data D (h_mem (hs b))) b"
    using saved_text [OF assms(1), of D L patches dbg] assms(5) by simp
  obtain st where st: "parse_arch_replay_checkpoint L (Some text) (rom_img (hs b0)) (mem_data D (h_mem (hs b0))) = Some st"
    "rp_cp st = ?cp" "rp_rom st = rom_img (hs b)" "rp_raw st = restored_memory L (mem_data D (h_mem (hs b))) (mem_data D (h_mem (hs b0)))"
    unfolding t by (rule parse_checkpoint [OF assms(2) b(1) assms(4) b(2-4)])
  let ?rom = "snd (apply_active_rom_patches active (rom_img (hs b)))"
  let ?bb = "restore_io ?cp (map_hs (\<lambda>h. h\<lparr> rom_img := ?rom, h_mem := mem_load D (rp_raw st) (h_mem h) \<rparr>) b0)"
  let ?fin = "finish_replay ?cp (map_hs (tick_cycle ^^ length (replay_loads ?cp)) ?bb)"
  have r: "apply_arch_replay X D L active (Some text) (d0, b0) = Some (fold (load_core X) (replay_loads ?cp) d0, ?fin)"
    using st(1-3) assms(6) by (simp add: apply_arch_replay_def pulses split_beta Let_def)
  have "np_valid (arch_next_pc b)" using assms(2) by (simp add: resumable_def)
  moreover have "resumed_adapter b b0 ?fin"
    by (rule replayed_adapter [of _ "hs ?bb"])
       (simp_all add: length_replay_loads map_hs_def restore_io_def reset_replay_io_state_def restored_checkpoint_def restore_via1_def
          adapter_def Let_def)
  ultimately have "resumed L D active (dut_view X d) b b0 ?fin"
    by (simp add: resumed_def finish_replay_def map_hs_def ticks_keep restore_io_def reset_replay_io_state_def restored_checkpoint_def
        restore_via1_def st(4) Let_def)
  with r show ?thesis by blast
qed

section \<open>A calm core\<close>

text \<open>A core that is always quiesced and reports the flush done after one clock, and a memory of four
  bytes, to apply the properties to.\<close>

definition calm_view :: "bool \<Rightarrow> arch_view" where
  "calm_view flushed =
     \<lparr> av_committed = 7, av_pc = 0, av_last_pc = 0x40800010, av_actual_next = 0x40800012, av_ccr = 4, av_sr = 0x2700,
       av_reg = (\<lambda>i. of_nat i), av_vbr = 0, av_cacr = 0, av_sfc = 0, av_dfc = 0, av_usp = 0, av_ssp = 0, av_isp = 0, av_tc = 0,
       av_itt0 = 0, av_itt1 = 0, av_dtt0 = 0, av_dtt1 = 0, av_urp = 0, av_srp = 0, av_rob_head = 3, av_rob_tail = 3, av_int_iq = 0,
       av_mem_iq = 0, av_lsu_busy = False, av_exc_active = False, av_cache_maint_wait = False, av_dcache_state = 0,
       av_fq_valid0 = False, av_fq_valid1 = False, av_flush_done = flushed \<rparr>"

definition calm_core :: "bool dut_model" where
  "calm_core = \<lparr> dut_view = calm_view, dut_daxi = (\<lambda>_. idle_pins), dut_tick = (\<lambda>c _ _ _. c_flush_req c), dut_eval = (\<lambda>_ d. d) \<rparr>"

definition byte_image :: "(u32 \<Rightarrow> u8) mem_image" where
  "byte_image = \<lparr> mem_data = (\<lambda>m. map (m \<circ> of_nat) [0..<8]),
     mem_load = (\<lambda>bs m a. if unat a < length bs then bs ! unat a else m a) \<rparr>"

definition byte_layout :: mem_layout where
  "byte_layout =
     \<lparr> lay_ram = \<lparr> ms_base = 0, ms_off = 0, ms_size = 4 \<rparr>, lay_vram = \<lparr> ms_base = 0xF9000000, ms_off = 4, ms_size = 2 \<rparr>,
       lay_magic = \<lparr> ms_base = 0xFFFF0000, ms_off = 6, ms_size = 1 \<rparr>, lay_fill = 0xFF, lay_window_min = 4,
       lay_window_default = 4 \<rparr>"

definition calm_boot :: "bool \<Rightarrow> (u32 \<Rightarrow> u8) boot" where
  "calm_boot known = (flat_boot 0 default_config)\<lparr>
     hs := flat_harness\<lparr> visible_ram_size := 4, h_mem := (\<lambda>_. 0xFF)(1 := 0x42, 5 := 0x99) \<rparr>,
     arch_next_pc := \<lparr> np_valid = known, np_pc = 0x40800012, np_commit_pc = 0x40800010, np_committed = 7 \<rparr> \<rparr>"

lemma quiet_port:
  "\<not> ar_outstanding (ax h) \<Longrightarrow> \<not> b_pending (ax h) \<Longrightarrow> \<not> aw_done (ax h) \<Longrightarrow> snd (drive_daxi M idle_pins h) = h"
  by (cases h) (simp add: drive_daxi_def accept_ar_def drive_read_def accept_aw_w_def commit_write_def drive_b_def idle_pins_def)

definition calm_report :: flush_report where
  "calm_report = \<lparr> fr_attempted = True, fr_completed = True, fr_start_cycle = 0, fr_end_cycle = 1, fr_start_committed = 7,
     fr_end_committed = 7 \<rparr>"

definition calm_end :: "bool \<Rightarrow> (u32 \<Rightarrow> u8) boot" where
  "calm_end known = map_hs tick_cycle (calm_boot known)"

lemma calm_checkpoint: "at_checkpoint calm_core flat_mem 1 (False, calm_boot known) = (calm_report, True, calm_end known)"
proof -
  have q: "arch_checkpoint_quiesced (calm_view f)" for f by (simp add: arch_checkpoint_quiesced_def calm_view_def)
  have "drain_cycle calm_core flat_mem c (d, calm_boot known) = (c_flush_req c, calm_end known)" for c d
    using quiet_port [of "hs (calm_boot known)" flat_mem]
    by (simp add: drain_cycle_def calm_core_def calm_end_def map_hs_def split_beta calm_boot_def flat_boot_def flat_harness_def initial_axi_def)
  moreover have "map_hs (\<lambda>h. h\<lparr> stop_cycle := 0 \<rparr>) (calm_boot known) = calm_boot known"
    by (simp add: map_hs_def calm_boot_def flat_boot_def flat_harness_def)
  moreover have "\<not> precise_boundary_pending (calm_boot known)" "sim_time (hs (calm_boot known)) = 0" "sim_time (hs (calm_end known)) = 1"
    "map_hs (\<lambda>h. h\<lparr> stop_cycle := stop_cycle (hs (calm_boot known)), test_done := test_done (hs (calm_boot known)),
       h_stop_reason := h_stop_reason (hs (calm_boot known)) \<rparr>) (calm_end known) = calm_end known"
    by (simp_all add: calm_end_def map_hs_def calm_boot_def flat_boot_def flat_harness_def tick_cycle_def Let_def)
  ultimately show ?thesis
    by (simp add: at_checkpoint_def engage_precise_boundary_halt_def flush_dcache_before_arch_checkpoint_def calm_core_def q
        note_commit_progress_def calm_report_def) (simp add: calm_view_def)
qed

lemma calm_facts:
  "resumable byte_layout (dut_view calm_core True) calm_report (calm_end True)"
  "\<not> resumable byte_layout (dut_view calm_core True) calm_report (calm_end False)"
  "saveable byte_image byte_layout [] (calm_end known)"
  "length (mem_data byte_image (h_mem (hs b))) = 8"
  "rom_img (hs (calm_end known)) = [0x42, 0x0D, 0xBF, 0xF3]" "mem_data byte_image (h_mem (hs (calm_end known))) ! 5 = 0x99"
proof -
  have "visible_ram_size (hs (calm_end known)) = 4" "arch_next_pc (calm_end known) = arch_next_pc (calm_boot known)" for known
    by (simp_all add: calm_end_def map_hs_def tick_cycle_def Let_def calm_boot_def)
  then show "resumable byte_layout (dut_view calm_core True) calm_report (calm_end True)"
    "\<not> resumable byte_layout (dut_view calm_core True) calm_report (calm_end False)"
    by (simp_all add: resumable_def arch_checkpoint_quiesced_def calm_core_def calm_view_def calm_report_def calm_boot_def
        bad_window_def byte_layout_def)
  show rom: "rom_img (hs (calm_end known)) = [0x42, 0x0D, 0xBF, 0xF3]" "mem_data byte_image (h_mem (hs (calm_end known))) ! 5 = 0x99"
    by (simp_all add: calm_end_def map_hs_def tick_cycle_def Let_def calm_boot_def flat_harness_def byte_image_def)
  then show "saveable byte_image byte_layout [] (calm_end known)"
    by (simp add: saveable_def byte_image_def layout_ok_def inside_def byte_layout_def Q700_ROM_SIZE_def)
qed (simp add: byte_image_def)

theorem arch_checkpoint_roundtrip_witness:
  "\<exists>st. parse_arch_replay_checkpoint byte_layout
      (Some (snd (fst (save_arch_checkpoint calm_core flat_mem byte_image byte_layout 1 [] (0, 0, 0) Io_Ok (False, calm_boot True)))))
      [] [0, 0, 0, 0, 0, 0, 0, 0] = Some st \<and> rp_rom st = [0x42, 0x0D, 0xBF, 0xF3] \<and> rp_raw st ! 5 = 0x99 \<and> rp_raw st ! 7 = 0"
proof -
  have i: "in_layout byte_layout 5" "\<not> in_layout byte_layout 7" by (simp_all add: in_layout_def covers_def byte_layout_def)
  let ?raw = "[0, 0, 0, 0, 0, 0, 0, 0] :: u8 list"
  have "length ?raw = length (mem_data byte_image (h_mem (hs (calm_end True))))" by (simp add: calm_facts(4))
  from arch_checkpoint_roundtrip [OF calm_checkpoint calm_facts(1,3) this, of "(0, 0, 0)" "[]"]
  obtain out st where st: "fst (save_arch_checkpoint calm_core flat_mem byte_image byte_layout 1 [] (0, 0, 0) Io_Ok (False, calm_boot True)) =
      (True, out)" "parse_arch_replay_checkpoint byte_layout (Some out) [] ?raw = Some st" "rp_rom st = rom_img (hs (calm_end True))"
    "\<forall>i < length ?raw. rp_raw st ! i = (if in_layout byte_layout i then mem_data byte_image (h_mem (hs (calm_end True))) ! i else ?raw ! i)"
    by (elim exE conjE) (rule that; assumption)
  have "rp_raw st ! 5 = 0x99" "rp_raw st ! 7 = 0" using st(4) [rule_format, of 5] st(4) [rule_format, of 7] i calm_facts(6) by simp_all
  then show ?thesis using st(1-3) calm_facts(5) by simp
qed

theorem arch_replay_refuses_witness:
  "apply_arch_replay calm_core byte_image byte_layout []
     (Some (snd (fst (save_arch_checkpoint calm_core flat_mem byte_image byte_layout 1 [] (0, 0, 0) Io_Ok (False, calm_boot False)))))
     (False, calm_boot False) = None"
  by (rule arch_replay_refuses [OF calm_checkpoint calm_facts(2,3), where dbg = "(0, 0, 0)"]) (simp only: calm_facts(4), rule prod.collapse [symmetric])

theorem arch_replay_resumes_witness:
  "\<exists>b1. apply_arch_replay calm_core byte_image byte_layout []
     (Some (snd (fst (save_arch_checkpoint calm_core flat_mem byte_image byte_layout 1 [] (0, 0, 0) Io_Ok (False, calm_boot True)))))
     (False, calm_boot False) = Some (False, b1) \<and> np_pc (arch_next_pc b1) = 0x40800012 \<and> \<not> test_done (hs b1)"
proof -
  have "fold (load_core calm_core) ls d = (if ls = [] then d else False)" for ls d
    by (induction ls arbitrary: d) (simp_all add: load_core_def calm_core_def idle_ctl_def)
  then have "fold (load_core calm_core) (replay_loads cp) False = False" for cp by simp
  moreover have "np_pc (arch_next_pc (calm_end True)) = 0x40800012" by (simp add: calm_end_def map_hs_def calm_boot_def)
  moreover have "fst (apply_active_rom_patches [] (rom_img (hs (calm_end True))))" by (simp add: apply_active_rom_patches_def)
  ultimately show ?thesis
    using arch_replay_resumes [OF calm_checkpoint calm_facts(1,3) _ prod.collapse [symmetric], where ?b0.0 = "calm_boot False" and dbg = "(0, 0, 0)" and active = "[]" and ?d0.0 = False]
    by (auto simp: calm_facts(4) resumed_def)
qed

section \<open>What a replay does not give back\<close>

lemma t2_keeps_t1: "t1_running (t2_tick w) = t1_running w" "t1_counter (t2_tick w) = t1_counter w"
  by (simp_all add: t2_tick_def set_t2_bytes_def Let_def)

lemma adb_keeps_timers:
  "t1_running (via (via1_adb_tick s)) = t1_running (via s)" "t1_counter (via (via1_adb_tick s)) = t1_counter (via s)"
  "via1_timer_div (via1_adb_tick s) = via1_timer_div s"
  by (simp_all add: via1_adb_tick_def)

lemma t1_tick_running:
  "t1_running w \<Longrightarrow> t1_counter w \<noteq> 0 \<Longrightarrow> t1_counter w - 1 \<noteq> 0 \<Longrightarrow> t1_running (t1_tick w) \<and> t1_counter (t1_tick w) = t1_counter w - 1"
  by (simp add: t1_tick_def set_t1_bytes_def Let_def)

lemma timer1_tick:
  assumes "t1_running (via (sys h))" "via1_timer_div (sys h) = 1" "t1_counter (via (sys h)) \<noteq> 0" "t1_counter (via (sys h)) - 1 \<noteq> 0"
  shows "t1_running (via (sys (tick_cycle h))) \<and> via1_timer_div (sys (tick_cycle h)) = 1 \<and>
    t1_counter (via (sys (tick_cycle h))) = t1_counter (via (sys h)) - 1"
proof -
  let ?s = "via1_adb_tick ((sys h)\<lparr> host_cycle := sim_time h + 1 \<rparr>)"
  have "sys (tick_cycle h) = via1_timer_tick ?s" by (simp add: tick_cycle_def Let_def)
  moreover have "via (via1_timer_tick ?s) = t2_tick (t1_tick (via ?s)) \<and> via1_timer_div (via1_timer_tick ?s) = 1"
    using assms(1,2) by (simp add: via1_timer_tick_def adb_keeps_timers Let_def)
  ultimately show ?thesis using assms(1,3,4) t1_tick_running [of "via ?s"] by (simp add: t2_keeps_t1 adb_keeps_timers)
qed

lemma timer1_ticks:
  assumes "t1_running (via (sys h))" "via1_timer_div (sys h) = 1" "n < unat (t1_counter (via (sys h)))"
  shows "t1_running (via (sys ((tick_cycle ^^ n) h))) \<and> via1_timer_div (sys ((tick_cycle ^^ n) h)) = 1 \<and>
    t1_counter (via (sys ((tick_cycle ^^ n) h))) = t1_counter (via (sys h)) - of_nat n"
  using assms(3)
proof (induction n)
  case 0 then show ?case using assms by simp
next
  case (Suc n)
  let ?g = "(tick_cycle ^^ n) h" and ?c = "t1_counter (via (sys h))"
  have g: "t1_running (via (sys ?g))" "via1_timer_div (sys ?g) = 1" "t1_counter (via (sys ?g)) = ?c - of_nat n"
    using Suc by simp_all
  have "?c \<noteq> of_nat m" if "m < unat ?c" for m
    using that unsigned_less [of ?c] by (auto simp: unat_of_nat take_bit_nat_eq_self)
  then have "?c - of_nat n \<noteq> 0" "?c - of_nat (Suc n) \<noteq> 0" using Suc(2) Suc_lessD by (metis right_minus_eq)+
  then show ?case using timer1_tick [OF g(1,2)] g(3) by (simp add: diff_diff_eq add.commute)
qed

text \<open>
  The adapter is restored before the 39 loads are clocked in, and each of these clocks also runs its
  timers: with one tick per clock a running Timer 1 resumes 39 counts later than it was saved.  The
  serial controller is not reset.
\<close>

lemma replay_advances_timer1:
  assumes "t1_running (io_via1 (cp_io cp))" "via1_timer_div_snapshot (cp_io cp) = 1" "39 < unat (t1_counter (io_via1 (cp_io cp)))"
    "has_io_via1 (cp_seen cp)"
  shows "t1_counter (via (sys (hs (finish_replay cp (snd (fold (pulse_load X) (replay_loads cp) (d, restore_io cp b))))))) =
    t1_counter (io_via1 (cp_io cp)) - 39"
  using assms timer1_ticks [of "hs (restore_io cp b)" 39]
  by (simp add: pulses length_replay_loads finish_replay_def map_hs_def restore_io_def restore_via1_def Let_def)

lemma replay_keeps_serial_state: "h_scc (hs (restore_io cp b)) = h_scc (hs b)"
  by (simp add: restore_io_def reset_replay_io_state_def map_hs_def Let_def)

text \<open>
  The bound on a data line is computed at 64 bits: an offset of 0xFFFFFFFFFFFFFFFF with one byte passes
  it, and the byte goes in front of the block.
\<close>

lemma data_line_wraps:
  assumes "rs_active (rp_seg st)" "rp_target st = Some In_Rom" "length (rp_rom st) \<le> unat Q700_ROM_SIZE"
  shows "replay_data_line (chunk_line (unat (- 1 :: u64), [0])) st = Some (st\<lparr> wild_store := True \<rparr>)"
proof -
  obtain n where n: "n = unat (- 1 :: u64)" by simp
  have minus: "n = 2 ^ 64 - 1" by (simp add: n unsigned_minus_1_eq_mask mask_eq_exp_minus_1)
  have k: "token_value (chunk_line (n, [0])) key =
      map_of [(''off'', fmt_x 8 n), (''bytes'', fmt_u (length [0 :: u8])), (''hex'', fprint_hex_bytes [0])] key"
    if "key \<in> set [''off'', ''bytes'', ''hex'']" for key by (rule chunk_tokens) (use that in simp_all)
  have off: "parse_u64_field (fmt_x 8 n) = Some (- 1)" unfolding n by (rule parse_fmt_u64)
  have one: "parse_u32_field (fmt_u (length [0 :: u8])) = Some 1" using parse_fmt_u32(2) [of 1] by simp
  have hex: "fprint_hex_bytes [0] = ''00''" "parse_hex_byte_pair (CHR ''0'') (CHR ''0'') = Some 0" by code_simp+
  have "\<not> n < length (rp_rom st)" using assms(3) by (simp add: minus Q700_ROM_SIZE_def)
  then have poke: "poke_target In_Rom (- 1) 0 st = st\<lparr> wild_store := True \<rparr>" by (simp add: poke_target_def n)
  have "parse_u64_token (chunk_line (n, [0])) ''off'' = Some (- 1)" "parse_u32_token (chunk_line (n, [0])) ''bytes'' = Some 1"
    "token_value (chunk_line (n, [0])) ''hex'' = Some ''00''"
    using off one hex(1) by (simp_all add: parse_u64_token_def parse_u32_token_def k)
  then show ?thesis using assms(1,2) hex(2) poke unfolding n [symmetric] by (simp add: replay_data_line_def)
qed

end
