(* ===== verification/L2c_Memory.thy ===== *)
theory L2c_Memory
  imports Soc_Prelude
begin

unbundle bit_operations_syntax

text \<open>
  The memory side of the test bench of the level-2 cache (\<open>tb/tb_l2c.cpp\<close>): the memory slave on the
  master port of the cache with its random latencies and gates, the bench's own hooks on it, and the
  two monitors on the port (payload stability and direction of the bypass traffic).

  The design under test is not part of the model: each cycle shows its outputs as a record, and every
  property quantifies over them.  The random generator is a parameter \<open>'r \<Rightarrow> u32 \<times> 'r\<close>, so the
  properties hold for the generator of the source and for every other; the draws are made in the order
  and under the conditions of the source.  A beat is a list of sixteen bytes, a 128-bit signal a list
  of four words.  The small counts of the source that are C++ \<open>int\<close>s and never negative (beats, latencies)
  are natural numbers.  Messages are left out.
\<close>

section \<open>Wide signals\<close>

definition wide_word :: "u8 list \<Rightarrow> nat \<Rightarrow> u32" where
  "wide_word bytes w =
     ucast (bytes ! (w * 4)) OR push_bit 8 (ucast (bytes ! (w * 4 + 1))) OR push_bit 16 (ucast (bytes ! (w * 4 + 2))) OR
     push_bit 24 (ucast (bytes ! (w * 4 + 3)))"

definition set_wide_bytes :: "u8 list \<Rightarrow> nat \<Rightarrow> u32 list" where
  "set_wide_bytes bytes nbytes = map (wide_word bytes) [0..<nbytes div 4]"

definition word_bytes :: "u32 \<Rightarrow> u8 list" where
  "word_bytes v = [ucast (v AND 0xFF), ucast (drop_bit 8 v AND 0xFF), ucast (drop_bit 16 v AND 0xFF), ucast (drop_bit 24 v AND 0xFF)]"

definition get_wide_bytes :: "u32 list \<Rightarrow> nat \<Rightarrow> u8 list" where
  "get_wide_bytes sig nbytes = concat (map (\<lambda>w. word_bytes (sig ! w)) [0..<nbytes div 4])"

section \<open>The state\<close>

definition CACHEABLE_SIZE :: u64 where "CACHEABLE_SIZE = 16 * 1024 * 1024"
definition BYPASS_BASE :: u64 where "BYPASS_BASE = CACHEABLE_SIZE"
definition BYPASS_SIZE :: u64 where "BYPASS_SIZE = 1 * 1024 * 1024"
definition MEM_TOTAL :: u64 where "MEM_TOTAL = BYPASS_BASE + BYPASS_SIZE"

record ddr_timing =
  g_ddr_latency_base :: nat
  g_ddr_latency_jitter :: nat
  g_ddr_beat_gap_max :: nat

record pending_b =
  pb_id :: u32
  pb_ready_at :: u64
  pb_resp :: u8

record pending_r =
  pr_id :: u32
  pr_addr :: u64
  pr_beats :: nat
  pr_sent :: nat
  pr_ready_at :: u64
  pr_resp :: u8

record mem_hooks =
  g_mem_force_ready :: bool
  g_mem_block_rvalid :: bool
  g_mem_block_arready :: bool
  g_mem_block_awready :: bool
  g_mem_next_rresp :: u8
  g_mem_next_bresp :: u8

record mem_counts =
  g_dbg_aw_accepts :: u64
  g_dbg_w_accepts :: u64
  g_dbg_ar_accepts :: u64
  g_dbg_last_aw_addr :: u64
  g_dbg_last_aw_len :: nat
  g_aw_log_on :: bool
  g_aw_log :: "(u64 \<times> nat) list"

record 'r mem_slave =
  mv_aw_have :: bool
  mv_aw_id :: u32
  mv_aw_addr :: u64
  mv_aw_len :: nat
  mv_aw_beat :: nat
  mv_b_q :: "pending_b list"
  mv_r_q :: "pending_r list"
  ddr_rng :: 'r
  backing :: "u64 \<Rightarrow> u8"
  hooks :: mem_hooks
  counts :: mem_counts

text \<open>The inputs of the design that the slave drives, and the outputs it reads.\<close>

record m_in =
  m_awready :: bool
  m_wready :: bool
  m_arready :: bool
  m_bvalid :: bool
  m_bid :: u8
  m_bresp :: u8
  m_rvalid :: bool
  m_rid :: u8
  m_rresp :: u8
  m_rlast :: bool
  m_rdata :: "u32 list"

record m_out =
  m_awvalid :: bool
  m_awid :: u8
  m_awaddr :: u32
  m_awlen :: u8
  m_wvalid :: bool
  m_wdata :: "u32 list"
  m_wstrb :: u16
  m_bready :: bool
  m_arvalid :: bool
  m_arid :: u8
  m_araddr :: u32
  m_arlen :: u8
  m_rready :: bool

section \<open>The slave\<close>

definition lat :: "('r \<Rightarrow> u32 \<times> 'r) \<Rightarrow> ddr_timing \<Rightarrow> 'r \<Rightarrow> nat \<times> 'r" where
  "lat G T r =
     (if 0 < g_ddr_latency_jitter T then
        let (x, r) = G r in (g_ddr_latency_base T + unat x mod g_ddr_latency_jitter T, r)
      else (g_ddr_latency_base T, r))"

definition beat_gap :: "('r \<Rightarrow> u32 \<times> 'r) \<Rightarrow> ddr_timing \<Rightarrow> 'r \<Rightarrow> nat \<times> 'r" where
  "beat_gap G T r =
     (if 0 < g_ddr_beat_gap_max T then let (x, r) = G r in (unat x mod (g_ddr_beat_gap_max T + 1), r) else (0, r))"

definition gate :: "('r \<Rightarrow> u32 \<times> 'r) \<Rightarrow> nat \<Rightarrow> 'r \<Rightarrow> bool \<times> 'r" where
  "gate G pct_ready r = (let (x, r) = G r in (unat x mod 100 < pct_ready, r))"

text \<open>\<open>guard && (g_mem_force_ready || mslv.gate(80))\<close>.\<close>

definition gated :: "('r \<Rightarrow> u32 \<times> 'r) \<Rightarrow> bool \<Rightarrow> bool \<Rightarrow> 'r \<Rightarrow> bool \<times> 'r" where
  "gated G guard force r = (if \<not> guard then (False, r) else if force then (True, r) else gate G 80 r)"

definition drive_b_channel :: "u64 \<Rightarrow> 'r mem_slave \<Rightarrow> m_in \<Rightarrow> m_in" where
  "drive_b_channel t ms p =
     (case mv_b_q ms of
        f # _ \<Rightarrow> if pb_ready_at f \<le> t then p\<lparr> m_bvalid := True, m_bid := ucast (pb_id f), m_bresp := pb_resp f \<rparr>
                 else p\<lparr> m_bvalid := False \<rparr>
      | [] \<Rightarrow> p\<lparr> m_bvalid := False \<rparr>)"

definition drive_r_channel :: "u64 \<Rightarrow> 'r mem_slave \<Rightarrow> m_in \<Rightarrow> m_in" where
  "drive_r_channel t ms p =
     (case mv_r_q ms of
        f # _ \<Rightarrow>
          if \<not> g_mem_block_rvalid (hooks ms) \<and> pr_ready_at f \<le> t then
            p\<lparr> m_rvalid := True, m_rid := ucast (pr_id f), m_rresp := pr_resp f, m_rlast := (Suc (pr_sent f) = pr_beats f) \<rparr>
          else p\<lparr> m_rvalid := False \<rparr>
      | [] \<Rightarrow> p\<lparr> m_rvalid := False \<rparr>)"

definition mem_drive_comb ::
  "('r \<Rightarrow> u32 \<times> 'r) \<Rightarrow> u64 \<Rightarrow> 'r mem_slave \<times> m_in \<Rightarrow> 'r mem_slave \<times> m_in" where
  "mem_drive_comb G t s =
     (let (ms, p) = s; k = hooks ms; r = ddr_rng ms;
          (aw, r) = gated G (\<not> mv_aw_have ms \<and> \<not> g_mem_block_awready k) (g_mem_force_ready k) r;
          (w, r) = gated G (mv_aw_have ms) (g_mem_force_ready k) r;
          (ar, r) = gated G (\<not> g_mem_block_arready k) (g_mem_force_ready k) r;
          p = p\<lparr> m_awready := aw, m_wready := w, m_arready := ar \<rparr> in
      (ms\<lparr> ddr_rng := r \<rparr>, drive_r_channel t ms (drive_b_channel t ms p)))"

definition mem_bytes :: "(u64 \<Rightarrow> u8) \<Rightarrow> u64 \<Rightarrow> u8 list" where
  "mem_bytes mem a = map (\<lambda>b. if a + of_nat b < MEM_TOTAL then mem (a + of_nat b) else 0) [0..<16]"

definition mem_drive_rdata :: "u64 \<Rightarrow> 'r mem_slave \<Rightarrow> m_in \<Rightarrow> m_in" where
  "mem_drive_rdata t ms p =
     (case mv_r_q ms of
        f # _ \<Rightarrow>
          if pr_ready_at f \<le> t then
            p\<lparr> m_rdata := set_wide_bytes (mem_bytes (backing ms) (pr_addr f + of_nat (pr_sent f) * 16)) 16 \<rparr>
          else p
      | [] \<Rightarrow> p)"

text \<open>The bytes of one write beat, under their strobes.\<close>

fun store_strobed :: "u64 \<Rightarrow> u16 \<Rightarrow> u8 list \<Rightarrow> nat \<Rightarrow> (u64 \<Rightarrow> u8) \<Rightarrow> (u64 \<Rightarrow> u8)" where
  "store_strobed a strb buf 0 mem = mem"
| "store_strobed a strb buf (Suc n) mem =
     (let mem = store_strobed a strb buf n mem in
      if bit strb n \<and> a + of_nat n < MEM_TOTAL then mem(a + of_nat n := buf ! n) else mem)"

definition latch_aw :: "m_in \<Rightarrow> m_out \<Rightarrow> 'r mem_slave \<Rightarrow> 'r mem_slave" where
  "latch_aw p q ms =
     (if \<not> mv_aw_have ms \<and> m_awvalid q \<and> m_awready p then
        let a = ucast (m_awaddr q); n = unat (m_awlen q); k = counts ms in
        ms\<lparr> mv_aw_have := True, mv_aw_id := ucast (m_awid q), mv_aw_addr := a, mv_aw_len := n, mv_aw_beat := 0,
            counts := k\<lparr> g_dbg_aw_accepts := g_dbg_aw_accepts k + 1, g_dbg_last_aw_addr := a, g_dbg_last_aw_len := n,
                         g_aw_log := (if g_aw_log_on k then g_aw_log k @ [(a, n)] else g_aw_log k) \<rparr> \<rparr>
      else ms)"

text \<open>The last beat of a burst queues its response.\<close>

definition finish_write :: "('r \<Rightarrow> u32 \<times> 'r) \<Rightarrow> ddr_timing \<Rightarrow> u64 \<Rightarrow> 'r mem_slave \<Rightarrow> 'r mem_slave" where
  "finish_write G T t ms =
     (if mv_aw_beat ms = mv_aw_len ms + 1 then
        let (l, r) = lat G T (ddr_rng ms) in
        ms\<lparr> mv_b_q := mv_b_q ms @ [\<lparr> pb_id = mv_aw_id ms, pb_ready_at = t + of_nat l, pb_resp = g_mem_next_bresp (hooks ms) \<rparr>],
            hooks := (hooks ms)\<lparr> g_mem_next_bresp := 0 \<rparr>, mv_aw_have := False, ddr_rng := r \<rparr>
      else ms)"

definition latch_w :: "('r \<Rightarrow> u32 \<times> 'r) \<Rightarrow> ddr_timing \<Rightarrow> u64 \<Rightarrow> m_in \<Rightarrow> m_out \<Rightarrow> 'r mem_slave \<Rightarrow> 'r mem_slave" where
  "latch_w G T t p q ms =
     (if mv_aw_have ms \<and> m_wvalid q \<and> m_wready p then
        let a = mv_aw_addr ms + of_nat (mv_aw_beat ms) * 16; k = counts ms in
        finish_write G T t
          (ms\<lparr> backing := store_strobed a (m_wstrb q) (get_wide_bytes (m_wdata q) 16) 16 (backing ms),
               mv_aw_beat := mv_aw_beat ms + 1, counts := k\<lparr> g_dbg_w_accepts := g_dbg_w_accepts k + 1 \<rparr> \<rparr>)
      else ms)"

definition latch_b :: "m_in \<Rightarrow> m_out \<Rightarrow> 'r mem_slave \<Rightarrow> 'r mem_slave" where
  "latch_b p q ms = (if mv_b_q ms \<noteq> [] \<and> m_bvalid p \<and> m_bready q then ms\<lparr> mv_b_q := tl (mv_b_q ms) \<rparr> else ms)"

definition latch_ar :: "('r \<Rightarrow> u32 \<times> 'r) \<Rightarrow> ddr_timing \<Rightarrow> u64 \<Rightarrow> m_in \<Rightarrow> m_out \<Rightarrow> 'r mem_slave \<Rightarrow> 'r mem_slave" where
  "latch_ar G T t p q ms =
     (if m_arvalid q \<and> m_arready p then
        let (l, r) = lat G T (ddr_rng ms); k = counts ms in
        ms\<lparr> mv_r_q := mv_r_q ms @ [\<lparr> pr_id = ucast (m_arid q), pr_addr = ucast (m_araddr q), pr_beats = unat (m_arlen q) + 1,
              pr_sent = 0, pr_ready_at = t + of_nat l, pr_resp = g_mem_next_rresp (hooks ms) \<rparr>],
            hooks := (hooks ms)\<lparr> g_mem_next_rresp := 0 \<rparr>, ddr_rng := r,
            counts := k\<lparr> g_dbg_ar_accepts := g_dbg_ar_accepts k + 1 \<rparr> \<rparr>
      else ms)"

definition latch_r :: "('r \<Rightarrow> u32 \<times> 'r) \<Rightarrow> ddr_timing \<Rightarrow> u64 \<Rightarrow> m_in \<Rightarrow> m_out \<Rightarrow> 'r mem_slave \<Rightarrow> 'r mem_slave" where
  "latch_r G T t p q ms =
     (case mv_r_q ms of
        [] \<Rightarrow> ms
      | f # rest \<Rightarrow>
          if m_rvalid p \<and> m_rready q then
            let sent = pr_sent f + 1 in
            if sent < pr_beats f then
              let (g, r) = beat_gap G T (ddr_rng ms) in
              ms\<lparr> mv_r_q := f\<lparr> pr_sent := sent, pr_ready_at := t + of_nat g \<rparr> # rest, ddr_rng := r \<rparr>
            else if sent = pr_beats f then ms\<lparr> mv_r_q := rest \<rparr>
            else ms\<lparr> mv_r_q := f\<lparr> pr_sent := sent \<rparr> # rest \<rparr>
          else ms)"

definition mem_latch_edge ::
  "('r \<Rightarrow> u32 \<times> 'r) \<Rightarrow> ddr_timing \<Rightarrow> u64 \<Rightarrow> m_in \<Rightarrow> m_out \<Rightarrow> 'r mem_slave \<Rightarrow> 'r mem_slave" where
  "mem_latch_edge G T t p q ms =
     latch_r G T t p q (latch_ar G T t p q (latch_b p q (latch_w G T t p q (latch_aw p q ms))))"

section \<open>Monitors\<close>

text \<open>Payload stability of a channel.\<close>

record stable_snap =
  armed :: bool
  snap_id :: u32
  snap_addr :: u64
  snap_len :: nat

definition no_snap :: stable_snap where
  "no_snap = \<lparr> armed = False, snap_id = 0, snap_addr = 0, snap_len = 0 \<rparr>"

definition check_stable ::
  "bool \<Rightarrow> bool \<Rightarrow> u32 \<Rightarrow> u64 \<Rightarrow> nat \<Rightarrow> stable_snap \<times> bool \<Rightarrow> stable_snap \<times> bool" where
  "check_stable valid ready i a n s =
     (let (snap, violation) = s; now = \<lparr> armed = True, snap_id = i, snap_addr = a, snap_len = n \<rparr> in
      if \<not> valid then (snap\<lparr> armed := False \<rparr>, violation)
      else if ready then (snap\<lparr> armed := False \<rparr>, violation)
      else if \<not> armed snap then (now, violation)
      else if snap_id snap \<noteq> i \<or> snap_addr snap \<noteq> a \<or> snap_len snap \<noteq> n then (now, True)
      else (snap, violation))"

text \<open>Direction of the bypass traffic on the master port.\<close>

record by_monitor =
  g_by_rd_out :: int
  g_by_wr_out :: int
  g_by_rd_stale :: int
  g_by_wr_stale :: int
  g_by_mixdir_violation :: bool

definition by_start :: by_monitor where
  "by_start = \<lparr> g_by_rd_out = 0, g_by_wr_out = 0, g_by_rd_stale = 0, g_by_wr_stale = 0, g_by_mixdir_violation = False \<rparr>"

definition BY_ID_TAG :: u8 where "BY_ID_TAG = 0x20"

definition by_reset_epoch :: "by_monitor \<Rightarrow> by_monitor" where
  "by_reset_epoch y = y\<lparr> g_by_rd_stale := g_by_rd_out y, g_by_wr_stale := g_by_wr_out y \<rparr>"

definition by_retire_rd :: "by_monitor \<Rightarrow> by_monitor" where
  "by_retire_rd y =
     y\<lparr> g_by_rd_out := g_by_rd_out y - 1, g_by_rd_stale := (if 0 < g_by_rd_stale y then g_by_rd_stale y - 1 else g_by_rd_stale y) \<rparr>"

definition by_retire_wr :: "by_monitor \<Rightarrow> by_monitor" where
  "by_retire_wr y =
     y\<lparr> g_by_wr_out := g_by_wr_out y - 1, g_by_wr_stale := (if 0 < g_by_wr_stale y then g_by_wr_stale y - 1 else g_by_wr_stale y) \<rparr>"

definition by_latch_edge :: "m_in \<Rightarrow> m_out \<Rightarrow> by_monitor \<Rightarrow> by_monitor" where
  "by_latch_edge p q y =
     (let y = (if m_arvalid q \<and> m_arready p \<and> m_arid q AND BY_ID_TAG \<noteq> 0 then y\<lparr> g_by_rd_out := g_by_rd_out y + 1 \<rparr> else y);
          y = (if m_rvalid p \<and> m_rready q \<and> m_rlast p \<and> m_rid p AND BY_ID_TAG \<noteq> 0 then by_retire_rd y else y);
          y = (if m_awvalid q \<and> m_awready p \<and> m_awid q AND BY_ID_TAG \<noteq> 0 then y\<lparr> g_by_wr_out := g_by_wr_out y + 1 \<rparr> else y);
          y = (if m_bvalid p \<and> m_bready q \<and> m_bid p AND BY_ID_TAG \<noteq> 0 then by_retire_wr y else y) in
      if 0 < g_by_rd_out y - g_by_rd_stale y \<and> 0 < g_by_wr_out y - g_by_wr_stale y
      then y\<lparr> g_by_mixdir_violation := True \<rparr> else y)"

text \<open>The taps of the bypass engine: high-water marks and their own check.\<close>

record by_taps =
  g_by_inflight_max :: nat
  g_by_occ_max :: nat
  g_by_tap_violation :: bool

definition by_sample_taps :: "u8 \<Rightarrow> u8 \<Rightarrow> u8 \<Rightarrow> by_taps \<Rightarrow> by_taps" where
  "by_sample_taps dbg_occ dbg_inflight dbg_slots y =
     (let occ = unat (dbg_occ AND 0x3F); infl = unat (dbg_inflight AND 0x3F); slots = unat (dbg_slots AND 0xFF) in
      y\<lparr> g_by_occ_max := max (g_by_occ_max y) occ, g_by_inflight_max := max (g_by_inflight_max y) infl,
         g_by_tap_violation := g_by_tap_violation y \<or> occ < infl \<or> slots < occ \<rparr>)"

end
