(* ===== verification/L2c_Memory_Props.thy ===== *)
theory L2c_Memory_Props
  imports L2c_Memory
begin

unbundle bit_operations_syntax

text \<open>
  The memory slave of the level-2 cache test bench is a memory behind an AXI port: it serves reads in
  the order they were accepted with the bytes it holds, performs the accepted write beats in order,
  answers each write burst once, and always answers; and the stability monitor flags exactly the
  changes it is documented to look for.
\<close>

section \<open>Wide signals\<close>

lemma low_byte: "(x :: u32) AND 0xFF = take_bit 8 x"
  by (simp add: take_bit_eq_mask mask_eq_exp_minus_1)

lemma word_bytes_join:
  "word_bytes (ucast a OR push_bit 8 (ucast b) OR push_bit 16 (ucast c) OR push_bit 24 (ucast d)) = [a, b, c, d]"
  unfolding word_bytes_def low_byte by (simp, intro conjI; rule bit_word_eqI) (auto simp: bit_simps)

lemma get_set_wide: "length bs = 16 \<Longrightarrow> get_wide_bytes (set_wide_bytes bs 16) 16 = bs"
proof -
  assume bs: "length bs = 16"
  have four: "[0..<16 div 4] = [0, 1, 2, 3 :: nat]" by (simp add: upt_rec)
  have sixteen: "[0..<16] = [0, 1, 2, 3, 4, 5, 6, 7, 8, 9, 10, 11, 12, 13, 14, 15 :: nat]" by (simp add: upt_rec)
  have "get_wide_bytes (set_wide_bytes bs 16) 16 = map ((!) bs) [0..<16]"
    unfolding get_wide_bytes_def set_wide_bytes_def four sixteen
    by (simp add: wide_word_def word_bytes_join) (simp add: numeral_2_eq_2)
  then show ?thesis using bs by (metis map_nth)
qed

section \<open>The stability monitor\<close>

type_synonym sample = "bool \<times> bool \<times> u32 \<times> u64 \<times> nat"

definition held :: "sample \<Rightarrow> bool" where
  "held x \<longleftrightarrow> (case x of (valid, ready, _) \<Rightarrow> valid \<and> \<not> ready)"

definition payload :: "sample \<Rightarrow> u32 \<times> u64 \<times> nat" where
  "payload x = snd (snd x)"

definition watch :: "sample list \<Rightarrow> stable_snap \<times> bool" where
  "watch xs = fold (\<lambda>(valid, ready, i, a, n). check_stable valid ready i a n) xs (no_snap, False)"

definition unstable_at :: "sample list \<Rightarrow> nat \<Rightarrow> bool" where
  "unstable_at xs k \<longleftrightarrow> Suc k < length xs \<and> held (xs ! k) \<and> held (xs ! Suc k) \<and> payload (xs ! k) \<noteq> payload (xs ! Suc k)"

lemma unstable_snoc:
  "(\<exists>k. unstable_at (xs @ [x]) k) \<longleftrightarrow>
    (\<exists>k. unstable_at xs k) \<or> xs \<noteq> [] \<and> held (last xs) \<and> held x \<and> payload (last xs) \<noteq> payload x"
proof -
  have old: "unstable_at (xs @ [x]) k = unstable_at xs k" if "Suc k < length xs" for k
    using that by (simp add: unstable_at_def nth_append)
  have new: "unstable_at (xs @ [x]) k \<longleftrightarrow> held (last xs) \<and> held x \<and> payload (last xs) \<noteq> payload x" if "Suc k = length xs" for k
  proof -
    have "last xs = xs ! k" using that by (metis diff_Suc_1 last_conv_nth length_0_conv nat.distinct(1))
    then show ?thesis using that [symmetric] by (simp add: unstable_at_def nth_append)
  qed
  have "Suc k < length xs \<or> Suc k = length xs" if "unstable_at (xs @ [x]) k" for k using that by (auto simp: unstable_at_def)
  moreover have "Suc k < length xs" if "unstable_at xs k" for k using that by (simp add: unstable_at_def)
  moreover have "Suc (length xs - 1) = length xs" if "xs \<noteq> []" using that by simp
  ultimately show ?thesis using old new by (metis length_0_conv nat.distinct(1))
qed

lemma watch_inv:
  "snd (watch xs) = (\<exists>k. unstable_at xs k) \<and> armed (fst (watch xs)) = (xs \<noteq> [] \<and> held (last xs)) \<and>
    (armed (fst (watch xs)) \<longrightarrow> (snap_id (fst (watch xs)), snap_addr (fst (watch xs)), snap_len (fst (watch xs))) = payload (last xs))"
proof (induction xs rule: rev_induct)
  case Nil show ?case by (simp add: watch_def no_snap_def unstable_at_def)
next
  case (snoc x xs)
  obtain v r i a n where x: "x = (v, r, i, a, n)" by (cases x)
  obtain s f where w: "watch xs = (s, f)" by (cases "watch xs")
  have "watch (xs @ [x]) = check_stable v r i a n (s, f)" using w x by (simp add: watch_def)
  then show ?case using snoc w unfolding unstable_snoc
    by (auto simp: check_stable_def x held_def payload_def Let_def)
qed

text \<open>
  C12 The stability monitor is exact for what it looks at: after any sequence of cycles of a channel the
  violation flag is set exactly when in two consecutive cycles the channel was valid and not ready and
  the payload of the second differed from that of the first.  In particular a payload that changes
  in the very cycle in which it is accepted is never reported.
\<close>

theorem stability_monitor_exact: "snd (watch xs) \<longleftrightarrow> (\<exists>k. unstable_at xs k)"
  using watch_inv by blast

lemma change_on_accept_unseen: "\<not> snd (watch [(True, False, 1, 0, 0), (True, True, 2, 0, 0)])"
  by (simp add: watch_def check_stable_def no_snap_def)

section \<open>Runs of the slave\<close>

text \<open>
  A cycle as the clock of the bench makes it, with the hooks the scenario has set and any outputs of the
  design; a run keeps a log of the pins of each cycle and of the memory at its start.
\<close>

definition mem_cycle ::
  "('r \<Rightarrow> u32 \<times> 'r) \<Rightarrow> ddr_timing \<Rightarrow> u64 \<Rightarrow> mem_hooks \<Rightarrow> m_out \<Rightarrow> 'r mem_slave \<times> m_in \<Rightarrow> 'r mem_slave \<times> m_in" where
  "mem_cycle G T t k q s =
     (let (ms, p) = mem_drive_comb G t ((fst s)\<lparr> hooks := k \<rparr>, snd s); p = mem_drive_rdata t ms p in
      (mem_latch_edge G T t p q ms, p))"

type_synonym mem_log = "(m_in \<times> m_out \<times> (u64 \<Rightarrow> u8)) list"

definition mem_step ::
  "('r \<Rightarrow> u32 \<times> 'r) \<Rightarrow> ddr_timing \<Rightarrow> mem_hooks \<times> m_out \<Rightarrow> mem_log \<times> u64 \<times> 'r mem_slave \<times> m_in \<Rightarrow>
   mem_log \<times> u64 \<times> 'r mem_slave \<times> m_in" where
  "mem_step G T c s =
     (case s of (l, t, ms, p) \<Rightarrow>
        case mem_cycle G T t (fst c) (snd c) (ms, p) of (ms', p') \<Rightarrow> (l @ [(p', snd c, backing ms)], t + 1, ms', p'))"

definition mem_run ::
  "('r \<Rightarrow> u32 \<times> 'r) \<Rightarrow> ddr_timing \<Rightarrow> (mem_hooks \<times> m_out) list \<Rightarrow> u64 \<Rightarrow> 'r mem_slave \<Rightarrow> m_in \<Rightarrow>
   mem_log \<times> u64 \<times> 'r mem_slave \<times> m_in" where
  "mem_run G T cs t ms p = fold (mem_step G T) cs ([], t, ms, p)"

lemma drive_frame: "\<exists>r. fst (mem_drive_comb G t (ms, p)) = ms\<lparr> ddr_rng := r \<rparr>"
  unfolding mem_drive_comb_def by (auto simp: Let_def split: prod.split)

lemma drive_pins:
  "m_rvalid (snd (mem_drive_comb G t (ms, p))) \<longleftrightarrow>
     (case mv_r_q ms of [] \<Rightarrow> False | f # _ \<Rightarrow> \<not> g_mem_block_rvalid (hooks ms) \<and> pr_ready_at f \<le> t)"
  "m_bvalid (snd (mem_drive_comb G t (ms, p))) \<longleftrightarrow> (case mv_b_q ms of [] \<Rightarrow> False | f # _ \<Rightarrow> pb_ready_at f \<le> t)"
  "mv_r_q ms = f # fs \<Longrightarrow> m_rvalid (snd (mem_drive_comb G t (ms, p))) \<Longrightarrow>
     m_rid (snd (mem_drive_comb G t (ms, p))) = ucast (pr_id f) \<and> m_rlast (snd (mem_drive_comb G t (ms, p))) = (Suc (pr_sent f) = pr_beats f)"
  "mv_b_q ms = b # bs \<Longrightarrow> m_bvalid (snd (mem_drive_comb G t (ms, p))) \<Longrightarrow> m_bid (snd (mem_drive_comb G t (ms, p))) = ucast (pb_id b)"
  "m_awready (snd (mem_drive_comb G t (ms, p))) \<Longrightarrow> \<not> mv_aw_have ms" "m_wready (snd (mem_drive_comb G t (ms, p))) \<Longrightarrow> mv_aw_have ms"
  unfolding mem_drive_comb_def drive_b_channel_def drive_r_channel_def
  by (auto simp: Let_def gated_def split: prod.splits list.splits if_splits)

lemma latch_frame [simp]:
  "mv_r_q (latch_aw p q ms) = mv_r_q ms" "mv_r_q (latch_w G T t p q ms) = mv_r_q ms" "mv_r_q (latch_b p q ms) = mv_r_q ms"
  "backing (latch_aw p q ms) = backing ms" "backing (latch_b p q ms) = backing ms" "backing (latch_ar G T t p q ms) = backing ms"
  "backing (latch_r G T t p q ms) = backing ms"
  "mv_b_q (latch_aw p q ms) = mv_b_q ms" "mv_b_q (latch_ar G T t p q ms) = mv_b_q ms" "mv_b_q (latch_r G T t p q ms) = mv_b_q ms"
  by (simp_all add: latch_aw_def latch_w_def finish_write_def latch_b_def latch_ar_def latch_r_def Let_def split: prod.split list.split)

definition aw_state :: "'r mem_slave \<Rightarrow> bool \<times> u32 \<times> u64 \<times> nat \<times> nat" where
  "aw_state ms = (mv_aw_have ms, mv_aw_id ms, mv_aw_addr ms, mv_aw_len ms, mv_aw_beat ms)"

lemma latch_aw_frame [simp]:
  "aw_state (latch_b p q ms) = aw_state ms" "aw_state (latch_ar G T t p q ms) = aw_state ms" "aw_state (latch_r G T t p q ms) = aw_state ms"
  by (simp_all add: aw_state_def latch_b_def latch_ar_def latch_r_def Let_def split: prod.split list.split)

section \<open>Reads\<close>

definition ar_log :: "mem_log \<Rightarrow> (u8 \<times> u64 \<times> nat) list" where
  "ar_log l = concat (map (\<lambda>(p, q, _). if m_arvalid q \<and> m_arready p then [(m_arid q, ucast (m_araddr q), unat (m_arlen q) + 1)] else []) l)"

definition r_log :: "mem_log \<Rightarrow> (u8 \<times> bool \<times> u8 list \<times> (u64 \<Rightarrow> u8)) list" where
  "r_log l = concat (map (\<lambda>(p, q, mem). if m_rvalid p \<and> m_rready q then [(m_rid p, m_rlast p, get_wide_bytes (m_rdata p) 16, mem)] else []) l)"

definition burst_beats :: "u8 \<times> u64 \<times> nat \<Rightarrow> (u8 \<times> u64 \<times> bool) list" where
  "burst_beats x = (case x of (i, a, n) \<Rightarrow> map (\<lambda>k. (i, a + of_nat k * 16, Suc k = n)) [0..<n])"

definition serves :: "u8 \<times> bool \<times> u8 list \<times> (u64 \<Rightarrow> u8) \<Rightarrow> u8 \<times> u64 \<times> bool \<Rightarrow> bool" where
  "serves x e = (case x of (i, last_beat, bytes, mem) \<Rightarrow> case e of (j, a, l) \<Rightarrow> i = j \<and> last_beat = l \<and> bytes = mem_bytes mem a)"

definition beats_left :: "pending_r list \<Rightarrow> (u8 \<times> u64 \<times> bool) list" where
  "beats_left rq = concat (map (\<lambda>f. drop (pr_sent f) (burst_beats (ucast (pr_id f), pr_addr f, pr_beats f))) rq)"

definition queue_ok :: "pending_r list \<Rightarrow> bool" where
  "queue_ok rq \<longleftrightarrow> (\<forall>f \<in> set rq. pr_sent f < pr_beats f)"

lemma beats_left_head:
  assumes "queue_ok (f # rq)"
  shows "beats_left (f # rq) = (ucast (pr_id f), pr_addr f + of_nat (pr_sent f) * 16, Suc (pr_sent f) = pr_beats f) #
    (if Suc (pr_sent f) = pr_beats f then beats_left rq else beats_left (f\<lparr> pr_sent := Suc (pr_sent f), pr_ready_at := r \<rparr> # rq))"
proof -
  let ?b = "burst_beats (ucast (pr_id f), pr_addr f, pr_beats f)"
  have n: "pr_sent f < length ?b" using assms by (simp add: queue_ok_def burst_beats_def)
  have "?b ! pr_sent f = (ucast (pr_id f), pr_addr f + of_nat (pr_sent f) * 16, Suc (pr_sent f) = pr_beats f)"
    using n by (simp add: burst_beats_def)
  moreover have "drop (Suc (pr_sent f)) ?b = []" if "Suc (pr_sent f) = pr_beats f" using that by (simp add: burst_beats_def)
  ultimately show ?thesis using Cons_nth_drop_Suc [OF n, symmetric] by (cases "Suc (pr_sent f) = pr_beats f") (auto simp: beats_left_def)
qed

lemma length_mem_bytes: "length (mem_bytes mem a) = 16"
  by (simp add: mem_bytes_def)

lemma latch_ar_queue:
  assumes "ms = latch_ar G T t p q ms0"
  shows "beats_left (mv_r_q ms) = beats_left (mv_r_q ms0) @ concat (map burst_beats (ar_log [(p, q, mem)]))"
    "queue_ok (mv_r_q ms0) \<Longrightarrow> queue_ok (mv_r_q ms)" "mv_r_q ms0 = f # rq \<Longrightarrow> \<exists>rq. mv_r_q ms = f # rq"
proof -
  have i: "ucast (ucast (i :: u8) :: u32) = i" for i by (rule bit_word_eqI) (simp add: bit_simps)
  show "beats_left (mv_r_q ms) = beats_left (mv_r_q ms0) @ concat (map burst_beats (ar_log [(p, q, mem)]))"
    using assms by (simp add: latch_ar_def ar_log_def beats_left_def i Let_def split: prod.split)
  show "queue_ok (mv_r_q ms0) \<Longrightarrow> queue_ok (mv_r_q ms)"
    using assms by (auto simp: latch_ar_def queue_ok_def Let_def split: prod.splits if_splits)
  show "mv_r_q ms0 = f # rq \<Longrightarrow> \<exists>rq. mv_r_q ms = f # rq"
    using assms by (auto simp: latch_ar_def Let_def split: prod.splits if_splits)
qed

lemma latch_r_queue:
  assumes "queue_ok (mv_r_q ms)" "m_rvalid p \<and> m_rready q \<Longrightarrow> mv_r_q ms \<noteq> []"
  shows "beats_left (mv_r_q (latch_r G T t p q ms)) = (if m_rvalid p \<and> m_rready q then tl (beats_left (mv_r_q ms)) else beats_left (mv_r_q ms))"
    "queue_ok (mv_r_q (latch_r G T t p q ms))"
proof -
  show "beats_left (mv_r_q (latch_r G T t p q ms)) = (if m_rvalid p \<and> m_rready q then tl (beats_left (mv_r_q ms)) else beats_left (mv_r_q ms))"
  proof (cases "mv_r_q ms")
    case (Cons f fs)
    then have "queue_ok (f # fs)" using assms(1) by simp
    note h = beats_left_head [OF this]
    have more: "beats_left (f\<lparr> pr_sent := Suc (pr_sent f), pr_ready_at := r \<rparr> # fs) = tl (beats_left (f # fs))"
      if "Suc (pr_sent f) < pr_beats f" for r using h [of r] that by simp
    have fin: "beats_left fs = tl (beats_left (f # fs))" if "Suc (pr_sent f) = pr_beats f" using h that by simp
    have "Suc (pr_sent f) \<le> pr_beats f" using \<open>queue_ok (f # fs)\<close> by (simp add: queue_ok_def)
    then show ?thesis using Cons by (auto simp: latch_r_def Let_def more fin split: prod.split)
  qed (use assms(2) in \<open>auto simp: latch_r_def\<close>)
  show "queue_ok (mv_r_q (latch_r G T t p q ms))"
    using assms(1) by (auto simp: latch_r_def queue_ok_def Let_def split: prod.split list.split)
qed

lemma read_event:
  assumes "mv_r_q ms = f # fs" "queue_ok (mv_r_q ms)" "mem_drive_comb G t (ms, p0) = (ms1, p1)" "p = mem_drive_rdata t ms1 p1" "m_rvalid p"
  shows "serves (m_rid p, m_rlast p, get_wide_bytes (m_rdata p) 16, backing ms) (hd (beats_left (mv_r_q ms)))"
proof -
  obtain r where ms1: "ms1 = ms\<lparr> ddr_rng := r \<rparr>" using drive_frame [of G t ms p0] assms(3) by auto
  have p: "m_rvalid p = m_rvalid p1" "m_rid p = m_rid p1" "m_rlast p = m_rlast p1"
    using assms(4) by (simp_all add: mem_drive_rdata_def split: list.split)
  have v: "m_rvalid (snd (mem_drive_comb G t (ms, p0)))" using assms(3,5) p by simp
  then have "pr_ready_at f \<le> t" using drive_pins(1) [of G t ms p0] assms(1) by simp
  then have "m_rdata p = set_wide_bytes (mem_bytes (backing ms) (pr_addr f + of_nat (pr_sent f) * 16)) 16"
    using assms(1,4) ms1 by (simp add: mem_drive_rdata_def)
  moreover have "hd (beats_left (mv_r_q ms)) = (ucast (pr_id f), pr_addr f + of_nat (pr_sent f) * 16, Suc (pr_sent f) = pr_beats f)"
    using beats_left_head [of f fs undefined] assms(1,2) by simp
  ultimately show ?thesis
    using drive_pins(3) [OF assms(1) v] assms(3) p by (simp add: serves_def get_set_wide length_mem_bytes)
qed

lemma read_cycle:
  assumes "queue_ok (mv_r_q ms)" "mem_cycle G T t k q (ms, p0) = (ms', p)"
  shows "queue_ok (mv_r_q ms')"
    "r_log [(p, q, backing ms)] \<noteq> [] \<Longrightarrow> beats_left (mv_r_q ms) \<noteq> [] \<and> serves (hd (r_log [(p, q, backing ms)])) (hd (beats_left (mv_r_q ms)))"
    "beats_left (mv_r_q ms') =
      drop (length (r_log [(p, q, backing ms)])) (beats_left (mv_r_q ms)) @ concat (map burst_beats (ar_log [(p, q, backing ms)]))"
proof -
  obtain ms1 p1 where d: "mem_drive_comb G t (ms\<lparr> hooks := k \<rparr>, p0) = (ms1, p1)" by (cases "mem_drive_comb G t (ms\<lparr> hooks := k \<rparr>, p0)")
  then have c: "ms' = mem_latch_edge G T t p q ms1" "p = mem_drive_rdata t ms1 p1"
    using assms(2) by (auto simp: mem_cycle_def Let_def)
  obtain r where ms1: "ms1 = ms\<lparr> hooks := k, ddr_rng := r \<rparr>" using drive_frame [of G t "ms\<lparr> hooks := k \<rparr>" p0] d by auto
  have v: "m_rvalid p = m_rvalid p1" using c(2) by (simp add: mem_drive_rdata_def split: list.split)
  then have some: "mv_r_q ms \<noteq> []" if "m_rvalid p" using that drive_pins(1) [of G t "ms\<lparr> hooks := k \<rparr>" p0] d by (auto split: list.splits)
  let ?m = "latch_b p q (latch_w G T t p q (latch_aw p q ms1))"
  let ?a = "latch_ar G T t p q ?m"
  have m: "mv_r_q ?m = mv_r_q ms" by (simp add: ms1)
  have a: "beats_left (mv_r_q ?a) = beats_left (mv_r_q ms) @ concat (map burst_beats (ar_log [(p, q, backing ms)]))" "queue_ok (mv_r_q ?a)"
    using latch_ar_queue(1,2) [of ?a G T t p q ?m] m assms(1) by simp_all
  have ne: "m_rvalid p \<and> m_rready q \<Longrightarrow> mv_r_q ?a \<noteq> []"
    using some latch_ar_queue(3) [of ?a G T t p q ?m] m by (metis list.distinct(1) neq_Nil_conv)
  have head: "beats_left (mv_r_q ms) \<noteq> []" if "m_rvalid p"
    using some [OF that] assms(1) beats_left_head by (metis list.distinct(1) neq_Nil_conv)
  show "queue_ok (mv_r_q ms')" using latch_r_queue(2) [OF a(2) ne] c(1) by (simp add: mem_latch_edge_def)
  show "beats_left (mv_r_q ms') =
      drop (length (r_log [(p, q, backing ms)])) (beats_left (mv_r_q ms)) @ concat (map burst_beats (ar_log [(p, q, backing ms)]))"
    using latch_r_queue(1) [OF a(2) ne] c(1) a(1) head by (auto simp: mem_latch_edge_def r_log_def drop_Suc)
  show "beats_left (mv_r_q ms) \<noteq> [] \<and> serves (hd (r_log [(p, q, backing ms)])) (hd (beats_left (mv_r_q ms)))"
    if "r_log [(p, q, backing ms)] \<noteq> []"
  proof -
    have rv: "m_rvalid p" using that by (auto simp: r_log_def split: if_splits)
    obtain f fs where f: "mv_r_q ms = f # fs" using some [OF rv] by (cases "mv_r_q ms") auto
    have "serves (m_rid p, m_rlast p, get_wide_bytes (m_rdata p) 16, backing ms) (hd (beats_left (mv_r_q ms)))"
      using read_event [of "ms\<lparr> hooks := k \<rparr>" f fs G t p0 ms1 p1 p] f assms(1) d c(2) rv by simp
    then show ?thesis using that head [OF rv] by (auto simp: r_log_def split: if_splits)
  qed
qed

lemma log_append:
  "ar_log (l @ m) = ar_log l @ ar_log m" "r_log (l @ m) = r_log l @ r_log m"
  by (simp_all add: ar_log_def r_log_def)

text \<open>
  C8 Reads of the memory slave.  Whatever the design does on the port and whatever hooks a scenario sets,
  the beats delivered so far are, in order, the first beats of the accepted bursts in the order of
  their acceptance: each beat carries the identifier of its burst, the sixteen bytes the memory holds
  at its address in that cycle, and the last-beat mark exactly on the last beat; the beats still queued
  are exactly the rest.
\<close>

theorem mem_slave_reads_in_order:
  assumes "mem_run G T cs t ms0 p0 = (l, t', ms, p)" "mv_r_q ms0 = []"
  shows "let due = concat (map burst_beats (ar_log l)) in
    length (r_log l) \<le> length due \<and> list_all2 serves (r_log l) (take (length (r_log l)) due) \<and>
    beats_left (mv_r_q ms) = drop (length (r_log l)) due"
proof -
  have "queue_ok (mv_r_q ms) \<and> length (r_log l) \<le> length (concat (map burst_beats (ar_log l))) \<and>
    list_all2 serves (r_log l) (take (length (r_log l)) (concat (map burst_beats (ar_log l)))) \<and>
    beats_left (mv_r_q ms) = drop (length (r_log l)) (concat (map burst_beats (ar_log l)))"
    using assms(1)
  proof (induction cs arbitrary: l t' ms p rule: rev_induct)
    case Nil then show ?case using assms(2) by (simp add: mem_run_def ar_log_def r_log_def beats_left_def queue_ok_def)
  next
    case (snoc c cs)
    obtain l1 t1 ms1 p1 where r: "mem_run G T cs t ms0 p0 = (l1, t1, ms1, p1)" by (cases "mem_run G T cs t ms0 p0")
    then have step: "mem_step G T c (l1, t1, ms1, p1) = (l, t', ms, p)" using snoc.prems by (simp add: mem_run_def)
    let ?ev = "[(p, snd c, backing ms1)]"
    let ?due = "concat (map burst_beats (ar_log l1))" and ?new = "concat (map burst_beats (ar_log ?ev))"
    have l: "l = l1 @ ?ev" and cyc: "mem_cycle G T t1 (fst c) (snd c) (ms1, p1) = (ms, p)"
      using step by (auto simp: mem_step_def split: prod.splits)
    note IH = snoc.IH [OF r]
    note rc = read_cycle [OF conjunct1 [OF IH] cyc]
    have n: "r_log ?ev = [] \<or> (\<exists>e. r_log ?ev = [e])" by (auto simp: r_log_def)
    show ?case
    proof (cases "r_log ?ev = []")
      case True
      then show ?thesis using IH rc by (simp add: l log_append)
    next
      case False
      then obtain e where e: "r_log ?ev = [e]" using n by blast
      then have "beats_left (mv_r_q ms1) \<noteq> []" "serves e (hd (beats_left (mv_r_q ms1)))" using rc(2) by simp_all
      then have "drop (length (r_log l1)) ?due \<noteq> []" "serves e (hd (drop (length (r_log l1)) ?due))" using IH by simp_all
      then obtain b bs where b: "drop (length (r_log l1)) ?due = b # bs" "serves e b" by (metis list.exhaust list.sel(1))
      then have lt: "length (r_log l1) < length ?due" by (metis drop_eq_Nil list.distinct(1) not_le)
      then have tk: "take (length (r_log l)) (?due @ ?new) = take (length (r_log l1)) ?due @ [b]"
        using b(1) by (simp add: l log_append e take_Suc_conv_app_nth) (metis hd_drop_conv_nth list.sel(1))
      show ?thesis
        using IH rc(1,3) e b(2) lt tk by (simp add: l log_append list_all2_appendI drop_Suc tl_drop)
    qed
  qed
  then show ?thesis by (simp add: Let_def)
qed

section \<open>Writes\<close>

definition aw_log :: "mem_log \<Rightarrow> (u8 \<times> u64 \<times> nat) list" where
  "aw_log l = concat (map (\<lambda>(p, q, _). if m_awvalid q \<and> m_awready p then [(m_awid q, ucast (m_awaddr q), unat (m_awlen q) + 1)] else []) l)"

definition w_log :: "mem_log \<Rightarrow> (u16 \<times> u8 list) list" where
  "w_log l = concat (map (\<lambda>(p, q, _). if m_wvalid q \<and> m_wready p then [(m_wstrb q, get_wide_bytes (m_wdata q) 16)] else []) l)"

definition b_log :: "mem_log \<Rightarrow> u8 list" where
  "b_log l = concat (map (\<lambda>(p, q, _). if m_bvalid p \<and> m_bready q then [m_bid p] else []) l)"

definition beat_addrs :: "(u8 \<times> u64 \<times> nat) list \<Rightarrow> u64 list" where
  "beat_addrs aws = concat (map (\<lambda>x. map (fst \<circ> snd) (burst_beats x)) aws)"

definition write_beats :: "(u64 \<times> u16 \<times> u8 list) list \<Rightarrow> (u64 \<Rightarrow> u8) \<Rightarrow> (u64 \<Rightarrow> u8)" where
  "write_beats = fold (\<lambda>(a, strb, bytes). store_strobed a strb bytes 16)"

text \<open>The slave has accepted the bursts \<open>aws\<close> and the beats \<open>ws\<close> and answered the first bursts \<open>bs\<close>.\<close>

definition write_inv :: "(u64 \<Rightarrow> u8) \<Rightarrow> (u8 \<times> u64 \<times> nat) list \<Rightarrow> (u16 \<times> u8 list) list \<Rightarrow> u8 list \<Rightarrow> 'r mem_slave \<Rightarrow> bool" where
  "write_inv mem0 aws ws bs ms \<longleftrightarrow>
     backing ms = write_beats (zip (beat_addrs aws) ws) mem0 \<and>
     (if mv_aw_have ms then
        \<exists>aws1. aws = aws1 @ [(ucast (mv_aw_id ms), mv_aw_addr ms, mv_aw_len ms + 1)] \<and>
          length ws = length (beat_addrs aws1) + mv_aw_beat ms \<and> mv_aw_beat ms \<le> mv_aw_len ms \<and>
          bs @ map (ucast \<circ> pb_id) (mv_b_q ms) = map fst aws1
      else length ws = length (beat_addrs aws) \<and> bs @ map (ucast \<circ> pb_id) (mv_b_q ms) = map fst aws)"

lemma write_inv_cong:
  "backing m1 = backing m2 \<Longrightarrow> aw_state m1 = aw_state m2 \<Longrightarrow> mv_b_q m1 = mv_b_q m2 \<Longrightarrow> write_inv mem0 aws ws bs m1 = write_inv mem0 aws ws bs m2"
  by (simp add: write_inv_def aw_state_def)

lemma zip_short: "length ws \<le> length xs \<Longrightarrow> zip (xs @ ys) ws = zip xs ws"
  by (simp add: zip_append1)

lemma write_inv_aw:
  assumes "write_inv mem0 aws ws bs ms" "m_awready p \<Longrightarrow> \<not> mv_aw_have ms"
  shows "write_inv mem0 (aws @ aw_log [(p, q, mem)]) ws bs (latch_aw p q ms)"
proof (cases "m_awvalid q \<and> m_awready p")
  case True
  then have "\<not> mv_aw_have ms" using assms(2) by simp
  moreover have "ucast (ucast (i :: u8) :: u32) = i" for i by (rule bit_word_eqI) (simp add: bit_simps)
  ultimately show ?thesis
    using assms(1) True by (simp add: write_inv_def latch_aw_def aw_log_def Let_def beat_addrs_def zip_short)
next
  case False
  then have "latch_aw p q ms = ms" "aw_log [(p, q, mem)] = []" by (auto simp: latch_aw_def aw_log_def)
  then show ?thesis using assms(1) by simp
qed

lemma zip_snoc: "length ws < length xs \<Longrightarrow> zip xs (ws @ [w]) = zip xs ws @ [(xs ! length ws, w)]"
proof (induction ws arbitrary: xs)
  case Nil then show ?case by (cases xs) simp_all
next
  case (Cons v ws) then show ?case by (cases xs) simp_all
qed

lemma write_inv_w:
  assumes "write_inv mem0 aws ws bs ms" "m_wready p \<Longrightarrow> mv_aw_have ms"
  shows "write_inv mem0 aws (ws @ w_log [(p, q, mem)]) bs (latch_w G T t p q ms)"
proof (cases "m_wvalid q \<and> m_wready p")
  case True
  then have h: "mv_aw_have ms" using assms(2) by simp
  then obtain aws1 where inv: "aws = aws1 @ [(ucast (mv_aw_id ms), mv_aw_addr ms, mv_aw_len ms + 1)]"
    "length ws = length (beat_addrs aws1) + mv_aw_beat ms" "mv_aw_beat ms \<le> mv_aw_len ms"
    "bs @ map (ucast \<circ> pb_id) (mv_b_q ms) = map fst aws1" "backing ms = write_beats (zip (beat_addrs aws) ws) mem0"
    using assms(1) by (auto simp: write_inv_def)
  have n: "length ws < length (beat_addrs aws)" "beat_addrs aws ! length ws = mv_aw_addr ms + of_nat (mv_aw_beat ms) * 16"
    using inv(1-3) by (simp_all add: beat_addrs_def burst_beats_def nth_append)
  have m: "write_beats (zip (beat_addrs aws) (ws @ [(s, d)])) mem0 =
      store_strobed (mv_aw_addr ms + of_nat (mv_aw_beat ms) * 16) s d 16 (backing ms)" for s d
    using zip_snoc [OF n(1), of "(s, d)"] n(2) inv(5) by (simp add: write_beats_def)
  have len: "length (beat_addrs aws) = length (beat_addrs aws1) + mv_aw_len ms + 1"
    using inv(1) by (simp add: beat_addrs_def burst_beats_def)
  show ?thesis
    using True h inv(1-4) m len
    by (auto simp: write_inv_def latch_w_def finish_write_def w_log_def Let_def split: prod.split)
next
  case False
  then have "latch_w G T t p q ms = ms" "w_log [(p, q, mem)] = []" by (auto simp: latch_w_def w_log_def)
  then show ?thesis using assms(1) by simp
qed

lemma write_inv_b:
  assumes "write_inv mem0 aws ws bs ms" "m_bvalid p \<Longrightarrow> \<exists>b r. mv_b_q ms = b # r \<and> m_bid p = ucast (pb_id b)"
  shows "write_inv mem0 aws ws (bs @ b_log [(p, q, mem)]) (latch_b p q ms)"
  using assms by (auto simp: write_inv_def latch_b_def b_log_def)

lemma latch_w_queue: "mv_b_q ms = b # r \<Longrightarrow> \<exists>r. mv_b_q (latch_w G T t p q ms) = b # r"
  by (simp add: latch_w_def finish_write_def Let_def split: prod.split)

lemma write_cycle_inv:
  assumes "write_inv mem0 aws ws bs ms" "mem_cycle G T t k q (ms, p0) = (ms', p)"
  shows "write_inv mem0 (aws @ aw_log [(p, q, mem)]) (ws @ w_log [(p, q, mem)]) (bs @ b_log [(p, q, mem)]) ms'"
proof -
  obtain ms1 p1 where d: "mem_drive_comb G t (ms\<lparr> hooks := k \<rparr>, p0) = (ms1, p1)" by (cases "mem_drive_comb G t (ms\<lparr> hooks := k \<rparr>, p0)")
  then have c: "ms' = mem_latch_edge G T t p q ms1" "p = mem_drive_rdata t ms1 p1"
    using assms(2) by (auto simp: mem_cycle_def Let_def)
  obtain r where ms1: "ms1 = ms\<lparr> hooks := k, ddr_rng := r \<rparr>" using drive_frame [of G t "ms\<lparr> hooks := k \<rparr>" p0] d by auto
  have p: "m_awready p = m_awready p1" "m_wready p = m_wready p1" "m_bvalid p = m_bvalid p1" "m_bid p = m_bid p1"
    using c(2) by (simp_all add: mem_drive_rdata_def split: list.split)
  have aw: "m_awready p \<Longrightarrow> \<not> mv_aw_have ms1" and w: "m_wready p \<Longrightarrow> mv_aw_have ms1"
    using drive_pins(5,6) [of G t "ms\<lparr> hooks := k \<rparr>" p0] d p ms1 by simp_all
  have b: "\<exists>b r. mv_b_q ms1 = b # r \<and> m_bid p = ucast (pb_id b)" if "m_bvalid p"
    using that drive_pins(4) [of "ms\<lparr> hooks := k \<rparr>" _ _ G t p0] drive_pins(2) [of G t "ms\<lparr> hooks := k \<rparr>" p0] d p ms1
    by (cases "mv_b_q ms") auto
  have "write_inv mem0 aws ws bs ms1 = write_inv mem0 aws ws bs ms" by (rule write_inv_cong) (simp_all add: ms1 aw_state_def)
  then have "write_inv mem0 aws ws bs ms1" using assms(1) by simp
  then have a: "write_inv mem0 (aws @ aw_log [(p, q, mem)]) ws bs (latch_aw p q ms1)" by (rule write_inv_aw) (rule aw)
  have "m_wready p \<Longrightarrow> mv_aw_have (latch_aw p q ms1)" using w by (simp add: latch_aw_def)
  then have "write_inv mem0 (aws @ aw_log [(p, q, mem)]) (ws @ w_log [(p, q, mem)]) bs (latch_w G T t p q (latch_aw p q ms1))"
    by (rule write_inv_w [OF a])
  then have "write_inv mem0 (aws @ aw_log [(p, q, mem)]) (ws @ w_log [(p, q, mem)]) (bs @ b_log [(p, q, mem)])
      (latch_b p q (latch_w G T t p q (latch_aw p q ms1)))"
    by (rule write_inv_b) (use b latch_w_queue [of "latch_aw p q ms1"] in fastforce)
  moreover have "write_inv mem0 aws ws bs (latch_r G T t p q (latch_ar G T t p q m)) = write_inv mem0 aws ws bs m" for aws ws bs m
    by (rule write_inv_cong) simp_all
  ultimately show ?thesis using c(1) by (simp add: mem_latch_edge_def)
qed

text \<open>
  C7 Writes of the memory slave.  Whatever the design does and whatever hooks a scenario sets, the memory is
  the initial one with the accepted write beats stored, in order, at the addresses of the accepted
  bursts under their strobes and nowhere else; no beat is taken that no burst has announced; and the
  responses given and still queued are exactly one for each burst whose beats are all in, in the
  order of the bursts.
\<close>

theorem mem_slave_writes:
  assumes "mem_run G T cs t ms0 p0 = (l, t', ms, p)" "\<not> mv_aw_have ms0" "mv_b_q ms0 = []"
  shows "backing ms = write_beats (zip (beat_addrs (aw_log l)) (w_log l)) (backing ms0) \<and>
    length (w_log l) \<le> length (beat_addrs (aw_log l)) \<and>
    b_log l @ map (ucast \<circ> pb_id) (mv_b_q ms) = map fst (if mv_aw_have ms then butlast (aw_log l) else aw_log l)"
proof -
  have "write_inv (backing ms0) (aw_log l) (w_log l) (b_log l) ms"
    using assms(1)
  proof (induction cs arbitrary: l t' ms p rule: rev_induct)
    case Nil then show ?case
      using assms(2,3) by (simp add: mem_run_def write_inv_def aw_log_def w_log_def b_log_def beat_addrs_def write_beats_def)
  next
    case (snoc c cs)
    obtain l1 t1 ms1 p1 where r: "mem_run G T cs t ms0 p0 = (l1, t1, ms1, p1)" by (cases "mem_run G T cs t ms0 p0")
    then have step: "mem_step G T c (l1, t1, ms1, p1) = (l, t', ms, p)" using snoc.prems by (simp add: mem_run_def)
    then have l: "l = l1 @ [(p, snd c, backing ms1)]" and cyc: "mem_cycle G T t1 (fst c) (snd c) (ms1, p1) = (ms, p)"
      by (auto simp: mem_step_def split: prod.splits)
    have "aw_log (x @ y) = aw_log x @ aw_log y" "w_log (x @ y) = w_log x @ w_log y" "b_log (x @ y) = b_log x @ b_log y" for x y
      by (simp_all add: aw_log_def w_log_def b_log_def)
    then show ?case using write_cycle_inv [OF snoc.IH [OF r] cyc] by (simp add: l)
  qed
  then show ?thesis by (auto simp: write_inv_def beat_addrs_def burst_beats_def split: if_splits)
qed

section \<open>Progress\<close>

lemma run_Cons:
  "mem_run G T (c # cs) t ms p =
    (let (ms1, p1) = mem_cycle G T t (fst c) (snd c) (ms, p); (l, r) = mem_run G T cs (t + 1) ms1 p1 in ((p1, snd c, backing ms) # l, r))"
proof -
  have g: "fold (mem_step G T) cs (l0, t, ms, p) = (let (l, r) = fold (mem_step G T) cs ([], t, ms, p) in (l0 @ l, r))" for l0 t ms p
  proof (induction cs arbitrary: l0 t ms p)
    case (Cons c cs)
    obtain ms1 p1 where c: "mem_cycle G T t (fst c) (snd c) (ms, p) = (ms1, p1)" by (cases "mem_cycle G T t (fst c) (snd c) (ms, p)")
    show ?case
      using Cons [of "l0 @ [(p1, snd c, backing ms)]" "t + 1" ms1 p1] Cons [of "[(p1, snd c, backing ms)]" "t + 1" ms1 p1]
      by (simp add: mem_step_def c split_beta Let_def)
  qed simp
  obtain ms1 p1 where c: "mem_cycle G T t (fst c) (snd c) (ms, p) = (ms1, p1)" by (cases "mem_cycle G T t (fst c) (snd c) (ms, p)")
  show ?thesis
    using g [of "[(p1, snd c, backing ms)]" "t + 1" ms1 p1] by (simp add: mem_run_def mem_step_def c split_beta Let_def)
qed

text \<open>The largest latency and the largest gap between the beats of a burst, and what a queued response still has to wait at most.\<close>

definition max_lat :: "ddr_timing \<Rightarrow> nat" where
  "max_lat T = g_ddr_latency_base T + (g_ddr_latency_jitter T - 1)"

definition max_gap :: "ddr_timing \<Rightarrow> nat" where
  "max_gap T = g_ddr_beat_gap_max T"

lemma draws_bounded: "fst (lat G T r) \<le> max_lat T" "fst (beat_gap G T r) \<le> max_gap T"
proof -
  show "fst (lat G T r) \<le> max_lat T"
  proof (cases "0 < g_ddr_latency_jitter T")
    case True
    obtain x r' where "G r = (x, r')" by fastforce
    then show ?thesis using True mod_less_divisor [OF True, of "unat x"] unfolding lat_def max_lat_def by simp
  qed (simp add: lat_def max_lat_def)
  have "x mod (g_ddr_beat_gap_max T + 1) \<le> g_ddr_beat_gap_max T" for x using mod_less_divisor [of "g_ddr_beat_gap_max T + 1" x] by simp
  then show "fst (beat_gap G T r) \<le> max_gap T" by (simp add: beat_gap_def max_gap_def split: prod.split)
qed

definition r_late :: "ddr_timing \<Rightarrow> pending_r \<Rightarrow> nat" where
  "r_late T f = (if pr_sent f = 0 then max_lat T else max_gap T)"

lemma r_late_simps [simp]:
  "r_late T (f\<lparr> pr_sent := Suc n, pr_ready_at := x \<rparr>) = max_gap T"
  "r_late T \<lparr> pr_id = i, pr_addr = a, pr_beats = k, pr_sent = 0, pr_ready_at = x, pr_resp = y \<rparr> = max_lat T"
  by (simp_all add: r_late_def)

definition on_time :: "ddr_timing \<Rightarrow> u64 \<Rightarrow> 'r mem_slave \<Rightarrow> bool" where
  "on_time T t ms \<longleftrightarrow>
     (\<forall>f \<in> set (mv_r_q ms). unat (pr_ready_at f) \<le> unat t + r_late T f \<and> pr_sent f < pr_beats f) \<and>
     (\<forall>b \<in> set (mv_b_q ms). unat (pb_ready_at b) \<le> unat t + max_lat T)"

lemma due_time: "n \<le> L \<Longrightarrow> unat (t + of_nat n :: u64) \<le> unat t + L"
proof -
  assume n: "n \<le> L"
  have "unat (t + of_nat n :: u64) \<le> unat t + unat (of_nat n :: u64)" by (simp add: unat_word_ariths)
  also have "\<dots> \<le> unat t + n" by (simp add: unat_of_nat)
  finally show ?thesis using n by simp
qed

lemma on_time_latch: "on_time T t ms \<Longrightarrow> on_time T t (mem_latch_edge G T t p q ms)"
proof -
  assume o: "on_time T t ms"
  have d: "lat G T r = (n, r') \<Longrightarrow> unat (t + of_nat n) \<le> unat t + max_lat T" "beat_gap G T r = (n, r') \<Longrightarrow> unat (t + of_nat n) \<le> unat t + max_gap T"
    for r n r' using due_time [OF draws_bounded(1) [of G T r]] due_time [OF draws_bounded(2) [of G T r]] by simp_all
  have "on_time T t (latch_w G T t p q (latch_aw p q ms))"
    using o by (auto simp: on_time_def latch_w_def latch_aw_def finish_write_def Let_def split: prod.split dest: d)
  then have "on_time T t (latch_b p q (latch_w G T t p q (latch_aw p q ms)))"
    by (auto simp: on_time_def latch_b_def dest: list.set_sel(2))
  then have a: "on_time T t (latch_ar G T t p q (latch_b p q (latch_w G T t p q (latch_aw p q ms))))"
    unfolding on_time_def latch_frame by (auto simp: latch_ar_def Let_def split: prod.split dest: d)
  have "on_time T t ms \<Longrightarrow> on_time T t (latch_r G T t p q ms)" for ms
    unfolding on_time_def latch_frame by (auto simp: latch_r_def Let_def split: prod.split list.split dest: d)
  then show ?thesis using a by (simp add: mem_latch_edge_def)
qed

lemma on_time_cycle:
  assumes "on_time T t ms" "mem_cycle G T t k q (ms, p0) = (ms', p)"
  shows "on_time T t ms'"
proof -
  obtain ms1 p1 where d: "mem_drive_comb G t (ms\<lparr> hooks := k \<rparr>, p0) = (ms1, p1)" by (cases "mem_drive_comb G t (ms\<lparr> hooks := k \<rparr>, p0)")
  obtain r where "ms1 = ms\<lparr> hooks := k, ddr_rng := r \<rparr>" using drive_frame [of G t "ms\<lparr> hooks := k \<rparr>" p0] d by auto
  then have "on_time T t ms1" using assms(1) by (simp add: on_time_def)
  then show ?thesis using on_time_latch assms(2) d by (auto simp: mem_cycle_def Let_def)
qed

definition serving :: "mem_hooks \<times> m_out \<Rightarrow> bool" where
  "serving c \<longleftrightarrow> \<not> g_mem_block_rvalid (fst c) \<and> m_rready (snd c) \<and> m_bready (snd c)"

lemma cycle_valid:
  assumes "mem_cycle G T t k q (ms, p0) = (ms', p)"
  shows "m_rvalid p \<longleftrightarrow> (case mv_r_q ms of [] \<Rightarrow> False | f # _ \<Rightarrow> \<not> g_mem_block_rvalid k \<and> pr_ready_at f \<le> t)"
    "m_bvalid p \<longleftrightarrow> (case mv_b_q ms of [] \<Rightarrow> False | b # _ \<Rightarrow> pb_ready_at b \<le> t)"
    "mv_r_q ms = f # fs \<Longrightarrow> \<not> m_rvalid p \<Longrightarrow> \<exists>new. mv_r_q ms' = f # fs @ new"
    "mv_b_q ms = b # bs \<Longrightarrow> \<not> m_bvalid p \<Longrightarrow> \<exists>new. mv_b_q ms' = b # bs @ new"
    "mv_r_q ms = f # fs \<Longrightarrow> m_rvalid p \<Longrightarrow> m_rready q \<Longrightarrow> pr_sent f < pr_beats f \<Longrightarrow>
       \<exists>new. pr_beats f = Suc (pr_sent f) \<and> mv_r_q ms' = fs @ new \<or>
         (\<exists>f'. pr_beats f' = pr_beats f \<and> pr_sent f' = Suc (pr_sent f) \<and> pr_sent f' < pr_beats f' \<and>
           unat (pr_ready_at f') \<le> unat t + max_gap T \<and> mv_r_q ms' = f' # fs @ new)"
    "mv_b_q ms = b # bs \<Longrightarrow> m_bvalid p \<Longrightarrow> m_bready q \<Longrightarrow> \<exists>new. mv_b_q ms' = bs @ new"
proof -
  obtain ms1 p1 where d: "mem_drive_comb G t (ms\<lparr> hooks := k \<rparr>, p0) = (ms1, p1)" by (cases "mem_drive_comb G t (ms\<lparr> hooks := k \<rparr>, p0)")
  then have c: "ms' = mem_latch_edge G T t p q ms1" "p = mem_drive_rdata t ms1 p1"
    using assms by (auto simp: mem_cycle_def Let_def)
  obtain r where ms1: "ms1 = ms\<lparr> hooks := k, ddr_rng := r \<rparr>" using drive_frame [of G t "ms\<lparr> hooks := k \<rparr>" p0] d by auto
  have p: "m_rvalid p = m_rvalid p1" "m_bvalid p = m_bvalid p1" using c(2) by (simp_all add: mem_drive_rdata_def split: list.split)
  show "m_rvalid p \<longleftrightarrow> (case mv_r_q ms of [] \<Rightarrow> False | f # _ \<Rightarrow> \<not> g_mem_block_rvalid k \<and> pr_ready_at f \<le> t)"
    "m_bvalid p \<longleftrightarrow> (case mv_b_q ms of [] \<Rightarrow> False | b # _ \<Rightarrow> pb_ready_at b \<le> t)"
    using drive_pins(1,2) [of G t "ms\<lparr> hooks := k \<rparr>" p0] d p by (simp_all split: list.splits)
  let ?m = "latch_b p q (latch_w G T t p q (latch_aw p q ms1))"
  have r: "\<exists>new. mv_r_q (latch_ar G T t p q ?m) = mv_r_q ms @ new"
    by (simp add: latch_ar_def ms1 Let_def split: prod.split)
  have w: "\<exists>new. mv_b_q (latch_w G T t p q (latch_aw p q ms1)) = mv_b_q ms @ new"
    by (simp add: latch_w_def finish_write_def latch_aw_def ms1 Let_def split: prod.split)
  show "\<exists>new. mv_r_q ms' = f # fs @ new" if "mv_r_q ms = f # fs" "\<not> m_rvalid p"
    using r that c(1) by (auto simp: mem_latch_edge_def latch_r_def split: list.split)
  show "\<exists>new. mv_b_q ms' = b # bs @ new" if "mv_b_q ms = b # bs" "\<not> m_bvalid p"
    using w that c(1) by (auto simp: mem_latch_edge_def latch_b_def)
  show "\<exists>new. mv_b_q ms' = bs @ new" if "mv_b_q ms = b # bs" "m_bvalid p" "m_bready q"
    using w that c(1) by (auto simp: mem_latch_edge_def latch_b_def)
  show "\<exists>new. pr_beats f = Suc (pr_sent f) \<and> mv_r_q ms' = fs @ new \<or>
      (\<exists>f'. pr_beats f' = pr_beats f \<and> pr_sent f' = Suc (pr_sent f) \<and> pr_sent f' < pr_beats f' \<and>
        unat (pr_ready_at f') \<le> unat t + max_gap T \<and> mv_r_q ms' = f' # fs @ new)"
    if "mv_r_q ms = f # fs" "m_rvalid p" "m_rready q" "pr_sent f < pr_beats f"
  proof -
    obtain new where "mv_r_q (latch_ar G T t p q ?m) = mv_r_q ms @ new" using r by blast
    then have n: "mv_r_q (latch_ar G T t p q ?m) = f # fs @ new" using that(1) by simp
    obtain g r' where g: "beat_gap G T (ddr_rng (latch_ar G T t p q ?m)) = (g, r')" by fastforce
    then have "unat (t + of_nat g) \<le> unat t + max_gap T"
      using due_time [OF draws_bounded(2) [of G T "ddr_rng (latch_ar G T t p q ?m)"]] by simp
    then show ?thesis
      using n g that c(1) by (cases "Suc (pr_sent f) < pr_beats f") (auto simp: mem_latch_edge_def latch_r_def Let_def intro!: exI [of _ new])
  qed
qed

text \<open>
  What the two response channels share: the head of the queue is delivered once its time has come and stays until then; a
  delivery leaves the queue with one piece less of the head, due again within the gap.
\<close>

locale responder =
  fixes G :: "'r \<Rightarrow> u32 \<times> 'r" and T :: ddr_timing and queue :: "'r mem_slave \<Rightarrow> 'x list" and ready_at :: "'x \<Rightarrow> u64"
    and events :: "mem_log \<Rightarrow> 'e list" and pieces :: "'x \<Rightarrow> nat" and gap :: nat
  assumes events_Cons: "events (x # xs) = events [x] @ events xs"
    and delivered: "mem_cycle G T t (fst c) (snd c) (ms, p) = (ms', p') \<Longrightarrow> serving c \<Longrightarrow> queue ms = f # fs \<Longrightarrow> ready_at f \<le> t \<Longrightarrow>
      0 < pieces f \<Longrightarrow> events [(p', snd c, backing ms)] \<noteq> [] \<and>
        (\<exists>new. pieces f = 1 \<and> queue ms' = fs @ new \<or>
          (\<exists>f'. pieces f = Suc (pieces f') \<and> 0 < pieces f' \<and> unat (ready_at f') \<le> unat t + gap \<and> queue ms' = f' # fs @ new))"
    and kept: "mem_cycle G T t (fst c) (snd c) (ms, p) = (ms', p') \<Longrightarrow> queue ms = f # fs \<Longrightarrow> \<not> ready_at f \<le> t \<Longrightarrow>
      \<exists>new. queue ms' = f # fs @ new"
begin

lemma served_by:
  assumes "queue ms = xs @ ys" "\<forall>x \<in> set xs. 0 < pieces x \<and> unat (ready_at x) \<le> d" "unat t \<le> d" "k \<le> sum_list (map pieces xs)"
    and "\<forall>c \<in> set cs. serving c" "unat t + length cs < 2 ^ 64" "k = 0 \<or> d + (k - 1) * max 1 gap < unat t + length cs"
  shows "k \<le> length (events (fst (mem_run G T cs t ms p)))"
  using assms
proof (induction cs arbitrary: t ms p xs ys d k)
  case (Cons c cs)
  show ?case
  proof (cases "k = 0")
    case False
    then obtain f fs where xs: "xs = f # fs" using Cons.prems(4) by (cases xs) auto
    obtain m1 p1 where cyc: "mem_cycle G T t (fst c) (snd c) (ms, p) = (m1, p1)" by (cases "mem_cycle G T t (fst c) (snd c) (ms, p)")
    have "fst (mem_run G T (c # cs) t ms p) = (p1, snd c, backing ms) # fst (mem_run G T cs (t + 1) m1 p1)"
      using cyc by (simp add: run_Cons split_beta)
    then have run: "events (fst (mem_run G T (c # cs) t ms p)) = events [(p1, snd c, backing ms)] @ events (fst (mem_run G T cs (t + 1) m1 p1))"
      by (simp only: events_Cons [symmetric])
    have t: "unat (t + 1) = Suc (unat t)" using Cons.prems(6) by (simp add: unat_word_ariths)
    have time: "d + (k - 1) * max 1 gap < Suc (unat t) + length cs" "unat (t + 1) + length cs < 2 ^ 64"
      using Cons.prems(6,7) False t by simp_all
    have q: "queue ms = f # fs @ ys" using Cons.prems(1) xs by simp
    have f: "0 < pieces f" "unat (ready_at f) \<le> d" using Cons.prems(2) xs by simp_all
    show ?thesis
    proof (cases "ready_at f \<le> t")
      case True
      have ev: "events [(p1, snd c, backing ms)] \<noteq> []" using delivered [OF cyc _ q True f(1)] Cons.prems(5) by simp
      obtain zs new where z: "queue m1 = zs @ (ys @ new)" "\<forall>x \<in> set zs. 0 < pieces x \<and> unat (ready_at x) \<le> d + max 1 gap"
          "sum_list (map pieces xs) = Suc (sum_list (map pieces zs))"
      proof -
        obtain new where n: "pieces f = 1 \<and> queue m1 = (fs @ ys) @ new \<or>
            (\<exists>f'. pieces f = Suc (pieces f') \<and> 0 < pieces f' \<and> unat (ready_at f') \<le> unat t + gap \<and> queue m1 = f' # (fs @ ys) @ new)"
          using delivered [OF cyc _ q True f(1)] Cons.prems(5) by auto
        have fs: "\<forall>x \<in> set fs. 0 < pieces x \<and> unat (ready_at x) \<le> d + max 1 gap" using Cons.prems(2) xs by auto
        from n show ?thesis
        proof (elim disjE conjE exE)
          assume "pieces f = 1" "queue m1 = (fs @ ys) @ new"
          with fs that [of fs new] xs show ?thesis by simp
        next
          fix f' assume "pieces f = Suc (pieces f')" "0 < pieces f'" "unat (ready_at f') \<le> unat t + gap" "queue m1 = f' # (fs @ ys) @ new"
          with fs that [of "f' # fs" new] xs Cons.prems(3) show ?thesis by (simp add: max_def split: if_splits)
        qed
      qed
      have "k - 1 = 0 \<or> d + max 1 gap + (k - 1 - 1) * max 1 gap < unat (t + 1) + length cs"
      proof (cases "k - 1")
        case (Suc j)
        then show ?thesis using time(1) t by (simp add: algebra_simps)
      qed simp
      then have "k - 1 \<le> length (events (fst (mem_run G T cs (t + 1) m1 p1)))"
        using Cons.IH [OF z(1,2), of "t + 1" "k - 1" p1] Cons.prems(3-5) t time(2) z(3) by (simp add: max_def split: if_splits)
      moreover have "1 \<le> length (events [(p1, snd c, backing ms)])" using ev by (cases "events [(p1, snd c, backing ms)]") auto
      ultimately show ?thesis using run by simp
    next
      case False
      then obtain new where n: "queue m1 = xs @ (ys @ new)" using kept [OF cyc q] xs by auto
      have "unat t < d" using False f(2) by (simp add: word_le_nat_alt)
      then show ?thesis
        using Cons.IH [OF n Cons.prems(2), of "t + 1" k p1] Cons.prems(4,5) t time run by simp
    qed
  qed simp
qed auto

end

definition beats_due :: "pending_r \<Rightarrow> nat" where
  "beats_due f = pr_beats f - pr_sent f"

interpretation reads: responder G T mv_r_q pr_ready_at r_log beats_due "max_gap T" for G T
proof unfold_locales
  fix x and xs :: mem_log show "r_log (x # xs) = r_log [x] @ r_log xs" by (simp add: r_log_def)
next
  fix t c and ms ms' :: "'a mem_slave" and p p' f fs
  assume c: "mem_cycle G T t (fst c) (snd c) (ms, p) = (ms', p')" "mv_r_q ms = f # fs"
  show "r_log [(p', snd c, backing ms)] \<noteq> [] \<and>
      (\<exists>new. beats_due f = 1 \<and> mv_r_q ms' = fs @ new \<or>
        (\<exists>f'. beats_due f = Suc (beats_due f') \<and> 0 < beats_due f' \<and> unat (pr_ready_at f') \<le> unat t + max_gap T \<and> mv_r_q ms' = f' # fs @ new))"
    if s: "serving c" "pr_ready_at f \<le> t" "0 < beats_due f"
  proof -
    have v: "m_rvalid p'" using cycle_valid(1) [OF c(1)] c(2) s by (simp add: serving_def)
    obtain new where n: "pr_beats f = Suc (pr_sent f) \<and> mv_r_q ms' = fs @ new \<or>
        (\<exists>f'. pr_beats f' = pr_beats f \<and> pr_sent f' = Suc (pr_sent f) \<and> pr_sent f' < pr_beats f' \<and>
          unat (pr_ready_at f') \<le> unat t + max_gap T \<and> mv_r_q ms' = f' # fs @ new)"
      using cycle_valid(5) [OF c v] s by (auto simp: serving_def beats_due_def)
    have e: "r_log [(p', snd c, backing ms)] \<noteq> []" using v s(1) by (simp add: r_log_def serving_def)
    from n show ?thesis
    proof (elim disjE conjE exE)
      assume "pr_beats f = Suc (pr_sent f)" "mv_r_q ms' = fs @ new"
      then show ?thesis using e by (auto simp: beats_due_def)
    next
      fix f' assume f': "pr_beats f' = pr_beats f" "pr_sent f' = Suc (pr_sent f)" "pr_sent f' < pr_beats f'"
        "unat (pr_ready_at f') \<le> unat t + max_gap T" "mv_r_q ms' = f' # fs @ new"
      then have "beats_due f = Suc (beats_due f')" "0 < beats_due f'" by (simp_all add: beats_due_def)
      then show ?thesis using e f'(4,5) by blast
    qed
  qed
  show "\<exists>new. mv_r_q ms' = f # fs @ new" if "\<not> pr_ready_at f \<le> t"
    using cycle_valid(1) [OF c(1)] cycle_valid(3) [OF c] c(2) that by simp
qed

interpretation writes: responder G T mv_b_q pb_ready_at b_log "\<lambda>_. 1" 0 for G T
proof unfold_locales
  fix x and xs :: mem_log show "b_log (x # xs) = b_log [x] @ b_log xs" by (simp add: b_log_def)
next
  fix t c and ms ms' :: "'a mem_slave" and p p' f fs
  assume c: "mem_cycle G T t (fst c) (snd c) (ms, p) = (ms', p')" "mv_b_q ms = f # fs"
  show "\<exists>new. mv_b_q ms' = f # fs @ new" if "\<not> pb_ready_at f \<le> t"
    using cycle_valid(2) [OF c(1)] cycle_valid(4) [OF c] c(2) that by simp
  fix dummy assume s: "serving c" "pb_ready_at f \<le> t"
  have v: "m_bvalid p'" using cycle_valid(2) [OF c(1)] c(2) s by simp
  show "b_log [(p', snd c, backing ms)] \<noteq> [] \<and>
      (\<exists>new. (1 :: nat) = 1 \<and> mv_b_q ms' = fs @ new \<or>
        (\<exists>f'. (1 :: nat) = Suc 1 \<and> (0 :: nat) < 1 \<and> unat (pb_ready_at f') \<le> unat t + 0 \<and> mv_b_q ms' = f' # fs @ new))"
    using v s(1) cycle_valid(6) [OF c v] by (simp add: b_log_def serving_def)
qed

lemma on_time_run:
  "on_time T t ms \<Longrightarrow> unat t + length cs < 2 ^ 64 \<Longrightarrow> mem_run G T cs t ms p = (l, t', ms', p') \<Longrightarrow>
   on_time T t' ms' \<and> unat t' = unat t + length cs"
proof (induction cs arbitrary: t ms p l)
  case (Cons c cs)
  obtain m1 p1 where cyc: "mem_cycle G T t (fst c) (snd c) (ms, p) = (m1, p1)" by (cases "mem_cycle G T t (fst c) (snd c) (ms, p)")
  have t: "unat (t + 1) = Suc (unat t)" using Cons.prems(2) by (simp add: unat_word_ariths)
  have "on_time T t m1" by (rule on_time_cycle [OF Cons.prems(1) cyc])
  then have "on_time T (t + 1) m1" using t by (auto simp: on_time_def le_SucI)
  moreover obtain l1 where "mem_run G T cs (t + 1) m1 p1 = (l1, t', ms', p')"
    using Cons.prems(3) cyc by (cases "mem_run G T cs (t + 1) m1 p1") (auto simp: run_Cons)
  ultimately show ?case using Cons.IH [of "t + 1" m1 p1] Cons.prems(2) t by simp
qed (simp add: mem_run_def)

lemma length_beats_left: "length (beats_left q) = sum_list (map beats_due q)"
  by (induction q) (simp_all add: beats_left_def beats_due_def burst_beats_def)


section \<open>A concrete run\<close>

definition no_hooks :: mem_hooks where
  "no_hooks = \<lparr> g_mem_force_ready = True, g_mem_block_rvalid = False, g_mem_block_arready = False, g_mem_block_awready = False,
     g_mem_next_rresp = 0, g_mem_next_bresp = 0 \<rparr>"

definition empty_slave :: "u32 mem_slave" where
  "empty_slave = \<lparr> mv_aw_have = False, mv_aw_id = 0, mv_aw_addr = 0, mv_aw_len = 0, mv_aw_beat = 0, mv_b_q = [], mv_r_q = [], ddr_rng = 7,
     backing = (\<lambda>_. 0), hooks = no_hooks,
     counts = \<lparr> g_dbg_aw_accepts = 0, g_dbg_w_accepts = 0, g_dbg_ar_accepts = 0, g_dbg_last_aw_addr = 0, g_dbg_last_aw_len = 0,
       g_aw_log_on = False, g_aw_log = [] \<rparr> \<rparr>"

definition quiet_m_in :: m_in where
  "quiet_m_in = \<lparr> m_awready = False, m_wready = False, m_arready = False, m_bvalid = False, m_bid = 0, m_bresp = 0, m_rvalid = False,
     m_rid = 0, m_rresp = 0, m_rlast = False, m_rdata = [0, 0, 0, 0] \<rparr>"

definition quiet_m_out :: m_out where
  "quiet_m_out = \<lparr> m_awvalid = False, m_awid = 0, m_awaddr = 0, m_awlen = 0, m_wvalid = False, m_wdata = [0, 0, 0, 0], m_wstrb = 0,
     m_bready = True, m_arvalid = False, m_arid = 0, m_araddr = 0, m_arlen = 0, m_rready = True \<rparr>"

definition fast_ddr :: ddr_timing where
  "fast_ddr = \<lparr> g_ddr_latency_base = 1, g_ddr_latency_jitter = 0, g_ddr_beat_gap_max = 0 \<rparr>"

definition count_up :: "u32 \<Rightarrow> u32 \<times> u32" where "count_up r = (r, r + 1)"

text \<open>A write burst of one beat to address 16, then a read of it.\<close>

definition demo_cycles :: "(mem_hooks \<times> m_out) list" where
  "demo_cycles = map (Pair no_hooks)
     [quiet_m_out\<lparr> m_awvalid := True, m_awaddr := 16, m_awid := 3 \<rparr>,
      quiet_m_out\<lparr> m_wvalid := True, m_wdata := [0x04030201, 0, 0, 0], m_wstrb := 0x5 \<rparr>,
      quiet_m_out\<lparr> m_arvalid := True, m_araddr := 16, m_arid := 5 \<rparr>, quiet_m_out]"

definition demo_run :: "mem_log \<times> u64 \<times> u32 mem_slave \<times> m_in" where
  "demo_run = mem_run count_up fast_ddr demo_cycles 0 empty_slave quiet_m_in"

lemma demo_run_split:
  "mem_run count_up fast_ddr demo_cycles 0 empty_slave quiet_m_in = (fst demo_run, fst (snd demo_run), fst (snd (snd demo_run)), snd (snd (snd demo_run)))"
  by (simp add: demo_run_def)

lemma demo_facts:
  "aw_log (fst demo_run) = [(3, 16, 1)]" "w_log (fst demo_run) = [(5, [1, 2, 3, 4, 0, 0, 0, 0, 0, 0, 0, 0, 0, 0, 0, 0])]"
  "ar_log (fst demo_run) = [(5, 16, 1)]" "length (r_log (fst demo_run)) = 1"
  by code_simp+

theorem mem_slave_reads_in_order_witness: "list_all2 serves (r_log (fst demo_run)) [(5, 16, True)]"
proof -
  have "concat (map burst_beats (ar_log (fst demo_run))) = [(5, 16, True)]" by (simp add: demo_facts burst_beats_def)
  then show ?thesis
    using mem_slave_reads_in_order [OF demo_run_split] demo_facts(4) by (simp add: empty_slave_def Let_def)
qed

theorem mem_slave_writes_witness:
  "backing (fst (snd (snd demo_run))) 16 = 1 \<and> backing (fst (snd (snd demo_run))) 17 = 0 \<and> backing (fst (snd (snd demo_run))) 18 = 3"
proof -
  have "beat_addrs (aw_log (fst demo_run)) = [16]" by (simp add: demo_facts beat_addrs_def burst_beats_def)
  then have "backing (fst (snd (snd demo_run))) =
      write_beats [(16, 5, [1, 2, 3, 4, 0, 0, 0, 0, 0, 0, 0, 0, 0, 0, 0, 0])] (backing empty_slave)"
    using mem_slave_writes [OF demo_run_split] by (simp add: demo_facts empty_slave_def)
  moreover have "write_beats [(16, 5, [1, 2, 3, 4, 0, 0, 0, 0, 0, 0, 0, 0, 0, 0, 0, 0])] (backing empty_slave) a = v"
    if "(a, v) \<in> {(16, 1), (17, 0), (18, 3)}" for a v
    using that by (elim insertE emptyE) (simp_all only: prod.inject, code_simp+)
  ultimately show ?thesis by simp
qed


end
