(* ===== verification/L2c_Requester.thy ===== *)
theory L2c_Requester
  imports L2c_Memory
begin

unbundle bit_operations_syntax

text \<open>
  The requester of the level-2 cache test bench (\<open>tb/tb_l2c.cpp\<close>): an AXI master with several bursts
  outstanding, matched to their responses by identifier, its pool of identifiers, and the fetch stream
  that shares its driver.  A burst has one owner at a time (a queue, a cursor, a map), so the shared
  pointers of the source are values here that move from one to the next.  \<open>abort\<close> is \<open>None\<close>.
\<close>

record w_burst =
  wb_id :: u32
  wb_addr :: u64
  wb_beats :: nat
  wb_data :: "u8 list list"
  wb_strb :: "u16 list"
  wb_issue_beat :: nat
  wb_t_issue :: u64
  wb_t_aw :: u64
  wb_t_b :: u64
  wb_aw_done :: bool
  wb_resp_ok :: bool
  wb_done :: bool

record r_burst =
  rb_id :: u32
  rb_addr :: u64
  rb_beats :: nat
  rb_got :: "u8 list list"
  rb_last_resp :: u8
  rb_t_issue :: u64
  rb_t_ar :: u64
  rb_t_r0 :: u64
  rb_t_rl :: u64
  rb_done :: bool

record fetch_stream =
  g_fetch_stream :: bool
  g_fetch_ar_hs :: u64
  g_fetch_rlast_hs :: u64
  g_fetch_arlen :: nat
  g_fetch_stride :: u64
  g_fetch_nid :: nat
  g_fetch_addr :: u64
  g_fetch_id :: nat
  g_fetch_ar_pres :: u64
  g_fetch_ar_refused :: u64

text \<open>The overrides of the next burst; \<open>-1\<close> is none.\<close>

record overrides =
  g_force_arburst :: int
  g_force_arsize :: int
  g_force_awsize :: int

record 'r requester =
  w_pending_issue :: "w_burst list"
  w_issuing :: "w_burst option"
  g_aw_runahead :: bool
  aw_issuing :: "w_burst option"
  w_aw_sent :: "w_burst list"
  w_awaiting_b :: "u32 \<rightharpoonup> w_burst"
  w_done :: "u32 \<rightharpoonup> w_burst"
  r_pending_issue :: "r_burst list"
  r_issuing :: "r_burst option"
  r_awaiting :: "u32 \<rightharpoonup> r_burst list"
  r_done :: "u32 \<rightharpoonup> r_burst"
  free_ids :: "u32 list"
  force :: overrides
  fetch :: fetch_stream
  g_unmatched_resp_seen :: bool
  g_suppress_unmatched_check :: bool
  g_perf_always_ready :: bool
  no_backpressure :: bool
  req_rng :: 'r

record s_in =
  s_awvalid :: bool
  s_awid :: u8
  s_awaddr :: u32
  s_awlen :: u8
  s_awsize :: u8
  s_awburst :: u8
  s_wvalid :: bool
  s_wdata :: "u32 list"
  s_wstrb :: u16
  s_wlast :: bool
  s_arvalid :: bool
  s_arid :: u8
  s_araddr :: u32
  s_arlen :: u8
  s_arsize :: u8
  s_arburst :: u8
  s_bready :: bool
  s_rready :: bool
  f_arvalid :: bool
  f_arid :: u8
  f_araddr :: u32
  f_arlen :: u8
  f_arsize :: u8
  f_arburst :: u8
  f_rready :: bool

record s_out =
  s_awready :: bool
  s_wready :: bool
  s_bvalid :: bool
  s_bid :: u8
  s_bresp :: u8
  s_arready :: bool
  s_rvalid :: bool
  s_rid :: u8
  s_rresp :: u8
  s_rlast :: bool
  s_rdata :: "u32 list"
  f_arready :: bool
  f_rvalid :: bool
  f_rlast :: bool

section \<open>Identifiers\<close>

text \<open>The pool is a \<open>std::set\<close>: in order and without repetition.\<close>

definition put_id :: "u32 \<Rightarrow> u32 list \<Rightarrow> u32 list" where
  "put_id i ids = (if i \<in> set ids then ids else insort i ids)"

definition alloc_id :: "'r requester \<Rightarrow> (u32 \<times> 'r requester) option" where
  "alloc_id q = (case free_ids q of [] \<Rightarrow> None | i # ids \<Rightarrow> Some (i, q\<lparr> free_ids := ids \<rparr>))"

definition init_ids :: "'r requester \<Rightarrow> 'r requester" where
  "init_ids q = q\<lparr> free_ids := fold put_id (map of_nat [1..<60]) (free_ids q) \<rparr>"

definition free_read :: "u32 \<Rightarrow> 'r requester \<Rightarrow> 'r requester" where
  "free_read i q = q\<lparr> r_done := (r_done q)(i := None), free_ids := put_id i (free_ids q) \<rparr>"

definition free_write :: "u32 \<Rightarrow> 'r requester \<Rightarrow> 'r requester" where
  "free_write i q = q\<lparr> w_done := (w_done q)(i := None), free_ids := put_id i (free_ids q) \<rparr>"

section \<open>Issuing\<close>

definition new_read :: "u64 \<Rightarrow> u32 \<Rightarrow> u64 \<Rightarrow> nat \<Rightarrow> r_burst" where
  "new_read t i a n = \<lparr> rb_id = i, rb_addr = a, rb_beats = n, rb_got = [], rb_last_resp = 0, rb_t_issue = t, rb_t_ar = 0, rb_t_r0 = 0,
     rb_t_rl = 0, rb_done = False \<rparr>"

definition new_write :: "u64 \<Rightarrow> u32 \<Rightarrow> u64 \<Rightarrow> u8 list list \<Rightarrow> u16 list \<Rightarrow> w_burst" where
  "new_write t i a data strb = \<lparr> wb_id = i, wb_addr = a, wb_beats = length data, wb_data = data, wb_strb = strb, wb_issue_beat = 0,
     wb_t_issue = t, wb_t_aw = 0, wb_t_b = 0, wb_aw_done = False, wb_resp_ok = False, wb_done = False \<rparr>"

definition issue_read_explicit_id :: "u64 \<Rightarrow> u64 \<Rightarrow> u32 \<Rightarrow> nat \<Rightarrow> 'r requester \<Rightarrow> 'r requester" where
  "issue_read_explicit_id t a i n q = q\<lparr> r_pending_issue := r_pending_issue q @ [new_read t i a n] \<rparr>"

definition issue_read :: "u64 \<Rightarrow> u64 \<Rightarrow> nat \<Rightarrow> 'r requester \<Rightarrow> (u32 \<times> 'r requester) option" where
  "issue_read t a n q = (case alloc_id q of None \<Rightarrow> None | Some (i, q) \<Rightarrow> Some (i, issue_read_explicit_id t a i n q))"

definition issue_write_explicit_id :: "u64 \<Rightarrow> u64 \<Rightarrow> u32 \<Rightarrow> u8 list list \<Rightarrow> u16 list \<Rightarrow> 'r requester \<Rightarrow> 'r requester" where
  "issue_write_explicit_id t a i data strb q = q\<lparr> w_pending_issue := w_pending_issue q @ [new_write t i a data strb] \<rparr>"

definition issue_write :: "u64 \<Rightarrow> u64 \<Rightarrow> u8 list list \<Rightarrow> u16 list \<Rightarrow> 'r requester \<Rightarrow> (u32 \<times> 'r requester) option" where
  "issue_write t a data strb q =
     (case alloc_id q of None \<Rightarrow> None | Some (i, q) \<Rightarrow> Some (i, issue_write_explicit_id t a i data strb q))"

definition seed_beat :: "u64 \<Rightarrow> u8 list" where
  "seed_beat seed = map (\<lambda>i. ucast ((seed + of_nat i) AND 0xFF)) [0..<16]"

definition issue_write_full :: "u64 \<Rightarrow> u64 \<Rightarrow> u64 \<Rightarrow> 'r requester \<Rightarrow> (u32 \<times> 'r requester) option" where
  "issue_write_full t a seed = issue_write t a [seed_beat seed] [0xFFFF]"

section \<open>Driving the pins\<close>

definition req_ready_gate :: "('r \<Rightarrow> u32 \<times> 'r) \<Rightarrow> nat \<Rightarrow> 'r requester \<Rightarrow> bool \<times> 'r requester" where
  "req_ready_gate G pct q =
     (if g_perf_always_ready q then (True, q)
      else if no_backpressure q then (True, q)
      else let (x, r) = G (req_rng q) in (unat x mod 100 < pct, q\<lparr> req_rng := r \<rparr>))"

definition drive_aw :: "overrides \<Rightarrow> w_burst option \<Rightarrow> s_in \<Rightarrow> s_in" where
  "drive_aw k cur p =
     (case cur of
        Some b \<Rightarrow>
          if \<not> wb_aw_done b then
            p\<lparr> s_awvalid := True, s_awid := ucast (wb_id b), s_awaddr := ucast (wb_addr b), s_awlen := of_nat (wb_beats b) - 1,
               s_awsize := (if 0 \<le> g_force_awsize k then of_int (g_force_awsize k) else 4), s_awburst := 1 \<rparr>
          else p\<lparr> s_awvalid := False \<rparr>
      | None \<Rightarrow> p\<lparr> s_awvalid := False \<rparr>)"

definition drive_w :: "w_burst option \<Rightarrow> s_in \<Rightarrow> s_in" where
  "drive_w cur p =
     (case cur of
        Some b \<Rightarrow>
          p\<lparr> s_wvalid := True, s_wdata := set_wide_bytes (wb_data b ! wb_issue_beat b) 16, s_wstrb := wb_strb b ! wb_issue_beat b,
             s_wlast := (Suc (wb_issue_beat b) = wb_beats b) \<rparr>
      | None \<Rightarrow> p\<lparr> s_wvalid := False \<rparr>)"

definition drive_ar :: "overrides \<Rightarrow> r_burst option \<Rightarrow> s_in \<Rightarrow> s_in" where
  "drive_ar k cur p =
     (case cur of
        Some b \<Rightarrow>
          p\<lparr> s_arvalid := True, s_arid := ucast (rb_id b), s_araddr := ucast (rb_addr b), s_arlen := of_nat (rb_beats b) - 1,
             s_arsize := (if 0 \<le> g_force_arsize k then of_int (g_force_arsize k) else 4),
             s_arburst := (if 0 \<le> g_force_arburst k then of_int (g_force_arburst k) else 1) \<rparr>
      | None \<Rightarrow> p\<lparr> s_arvalid := False \<rparr>)"

definition req_drive_comb :: "('r \<Rightarrow> u32 \<times> 'r) \<Rightarrow> 'r requester \<times> s_in \<Rightarrow> 'r requester \<times> s_in" where
  "req_drive_comb G s =
     (let (q, p) = s;
          p = drive_ar (force q) (r_issuing q)
                (drive_w (w_issuing q) (drive_aw (force q) (if g_aw_runahead q then aw_issuing q else w_issuing q) p));
          (b, q) = req_ready_gate G 85 q;
          (r, q) = req_ready_gate G 85 q;
          f = fetch q in
      (q, p\<lparr> s_bready := b, s_rready := r, f_arvalid := g_fetch_stream f, f_arid := of_nat (g_fetch_id f),
             f_araddr := ucast (g_fetch_addr f), f_arlen := of_nat (g_fetch_arlen f), f_arsize := 5, f_arburst := 1,
             f_rready := True \<rparr>))"

text \<open>A cursor that is free takes the head of its queue.\<close>

definition take_next :: "'b option \<Rightarrow> 'b list \<Rightarrow> 'b option \<times> 'b list" where
  "take_next cur xs = (case (cur, xs) of (None, b # r) \<Rightarrow> (Some b, r) | _ \<Rightarrow> (cur, xs))"

definition req_pump_issue :: "'r requester \<Rightarrow> 'r requester" where
  "req_pump_issue q =
     (let q = (if g_aw_runahead q then
                 let (aw, pend) = take_next (aw_issuing q) (w_pending_issue q); (w, sent) = take_next (w_issuing q) (w_aw_sent q) in
                 q\<lparr> aw_issuing := aw, w_pending_issue := pend, w_issuing := w, w_aw_sent := sent \<rparr>
               else
                 let (w, pend) = take_next (w_issuing q) (w_pending_issue q) in q\<lparr> w_issuing := w, w_pending_issue := pend \<rparr>);
          (r, pend) = take_next (r_issuing q) (r_pending_issue q) in
      q\<lparr> r_issuing := r, r_pending_issue := pend \<rparr>)"

section \<open>Latching the handshakes\<close>

definition latch_fetch :: "s_in \<Rightarrow> s_out \<Rightarrow> fetch_stream \<Rightarrow> fetch_stream" where
  "latch_fetch p o' f =
     (let f = (if f_arvalid p then
                 f\<lparr> g_fetch_ar_pres := g_fetch_ar_pres f + 1,
                    g_fetch_ar_refused := (if f_arready o' then g_fetch_ar_refused f else g_fetch_ar_refused f + 1) \<rparr> else f);
          f = (if f_arvalid p \<and> f_arready o' then
                 let f = f\<lparr> g_fetch_ar_hs := g_fetch_ar_hs f + 1 \<rparr> in
                 if g_fetch_stride f \<noteq> 0 then
                   f\<lparr> g_fetch_addr := g_fetch_addr f + g_fetch_stride f,
                      g_fetch_id := (if 1 < g_fetch_nid f then (g_fetch_id f + 1) mod g_fetch_nid f else g_fetch_id f) \<rparr>
                 else f
               else f) in
      if f_rvalid o' \<and> f_rready p \<and> f_rlast o' then f\<lparr> g_fetch_rlast_hs := g_fetch_rlast_hs f + 1 \<rparr> else f)"

definition latch_runahead_aw :: "u64 \<Rightarrow> s_in \<Rightarrow> s_out \<Rightarrow> 'r requester \<Rightarrow> 'r requester" where
  "latch_runahead_aw t p o' q =
     (case aw_issuing q of
        Some b \<Rightarrow>
          if g_aw_runahead q \<and> \<not> wb_aw_done b \<and> s_awvalid p \<and> s_awready o' then
            q\<lparr> force := (force q)\<lparr> g_force_awsize := -1 \<rparr>, w_aw_sent := w_aw_sent q @ [b\<lparr> wb_aw_done := True, wb_t_aw := t \<rparr>],
               aw_issuing := None \<rparr>
          else q
      | None \<Rightarrow> q)"

definition latch_w_burst :: "u64 \<Rightarrow> s_in \<Rightarrow> s_out \<Rightarrow> 'r requester \<Rightarrow> 'r requester" where
  "latch_w_burst t p o' q =
     (case w_issuing q of
        None \<Rightarrow> q
      | Some b \<Rightarrow>
          let aw = (\<not> g_aw_runahead q \<and> \<not> wb_aw_done b \<and> s_awvalid p \<and> s_awready o');
              b = (if aw then b\<lparr> wb_aw_done := True, wb_t_aw := t \<rparr> else b);
              q = (if aw then q\<lparr> force := (force q)\<lparr> g_force_awsize := -1 \<rparr> \<rparr> else q) in
          if wb_aw_done b \<and> s_wvalid p \<and> s_wready o' then
            let b = b\<lparr> wb_issue_beat := wb_issue_beat b + 1 \<rparr> in
            if wb_issue_beat b = wb_beats b then q\<lparr> w_awaiting_b := (w_awaiting_b q)(wb_id b \<mapsto> b), w_issuing := None \<rparr>
            else q\<lparr> w_issuing := Some b \<rparr>
          else q\<lparr> w_issuing := Some b \<rparr>)"

definition latch_r_header :: "u64 \<Rightarrow> s_in \<Rightarrow> s_out \<Rightarrow> 'r requester \<Rightarrow> 'r requester" where
  "latch_r_header t p o' q =
     (case r_issuing q of
        Some b \<Rightarrow>
          if s_arvalid p \<and> s_arready o' then
            let old = (case r_awaiting q (rb_id b) of None \<Rightarrow> [] | Some bs \<Rightarrow> bs) in
            q\<lparr> r_awaiting := (r_awaiting q)(rb_id b \<mapsto> old @ [b\<lparr> rb_t_ar := t \<rparr>]), r_issuing := None,
               force := (force q)\<lparr> g_force_arburst := -1, g_force_arsize := -1 \<rparr> \<rparr>
          else q
      | None \<Rightarrow> q)"

definition unmatched :: "'r requester \<Rightarrow> 'r requester" where
  "unmatched q = (if g_suppress_unmatched_check q then q else q\<lparr> g_unmatched_resp_seen := True \<rparr>)"

definition latch_b_resp :: "u64 \<Rightarrow> s_in \<Rightarrow> s_out \<Rightarrow> 'r requester \<Rightarrow> 'r requester" where
  "latch_b_resp t p o' q =
     (if s_bvalid o' \<and> s_bready p then
        let i = ucast (s_bid o') in
        case w_awaiting_b q i of
          Some b \<Rightarrow>
            q\<lparr> w_done := (w_done q)(i \<mapsto> b\<lparr> wb_resp_ok := (s_bresp o' = 0), wb_t_b := t, wb_done := True \<rparr>),
               w_awaiting_b := (w_awaiting_b q)(i := None) \<rparr>
        | None \<Rightarrow> unmatched q
      else q)"

definition take_beat :: "u64 \<Rightarrow> s_out \<Rightarrow> r_burst \<Rightarrow> r_burst" where
  "take_beat t o' b =
     b\<lparr> rb_t_r0 := (if rb_got b = [] then t else rb_t_r0 b), rb_got := rb_got b @ [get_wide_bytes (s_rdata o') 16],
        rb_last_resp := s_rresp o' \<rparr>"

definition latch_r_resp :: "u64 \<Rightarrow> s_in \<Rightarrow> s_out \<Rightarrow> 'r requester \<Rightarrow> 'r requester" where
  "latch_r_resp t p o' q =
     (if s_rvalid o' \<and> s_rready p then
        let i = ucast (s_rid o') in
        case r_awaiting q i of
          Some (b # bs) \<Rightarrow>
            let b = take_beat t o' b in
            if s_rlast o' then
              q\<lparr> r_done := (r_done q)(i \<mapsto> b\<lparr> rb_t_rl := t, rb_done := True \<rparr>),
                 r_awaiting := (r_awaiting q)(i := (if bs = [] then None else Some bs)) \<rparr>
            else q\<lparr> r_awaiting := (r_awaiting q)(i \<mapsto> b # bs) \<rparr>
        | _ \<Rightarrow> unmatched q
      else q)"

definition req_latch_edge :: "u64 \<Rightarrow> s_in \<Rightarrow> s_out \<Rightarrow> 'r requester \<Rightarrow> 'r requester" where
  "req_latch_edge t p o' q =
     latch_r_resp t p o' (latch_b_resp t p o' (latch_r_header t p o' (latch_w_burst t p o' (latch_runahead_aw t p o'
       (q\<lparr> fetch := latch_fetch p o' (fetch q) \<rparr>)))))"

end
