(* ===== verification/L2c_Requester_Props.thy ===== *)
theory L2c_Requester_Props
  imports L2c_Requester
begin

unbundle bit_operations_syntax

text \<open>
  The requester of the level-2 cache test bench: no identifier is lost or handed out twice whatever the
  design answers, the beats of a read are collected in order, an unmatched response is flagged exactly
  when it occurs, and the master keeps its payload until it is accepted.
\<close>

section \<open>Where an identifier is\<close>

definition in_list :: "('b \<Rightarrow> u32) \<Rightarrow> u32 \<Rightarrow> 'b list \<Rightarrow> nat" where
  "in_list key i bs = length (filter (\<lambda>b. key b = i) bs)"

definition in_cursor :: "('b \<Rightarrow> u32) \<Rightarrow> u32 \<Rightarrow> 'b option \<Rightarrow> nat" where
  "in_cursor key i cur = (case cur of None \<Rightarrow> 0 | Some b \<Rightarrow> of_bool (key b = i))"

definition in_map :: "u32 \<Rightarrow> (u32 \<rightharpoonup> 'b) \<Rightarrow> nat" where
  "in_map i m = of_bool (m i \<noteq> None)"

definition in_queues :: "u32 \<Rightarrow> (u32 \<rightharpoonup> 'b list) \<Rightarrow> nat" where
  "in_queues i m = (case m i of None \<Rightarrow> 0 | Some bs \<Rightarrow> length bs)"

text \<open>In how many places an identifier is: queues, cursors, maps and the pool.\<close>

definition uses :: "'r requester \<Rightarrow> u32 \<Rightarrow> nat" where
  "uses q i =
     in_list wb_id i (w_pending_issue q) + in_cursor wb_id i (w_issuing q) + in_cursor wb_id i (aw_issuing q) +
     in_list wb_id i (w_aw_sent q) + in_map i (w_awaiting_b q) + in_map i (w_done q) +
     in_list rb_id i (r_pending_issue q) + in_cursor rb_id i (r_issuing q) + in_queues i (r_awaiting q) + in_map i (r_done q) +
     of_bool (i \<in> set (free_ids q))"

definition pooled :: "u32 \<Rightarrow> bool" where "pooled i \<longleftrightarrow> 1 \<le> i \<and> i < 60"

definition keyed :: "'r requester \<Rightarrow> bool" where
  "keyed q \<longleftrightarrow> sorted (free_ids q) \<and> distinct (free_ids q) \<and> (\<forall>i bs. r_awaiting q i = Some bs \<longrightarrow> bs \<noteq> [])"

definition ids_ok :: "'r requester \<Rightarrow> bool" where
  "ids_ok q \<longleftrightarrow> keyed q \<and> (\<forall>i. uses q i = of_bool (pooled i))"

text \<open>How the operations of the source change these counts.\<close>

named_theorems use_rules

lemma in_list_rules [use_rules]:
  "in_list key i [] = 0" "in_list key i (b # bs) = of_bool (key b = i) + in_list key i bs"
  "in_list key i (bs @ [b]) = in_list key i bs + of_bool (key b = i)"
  by (simp_all add: in_list_def)

lemma in_cursor_rules [use_rules]: "in_cursor key i None = 0" "in_cursor key i (Some b) = of_bool (key b = i)"
  by (simp_all add: in_cursor_def)

lemma in_map_new: "m k = None \<Longrightarrow> in_map i (m(k \<mapsto> b)) = in_map i m + of_bool (k = i)"
  by (simp add: in_map_def)

lemma in_map_del: "m k = Some b \<Longrightarrow> in_map i (m(k := None)) + of_bool (k = i) = in_map i m"
  by (simp add: in_map_def)

lemma in_queues_push: "in_queues i (m(k \<mapsto> (case m k of None \<Rightarrow> [] | Some bs \<Rightarrow> bs) @ [b])) = in_queues i m + of_bool (k = i)"
  by (simp add: in_queues_def split: option.split)

lemma in_queues_pop: "m k = Some (b # bs) \<Longrightarrow> in_queues i (m(k := (if bs = [] then None else Some bs))) + of_bool (k = i) = in_queues i m"
  by (simp add: in_queues_def)

lemma in_queues_same: "m k = Some (b # bs) \<Longrightarrow> in_queues i (m(k \<mapsto> c # bs)) = in_queues i m"
  by (simp add: in_queues_def)

lemma take_next_uses:
  "take_next cur bs = (cur', bs') \<Longrightarrow> in_cursor key i cur' + in_list key i bs' = in_cursor key i cur + in_list key i bs"
  by (auto simp: take_next_def use_rules split: option.splits list.splits)

lemma uses_frame:
  "uses (q\<lparr> fetch := f \<rparr>) i = uses q i" "uses (q\<lparr> force := k \<rparr>) i = uses q i" "uses (q\<lparr> req_rng := r \<rparr>) i = uses q i"
  "uses (unmatched q) i = uses q i" "keyed (unmatched q) = keyed q"
  by (simp_all add: uses_def unmatched_def keyed_def)

lemma pump_uses: "uses (req_pump_issue q) i = uses q i" "keyed (req_pump_issue q) = keyed q"
proof -
  obtain r pr where r: "take_next (r_issuing q) (r_pending_issue q) = (r, pr)" by (cases "take_next (r_issuing q) (r_pending_issue q)")
  obtain aw pa where aw: "take_next (aw_issuing q) (w_pending_issue q) = (aw, pa)" by (cases "take_next (aw_issuing q) (w_pending_issue q)")
  obtain w ps where w: "take_next (w_issuing q) (w_aw_sent q) = (w, ps)" by (cases "take_next (w_issuing q) (w_aw_sent q)")
  obtain v pv where v: "take_next (w_issuing q) (w_pending_issue q) = (v, pv)" by (cases "take_next (w_issuing q) (w_pending_issue q)")
  show "uses (req_pump_issue q) i = uses q i"
    using take_next_uses [OF r, of rb_id i] take_next_uses [OF aw, of wb_id i] take_next_uses [OF w, of wb_id i] take_next_uses [OF v, of wb_id i]
    by (simp add: req_pump_issue_def uses_def r aw w v)
  show "keyed (req_pump_issue q) = keyed q" by (simp add: req_pump_issue_def keyed_def r aw w v)
qed

lemma runahead_uses: "uses (latch_runahead_aw t p o' q) i = uses q i" "keyed (latch_runahead_aw t p o' q) = keyed q"
proof -
  show "uses (latch_runahead_aw t p o' q) i = uses q i"
    by (cases "aw_issuing q") (simp_all add: latch_runahead_aw_def uses_def use_rules split del: split_of_bool)
  show "keyed (latch_runahead_aw t p o' q) = keyed q"
    by (simp add: latch_runahead_aw_def keyed_def split: option.split)
qed

lemma r_header_uses: "uses (latch_r_header t p o' q) i = uses q i" "keyed q \<Longrightarrow> keyed (latch_r_header t p o' q)"
proof -
  show "uses (latch_r_header t p o' q) i = uses q i"
    by (cases "r_issuing q") (simp_all add: latch_r_header_def uses_def use_rules in_queues_push Let_def split del: split_of_bool)
  show "keyed q \<Longrightarrow> keyed (latch_r_header t p o' q)"
    by (cases "r_issuing q") (simp_all add: latch_r_header_def keyed_def Let_def)
qed

text \<open>A burst that moves into a map finds its key free there, since it is in one place only.\<close>

lemma sole_place:
  assumes "\<forall>i. uses q i \<le> 1"
  shows "w_issuing q = Some b \<Longrightarrow> w_awaiting_b q (wb_id b) = None" "w_awaiting_b q i = Some b \<Longrightarrow> w_done q i = None"
    "r_awaiting q i = Some (c # cs) \<Longrightarrow> r_done q i = None \<and> cs = []"
proof -
  show "w_awaiting_b q (wb_id b) = None" if "w_issuing q = Some b"
  proof (rule ccontr)
    assume "w_awaiting_b q (wb_id b) \<noteq> None"
    then have "in_map (wb_id b) (w_awaiting_b q) = 1" by (simp add: in_map_def)
    moreover have "in_cursor wb_id (wb_id b) (w_issuing q) = 1" using that by (simp add: in_cursor_def)
    ultimately show False using assms [rule_format, of "wb_id b"] unfolding uses_def by linarith
  qed
  show "w_done q i = None" if "w_awaiting_b q i = Some b"
  proof (rule ccontr)
    assume "w_done q i \<noteq> None"
    then have "in_map i (w_done q) = 1" by (simp add: in_map_def)
    moreover have "in_map i (w_awaiting_b q) = 1" using that by (simp add: in_map_def)
    ultimately show False using assms [rule_format, of i] unfolding uses_def by linarith
  qed
  show "r_done q i = None \<and> cs = []" if "r_awaiting q i = Some (c # cs)"
  proof -
    have "in_queues i (r_awaiting q) = Suc (length cs)" using that by (simp add: in_queues_def)
    then have "in_map i (r_done q) = 0" "length cs = 0" using assms [rule_format, of i] unfolding uses_def by linarith+
    then show ?thesis by (auto simp: in_map_def split: if_splits)
  qed
qed

lemma w_burst_uses:
  assumes "\<forall>i. uses q i \<le> 1"
  shows "uses (latch_w_burst t p o' q) i = uses q i" "keyed q \<Longrightarrow> keyed (latch_w_burst t p o' q)"
proof -
  show "uses (latch_w_burst t p o' q) i = uses q i"
  proof (cases "w_issuing q")
    case None then show ?thesis by (simp add: latch_w_burst_def)
  next
    case (Some b)
    note new = in_map_new [of "w_awaiting_b q", OF sole_place(1) [OF assms Some], of i]
    show ?thesis by (simp add: latch_w_burst_def Some uses_def use_rules new Let_def split del: split_of_bool)
  qed
  show "keyed q \<Longrightarrow> keyed (latch_w_burst t p o' q)"
    by (cases "w_issuing q") (simp_all add: latch_w_burst_def keyed_def Let_def)
qed

lemma b_resp_uses:
  assumes "\<forall>i. uses q i \<le> 1"
  shows "uses (latch_b_resp t p o' q) i = uses q i" "keyed q \<Longrightarrow> keyed (latch_b_resp t p o' q)"
proof -
  let ?k = "ucast (s_bid o') :: u32"
  show "uses (latch_b_resp t p o' q) i = uses q i"
  proof (cases "w_awaiting_b q ?k")
    case None then show ?thesis by (simp add: latch_b_resp_def uses_frame Let_def)
  next
    case (Some b)
    note move = in_map_new [of "w_done q", OF sole_place(2) [OF assms Some], of i] in_map_del [of "w_awaiting_b q", OF Some, of i]
    show ?thesis unfolding latch_b_resp_def Let_def Some option.case using move by (simp add: uses_def split del: split_of_bool)
  qed
  show "keyed q \<Longrightarrow> keyed (latch_b_resp t p o' q)"
    by (cases "w_awaiting_b q ?k") (simp_all add: latch_b_resp_def unmatched_def keyed_def Let_def)
qed

lemma r_resp_uses:
  assumes "\<forall>i. uses q i \<le> 1"
  shows "uses (latch_r_resp t p o' q) i = uses q i" "keyed q \<Longrightarrow> keyed (latch_r_resp t p o' q)"
proof -
  let ?k = "ucast (s_rid o') :: u32"
  consider (none) "r_awaiting q ?k = None \<or> r_awaiting q ?k = Some []" | (some) b bs where "r_awaiting q ?k = Some (b # bs)"
    by (metis option.exhaust list.exhaust)
  then have "uses (latch_r_resp t p o' q) i = uses q i \<and> (keyed q \<longrightarrow> keyed (latch_r_resp t p o' q))"
  proof cases
    case none then show ?thesis by (auto simp: latch_r_resp_def uses_frame Let_def)
  next
    case (some b bs)
    have d: "r_done q ?k = None" using sole_place(3) [OF assms some] by simp
    have "uses (latch_r_resp t p o' q) i = uses q i"
      unfolding latch_r_resp_def Let_def some option.case list.case
      using in_map_new [of "r_done q", OF d, of i] in_queues_pop [of "r_awaiting q", OF some, of i] in_queues_same [of "r_awaiting q", OF some, of i]
      by (simp add: uses_def split del: split_of_bool)
    moreover have "keyed q \<longrightarrow> keyed (latch_r_resp t p o' q)"
      unfolding latch_r_resp_def Let_def some option.case list.case by (simp add: keyed_def)
    ultimately show ?thesis by blast
  qed
  then show "uses (latch_r_resp t p o' q) i = uses q i" "keyed q \<Longrightarrow> keyed (latch_r_resp t p o' q)" by blast+
qed

lemma ids_ok_le: "ids_ok q \<Longrightarrow> \<forall>i. uses q i \<le> 1"
  by (simp add: ids_ok_def)

lemma latch_ids: "ids_ok q \<Longrightarrow> ids_ok (req_latch_edge t p o' q)"
proof -
  assume q: "ids_ok q"
  let ?f = "q\<lparr> fetch := latch_fetch p o' (fetch q) \<rparr>"
  have f: "ids_ok ?f" using q by (simp add: ids_ok_def uses_frame keyed_def)
  then have a: "ids_ok (latch_runahead_aw t p o' ?f)" by (simp add: ids_ok_def runahead_uses)
  let ?a = "latch_runahead_aw t p o' ?f"
  have w: "ids_ok (latch_w_burst t p o' ?a)" using a w_burst_uses [OF ids_ok_le [OF a]] by (simp add: ids_ok_def)
  then have h: "ids_ok (latch_r_header t p o' (latch_w_burst t p o' ?a))" by (simp add: ids_ok_def r_header_uses)
  let ?h = "latch_r_header t p o' (latch_w_burst t p o' ?a)"
  have b: "ids_ok (latch_b_resp t p o' ?h)" using h b_resp_uses [OF ids_ok_le [OF h]] by (simp add: ids_ok_def)
  then show ?thesis unfolding req_latch_edge_def using r_resp_uses [OF ids_ok_le [OF b]] by (simp add: ids_ok_def)
qed

section \<open>Reachable states\<close>

definition blank :: "'r requester \<Rightarrow> bool" where
  "blank q \<longleftrightarrow>
     w_pending_issue q = [] \<and> w_issuing q = None \<and> aw_issuing q = None \<and> w_aw_sent q = [] \<and> w_awaiting_b q = Map.empty \<and>
     w_done q = Map.empty \<and> r_pending_issue q = [] \<and> r_issuing q = None \<and> r_awaiting q = Map.empty \<and> r_done q = Map.empty \<and>
     free_ids q = []"

text \<open>
  Everything a scenario that takes its identifiers from the pool does to the requester, with the pins and
  the answers of the design arbitrary: the three phases of a clock, issuing, and freeing a finished burst.
\<close>

inductive req_reach :: "('r \<Rightarrow> u32 \<times> 'r) \<Rightarrow> 'r requester \<Rightarrow> bool" for G where
  init: "blank q \<Longrightarrow> req_reach G (init_ids q)"
| pump: "req_reach G q \<Longrightarrow> req_reach G (req_pump_issue q)"
| drive: "req_reach G q \<Longrightarrow> req_reach G (fst (req_drive_comb G (q, p)))"
| latch: "req_reach G q \<Longrightarrow> req_reach G (req_latch_edge t p o' q)"
| issue_r: "req_reach G q \<Longrightarrow> issue_read t a n q = Some (i, q') \<Longrightarrow> req_reach G q'"
| issue_w: "req_reach G q \<Longrightarrow> issue_write t a data strb q = Some (i, q') \<Longrightarrow> req_reach G q'"
| freed_r: "req_reach G q \<Longrightarrow> r_done q i \<noteq> None \<Longrightarrow> req_reach G (free_read i q)"
| freed_w: "req_reach G q \<Longrightarrow> w_done q i \<noteq> None \<Longrightarrow> req_reach G (free_write i q)"

lemma pool_order:
  assumes "n \<le> 60"
  shows "\<forall>x \<in> set (map of_nat [1..<n]). x < (of_nat n :: u32)" "sorted (map of_nat [1..<n] :: u32 list)" "distinct (map of_nat [1..<n] :: u32 list)"
    "fold put_id (map of_nat [1..<n]) [] = (map of_nat [1..<n] :: u32 list)"
proof -
  have lt: "(of_nat k :: u32) < of_nat m" if "k < m" "m \<le> 60" for k m
    using that by (simp add: word_less_nat_alt unat_of_nat)
  show below: "\<forall>x \<in> set (map of_nat [1..<n]). x < (of_nat n :: u32)" using lt assms by auto
  have step: "\<forall>x \<in> set (map of_nat [1..<m]). x < (of_nat m :: u32)" if "m \<le> 60" for m using lt that by auto
  have "sorted (map of_nat [1..<n] :: u32 list) \<and> distinct (map of_nat [1..<n] :: u32 list) \<and>
      fold put_id (map of_nat [1..<n]) [] = (map of_nat [1..<n] :: u32 list)"
    using assms
  proof (induction n)
    case 0 then show ?case by simp
  next
    case (Suc n)
    show ?case
    proof (cases "1 \<le> n")
      case True
      then have u: "[1..<Suc n] = [1..<n] @ [n]" by simp
      have b: "\<forall>x \<in> set (map of_nat [1..<n]). x < (of_nat n :: u32)" using Suc.prems by (intro step) simp
      have srt: "sorted (map of_nat [1..<n] :: u32 list)" using Suc by simp
      have "insort (of_nat n) (map of_nat [1..<n]) = map of_nat [1..<n] @ [of_nat n :: u32]"
        by (rule sorted_insort_is_snoc [OF srt]) (use b in \<open>blast intro: less_imp_le\<close>)
      moreover have "of_nat n \<notin> set (map of_nat [1..<n] :: u32 list)" using b by blast
      ultimately have "put_id (of_nat n) (map of_nat [1..<n]) = map of_nat [1..<n] @ [of_nat n :: u32]" unfolding put_id_def by (simp only: if_False)
      then show ?thesis using Suc b unfolding u by (auto simp: sorted_append)
    qed simp
  qed
  then show "sorted (map of_nat [1..<n] :: u32 list)" "distinct (map of_nat [1..<n] :: u32 list)"
    "fold put_id (map of_nat [1..<n]) [] = (map of_nat [1..<n] :: u32 list)" by blast+
qed

lemma init_pool: "free_ids q = [] \<Longrightarrow> free_ids (init_ids q) = map of_nat [1..<60]"
  using pool_order(4) [of 60] by (simp add: init_ids_def)

lemma init_ids_ok: "blank q \<Longrightarrow> ids_ok (init_ids q)"
proof -
  assume q: "blank q"
  have sd: "sorted (map of_nat [1..<60] :: u32 list) \<and> distinct (map of_nat [1..<60] :: u32 list)" using pool_order(2,3) [of 60] by simp
  have mem: "i \<in> set (map of_nat [1..<60]) \<longleftrightarrow> pooled i" for i :: u32
  proof
    assume "i \<in> set (map of_nat [1..<60])"
    then obtain n where "n \<in> {1..<60}" "i = of_nat n" by auto
    then have "unat i = n" "1 \<le> n" "n < 60" by (simp_all add: unat_of_nat take_bit_nat_eq_self)
    then show "pooled i" by (simp add: pooled_def word_le_nat_alt word_less_nat_alt)
  next
    assume "pooled i"
    then have "unat i \<in> set [1..<60]" by (simp add: pooled_def word_le_nat_alt word_less_nat_alt)
    moreover have "i = of_nat (unat i)" by simp
    ultimately show "i \<in> set (map of_nat [1..<60])" unfolding set_map by (rule rev_image_eqI)
  qed
  have f: "free_ids (init_ids q) = map of_nat [1..<60]" using q by (simp add: init_pool blank_def)
  then have "keyed (init_ids q)" using q sd by (simp add: keyed_def blank_def init_ids_def)
  moreover have "uses (init_ids q) i = of_bool (pooled i)" for i
    unfolding uses_def f mem using q by (simp add: init_ids_def blank_def in_list_def in_cursor_def in_map_def in_queues_def split del: split_of_bool)
  ultimately show ?thesis by (simp add: ids_ok_def)
qed

lemma drive_uses: "uses (fst (req_drive_comb G (q, p))) i = uses q i" "keyed (fst (req_drive_comb G (q, p))) = keyed q"
proof -
  have g: "uses (snd (req_ready_gate G n q)) i = uses q i \<and> keyed (snd (req_ready_gate G n q)) = keyed q" for n q
    by (simp add: req_ready_gate_def uses_frame keyed_def Let_def split: prod.split)
  show "uses (fst (req_drive_comb G (q, p))) i = uses q i" "keyed (fst (req_drive_comb G (q, p))) = keyed q"
    using g [of 85 q] g [of 85 "snd (req_ready_gate G 85 q)"] by (simp_all add: req_drive_comb_def Let_def split_beta)
qed

lemma alloc_uses:
  assumes "ids_ok q" "alloc_id q = Some (k, q1)"
  shows "of_bool (k = i) + uses q1 i = uses q i" "keyed q1"
proof -
  obtain ids where f: "free_ids q = k # ids" "q1 = q\<lparr> free_ids := ids \<rparr>"
    using assms(2) by (auto simp: alloc_id_def split: list.splits)
  have "k \<notin> set ids" "sorted ids \<and> distinct ids" using assms(1) f(1) by (auto simp: ids_ok_def keyed_def)
  moreover have "of_bool (k = i) + of_bool (i \<in> set ids) = (of_bool (i \<in> set (free_ids q)) :: nat)" using calculation f(1) by auto
  ultimately show "of_bool (k = i) + uses q1 i = uses q i" "keyed q1"
    using conjunct1 [OF assms(1) [unfolded ids_ok_def]] unfolding uses_def keyed_def f(2) by (simp_all split del: split_of_bool)
qed

lemma put_id_ok: "sorted ids \<and> distinct ids \<Longrightarrow> sorted (put_id i ids) \<and> distinct (put_id i ids)" "set (put_id i ids) = insert i (set ids)"
  by (auto simp: put_id_def distinct_insort sorted_insort set_insort_key)

lemma free_uses:
  assumes "ids_ok q"
  shows "r_done q k \<noteq> None \<Longrightarrow> ids_ok (free_read k q)" "w_done q k \<noteq> None \<Longrightarrow> ids_ok (free_write k q)"
proof -
  have le: "uses q k \<le> 1" using ids_ok_le [OF assms] by blast
  show "ids_ok (free_read k q)" if d: "r_done q k \<noteq> None"
  proof -
    have m: "in_map k (r_done q) = 1" using d by (simp add: in_map_def)
    have "of_bool (k \<in> set (free_ids q)) = (0 :: nat)" using le m unfolding uses_def by linarith
    then have "k \<notin> set (free_ids q)" by simp
    then have "uses (free_read k q) i = uses q i" for i
      using m by (cases "i = k") (simp_all add: uses_def free_read_def put_id_ok in_map_def)
    then show ?thesis using assms by (simp add: ids_ok_def keyed_def free_read_def put_id_ok)
  qed
  show "ids_ok (free_write k q)" if d: "w_done q k \<noteq> None"
  proof -
    have m: "in_map k (w_done q) = 1" using d by (simp add: in_map_def)
    have "of_bool (k \<in> set (free_ids q)) = (0 :: nat)" using le m unfolding uses_def by linarith
    then have "k \<notin> set (free_ids q)" by simp
    then have "uses (free_write k q) i = uses q i" for i
      using m by (cases "i = k") (simp_all add: uses_def free_write_def put_id_ok in_map_def)
    then show ?thesis using assms by (simp add: ids_ok_def keyed_def free_write_def put_id_ok)
  qed
qed

lemma issue_ids:
  assumes "ids_ok q"
  shows "issue_read t a n q = Some (i, q') \<Longrightarrow> ids_ok q'" "issue_write t a data strb q = Some (i, q') \<Longrightarrow> ids_ok q'"
proof -
  show "ids_ok q'" if r: "issue_read t a n q = Some (i, q')"
  proof -
    obtain q1 where "alloc_id q = Some (i, q1)" "q' = issue_read_explicit_id t a i n q1"
      using r by (auto simp: issue_read_def split: option.splits)
    then have "uses q' k = uses q k" "keyed q'" for k
      using alloc_uses(1) [OF assms, of i q1 k] alloc_uses(2) [OF assms, of i q1]
      by (simp_all add: uses_def issue_read_explicit_id_def use_rules new_read_def keyed_def split del: split_of_bool)
    then show ?thesis using assms by (simp add: ids_ok_def)
  qed
  show "ids_ok q'" if w: "issue_write t a data strb q = Some (i, q')"
  proof -
    obtain q1 where "alloc_id q = Some (i, q1)" "q' = issue_write_explicit_id t a i data strb q1"
      using w by (auto simp: issue_write_def split: option.splits)
    then have "uses q' k = uses q k" "keyed q'" for k
      using alloc_uses(1) [OF assms, of i q1 k] alloc_uses(2) [OF assms, of i q1]
      by (simp_all add: uses_def issue_write_explicit_id_def use_rules new_write_def keyed_def split del: split_of_bool)
    then show ?thesis using assms by (simp add: ids_ok_def)
  qed
qed

lemma reach_ids_ok: "req_reach G q \<Longrightarrow> ids_ok q"
proof (induction rule: req_reach.induct)
  case (init q) then show ?case by (rule init_ids_ok)
next
  case (pump q) then show ?case by (simp add: ids_ok_def pump_uses)
next
  case (drive q p) then show ?case by (simp add: ids_ok_def drive_uses)
next
  case (latch q t p o') then show ?case by (simp add: latch_ids)
next
  case (issue_r q t a n i q') then show ?case using issue_ids(1) by blast
next
  case (issue_w q t a data strb i q') then show ?case using issue_ids(2) by blast
next
  case (freed_r q i) then show ?case using free_uses(1) by blast
next
  case (freed_w q i) then show ?case using free_uses(2) by blast
qed

text \<open>
  C10 Identifiers are conserved.  Whatever the design answers (late, early, twice, to the wrong
  identifier), in every state the requester reaches each identifier of the pool is in exactly one
  place: free, or with one burst that is queued, being issued, outstanding or finished; and no other
  identifier is in use.  So an identifier is never handed out while its burst lives and never lost.
\<close>

theorem request_ids_conserved: "req_reach G q \<Longrightarrow> uses q i = of_bool (1 \<le> i \<and> i < 60)"
  using reach_ids_ok [of G q] by (simp add: ids_ok_def pooled_def)

definition idle_requester :: "unit requester" where
  "idle_requester = \<lparr> w_pending_issue = [], w_issuing = None, g_aw_runahead = False, aw_issuing = None, w_aw_sent = [],
     w_awaiting_b = Map.empty, w_done = Map.empty, r_pending_issue = [], r_issuing = None, r_awaiting = Map.empty, r_done = Map.empty,
     free_ids = [], force = \<lparr> g_force_arburst = -1, g_force_arsize = -1, g_force_awsize = -1 \<rparr>,
     fetch = \<lparr> g_fetch_stream = False, g_fetch_ar_hs = 0, g_fetch_rlast_hs = 0, g_fetch_arlen = 0, g_fetch_stride = 0, g_fetch_nid = 1,
       g_fetch_addr = 0, g_fetch_id = 0, g_fetch_ar_pres = 0, g_fetch_ar_refused = 0 \<rparr>,
     g_unmatched_resp_seen = False, g_suppress_unmatched_check = False, g_perf_always_ready = True, no_backpressure = True, req_rng = () \<rparr>"

definition one_read :: "unit requester" where
  "one_read = snd (the (issue_read 7 0x100 2 (init_ids idle_requester)))"

lemma one_read_state:
  "issue_read 7 0x100 2 (init_ids idle_requester) = Some (1, one_read)" "free_ids one_read = map of_nat [2..<60]"
  "map rb_id (r_pending_issue one_read) = [1]"
proof -
  have f: "free_ids (init_ids idle_requester) = 1 # map of_nat [2..<60]"
    using init_pool [of idle_requester] by (simp add: idle_requester_def upt_conv_Cons)
  then show "issue_read 7 0x100 2 (init_ids idle_requester) = Some (1, one_read)" "free_ids one_read = map of_nat [2..<60]"
    by (simp_all add: one_read_def issue_read_def alloc_id_def issue_read_explicit_id_def)
  show "map rb_id (r_pending_issue one_read) = [1]"
    using f by (simp add: one_read_def issue_read_def alloc_id_def issue_read_explicit_id_def init_ids_def idle_requester_def new_read_def)
qed

lemma one_read_reached: "req_reach G one_read"
proof -
  have "req_reach G (init_ids idle_requester)" by (rule req_reach.init) (simp add: blank_def idle_requester_def)
  from req_reach.issue_r [OF this one_read_state(1)] show ?thesis .
qed

theorem request_ids_conserved_witness:
  "uses one_read 1 = 1 \<and> 1 \<notin> set (free_ids one_read) \<and> map rb_id (r_pending_issue one_read) = [1] \<and> uses one_read 60 = 0"
proof -
  have "unat (of_nat k :: u32) = k" if "k < 60" for k using that by (simp add: unat_of_nat)
  then have "1 \<notin> set (free_ids one_read)" unfolding one_read_state(2) by (force simp: word_unat_eq_iff)
  then show ?thesis
    using one_read_state(3) request_ids_conserved [OF one_read_reached [of "\<lambda>r. (0, r)"], of 1]
      request_ids_conserved [OF one_read_reached [of "\<lambda>r. (0, r)"], of 60] by simp
qed

text \<open>
  Only the identifiers of the pool are kept apart.  A second write under an explicit identifier takes the place of
  one that still waits for its response, and the older burst is forgotten.
\<close>

lemma same_id_write_replaces:
  assumes "w_issuing q = Some b" "wb_aw_done b" "s_wvalid p" "s_wready o'" "Suc (wb_issue_beat b) = wb_beats b" "w_awaiting_b q (wb_id b) = Some a"
  shows "w_awaiting_b (latch_w_burst t p o' q) (wb_id b) = Some (b\<lparr> wb_issue_beat := wb_beats b \<rparr>)"
  using assms by (simp add: latch_w_burst_def)

section \<open>Collecting a read\<close>

text \<open>
  One clock of the requester with the answers \<open>o'\<close> of the design: cursors filled, pins driven,
  handshakes latched.
\<close>

definition req_cycle :: "('r \<Rightarrow> u32 \<times> 'r) \<Rightarrow> u64 \<times> s_out \<Rightarrow> 'r requester \<times> s_in \<Rightarrow> 'r requester \<times> s_in" where
  "req_cycle G x s =
     (let (q, p) = req_drive_comb G (req_pump_issue (fst s), snd s) in (req_latch_edge (fst x) p (snd x) q, p))"

definition beat_for :: "u32 \<Rightarrow> s_in \<Rightarrow> s_out \<Rightarrow> bool" where
  "beat_for i p o' \<longleftrightarrow> s_rvalid o' \<and> s_rready p \<and> ucast (s_rid o') = i"

fun taken_beats :: "('r \<Rightarrow> u32 \<times> 'r) \<Rightarrow> u32 \<Rightarrow> (u64 \<times> s_out) list \<Rightarrow> 'r requester \<times> s_in \<Rightarrow> s_out list" where
  "taken_beats G i [] s = []"
| "taken_beats G i (x # xs) s =
     (if beat_for i (snd (req_cycle G x s)) (snd x) then [snd x] else []) @ taken_beats G i xs (req_cycle G x s)"

definition read_queue :: "'r requester \<Rightarrow> u32 \<Rightarrow> r_burst list" where
  "read_queue q i = (case r_awaiting q i of None \<Rightarrow> [] | Some bs \<Rightarrow> bs)"

lemma pump_reads: "r_awaiting (req_pump_issue q) = r_awaiting q" "r_done (req_pump_issue q) = r_done q"
  by (simp_all add: req_pump_issue_def Let_def split_beta)

lemma drive_reads: "r_awaiting (fst (req_drive_comb G s)) = r_awaiting (fst s)" "r_done (fst (req_drive_comb G s)) = r_done (fst s)"
  by (simp_all add: req_drive_comb_def req_ready_gate_def Let_def split_beta)

lemma write_latch_reads:
  "r_awaiting (latch_runahead_aw t p o' q) = r_awaiting q" "r_done (latch_runahead_aw t p o' q) = r_done q"
  "r_awaiting (latch_w_burst t p o' q) = r_awaiting q" "r_done (latch_w_burst t p o' q) = r_done q"
  "r_awaiting (latch_b_resp t p o' q) = r_awaiting q" "r_done (latch_b_resp t p o' q) = r_done q"
  by (simp_all add: latch_runahead_aw_def latch_w_burst_def latch_b_resp_def unmatched_def Let_def split: option.split)

lemma header_reads:
  "\<exists>more. read_queue (latch_r_header t p o' q) i = read_queue q i @ more" "r_done (latch_r_header t p o' q) = r_done q"
  by (auto simp: latch_r_header_def read_queue_def Let_def split: option.split)

lemma beat_reads:
  assumes "read_queue q i = b # bs"
  shows "\<not> beat_for i p o' \<Longrightarrow> read_queue (latch_r_resp t p o' q) i = b # bs"
    "beat_for i p o' \<Longrightarrow> \<not> s_rlast o' \<Longrightarrow> read_queue (latch_r_resp t p o' q) i = take_beat t o' b # bs"
    "beat_for i p o' \<Longrightarrow> s_rlast o' \<Longrightarrow> read_queue (latch_r_resp t p o' q) i = bs"
    "beat_for i p o' \<Longrightarrow> s_rlast o' \<Longrightarrow> r_done (latch_r_resp t p o' q) i = Some ((take_beat t o' b)\<lparr> rb_t_rl := t, rb_done := True \<rparr>)"
proof -
  have q: "r_awaiting q i = Some (b # bs)" using assms by (simp add: read_queue_def split: option.splits)
  show "read_queue (latch_r_resp t p o' q) i = b # bs" if "\<not> beat_for i p o'"
    using that q by (auto simp: latch_r_resp_def beat_for_def read_queue_def unmatched_def Let_def split: option.split list.split)
  show "read_queue (latch_r_resp t p o' q) i = take_beat t o' b # bs" if "beat_for i p o'" "\<not> s_rlast o'"
    using that q by (auto simp: latch_r_resp_def beat_for_def read_queue_def Let_def)
  show "read_queue (latch_r_resp t p o' q) i = bs" if "beat_for i p o'" "s_rlast o'"
    using that q by (auto simp: latch_r_resp_def beat_for_def read_queue_def Let_def)
  show "r_done (latch_r_resp t p o' q) i = Some ((take_beat t o' b)\<lparr> rb_t_rl := t, rb_done := True \<rparr>)" if "beat_for i p o'" "s_rlast o'"
    using that q by (auto simp: latch_r_resp_def beat_for_def Let_def)
qed

lemma no_beat_reads:
  assumes "\<not> beat_for i p o'"
  shows "read_queue (latch_r_resp t p o' q) i = read_queue q i" "r_done (latch_r_resp t p o' q) i = r_done q i"
  using assms by (auto simp: latch_r_resp_def beat_for_def read_queue_def unmatched_def Let_def split: option.split list.split)

lemma cycle_reads:
  obtains q' more where "fst (req_cycle G x s) = latch_r_resp (fst x) (snd (req_cycle G x s)) (snd x) q'"
    "read_queue q' i = read_queue (fst s) i @ more" "r_done q' = r_done (fst s)"
proof -
  obtain q p where d: "req_drive_comb G (req_pump_issue (fst s), snd s) = (q, p)" by fastforce
  have q: "r_awaiting q = r_awaiting (fst s)" "r_done q = r_done (fst s)"
    using drive_reads [of G "(req_pump_issue (fst s), snd s)"] by (simp_all add: d pump_reads)
  let ?w = "latch_w_burst (fst x) p (snd x) (latch_runahead_aw (fst x) p (snd x) (q\<lparr> fetch := latch_fetch p (snd x) (fetch q) \<rparr>))"
  let ?h = "latch_r_header (fst x) p (snd x) ?w"
  obtain more where m: "read_queue ?h i = read_queue ?w i @ more" using header_reads(1) by blast
  have w: "read_queue ?w i = read_queue (fst s) i" by (simp add: read_queue_def write_latch_reads q)
  let ?b = "latch_b_resp (fst x) p (snd x) ?h"
  have b: "read_queue ?b i = read_queue ?h i" by (simp add: read_queue_def write_latch_reads)
  show ?thesis
  proof
    show "fst (req_cycle G x s) = latch_r_resp (fst x) (snd (req_cycle G x s)) (snd x) ?b"
      by (simp add: req_cycle_def d req_latch_edge_def)
    show "read_queue ?b i = read_queue (fst s) i @ more" using b m w by simp
    show "r_done ?b = r_done (fst s)" by (simp add: write_latch_reads header_reads(2) q)
  qed
qed

lemma idle_reads:
  "taken_beats G i xs s = [] \<Longrightarrow>
     r_done (fst (fold (req_cycle G) xs s)) i = r_done (fst s) i \<and>
     (\<exists>more. read_queue (fst (fold (req_cycle G) xs s)) i = read_queue (fst s) i @ more)"
proof (induction xs arbitrary: s)
  case Nil then show ?case by simp
next
  case (Cons x xs)
  obtain q' more where c: "fst (req_cycle G x s) = latch_r_resp (fst x) (snd (req_cycle G x s)) (snd x) q'"
    "read_queue q' i = read_queue (fst s) i @ more" "r_done q' = r_done (fst s)" by (rule cycle_reads)
  have n: "\<not> beat_for i (snd (req_cycle G x s)) (snd x)" using Cons.prems by (auto split: if_splits)
  have "read_queue (fst (req_cycle G x s)) i = read_queue (fst s) i @ more" "r_done (fst (req_cycle G x s)) i = r_done (fst s) i"
    using no_beat_reads [OF n, of "fst x" q', folded c(1)] c(2,3) by simp_all
  then show ?case using Cons.IH [of "req_cycle G x s"] Cons.prems by (auto split: if_splits)
qed

definition beat_bytes :: "s_out \<Rightarrow> u8 list" where
  "beat_bytes o' = get_wide_bytes (s_rdata o') 16"

definition same_request :: "r_burst \<Rightarrow> r_burst \<Rightarrow> bool" where
  "same_request a b \<longleftrightarrow> rb_id a = rb_id b \<and> rb_addr a = rb_addr b \<and> rb_beats a = rb_beats b \<and> rb_t_issue a = rb_t_issue b"

lemma collect_reads:
  "read_queue (fst s) i = b # bs \<Longrightarrow> taken_beats G i xs s = ds @ [d] \<Longrightarrow> (\<forall>o' \<in> set ds. \<not> s_rlast o') \<Longrightarrow> s_rlast d \<Longrightarrow>
   \<exists>b' more. r_done (fst (fold (req_cycle G) xs s)) i = Some b' \<and> same_request b' b \<and>
     rb_got b' = rb_got b @ map beat_bytes (ds @ [d]) \<and> rb_last_resp b' = s_rresp d \<and>
     read_queue (fst (fold (req_cycle G) xs s)) i = bs @ more"
proof (induction xs arbitrary: s b bs ds)
  case Nil then show ?case by simp
next
  case (Cons x xs)
  let ?s = "req_cycle G x s"
  obtain q' more where c: "fst ?s = latch_r_resp (fst x) (snd ?s) (snd x) q'"
    "read_queue q' i = b # (bs @ more)" "r_done q' = r_done (fst s)" using cycle_reads [of G x s i] Cons.prems(1) by (metis append_Cons)
  show ?case
  proof (cases "beat_for i (snd ?s) (snd x)")
    case False
    then have "read_queue (fst ?s) i = b # (bs @ more)" using beat_reads(1) [OF c(2) False] c(1) by simp
    from Cons.IH [OF this _ Cons.prems(3,4)] show ?thesis using Cons.prems(2) False by auto
  next
    case True
    then have t: "snd x # taken_beats G i xs ?s = ds @ [d]" using Cons.prems(2) by simp
    show ?thesis
    proof (cases ds)
      case Nil
      then have x: "snd x = d" "taken_beats G i xs ?s = []" using t by simp_all
      have "read_queue (fst ?s) i = bs @ more" "r_done (fst ?s) i = Some ((take_beat (fst x) d b)\<lparr> rb_t_rl := fst x, rb_done := True \<rparr>)"
        using beat_reads(3,4) [OF c(2) True] c(1) Cons.prems(4) x(1) by simp_all
      then show ?thesis using idle_reads [OF x(2)] Nil by (auto simp: take_beat_def same_request_def beat_bytes_def)
    next
      case (Cons e es)
      then have e: "snd x = e" "taken_beats G i xs ?s = es @ [d]" "\<not> s_rlast e" "\<forall>o' \<in> set es. \<not> s_rlast o'"
        using t Cons.prems(3) by simp_all
      have "read_queue (fst ?s) i = take_beat (fst x) e b # (bs @ more)" using beat_reads(2) [OF c(2) True] c(1) e by simp
      from Cons.IH [OF this e(2,4) Cons.prems(4)] show ?thesis
        using Cons by (auto simp: take_beat_def same_request_def beat_bytes_def)
    qed
  qed
qed

text \<open>
  C11 A read is assembled from its own beats.  Take the oldest outstanding read of an identifier and any
  run of clocks, with the requester's random back-pressure, other bursts issued and answered in
  between and beats of other identifiers interleaved anyhow.  If the beats it accepts for that
  identifier are \<open>ds @ [d]\<close> with the last-beat flag on \<open>d\<close> alone, the burst is finished with exactly those
  beats appended in that order and the response code of the last, and the reads queued behind it on
  the identifier are untouched and next in line.
\<close>

theorem read_assembled_in_order:
  assumes "r_awaiting q i = Some (b # bs)" "taken_beats G i xs (q, p) = ds @ [d]" "\<forall>o' \<in> set ds. \<not> s_rlast o'" "s_rlast d"
  shows "\<exists>b' more. r_done (fst (fold (req_cycle G) xs (q, p))) i = Some b' \<and> same_request b' b \<and>
     rb_got b' = rb_got b @ map beat_bytes (ds @ [d]) \<and> rb_last_resp b' = s_rresp d \<and>
     read_queue (fst (fold (req_cycle G) xs (q, p))) i = bs @ more"
  using collect_reads [of "(q, p)" i b bs G xs ds d] assms by (simp add: read_queue_def)

definition r_answer :: "u8 \<Rightarrow> u32 \<Rightarrow> bool \<Rightarrow> s_out" where
  "r_answer i x fin = \<lparr> s_awready = False, s_wready = False, s_bvalid = False, s_bid = 0, s_bresp = 0, s_arready = False, s_rvalid = True,
     s_rid = i, s_rresp = 0, s_rlast = fin, s_rdata = [x, 0, 0, 0], f_arready = False, f_rvalid = False, f_rlast = False \<rparr>"

definition idle_s_pins :: s_in where
  "idle_s_pins = \<lparr> s_awvalid = False, s_awid = 0, s_awaddr = 0, s_awlen = 0, s_awsize = 0, s_awburst = 0, s_wvalid = False,
     s_wdata = [0, 0, 0, 0], s_wstrb = 0, s_wlast = False, s_arvalid = False, s_arid = 0, s_araddr = 0, s_arlen = 0, s_arsize = 0,
     s_arburst = 0, s_bready = False, s_rready = False, f_arvalid = False, f_arid = 0, f_araddr = 0, f_arlen = 0, f_arsize = 0,
     f_arburst = 0, f_rready = False \<rparr>"

definition two_reads :: "unit requester" where
  "two_reads = idle_requester\<lparr> r_awaiting := [3 \<mapsto> [new_read 0 3 0x40 2], 5 \<mapsto> [new_read 0 5 0x80 1]] \<rparr>"

definition interleaved :: "(u64 \<times> s_out) list" where
  "interleaved = [(1, r_answer 3 0x44332211 False), (2, r_answer 5 0xFF True), (3, r_answer 3 0x88776655 True)]"

theorem read_assembled_in_order_witness:
  "\<exists>b'. r_done (fst (fold (req_cycle (\<lambda>r. (0, r))) interleaved (two_reads, idle_s_pins))) 3 = Some b' \<and>
     map (take 4) (rb_got b') = [[0x11, 0x22, 0x33, 0x44], [0x55, 0x66, 0x77, 0x88]]"
proof -
  let ?d = "r_answer 3 0x44332211 False" and ?e = "r_answer 3 0x88776655 True"
  have a: "r_awaiting two_reads 3 = Some (new_read 0 3 0x40 2 # [])" by (simp add: two_reads_def)
  have t: "taken_beats (\<lambda>r. (0, r)) 3 interleaved (two_reads, idle_s_pins) = [?d] @ [?e]" by code_simp
  have l: "\<forall>o' \<in> set [?d]. \<not> s_rlast o'" "s_rlast ?e" by (simp_all add: r_answer_def)
  have g: "map (take 4) (rb_got (new_read 0 3 0x40 2) @ map beat_bytes ([?d] @ [?e])) = [[0x11, 0x22, 0x33, 0x44], [0x55, 0x66, 0x77, 0x88]]"
    by code_simp
  show ?thesis using read_assembled_in_order [OF a t l] g by force
qed

end
