(* ===== verification/L2c_Hot_Door.thy ===== *)
theory L2c_Hot_Door
  imports L2c_Requester
begin

unbundle bit_operations_syntax

text \<open>
  The two masters of the hot door in the level-2 cache test bench (\<open>tb/tb_l2c.cpp\<close>): the read-only
  master with incrementing and wrapping bursts, and the write-only master whose addresses run ahead of
  its data.  A burst of these masters is reached from several queues at once and by the scenario that
  issued it, so the bursts live in a store and the queues hold references into it.
\<close>

section \<open>The read master\<close>

record dh_burst =
  dhb_id :: u32
  dhb_addr :: u64
  dhb_beats :: nat
  dhb_arburst :: nat
  dhb_arsize :: nat
  dhb_got :: "u8 list list"
  dhb_last_resp :: u8
  dhb_any_decerr :: bool
  dhb_done :: bool
  dhb_t_ar :: u64
  dhb_t_rvalid0 :: u64
  dhb_t_r0 :: u64
  dhb_t_rl :: u64

record dh_stream =
  g_dh_stream :: bool
  g_dh_stream_out :: int
  g_dh_stream_base :: u64
  g_dh_stream_addr :: u64
  g_dh_stream_span :: u64
  g_dh_stream_arlen :: nat
  g_dh_stream_nid :: nat
  g_dh_stream_id :: nat
  g_dh_stream_burst :: nat

record dh_counts =
  g_dh_ar_hs :: u64
  g_dh_ar_pres :: u64
  g_dh_ar_refused :: u64
  g_dh_rlast_hs :: u64
  g_dh_r_beats :: u64

record 'r dh_master =
  dh_store :: "dh_burst list"
  dh_rr :: nat
  dh_pending_issue :: "nat list"
  dh_issuing :: "nat option"
  dh_awaiting :: "u32 \<rightharpoonup> nat list"
  dh_done :: "u32 \<rightharpoonup> nat"
  g_dh_unmatched_resp :: bool
  dh_stats :: dh_counts
  dh_str :: dh_stream
  g_dh_win_lg2 :: nat
  g_dh_is_rom :: bool
  g_dh_overlay :: bool
  dh_rng :: 'r

record dh_in =
  dh_ram_window_lg2 :: u8
  dh_ar_is_rom :: bool
  dh_overlay_active :: bool
  dh_arvalid :: bool
  dh_arid :: u8
  dh_araddr :: u32
  dh_arlen :: u8
  dh_arsize :: u8
  dh_arburst :: u8
  dh_rready :: bool

record dh_out =
  dh_arready :: bool
  dh_rvalid :: bool
  dh_rid :: u8
  dh_rresp :: u8
  dh_rlast :: bool
  dh_rdata :: "u32 list"

definition dh_upd :: "nat \<Rightarrow> (dh_burst \<Rightarrow> dh_burst) \<Rightarrow> 'r dh_master \<Rightarrow> 'r dh_master" where
  "dh_upd i f d = d\<lparr> dh_store := (dh_store d)[i := f (dh_store d ! i)] \<rparr>"

definition dh_beat_addr :: "dh_burst \<Rightarrow> nat \<Rightarrow> u64" where
  "dh_beat_addr b beat =
     (let sz = push_bit (dhb_arsize b) 1; lin = dhb_addr b + of_nat beat * sz in
      if dhb_arburst b = 2 then
        let block = of_nat (dhb_beats b) * sz; base = dhb_addr b - dhb_addr b mod block in
        base + (dhb_addr b - base + of_nat beat * sz) mod block
      else lin)"

definition dh_ready_gate :: "('r \<Rightarrow> u32 \<times> 'r) \<Rightarrow> bool \<Rightarrow> 'r dh_master \<Rightarrow> bool \<times> 'r dh_master" where
  "dh_ready_gate G always d =
     (if always then (True, d) else let (x, r) = G (dh_rng d) in (unat x mod 100 < 85, d\<lparr> dh_rng := r \<rparr>))"

definition dh_drive_ar :: "'r dh_master \<Rightarrow> dh_in \<Rightarrow> dh_in" where
  "dh_drive_ar d p =
     (case dh_issuing d of
        Some i \<Rightarrow>
          let b = dh_store d ! i in
          p\<lparr> dh_arvalid := True, dh_arid := ucast (dhb_id b), dh_araddr := ucast (dhb_addr b), dh_arlen := of_nat (dhb_beats b) - 1,
             dh_arsize := of_nat (dhb_arsize b), dh_arburst := of_nat (dhb_arburst b) \<rparr>
      | None \<Rightarrow>
          let s = dh_str d in
          if g_dh_stream s then
            p\<lparr> dh_arvalid := True, dh_arid := of_nat (g_dh_stream_id s), dh_araddr := ucast (g_dh_stream_addr s),
               dh_arlen := of_nat (g_dh_stream_arlen s), dh_arsize := 4, dh_arburst := of_nat (g_dh_stream_burst s) \<rparr>
          else p\<lparr> dh_arvalid := False \<rparr>)"

definition dh_drive_comb :: "('r \<Rightarrow> u32 \<times> 'r) \<Rightarrow> bool \<Rightarrow> 'r dh_master \<times> dh_in \<Rightarrow> 'r dh_master \<times> dh_in" where
  "dh_drive_comb G always s =
     (let (d, p) = s;
          p = dh_drive_ar d (p\<lparr> dh_ram_window_lg2 := of_nat (g_dh_win_lg2 d), dh_ar_is_rom := g_dh_is_rom d,
                dh_overlay_active := g_dh_overlay d \<rparr>);
          (r, d) = dh_ready_gate G always d in
      (d, p\<lparr> dh_rready := r \<rparr>))"

definition dh_pump_issue :: "'r dh_master \<Rightarrow> 'r dh_master" where
  "dh_pump_issue d =
     (let (cur, pend) = take_next (dh_issuing d) (dh_pending_issue d) in d\<lparr> dh_issuing := cur, dh_pending_issue := pend \<rparr>)"

definition dh_stream_step :: "dh_stream \<Rightarrow> dh_stream" where
  "dh_stream_step s =
     (let a = g_dh_stream_addr s + of_nat (g_dh_stream_arlen s + 1) * 16 in
      s\<lparr> g_dh_stream_out := g_dh_stream_out s + 1,
         g_dh_stream_addr := (if g_dh_stream_base s + g_dh_stream_span s \<le> a then g_dh_stream_base s else a),
         g_dh_stream_id := (if 1 < g_dh_stream_nid s then (g_dh_stream_id s + 1) mod g_dh_stream_nid s else g_dh_stream_id s) \<rparr>)"

definition dh_latch_ar :: "u64 \<Rightarrow> dh_in \<Rightarrow> dh_out \<Rightarrow> 'r dh_master \<Rightarrow> 'r dh_master" where
  "dh_latch_ar t p q d =
     (let c = dh_stats d;
          d = (if dh_arvalid p then
                 d\<lparr> dh_stats := c\<lparr> g_dh_ar_pres := g_dh_ar_pres c + 1,
                      g_dh_ar_refused := (if dh_arready q then g_dh_ar_refused c else g_dh_ar_refused c + 1) \<rparr> \<rparr> else d) in
      if dh_arvalid p \<and> dh_arready q then
        let d = d\<lparr> dh_stats := (dh_stats d)\<lparr> g_dh_ar_hs := g_dh_ar_hs (dh_stats d) + 1 \<rparr> \<rparr> in
        case dh_issuing d of
          Some i \<Rightarrow>
            let d = dh_upd i (\<lambda>b. b\<lparr> dhb_t_ar := t \<rparr>) d; k = dhb_id (dh_store d ! i);
                old = (case dh_awaiting d k of None \<Rightarrow> [] | Some is \<Rightarrow> is) in
            d\<lparr> dh_awaiting := (dh_awaiting d)(k \<mapsto> old @ [i]), dh_issuing := None \<rparr>
        | None \<Rightarrow> if g_dh_stream (dh_str d) then d\<lparr> dh_str := dh_stream_step (dh_str d) \<rparr> else d
      else d)"

definition dh_note_rvalid :: "u64 \<Rightarrow> dh_out \<Rightarrow> 'r dh_master \<Rightarrow> 'r dh_master" where
  "dh_note_rvalid t q d =
     (if dh_rvalid q then
        case dh_awaiting d (ucast (dh_rid q)) of
          Some (i # _) \<Rightarrow> if dhb_t_rvalid0 (dh_store d ! i) = 0 then dh_upd i (\<lambda>b. b\<lparr> dhb_t_rvalid0 := t \<rparr>) d else d
        | _ \<Rightarrow> d
      else d)"

definition dh_take_beat :: "u64 \<Rightarrow> dh_out \<Rightarrow> dh_burst \<Rightarrow> dh_burst" where
  "dh_take_beat t q b =
     (let b = b\<lparr> dhb_t_r0 := (if dhb_got b = [] then t else dhb_t_r0 b), dhb_got := dhb_got b @ [get_wide_bytes (dh_rdata q) 16],
                 dhb_last_resp := dh_rresp q, dhb_any_decerr := dhb_any_decerr b \<or> dh_rresp q = 3 \<rparr> in
      if dh_rlast q then b\<lparr> dhb_t_rl := t, dhb_done := True \<rparr> else b)"

definition dh_latch_r :: "u64 \<Rightarrow> bool \<Rightarrow> dh_in \<Rightarrow> dh_out \<Rightarrow> 'r dh_master \<Rightarrow> 'r dh_master" where
  "dh_latch_r t suppress p q d0 =
     (if dh_rvalid q \<and> dh_rready p then
        let d = d0\<lparr> dh_stats := (dh_stats d0)\<lparr> g_dh_r_beats := g_dh_r_beats (dh_stats d0) + 1 \<rparr> \<rparr>;
            k = ucast (dh_rid q);
            have' = (case dh_awaiting d k of Some (i # _) \<Rightarrow> True | _ \<Rightarrow> False);
            d = (case dh_awaiting d k of
                   Some (i # is) \<Rightarrow>
                     let d = dh_upd i (dh_take_beat t q) d in
                     if dh_rlast q then
                       d\<lparr> dh_done := (dh_done d)(k \<mapsto> i), dh_awaiting := (dh_awaiting d)(k := (if is = [] then None else Some is)) \<rparr>
                     else d
                 | _ \<Rightarrow> if g_dh_stream_out (dh_str d) \<le> 0 \<and> \<not> suppress then d\<lparr> g_dh_unmatched_resp := True \<rparr> else d) in
        if dh_rlast q then
          d\<lparr> dh_stats := (dh_stats d)\<lparr> g_dh_rlast_hs := g_dh_rlast_hs (dh_stats d) + 1 \<rparr>,
             dh_str := (if \<not> have' \<and> 0 < g_dh_stream_out (dh_str d)
                        then (dh_str d)\<lparr> g_dh_stream_out := g_dh_stream_out (dh_str d) - 1 \<rparr> else dh_str d) \<rparr>
        else d
      else d0)"

definition dh_latch_edge :: "u64 \<Rightarrow> bool \<Rightarrow> dh_in \<Rightarrow> dh_out \<Rightarrow> 'r dh_master \<Rightarrow> 'r dh_master" where
  "dh_latch_edge t suppress p q d = dh_latch_r t suppress p q (dh_note_rvalid t q (dh_latch_ar t p q d))"

text \<open>A negative identifier asks for the next of four in turn.\<close>

definition dh_issue :: "u64 \<Rightarrow> nat \<Rightarrow> nat \<Rightarrow> int \<Rightarrow> nat \<Rightarrow> 'r dh_master \<Rightarrow> nat \<times> 'r dh_master" where
  "dh_issue a beats arburst i arsize d =
     (let (k, rr) = (if 0 \<le> i then (of_int i, dh_rr d) else (of_nat (dh_rr d mod 4), dh_rr d + 1));
          b = \<lparr> dhb_id = k, dhb_addr = a, dhb_beats = beats, dhb_arburst = arburst, dhb_arsize = arsize, dhb_got = [],
                dhb_last_resp = 0, dhb_any_decerr = False, dhb_done = False, dhb_t_ar = 0, dhb_t_rvalid0 = 0, dhb_t_r0 = 0,
                dhb_t_rl = 0 \<rparr>;
          ref = length (dh_store d) in
      (ref, d\<lparr> dh_store := dh_store d @ [b], dh_rr := rr, dh_pending_issue := dh_pending_issue d @ [ref] \<rparr>))"

definition dh_free :: "nat \<Rightarrow> 'r dh_master \<Rightarrow> 'r dh_master" where
  "dh_free ref d = d\<lparr> dh_done := (dh_done d)(dhb_id (dh_store d ! ref) := None) \<rparr>"

section \<open>The write master\<close>

record dw_burst =
  dwb_id :: u32
  dwb_addr :: u64
  dwb_beats :: nat
  dwb_data :: "u8 list list"
  dwb_strb :: "u16 list"
  dwb_wbeat :: nat
  dwb_w_lag :: nat
  dwb_w_ok_at :: u64
  dwb_aw_done :: bool
  dwb_done :: bool
  dwb_bresp :: u8
  dwb_t_issue :: u64
  dwb_t_aw :: u64
  dwb_t_wl :: u64
  dwb_t_b :: u64

record 'r dw_master =
  dw_store :: "dw_burst list"
  dw_rr :: nat
  dw_pending :: "nat list"
  dw_aw_cur :: "nat option"
  dw_w_q :: "nat list"
  dw_awaiting_b :: "u32 \<rightharpoonup> nat list"
  g_dw_unmatched :: bool
  g_dw_aw_hs :: u64
  g_dw_w_hs :: u64
  g_dw_b_hs :: u64
  g_dw_bready_pct :: nat
  g_dw_w_early :: bool
  g_dw_is_rom :: bool
  dw_rng :: 'r

record dw_in =
  dw_aw_is_rom :: bool
  dw_awvalid :: bool
  dw_awid :: u8
  dw_awaddr :: u32
  dw_awlen :: u8
  dw_awsize :: u8
  dw_awburst :: u8
  dw_wvalid :: bool
  dw_wdata :: "u32 list"
  dw_wstrb :: u16
  dw_wlast :: bool
  dw_bready :: bool

record dw_out =
  dw_awready :: bool
  dw_wready :: bool
  dw_bvalid :: bool
  dw_bid :: u8
  dw_bresp :: u8

definition dw_upd :: "nat \<Rightarrow> (dw_burst \<Rightarrow> dw_burst) \<Rightarrow> 'r dw_master \<Rightarrow> 'r dw_master" where
  "dw_upd i f d = d\<lparr> dw_store := (dw_store d)[i := f (dw_store d ! i)] \<rparr>"

definition dw_drive_aw :: "'r dw_master \<Rightarrow> dw_in \<Rightarrow> dw_in" where
  "dw_drive_aw d p =
     (case dw_aw_cur d of
        Some i \<Rightarrow>
          let b = dw_store d ! i in
          p\<lparr> dw_awvalid := True, dw_awid := ucast (dwb_id b), dw_awaddr := ucast (dwb_addr b), dw_awlen := of_nat (dwb_beats b) - 1,
             dw_awsize := 4, dw_awburst := 1 \<rparr>
      | None \<Rightarrow> p\<lparr> dw_awvalid := False \<rparr>)"

definition dw_drive_w :: "u64 \<Rightarrow> 'r dw_master \<Rightarrow> dw_in \<Rightarrow> dw_in" where
  "dw_drive_w t d p =
     (case dw_w_q d of
        i # _ \<Rightarrow>
          let b = dw_store d ! i in
          if dwb_aw_done b \<and> dwb_w_ok_at b \<le> t \<or> g_dw_w_early d \<and> \<not> dwb_aw_done b then
            p\<lparr> dw_wvalid := True, dw_wdata := set_wide_bytes (dwb_data b ! dwb_wbeat b) 16, dw_wstrb := dwb_strb b ! dwb_wbeat b,
               dw_wlast := (Suc (dwb_wbeat b) = dwb_beats b) \<rparr>
          else p\<lparr> dw_wvalid := False \<rparr>
      | [] \<Rightarrow> p\<lparr> dw_wvalid := False \<rparr>)"

definition dw_drive_comb :: "('r \<Rightarrow> u32 \<times> 'r) \<Rightarrow> u64 \<Rightarrow> 'r dw_master \<times> dw_in \<Rightarrow> 'r dw_master \<times> dw_in" where
  "dw_drive_comb G t s =
     (let (d, p) = s;
          p = dw_drive_w t d (dw_drive_aw d (p\<lparr> dw_aw_is_rom := g_dw_is_rom d \<rparr>));
          (x, r) = G (dw_rng d) in
      (d\<lparr> dw_rng := r \<rparr>, p\<lparr> dw_bready := (unat x mod 100 < g_dw_bready_pct d) \<rparr>))"

definition dw_pump_issue :: "'r dw_master \<Rightarrow> 'r dw_master" where
  "dw_pump_issue d =
     (case (dw_aw_cur d, dw_pending d) of
        (None, i # r) \<Rightarrow> d\<lparr> dw_aw_cur := Some i, dw_pending := r, dw_w_q := dw_w_q d @ [i] \<rparr>
      | _ \<Rightarrow> d)"

definition dw_latch_aw :: "u64 \<Rightarrow> dw_in \<Rightarrow> dw_out \<Rightarrow> 'r dw_master \<Rightarrow> 'r dw_master" where
  "dw_latch_aw t p q d =
     (case dw_aw_cur d of
        Some i \<Rightarrow>
          if dw_awvalid p \<and> dw_awready q then
            let d = dw_upd i (\<lambda>b. b\<lparr> dwb_aw_done := True, dwb_t_aw := t, dwb_w_ok_at := t + 1 + of_nat (dwb_w_lag b) \<rparr>) d;
                k = dwb_id (dw_store d ! i); old = (case dw_awaiting_b d k of None \<Rightarrow> [] | Some is \<Rightarrow> is) in
            d\<lparr> g_dw_aw_hs := g_dw_aw_hs d + 1, dw_awaiting_b := (dw_awaiting_b d)(k \<mapsto> old @ [i]), dw_aw_cur := None \<rparr>
          else d
      | None \<Rightarrow> d)"

definition dw_latch_w :: "u64 \<Rightarrow> dw_in \<Rightarrow> dw_out \<Rightarrow> 'r dw_master \<Rightarrow> 'r dw_master" where
  "dw_latch_w t p q d =
     (case dw_w_q d of
        i # is \<Rightarrow>
          if dw_wvalid p \<and> dw_wready q then
            let d = dw_upd i (\<lambda>b. b\<lparr> dwb_wbeat := dwb_wbeat b + 1 \<rparr>) (d\<lparr> g_dw_w_hs := g_dw_w_hs d + 1 \<rparr>) in
            if dwb_wbeat (dw_store d ! i) = dwb_beats (dw_store d ! i) then
              (dw_upd i (\<lambda>b. b\<lparr> dwb_t_wl := t \<rparr>) d)\<lparr> dw_w_q := is \<rparr>
            else d
          else d
      | [] \<Rightarrow> d)"

text \<open>The burst that a response completes is also the argument of the scenario's callback.\<close>

definition dw_latch_b :: "u64 \<Rightarrow> bool \<Rightarrow> dw_in \<Rightarrow> dw_out \<Rightarrow> 'r dw_master \<Rightarrow> 'r dw_master \<times> nat option" where
  "dw_latch_b t suppress p q d =
     (if dw_bvalid q \<and> dw_bready p then
        let d = d\<lparr> g_dw_b_hs := g_dw_b_hs d + 1 \<rparr>; k = ucast (dw_bid q) in
        case dw_awaiting_b d k of
          Some (i # is) \<Rightarrow>
            let d = dw_upd i (\<lambda>b. b\<lparr> dwb_bresp := dw_bresp q, dwb_t_b := t, dwb_done := True \<rparr>)
                      (d\<lparr> dw_awaiting_b := (dw_awaiting_b d)(k := (if is = [] then None else Some is)) \<rparr>);
                b = dw_store d ! i in
            (if dwb_wbeat b \<noteq> dwb_beats b \<and> \<not> suppress then d\<lparr> g_dw_unmatched := True \<rparr> else d, Some i)
        | _ \<Rightarrow> (if suppress then d else d\<lparr> g_dw_unmatched := True \<rparr>, None)
      else (d, None))"

definition dw_latch_edge :: "u64 \<Rightarrow> bool \<Rightarrow> dw_in \<Rightarrow> dw_out \<Rightarrow> 'r dw_master \<Rightarrow> 'r dw_master \<times> nat option" where
  "dw_latch_edge t suppress p q d = dw_latch_b t suppress p q (dw_latch_w t p q (dw_latch_aw t p q d))"

definition dw_issue :: "u64 \<Rightarrow> u64 \<Rightarrow> u8 list list \<Rightarrow> u16 list \<Rightarrow> int \<Rightarrow> nat \<Rightarrow> 'r dw_master \<Rightarrow> nat \<times> 'r dw_master" where
  "dw_issue t a data strb i w_lag d =
     (let (k, rr) = (if 0 \<le> i then (of_int i, dw_rr d) else (of_nat (dw_rr d mod 4), dw_rr d + 1));
          b = \<lparr> dwb_id = k, dwb_addr = a, dwb_beats = length data, dwb_data = data, dwb_strb = strb, dwb_wbeat = 0, dwb_w_lag = w_lag,
                dwb_w_ok_at = 0, dwb_aw_done = False, dwb_done = False, dwb_bresp = 0, dwb_t_issue = t, dwb_t_aw = 0, dwb_t_wl = 0,
                dwb_t_b = 0 \<rparr>;
          ref = length (dw_store d) in
      (ref, d\<lparr> dw_store := dw_store d @ [b], dw_rr := rr, dw_pending := dw_pending d @ [ref] \<rparr>))"

definition dw_mkdata :: "u8 \<Rightarrow> u8 list" where
  "dw_mkdata seed = map (\<lambda>i. of_nat ((unat seed * 7 + i * 13 + 1) mod 256)) [0..<16]"

definition dw_issue_full :: "u64 \<Rightarrow> u64 \<Rightarrow> u8 \<Rightarrow> int \<Rightarrow> nat \<Rightarrow> 'r dw_master \<Rightarrow> nat \<times> 'r dw_master" where
  "dw_issue_full t a seed = dw_issue t a [dw_mkdata seed] [0xFFFF]"

definition dw_idle :: "'r dw_master \<Rightarrow> bool" where
  "dw_idle d \<longleftrightarrow> dw_pending d = [] \<and> dw_aw_cur d = None \<and> dw_w_q d = [] \<and> dw_awaiting_b d = Map.empty"

text \<open>A completed write in the golden memory, under its strobes; the first byte of each beat is marked.\<close>

fun golden_beat :: "u64 \<Rightarrow> u16 \<Rightarrow> u8 list \<Rightarrow> nat \<Rightarrow> (u64 \<Rightarrow> u8) \<Rightarrow> (u64 \<Rightarrow> u8)" where
  "golden_beat a strb beat 0 mem = mem"
| "golden_beat a strb beat (Suc n) mem =
     (let mem = golden_beat a strb beat n mem in if bit strb n then mem(a + of_nat n := beat ! n) else mem)"

fun golden_beats :: "dw_burst \<Rightarrow> nat \<Rightarrow> (u64 \<Rightarrow> u8) \<times> (u64 \<Rightarrow> bool) \<Rightarrow> (u64 \<Rightarrow> u8) \<times> (u64 \<Rightarrow> bool)" where
  "golden_beats b 0 s = s"
| "golden_beats b (Suc k) s =
     (let (mem, touched) = golden_beats b k s; a = dwb_addr b + of_nat k * 16 in
      (golden_beat a (dwb_strb b ! k) (dwb_data b ! k) 16 mem, touched(a := True)))"

definition dw_golden_apply :: "dw_burst \<Rightarrow> (u64 \<Rightarrow> u8) \<times> (u64 \<Rightarrow> bool) \<Rightarrow> (u64 \<Rightarrow> u8) \<times> (u64 \<Rightarrow> bool)" where
  "dw_golden_apply b s = golden_beats b (dwb_beats b) s"

end
