(* ===== verification/L2c_Hot_Door_Props.thy ===== *)
theory L2c_Hot_Door_Props
  imports L2c_Hot_Door
begin

unbundle bit_operations_syntax

text \<open>
  The hot-door masters of the level-2 cache test bench: the address walk of a wrapping burst, written in
  the bench from the definition of the bus, is the mask form a circuit computes and visits every beat
  of its block once; the golden memory after a write is the write's bytes under their strobes.
\<close>

section \<open>The wrapping walk\<close>

lemma push_one: "push_bit n (1 :: u64) = 2 ^ n"
  by (simp add: push_bit_eq_mult)

lemma and_not_mask: "(a :: u64) - take_bit j a = a AND NOT (mask j)"
proof -
  have "take_bit j a = a AND mask j" by (simp add: take_bit_eq_mask)
  moreover have "a = (a AND mask j) OR (a AND NOT (mask j))" by (simp add: bit_eq_iff bit_simps) blast
  moreover have "(a AND mask j) AND (a AND NOT (mask j)) = 0" by (simp add: bit_eq_iff bit_simps)
  ultimately show ?thesis by (metis add_diff_cancel_left' disjunctive_add_eq_or)
qed

lemma block_plus_offset: "((a :: u64) AND NOT (mask j)) + take_bit j x = (a AND NOT (mask j)) OR (x AND mask j)"
proof -
  have "(a AND NOT (mask j)) AND take_bit j x = 0" by (simp add: bit_eq_iff bit_simps)
  then show ?thesis by (simp add: disjunctive_add_eq_or take_bit_eq_mask)
qed

lemma take_bit_add_left: "take_bit j (take_bit j a + s) = take_bit j ((a :: u64) + s)"
proof -
  let ?m = "min j 64"
  have md: "y mod 18446744073709551616 = take_bit 64 y" for y :: nat by (simp add: take_bit_eq_mod)
  have u: "unat (take_bit j (x + s)) = take_bit ?m (take_bit ?m (unat x) + take_bit ?m (unat s))" for x
    by (simp add: unsigned_take_bit_eq unat_word_ariths(1) md take_bit_take_bit take_bit_add)
  have "take_bit ?m (unat (take_bit j a)) = take_bit ?m (unat a)" by (simp add: unsigned_take_bit_eq take_bit_take_bit min.commute min.left_commute)
  then have "unat (take_bit j (take_bit j a + s)) = unat (take_bit j (a + s))" unfolding u by simp
  then show ?thesis by (simp only: word_unat_eq_iff)
qed

lemma take_bit_of_nat_word: "j \<le> 64 \<Longrightarrow> take_bit j (of_nat x :: u64) = of_nat (take_bit j x)"
proof -
  assume j: "j \<le> 64"
  have "unat (take_bit j (of_nat x :: u64)) = unat (of_nat (take_bit j x) :: u64)"
    using j by (simp add: unsigned_take_bit_eq unsigned_of_nat take_bit_take_bit min.absorb1 min.absorb2)
  then show ?thesis by (simp only: word_unat_eq_iff)
qed

lemma wrap_addr:
  assumes "dhb_arburst b = 2" "dhb_beats b = 2 ^ n"
  shows "dh_beat_addr b k =
    (dhb_addr b - take_bit (n + dhb_arsize b) (dhb_addr b)) +
    take_bit (n + dhb_arsize b) (dhb_addr b + of_nat k * push_bit (dhb_arsize b) 1)"
proof -
  let ?j = "n + dhb_arsize b" and ?a = "dhb_addr b" and ?s = "of_nat k * push_bit (dhb_arsize b) (1 :: u64)"
  have block: "of_nat (dhb_beats b) * push_bit (dhb_arsize b) 1 = (2 ^ ?j :: u64)"
    using assms(2) by (simp add: push_one power_add)
  have md: "x mod 2 ^ ?j = take_bit ?j x" for x :: u64 by (simp add: take_bit_eq_mod)
  have off: "?a - (?a - take_bit ?j ?a) = take_bit ?j ?a" by simp
  show ?thesis using assms(1) unfolding dh_beat_addr_def Let_def block md off by (simp only: take_bit_add_left refl if_True)
qed

lemma wrap_mask:
  assumes "dhb_arburst b = 2" "dhb_beats b = 2 ^ n"
  shows "dh_beat_addr b k =
    (let m = mask (n + dhb_arsize b) in (dhb_addr b AND NOT m) OR ((dhb_addr b + of_nat k * push_bit (dhb_arsize b) 1) AND m))"
  unfolding wrap_addr [OF assms] and_not_mask block_plus_offset by (simp add: Let_def)

lemma rotate_upt: "map (\<lambda>k. f ((u + k) mod n)) [0..<n] = rotate u (map f [0..<n])"
proof (rule nth_equalityI)
  fix k assume "k < length (map (\<lambda>k. f ((u + k) mod n)) [0..<n])"
  then show "map (\<lambda>k. f ((u + k) mod n)) [0..<n] ! k = rotate u (map f [0..<n]) ! k" by (simp add: nth_rotate add.commute)
qed simp

lemma wrap_offset:
  assumes "n + s < 64" "unat a mod 2 ^ s = 0"
  shows "take_bit (n + s) ((a :: u64) + of_nat k * push_bit s 1) = of_nat ((unat a div 2 ^ s mod 2 ^ n + k) mod 2 ^ n) * push_bit s 1"
proof -
  let ?q = "unat a div 2 ^ s"
  have a: "unat a = ?q * 2 ^ s" using assms(2) by (simp add: minus_mod_eq_div_mult [symmetric])
  have "a + of_nat k * push_bit s 1 = of_nat ((?q + k) * 2 ^ s)"
  proof -
    have "(of_nat ((?q + k) * 2 ^ s) :: u64) = of_nat (?q * 2 ^ s) + of_nat k * 2 ^ s" by (simp add: distrib_right)
    also have "of_nat (?q * 2 ^ s) = a" unfolding a [symmetric] by (simp add: word_unat_eq_iff)
    finally show ?thesis by (simp only: push_one)
  qed
  then have "take_bit (n + s) (a + of_nat k * push_bit s 1) = of_nat (take_bit (n + s) ((?q + k) * 2 ^ s))"
    using assms(1) by (simp only: take_bit_of_nat_word less_imp_le)
  also have "take_bit (n + s) ((?q + k) * 2 ^ s) = ((?q + k) mod 2 ^ n) * 2 ^ s"
    by (simp add: take_bit_eq_mod power_add mult_mod_left)
  finally show ?thesis by (simp add: push_one mod_add_left_eq)
qed

text \<open>
  C17 The walk of a wrapping burst, which the bench writes from the definition of the bus (block of beats
  times size, naturally aligned) so as not to repeat the circuit's arithmetic.  For a power-of-two number
  of beats it is the mask form: the address bits above the block are kept and those inside it count
  up modulo the block; and from an aligned address it visits the beats of the block once each, in the
  order of the block rotated to start at the address.
\<close>

theorem wrap_burst_walk:
  assumes "dhb_arburst b = 2" "dhb_beats b = 2 ^ n" "n + dhb_arsize b < 64"
  shows "(\<forall>k. dh_beat_addr b k =
      (let m = mask (n + dhb_arsize b) in (dhb_addr b AND NOT m) OR ((dhb_addr b + of_nat k * push_bit (dhb_arsize b) 1) AND m))) \<and>
    (unat (dhb_addr b) mod 2 ^ dhb_arsize b = 0 \<longrightarrow>
       (let base = dhb_addr b AND NOT (mask (n + dhb_arsize b)); u = unat (dhb_addr b) div 2 ^ dhb_arsize b mod 2 ^ n in
        map (dh_beat_addr b) [0..<2 ^ n] = rotate u (map (\<lambda>k. base + of_nat k * push_bit (dhb_arsize b) 1) [0..<2 ^ n])))"
proof -
  have "map (dh_beat_addr b) [0..<2 ^ n] =
      rotate (unat (dhb_addr b) div 2 ^ dhb_arsize b mod 2 ^ n)
        (map (\<lambda>k. (dhb_addr b AND NOT (mask (n + dhb_arsize b))) + of_nat k * push_bit (dhb_arsize b) 1) [0..<2 ^ n])"
    if a: "unat (dhb_addr b) mod 2 ^ dhb_arsize b = 0"
    unfolding rotate_upt [symmetric] by (intro map_cong refl) (simp only: wrap_addr [OF assms(1,2)] wrap_offset [OF assms(3) a] and_not_mask)
  then show ?thesis using wrap_mask [OF assms(1,2)] by (simp add: Let_def)
qed

definition wrap_example :: dh_burst where
  "wrap_example = \<lparr> dhb_id = 0, dhb_addr = 0x1020, dhb_beats = 4, dhb_arburst = 2, dhb_arsize = 4, dhb_got = [], dhb_last_resp = 0,
     dhb_any_decerr = False, dhb_done = False, dhb_t_ar = 0, dhb_t_rvalid0 = 0, dhb_t_r0 = 0, dhb_t_rl = 0 \<rparr>"

theorem wrap_burst_walk_witness: "map (dh_beat_addr wrap_example) [0..<4] = [0x1020, 0x1030, 0x1000, 0x1010]"
proof -
  have e: "dhb_arburst wrap_example = 2" "dhb_beats wrap_example = 2 ^ 2" "2 + dhb_arsize wrap_example < 64"
    "dhb_addr wrap_example = 0x1020" "dhb_arsize wrap_example = 4" by (simp_all add: wrap_example_def)
  have "unat (dhb_addr wrap_example) mod 2 ^ dhb_arsize wrap_example = 0" "unat (dhb_addr wrap_example) div 2 ^ dhb_arsize wrap_example mod 2 ^ 2 = 2"
    by (simp_all add: e)
  then have "map (dh_beat_addr wrap_example) [0..<4] =
      rotate 2 (map (\<lambda>k. (0x1020 AND NOT (mask 6)) + of_nat k * push_bit 4 1) [0..<4])"
    using wrap_burst_walk [OF e(1-3)] by (simp add: e Let_def)
  moreover have "rotate 2 (map (\<lambda>k. (0x1020 AND NOT (mask 6)) + of_nat k * push_bit 4 1) [0..<4]) = ([0x1020, 0x1030, 0x1000, 0x1010] :: u64 list)"
    by code_simp
  ultimately show ?thesis by simp
qed

section \<open>The golden memory\<close>

lemma golden_beat_at:
  "n \<le> 16 \<Longrightarrow> golden_beat a strb beat n mem x = (if unat (x - a) < n \<and> bit strb (unat (x - a)) then beat ! unat (x - a) else mem x)"
proof (induction n)
  case 0 then show ?case by simp
next
  case (Suc n)
  have n: "unat (of_nat n :: u64) = n" using Suc.prems by (simp add: unat_of_nat)
  have "x = a + of_nat n \<longleftrightarrow> x - a = of_nat n" by (auto simp: algebra_simps)
  also have "\<dots> \<longleftrightarrow> unat (x - a) = n" using n by (metis word_unat_eq_iff)
  finally have e: "x = a + of_nat n \<longleftrightarrow> unat (x - a) = n" .
  show ?case using Suc e by (auto simp: Let_def less_Suc_eq)
qed

lemma beat_offset:
  assumes "16 * k + 16 \<le> 2 ^ 64"
  shows "unat (x - (a + of_nat k * 16 :: u64)) < 16 \<longleftrightarrow> 16 * k \<le> unat (x - a) \<and> unat (x - a) < 16 * k + 16"
    "16 * k \<le> unat (x - a) \<Longrightarrow> unat (x - (a + of_nat k * 16 :: u64)) = unat (x - a) - 16 * k"
proof -
  have k: "unat (of_nat k * 16 :: u64) = 16 * k"
  proof -
    have "(of_nat k * 16 :: u64) = of_nat (16 * k)" by simp
    then show ?thesis using assms by (simp only: unat_of_nat) simp
  qed
  have x: "x - (a + of_nat k * 16) = (x - a) - of_nat k * 16" by simp
  have s: "unat ((x - a) - of_nat k * 16) = (if 16 * k \<le> unat (x - a) then unat (x - a) - 16 * k else unat (x - a) + 2 ^ 64 - 16 * k)"
    using k by (simp add: unat_sub_if' del: of_nat_mult)
  show "unat (x - (a + of_nat k * 16 :: u64)) < 16 \<longleftrightarrow> 16 * k \<le> unat (x - a) \<and> unat (x - a) < 16 * k + 16"
    unfolding x s using assms by auto
  show "16 * k \<le> unat (x - a) \<Longrightarrow> unat (x - (a + of_nat k * 16 :: u64)) = unat (x - a) - 16 * k" unfolding x s by simp
qed

lemma golden_beats_at:
  assumes "16 * n \<le> 2 ^ 64"
  shows "fst (golden_beats b n s) x =
    (let d = unat (x - dwb_addr b) in
     if d < 16 * n \<and> bit (dwb_strb b ! (d div 16)) (d mod 16) then dwb_data b ! (d div 16) ! (d mod 16) else fst s x)"
  using assms
proof (induction n)
  case 0 then show ?case by simp
next
  case (Suc n)
  let ?d = "unat (x - dwb_addr b)" and ?e = "unat (x - (dwb_addr b + of_nat n * 16))"
  have o: "16 * n + 16 \<le> 2 ^ 64" using Suc.prems by simp
  have "fst (golden_beats b (Suc n) s) x =
      (if ?e < 16 \<and> bit (dwb_strb b ! n) ?e then dwb_data b ! n ! ?e else fst (golden_beats b n s) x)"
    by (simp add: golden_beat_at Let_def split: prod.split)
  moreover have "?d div 16 = n \<and> ?d mod 16 = ?e" if d: "16 * n \<le> ?d" "?d < 16 * n + 16"
  proof -
    obtain r where r: "?d = 16 * n + r" using le_Suc_ex [OF d(1)] by blast
    then have "r < 16" using d(2) by linarith
    then show ?thesis using r beat_offset(2) [OF o d(1)] by simp
  qed
  moreover have "?e < 16 \<longleftrightarrow> 16 * n \<le> ?d \<and> ?d < 16 * n + 16" by (rule beat_offset(1) [OF o])
  ultimately show ?case using Suc by (auto simp: Let_def)
qed

lemma golden_marks: "snd (golden_beats b n s) x \<longleftrightarrow> snd s x \<or> (\<exists>k < n. x = dwb_addr b + of_nat k * 16)"
  by (induction n) (auto simp: Let_def less_Suc_eq split: prod.split)

lemma store_is_golden: "\<forall>i < n. a + of_nat i < MEM_TOTAL \<Longrightarrow> store_strobed a strb buf n mem = golden_beat a strb buf n mem"
  by (induction n) (simp_all add: Let_def)

lemma beat_in_memory:
  assumes "unat a + 16 * n \<le> unat MEM_TOTAL" "k < n" "i < 16"
  shows "(a + of_nat k * 16) + of_nat i < MEM_TOTAL"
proof -
  have e: "(a + of_nat k * 16) + of_nat i = of_nat (unat a + 16 * k + i)" by simp
  have l: "unat a + 16 * k + i < unat MEM_TOTAL" using assms by simp
  moreover have "unat MEM_TOTAL < 2 ^ LENGTH(64)" by (rule unsigned_less)
  ultimately have "unat (of_nat (unat a + 16 * k + i) :: u64) = unat a + 16 * k + i" by (simp only: unat_of_nat mod_less)
  then show ?thesis unfolding e word_less_nat_alt using l by simp
qed

lemma stores_are_golden:
  assumes "unat (dwb_addr b) + 16 * n \<le> unat MEM_TOTAL" "m \<le> n"
  shows "fold (\<lambda>k. store_strobed (dwb_addr b + of_nat k * 16) (dwb_strb b ! k) (dwb_data b ! k) 16) [0..<m] (fst s) = fst (golden_beats b m s)"
  using assms(2)
proof (induction m)
  case 0 then show ?case by simp
next
  case (Suc m)
  have "\<forall>i < 16. (dwb_addr b + of_nat m * 16) + of_nat i < MEM_TOTAL" using beat_in_memory [OF assms(1)] Suc.prems by simp
  from store_is_golden [OF this] show ?case using Suc by (simp add: Let_def split: prod.split)
qed

text \<open>
  The golden memory is the specification of a write.  After a burst is folded into it, a byte of the
  burst's span whose strobe is set is the burst's byte, every other byte is what it was, and exactly the
  first addresses of the beats are newly marked; and for a burst inside the modelled memory this is
  what the memory slave stores for the same beats.
\<close>

theorem golden_write_exact:
  assumes "unat (dwb_addr b) + 16 * dwb_beats b \<le> unat MEM_TOTAL"
  shows "fst (dw_golden_apply b s) x =
      (let d = unat (x - dwb_addr b) in
       if d < 16 * dwb_beats b \<and> bit (dwb_strb b ! (d div 16)) (d mod 16) then dwb_data b ! (d div 16) ! (d mod 16) else fst s x) \<and>
    (snd (dw_golden_apply b s) x \<longleftrightarrow> snd s x \<or> (\<exists>k < dwb_beats b. x = dwb_addr b + of_nat k * 16)) \<and>
    fst (dw_golden_apply b s) =
      fold (\<lambda>k. store_strobed (dwb_addr b + of_nat k * 16) (dwb_strb b ! k) (dwb_data b ! k) 16) [0..<dwb_beats b] (fst s)"
proof -
  have "unat MEM_TOTAL < 2 ^ 64" using unsigned_less [where w = MEM_TOTAL and ?'a = nat] by simp
  then have "16 * dwb_beats b \<le> 2 ^ 64" using assms by linarith
  then show ?thesis
    unfolding dw_golden_apply_def using golden_beats_at golden_marks stores_are_golden [OF assms] by simp
qed

definition golden_example :: dw_burst where
  "golden_example = \<lparr> dwb_id = 0, dwb_addr = 0x1000, dwb_beats = 2, dwb_data = [dw_mkdata 1, dw_mkdata 2], dwb_strb = [0xFFFF, 0x0002],
     dwb_wbeat = 0, dwb_w_lag = 0, dwb_w_ok_at = 0, dwb_aw_done = False, dwb_done = False, dwb_bresp = 0, dwb_t_issue = 0, dwb_t_aw = 0,
     dwb_t_wl = 0, dwb_t_b = 0 \<rparr>"

theorem golden_write_exact_witness:
  "fst (dw_golden_apply golden_example (\<lambda>x. 0, \<lambda>x. False)) 0x1011 = dw_mkdata 2 ! 1 \<and>
   fst (dw_golden_apply golden_example (\<lambda>x. 0, \<lambda>x. False)) 0x1012 = 0"
proof -
  have in_range: "unat (dwb_addr golden_example) + 16 * dwb_beats golden_example \<le> unat MEM_TOTAL"
    by (simp add: golden_example_def MEM_TOTAL_def CACHEABLE_SIZE_def BYPASS_SIZE_def BYPASS_BASE_def)
  note g = golden_write_exact [OF in_range, THEN conjunct1, of "(\<lambda>x. 0, \<lambda>x. False)"]
  show ?thesis using g [of "0x1011"] g [of "0x1012"] by (simp add: golden_example_def Let_def)
qed

end
