(* ===== verification/L2c_Bench.thy ===== *)
theory L2c_Bench
  imports L2c_Hot_Door
begin

unbundle bit_operations_syntax

text \<open>
  One clock of the level-2 cache test bench (\<open>tick\<close> of \<open>tb/tb_l2c.cpp\<close>) and the loops over it: the four
  models of the bench around the design, the statistics and the checks on the debug taps, reset, and
  the helpers that issue a burst and wait for it.

  The design is the parameter \<open>'d l2c_dut\<close>: what its outputs are in a state, and how an evaluation with
  given clock, reset and inputs changes the state.  \<open>on_b\<close> is the callback a scenario may install for
  write responses of the hot door.
\<close>

section \<open>The design\<close>

record l2c_taps =
  dbg_vb_occ :: u8
  dbg_vb_slots :: u8
  dbg_vb_out :: u8
  dbg_vb_sink :: u8
  dbg_evict_stall :: bool
  dbg_vb_drain_busy :: bool
  dbg_vb_seq_busy :: bool
  dbg_by_occ :: u8
  dbg_by_inflight :: u8
  dbg_by_slots :: u8
  dbg_acc_dh :: bool
  dbg_acc_fetch :: bool
  dbg_acc_lsu :: bool
  dbg_acc_write :: bool
  dbg_cold_avail :: bool
  dbg_cold_starved :: bool
  dbg_victim_query_hit :: bool
  dbg_acc_dw :: bool
  dbg_hot_avail :: bool
  dbg_dw_over_gfull :: bool
  dbg_fd_idle :: bool
  dbg_fd_accept :: bool
  dbg_fd_gather :: bool
  dbg_fd_nowork :: bool
  dbg_fd_idbusy :: bool
  dbg_fd_bypnr :: bool
  dbg_fd_sethaz :: bool
  dbg_s2_stall :: bool
  dbg_s2_reread :: bool
  dbg_fd_ar_stall :: bool
  dbg_fd_aw_stall :: bool
  dbg_fd_w_stall :: bool
  dbg_dh_ar_have :: bool

record l2c_in =
  pin_m :: m_in
  pin_s :: s_in
  pin_dh :: dh_in
  pin_dw :: dw_in
  dw_abandon :: bool

record l2c_out =
  out_m :: m_out
  out_s :: s_out
  out_dh :: dh_out
  out_dw :: dw_out
  out_taps :: l2c_taps

record 'd l2c_dut =
  l2c_outputs :: "'d \<Rightarrow> l2c_out"
  l2c_eval :: "bool \<Rightarrow> bool \<Rightarrow> l2c_in \<Rightarrow> 'd \<Rightarrow> 'd"

section \<open>Statistics\<close>

record ev_stats =
  ev_cycles :: u64
  ev_occ_hist :: "nat \<Rightarrow> u64"
  ev_stall :: u64
  ev_drain_busy :: u64
  ev_seq_busy :: u64
  ev_out_sum :: u64
  ev_out_max :: nat
  g_ev_tap_violation :: bool

definition count_if :: "bool \<Rightarrow> u64 \<Rightarrow> u64" where
  "count_if c n = (if c then n + 1 else n)"

definition sample_ev :: "l2c_taps \<Rightarrow> ev_stats \<Rightarrow> ev_stats" where
  "sample_ev x e =
     (let occ = unat (dbg_vb_occ x AND 0x1F); slots = unat (dbg_vb_slots x AND 0x1F); out = unat (dbg_vb_out x AND 0x1F);
          sink = unat (dbg_vb_sink x AND 0x1F) in
      e\<lparr> ev_cycles := ev_cycles e + 1, ev_occ_hist := (ev_occ_hist e)(min occ 31 := ev_occ_hist e (min occ 31) + 1),
         ev_out_sum := ev_out_sum e + of_nat out, ev_out_max := max (ev_out_max e) out, ev_stall := count_if (dbg_evict_stall x) (ev_stall e),
         g_ev_tap_violation := g_ev_tap_violation e \<or> dbg_evict_stall x \<and> occ \<noteq> slots \<or> occ + sink < out \<or> slots < out \<or> out < sink,
         ev_drain_busy := count_if (dbg_vb_drain_busy x) (ev_drain_busy e), ev_seq_busy := count_if (dbg_vb_seq_busy x) (ev_seq_busy e) \<rparr>)"

record dhfd_stats =
  dhfd_cycles :: u64
  acc_dh :: u64
  acc_fetch :: u64
  acc_lsu :: u64
  acc_write :: u64
  cold_avail :: u64
  cold_starved :: u64
  dhfd_ar_pres :: u64
  dhfd_ar_refused :: u64
  victim_query_hit :: u64
  g_last_cold_write_accept :: u64

definition dh_sample_taps :: "u64 \<Rightarrow> l2c_taps \<Rightarrow> dh_in \<Rightarrow> dh_out \<Rightarrow> dhfd_stats \<Rightarrow> dhfd_stats" where
  "dh_sample_taps t x p q s =
     s\<lparr> dhfd_cycles := dhfd_cycles s + 1, acc_dh := count_if (dbg_acc_dh x) (acc_dh s), acc_fetch := count_if (dbg_acc_fetch x) (acc_fetch s),
        acc_lsu := count_if (dbg_acc_lsu x) (acc_lsu s), acc_write := count_if (dbg_acc_write x) (acc_write s),
        g_last_cold_write_accept := (if dbg_acc_write x then t else g_last_cold_write_accept s),
        cold_avail := count_if (dbg_cold_avail x) (cold_avail s), cold_starved := count_if (dbg_cold_starved x) (cold_starved s),
        dhfd_ar_pres := count_if (dh_arvalid p) (dhfd_ar_pres s),
        dhfd_ar_refused := count_if (dh_arvalid p \<and> \<not> dh_arready q) (dhfd_ar_refused s),
        victim_query_hit := count_if (dbg_victim_query_hit x) (victim_query_hit s) \<rparr>"

record dwfd_stats =
  acc_dw :: u64
  hot_avail :: u64
  over_gfull :: u64

definition dw_sample_taps :: "l2c_taps \<Rightarrow> dwfd_stats \<Rightarrow> dwfd_stats" where
  "dw_sample_taps x s =
     s\<lparr> acc_dw := count_if (dbg_acc_dw x) (acc_dw s), hot_avail := count_if (dbg_hot_avail x) (hot_avail s),
        over_gfull := count_if (dbg_dw_over_gfull x) (over_gfull s) \<rparr>"

record fd_stats =
  fd_cycles :: u64
  fd_idle :: u64
  fd_accept :: u64
  fd_gather :: u64
  fd_nowork :: u64
  nowork_hostwork :: u64
  nowork_refused :: u64
  fd_idbusy :: u64
  fd_bypnr :: u64
  fd_ar_stall :: u64
  fd_aw_stall :: u64
  fd_w_stall :: u64
  fd_ar_pres :: u64
  fd_aw_pres :: u64
  fd_w_pres :: u64
  hdr_burst :: u64
  stall_run_max :: u64
  fd_sethaz :: u64
  fd_s2_stall :: u64
  fd_s2_reread :: u64
  g_fd_run :: u64
  prev_hdr_refused :: bool

definition sample_fd :: "bool \<Rightarrow> l2c_taps \<Rightarrow> s_in \<Rightarrow> s_out \<Rightarrow> fd_stats \<Rightarrow> fd_stats" where
  "sample_fd host_work x p q f =
     (let stalled = (dbg_fd_ar_stall x \<or> dbg_fd_aw_stall x);
          run = (if stalled then g_fd_run f + 1 else 0) in
      f\<lparr> fd_cycles := fd_cycles f + 1, fd_idle := count_if (dbg_fd_idle x) (fd_idle f), fd_accept := count_if (dbg_fd_accept x) (fd_accept f),
         fd_gather := count_if (dbg_fd_gather x) (fd_gather f), fd_nowork := count_if (dbg_fd_nowork x) (fd_nowork f),
         nowork_hostwork := count_if (dbg_fd_nowork x \<and> host_work) (nowork_hostwork f),
         nowork_refused := count_if (dbg_fd_nowork x \<and> prev_hdr_refused f) (nowork_refused f),
         fd_idbusy := count_if (dbg_fd_idbusy x) (fd_idbusy f), fd_bypnr := count_if (dbg_fd_bypnr x) (fd_bypnr f),
         fd_sethaz := count_if (dbg_fd_sethaz x) (fd_sethaz f), fd_s2_stall := count_if (dbg_s2_stall x) (fd_s2_stall f),
         fd_s2_reread := count_if (dbg_s2_reread x) (fd_s2_reread f), fd_ar_pres := count_if (s_arvalid p) (fd_ar_pres f),
         fd_aw_pres := count_if (s_awvalid p) (fd_aw_pres f), fd_w_pres := count_if (s_wvalid p) (fd_w_pres f),
         fd_ar_stall := count_if (dbg_fd_ar_stall x) (fd_ar_stall f), fd_aw_stall := count_if (dbg_fd_aw_stall x) (fd_aw_stall f),
         fd_w_stall := count_if (dbg_fd_w_stall x) (fd_w_stall f),
         hdr_burst := count_if (s_awvalid p \<and> s_awready q) (count_if (s_arvalid p \<and> s_arready q) (hdr_burst f)),
         g_fd_run := run, stall_run_max := max (stall_run_max f) run, prev_hdr_refused := stalled \<rparr>)"

section \<open>One clock\<close>

record stability =
  g_aw_snap :: stable_snap
  g_ar_snap :: stable_snap
  g_r_snap :: stable_snap
  g_b_snap :: stable_snap
  g_stability_violation :: bool

record ('r, 'd) l2c_bench =
  dut :: 'd
  rst :: bool
  pins :: l2c_in
  mslv :: "'r mem_slave"
  req :: "'r requester"
  dh :: "'r dh_master"
  dw :: "'r dw_master"
  stab :: stability
  bypass :: by_monitor
  by_tap :: by_taps
  g_ev :: ev_stats
  g_dhfd :: dhfd_stats
  g_dwfd :: dwfd_stats
  g_fd :: fd_stats
  g_r_stall_cycles :: u64
  bench_time :: u64
  golden :: "u64 \<Rightarrow> u8"
  touched :: "u64 \<Rightarrow> bool"

definition mem_check_stability :: "m_in \<Rightarrow> m_out \<Rightarrow> stability \<Rightarrow> stability" where
  "mem_check_stability p q z =
     (let (aw, v) = check_stable (m_awvalid q) (m_awready p) (ucast (m_awid q)) (ucast (m_awaddr q)) (unat (m_awlen q))
                      (g_aw_snap z, g_stability_violation z);
          (ar, v) = check_stable (m_arvalid q) (m_arready p) (ucast (m_arid q)) (ucast (m_araddr q)) (unat (m_arlen q)) (g_ar_snap z, v) in
      z\<lparr> g_aw_snap := aw, g_ar_snap := ar, g_stability_violation := v \<rparr>)"

text \<open>The eight low bytes of a beat as a little-endian number.\<close>

definition low_bytes :: "u8 list \<Rightarrow> u64" where
  "low_bytes bs = foldr (\<lambda>b acc. push_bit 8 acc OR ucast b) (take 8 bs) 0"

definition req_check_stability :: "s_in \<Rightarrow> s_out \<Rightarrow> stability \<Rightarrow> stability" where
  "req_check_stability p q z =
     (let (r, v) = check_stable (s_rvalid q) (s_rready p) (ucast (s_rid q)) (low_bytes (get_wide_bytes (s_rdata q) 16))
                     (unat (s_rresp q)) (g_r_snap z, g_stability_violation z);
          (b, v) = check_stable (s_bvalid q) (s_bready p) (ucast (s_bid q)) (ucast (s_bresp q)) 0 (g_b_snap z, v) in
      z\<lparr> g_r_snap := r, g_b_snap := b, g_stability_violation := v \<rparr>)"

definition host_work :: "'r requester \<Rightarrow> bool" where
  "host_work q \<longleftrightarrow>
     r_issuing q \<noteq> None \<or> w_issuing q \<noteq> None \<or> aw_issuing q \<noteq> None \<or> w_aw_sent q \<noteq> [] \<or> r_pending_issue q \<noteq> [] \<or> w_pending_issue q \<noteq> []"

definition drive_all :: "('r \<Rightarrow> u32 \<times> 'r) \<Rightarrow> ('r, 'd) l2c_bench \<Rightarrow> ('r, 'd) l2c_bench" where
  "drive_all G b =
     (let t = bench_time b; p = pins b; q = req_pump_issue (req b); d = dh_pump_issue (dh b); w = dw_pump_issue (dw b);
          (ms, pm) = mem_drive_comb G t (mslv b, pin_m p);
          pm = mem_drive_rdata t ms pm;
          (q, ps) = req_drive_comb G (q, pin_s p);
          (d, pd) = dh_drive_comb G (g_perf_always_ready q \<or> no_backpressure q) (d, pin_dh p);
          (w, pw) = dw_drive_comb G t (w, pin_dw p) in
      b\<lparr> mslv := ms, req := q, dh := d, dw := w, pins := p\<lparr> pin_m := pm, pin_s := ps, pin_dh := pd, pin_dw := pw \<rparr> \<rparr>)"

definition sample_all :: "l2c_out \<Rightarrow> ('r, 'd) l2c_bench \<Rightarrow> ('r, 'd) l2c_bench" where
  "sample_all q b =
     (let x = out_taps q; p = pins b in
      b\<lparr> g_ev := sample_ev x (g_ev b), by_tap := by_sample_taps (dbg_by_occ x) (dbg_by_inflight x) (dbg_by_slots x) (by_tap b),
         g_dhfd := dh_sample_taps (bench_time b) x (pin_dh p) (out_dh q) (g_dhfd b), g_dwfd := dw_sample_taps x (g_dwfd b),
         bypass := (if rst b then by_reset_epoch (bypass b) else bypass b),
         g_fd := sample_fd (host_work (req b)) x (pin_s p) (out_s q) (g_fd b),
         g_r_stall_cycles := count_if (m_rvalid (pin_m p) \<and> \<not> m_rready (out_m q)) (g_r_stall_cycles b) \<rparr>)"

definition latch_all ::
  "('r \<Rightarrow> u32 \<times> 'r) \<Rightarrow> ddr_timing \<Rightarrow> (dw_burst \<Rightarrow> ('r, 'd) l2c_bench \<Rightarrow> ('r, 'd) l2c_bench) \<Rightarrow> l2c_out \<Rightarrow>
   ('r, 'd) l2c_bench \<Rightarrow> ('r, 'd) l2c_bench" where
  "latch_all G T on_b q b =
     (let t = bench_time b; p = pins b; suppress = g_suppress_unmatched_check (req b);
          (w, fired) = dw_latch_edge t suppress (pin_dw p) (out_dw q) (dw b);
          b = b\<lparr> mslv := mem_latch_edge G T t (pin_m p) (out_m q) (mslv b), bypass := by_latch_edge (pin_m p) (out_m q) (bypass b),
                 req := req_latch_edge t (pin_s p) (out_s q) (req b), dh := dh_latch_edge t suppress (pin_dh p) (out_dh q) (dh b),
                 dw := w \<rparr>;
          b = (case fired of None \<Rightarrow> b | Some i \<Rightarrow> on_b (dw_store w ! i) b) in
      b\<lparr> stab := req_check_stability (pin_s p) (out_s q) (mem_check_stability (pin_m p) (out_m q) (stab b)) \<rparr>)"

definition bench_eval :: "'d l2c_dut \<Rightarrow> bool \<Rightarrow> ('r, 'd) l2c_bench \<Rightarrow> ('r, 'd) l2c_bench" where
  "bench_eval X clk b = b\<lparr> dut := l2c_eval X clk (rst b) (pins b) (dut b) \<rparr>"

definition bench_tick ::
  "'d l2c_dut \<Rightarrow> ('r \<Rightarrow> u32 \<times> 'r) \<Rightarrow> ddr_timing \<Rightarrow> (dw_burst \<Rightarrow> ('r, 'd) l2c_bench \<Rightarrow> ('r, 'd) l2c_bench) \<Rightarrow>
   ('r, 'd) l2c_bench \<Rightarrow> ('r, 'd) l2c_bench" where
  "bench_tick X G T on_b b =
     (let b = bench_eval X False (drive_all G (bench_eval X False b));
          q = l2c_outputs X (dut b);
          b = bench_eval X True (latch_all G T on_b q (sample_all q b)) in
      bench_eval X True (b\<lparr> bench_time := bench_time b + 1 \<rparr>))"

section \<open>Loops over the clock\<close>

text \<open>\<open>for (i = 0; i < n && !stop; i++) tick()\<close>.\<close>

fun tick_until :: "('s \<Rightarrow> 's) \<Rightarrow> ('s \<Rightarrow> bool) \<Rightarrow> nat \<Rightarrow> 's \<Rightarrow> 's" where
  "tick_until step stop 0 s = s"
| "tick_until step stop (Suc n) s = (if stop s then s else tick_until step stop n (step s))"

definition wait_read_done ::
  "(('r, 'd) l2c_bench \<Rightarrow> ('r, 'd) l2c_bench) \<Rightarrow> u32 \<Rightarrow> nat \<Rightarrow> ('r, 'd) l2c_bench \<Rightarrow> bool \<times> ('r, 'd) l2c_bench" where
  "wait_read_done step i max_cycles b =
     (let b = tick_until step (\<lambda>b. r_done (req b) i \<noteq> None) max_cycles b in (r_done (req b) i \<noteq> None, b))"

definition wait_write_done ::
  "(('r, 'd) l2c_bench \<Rightarrow> ('r, 'd) l2c_bench) \<Rightarrow> u32 \<Rightarrow> nat \<Rightarrow> ('r, 'd) l2c_bench \<Rightarrow> bool \<times> ('r, 'd) l2c_bench" where
  "wait_write_done step i max_cycles b =
     (let b = tick_until step (\<lambda>b. w_done (req b) i \<noteq> None) max_cycles b in (w_done (req b) i \<noteq> None, b))"

definition dh_wait ::
  "(('r, 'd) l2c_bench \<Rightarrow> ('r, 'd) l2c_bench) \<Rightarrow> nat \<Rightarrow> nat \<Rightarrow> ('r, 'd) l2c_bench \<Rightarrow> bool \<times> ('r, 'd) l2c_bench" where
  "dh_wait step ref max_cycles b =
     (let b = tick_until step (\<lambda>b. dhb_done (dh_store (dh b) ! ref)) max_cycles b in (dhb_done (dh_store (dh b) ! ref), b))"

definition dw_wait ::
  "(('r, 'd) l2c_bench \<Rightarrow> ('r, 'd) l2c_bench) \<Rightarrow> nat \<Rightarrow> nat \<Rightarrow> ('r, 'd) l2c_bench \<Rightarrow> bool \<times> ('r, 'd) l2c_bench" where
  "dw_wait step ref max_cycles b =
     (let b = tick_until step (\<lambda>b. dwb_done (dw_store (dw b) ! ref)) max_cycles b in (dwb_done (dw_store (dw b) ! ref), b))"

definition dw_drain ::
  "(('r, 'd) l2c_bench \<Rightarrow> ('r, 'd) l2c_bench) \<Rightarrow> nat \<Rightarrow> ('r, 'd) l2c_bench \<Rightarrow> ('r, 'd) l2c_bench" where
  "dw_drain step = tick_until step (\<lambda>b. dw_idle (dw b))"

definition dh_drain ::
  "(('r, 'd) l2c_bench \<Rightarrow> ('r, 'd) l2c_bench) \<Rightarrow> nat \<Rightarrow> ('r, 'd) l2c_bench \<Rightarrow> ('r, 'd) l2c_bench" where
  "dh_drain step =
     tick_until step (\<lambda>b. dh_pending_issue (dh b) = [] \<and> dh_issuing (dh b) = None \<and> dh_awaiting (dh b) = Map.empty)"

fun dh_quiet ::
  "'d l2c_dut \<Rightarrow> (('r, 'd) l2c_bench \<Rightarrow> ('r, 'd) l2c_bench) \<Rightarrow> nat \<Rightarrow> nat \<Rightarrow> nat \<Rightarrow> ('r, 'd) l2c_bench \<Rightarrow> ('r, 'd) l2c_bench" where
  "dh_quiet X step needed quiet 0 b = b"
| "dh_quiet X step needed quiet (Suc n) b =
     (if quiet < needed then
        let b = step b; q = l2c_outputs X (dut b) in
        dh_quiet X step needed (if dh_arready (out_dh q) \<and> \<not> dh_rvalid (out_dh q) \<and> \<not> dbg_dh_ar_have (out_taps q) then quiet + 1 else 0) n b
      else b)"

definition dh_quiesce ::
  "'d l2c_dut \<Rightarrow> (('r, 'd) l2c_bench \<Rightarrow> ('r, 'd) l2c_bench) \<Rightarrow> nat \<Rightarrow> nat \<Rightarrow> ('r, 'd) l2c_bench \<Rightarrow> ('r, 'd) l2c_bench" where
  "dh_quiesce X step needed max_cycles = dh_quiet X step needed 0 max_cycles"

definition quiet_pins :: "'r dh_master \<Rightarrow> l2c_in \<Rightarrow> l2c_in" where
  "quiet_pins d p =
     p\<lparr> pin_s := (pin_s p)\<lparr> s_awvalid := False, s_wvalid := False, s_arvalid := False, s_bready := True, s_rready := True,
          f_arvalid := False, f_rready := True \<rparr>,
        pin_dh := (pin_dh p)\<lparr> dh_arvalid := False, dh_rready := True, dh_ram_window_lg2 := of_nat (g_dh_win_lg2 d), dh_ar_is_rom := False,
          dh_overlay_active := False \<rparr>,
        pin_dw := (pin_dw p)\<lparr> dw_awvalid := False, dw_wvalid := False, dw_bready := True, dw_aw_is_rom := False \<rparr>, dw_abandon := False,
        pin_m := (pin_m p)\<lparr> m_awready := False, m_wready := False, m_arready := False, m_bvalid := False, m_rvalid := False \<rparr> \<rparr>"

definition reset_l2c ::
  "'d l2c_dut \<Rightarrow> (('r, 'd) l2c_bench \<Rightarrow> ('r, 'd) l2c_bench) \<Rightarrow> ('r, 'd) l2c_bench \<Rightarrow> ('r, 'd) l2c_bench" where
  "reset_l2c X step b =
     (let b = bench_eval X False (b\<lparr> rst := True, pins := quiet_pins (dh b) (pins b) \<rparr>);
          b = (step ^^ 8) b in
      tick_until step (\<lambda>b. s_awready (out_s (l2c_outputs X (dut b))) \<or> s_arready (out_s (l2c_outputs X (dut b)))) 6000 (b\<lparr> rst := False \<rparr>))"

section \<open>Checked accesses\<close>

definition mkbeat :: "(u64 \<Rightarrow> u8) \<Rightarrow> u64 \<Rightarrow> u8 list" where
  "mkbeat g a = map (\<lambda>i. g (a + of_nat i)) [0..<16]"

text \<open>\<open>None\<close>: the pool of identifiers is empty and the process aborts.\<close>

definition do_read_check ::
  "(('r, 'd) l2c_bench \<Rightarrow> ('r, 'd) l2c_bench) \<Rightarrow> u64 \<Rightarrow> ('r, 'd) l2c_bench \<Rightarrow> (bool \<times> ('r, 'd) l2c_bench) option" where
  "do_read_check step a b =
     (case issue_read (bench_time b) a 1 (req b) of
        None \<Rightarrow> None
      | Some (i, q) \<Rightarrow>
          Some (let (ok, b) = wait_read_done step i 20000 (b\<lparr> req := q \<rparr>) in
                case r_done (req b) i of
                  None \<Rightarrow> (False, b)
                | Some rb \<Rightarrow> (rb_got rb ! 0 = mkbeat (golden b) a, b\<lparr> req := free_read i (req b) \<rparr>)))"

definition do_write_apply ::
  "(('r, 'd) l2c_bench \<Rightarrow> ('r, 'd) l2c_bench) \<Rightarrow> u64 \<Rightarrow> u64 \<Rightarrow> ('r, 'd) l2c_bench \<Rightarrow> (bool \<times> ('r, 'd) l2c_bench) option" where
  "do_write_apply step a seed b =
     (case issue_write_full (bench_time b) a seed (req b) of
        None \<Rightarrow> None
      | Some (i, q) \<Rightarrow>
          Some (let (ok, b) = wait_write_done step i 20000 (b\<lparr> req := q \<rparr>) in
                case w_done (req b) i of
                  None \<Rightarrow> (False, b)
                | Some wb \<Rightarrow>
                    (wb_resp_ok wb, b\<lparr> golden := golden_beat a 0xFFFF (seed_beat seed) 16 (golden b), touched := (touched b)(a := True),
                       req := free_write i (req b) \<rparr>)))"

end
