(* ===== verification/Periph_Event_Log.thy ===== *)
theory Periph_Event_Log
  imports Arch_Text "HOL-Library.Char_ord" "HOL-Library.List_Lexorder"
begin

text \<open>
  The peripheral event log of the harnesses (\<open>tb/periph_event_log.h\<close> and \<open>.cpp\<close>): counting of events by
  category and by event, the capped detail log and the summary.

  A \<open>std::map\<close> keyed by strings is an association list in ascending order of keys and a \<open>std::set\<close> an
  ascending list; strings compare by character codes.  A character pointer that may be null is an
  \<open>option\<close>.  \<open>log_fp\<close> is the text written so far to the open file; whether the file can be opened is an
  argument.
\<close>

record pel_snapshot =
  snap_valid :: bool
  snap_cycle :: u64
  snap_committed :: u64
  snap_pc :: u32
  snap_addr :: u32
  snap_value :: u32
  snap_event :: string
  snap_detail :: string

record pel_stats =
  st_count :: u64
  st_first :: pel_snapshot
  st_last :: pel_snapshot

record pel_event =
  pe_cycle :: u64
  pe_committed :: u64
  pe_pc :: u32
  pe_category :: "string option"
  pe_event :: "string option"
  pe_addr :: u32
  pe_value :: u32
  pe_detail :: string

record pel_log =
  log_path :: string
  log_fp :: "string option"
  detail_limit :: u64
  detail_emitted :: u64
  detail_suppressed :: bool
  summary_enabled :: bool
  category_filter :: "string list"
  category_stats :: "(string \<times> pel_stats) list"
  event_stats :: "(string \<times> pel_stats) list"

definition new_log :: pel_log where
  "new_log = \<lparr> log_path = [], log_fp = None, detail_limit = 256, detail_emitted = 0, detail_suppressed = False,
     summary_enabled = False, category_filter = [], category_stats = [], event_stats = [] \<rparr>"

definition no_snapshot :: pel_snapshot where
  "no_snapshot = \<lparr> snap_valid = False, snap_cycle = 0, snap_committed = 0, snap_pc = 0, snap_addr = 0, snap_value = 0,
     snap_event = [], snap_detail = [] \<rparr>"

definition no_stats :: pel_stats where
  "no_stats = \<lparr> st_count = 0, st_first = no_snapshot, st_last = no_snapshot \<rparr>"

section \<open>Containers and formats\<close>

text \<open>\<open>f(m[k])\<close>: the entry of a key, created with the default value if there is none.\<close>

fun at_key :: "'k::linorder \<Rightarrow> ('v \<Rightarrow> 'v) \<Rightarrow> 'v \<Rightarrow> ('k \<times> 'v) list \<Rightarrow> ('k \<times> 'v) list" where
  "at_key k f d [] = [(k, f d)]"
| "at_key k f d ((j, v) # m) =
     (if k = j then (j, f v) # m else if k < j then (k, f d) # (j, v) # m else (j, v) # at_key k f d m)"

definition set_insert :: "'k::linorder \<Rightarrow> 'k list \<Rightarrow> 'k list" where
  "set_insert k ks = (if k \<in> set ks then ks else insort k ks)"

text \<open>\<open>%s\<close> of \<open>s.c_str()\<close> stops at a null character.\<close>

definition c_str :: "string \<Rightarrow> string" where
  "c_str s = takeWhile (\<lambda>c. c \<noteq> CHR 0x00) s"

definition newline :: string where
  "newline = [CHR 0x0A]"

fun comma_list :: "string list \<Rightarrow> string" where
  "comma_list [] = []"
| "comma_list [c] = c_str c"
| "comma_list (c # cs) = c_str c @ '','' @ comma_list cs"

section \<open>Configuration\<close>

definition set_log_path :: "string \<Rightarrow> pel_log \<Rightarrow> pel_log" where
  "set_log_path path l = l\<lparr> log_path := path \<rparr>"

definition set_detail_limit :: "u64 \<Rightarrow> pel_log \<Rightarrow> pel_log" where
  "set_detail_limit limit l = l\<lparr> detail_limit := limit \<rparr>"

definition set_summary_enabled :: "bool \<Rightarrow> pel_log \<Rightarrow> pel_log" where
  "set_summary_enabled b l = l\<lparr> summary_enabled := b \<rparr>"

definition set_category_filter :: "string list \<Rightarrow> pel_log \<Rightarrow> pel_log" where
  "set_category_filter cs l = l\<lparr> category_filter := fold set_insert (filter (\<lambda>c. c \<noteq> []) cs) [] \<rparr>"

definition category_allowed :: "string \<Rightarrow> pel_log \<Rightarrow> bool" where
  "category_allowed c l \<longleftrightarrow> category_filter l = [] \<or> c \<in> set (category_filter l)"

definition watch_category :: "string option \<Rightarrow> pel_log \<Rightarrow> pel_log" where
  "watch_category c l =
     (case c of
        None \<Rightarrow> l
      | Some c \<Rightarrow> if category_allowed c l then l\<lparr> category_stats := at_key c id no_stats (category_stats l) \<rparr> else l)"

definition log_enabled :: "pel_log \<Rightarrow> bool" where
  "log_enabled l \<longleftrightarrow> summary_enabled l \<or> log_path l \<noteq> []"

definition filter_line :: "string \<Rightarrow> pel_log \<Rightarrow> string" where
  "filter_line prefix l = (if category_filter l = [] then [] else prefix @ comma_list (category_filter l) @ newline)"

definition open_log :: "bool \<Rightarrow> pel_log \<Rightarrow> bool \<times> pel_log" where
  "open_log opens l =
     (if log_path l = [] then (True, l)
      else if \<not> opens then (False, l\<lparr> log_fp := None \<rparr>)
      else (True, l\<lparr> log_fp := Some (''# peripheral model event log'' @ newline @
              ''# fields: cycle committed pc category event addr value detail'' @ newline @ filter_line ''# category_filter='' l) \<rparr>))"

section \<open>Recording\<close>

definition event_snapshot :: "pel_event \<Rightarrow> pel_snapshot" where
  "event_snapshot e = \<lparr> snap_valid = True, snap_cycle = pe_cycle e, snap_committed = pe_committed e, snap_pc = pe_pc e,
     snap_addr = pe_addr e, snap_value = pe_value e, snap_event = (case pe_event e of None \<Rightarrow> [] | Some s \<Rightarrow> s),
     snap_detail = pe_detail e \<rparr>"

definition add_event :: "pel_event \<Rightarrow> pel_stats \<Rightarrow> pel_stats" where
  "add_event e s =
     \<lparr> st_count = st_count s + 1, st_first = (if snap_valid (st_first s) then st_first s else event_snapshot e),
       st_last = event_snapshot e \<rparr>"

definition update_stats :: "string \<Rightarrow> pel_event \<Rightarrow> (string \<times> pel_stats) list \<Rightarrow> (string \<times> pel_stats) list" where
  "update_stats k e m = at_key k (add_event e) no_stats m"

definition detail_line :: "pel_event \<Rightarrow> string \<Rightarrow> string \<Rightarrow> string" where
  "detail_line e category event =
     ''cycle='' @ fmt_u (unat (pe_cycle e)) @ '' committed='' @ fmt_u (unat (pe_committed e)) @ '' pc=0x'' @ fmt_hex 8 (unat (pe_pc e)) @
     '' category='' @ category @ '' event='' @ event @ '' addr=0x'' @ fmt_hex 8 (unat (pe_addr e)) @
     '' value=0x'' @ fmt_hex 8 (unat (pe_value e)) @
     (if pe_detail e = [] then [] else '' detail='' @ c_str (pe_detail e)) @ newline"

definition limit_notice :: "u64 \<Rightarrow> string" where
  "limit_notice n = ''# detail limit reached at '' @ fmt_u (unat n) @ '' events; continuing summary only'' @ newline"

definition write_detail :: "pel_event \<Rightarrow> string \<Rightarrow> string \<Rightarrow> pel_log \<Rightarrow> pel_log" where
  "write_detail e category event l =
     (case log_fp l of
        None \<Rightarrow> l
      | Some t \<Rightarrow>
          if detail_limit l = 0 then l
          else if detail_emitted l < detail_limit l then
            l\<lparr> log_fp := Some (t @ detail_line e category event), detail_emitted := detail_emitted l + 1 \<rparr>
          else if \<not> detail_suppressed l then
            l\<lparr> log_fp := Some (t @ limit_notice (detail_limit l)), detail_suppressed := True \<rparr>
          else l)"

definition record_event :: "pel_event \<Rightarrow> pel_log \<Rightarrow> pel_log" where
  "record_event e l =
     (case (pe_category e, pe_event e) of
        (Some category, Some event) \<Rightarrow>
          if log_enabled l \<and> category_allowed category l then
            write_detail e category event
              (l\<lparr> category_stats := update_stats category e (category_stats l),
                  event_stats := update_stats (category @ ''.'' @ event) e (event_stats l) \<rparr>)
          else l
      | _ \<Rightarrow> l)"

section \<open>The summary\<close>

definition dump_snapshot :: "string \<Rightarrow> pel_snapshot \<Rightarrow> string" where
  "dump_snapshot label s =
     (if \<not> snap_valid s then '' '' @ label @ ''=none''
      else '' '' @ label @ ''='' @ c_str (snap_event s) @ ''@cycle:'' @ fmt_u (unat (snap_cycle s)) @ '',committed:'' @
        fmt_u (unat (snap_committed s)) @ '',pc:0x'' @ fmt_hex 8 (unat (snap_pc s)) @ '',addr:0x'' @ fmt_hex 8 (unat (snap_addr s)) @
        '',value:0x'' @ fmt_hex 8 (unat (snap_value s)) @
        (if snap_detail s = [] then [] else '',detail:'' @ c_str (snap_detail s)))"

definition category_line :: "string \<times> pel_stats \<Rightarrow> string" where
  "category_line kv =
     ''  category='' @ c_str (fst kv) @ '' count='' @ fmt_u (unat (st_count (snd kv))) @ dump_snapshot ''first'' (st_first (snd kv)) @
     dump_snapshot ''last'' (st_last (snd kv)) @ newline"

definition event_line :: "string \<times> pel_stats \<Rightarrow> string" where
  "event_line kv = ''    '' @ c_str (fst kv) @ '' x'' @ fmt_u (unat (st_count (snd kv))) @ newline"

definition dump_summary :: "pel_log \<Rightarrow> string" where
  "dump_summary l =
     (if \<not> log_enabled l then []
      else
        newline @ ''-------- peripheral model event summary --------'' @ newline @ filter_line ''  category_filter='' l @
        concat (map category_line (category_stats l)) @ ''  event breakdown:'' @ newline @
        (let es = filter (\<lambda>kv. st_count (snd kv) \<noteq> 0) (event_stats l) in
         if es = [] then ''    none'' @ newline else concat (map event_line es)) @
        (if log_path l = [] then []
         else ''  detail_log='' @ c_str (log_path l) @ '' emitted='' @ fmt_u (unat (detail_emitted l)) @ '' limit='' @
           fmt_u (unat (detail_limit l)) @ (if detail_suppressed l then '' suppressed=yes'' else []) @ newline) @
        ''-----------------------------------------------'' @ newline)"

text \<open>The text of the finished file, if one was open.\<close>

definition close_log :: "pel_log \<Rightarrow> string option \<times> pel_log" where
  "close_log l =
     (case log_fp l of None \<Rightarrow> (None, l) | Some t \<Rightarrow> (Some (t @ dump_summary l), l\<lparr> log_fp := None \<rparr>))"

end
