(* ===== verification/Periph_Event_Log_Props.thy ===== *)
theory Periph_Event_Log_Props
  imports Periph_Event_Log
begin

text \<open>
  The peripheral event log: after any sequence of events the tables hold exactly the number, the first and
  the last of the accepted events of each category and each event name, and the file holds the detail
  lines of the first of them up to the limit and one notice if there were more.
\<close>

section \<open>Tables\<close>

text \<open>What a counting client needs of a table: an update of one entry is seen under its key and nowhere else.\<close>

locale entry_table =
  fixes ok :: "'m \<Rightarrow> bool" and look :: "'m \<Rightarrow> 'k \<Rightarrow> 'v option" and upd :: "'k \<Rightarrow> ('v \<Rightarrow> 'v) \<Rightarrow> 'v \<Rightarrow> 'm \<Rightarrow> 'm"
  assumes ok_upd: "ok m \<Longrightarrow> ok (upd k f d m)"
    and look_upd: "ok m \<Longrightarrow> look (upd k f d m) j = (if j = k then Some (f (case look m k of None \<Rightarrow> d | Some v \<Rightarrow> v)) else look m j)"
begin

lemma tally_ok: "ok m \<Longrightarrow> ok (fold (\<lambda>e. upd (key e) (f e) d) es m)"
  by (induction es arbitrary: m) (simp_all add: ok_upd)

lemma tally_look:
  "ok m \<Longrightarrow> look (fold (\<lambda>e. upd (key e) (f e) d) es m) k =
     (let xs = filter (\<lambda>e. key e = k) es in
      if xs = [] then look m k else Some (fold f xs (case look m k of None \<Rightarrow> d | Some v \<Rightarrow> v)))"
proof (induction es arbitrary: m)
  case Nil then show ?case by simp
next
  case (Cons e es)
  then show ?case using Cons.IH [OF ok_upd [OF Cons.prems]] by (simp add: look_upd Let_def)
qed

end

definition ascending :: "('k::linorder \<times> 'v) list \<Rightarrow> bool" where
  "ascending m \<longleftrightarrow> sorted_wrt (<) (map fst m)"

lemma at_key_keys: "fst ` set (at_key k f d m) = insert k (fst ` set m)"
  by (induction m rule: at_key.induct [of _ k f d]) auto

lemma at_key_ascending: "ascending m \<Longrightarrow> ascending (at_key k f d m)"
proof (induction k f d m rule: at_key.induct)
  case (1 k f d) then show ?case by (simp add: ascending_def)
next
  case (2 k f d j v m)
  have "\<forall>x \<in> fst ` set (at_key k f d m). j < x" if "\<not> k < j" "k \<noteq> j"
    using 2(2) that unfolding at_key_keys by (auto simp: ascending_def)
  then show ?case using 2 by (auto simp: ascending_def)
qed

lemma at_key_look:
  "ascending m \<Longrightarrow> map_of (at_key k f d m) j = (if j = k then Some (f (case map_of m k of None \<Rightarrow> d | Some v \<Rightarrow> v)) else map_of m j)"
proof (induction k f d m rule: at_key.induct)
  case (1 k f d) then show ?case by simp
next
  case (2 k f d i v m)
  have "map_of m k = None" if "k < i"
    using 2(2) that by (force simp: ascending_def map_of_eq_None_iff)
  then show ?case using 2 by (auto simp: ascending_def)
qed

interpretation pel_table: entry_table ascending map_of at_key
  by unfold_locales (rule at_key_ascending, assumption, rule at_key_look)

section \<open>The tables of the log\<close>

definition accepted :: "pel_log \<Rightarrow> pel_event \<Rightarrow> bool" where
  "accepted l e \<longleftrightarrow> log_enabled l \<and> pe_event e \<noteq> None \<and> (\<exists>c. pe_category e = Some c \<and> category_allowed c l)"

definition event_key :: "pel_event \<Rightarrow> string" where
  "event_key e = the (pe_category e) @ ''.'' @ the (pe_event e)"

lemma write_detail_keeps:
  "category_stats (write_detail e c n l) = category_stats l" "event_stats (write_detail e c n l) = event_stats l"
  "log_path (write_detail e c n l) = log_path l" "summary_enabled (write_detail e c n l) = summary_enabled l"
  "category_filter (write_detail e c n l) = category_filter l" "detail_limit (write_detail e c n l) = detail_limit l"
  by (simp_all add: write_detail_def split: option.split)

lemma record_accepted:
  "record_event e l =
     (if accepted l e then
        write_detail e (the (pe_category e)) (the (pe_event e))
          (l\<lparr> category_stats := at_key (the (pe_category e)) (add_event e) no_stats (category_stats l),
              event_stats := at_key (event_key e) (add_event e) no_stats (event_stats l) \<rparr>)
      else l)"
  by (cases "pe_category e"; cases "pe_event e") (auto simp: record_event_def accepted_def event_key_def update_stats_def)

lemma record_same_acceptance: "accepted (record_event e l) = accepted l" "detail_limit (record_event e l) = detail_limit l"
  by (auto simp: fun_eq_iff record_accepted write_detail_keeps accepted_def log_enabled_def category_allowed_def)

lemma record_tables:
  "category_stats (record_event e l) =
     (if accepted l e then at_key (the (pe_category e)) (add_event e) no_stats (category_stats l) else category_stats l)"
  "event_stats (record_event e l) = (if accepted l e then at_key (event_key e) (add_event e) no_stats (event_stats l) else event_stats l)"
  by (simp_all add: record_accepted write_detail_keeps)

lemma run_tables:
  "category_stats (fold record_event es l) =
     fold (\<lambda>e. at_key (the (pe_category e)) (add_event e) no_stats) (filter (accepted l) es) (category_stats l)"
  "event_stats (fold record_event es l) =
     fold (\<lambda>e. at_key (event_key e) (add_event e) no_stats) (filter (accepted l) es) (event_stats l)"
proof (induction es arbitrary: l)
  case (Cons e es)
  { case 1 show ?case using Cons.IH(1) [of "record_event e l"] by (simp add: record_same_acceptance record_tables) }
  { case 2 show ?case using Cons.IH(2) [of "record_event e l"] by (simp add: record_same_acceptance record_tables) }
qed simp_all

definition stats_of :: "pel_event list \<Rightarrow> pel_stats" where
  "stats_of es = \<lparr> st_count = of_nat (length es), st_first = event_snapshot (hd es), st_last = event_snapshot (last es) \<rparr>"

lemma add_events: "es \<noteq> [] \<Longrightarrow> fold add_event es no_stats = stats_of es"
proof (induction es rule: rev_induct)
  case (snoc e es)
  then show ?case
    by (cases "es = []") (simp_all add: add_event_def stats_of_def no_stats_def no_snapshot_def event_snapshot_def)
qed simp

section \<open>The detail log\<close>

definition lines_of :: "u64 \<Rightarrow> pel_event list \<Rightarrow> string" where
  "lines_of n es =
     concat (map (\<lambda>e. detail_line e (the (pe_category e)) (the (pe_event e))) (take (unat n) es)) @
     (if n \<noteq> 0 \<and> unat n < length es then limit_notice n else [])"

definition detail_inv :: "string \<Rightarrow> pel_event list \<Rightarrow> pel_log \<Rightarrow> bool" where
  "detail_inv head es l \<longleftrightarrow>
     log_fp l = Some (head @ lines_of (detail_limit l) es) \<and> unat (detail_emitted l) = min (unat (detail_limit l)) (length es) \<and>
     (detail_suppressed l \<longleftrightarrow> detail_limit l \<noteq> 0 \<and> unat (detail_limit l) < length es)"

lemma write_detail_inv:
  assumes "detail_inv head es l"
  shows "detail_inv head (es @ [e]) (write_detail e (the (pe_category e)) (the (pe_event e)) l)"
proof -
  let ?n = "unat (detail_limit l)"
  have i: "log_fp l = Some (head @ lines_of (detail_limit l) es)" "unat (detail_emitted l) = min ?n (length es)"
    "detail_suppressed l \<longleftrightarrow> detail_limit l \<noteq> 0 \<and> ?n < length es" using assms by (simp_all add: detail_inv_def)
  consider (off) "detail_limit l = 0" | (room) "detail_limit l \<noteq> 0" "length es < ?n" | (full) "detail_limit l \<noteq> 0" "?n \<le> length es" by linarith
  then show ?thesis
  proof cases
    case off then show ?thesis using i by (simp add: detail_inv_def write_detail_def lines_of_def)
  next
    case room
    have lt: "detail_emitted l < detail_limit l" using i(2) room by (simp add: word_less_nat_alt)
    have b: "?n < 2 ^ 64" using unsigned_less [where w = "detail_limit l" and ?'a = nat] by simp
    have "unat (detail_emitted l) = length es" using i(2) room by simp
    then have "unat (detail_emitted l + 1) = Suc (length es)" using room b by (simp add: unat_word_ariths(1))
    then show ?thesis using i room lt by (simp add: detail_inv_def write_detail_def lines_of_def)
  next
    case full
    have ge: "\<not> detail_emitted l < detail_limit l" using i(2) full by (simp add: word_less_nat_alt)
    show ?thesis using i full ge by (cases "detail_suppressed l") (auto simp: detail_inv_def write_detail_def lines_of_def)
  qed
qed

lemma run_detail: "detail_inv head done l \<Longrightarrow> detail_inv head (done @ filter (accepted l) es) (fold record_event es l)"
proof (induction es arbitrary: l "done")
  case (Cons e es)
  show ?case
  proof (cases "accepted l e")
    case True
    let ?l = "l\<lparr> category_stats := at_key (the (pe_category e)) (add_event e) no_stats (category_stats l),
              event_stats := at_key (event_key e) (add_event e) no_stats (event_stats l) \<rparr>"
    have "detail_inv head done ?l" using Cons.prems by (simp add: detail_inv_def)
    then have "detail_inv head (done @ [e]) (record_event e l)" using True by (simp add: record_accepted write_detail_inv)
    from Cons.IH [OF this] show ?thesis using True by (simp add: record_same_acceptance)
  next
    case False
    then show ?thesis using Cons by (simp add: record_accepted)
  qed
qed simp

text \<open>
  C18 The event log is exact.  Start from a log with an open file and nothing recorded (categories may be
  watched already) and record any events, null names, filtered categories and all.  Then the entry of
  a category, and likewise of an event name within a category, is the number of accepted events with
  that key together with the first and the last of them, entries without an event are as before; and
  the file has grown by the detail lines of the first accepted events up to the limit, followed, if
  there were more and the limit is not zero, by the notice, once.
\<close>

theorem event_log_exact:
  assumes "log_fp l = Some head" "detail_emitted l = 0" "\<not> detail_suppressed l" "ascending (category_stats l)"
    "\<forall>v \<in> snd ` set (category_stats l). v = no_stats" "event_stats l = []"
  shows "let acc = filter (accepted l) es in
    map_of (category_stats (fold record_event es l)) k =
      (let xs = filter (\<lambda>e. pe_category e = Some k) acc in if xs = [] then map_of (category_stats l) k else Some (stats_of xs)) \<and>
    map_of (event_stats (fold record_event es l)) k =
      (let xs = filter (\<lambda>e. event_key e = k) acc in if xs = [] then None else Some (stats_of xs)) \<and>
    log_fp (fold record_event es l) = Some (head @ lines_of (detail_limit l) acc)"
proof -
  define acc where "acc = filter (accepted l) es"
  have zero: "(case map_of (category_stats l) k of None \<Rightarrow> no_stats | Some v \<Rightarrow> v) = no_stats"
    using assms(5) by (force split: option.split dest: map_of_SomeD)
  have cat: "filter (\<lambda>e. the (pe_category e) = k) acc = filter (\<lambda>e. pe_category e = Some k) acc"
    unfolding acc_def by (rule filter_cong) (auto simp: accepted_def)
  have "detail_inv head [] l" using assms(1-3) by (simp add: detail_inv_def lines_of_def)
  from run_detail [OF this, of es] have "log_fp (fold record_event es l) = Some (head @ lines_of (detail_limit (fold record_event es l)) acc)"
    by (simp add: detail_inv_def acc_def)
  moreover have "detail_limit (fold record_event es l) = detail_limit l"
    by (induction es arbitrary: l) (simp_all add: record_same_acceptance)
  moreover have "map_of (category_stats (fold record_event es l)) k =
      (let xs = filter (\<lambda>e. pe_category e = Some k) acc in if xs = [] then map_of (category_stats l) k else Some (stats_of xs))"
    unfolding run_tables acc_def [symmetric] pel_table.tally_look [OF assms(4)] cat zero by (simp add: Let_def add_events)
  moreover have "map_of (event_stats (fold record_event es l)) k =
      (let xs = filter (\<lambda>e. event_key e = k) acc in if xs = [] then None else Some (stats_of xs))"
    unfolding run_tables acc_def [symmetric]
    using pel_table.tally_look [of "event_stats l" event_key add_event no_stats acc k] assms(6)
    by (simp add: ascending_def Let_def add_events)
  ultimately show ?thesis unfolding acc_def [symmetric] by (simp add: Let_def)
qed

definition watched_log :: pel_log where
  "watched_log = snd (open_log True (watch_category (Some ''SCSI'') (set_category_filter [''VIA1'', '''', ''SCSI'', ''VIA1'']
     (set_detail_limit 1 (set_log_path ''x.log'' new_log)))))"

definition demo_event :: "string \<Rightarrow> u64 \<Rightarrow> pel_event" where
  "demo_event c t = \<lparr> pe_cycle = t, pe_committed = 0, pe_pc = 0x40, pe_category = Some c, pe_event = Some ''read'', pe_addr = 0x50F00000,
     pe_value = 1, pe_detail = [] \<rparr>"

definition demo_events :: "pel_event list" where
  "demo_events = [demo_event ''VIA1'' 5, demo_event ''ADB'' 6, demo_event ''VIA1'' 7]"

theorem event_log_exact_witness:
  "category_filter watched_log = [''SCSI'', ''VIA1''] \<and>
   map_of (category_stats (fold record_event demo_events watched_log)) ''VIA1'' = Some (stats_of [demo_event ''VIA1'' 5, demo_event ''VIA1'' 7]) \<and>
   map_of (category_stats (fold record_event demo_events watched_log)) ''SCSI'' = Some no_stats \<and>
   log_fp (fold record_event demo_events watched_log) =
     Some (the (log_fp watched_log) @ detail_line (demo_event ''VIA1'' 5) ''VIA1'' ''read'' @ limit_notice 1)"
proof -
  have w: "category_filter watched_log = [''SCSI'', ''VIA1'']" "category_stats watched_log = [(''SCSI'', no_stats)]"
    "detail_emitted watched_log = 0" "\<not> detail_suppressed watched_log" "event_stats watched_log = []" "detail_limit watched_log = 1"
    "log_path watched_log = ''x.log''" "log_fp watched_log \<noteq> None" by code_simp+
  then obtain head where h: "log_fp watched_log = Some head" by blast
  have a: "filter (accepted watched_log) demo_events = [demo_event ''VIA1'' 5, demo_event ''VIA1'' 7]"
    by (simp add: demo_events_def demo_event_def accepted_def log_enabled_def category_allowed_def w)
  have x: "ascending (category_stats watched_log)" "\<forall>v \<in> snd ` set (category_stats watched_log). v = no_stats"
    by (simp_all add: w ascending_def)
  note e = event_log_exact [OF h w(3,4) x w(5), of demo_events, unfolded a Let_def]
  show ?thesis
    using e [of "''VIA1''"] e [of "''SCSI''"]
    by (simp add: w h demo_event_def lines_of_def)
qed

text \<open>The event table joins category and name with a dot, so different pairs can share an entry.\<close>

lemma event_keys_collide:
  "event_key (e\<lparr> pe_category := Some ''SCSI'', pe_event := Some ''dma.read'' \<rparr>) =
   event_key (e\<lparr> pe_category := Some ''SCSI.dma'', pe_event := Some ''read'' \<rparr>)"
  by (simp add: event_key_def)

end
