(* ===== verification/Cold_Boot.thy ===== *)
theory Cold_Boot
  imports Soc_Prelude
begin

unbundle bit_operations_syntax

text \<open>
  The support code of the cold-boot test bench (\<open>tb/tb_cold_boot_support.h\<close>): the card that streams sectors
  behind a byte-wide serial port, the one-byte response latch, clock and reset around the design, and
  the reader of the core's boundary events.

  The design is the parameter \<open>'d boot_dut\<close>.  \<open>sector_data.at\<close> cannot fail where it is called, its index having been
  compared with the size; sectors are lists of at least 512 bytes.  \<open>None\<close> from \<open>boot_periph\<close> is the exit on an
  image that is too long; reading the image file is left out.
\<close>

section \<open>The card\<close>

record sd_source =
  src_fifo :: "u8 list"
  src_frame :: "u8 list"
  src_in_frame :: bool
  src_cmd18_active :: bool
  src_next_lba :: u32
  src_sectors :: "u8 list list"
  src_eof :: u32

definition src_initial :: sd_source where
  "src_initial = \<lparr> src_fifo = [], src_frame = [], src_in_frame = False, src_cmd18_active = False, src_next_lba = 0, src_sectors = [],
     src_eof = 0xFFFFFFFF \<rparr>"

definition src_reset :: "u8 list list \<Rightarrow> u32 \<Rightarrow> sd_source \<Rightarrow> sd_source" where
  "src_reset sd eof s =
     s\<lparr> src_fifo := [], src_frame := [], src_in_frame := False, src_cmd18_active := False, src_next_lba := 0, src_sectors := sd,
        src_eof := eof \<rparr>"

definition src_push :: "u8 list \<Rightarrow> sd_source \<Rightarrow> sd_source" where
  "src_push v s = s\<lparr> src_fifo := src_fifo s @ v \<rparr>"

definition queue_block :: "u32 \<Rightarrow> sd_source \<Rightarrow> sd_source" where
  "queue_block sec s =
     src_push [0x00, 0x00] (src_push (map (\<lambda>i. src_sectors s ! unat sec ! i) [0..<512]) (src_push [0xFF, 0xFE] s))"

definition consume_one_byte :: "sd_source \<Rightarrow> u8 \<times> sd_source" where
  "consume_one_byte s =
     (if src_fifo s = [] \<and> src_cmd18_active s \<and> (src_eof s \<le> src_next_lba s \<or> length (src_sectors s) \<le> unat (src_next_lba s)) then (0xFF, s)
      else
        let s = (if src_fifo s = [] \<and> src_cmd18_active s
                 then queue_block (src_next_lba s) (s\<lparr> src_next_lba := src_next_lba s + 1 \<rparr>) else s) in
        case src_fifo s of [] \<Rightarrow> (0xFF, s) | b # bs \<Rightarrow> (b, s\<lparr> src_fifo := bs \<rparr>))"

definition frame_sector :: "u8 list \<Rightarrow> u32" where
  "frame_sector f =
     push_bit 24 (ucast (f ! 1)) OR push_bit 16 (ucast (f ! 2)) OR push_bit 8 (ucast (f ! 3)) OR ucast (f ! 4)"

definition src_handle_frame :: "sd_source \<Rightarrow> sd_source" where
  "src_handle_frame s =
     (let cmd = src_frame s ! 0 AND 0x3F in
      if cmd = 0 then src_push [0xFF, 0x01] s
      else if cmd = 8 then src_push [0xFF, 0x01, 0x00, 0x00, 0x01, 0xAA] s
      else if cmd = 55 then src_push [0xFF, 0x01] s
      else if cmd = 41 then src_push [0xFF, 0x00] s
      else if cmd = 58 then src_push [0xFF, 0x00, 0xC0, 0xFF, 0x80, 0x00] s
      else if cmd = 6 then src_push [0xFF, 0x04] s
      else if cmd = 18 then (src_push [0xFF, 0x00] s)\<lparr> src_cmd18_active := True, src_next_lba := frame_sector (src_frame s) \<rparr>
      else if cmd = 12 then src_push [0xFF, 0x00] (s\<lparr> src_cmd18_active := False, src_fifo := [] \<rparr>)
      else src_push [0xFF, 0x04] s)"

definition src_observe_mosi :: "u8 \<Rightarrow> sd_source \<Rightarrow> sd_source" where
  "src_observe_mosi b s =
     (if \<not> src_in_frame s then
        if b AND 0xC0 = 0x40 then s\<lparr> src_frame := [b], src_in_frame := True \<rparr> else s
      else
        let s = s\<lparr> src_frame := src_frame s @ [b] \<rparr> in
        if length (src_frame s) = 6 then (src_handle_frame s)\<lparr> src_in_frame := False \<rparr> else s)"

section \<open>Images\<close>

definition blank_sectors :: "nat \<Rightarrow> u8 list list" where
  "blank_sectors n = replicate n (replicate 512 0)"

definition put_byte :: "u8 list \<Rightarrow> nat \<Rightarrow> u8 list list \<Rightarrow> u8 list list" where
  "put_byte bytes i sec = sec[i div 512 := (sec ! (i div 512))[i mod 512 := bytes ! i]]"

definition bytes_to_sectors :: "u8 list \<Rightarrow> nat \<Rightarrow> u8 list list" where
  "bytes_to_sectors bytes nsec = fold (put_byte bytes) [0..<min (length bytes) (nsec * 512)] (blank_sectors nsec)"

section \<open>The serial port of the design\<close>

record spi_mux =
  have_rsp :: bool
  pending_rsp :: u8

record boot_in =
  boot_rst :: bool
  boot_pc_override_en :: bool
  boot_pc_override_val :: u32
  boot_pc_load_en :: bool
  boot_pc_load_val :: u32
  vram_peek_en :: bool
  vram_peek_addr :: u32
  spi_cmd_ready :: bool
  spi_rsp_valid :: bool
  spi_rsp_data :: u8

record boot_out =
  spi_cmd_valid :: bool
  spi_cmd_data :: u8
  bnd_seq :: u32
  bnd_kind :: u8
  bnd_exc_vec :: u8
  bnd_pc :: u32
  bnd_next_pc :: u32
  bnd_fault_pc :: u32
  bnd_fault_addr :: u32
  rom_loaded :: bool
  boot_error :: bool
  if_rvalid :: bool
  sentinel_valid :: bool
  sentinel_value :: u32
  vram_peek_valid :: bool
  vram_peek_data :: u32

record 'd boot_dut =
  boot_outputs :: "'d \<Rightarrow> boot_out"
  boot_eval :: "bool \<Rightarrow> boot_in \<Rightarrow> 'd \<Rightarrow> 'd"

record 'd cold_boot =
  cb_dut :: 'd
  cb_pins :: boot_in
  cb_sd :: sd_source
  cb_mux :: spi_mux
  cb_time :: u64
  last_boundary_seq :: u32

definition spi_tick :: "'d boot_dut \<Rightarrow> 'd cold_boot \<Rightarrow> 'd cold_boot" where
  "spi_tick X b =
     (let m = cb_mux b; q = boot_outputs X (cb_dut b);
          p = (cb_pins b)\<lparr> spi_cmd_ready := True, spi_rsp_valid := have_rsp m, spi_rsp_data := (if have_rsp m then pending_rsp m else 0) \<rparr>;
          b = b\<lparr> cb_pins := p, cb_mux := m\<lparr> have_rsp := False \<rparr> \<rparr> in
      if spi_cmd_valid q then
        let (r, sd) = consume_one_byte (src_observe_mosi (spi_cmd_data q) (cb_sd b)) in
        b\<lparr> cb_sd := sd, cb_mux := \<lparr> have_rsp = True, pending_rsp = r \<rparr> \<rparr>
      else b)"

definition eval_boot :: "'d boot_dut \<Rightarrow> bool \<Rightarrow> 'd cold_boot \<Rightarrow> 'd cold_boot" where
  "eval_boot X clk b = b\<lparr> cb_dut := boot_eval X clk (cb_pins b) (cb_dut b) \<rparr>"

definition tick_boot :: "'d boot_dut \<Rightarrow> 'd cold_boot \<Rightarrow> 'd cold_boot" where
  "tick_boot X b =
     (let b = eval_boot X True (spi_tick X (eval_boot X True (eval_boot X False b))) in b\<lparr> cb_time := cb_time b + 1 \<rparr>)"

definition reset_boot :: "'d boot_dut \<Rightarrow> bool \<Rightarrow> u32 \<Rightarrow> 'd cold_boot \<Rightarrow> 'd cold_boot" where
  "reset_boot X en pc b =
     (let b = b\<lparr> cb_pins := \<lparr> boot_rst = True, boot_pc_override_en = en, boot_pc_override_val = pc, boot_pc_load_en = False,
                   boot_pc_load_val = 0, vram_peek_en = False, vram_peek_addr = 0, spi_cmd_ready = False, spi_rsp_valid = False,
                   spi_rsp_data = 0 \<rparr>, cb_mux := \<lparr> have_rsp = False, pending_rsp = 0xFF \<rparr> \<rparr>;
          b = (tick_boot X ^^ 8) b;
          b = tick_boot X (b\<lparr> cb_pins := (cb_pins b)\<lparr> boot_rst := False \<rparr> \<rparr>) in
      b\<lparr> last_boundary_seq := bnd_seq (boot_outputs X (cb_dut b)) \<rparr>)"

section \<open>Reading the core\<close>

definition line_byte :: "u32 list \<Rightarrow> nat \<Rightarrow> u8" where
  "line_byte line idx = ucast (drop_bit (24 - 8 * (idx mod 4)) (line ! (idx div 4)) AND 0xFF)"

record cold_boundary =
  cbe_seq :: u32
  cbe_kind :: u8
  cbe_vec :: u8
  cbe_pc :: u32
  cbe_next_pc :: u32
  cbe_fault_pc :: u32
  cbe_fault_addr :: u32

text \<open>The event, if the sequence number has moved since the last poll.\<close>

definition poll_boundary :: "boot_out \<Rightarrow> 'd cold_boot \<Rightarrow> cold_boundary option \<times> 'd cold_boot" where
  "poll_boundary q b =
     (if bnd_seq q = last_boundary_seq b then (None, b)
      else
        (Some \<lparr> cbe_seq = bnd_seq q, cbe_kind = bnd_kind q, cbe_vec = bnd_exc_vec q, cbe_pc = bnd_pc q, cbe_next_pc = bnd_next_pc q,
                cbe_fault_pc = bnd_fault_pc q, cbe_fault_addr = bnd_fault_addr q \<rparr>,
         b\<lparr> last_boundary_seq := bnd_seq q \<rparr>))"

section \<open>Waiting\<close>

definition boot_out_of :: "'d boot_dut \<Rightarrow> 'd cold_boot \<Rightarrow> boot_out" where
  "boot_out_of X b = boot_outputs X (cb_dut b)"

fun ticks_until :: "'d boot_dut \<Rightarrow> (boot_out \<Rightarrow> bool) \<Rightarrow> nat \<Rightarrow> 'd cold_boot \<Rightarrow> 'd cold_boot" where
  "ticks_until X stop 0 b = b"
| "ticks_until X stop (Suc n) b = (if stop (boot_out_of X b) then b else ticks_until X stop n (tick_boot X b))"

definition boot_until_done :: "'d boot_dut \<Rightarrow> nat \<Rightarrow> 'd cold_boot \<Rightarrow> bool \<times> 'd cold_boot" where
  "boot_until_done X max_cycles b =
     (let b = ticks_until X (\<lambda>q. rom_loaded q \<or> boot_error q) max_cycles b; q = boot_out_of X b in (rom_loaded q \<and> \<not> boot_error q, b))"

definition wait_fetch :: "'d boot_dut \<Rightarrow> nat \<Rightarrow> 'd cold_boot \<Rightarrow> bool \<times> 'd cold_boot" where
  "wait_fetch X max_cycles b = (let b = ticks_until X if_rvalid max_cycles b in (if_rvalid (boot_out_of X b), b))"

record sentinel_event =
  sen_value :: u32
  sen_cycle :: u64

definition poll_sentinel :: "'d boot_dut \<Rightarrow> 'd cold_boot \<Rightarrow> sentinel_event option" where
  "poll_sentinel X b =
     (let q = boot_out_of X b in if sentinel_valid q then Some \<lparr> sen_value = sentinel_value q, sen_cycle = cb_time b \<rparr> else None)"

fun wait_sentinel :: "'d boot_dut \<Rightarrow> nat \<Rightarrow> 'd cold_boot \<Rightarrow> sentinel_event option \<times> 'd cold_boot" where
  "wait_sentinel X 0 b = (None, b)"
| "wait_sentinel X (Suc n) b =
     (case poll_sentinel X b of Some e \<Rightarrow> (Some e, b) | None \<Rightarrow> wait_sentinel X n (tick_boot X b))"

fun await_peek :: "'d boot_dut \<Rightarrow> nat \<Rightarrow> 'd cold_boot \<Rightarrow> u8 option \<times> 'd cold_boot" where
  "await_peek X 0 b = (None, b)"
| "await_peek X (Suc n) b =
     (let q = boot_out_of X b in
      if vram_peek_valid q then (Some (ucast (drop_bit 24 (vram_peek_data q) AND 0xFF)), b) else await_peek X n (tick_boot X b))"

definition peek_vram_byte :: "'d boot_dut \<Rightarrow> u32 \<Rightarrow> 'd cold_boot \<Rightarrow> u8 option \<times> 'd cold_boot" where
  "peek_vram_byte X px_addr b =
     (let b = tick_boot X (b\<lparr> cb_pins := (cb_pins b)\<lparr> vram_peek_addr := px_addr, vram_peek_en := True \<rparr> \<rparr>) in
      await_peek X 8 (b\<lparr> cb_pins := (cb_pins b)\<lparr> vram_peek_en := False \<rparr> \<rparr>))"

definition boot_periph :: "'d boot_dut \<Rightarrow> u8 list \<Rightarrow> 'd cold_boot \<Rightarrow> (bool \<times> 'd cold_boot) option" where
  "boot_periph X bytes b =
     (if 256 < length bytes then None
      else
        let b = b\<lparr> cb_sd := src_reset (bytes_to_sectors bytes 2048) 0xFFFFFFFF (cb_sd b) \<rparr> in
        Some (boot_until_done X 1000000 (reset_boot X True 0x40000000 b)))"

end
