(* ===== verification/Cold_Boot_Props.thy ===== *)
theory Cold_Boot_Props
  imports Cold_Boot
begin

unbundle bit_operations_syntax

text \<open>
  The card of the cold-boot test bench: what the host receives in a multiple-block read session, for every
  image, start sector and length, and the image as the sectors it is cut into.
\<close>

section \<open>Images\<close>

definition filled :: "u8 list \<Rightarrow> nat \<Rightarrow> nat \<Rightarrow> u8 list list" where
  "filled bytes m n = map (\<lambda>k. map (\<lambda>j. if k * 512 + j < m then bytes ! (k * 512 + j) else 0) [0..<512]) [0..<n]"

lemma put_byte_filled:
  assumes "m < n * 512"
  shows "put_byte bytes m (filled bytes m n) = filled bytes (Suc m) n"
proof (rule nth_equalityI)
  show "length (put_byte bytes m (filled bytes m n)) = length (filled bytes (Suc m) n)" by (simp add: put_byte_def filled_def)
next
  fix k assume "k < length (put_byte bytes m (filled bytes m n))"
  then have k: "k < n" by (simp add: put_byte_def filled_def)
  have q: "m div 512 < n" using assms by (simp add: div_less_iff_less_mult)
  have s: "(k * 512 + j < Suc m) = (k * 512 + j < m \<or> (k = m div 512 \<and> j = m mod 512))" if "j < 512" for j
    using that by (auto simp: less_Suc_eq)
  show "put_byte bytes m (filled bytes m n) ! k = filled bytes (Suc m) n ! k"
    using k q s by (auto simp: put_byte_def filled_def nth_list_update intro!: nth_equalityI)
qed

lemma sectors_of_image: "bytes_to_sectors bytes n = filled bytes (min (length bytes) (n * 512)) n"
proof -
  have "fold (put_byte bytes) [0..<m] (blank_sectors n) = filled bytes m n" if "m \<le> n * 512" for m
    using that
  proof (induction m)
    case 0
    have "filled bytes 0 n = blank_sectors n" by (simp add: filled_def blank_sectors_def map_replicate_const)
    then show ?case by simp
  next
    case (Suc m) then show ?case by (simp add: put_byte_filled)
  qed
  then show ?thesis by (simp add: bytes_to_sectors_def)
qed

section \<open>The stream of the card\<close>

definition block_of :: "u8 list \<Rightarrow> u8 list" where
  "block_of sec = [0xFF, 0xFE] @ map (\<lambda>i. sec ! i) [0..<512] @ [0x00, 0x00]"

definition due :: "sd_source \<Rightarrow> u8 list" where
  "due s = src_fifo s @
     (if src_cmd18_active s
      then concat (map (\<lambda>k. block_of (src_sectors s ! k)) [unat (src_next_lba s)..<min (unat (src_eof s)) (length (src_sectors s))]) else [])"

lemma queue_block_fifo: "src_fifo (queue_block k s) = src_fifo s @ block_of (src_sectors s ! unat k)"
  "src_cmd18_active (queue_block k s) = src_cmd18_active s" "src_next_lba (queue_block k s) = src_next_lba s"
  "src_eof (queue_block k s) = src_eof s" "src_sectors (queue_block k s) = src_sectors s"
  "src_in_frame (queue_block k s) = src_in_frame s" "src_frame (queue_block k s) = src_frame s"
  by (simp_all add: queue_block_def src_push_def block_of_def)

lemma consume_due:
  "fst (consume_one_byte s) = hd (due s @ [0xFF])" "due (snd (consume_one_byte s)) = tl (due s)"
  "src_in_frame (snd (consume_one_byte s)) = src_in_frame s" "src_frame (snd (consume_one_byte s)) = src_frame s"
  "src_sectors (snd (consume_one_byte s)) = src_sectors s" "src_eof (snd (consume_one_byte s)) = src_eof s"
proof -
  show "src_sectors (snd (consume_one_byte s)) = src_sectors s" "src_eof (snd (consume_one_byte s)) = src_eof s"
    by (simp_all add: consume_one_byte_def queue_block_fifo Let_def split: list.split)
  let ?top = "min (unat (src_eof s)) (length (src_sectors s))"
  have over: "src_eof s \<le> src_next_lba s \<or> length (src_sectors s) \<le> unat (src_next_lba s) \<longleftrightarrow> ?top \<le> unat (src_next_lba s)"
    by (simp add: word_le_nat_alt min_le_iff_disj)
  consider (queued) b bs where "src_fifo s = b # bs" | (quiet) "src_fifo s = []" "\<not> src_cmd18_active s"
    | (at_end) "src_fifo s = []" "src_cmd18_active s" "?top \<le> unat (src_next_lba s)"
    | (next_block) "src_fifo s = []" "src_cmd18_active s" "unat (src_next_lba s) < ?top"
    using not_le by (cases "src_fifo s") blast+
  then have "fst (consume_one_byte s) = hd (due s @ [0xFF]) \<and> due (snd (consume_one_byte s)) = tl (due s) \<and>
      src_in_frame (snd (consume_one_byte s)) = src_in_frame s \<and> src_frame (snd (consume_one_byte s)) = src_frame s"
  proof cases
    case queued then show ?thesis by (simp add: consume_one_byte_def due_def)
  next
    case quiet then show ?thesis by (simp add: consume_one_byte_def due_def)
  next
    case at_end then show ?thesis unfolding consume_one_byte_def over by (simp add: due_def)
  next
    case next_block
    let ?k = "src_next_lba s"
    have "unat ?k < unat (src_eof s)" using next_block by simp
    moreover have "unat (src_eof s) < 2 ^ 32" using unsigned_less [where w = "src_eof s" and ?'a = nat] by simp
    ultimately have k: "unat (?k + 1) = Suc (unat ?k)" by (simp add: unat_word_ariths(1))
    have d: "due s = block_of (src_sectors s ! unat ?k) @ concat (map (\<lambda>k. block_of (src_sectors s ! k)) [Suc (unat ?k)..<?top])"
      using next_block by (simp add: due_def upt_conv_Cons)
    obtain bs where b: "block_of (src_sectors s ! unat ?k) = 0xFF # bs" by (simp add: block_of_def)
    have n: "\<not> ?top \<le> unat ?k" using next_block(3) by linarith
    show ?thesis
      unfolding consume_one_byte_def over using next_block n d b
      by (simp add: queue_block_fifo due_def k Let_def split: list.split)
  qed
  then show "fst (consume_one_byte s) = hd (due s @ [0xFF])" "due (snd (consume_one_byte s)) = tl (due s)"
    "src_in_frame (snd (consume_one_byte s)) = src_in_frame s" "src_frame (snd (consume_one_byte s)) = src_frame s" by blast+
qed

section \<open>Sessions\<close>

text \<open>What the host sends and receives, byte for byte.\<close>

fun exchange_bytes :: "u8 list \<Rightarrow> sd_source \<Rightarrow> u8 list \<times> sd_source" where
  "exchange_bytes [] s = ([], s)"
| "exchange_bytes (b # bs) s =
     (let (r, s) = consume_one_byte (src_observe_mosi b s); (rs, s) = exchange_bytes bs s in (r # rs, s))"

lemma exchange_append:
  "exchange_bytes (xs @ ys) s =
     (fst (exchange_bytes xs s) @ fst (exchange_bytes ys (snd (exchange_bytes xs s))), snd (exchange_bytes ys (snd (exchange_bytes xs s))))"
  by (induction xs arbitrary: s) (simp_all add: Let_def split_beta)

lemma exchange_idle:
  "\<not> src_in_frame s \<Longrightarrow>
     fst (exchange_bytes (replicate n 0xFF) s) = padded n (due s) \<and>
     due (snd (exchange_bytes (replicate n 0xFF) s)) = drop n (due s) \<and> \<not> src_in_frame (snd (exchange_bytes (replicate n 0xFF) s))"
proof (induction n arbitrary: s)
  case 0 then show ?case by (simp add: padded_rules)
next
  case (Suc n)
  have o: "src_observe_mosi 0xFF s = s" using Suc.prems by (simp add: src_observe_mosi_def)
  have "\<not> src_in_frame (snd (consume_one_byte s))" using Suc.prems by (simp add: consume_due)
  from Suc.IH [OF this] show ?case
    by (simp add: o consume_due Let_def split_beta drop_Suc padded_rules)
qed

lemma observe_in_frame:
  "src_in_frame s \<Longrightarrow> length (src_frame s) < 5 \<Longrightarrow> src_observe_mosi b s = s\<lparr> src_frame := src_frame s @ [b] \<rparr>"
  by (simp add: src_observe_mosi_def)

lemma due_frame: "due (s\<lparr> src_frame := f \<rparr>) = due s" "due (s\<lparr> src_frame := f, src_in_frame := b \<rparr>) = due s"
  by (simp_all add: due_def)

definition same_card :: "sd_source \<Rightarrow> sd_source \<Rightarrow> bool" where
  "same_card s s' \<longleftrightarrow> src_sectors s' = src_sectors s \<and> src_eof s' = src_eof s"

lemma exchange_in_frame:
  "src_in_frame s \<Longrightarrow> length (src_frame s) + length bs \<le> 5 \<Longrightarrow>
     (let (rs, s') = exchange_bytes bs s in
      rs = padded (length bs) (due s) \<and> due s' = drop (length bs) (due s) \<and> src_in_frame s' \<and>
      src_frame s' = src_frame s @ bs \<and> same_card s s')"
proof (induction bs arbitrary: s)
  case Nil then show ?case by (simp add: same_card_def padded_rules)
next
  case (Cons b bs)
  let ?s = "s\<lparr> src_frame := src_frame s @ [b] \<rparr>"
  have o: "src_observe_mosi b s = ?s" using Cons.prems by (simp add: observe_in_frame)
  have "src_in_frame (snd (consume_one_byte ?s))" "length (src_frame (snd (consume_one_byte ?s))) + length bs \<le> 5"
    using Cons.prems by (simp_all add: consume_due)
  from Cons.IH [OF this] show ?case
    by (simp add: o consume_due due_frame Let_def split_beta drop_Suc padded_rules same_card_def)
qed

text \<open>A command frame: five bytes during which the card goes on sending, then the command takes effect.\<close>

lemma exchange_frame:
  assumes "\<not> src_in_frame s" "b0 AND 0xC0 = 0x40"
  obtains s5 where "due s5 = drop 5 (due s)" "src_frame s5 = [b0, b1, b2, b3, b4, b5]" "same_card s s5"
    "fst (exchange_bytes [b0, b1, b2, b3, b4, b5] s) =
       padded 5 (due s) @ [hd (due (src_handle_frame s5) @ [0xFF])]"
    "due (snd (exchange_bytes [b0, b1, b2, b3, b4, b5] s)) = tl (due (src_handle_frame s5))"
    "\<not> src_in_frame (snd (exchange_bytes [b0, b1, b2, b3, b4, b5] s))"
proof -
  let ?o = "s\<lparr> src_frame := [b0], src_in_frame := True \<rparr>"
  let ?s1 = "snd (consume_one_byte ?o)"
  have o: "src_observe_mosi b0 s = ?o" using assms by (simp add: src_observe_mosi_def)
  have i1: "src_in_frame ?s1" "src_frame ?s1 = [b0]" "due ?s1 = tl (due s)" "same_card s ?s1"
    by (simp_all add: consume_due due_frame same_card_def)
  obtain rs s4 where x: "exchange_bytes [b1, b2, b3, b4] ?s1 = (rs, s4)" by fastforce
  have f: "rs = padded 4 (tl (due s))" "due s4 = drop 4 (tl (due s))" "src_in_frame s4"
    "src_frame s4 = [b0, b1, b2, b3, b4]" "same_card ?s1 s4"
    using exchange_in_frame [of ?s1 "[b1, b2, b3, b4]"] i1 x by (simp_all add: Let_def numeral_eq_Suc del: exchange_bytes.simps)
  let ?s5 = "s4\<lparr> src_frame := [b0, b1, b2, b3, b4, b5] \<rparr>"
  have o5: "src_observe_mosi b5 s4 = (src_handle_frame ?s5)\<lparr> src_in_frame := False \<rparr>" using f by (simp add: src_observe_mosi_def)
  have all: "exchange_bytes [b0, b1, b2, b3, b4, b5] s =
      (hd (due s @ [0xFF]) # rs @ [fst (consume_one_byte (src_observe_mosi b5 s4))], snd (consume_one_byte (src_observe_mosi b5 s4)))"
  proof -
    have "exchange_bytes [b1, b2, b3, b4, b5] ?s1 = (rs @ fst (exchange_bytes [b5] s4), snd (exchange_bytes [b5] s4))"
      using exchange_append [of "[b1, b2, b3, b4]" "[b5]" ?s1] x by simp
    then show ?thesis by (simp add: o consume_due due_frame Let_def split_beta)
  qed
  have d: "due ((src_handle_frame ?s5)\<lparr> src_in_frame := False \<rparr>) = due (src_handle_frame ?s5)" by (simp add: due_def)
  have five: "hd (due s @ [0xFF]) # rs = padded 5 (due s)"
    using padded_rules(2) [of 4 "due s"] by (simp add: f(1))
  show ?thesis
  proof
    show "due ?s5 = drop 5 (due s)" using f(2) by (simp add: due_frame drop_Suc [symmetric])
    show "src_frame ?s5 = [b0, b1, b2, b3, b4, b5]" by simp
    show "same_card s ?s5" using i1(4) f(5) by (simp add: same_card_def)
    show "fst (exchange_bytes [b0, b1, b2, b3, b4, b5] s) =
        padded 5 (due s) @ [hd (due (src_handle_frame ?s5) @ [0xFF])]"
      unfolding all five [symmetric] by (simp add: o5 consume_due d)
    show "due (snd (exchange_bytes [b0, b1, b2, b3, b4, b5] s)) = tl (due (src_handle_frame ?s5))"
      unfolding all by (simp add: o5 consume_due d)
    show "\<not> src_in_frame (snd (exchange_bytes [b0, b1, b2, b3, b4, b5] s))" unfolding all by (simp add: o5 consume_due)
  qed
qed

definition cmd18 :: "u32 \<Rightarrow> u8 \<Rightarrow> u8 list" where
  "cmd18 sec crc = [0x52, ucast (drop_bit 24 sec), ucast (drop_bit 16 sec), ucast (drop_bit 8 sec), ucast sec, crc]"

definition cmd12 :: "u8 \<Rightarrow> u8 list" where
  "cmd12 crc = [0x4C, 0, 0, 0, 0, crc]"

lemma frame_sector_cmd18: "frame_sector (cmd18 sec crc) = sec"
proof (rule bit_word_eqI)
  fix n assume "n < LENGTH(32)"
  then consider "n < 8" | "8 \<le> n" "n < 16" | "16 \<le> n" "n < 24" | "24 \<le> n" "n < 32" by fastforce
  then show "bit (frame_sector (cmd18 sec crc)) n = bit sec n"
    by cases (auto simp: bit_simps frame_sector_def cmd18_def)
qed

definition sectors_from :: "sd_source \<Rightarrow> u32 \<Rightarrow> u8 list list" where
  "sectors_from s sec = map (\<lambda>k. src_sectors s ! k) [unat sec..<min (unat (src_eof s)) (length (src_sectors s))]"

lemma handle_cmd18:
  "src_frame s = cmd18 sec crc \<Longrightarrow> src_fifo s = [] \<Longrightarrow> due (src_handle_frame s) = [0xFF, 0x00] @ concat (map block_of (sectors_from s sec))"
proof -
  assume f: "src_frame s = cmd18 sec crc" "src_fifo s = []"
  have c: "cmd18 sec crc ! 0 AND 0x3F = 18" by (simp add: cmd18_def)
  have "src_handle_frame s = (src_push [0xFF, 0x00] s)\<lparr> src_cmd18_active := True, src_next_lba := sec \<rparr>"
    unfolding src_handle_frame_def f c frame_sector_cmd18 by simp
  then show ?thesis using f(2) by (simp add: due_def src_push_def sectors_from_def comp_def)
qed

lemma handle_cmd12: "src_frame s = cmd12 crc \<Longrightarrow> due (src_handle_frame s) = [0xFF, 0x00]"
  by (simp add: src_handle_frame_def due_def src_push_def cmd12_def Let_def)

lemma session_start:
  assumes "\<not> src_in_frame s" "due s = []"
  shows "fst (exchange_bytes (cmd18 sec crc) s) = replicate 6 0xFF"
    "due (snd (exchange_bytes (cmd18 sec crc) s)) = 0x00 # concat (map block_of (sectors_from s sec))"
    "\<not> src_in_frame (snd (exchange_bytes (cmd18 sec crc) s))"
proof -
  obtain s5 where x: "due s5 = drop 5 (due s)" "src_frame s5 = cmd18 sec crc" "same_card s s5"
    "fst (exchange_bytes (cmd18 sec crc) s) = padded 5 (due s) @ [hd (due (src_handle_frame s5) @ [0xFF])]"
    "due (snd (exchange_bytes (cmd18 sec crc) s)) = tl (due (src_handle_frame s5))"
    "\<not> src_in_frame (snd (exchange_bytes (cmd18 sec crc) s))"
    by (rule exchange_frame [where ?b0.0 = "0x52" and ?b1.0 = "ucast (drop_bit 24 sec)" and ?b2.0 = "ucast (drop_bit 16 sec)" and
        ?b3.0 = "ucast (drop_bit 8 sec)" and ?b4.0 = "ucast sec" and ?b5.0 = crc, OF assms(1), folded cmd18_def]) simp
  have "src_fifo s5 = []" using x(1) assms(2) by (simp add: due_def)
  from handle_cmd18 [OF x(2) this] have d: "due (src_handle_frame s5) = 0xFF # 0x00 # concat (map block_of (sectors_from s sec))"
    using x(3) by (simp add: sectors_from_def same_card_def)
  show "fst (exchange_bytes (cmd18 sec crc) s) = replicate 6 0xFF" using x(4) d assms(2) by (simp add: padded_def numeral_eq_Suc)
  show "due (snd (exchange_bytes (cmd18 sec crc) s)) = 0x00 # concat (map block_of (sectors_from s sec))" using x(5) d by simp
  show "\<not> src_in_frame (snd (exchange_bytes (cmd18 sec crc) s))" by (rule x(6))
qed

lemma session_stop:
  assumes "\<not> src_in_frame s"
  shows "fst (exchange_bytes (cmd12 crc) s) = padded 5 (due s) @ [0xFF]" "due (snd (exchange_bytes (cmd12 crc) s)) = [0x00]"
    "\<not> src_in_frame (snd (exchange_bytes (cmd12 crc) s))"
proof -
  obtain s5 where x: "src_frame s5 = cmd12 crc"
    "fst (exchange_bytes (cmd12 crc) s) = padded 5 (due s) @ [hd (due (src_handle_frame s5) @ [0xFF])]"
    "due (snd (exchange_bytes (cmd12 crc) s)) = tl (due (src_handle_frame s5))" "\<not> src_in_frame (snd (exchange_bytes (cmd12 crc) s))"
    by (rule exchange_frame [where ?b0.0 = "0x4C" and ?b1.0 = 0 and ?b2.0 = 0 and ?b3.0 = 0 and ?b4.0 = 0 and ?b5.0 = crc,
        OF assms, folded cmd12_def]) simp
  show "fst (exchange_bytes (cmd12 crc) s) = padded 5 (due s) @ [0xFF]" "due (snd (exchange_bytes (cmd12 crc) s)) = [0x00]"
    "\<not> src_in_frame (snd (exchange_bytes (cmd12 crc) s))"
    using x(2-4) handle_cmd12 [OF x(1)] by simp_all
qed

text \<open>
  C19 A multiple-block read session with the cold-boot card holding an image.  The host sends the read command
  for a sector, clocks out any number of bytes, sends the stop command and clocks on.  After the response
  it receives, for the sectors from that one to the end of the card or the configured end of file, the
  start token, the sector's bytes (those of the image, zero beyond it) and the checksum bytes,
  then idle bytes; the five bytes of the stop frame still belong to the stream, and after it come the
  response and idle bytes only.
\<close>

theorem cold_boot_read_session:
  assumes "s = src_reset (bytes_to_sectors bytes nsec) eof s0"
  shows "fst (exchange_bytes (cmd18 sec crc @ replicate n 0xFF @ cmd12 crc' @ replicate m 0xFF) s) =
      replicate 6 0xFF @
      padded (n + 5) (0x00 # concat (map (\<lambda>k. [0xFF, 0xFE] @
         map (\<lambda>j. if k * 512 + j < length bytes then bytes ! (k * 512 + j) else 0) [0..<512] @ [0x00, 0x00]) [unat sec..<min (unat eof) nsec])) @
      0xFF # padded m [0x00]"
proof -
  let ?a = "snd (exchange_bytes (cmd18 sec crc) s)"
  let ?b = "snd (exchange_bytes (replicate n 0xFF) ?a)"
  let ?c = "snd (exchange_bytes (cmd12 crc') ?b)"
  have s: "\<not> src_in_frame s" "due s = []" by (simp_all add: assms src_reset_def due_def)
  note a = session_start [OF s, of sec crc]
  note b = exchange_idle [OF a(3), of n]
  note c = session_stop [OF conjunct2 [OF conjunct2 [OF b]], of crc']
  note d = exchange_idle [OF c(3), of m]
  have image: "concat (map block_of (sectors_from s sec)) =
      concat (map (\<lambda>k. [0xFF, 0xFE] @ map (\<lambda>j. if k * 512 + j < length bytes then bytes ! (k * 512 + j) else 0) [0..<512] @ [0x00, 0x00])
        [unat sec..<min (unat eof) nsec])"
  proof -
    have len: "length (bytes_to_sectors bytes nsec) = nsec" by (simp add: sectors_of_image filled_def)
    have "block_of (bytes_to_sectors bytes nsec ! k) =
        [0xFF, 0xFE] @ map (\<lambda>j. if k * 512 + j < length bytes then bytes ! (k * 512 + j) else 0) [0..<512] @ [0x00, 0x00]" if "k < nsec" for k
      using that by (auto simp: block_of_def sectors_of_image filled_def)
    then have "map (\<lambda>k. block_of (bytes_to_sectors bytes nsec ! k)) [unat sec..<min (unat eof) nsec] =
        map (\<lambda>k. [0xFF, 0xFE] @ map (\<lambda>j. if k * 512 + j < length bytes then bytes ! (k * 512 + j) else 0) [0..<512] @ [0x00, 0x00])
          [unat sec..<min (unat eof) nsec]"
      by (intro map_cong refl) simp
    moreover have "sectors_from s sec = map (\<lambda>k. bytes_to_sectors bytes nsec ! k) [unat sec..<min (unat eof) nsec]"
      by (simp add: assms src_reset_def sectors_from_def len)
    ultimately show ?thesis by (simp only: map_map comp_def)
  qed
  show ?thesis
    unfolding exchange_append fst_conv snd_conv image [symmetric]
    using a(1,2) b c(1,2) d padded_append [of n "0x00 # concat (map block_of (sectors_from s sec))" 5] by simp
qed

theorem cold_boot_read_session_witness:
  "take 12 (fst (exchange_bytes (cmd18 1 0xFF @ replicate 4 0xFF @ cmd12 0xFF @ replicate 1 0xFF)
      (src_reset (bytes_to_sectors (replicate 512 0 @ [0xAB, 0xCD]) 2) 0xFFFFFFFF src_initial))) =
   [0xFF, 0xFF, 0xFF, 0xFF, 0xFF, 0xFF, 0x00, 0xFF, 0xFE, 0xAB, 0xCD, 0x00]"
proof -
  have r: "[unat (1 :: u32)..<min (unat (0xFFFFFFFF :: u32)) 2] = [1]" by (simp add: upt_conv_Cons)
  have j: "[0..<512] = 0 # 1 # 2 # [3..<512]" by (simp add: upt_conv_Cons del: upt_rec_numeral)
  let ?bytes = "replicate 512 0 @ [0xAB, 0xCD] :: u8 list"
  have sector: "map (\<lambda>j. if 1 * 512 + j < length ?bytes then ?bytes ! (1 * 512 + j) else 0) [0..<512] =
      0xAB # 0xCD # 0 # map (\<lambda>j. if 1 * 512 + j < length ?bytes then ?bytes ! (1 * 512 + j) else 0) [3..<512]"
    unfolding j list.map by (simp add: nth_append del: upt_rec_numeral)
  obtain rest where rest: "concat (map (\<lambda>k. [0xFF, 0xFE] @
      map (\<lambda>j. if k * 512 + j < length ?bytes then ?bytes ! (k * 512 + j) else 0) [0..<512] @ [0x00, 0x00]) [1]) =
      0xFF # 0xFE # 0xAB # 0xCD # 0 # rest"
  proof
    show "concat (map (\<lambda>k. [0xFF, 0xFE] @
        map (\<lambda>j. if k * 512 + j < length ?bytes then ?bytes ! (k * 512 + j) else 0) [0..<512] @ [0x00, 0x00]) [1]) =
        0xFF # 0xFE # 0xAB # 0xCD # 0 #
          (map (\<lambda>j. if 1 * 512 + j < length ?bytes then ?bytes ! (1 * 512 + j) else 0) [3..<512] @ [0x00, 0x00])"
      by (simp only: list.map concat.simps append_Nil2 sector append_Cons append_Nil)
  qed
  show ?thesis
    unfolding cold_boot_read_session [OF refl] r rest by (simp add: padded_rules numeral_eq_Suc)
qed

end
