(* ===== verification/Xbar_Bench.thy ===== *)
theory Xbar_Bench
  imports Soc_Prelude
begin

unbundle bit_operations_syntax

text \<open>
  The models around the crossbar in its test bench (\<open>tb/tb_axi_xbar.cpp\<close>): the sparse slave memories, the five
  slaves with the faults a scenario can inject, the scoreboards of the masters, one cycle, reset and the
  blocking issue helpers.

  The design is the parameter \<open>'d xbar_dut\<close>.  The five ports and the four masters are indexed by number; the
  masters are 0 (CPU data), 1 (debug host), 2 (CPU fetch) and 3 (boot, on the pins \<open>m0b\<close>).  A 128-bit word is the list
  of its four 32-bit words.  \<open>None\<close> is the exit of the process when the design has called \<open>$finish\<close>.
\<close>

section \<open>128-bit words and slave memories\<close>

type_synonym word128 = "u32 list"

definition zero128 :: word128 where "zero128 = [0, 0, 0, 0]"

definition w128_from_u64 :: "u64 \<Rightarrow> u64 \<Rightarrow> word128" where
  "w128_from_u64 lo hi = [ucast (lo AND 0xFFFFFFFF), ucast (drop_bit 32 lo), ucast (hi AND 0xFFFFFFFF), ucast (drop_bit 32 hi)]"

definition bswap32 :: "u32 \<Rightarrow> u32" where
  "bswap32 x =
     push_bit 24 (x AND 0x000000FF) OR push_bit 8 (x AND 0x0000FF00) OR drop_bit 8 (x AND 0x00FF0000) OR drop_bit 24 (x AND 0xFF000000)"

definition vram_native_word_order :: "word128 \<Rightarrow> word128" where
  "vram_native_word_order a = map (\<lambda>i. bswap32 (a ! i)) [0..<4]"

definition set_lane :: "nat \<Rightarrow> u32 \<Rightarrow> word128 \<Rightarrow> word128" where
  "set_lane i v w =
     (let k = i div 4; s = i mod 4 * 8 in w[k := (w ! k AND NOT (push_bit s 0xFF)) OR push_bit s v])"

definition set_byte :: "word128 \<Rightarrow> nat \<Rightarrow> u8 \<Rightarrow> word128" where
  "set_byte w i v = set_lane i (ucast v) w"

type_synonym slave_mem = "u32 \<rightharpoonup> word128"

definition mem_read :: "slave_mem \<Rightarrow> u32 \<Rightarrow> word128" where
  "mem_read m a = (case m (a AND NOT 0xF) of None \<Rightarrow> zero128 | Some w \<Rightarrow> w)"

definition mem_write :: "u32 \<Rightarrow> word128 \<Rightarrow> slave_mem \<Rightarrow> slave_mem" where
  "mem_write a d m = m(a AND NOT 0xF \<mapsto> d)"

definition merge_lane :: "word128 \<Rightarrow> u16 \<Rightarrow> nat \<Rightarrow> word128 \<Rightarrow> word128" where
  "merge_lane d strb i cur =
     (if bit strb i then set_lane i (drop_bit (i mod 4 * 8) (d ! (i div 4)) AND 0xFF) cur else cur)"

definition write_masked :: "u32 \<Rightarrow> word128 \<Rightarrow> u16 \<Rightarrow> slave_mem \<Rightarrow> slave_mem" where
  "write_masked a d strb m = m(a AND NOT 0xF \<mapsto> fold (merge_lane d strb) [0..<16] (mem_read m a))"

section \<open>Slaves\<close>

record slave_bfm =
  aw_busy :: bool
  aw_id :: u32
  aw_addr :: u32
  aw_len :: u8
  w_beats_left :: nat
  w_cur_addr :: u32
  w_beats_seen :: nat
  w_wlast_errors :: nat
  w_pad_beats :: nat
  b_pending :: bool
  b_id :: u32
  ar_busy :: bool
  ar_id :: u32
  ar_addr :: u32
  ar_len :: u8
  r_beats_left :: nat
  r_beats_delivered :: nat
  seen_aw_count :: "u32 \<Rightarrow> nat"
  seen_ar_count :: "u32 \<Rightarrow> nat"

record sl_in =
  x_awready :: bool
  x_wready :: bool
  x_bvalid :: bool
  x_bid :: u32
  x_bresp :: u8
  x_arready :: bool
  x_rvalid :: bool
  x_rid :: u32
  x_rresp :: u8
  x_rlast :: bool
  x_rdata :: word128

record sl_out =
  x_awvalid :: bool
  x_awid :: u32
  x_awaddr :: u32
  x_awlen :: u8
  x_wvalid :: bool
  x_wdata :: word128
  x_wstrb :: u16
  x_wlast :: bool
  x_bready :: bool
  x_arvalid :: bool
  x_arid :: u32
  x_araddr :: u32
  x_arlen :: u8
  x_rready :: bool

record slave_port =
  sp_bfm :: slave_bfm
  sp_mem :: slave_mem
  sp_pin :: sl_in

definition on_bfm :: "(slave_bfm \<Rightarrow> slave_bfm) \<Rightarrow> slave_port \<Rightarrow> slave_port" where
  "on_bfm f s = s\<lparr> sp_bfm := f (sp_bfm s) \<rparr>"

definition on_pin :: "(sl_in \<Rightarrow> sl_in) \<Rightarrow> slave_port \<Rightarrow> slave_port" where
  "on_pin f s = s\<lparr> sp_pin := f (sp_pin s) \<rparr>"

definition capture_aw :: "sl_out \<Rightarrow> slave_bfm \<Rightarrow> slave_bfm" where
  "capture_aw q b =
     b\<lparr> aw_id := x_awid q, aw_addr := x_awaddr q, aw_len := x_awlen q, aw_busy := True, w_beats_left := unat (x_awlen q) + 1,
        w_cur_addr := x_awaddr q, seen_aw_count := (seen_aw_count b)(x_awaddr q := seen_aw_count b (x_awaddr q) + 1) \<rparr>"

definition aw_channel :: "sl_out \<Rightarrow> slave_port \<Rightarrow> slave_port" where
  "aw_channel q s =
     (if \<not> aw_busy (sp_bfm s) then
        let s = on_pin (\<lambda>p. p\<lparr> x_awready := True \<rparr>) s in if x_awvalid q then on_bfm (capture_aw q) s else s
      else on_pin (\<lambda>p. p\<lparr> x_awready := False \<rparr>) s)"

definition close_burst :: "slave_bfm \<Rightarrow> slave_bfm" where
  "close_burst b = (if w_beats_left b = 0 then b\<lparr> b_pending := True, b_id := aw_id b, aw_busy := False \<rparr> else b)"

definition store_beat :: "sl_out \<Rightarrow> slave_port \<Rightarrow> slave_port" where
  "store_beat q s =
     (let b = sp_bfm s in
      s\<lparr> sp_mem := write_masked (w_cur_addr b) (x_wdata q) (x_wstrb q) (sp_mem s),
         sp_bfm := close_burst (b\<lparr> w_cur_addr := w_cur_addr b + 16, w_beats_left := w_beats_left b - 1 \<rparr>) \<rparr>)"

definition w_open :: "slave_bfm \<Rightarrow> bool" where
  "w_open b \<longleftrightarrow> aw_busy b \<and> 0 < w_beats_left b \<and> \<not> b_pending b"

definition w_channel :: "sl_out \<Rightarrow> slave_port \<Rightarrow> slave_port" where
  "w_channel q s =
     (if w_open (sp_bfm s) then
        let s = on_pin (\<lambda>p. p\<lparr> x_wready := True \<rparr>) s in if x_wvalid q then store_beat q s else s
      else on_pin (\<lambda>p. p\<lparr> x_wready := False \<rparr>) s)"

definition b_channel :: "bool \<Rightarrow> sl_out \<Rightarrow> slave_port \<Rightarrow> slave_port" where
  "b_channel swallow q s =
     (if b_pending (sp_bfm s) \<and> \<not> swallow then
        let s = on_pin (\<lambda>p. p\<lparr> x_bvalid := True, x_bid := b_id (sp_bfm s), x_bresp := 0 \<rparr>) s in
        if x_bready q then on_bfm (\<lambda>b. b\<lparr> b_pending := False \<rparr>) s else s
      else on_pin (\<lambda>p. p\<lparr> x_bvalid := False \<rparr>) s)"

definition capture_ar :: "sl_out \<Rightarrow> slave_bfm \<Rightarrow> slave_bfm" where
  "capture_ar q b =
     b\<lparr> ar_id := x_arid q, ar_addr := x_araddr q, ar_len := x_arlen q, ar_busy := True, r_beats_left := unat (x_arlen q) + 1,
        seen_ar_count := (seen_ar_count b)(x_araddr q := seen_ar_count b (x_araddr q) + 1) \<rparr>"

definition ar_channel :: "bool \<Rightarrow> sl_out \<Rightarrow> slave_port \<Rightarrow> slave_port" where
  "ar_channel swallow q s =
     (if \<not> ar_busy (sp_bfm s) \<and> \<not> swallow then
        let s = on_pin (\<lambda>p. p\<lparr> x_arready := True \<rparr>) s in if x_arvalid q then on_bfm (capture_ar q) s else s
      else on_pin (\<lambda>p. p\<lparr> x_arready := False \<rparr>) s)"

definition next_beat :: "slave_bfm \<Rightarrow> slave_bfm" where
  "next_beat b =
     (let b = b\<lparr> ar_addr := ar_addr b + 16, r_beats_left := r_beats_left b - 1 \<rparr> in if r_beats_left b = 0 then b\<lparr> ar_busy := False \<rparr> else b)"

definition r_channel :: "bool \<Rightarrow> sl_out \<Rightarrow> slave_port \<Rightarrow> slave_port" where
  "r_channel wedged q s =
     (let b = sp_bfm s in
      if ar_busy b \<and> 0 < r_beats_left b \<and> \<not> wedged then
        let s = on_pin (\<lambda>p. p\<lparr> x_rvalid := True, x_rid := ar_id b, x_rresp := 0, x_rlast := (r_beats_left b = 1),
                               x_rdata := mem_read (sp_mem s) (ar_addr b) \<rparr>) s in
        if x_rready q then on_bfm next_beat s else s
      else on_pin (\<lambda>p. p\<lparr> x_rvalid := False, x_rlast := False \<rparr>) s)"

text \<open>
  The input of a cycle: whether a stall keeps the address channel shut, whether the scenario swallows the response, swallows the read
  address or has wedged the read data, and the settled outputs of the crossbar.
\<close>

type_synonym slave_input = "(bool \<times> bool \<times> bool \<times> bool) \<times> sl_out"

definition write_step :: "slave_input \<Rightarrow> slave_port \<Rightarrow> slave_port" where
  "write_step i s =
     (case i of ((stalled, swb, _, _), q) \<Rightarrow>
        b_channel swb q (w_channel q (if stalled then on_pin (\<lambda>p. p\<lparr> x_awready := False \<rparr>) s else aw_channel q s)))"

definition read_step :: "slave_input \<Rightarrow> slave_port \<Rightarrow> slave_port" where
  "read_step i s = (case i of ((_, _, swa, wedged), q) \<Rightarrow> r_channel wedged q (ar_channel swa q s))"

definition slave_step :: "slave_input \<Rightarrow> slave_port \<Rightarrow> slave_port" where
  "slave_step i s = read_step i (write_step i s)"

text \<open>Slaves 0 and 3 also count the beats of the current read, which a scenario may cut short.\<close>

definition wedged_after :: "int \<Rightarrow> slave_bfm \<Rightarrow> bool" where
  "wedged_after n b \<longleftrightarrow> 0 \<le> n \<and> n \<le> int (r_beats_delivered b)"

definition r_taken :: "bool \<Rightarrow> sl_out \<Rightarrow> slave_bfm \<Rightarrow> bool" where
  "r_taken wedged q b \<longleftrightarrow> ar_busy b \<and> 0 < r_beats_left b \<and> \<not> wedged \<and> x_rready q"

definition ar_taken :: "sl_out \<Rightarrow> slave_bfm \<Rightarrow> bool" where
  "ar_taken q b \<longleftrightarrow> \<not> ar_busy b \<and> x_arvalid q"

definition counted_read :: "int \<Rightarrow> sl_out \<Rightarrow> slave_port \<Rightarrow> slave_port" where
  "counted_read n q s =
     (let t = ar_taken q (sp_bfm s); s = ar_channel False q s;
          s = (if t then on_bfm (\<lambda>b. b\<lparr> r_beats_delivered := 0 \<rparr>) s else s);
          w = wedged_after n (sp_bfm s); r = r_taken w q (sp_bfm s); s = r_channel w q s in
      if r then on_bfm (\<lambda>b. b\<lparr> r_beats_delivered := r_beats_delivered b + 1 \<rparr>) s else s)"

section \<open>Fault injection\<close>

record s0_hooks =
  s0_stall_aw :: int
  s0_stall_w :: int
  s0_r_swallow_after :: int
  s0_early_w_accept :: bool
  s0_early_w_have :: bool
  s0_early_w_data :: word128
  s0_early_w_strb :: u16
  s0_aw_capture_cycle :: int
  s0_first_w_cycle :: int
  s0_ar_capture_cycle :: int
  s0_first_r_hs_cycle :: int

record lite_hooks =
  s1_swallow_b :: bool
  s1_swallow_ar :: bool
  s1_in_reset :: bool
  s1_reset_swallowed_aw :: nat
  s1_reset_swallowed_ar :: nat
  s2_stall_aw :: int
  s2_swallow_ar :: bool
  s2_swallow_b :: bool
  s3_swallow_b :: bool
  s3_r_swallow_after :: int

record ar_entry =
  ae_id :: u32
  ae_addr :: u32
  ae_len :: u8

record s3_queue =
  s3_r_multi :: bool
  s3_r_hold :: bool
  s3_r_lifo :: bool
  s3_ar_q :: "ar_entry list"
  s3_r_cur_busy :: bool
  s3_r_cur :: ar_entry
  s3_r_cur_left :: nat
  s3_r_cur_addr :: u32
  s3_r_bursts_done :: nat

definition s3_r_multi_reset :: "s3_queue \<Rightarrow> s3_queue" where
  "s3_r_multi_reset z =
     z\<lparr> s3_r_multi := False, s3_r_hold := False, s3_r_lifo := False, s3_ar_q := [], s3_r_cur_busy := False, s3_r_cur_left := 0,
        s3_r_cur_addr := 0, s3_r_bursts_done := 0 \<rparr>"

definition s3_r_multi_drained :: "s3_queue \<Rightarrow> bool" where
  "s3_r_multi_drained z \<longleftrightarrow> s3_ar_q z = [] \<and> \<not> s3_r_cur_busy z"

section \<open>Masters\<close>

record master_bfm =
  w_expect :: "(u32 \<times> u32) list"
  w_completed_ok :: nat
  w_completed_errs :: nat
  r_expect :: "(u32 \<times> u32) list"
  r_completed :: nat
  r_errors :: nat
  r_received :: "word128 list list"
  r_cur :: "word128 list"
  r_received_resp :: "u32 list list"
  r_cur_resp :: "u32 list"
  r_lasts_seen :: nat

record xm_in =
  xm_awid :: u32
  xm_awaddr :: u32
  xm_awlen :: u8
  xm_awsize :: u8
  xm_awburst :: u8
  xm_awvalid :: bool
  xm_wdata :: word128
  xm_wstrb :: u16
  xm_wlast :: bool
  xm_wvalid :: bool
  xm_bready :: bool
  xm_arid :: u32
  xm_araddr :: u32
  xm_arlen :: u8
  xm_arsize :: u8
  xm_arburst :: u8
  xm_arvalid :: bool
  xm_rready :: bool

record xm_out =
  xm_awready :: bool
  xm_wready :: bool
  xm_bvalid :: bool
  xm_bid :: u32
  xm_bresp :: u32
  xm_arready :: bool
  xm_rvalid :: bool
  xm_rid :: u32
  xm_rresp :: u32
  xm_rlast :: bool
  xm_rdata :: word128

definition idle_writes :: "xm_in \<Rightarrow> xm_in" where
  "idle_writes p =
     p\<lparr> xm_awid := 0, xm_awaddr := 0, xm_awlen := 0, xm_awsize := 0, xm_awburst := 0, xm_awvalid := False, xm_wdata := zero128,
        xm_wstrb := 0, xm_wlast := False, xm_wvalid := False, xm_bready := True \<rparr>"

definition idle_reads :: "xm_in \<Rightarrow> xm_in" where
  "idle_reads p =
     p\<lparr> xm_arid := 0, xm_araddr := 0, xm_arlen := 0, xm_arsize := 0, xm_arburst := 0, xm_arvalid := False, xm_rready := True \<rparr>"

text \<open>The scoreboards: the second component is the number of failures found.\<close>

definition observe_b :: "xm_in \<Rightarrow> xm_out \<Rightarrow> master_bfm \<Rightarrow> master_bfm \<times> nat" where
  "observe_b p q m =
     (if xm_bvalid q \<and> xm_bready p then
        case w_expect m of
          [] \<Rightarrow> (m, 1)
        | e # es \<Rightarrow>
            let m = m\<lparr> w_expect := es \<rparr> in
            if (xm_bid q, xm_bresp q) \<noteq> e then (m, 1)
            else if xm_bresp q = 0 then (m\<lparr> w_completed_ok := w_completed_ok m + 1 \<rparr>, 0)
            else (m\<lparr> w_completed_errs := w_completed_errs m + 1 \<rparr>, 0)
      else (m, 0))"

definition check_last :: "xm_out \<Rightarrow> master_bfm \<Rightarrow> master_bfm \<times> nat" where
  "check_last q m =
     (case r_expect m of
        [] \<Rightarrow> (m, 1)
      | e # es \<Rightarrow>
          let m = m\<lparr> r_expect := es \<rparr> in
          if (xm_rid q, xm_rresp q) \<noteq> e then (m, 1)
          else if xm_rresp q = 0 then (m\<lparr> r_completed := r_completed m + 1 \<rparr>, 0)
          else (m\<lparr> r_errors := r_errors m + 1 \<rparr>, 0))"

definition observe_r :: "xm_in \<Rightarrow> xm_out \<Rightarrow> master_bfm \<Rightarrow> master_bfm \<times> nat" where
  "observe_r p q m =
     (if xm_rvalid q \<and> xm_rready p then
        let m = m\<lparr> r_cur := r_cur m @ [xm_rdata q], r_cur_resp := r_cur_resp m @ [xm_rresp q] \<rparr> in
        if xm_rlast q then
          let (m, n) = check_last q (m\<lparr> r_lasts_seen := r_lasts_seen m + 1 \<rparr>) in
          (m\<lparr> r_received := r_received m @ [r_cur m], r_cur := [], r_received_resp := r_received_resp m @ [r_cur_resp m],
              r_cur_resp := [] \<rparr>, n)
        else (m, 0)
      else (m, 0))"

section \<open>The bench\<close>

record xbar_ctl =
  cpu_held_in_reset :: bool
  cpu_overlay_active :: bool
  cpu_overlay_reset :: bool
  slv_flush :: bool
  s1_far_reset :: bool
  m0b_master_reset :: bool
  dbg_ram_window_lg2 :: u8
  xb_rst :: bool

record xbar_in =
  xi_masters :: "nat \<Rightarrow> xm_in"
  xi_slaves :: "nat \<Rightarrow> sl_in"
  xi_ctl :: xbar_ctl

record xbar_out =
  xo_masters :: "nat \<Rightarrow> xm_out"
  xo_slaves :: "nat \<Rightarrow> sl_out"
  xo_finish :: bool

record 'd xbar_dut =
  xb_outputs :: "'d \<Rightarrow> xbar_out"
  xb_eval :: "bool \<Rightarrow> xbar_in \<Rightarrow> 'd \<Rightarrow> 'd"

record 'd xbar_bench =
  xb_dut :: 'd
  xb_clk :: bool
  xb_time :: u64
  ctl :: xbar_ctl
  m_pins :: "nat \<Rightarrow> xm_in"
  ports :: "nat \<Rightarrow> slave_port"
  mb :: "nat \<Rightarrow> master_bfm"
  h0 :: s0_hooks
  hl :: lite_hooks
  h3 :: s3_queue
  n_fail :: nat

definition xbar_pins :: "'d xbar_bench \<Rightarrow> xbar_in" where
  "xbar_pins b = \<lparr> xi_masters = m_pins b, xi_slaves = (\<lambda>n. sp_pin (ports b n)), xi_ctl = ctl b \<rparr>"

definition settle :: "'d xbar_dut \<Rightarrow> 'd xbar_bench \<Rightarrow> 'd xbar_bench" where
  "settle X b = b\<lparr> xb_dut := xb_eval X (xb_clk b) (xbar_pins b) (xb_dut b) \<rparr>"

definition s_out_of :: "'d xbar_dut \<Rightarrow> 'd xbar_bench \<Rightarrow> nat \<Rightarrow> sl_out" where
  "s_out_of X b n = xo_slaves (xb_outputs X (xb_dut b)) n"

definition m_out_of :: "'d xbar_dut \<Rightarrow> 'd xbar_bench \<Rightarrow> nat \<Rightarrow> xm_out" where
  "m_out_of X b n = xo_masters (xb_outputs X (xb_dut b)) n"

definition with_port :: "nat \<Rightarrow> (slave_port \<Rightarrow> slave_port) \<Rightarrow> 'd xbar_bench \<Rightarrow> 'd xbar_bench" where
  "with_port n f b = b\<lparr> ports := (ports b)(n := f (ports b n)) \<rparr>"

section \<open>The five slaves\<close>

text \<open>Slave 0, the memory: stalls, a write beat ahead of its address, the audit of last marks and the time probes.\<close>

definition s0_aw :: "u64 \<Rightarrow> sl_out \<Rightarrow> slave_port \<times> s0_hooks \<Rightarrow> slave_port \<times> s0_hooks" where
  "s0_aw t q z =
     (let (s, h) = z in
      if \<not> aw_busy (sp_bfm s) \<and> s0_stall_aw h \<le> 0 then
        let s = on_pin (\<lambda>p. p\<lparr> x_awready := True \<rparr>) s in
        if x_awvalid q then
          let s = on_bfm (capture_aw q) s; h = h\<lparr> s0_aw_capture_cycle := sint t \<rparr> in
          if s0_early_w_have h then
            (on_bfm (\<lambda>b. close_burst (b\<lparr> w_beats_left := 0 \<rparr>))
               (s\<lparr> sp_mem := write_masked (aw_addr (sp_bfm s)) (s0_early_w_data h) (s0_early_w_strb h) (sp_mem s) \<rparr>),
             h\<lparr> s0_early_w_have := False \<rparr>)
          else (s, h)
        else (s, h)
      else
        (on_pin (\<lambda>p. p\<lparr> x_awready := False \<rparr>) s, if 0 < s0_stall_aw h then h\<lparr> s0_stall_aw := s0_stall_aw h - 1 \<rparr> else h))"

definition note_first_w :: "u64 \<Rightarrow> s0_hooks \<Rightarrow> s0_hooks" where
  "note_first_w t h = (if s0_first_w_cycle h < 0 then h\<lparr> s0_first_w_cycle := sint t \<rparr> else h)"

definition audit_beat :: "sl_out \<Rightarrow> slave_bfm \<Rightarrow> slave_bfm" where
  "audit_beat q b =
     b\<lparr> w_wlast_errors := (if x_wlast q \<noteq> (w_beats_left b = 1) then w_wlast_errors b + 1 else w_wlast_errors b),
        w_pad_beats := (if x_wstrb q = 0 then w_pad_beats b + 1 else w_pad_beats b), w_beats_seen := w_beats_seen b + 1 \<rparr>"

definition s0_w :: "u64 \<Rightarrow> sl_out \<Rightarrow> slave_port \<times> s0_hooks \<Rightarrow> slave_port \<times> s0_hooks" where
  "s0_w t q z =
     (let (s, h) = z in
      if w_open (sp_bfm s) \<and> s0_stall_w h \<le> 0 then
        let s = on_pin (\<lambda>p. p\<lparr> x_wready := True \<rparr>) s in
        if x_wvalid q then (store_beat q (on_bfm (audit_beat q) s), note_first_w t h) else (s, h)
      else if s0_early_w_accept h \<and> \<not> aw_busy (sp_bfm s) \<and> \<not> s0_early_w_have h \<and> \<not> b_pending (sp_bfm s) \<and> s0_stall_w h \<le> 0 then
        let s = on_pin (\<lambda>p. p\<lparr> x_wready := True \<rparr>) s in
        if x_wvalid q then
          (s, note_first_w t (h\<lparr> s0_early_w_data := x_wdata q, s0_early_w_strb := x_wstrb q, s0_early_w_have := True \<rparr>))
        else (s, h)
      else (on_pin (\<lambda>p. p\<lparr> x_wready := False \<rparr>) s, if 0 < s0_stall_w h then h\<lparr> s0_stall_w := s0_stall_w h - 1 \<rparr> else h))"

definition s0_read :: "u64 \<Rightarrow> sl_out \<Rightarrow> slave_port \<times> s0_hooks \<Rightarrow> slave_port \<times> s0_hooks" where
  "s0_read t q z =
     (let (s, h) = z; taken = ar_taken q (sp_bfm s);
          h = (if taken then h\<lparr> s0_ar_capture_cycle := sint t \<rparr> else h);
          n = s0_r_swallow_after h; s' = counted_read n q s;
          mid = (if taken then (capture_ar q (sp_bfm s))\<lparr> r_beats_delivered := 0 \<rparr> else sp_bfm s) in
      (s', if r_taken (wedged_after n mid) q mid \<and> s0_first_r_hs_cycle h < 0 then h\<lparr> s0_first_r_hs_cycle := sint t \<rparr> else h))"

definition step_slave_s0 :: "'d xbar_dut \<Rightarrow> 'd xbar_bench \<Rightarrow> 'd xbar_bench" where
  "step_slave_s0 X b =
     (let q = s_out_of X b 0; t = xb_time b; (s, h) = s0_w t q (s0_aw t q (ports b 0, h0 b)); (s, h) = s0_read t q (b_channel False q s, h) in
      (with_port 0 (\<lambda>_. s) b)\<lparr> h0 := h \<rparr>)"

definition step_slave_s1 :: "'d xbar_dut \<Rightarrow> 'd xbar_bench \<Rightarrow> 'd xbar_bench" where
  "step_slave_s1 X b =
     (let q = s_out_of X b 1; h = hl b in
      if s1_in_reset h then
        (with_port 1 (on_pin (\<lambda>p. p\<lparr> x_awready := True, x_wready := True, x_arready := True, x_bvalid := False, x_rvalid := False,
                                    x_rlast := False \<rparr>)) b)
          \<lparr> hl := h\<lparr> s1_reset_swallowed_aw := (if x_awvalid q then s1_reset_swallowed_aw h + 1 else s1_reset_swallowed_aw h),
                    s1_reset_swallowed_ar := (if x_arvalid q then s1_reset_swallowed_ar h + 1 else s1_reset_swallowed_ar h) \<rparr> \<rparr>
      else
        with_port 1 (slave_step ((False, s1_swallow_b h, s1_swallow_ar h, False), q)) b)"

definition step_slave_s2 :: "'d xbar_dut \<Rightarrow> 'd xbar_bench \<Rightarrow> 'd xbar_bench" where
  "step_slave_s2 X b =
     (let q = s_out_of X b 2; h = hl b; stalled = (0 < s2_stall_aw h) in
      (with_port 2 (slave_step ((stalled, s2_swallow_b h, s2_swallow_ar h, False), q)) b)
        \<lparr> hl := (if stalled then h\<lparr> s2_stall_aw := s2_stall_aw h - 1 \<rparr> else h) \<rparr>)"

text \<open>The queued read channel of slave 3: what it drives, and what it does with the settled outputs.\<close>

definition s3_room :: "s3_queue \<Rightarrow> bool" where
  "s3_room z \<longleftrightarrow> length (s3_ar_q z) + (if s3_r_cur_busy z then 1 else 0) < 4"

definition s3_select :: "s3_queue \<Rightarrow> s3_queue" where
  "s3_select z =
     (if \<not> s3_r_cur_busy z \<and> \<not> s3_r_hold z \<and> s3_ar_q z \<noteq> [] then
        let (e, es) = (if s3_r_lifo z then (last (s3_ar_q z), butlast (s3_ar_q z)) else (hd (s3_ar_q z), tl (s3_ar_q z))) in
        z\<lparr> s3_r_cur := e, s3_ar_q := es, s3_r_cur_busy := True, s3_r_cur_left := unat (ae_len e) + 1, s3_r_cur_addr := ae_addr e \<rparr>
      else z)"

definition s3_driving :: "s3_queue \<Rightarrow> bool" where
  "s3_driving z \<longleftrightarrow> s3_r_cur_busy z \<and> \<not> s3_r_hold z"

definition s3_drive :: "bool \<Rightarrow> s3_queue \<Rightarrow> slave_port \<Rightarrow> slave_port" where
  "s3_drive room z s =
     on_pin (\<lambda>p. let p = p\<lparr> x_arready := room \<rparr> in
       if s3_driving z then
         p\<lparr> x_rvalid := True, x_rid := ae_id (s3_r_cur z), x_rresp := 0, x_rlast := (s3_r_cur_left z = 1),
            x_rdata := mem_read (sp_mem s) (s3_r_cur_addr z) \<rparr>
       else p\<lparr> x_rvalid := False, x_rlast := False \<rparr>) s"

definition s3_accept :: "bool \<Rightarrow> sl_out \<Rightarrow> s3_queue \<Rightarrow> s3_queue" where
  "s3_accept room q z =
     (if x_arvalid q \<and> room then z\<lparr> s3_ar_q := s3_ar_q z @ [\<lparr> ae_id = x_arid q, ae_addr = x_araddr q, ae_len = x_arlen q \<rparr>] \<rparr> else z)"

definition s3_advance :: "bool \<Rightarrow> sl_out \<Rightarrow> s3_queue \<Rightarrow> s3_queue" where
  "s3_advance driving q z =
     (if driving \<and> x_rready q then
        let z = z\<lparr> s3_r_cur_addr := s3_r_cur_addr z + 16, s3_r_cur_left := s3_r_cur_left z - 1 \<rparr> in
        if s3_r_cur_left z = 0 then z\<lparr> s3_r_cur_busy := False, s3_r_bursts_done := s3_r_bursts_done z + 1 \<rparr> else z
      else z)"

definition s3_queue_step :: "sl_out \<Rightarrow> s3_queue \<Rightarrow> s3_queue" where
  "s3_queue_step q z = (let r = s3_select z in s3_advance (s3_driving r) q (s3_accept (s3_room z) q r))"

definition step_slave_s3 :: "'d xbar_dut \<Rightarrow> 'd xbar_bench \<Rightarrow> 'd xbar_bench" where
  "step_slave_s3 X b =
     (let q = s_out_of X b 3; b = with_port 3 (write_step ((False, s3_swallow_b (hl b), False, False), q)) b in
      if s3_r_multi (h3 b) then
        let room = s3_room (h3 b); z = s3_select (h3 b);
            b = settle X (with_port 3 (s3_drive room z) b); q = s_out_of X b 3;
            b = (if x_arvalid q \<and> room
                 then with_port 3 (on_bfm (\<lambda>f. f\<lparr> seen_ar_count := (seen_ar_count f)(x_araddr q := seen_ar_count f (x_araddr q) + 1) \<rparr>)) b
                 else b) in
        b\<lparr> h3 := s3_queue_step q (h3 b) \<rparr>
      else with_port 3 (counted_read (s3_r_swallow_after (hl b)) q) b)"

definition step_slave_s4 :: "'d xbar_dut \<Rightarrow> 'd xbar_bench \<Rightarrow> 'd xbar_bench" where
  "step_slave_s4 X b =
     with_port 4 (slave_step ((False, False, False, False), s_out_of X b 4)) b"

section \<open>One cycle\<close>

definition note_b :: "'d xbar_dut \<Rightarrow> nat \<Rightarrow> 'd xbar_bench \<Rightarrow> 'd xbar_bench" where
  "note_b X i b =
     (let (m, n) = observe_b (m_pins b i) (m_out_of X b i) (mb b i) in b\<lparr> mb := (mb b)(i := m), n_fail := n_fail b + n \<rparr>)"

definition note_r :: "'d xbar_dut \<Rightarrow> nat \<Rightarrow> 'd xbar_bench \<Rightarrow> 'd xbar_bench" where
  "note_r X i b =
     (let (m, n) = observe_r (m_pins b i) (m_out_of X b i) (mb b i) in b\<lparr> mb := (mb b)(i := m), n_fail := n_fail b + n \<rparr>)"

definition step_masters_observe :: "'d xbar_dut \<Rightarrow> 'd xbar_bench \<Rightarrow> 'd xbar_bench" where
  "step_masters_observe X b = note_r X 2 (note_r X 1 (note_r X 0 (note_b X 3 (note_b X 1 (note_b X 0 b)))))"

definition xbar_tick :: "'d xbar_dut \<Rightarrow> 'd xbar_bench \<Rightarrow> 'd xbar_bench option" where
  "xbar_tick X b =
     (let b = settle X ((settle X (b\<lparr> xb_clk := False \<rparr>))\<lparr> xb_clk := True \<rparr>); b = b\<lparr> xb_time := xb_time b + 1 \<rparr> in
      if xo_finish (xb_outputs X (xb_dut b)) then None else Some b)"

definition xbar_cycle :: "'d xbar_dut \<Rightarrow> 'd xbar_bench \<Rightarrow> 'd xbar_bench option" where
  "xbar_cycle X b =
     xbar_tick X (step_masters_observe X (settle X
       (step_slave_s4 X (step_slave_s3 X (step_slave_s2 X (step_slave_s1 X (step_slave_s0 X b)))))))"

fun xbar_cycles :: "'d xbar_dut \<Rightarrow> nat \<Rightarrow> 'd xbar_bench \<Rightarrow> 'd xbar_bench option" where
  "xbar_cycles X 0 b = Some b"
| "xbar_cycles X (Suc n) b = (case xbar_cycle X b of None \<Rightarrow> None | Some b \<Rightarrow> xbar_cycles X n b)"

definition idle_all_masters :: "'d xbar_bench \<Rightarrow> 'd xbar_bench" where
  "idle_all_masters b =
     b\<lparr> m_pins := (m_pins b)(0 := idle_reads (idle_writes (m_pins b 0)), 1 := idle_reads (idle_writes (m_pins b 1)),
          2 := idle_reads (m_pins b 2), 3 := idle_writes (m_pins b 3)),
        ctl := (ctl b)\<lparr> cpu_held_in_reset := False \<rparr> \<rparr>"

definition quiet_slave :: "sl_in" where
  "quiet_slave = \<lparr> x_awready = False, x_wready = False, x_bvalid = False, x_bid = 0, x_bresp = 0, x_arready = False, x_rvalid = False,
     x_rid = 0, x_rresp = 0, x_rlast = False, x_rdata = zero128 \<rparr>"

definition clock_pulse_xbar :: "'d xbar_dut \<Rightarrow> 'd xbar_bench \<Rightarrow> 'd xbar_bench" where
  "clock_pulse_xbar X b = settle X ((settle X (b\<lparr> xb_clk := False \<rparr>))\<lparr> xb_clk := True \<rparr>)"

definition xbar_reset :: "'d xbar_dut \<Rightarrow> 'd xbar_bench \<Rightarrow> 'd xbar_bench option" where
  "xbar_reset X b =
     (let b = idle_all_masters b;
          b = b\<lparr> ctl := (ctl b)\<lparr> cpu_overlay_active := False, cpu_overlay_reset := False, slv_flush := False, s1_far_reset := False,
                    m0b_master_reset := False, dbg_ram_window_lg2 := 26, xb_rst := True \<rparr>,
                 ports := (\<lambda>n. if n < 5 then (ports b n)\<lparr> sp_pin := quiet_slave \<rparr> else ports b n) \<rparr>;
          b = (clock_pulse_xbar X ^^ 4) b in
      xbar_tick X (b\<lparr> ctl := (ctl b)\<lparr> xb_rst := False, cpu_overlay_reset := False \<rparr> \<rparr>))"

section \<open>Blocking issue\<close>

definition set_cpu_held_in_reset :: "'d xbar_dut \<Rightarrow> bool \<Rightarrow> 'd xbar_bench \<Rightarrow> 'd xbar_bench option" where
  "set_cpu_held_in_reset X held b = xbar_cycles X 4 (b\<lparr> ctl := (ctl b)\<lparr> cpu_held_in_reset := held \<rparr> \<rparr>)"

definition master_pins :: "nat \<Rightarrow> (xm_in \<Rightarrow> xm_in) \<Rightarrow> 'd xbar_bench \<Rightarrow> 'd xbar_bench" where
  "master_pins i f b = b\<lparr> m_pins := (m_pins b)(i := f (m_pins b i)) \<rparr>"

fun present :: "'d xbar_dut \<Rightarrow> (xm_out \<Rightarrow> bool) \<Rightarrow> nat \<Rightarrow> nat \<Rightarrow> 'd xbar_bench \<Rightarrow> 'd xbar_bench option" where
  "present X ready i 0 b = Some b"
| "present X ready i (Suc n) b =
     (let b = settle X b in
      if ready (m_out_of X b i) then xbar_cycle X b
      else case xbar_cycle X b of None \<Rightarrow> None | Some b \<Rightarrow> present X ready i n b)"

fun send_beats :: "'d xbar_dut \<Rightarrow> nat \<Rightarrow> u16 \<Rightarrow> word128 list \<Rightarrow> 'd xbar_bench \<Rightarrow> 'd xbar_bench option" where
  "send_beats X i wstrb [] b = Some b"
| "send_beats X i wstrb (d # ds) b =
     (case present X xm_wready i 500 (master_pins i (\<lambda>p. p\<lparr> xm_wdata := d, xm_wstrb := wstrb, xm_wlast := (ds = []), xm_wvalid := True \<rparr>) b) of
        None \<Rightarrow> None | Some b \<Rightarrow> send_beats X i wstrb ds b)"

text \<open>Masters 0 and 1; the boot pins follow the same steps.\<close>

definition xbar_issue_write ::
  "'d xbar_dut \<Rightarrow> nat \<Rightarrow> u32 \<Rightarrow> u32 \<Rightarrow> u8 \<Rightarrow> u8 \<Rightarrow> word128 list \<Rightarrow> u32 \<Rightarrow> u16 \<Rightarrow> 'd xbar_bench \<Rightarrow> 'd xbar_bench option" where
  "xbar_issue_write X i id' addr len sz beats expect_bresp wstrb b =
     (let b = b\<lparr> mb := (mb b)(i := (mb b i)\<lparr> w_expect := w_expect (mb b i) @ [(id', expect_bresp)] \<rparr>) \<rparr>;
          b = master_pins i (\<lambda>p. p\<lparr> xm_awid := id', xm_awaddr := addr, xm_awlen := len, xm_awsize := sz, xm_awburst := 1, xm_awvalid := True \<rparr>) b in
      case present X xm_awready i 500 b of
        None \<Rightarrow> None
      | Some b \<Rightarrow>
          (case send_beats X i wstrb beats (master_pins i (\<lambda>p. p\<lparr> xm_awvalid := False \<rparr>) b) of
             None \<Rightarrow> None
           | Some b \<Rightarrow> xbar_cycles X 100 (master_pins i (\<lambda>p. p\<lparr> xm_wvalid := False, xm_wlast := False \<rparr>) b)))"

definition issue_write_boot ::
  "'d xbar_dut \<Rightarrow> u32 \<Rightarrow> u32 \<Rightarrow> u8 \<Rightarrow> u8 \<Rightarrow> word128 list \<Rightarrow> u32 \<Rightarrow> u16 \<Rightarrow> 'd xbar_bench \<Rightarrow> 'd xbar_bench option" where
  "issue_write_boot X = xbar_issue_write X 3"

definition xbar_issue_read ::
  "'d xbar_dut \<Rightarrow> nat \<Rightarrow> u32 \<Rightarrow> u32 \<Rightarrow> u8 \<Rightarrow> u8 \<Rightarrow> u32 \<Rightarrow> 'd xbar_bench \<Rightarrow> 'd xbar_bench option" where
  "xbar_issue_read X i id' addr len sz expect_rresp b =
     (let b = b\<lparr> mb := (mb b)(i := (mb b i)\<lparr> r_expect := r_expect (mb b i) @ [(id', expect_rresp)] \<rparr>) \<rparr>;
          b = master_pins i (\<lambda>p. p\<lparr> xm_arid := id', xm_araddr := addr, xm_arlen := len, xm_arsize := sz, xm_arburst := 1, xm_arvalid := True \<rparr>) b in
      case present X xm_arready i 500 b of
        None \<Rightarrow> None
      | Some b \<Rightarrow> xbar_cycles X 400 (master_pins i (\<lambda>p. p\<lparr> xm_arvalid := False \<rparr>) b))"

end
