(* ===== verification/Xbar_Memory_Props.thy ===== *)
theory Xbar_Memory_Props
  imports Xbar_Bench
begin

unbundle bit_operations_syntax

text \<open>
  The slave memories of the crossbar bench byte by byte: a masked write changes exactly the byte lanes whose strobe bit is set, in the
  line its address falls in, and with all strobes set the line reads back as written.
\<close>

section \<open>Byte lanes\<close>

definition lane :: "word128 \<Rightarrow> nat \<Rightarrow> u32" where
  "lane w j = drop_bit (j mod 4 * 8) (w ! (j div 4)) AND 0xFF"


lemma byte_is_mask: "(0xFF :: u32) = mask 8"
  by (simp add: mask_eq_exp_minus_1)

lemma bit_lane: "bit (lane w j) n \<longleftrightarrow> n < 8 \<and> bit (w ! (j div 4)) (j mod 4 * 8 + n)"
  unfolding lane_def byte_is_mask by (auto simp: bit_and_iff bit_drop_bit_eq bit_mask_iff)

lemma bit_set_lane:
  assumes "length w = 4" "i < 16" "k < 4"
  shows "bit (set_lane i v w ! k) n \<longleftrightarrow>
    (if k = i div 4 then n < 32 \<and> ((bit (w ! k) n \<and> \<not> (i mod 4 * 8 \<le> n \<and> n < i mod 4 * 8 + 8)) \<or> (i mod 4 * 8 \<le> n \<and> bit v (n - i mod 4 * 8)))
     else bit (w ! k) n)"
  using assms unfolding set_lane_def Let_def byte_is_mask
  by (auto simp: nth_list_update bit_or_iff bit_and_iff bit_not_iff bit_push_bit_iff bit_mask_iff dest: bit_imp_le_length)

lemma length_set_lane [simp]: "length (set_lane i v w) = length w"
  by (simp add: set_lane_def Let_def)

lemma length_merge_lane [simp]: "length (merge_lane d strb i w) = length w"
  by (simp add: merge_lane_def)

lemma lane_disjoint:
  assumes "i div 4 = j div 4" "i \<noteq> (j :: nat)" "n < 8"
  shows "\<not> (i mod 4 * 8 \<le> j mod 4 * 8 + n \<and> j mod 4 * 8 + n < i mod 4 * 8 + 8)"
proof -
  have "i mod 4 \<noteq> j mod 4" using assms(1, 2) by (metis div_mult_mod_eq)
  then show ?thesis using assms(3) by linarith
qed

lemma lane_set_lane:
  assumes "length w = 4" "i < 16" "j < 16"
  shows "lane (set_lane i (v AND 0xFF) w) j = (if i = j then v AND 0xFF else lane w j)"
proof (rule bit_eqI)
  fix n
  have j: "j div 4 < 4" "j mod 4 * 8 \<le> 24" using assms(3) by linarith+
  have v: "bit (v AND 0xFF) k \<longleftrightarrow> bit v k \<and> k < 8" for k
    unfolding byte_is_mask by (auto simp: bit_and_iff bit_mask_iff dest: bit_imp_le_length)
  note s = bit_set_lane [OF assms(1, 2) j(1), of "v AND 0xFF" "j mod 4 * 8 + n"]
  show "bit (lane (set_lane i (v AND 0xFF) w) j) n = bit (if i = j then v AND 0xFF else lane w j) n"
  proof (cases "n < 8")
    case n: True
    then have m: "j mod 4 * 8 + n < 32" using j(2) by linarith
    show ?thesis
    proof (cases "i = j")
      case True
      with n m show ?thesis unfolding bit_lane s v by (simp add: v)
    next
      case False
      have "bit (set_lane i (v AND 0xFF) w ! (j div 4)) (j mod 4 * 8 + n) = bit (w ! (j div 4)) (j mod 4 * 8 + n)"
      proof (cases "j div 4 = i div 4")
        case True
        note d = lane_disjoint [OF True [symmetric] False n]
        then have "\<not> (i mod 4 * 8 \<le> j mod 4 * 8 + n \<and> j mod 4 * 8 + n - i mod 4 * 8 < 8)" by linarith
        with d m show ?thesis unfolding s v by metis
      qed (unfold s, simp)
      with False show ?thesis by (simp only: bit_lane if_False)
    qed
  qed (simp add: bit_lane v)
qed

lemma lane_merge_lane:
  "\<lbrakk>length w = 4; i < 16; j < 16\<rbrakk> \<Longrightarrow> lane (merge_lane d strb i w) j = (if i = j \<and> bit strb i then lane d i else lane w j)"
  by (simp add: merge_lane_def lane_set_lane) (simp add: lane_def)

lemma lane_merge_lanes:
  "\<lbrakk>length w = 4; set xs \<subseteq> {..<16}; j < 16; distinct xs\<rbrakk> \<Longrightarrow>
   lane (fold (merge_lane d strb) xs w) j = (if j \<in> set xs \<and> bit strb j then lane d j else lane w j)"
  by (induction xs arbitrary: w) (auto simp: lane_merge_lane)

lemma length_merge_lanes [simp]: "length (fold (merge_lane d strb) xs w) = length w"
  by (induction xs arbitrary: w) auto

lemma bit_of_lane: "n < 32 \<Longrightarrow> bit (w ! k) n = bit (lane w (4 * k + n div 8)) (n mod 8)"
proof -
  assume "n < 32"
  then have "n div 8 < 4" by simp
  then have "(4 * k + n div 8) div 4 = k" "(4 * k + n div 8) mod 4 * 8 + n mod 8 = n" by simp_all
  then show ?thesis by (simp only: bit_lane) simp
qed

lemma word128_eqI:
  assumes "length v = 4" "length w = 4" "\<And>j. j < 16 \<Longrightarrow> lane v j = lane w j"
  shows "v = w"
proof (rule nth_equalityI)
  fix k assume "k < length v"
  then have k: "k < 4" using assms(1) by simp
  show "v ! k = w ! k"
  proof (rule bit_word_eqI)
    fix n assume "n < LENGTH(32)"
    moreover from this have "n div 8 < 4" by simp
    with k have "4 * k + n div 8 < 16" by linarith
    ultimately show "bit (v ! k) n = bit (w ! k) n" using assms(3) by (simp add: bit_of_lane)
  qed
qed (simp add: assms)

section \<open>Slave memories\<close>

definition mem_ok :: "slave_mem \<Rightarrow> bool" where
  "mem_ok m \<longleftrightarrow> (\<forall>a w. m a = Some w \<longrightarrow> length w = 4)"

lemma length_mem_read: "mem_ok m \<Longrightarrow> length (mem_read m a) = 4"
  by (auto simp: mem_ok_def mem_read_def zero128_def split: option.splits)

lemma mem_ok_write_masked: "mem_ok m \<Longrightarrow> mem_ok (write_masked a d strb m)"
  using length_mem_read [of m a] by (auto simp: mem_ok_def write_masked_def)

lemma mem_read_write_masked:
  "mem_read (write_masked a d strb m) a' =
     (if a AND NOT 0xF = a' AND NOT 0xF then fold (merge_lane d strb) [0..<16] (mem_read m a) else mem_read m a')"
  by (simp add: write_masked_def mem_read_def)

lemma lane_write_masked:
  assumes "mem_ok m" "j < 16"
  shows "lane (mem_read (write_masked a d strb m) a') j =
     (if a AND NOT 0xF = a' AND NOT 0xF \<and> bit strb j then lane d j else lane (mem_read m a') j)"
proof -
  have "mem_read m a = mem_read m a'" if "a AND NOT 0xF = a' AND NOT 0xF" using that by (simp add: mem_read_def)
  moreover have "lane (fold (merge_lane d strb) [0..<16] (mem_read m a)) j = (if bit strb j then lane d j else lane (mem_read m a) j)"
    using assms length_mem_read [OF assms(1), of a] by (subst lane_merge_lanes) auto
  ultimately show ?thesis by (simp only: mem_read_write_masked split: if_split) simp
qed

lemma write_masked_full:
  assumes "mem_ok m" "length d = 4"
  shows "mem_read (write_masked a d 0xFFFF m) a' = (if a AND NOT 0xF = a' AND NOT 0xF then d else mem_read m a')"
proof -
  have b: "bit (0xFFFF :: u16) j" if "j < 16" for j
  proof -
    have "(0xFFFF :: u16) = mask 16" by (simp add: mask_eq_exp_minus_1)
    then show ?thesis using that by (simp only: bit_mask_iff) simp
  qed
  have "lane (mem_read (write_masked a d 0xFFFF m) a') j = lane (if a AND NOT 0xF = a' AND NOT 0xF then d else mem_read m a') j" if "j < 16" for j
    using b [OF that] by (simp only: lane_write_masked [OF assms(1) that] if_distrib [of "\<lambda>w. lane w j"]) simp
  then show ?thesis
    using assms length_mem_read [OF assms(1)] length_mem_read [OF mem_ok_write_masked [OF assms(1)]] by (intro word128_eqI) auto
qed

section \<open>Lines\<close>

lemma and_split: "(x AND NOT y) + (x AND y) = (x :: u32)"
proof -
  have "(x AND NOT y) + (x AND y) = (x AND NOT y) OR (x AND y)"
    by (rule disjunctive_add) (auto simp: bit_and_iff bit_not_iff)
  also have "\<dots> = x" by (rule bit_word_eqI) (auto simp: bit_and_iff bit_not_iff bit_or_iff)
  finally show ?thesis .
qed

lemma low_nibble: "(a + 16 * k) AND 0xF = a AND (0xF :: u32)"
proof -
  have m: "x AND 0xF = x mod 16" for x :: u32
    using take_bit_eq_mask [of 4 x] take_bit_eq_mod [of 4 x] by (simp add: mask_eq_exp_minus_1)
  have "uint ((a + 16 * k) mod 16) = uint (a mod 16)"
    by (simp add: uint_mod uint_word_ariths mod_mod_cancel mod_simps)
  then show ?thesis unfolding m by (rule word_uint_eqI)
qed

lemma other_line:
  assumes "(a + 16 * of_nat k) AND NOT 0xF = a AND NOT (0xF :: u32)" "k < 2 ^ 28"
  shows "k = 0"
proof -
  have "a + 16 * of_nat k = a" using assms(1) and_split [of "a + 16 * of_nat k" "0xF"] and_split [of a "0xF"] low_nibble [of a "of_nat k"] by metis
  then have "of_nat (16 * k) = (0 :: u32)" by simp
  then have "16 * k = 0" using assms(2) by (simp only: word_of_nat_eq_0_iff) (auto dest: dvd_imp_le)
  then show ?thesis by simp
qed
end
