(* ===== verification/Xbar_Bench_Props.thy ===== *)
theory Xbar_Bench_Props
  imports Xbar_Memory_Props Burst_Service
begin

unbundle bit_operations_syntax

text \<open>
  The slaves and scoreboards of the crossbar bench, judged by what their pins show.  The response, write and
  read channels of a slave meet the contract \<open>burst_server\<close>; the queued read channel of slave 3 always meets \<open>burst_bag\<close>, and
  \<open>burst_server\<close> as long as the scenario keeps it first in, first out.
\<close>

section \<open>What the pins of a slave show\<close>

text \<open>One cycle as the pins show it: bursts opened, beats handed over and responses.\<close>

definition aw_seen :: "slave_input \<Rightarrow> slave_port \<Rightarrow> (u32 \<times> u32 \<times> nat) list" where
  "aw_seen i s =
     (let q = snd i in
      if x_awvalid q \<and> x_awready (sp_pin (slave_step i s)) then [(x_awid q, x_awaddr q, unat (x_awlen q) + 1)] else [])"

definition w_seen :: "slave_input \<Rightarrow> slave_port \<Rightarrow> (word128 \<times> u16) list" where
  "w_seen i s =
     (let q = snd i in if x_wvalid q \<and> x_wready (sp_pin (slave_step i s)) then [(x_wdata q, x_wstrb q)] else [])"

definition b_seen :: "slave_input \<Rightarrow> slave_port \<Rightarrow> u32 list" where
  "b_seen i s = (let q = snd i; p = sp_pin (slave_step i s) in if x_bvalid p \<and> x_bready q then [x_bid p] else [])"

definition ar_seen :: "slave_input \<Rightarrow> slave_port \<Rightarrow> (u32 \<times> u32 \<times> nat) list" where
  "ar_seen i s =
     (let q = snd i in
      if x_arvalid q \<and> x_arready (sp_pin (slave_step i s)) then [(x_arid q, x_araddr q, unat (x_arlen q) + 1)] else [])"

definition r_seen :: "slave_input \<Rightarrow> slave_port \<Rightarrow> (u32 \<times> word128 \<times> bool) list" where
  "r_seen i s =
     (let q = snd i; p = sp_pin (slave_step i s) in if x_rvalid p \<and> x_rready q then [(x_rid p, x_rdata p, x_rlast p)] else [])"

lemmas read_defs = read_step_def r_channel_def ar_channel_def on_pin_def on_bfm_def capture_ar_def next_beat_def Let_def

lemmas write_defs = write_step_def b_channel_def w_channel_def w_open_def store_beat_def close_burst_def aw_channel_def capture_aw_def
  on_pin_def on_bfm_def Let_def

lemma read_step_keeps [simp]:
  "sp_mem (read_step i s) = sp_mem s"
  "aw_busy (sp_bfm (read_step i s)) = aw_busy (sp_bfm s)" "aw_id (sp_bfm (read_step i s)) = aw_id (sp_bfm s)"
  "b_pending (sp_bfm (read_step i s)) = b_pending (sp_bfm s)" "b_id (sp_bfm (read_step i s)) = b_id (sp_bfm s)"
  "w_cur_addr (sp_bfm (read_step i s)) = w_cur_addr (sp_bfm s)" "w_beats_left (sp_bfm (read_step i s)) = w_beats_left (sp_bfm s)"
  "x_awready (sp_pin (read_step i s)) = x_awready (sp_pin s)" "x_wready (sp_pin (read_step i s)) = x_wready (sp_pin s)"
  "x_bvalid (sp_pin (read_step i s)) = x_bvalid (sp_pin s)" "x_bid (sp_pin (read_step i s)) = x_bid (sp_pin s)"
  by (simp_all add: read_defs split: prod.splits)

lemma write_step_keeps [simp]:
  "ar_busy (sp_bfm (write_step i s)) = ar_busy (sp_bfm s)" "ar_id (sp_bfm (write_step i s)) = ar_id (sp_bfm s)"
  "ar_addr (sp_bfm (write_step i s)) = ar_addr (sp_bfm s)" "r_beats_left (sp_bfm (write_step i s)) = r_beats_left (sp_bfm s)"
  by (simp_all add: write_defs split: prod.splits)

section \<open>Writes of one slave\<close>

fun burst_addrs :: "u32 \<Rightarrow> nat \<Rightarrow> u32 list" where
  "burst_addrs a 0 = []"
| "burst_addrs a (Suc n) = a # burst_addrs (a + 16) n"

definition all_addrs :: "(u32 \<times> u32 \<times> nat) list \<Rightarrow> u32 list" where
  "all_addrs aws = concat (map (\<lambda>(_, a, n). burst_addrs a n) aws)"

definition put_beats :: "u32 list \<Rightarrow> (word128 \<times> u16) list \<Rightarrow> slave_mem \<Rightarrow> slave_mem" where
  "put_beats as ws m = fold (\<lambda>(a, d, strb). write_masked a d strb) (zip as ws) m"

definition unanswered :: "slave_port \<Rightarrow> u32 list" where
  "unanswered s = (let b = sp_bfm s in (if b_pending b then [b_id b] else []) @ (if aw_busy b then [aw_id b] else []))"

definition open_addrs :: "slave_port \<Rightarrow> u32 list" where
  "open_addrs s = (let b = sp_bfm s in if aw_busy b then burst_addrs (w_cur_addr b) (w_beats_left b) else [])"

definition write_ok :: "slave_port \<Rightarrow> bool" where
  "write_ok s \<longleftrightarrow> (aw_busy (sp_bfm s) \<longrightarrow> 0 < w_beats_left (sp_bfm s))"

definition w_addr :: "slave_input \<Rightarrow> slave_port \<Rightarrow> u32 list" where
  "w_addr i s = take (length (w_seen i s)) (open_addrs s @ all_addrs (aw_seen i s))"

lemma write_seen:
  "aw_seen i s =
     (let q = snd i in
      if x_awvalid q \<and> x_awready (sp_pin (write_step i s)) then [(x_awid q, x_awaddr q, unat (x_awlen q) + 1)] else [])"
  "w_seen i s =
     (let q = snd i in if x_wvalid q \<and> x_wready (sp_pin (write_step i s)) then [(x_wdata q, x_wstrb q)] else [])"
  "b_seen i s = (let q = snd i; p = sp_pin (write_step i s) in if x_bvalid p \<and> x_bready q then [x_bid p] else [])"
  "unanswered (slave_step i s) = unanswered (write_step i s)" "open_addrs (slave_step i s) = open_addrs (write_step i s)"
  "write_ok (slave_step i s) = write_ok (write_step i s)" "sp_mem (slave_step i s) = sp_mem (write_step i s)"
  by (simp_all add: aw_seen_def w_seen_def b_seen_def unanswered_def open_addrs_def write_ok_def slave_step_def Let_def)

lemmas write_views = unanswered_def open_addrs_def write_ok_def all_addrs_def put_beats_def

definition opened :: "bool \<Rightarrow> sl_out \<Rightarrow> slave_port \<Rightarrow> slave_port" where
  "opened st q s = (if st then on_pin (\<lambda>p. p\<lparr> x_awready := False \<rparr>) s else aw_channel q s)"

lemma opened_facts:
  assumes "write_ok s"
  shows "write_ok (opened st q s)" "sp_mem (opened st q s) = sp_mem s"
    "unanswered (opened st q s) = unanswered s @ (if x_awvalid q \<and> x_awready (sp_pin (opened st q s)) then [x_awid q] else [])"
    "open_addrs (opened st q s) =
       open_addrs s @ (if x_awvalid q \<and> x_awready (sp_pin (opened st q s)) then burst_addrs (x_awaddr q) (unat (x_awlen q) + 1) else [])"
  using assms by (simp_all add: opened_def write_views write_defs)

definition beat_taken :: "sl_out \<Rightarrow> slave_port \<Rightarrow> bool" where
  "beat_taken q s \<longleftrightarrow> w_open (sp_bfm s) \<and> x_wvalid q"

lemma w_channel_pins:
  "x_awready (sp_pin (w_channel q s)) = x_awready (sp_pin s)" "x_wvalid q \<and> x_wready (sp_pin (w_channel q s)) \<longleftrightarrow> beat_taken q s"
  by (simp_all add: w_channel_def beat_taken_def store_beat_def on_pin_def Let_def)

lemma w_channel_idle:
  assumes "\<not> beat_taken q s"
  shows "sp_bfm (w_channel q s) = sp_bfm s" "sp_mem (w_channel q s) = sp_mem s"
  using assms by (auto simp: w_channel_def beat_taken_def on_pin_def Let_def)

lemma w_channel_beat:
  assumes "beat_taken q s"
  shows "write_ok (w_channel q s)" "unanswered (w_channel q s) = unanswered s"
    "open_addrs s = w_cur_addr (sp_bfm s) # open_addrs (w_channel q s)"
    "sp_mem (w_channel q s) = write_masked (w_cur_addr (sp_bfm s)) (x_wdata q) (x_wstrb q) (sp_mem s)"
proof -
  obtain n where n: "w_beats_left (sp_bfm s) = Suc n" "aw_busy (sp_bfm s)" "\<not> b_pending (sp_bfm s)"
    using assms by (auto simp: beat_taken_def w_open_def gr0_conv_Suc)
  have e: "w_channel q s = store_beat q (on_pin (\<lambda>p. p\<lparr> x_wready := True \<rparr>) s)"
    using assms by (simp add: w_channel_def beat_taken_def Let_def)
  note d = e store_beat_def close_burst_def on_pin_def Let_def n write_ok_def unanswered_def open_addrs_def
  show "write_ok (w_channel q s)" by (simp add: d)
  show "unanswered (w_channel q s) = unanswered s" by (simp add: d)
  show "open_addrs s = w_cur_addr (sp_bfm s) # open_addrs (w_channel q s)" by (simp add: d)
  show "sp_mem (w_channel q s) = write_masked (w_cur_addr (sp_bfm s)) (x_wdata q) (x_wstrb q) (sp_mem s)" by (simp add: d)
qed

lemma w_channel_facts:
  assumes "write_ok s"
  shows "write_ok (w_channel q s)" "unanswered (w_channel q s) = unanswered s"
    "\<not> beat_taken q s \<Longrightarrow> open_addrs (w_channel q s) = open_addrs s"
proof -
  have "write_ok (w_channel q s) \<and> unanswered (w_channel q s) = unanswered s"
  proof (cases "beat_taken q s")
    case True
    then show ?thesis using w_channel_beat(1, 2) by blast
  next
    case False
    then show ?thesis using assms by (simp add: w_channel_idle write_ok_def unanswered_def)
  qed
  then show "write_ok (w_channel q s)" "unanswered (w_channel q s) = unanswered s" by blast+
qed (simp add: w_channel_idle open_addrs_def)

lemma b_channel_facts:
  "write_ok (b_channel sw q s) = write_ok s" "open_addrs (b_channel sw q s) = open_addrs s" "sp_mem (b_channel sw q s) = sp_mem s"
  "x_awready (sp_pin (b_channel sw q s)) = x_awready (sp_pin s)" "x_wready (sp_pin (b_channel sw q s)) = x_wready (sp_pin s)"
  "(if x_bvalid (sp_pin (b_channel sw q s)) \<and> x_bready q then [x_bid (sp_pin (b_channel sw q s))] else []) @ unanswered (b_channel sw q s) = unanswered s"
  by (simp_all add: write_views write_defs)

lemma write_step_facts:
  assumes "write_ok s"
  shows "write_ok (slave_step i s)"
    and "b_seen i s @ unanswered (slave_step i s) = unanswered s @ map fst (aw_seen i s)"
    and "w_addr i s @ open_addrs (slave_step i s) = open_addrs s @ all_addrs (aw_seen i s)"
    and "sp_mem (slave_step i s) = put_beats (w_addr i s) (w_seen i s) (sp_mem s)"
    and "length (w_addr i s) = length (w_seen i s)"
proof -
  obtain st sw sa wd q where i: "i = ((st, sw, sa, wd), q)" by (metis surj_pair)
  note o = opened_facts [OF assms, of st q]
  note w = w_channel_facts [OF o(1), of q]
  have stp: "write_step ((st, sw, sa, wd), q) s = b_channel sw q (w_channel q (opened st q s))" by (simp add: write_step_def opened_def)
  have aw: "aw_seen i s = (if x_awvalid q \<and> x_awready (sp_pin (opened st q s)) then [(x_awid q, x_awaddr q, unat (x_awlen q) + 1)] else [])"
    by (simp only: write_seen stp b_channel_facts w_channel_pins Let_def i snd_conv)
  have ws: "w_seen i s = (if beat_taken q (opened st q s) then [(x_wdata q, x_wstrb q)] else [])"
    by (simp only: write_seen stp b_channel_facts w_channel_pins Let_def i snd_conv)
  have oa: "open_addrs s @ all_addrs (aw_seen i s) = open_addrs (opened st q s)"
    unfolding o(4) aw all_addrs_def by simp
  show "write_ok (slave_step i s)" using w(1) by (simp only: write_seen i stp b_channel_facts)
  show "b_seen i s @ unanswered (slave_step i s) = unanswered s @ map fst (aw_seen i s)"
    using b_channel_facts(6) [of sw q "w_channel q (opened st q s)"]
    unfolding aw unfolding write_seen(3, 4) i stp w(2) o(3) Let_def snd_conv by simp
  show "w_addr i s @ open_addrs (slave_step i s) = open_addrs s @ all_addrs (aw_seen i s)"
    using w(3) w_channel_beat(3) unfolding w_addr_def oa unfolding ws write_seen(5) unfolding i stp b_channel_facts by simp
  show "sp_mem (slave_step i s) = put_beats (w_addr i s) (w_seen i s) (sp_mem s)"
    using w_channel_beat(3, 4) w_channel_idle(2) o(2)
    unfolding w_addr_def oa unfolding ws write_seen(7) unfolding i stp b_channel_facts put_beats_def by simp
  show "length (w_addr i s) = length (w_seen i s)"
    using w_channel_beat(3) unfolding w_addr_def oa unfolding ws by simp
qed

interpretation answers: burst_server slave_step unanswered "\<lambda>i s. map fst (aw_seen i s)" b_seen write_ok "\<lambda>_. True"
  by unfold_locales (simp_all add: write_step_facts)

interpretation beats: burst_server slave_step open_addrs "\<lambda>i s. all_addrs (aw_seen i s)" w_addr write_ok "\<lambda>_. True"
  by unfold_locales (simp_all add: write_step_facts)

lemma put_beats_append: "length as = length ws \<Longrightarrow> put_beats (as @ bs) (ws @ vs) m = put_beats bs vs (put_beats as ws m)"
  by (simp add: put_beats_def)

lemma zip_take_length: "zip (take (length ws) as) ws = zip as ws"
  by (induction ws arbitrary: as) (simp, case_tac as, simp_all)

lemma put_beats_take: "put_beats (take (length ws) as) ws m = put_beats as ws m"
  by (simp add: put_beats_def zip_take_length)

lemma write_run_memory:
  "write_ok s \<Longrightarrow>
   sp_mem (fold slave_step is s) = put_beats (gather slave_step w_addr is s) (gather slave_step w_seen is s) (sp_mem s) \<and>
   length (gather slave_step w_addr is s) = length (gather slave_step w_seen is s)"
  by (induction "is" arbitrary: s) (simp_all add: write_step_facts put_beats_append, simp add: put_beats_def)

section \<open>Reads of one slave\<close>

fun read_beats :: "u32 \<Rightarrow> u32 \<Rightarrow> nat \<Rightarrow> (u32 \<times> u32 \<times> bool) list" where
  "read_beats i a 0 = []"
| "read_beats i a (Suc n) = (i, a, n = 0) # read_beats i (a + 16) n"

definition all_beats :: "(u32 \<times> u32 \<times> nat) list \<Rightarrow> (u32 \<times> u32 \<times> bool) list" where
  "all_beats ars = concat (map (\<lambda>(i, a, n). read_beats i a n) ars)"

definition read_owed :: "slave_port \<Rightarrow> (u32 \<times> u32 \<times> bool) list" where
  "read_owed s = (let b = sp_bfm s in if ar_busy b then read_beats (ar_id b) (ar_addr b) (r_beats_left b) else [])"

definition fetched :: "slave_mem \<Rightarrow> u32 \<times> u32 \<times> bool \<Rightarrow> u32 \<times> word128 \<times> bool" where
  "fetched m x = (case x of (i, a, l) \<Rightarrow> (i, mem_read m a, l))"

definition r_beat :: "slave_input \<Rightarrow> slave_port \<Rightarrow> (u32 \<times> u32 \<times> bool) list" where
  "r_beat i s = take (length (r_seen i s)) (read_owed s @ all_beats (ar_seen i s))"

lemma read_owed_write [simp]: "read_owed (write_step i s) = read_owed s"
  by (simp add: read_owed_def Let_def)

lemma read_seen:
  "ar_seen i s =
     (let q = snd i in
      if x_arvalid q \<and> x_arready (sp_pin (read_step i (write_step i s))) then [(x_arid q, x_araddr q, unat (x_arlen q) + 1)] else [])"
  "r_seen i s =
     (let q = snd i; p = sp_pin (read_step i (write_step i s)) in
      if x_rvalid p \<and> x_rready q then [(x_rid p, x_rdata p, x_rlast p)] else [])"
  "read_owed (slave_step i s) = read_owed (read_step i (write_step i s))" "sp_mem (slave_step i s) = sp_mem (write_step i s)"
  by (simp_all add: ar_seen_def r_seen_def slave_step_def Let_def)

lemma read_step_serves:
  "r_beat i s @ read_owed (slave_step i s) = read_owed s @ all_beats (ar_seen i s)"
  "r_seen i s = map (fetched (sp_mem (slave_step i s))) (r_beat i s)"
proof -
  obtain st sb sw wd q where i: "i = ((st, sb, sw, wd), q)" by (metis surj_pair)
  define w where "w = write_step i s"
  then have o: "read_owed s = read_owed w" by simp
  note d = i read_owed_def all_beats_def fetched_def read_defs
  show "r_beat i s @ read_owed (slave_step i s) = read_owed s @ all_beats (ar_seen i s)"
    unfolding r_beat_def read_seen w_def [symmetric] o
    by (cases "ar_busy (sp_bfm w)"; cases "r_beats_left (sp_bfm w)"; cases "x_arvalid q"; cases sw; cases wd; cases "x_rready q")
       (simp_all add: d)
  show "r_seen i s = map (fetched (sp_mem (slave_step i s))) (r_beat i s)"
    unfolding r_beat_def read_seen w_def [symmetric] o
    by (cases "ar_busy (sp_bfm w)"; cases "r_beats_left (sp_bfm w)"; cases "x_arvalid q"; cases sw; cases wd; cases "x_rready q")
       (simp_all add: d)
qed

interpretation reads: burst_server slave_step read_owed "\<lambda>i s. all_beats (ar_seen i s)" r_beat "\<lambda>_. True" "\<lambda>_. True"
  by unfold_locales (simp_all add: read_step_serves)

lemma quiet_memory: "\<not> x_wvalid (snd i) \<Longrightarrow> sp_mem (slave_step i s) = sp_mem s"
  by (cases i) (simp add: slave_step_def write_defs split: prod.splits)

lemma quiet_reads:
  "\<forall>i\<in>set is. \<not> x_wvalid (snd i) \<Longrightarrow> gather slave_step r_seen is s = map (fetched (sp_mem s)) (gather slave_step r_beat is s)"
  by (induction "is" arbitrary: s) (simp_all add: quiet_memory read_step_serves(2))

section \<open>Queued reads of slave 3\<close>

fun burst_beats :: "slave_mem \<Rightarrow> u32 \<Rightarrow> u32 \<Rightarrow> nat \<Rightarrow> (u32 \<times> word128 \<times> bool) list" where
  "burst_beats m i a 0 = []"
| "burst_beats m i a (Suc n) = (i, mem_read m a, n = 0) # burst_beats m i (a + 16) n"

definition entry_beats :: "slave_mem \<Rightarrow> ar_entry \<Rightarrow> (u32 \<times> word128 \<times> bool) list" where
  "entry_beats m e = burst_beats m (ae_id e) (ae_addr e) (unat (ae_len e) + 1)"

definition queue_owed :: "slave_mem \<Rightarrow> s3_queue \<Rightarrow> (u32 \<times> word128 \<times> bool) list" where
  "queue_owed m z =
     (if s3_r_cur_busy z then burst_beats m (ae_id (s3_r_cur z)) (s3_r_cur_addr z) (s3_r_cur_left z) else []) @
     concat (map (entry_beats m) (s3_ar_q z))"

text \<open>A scenario may hold or release delivery and change the order before every cycle.\<close>

definition queue_step :: "bool \<times> bool \<times> sl_out \<Rightarrow> slave_port \<times> s3_queue \<Rightarrow> slave_port \<times> s3_queue" where
  "queue_step i c =
     (case i of (hold, lifo, q) \<Rightarrow>
        let z = (snd c)\<lparr> s3_r_hold := hold, s3_r_lifo := lifo \<rparr> in (s3_drive (s3_room z) (s3_select z) (fst c), s3_queue_step q z))"

definition queue_ar_seen :: "bool \<times> bool \<times> sl_out \<Rightarrow> slave_port \<times> s3_queue \<Rightarrow> ar_entry list" where
  "queue_ar_seen i c =
     (let q = snd (snd i); p = sp_pin (fst (queue_step i c)) in
      if x_arvalid q \<and> x_arready p then [\<lparr> ae_id = x_arid q, ae_addr = x_araddr q, ae_len = x_arlen q \<rparr>] else [])"

definition queue_r_seen :: "bool \<times> bool \<times> sl_out \<Rightarrow> slave_port \<times> s3_queue \<Rightarrow> (u32 \<times> word128 \<times> bool) list" where
  "queue_r_seen i c =
     (let q = snd (snd i); p = sp_pin (fst (queue_step i c)) in
      if x_rvalid p \<and> x_rready q then [(x_rid p, x_rdata p, x_rlast p)] else [])"

definition queue_ok :: "s3_queue \<Rightarrow> bool" where
  "queue_ok z \<longleftrightarrow> (s3_r_cur_busy z \<longrightarrow> 0 < s3_r_cur_left z) \<and> length (s3_ar_q z) + (if s3_r_cur_busy z then 1 else 0) \<le> 4"

lemma select_ok: "queue_ok z \<Longrightarrow> queue_ok (s3_select z)"
  by (cases "s3_ar_q z" rule: rev_cases) (auto simp: queue_ok_def s3_select_def Let_def)

lemma select_room: "s3_room (s3_select z) = s3_room z"
  by (cases "s3_ar_q z" rule: rev_cases) (auto simp: s3_room_def s3_select_def Let_def)

lemma accept_advance_ok: "queue_ok z \<Longrightarrow> queue_ok (s3_advance (s3_driving z) q (s3_accept (s3_room z) q z))"
  by (auto simp: queue_ok_def s3_advance_def s3_accept_def s3_driving_def s3_room_def Let_def)

lemma queue_ok_flags [simp]: "queue_ok (z\<lparr> s3_r_hold := h, s3_r_lifo := l \<rparr>) = queue_ok z"
  by (simp add: queue_ok_def)

lemma queue_owed_flags [simp]: "queue_owed m (z\<lparr> s3_r_hold := h, s3_r_lifo := l \<rparr>) = queue_owed m z"
  by (simp add: queue_owed_def)

lemma select_owed_fifo: "\<not> s3_r_lifo z \<Longrightarrow> queue_owed m (s3_select z) = queue_owed m z"
  by (cases "s3_ar_q z") (auto simp: queue_owed_def s3_select_def Let_def entry_beats_def)

lemma select_owed: "mset (queue_owed m (s3_select z)) = mset (queue_owed m z)"
  by (cases "s3_ar_q z" rule: rev_cases) (auto simp: queue_owed_def s3_select_def Let_def entry_beats_def hd_append tl_append split: list.splits)

lemma queue_step_ok:
  assumes "sp_mem (fst c) = m \<and> queue_ok (snd c)"
  shows "sp_mem (fst (queue_step i c)) = m \<and> queue_ok (snd (queue_step i c))"
proof -
  obtain h l q where i: "i = (h, l, q)" by (cases i) auto
  show ?thesis
    using assms accept_advance_ok [OF select_ok, of "(snd c)\<lparr> s3_r_hold := h, s3_r_lifo := l \<rparr>" q]
    by (simp add: i queue_step_def s3_queue_step_def Let_def select_room s3_drive_def on_pin_def)
qed

definition front_beats :: "slave_port \<Rightarrow> sl_out \<Rightarrow> s3_queue \<Rightarrow> (u32 \<times> word128 \<times> bool) list" where
  "front_beats s q r =
     (if s3_driving r \<and> x_rready q then [(ae_id (s3_r_cur r), mem_read (sp_mem s) (s3_r_cur_addr r), s3_r_cur_left r = 1)] else [])"

definition entered_beats :: "slave_mem \<Rightarrow> sl_out \<Rightarrow> s3_queue \<Rightarrow> (u32 \<times> word128 \<times> bool) list" where
  "entered_beats m q z =
     (if x_arvalid q \<and> s3_room z then burst_beats m (x_arid q) (x_araddr q) (unat (x_arlen q) + 1) else [])"

lemma queue_seen:
  "queue_r_seen (h, l, q) c = front_beats (fst c) q (s3_select ((snd c)\<lparr> s3_r_hold := h, s3_r_lifo := l \<rparr>))"
  "concat (map (entry_beats m) (queue_ar_seen (h, l, q) c)) = entered_beats m q ((snd c)\<lparr> s3_r_hold := h, s3_r_lifo := l \<rparr>)"
  by (simp_all add: queue_r_seen_def queue_ar_seen_def queue_step_def front_beats_def entered_beats_def entry_beats_def s3_drive_def on_pin_def Let_def)

lemma accept_advance_owed:
  assumes "queue_ok r" "sp_mem s = m"
  shows "front_beats s q r @ queue_owed m (s3_advance (s3_driving r) q (s3_accept (s3_room r) q r)) = queue_owed m r @ entered_beats m q r"
proof (cases "s3_driving r \<and> x_rready q")
  case True
  then obtain n where "s3_r_cur_left r = Suc n" "s3_r_cur_busy r"
    using assms(1) by (auto simp: queue_ok_def s3_driving_def gr0_conv_Suc)
  with True assms(2) show ?thesis
    by (auto simp: front_beats_def entered_beats_def queue_owed_def s3_advance_def s3_accept_def entry_beats_def Let_def)
next
  case False
  then show ?thesis
    by (auto simp: front_beats_def entered_beats_def queue_owed_def s3_advance_def s3_accept_def entry_beats_def Let_def)
qed

lemma entered_select: "entered_beats m q (s3_select z) = entered_beats m q z"
  by (simp add: entered_beats_def select_room)

lemma queue_step_owed:
  assumes "sp_mem (fst c) = m \<and> queue_ok (snd c)"
  shows "\<exists>r. mset (queue_owed m r) = mset (queue_owed m (snd c)) \<and> (\<not> fst (snd i) \<longrightarrow> queue_owed m r = queue_owed m (snd c)) \<and>
    queue_r_seen i c @ queue_owed m (snd (queue_step i c)) = queue_owed m r @ concat (map (entry_beats m) (queue_ar_seen i c))"
proof -
  obtain h l q where i: "i = (h, l, q)" by (cases i) auto
  let ?z = "(snd c)\<lparr> s3_r_hold := h, s3_r_lifo := l \<rparr>"
  have "queue_ok (s3_select ?z)" using assms by (intro select_ok) simp
  from accept_advance_owed [OF this, of "fst c" m q] assms
  have "queue_r_seen i c @ queue_owed m (snd (queue_step i c)) = queue_owed m (s3_select ?z) @ concat (map (entry_beats m) (queue_ar_seen i c))"
    by (simp add: i queue_seen entered_select queue_step_def s3_queue_step_def select_room Let_def)
  with select_owed [of m ?z] select_owed_fifo [of ?z m] show ?thesis unfolding i by (intro exI [of _ "s3_select ?z"]) simp
qed

interpretation bag3: burst_bag queue_step "\<lambda>c. queue_owed m (snd c)" "\<lambda>i c. concat (map (entry_beats m) (queue_ar_seen i c))" queue_r_seen
  "\<lambda>c. sp_mem (fst c) = m \<and> queue_ok (snd c)" "\<lambda>_. True" for m
proof unfold_locales
  fix i and c :: "slave_port \<times> s3_queue" assume a: "sp_mem (fst c) = m \<and> queue_ok (snd c)"
  show "sp_mem (fst (queue_step i c)) = m \<and> queue_ok (snd (queue_step i c))" by (rule queue_step_ok [OF a])
  show "mset (queue_r_seen i c) + mset (queue_owed m (snd (queue_step i c))) =
      mset (queue_owed m (snd c)) + mset (concat (map (entry_beats m) (queue_ar_seen i c)))"
    using queue_step_owed [OF a, of i] by (metis mset_append)
qed

text \<open>As long as no scenario asks for the reverse order, the queue is first in, first out.\<close>

interpretation fifo3: burst_server queue_step "\<lambda>c. queue_owed m (snd c)" "\<lambda>i c. concat (map (entry_beats m) (queue_ar_seen i c))"
  queue_r_seen "\<lambda>c. sp_mem (fst c) = m \<and> queue_ok (snd c)" "\<lambda>i. \<not> fst (snd i)" for m
proof unfold_locales
  fix i :: "bool \<times> bool \<times> sl_out" and c :: "slave_port \<times> s3_queue"
  assume a: "sp_mem (fst c) = m \<and> queue_ok (snd c)" "\<not> fst (snd i)"
  show "sp_mem (fst (queue_step i c)) = m \<and> queue_ok (snd (queue_step i c))" by (rule queue_step_ok [OF a(1)])
  show "queue_r_seen i c @ queue_owed m (snd (queue_step i c)) = queue_owed m (snd c) @ concat (map (entry_beats m) (queue_ar_seen i c))"
    using queue_step_owed [OF a(1), of i] a(2) by auto
qed

text \<open>The step of the bench in queued mode is this one, with the outputs of the crossbar settled on the beat just driven.\<close>

lemma step_slave_s3_queue:
  assumes "s3_r_multi (h3 b)"
  shows "h3 (step_slave_s3 X b) = s3_queue_step (s_out_of X (step_slave_s3 X b) 3) (h3 b)"
  using assms by (simp add: step_slave_s3_def with_port_def settle_def s_out_of_def Let_def)

section \<open>Scoreboards\<close>

definition r_taken_at :: "xm_in \<times> xm_out \<Rightarrow> bool" where
  "r_taken_at e = (xm_rvalid (snd e) \<and> xm_rready (fst e))"

definition last_answers :: "(xm_in \<times> xm_out) list \<Rightarrow> (u32 \<times> u32) list" where
  "last_answers es = map (\<lambda>(p, q). (xm_rid q, xm_rresp q)) (filter (\<lambda>e. r_taken_at e \<and> xm_rlast (snd e)) es)"

fun score_reads :: "(xm_in \<times> xm_out) list \<Rightarrow> master_bfm \<times> nat \<Rightarrow> master_bfm \<times> nat" where
  "score_reads [] s = s"
| "score_reads ((p, q) # es) (m, n) = (let (m, k) = observe_r p q m in score_reads es (m, n + k))"

fun cut_bursts :: "(xm_in \<times> xm_out) list \<Rightarrow> word128 list \<Rightarrow> word128 list list \<times> word128 list" where
  "cut_bursts [] cur = ([], cur)"
| "cut_bursts ((p, q) # es) cur =
     (if r_taken_at (p, q) then
        if xm_rlast q then (case cut_bursts es [] of (bs, c) \<Rightarrow> ((cur @ [xm_rdata q]) # bs, c)) else cut_bursts es (cur @ [xm_rdata q])
      else cut_bursts es cur)"

lemma observe_r_other: "\<not> r_taken_at (p, q) \<Longrightarrow> observe_r p q m = (m, 0)"
  by (auto simp: observe_r_def r_taken_at_def)

lemma observe_r_beat:
  "\<lbrakk>r_taken_at (p, q); \<not> xm_rlast q\<rbrakk> \<Longrightarrow>
   observe_r p q m = (m\<lparr> r_cur := r_cur m @ [xm_rdata q], r_cur_resp := r_cur_resp m @ [xm_rresp q] \<rparr>, 0)"
  by (simp add: observe_r_def r_taken_at_def)

lemma observe_r_last:
  assumes "r_taken_at (p, q)" "xm_rlast q" "observe_r p q m = (m', k)"
  shows "r_expect m' = tl (r_expect m)" "r_received m' = r_received m @ [r_cur m @ [xm_rdata q]]" "r_cur m' = []"
    "r_lasts_seen m' = r_lasts_seen m + 1" "r_completed m' + r_errors m' + k = r_completed m + r_errors m + 1"
    "k = (case r_expect m of [] \<Rightarrow> 1 | e # _ \<Rightarrow> if (xm_rid q, xm_rresp q) = e then 0 else 1)"
  using assms by (auto simp: observe_r_def r_taken_at_def check_last_def Let_def split: list.splits if_splits)

lemma score_mono: "n \<le> snd (score_reads es (m, n))"
proof (induction es arbitrary: m n)
  case (Cons e es)
  obtain p q where "e = (p, q)" by (cases e)
  then show ?case using Cons.IH [of "n + snd (observe_r p q m)" "fst (observe_r p q m)"] by (simp add: case_prod_beta)
qed simp

lemma score_shape:
  assumes "score_reads es (m, n) = (m', n')"
  shows "r_received m' = r_received m @ fst (cut_bursts es (r_cur m)) \<and> r_cur m' = snd (cut_bursts es (r_cur m)) \<and>
    r_lasts_seen m' = r_lasts_seen m + length (last_answers es) \<and>
    r_completed m' + r_errors m' + n' = r_completed m + r_errors m + n + length (last_answers es) \<and>
    r_expect m' = drop (length (last_answers es)) (r_expect m)"
  using assms
proof (induction es arbitrary: m n)
  case (Cons e es)
  obtain p q where e: "e = (p, q)" by (cases e)
  obtain mm k where o: "observe_r p q m = (mm, k)" by (cases "observe_r p q m")
  from Cons.prems have "score_reads es (mm, n + k) = (m', n')" by (simp add: e o)
  note IH = Cons.IH [OF this]
  consider "\<not> r_taken_at (p, q)" | "r_taken_at (p, q)" "\<not> xm_rlast q" | "r_taken_at (p, q)" "xm_rlast q" by blast
  then show ?case
  proof cases
    case 1
    with o IH show ?thesis by (simp add: observe_r_other e last_answers_def)
  next
    case 2
    with o IH show ?thesis by (auto simp: observe_r_beat e last_answers_def)
  next
    case 3
    from observe_r_last [OF 3 o] IH 3 show ?thesis
      by (simp add: e last_answers_def drop_Suc split: prod.splits)
  qed
qed (simp add: last_answers_def)

lemma score_exact:
  "snd (score_reads es (m, n)) = n \<longleftrightarrow> (\<exists>rest. r_expect m = last_answers es @ rest)"
proof (induction es arbitrary: m n)
  case (Cons e es)
  obtain p q where e: "e = (p, q)" by (cases e)
  obtain mm k where o: "observe_r p q m = (mm, k)" by (cases "observe_r p q m")
  have s: "score_reads (e # es) (m, n) = score_reads es (mm, n + k)" by (simp add: e o)
  show ?case
  proof (cases "r_taken_at (p, q) \<and> xm_rlast q")
    case True
    note l = observe_r_last [OF conjunct1 [OF True] conjunct2 [OF True] o]
    show ?thesis
    proof (cases "k = 0")
      case k: True
      then obtain es' where "r_expect m = (xm_rid q, xm_rresp q) # es'" using l(6) by (auto split: list.splits if_splits)
      then show ?thesis using Cons.IH [of mm n] s k l(1) True by (simp add: e last_answers_def)
    next
      case k: False
      then have "\<not> (\<exists>rest. r_expect m = last_answers (e # es) @ rest)"
        using l(6) True by (auto simp: e last_answers_def split: list.splits if_splits)
      moreover have "n < snd (score_reads es (mm, n + k))" using score_mono [of "n + k" es mm] k by linarith
      ultimately show ?thesis using s by simp
    qed
  next
    case False
    then have "k = 0" "r_expect mm = r_expect m"
      using o by (cases "r_taken_at (p, q)"; auto simp: observe_r_other observe_r_beat)+
    moreover from False have "last_answers (e # es) = last_answers es" by (auto simp: e last_answers_def)
    ultimately show ?thesis using Cons.IH [of mm n] s by simp
  qed
qed (simp add: last_answers_def)

section \<open>What was written reads back\<close>

lemma burst_addrs_in: "x \<in> set (burst_addrs a n) \<Longrightarrow> \<exists>k<n. x = a + 16 * of_nat k"
proof (induction n arbitrary: a)
  case (Suc n)
  then consider "x = a" | "x \<in> set (burst_addrs (a + 16) n)" by auto
  then show ?case
  proof cases
    case 2
    then obtain k where "k < n" "x = a + 16 + 16 * of_nat k" using Suc.IH by blast
    then show ?thesis by (intro exI [of _ "Suc k"]) (simp add: distrib_left)
  qed (intro exI [of _ 0], simp)
qed simp

lemma length_burst_addrs [simp]: "length (burst_addrs a n) = n"
  by (induction n arbitrary: a) auto

lemma put_beats_elsewhere:
  "\<forall>b\<in>set as. b AND NOT 0xF \<noteq> a AND NOT 0xF \<Longrightarrow> mem_read (put_beats as ws m) a = mem_read m a"
proof (induction as arbitrary: ws m)
  case (Cons b as)
  then show ?case by (cases ws) (auto simp: put_beats_def mem_read_write_masked)
qed (simp add: put_beats_def)

definition whole :: "word128 \<Rightarrow> word128 \<times> u16" where
  "whole d = (d, 0xFFFF)"

fun tagged :: "u32 \<Rightarrow> word128 list \<Rightarrow> (u32 \<times> word128 \<times> bool) list" where
  "tagged i [] = []"
| "tagged i (d # ds) = (i, d, ds = []) # tagged i ds"

lemma burst_reads_back:
  assumes "mem_ok m" "\<forall>d\<in>set ds. length d = 4" "length ds \<le> 256"
  shows "map (fetched (put_beats (burst_addrs a (length ds)) (map whole ds) m)) (read_beats i a (length ds)) = tagged i ds"
  using assms
proof (induction ds arbitrary: a m)
  case (Cons d ds)
  have "b AND NOT 0xF \<noteq> a AND NOT 0xF" if b: "b \<in> set (burst_addrs (a + 16) (length ds))" for b
  proof
    assume eq: "b AND NOT 0xF = a AND NOT 0xF"
    obtain k where "k < length ds" "b = a + 16 * of_nat (Suc k)" using burst_addrs_in [OF b] by (auto simp: distrib_left)
    with other_line [of a "Suc k"] eq Cons.prems(3) show False by simp
  qed
  then have r: "mem_read (put_beats (burst_addrs (a + 16) (length ds)) (map whole ds) (write_masked a d 0xFFFF m)) a = d"
    using Cons.prems write_masked_full [of m d a a] by (simp add: put_beats_elsewhere)
  have "put_beats (burst_addrs a (length (d # ds))) (map whole (d # ds)) m =
      put_beats (burst_addrs (a + 16) (length ds)) (map whole ds) (write_masked a d 0xFFFF m)"
    by (simp add: put_beats_def whole_def)
  with r Cons.IH [OF mem_ok_write_masked, of m "a + 16" a d "0xFFFF"] Cons.prems show ?case
    by (simp add: fetched_def)
qed simp

section \<open>Properties\<close>

text \<open>A slave at rest and three cycles of the crossbar's outputs, for the applications below.\<close>

definition rest_bfm :: slave_bfm where
  "rest_bfm = \<lparr> aw_busy = False, aw_id = 0, aw_addr = 0, aw_len = 0, w_beats_left = 0, w_cur_addr = 0, w_beats_seen = 0,
     w_wlast_errors = 0, w_pad_beats = 0, b_pending = False, b_id = 0, ar_busy = False, ar_id = 0, ar_addr = 0, ar_len = 0,
     r_beats_left = 0, r_beats_delivered = 0, seen_aw_count = (\<lambda>_. 0), seen_ar_count = (\<lambda>_. 0) \<rparr>"

definition rest_port :: slave_port where
  "rest_port = \<lparr> sp_bfm = rest_bfm, sp_mem = Map.empty, sp_pin = quiet_slave \<rparr>"

definition rest_queue :: s3_queue where
  "rest_queue = \<lparr> s3_r_multi = True, s3_r_hold = False, s3_r_lifo = False, s3_ar_q = [], s3_r_cur_busy = False,
     s3_r_cur = \<lparr> ae_id = 0, ae_addr = 0, ae_len = 0 \<rparr>, s3_r_cur_left = 0, s3_r_cur_addr = 0, s3_r_bursts_done = 0 \<rparr>"

definition rest_out :: sl_out where
  "rest_out = \<lparr> x_awvalid = False, x_awid = 0, x_awaddr = 0, x_awlen = 0, x_wvalid = False, x_wdata = zero128, x_wstrb = 0, x_wlast = False,
     x_bready = True, x_arvalid = False, x_arid = 0, x_araddr = 0, x_arlen = 0, x_rready = True \<rparr>"

definition write_out :: sl_out where
  "write_out = rest_out\<lparr> x_awvalid := True, x_awid := 3, x_awaddr := 0x100, x_wvalid := True, x_wdata := [1, 2, 3, 4], x_wstrb := 0xFFFF,
     x_wlast := True \<rparr>"

definition read_out :: sl_out where
  "read_out = rest_out\<lparr> x_arvalid := True, x_arid := 5, x_araddr := 0x100 \<rparr>"

definition no_fault :: "bool \<times> bool \<times> bool \<times> bool" where
  "no_fault = (False, False, False, False)"

lemmas rest_defs = rest_bfm_def rest_port_def rest_queue_def rest_out_def write_out_def read_out_def no_fault_def

text \<open>
  C13 Whatever the crossbar drives and whatever faults are injected (stalled addresses, swallowed responses), the write side of a slave
  serves bursts exactly as its pins show.  The responses handed over, followed by the ones still owed, carry the IDs of the bursts
  opened, in order; the beats taken together with the ones still missing are as many as the bursts announce; and the memory is the old
  one with the k-th beat taken merged, under its strobes, at the k-th address of the bursts, 16 bytes apart.
\<close>

theorem slave_write_bursts:
  assumes "\<not> aw_busy (sp_bfm s)" "\<not> b_pending (sp_bfm s)"
  shows "gather slave_step b_seen is s @ unanswered (fold slave_step is s) = map fst (gather slave_step aw_seen is s) \<and>
    length (gather slave_step w_seen is s) + length (open_addrs (fold slave_step is s)) = length (all_addrs (gather slave_step aw_seen is s)) \<and>
    sp_mem (fold slave_step is s) = put_beats (all_addrs (gather slave_step aw_seen is s)) (gather slave_step w_seen is s) (sp_mem s)"
proof -
  have ok: "write_ok s" and i: "unanswered s = []" "open_addrs s = []"
    using assms by (simp_all add: write_ok_def unanswered_def open_addrs_def)
  note m = write_run_memory [OF ok, of "is"]
  have a: "gather slave_step w_addr is s @ open_addrs (fold slave_step is s) = all_addrs (gather slave_step aw_seen is s)"
    using beats.serve_run [OF ok, of "is"] by (simp add: i all_addrs_def gather_concat)
  then have "take (length (gather slave_step w_seen is s)) (all_addrs (gather slave_step aw_seen is s)) = gather slave_step w_addr is s"
    using m by (metis append_eq_conv_conj)
  with m have "sp_mem (fold slave_step is s) = put_beats (all_addrs (gather slave_step aw_seen is s)) (gather slave_step w_seen is s) (sp_mem s)"
    by (metis put_beats_take)
  moreover have "length (gather slave_step w_seen is s) + length (open_addrs (fold slave_step is s)) =
      length (all_addrs (gather slave_step aw_seen is s))"
    using arg_cong [OF a, of length] m by simp
  moreover have "gather slave_step b_seen is s @ unanswered (fold slave_step is s) = map fst (gather slave_step aw_seen is s)"
    using answers.serve_run [OF ok, of "is"] by (simp add: i gather_map)
  ultimately show ?thesis by blast
qed

lemma slave_write_bursts_witness:
  "\<not> aw_busy (sp_bfm rest_port) \<and> \<not> b_pending (sp_bfm rest_port) \<and>
   gather slave_step aw_seen [(no_fault, write_out), (no_fault, rest_out)] rest_port = [(3, 0x100, 1)] \<and>
   gather slave_step b_seen [(no_fault, write_out), (no_fault, rest_out)] rest_port @
     unanswered (fold slave_step [(no_fault, write_out), (no_fault, rest_out)] rest_port) = [3]"
proof -
  have r: "\<not> aw_busy (sp_bfm rest_port)" "\<not> b_pending (sp_bfm rest_port)" by (simp_all add: rest_defs)
  have a: "gather slave_step aw_seen [(no_fault, write_out), (no_fault, rest_out)] rest_port = [(3, 0x100, 1)]" by code_simp
  from slave_write_bursts [OF r, of "[(no_fault, write_out), (no_fault, rest_out)]"] r a show ?thesis
    by (simp only: a) simp
qed

text \<open>
  C14 Through the pins of one slave, a burst of whole words written and then read back comes back unchanged: same words, same order, the
  ID of the read on every beat and the last mark on the last one only.  Both phases may contain any number of idle, stalled or wedged
  cycles; the only conditions are that the pins show the one write burst with its beats, then the one read burst with no write beat
  alongside, and that the read has been served.
\<close>

theorem slave_round_trip:
  assumes "\<not> aw_busy (sp_bfm s)" "\<not> b_pending (sp_bfm s)" "\<not> ar_busy (sp_bfm (fold slave_step is s))" "mem_ok (sp_mem s)"
    and "\<forall>d\<in>set ds. length d = 4" "length ds \<le> 256"
    and "gather slave_step aw_seen is s = [(wid, a, length ds)]" "gather slave_step w_seen is s = map whole ds"
    and "\<forall>i\<in>set js. \<not> x_wvalid (snd i)" "gather slave_step ar_seen js (fold slave_step is s) = [(rid, a, length ds)]"
    and "read_owed (fold slave_step js (fold slave_step is s)) = []"
  shows "gather slave_step r_seen js (fold slave_step is s) = tagged rid ds"
proof -
  let ?s = "fold slave_step is s"
  have ok: "write_ok s" "open_addrs s = []" using assms(1) by (simp_all add: write_ok_def open_addrs_def)
  note m = write_run_memory [OF ok(1), of "is"]
  have "gather slave_step w_addr is s @ open_addrs ?s = burst_addrs a (length ds)"
    using beats.serve_run [OF ok(1), of "is"] assms(7) by (simp add: ok(2) all_addrs_def gather_concat)
  moreover have "length (gather slave_step w_addr is s) = length ds" using m assms(8) by simp
  ultimately have "gather slave_step w_addr is s = burst_addrs a (length ds)" by (metis append_eq_conv_conj length_burst_addrs take_all_iff order_refl)
  with m assms(8) have mem: "sp_mem ?s = put_beats (burst_addrs a (length ds)) (map whole ds) (sp_mem s)" by simp
  have "gather slave_step r_beat js ?s = read_beats rid a (length ds)"
    using reads.serve_run [of js ?s] assms(3, 10, 11) by (simp add: read_owed_def all_beats_def gather_concat)
  then show ?thesis
    using quiet_reads [OF assms(9), of ?s] burst_reads_back [OF assms(4, 5, 6)] by (simp add: mem)
qed

lemma slave_round_trip_witness:
  "gather slave_step r_seen [(no_fault, read_out), (no_fault, rest_out)] (fold slave_step [(no_fault, write_out)] rest_port) =
     [(5, [1, 2, 3, 4], True)]"
proof -
  let ?js = "[(no_fault, read_out), (no_fault, rest_out)]"
  have r: "\<not> aw_busy (sp_bfm rest_port)" "\<not> b_pending (sp_bfm rest_port)" "mem_ok (sp_mem rest_port)"
    by (simp_all add: rest_defs mem_ok_def)
  have w: "\<not> ar_busy (sp_bfm (fold slave_step [(no_fault, write_out)] rest_port))"
    "gather slave_step aw_seen [(no_fault, write_out)] rest_port = [(3, 0x100, length [[1, 2, 3, 4]])]"
    "gather slave_step w_seen [(no_fault, write_out)] rest_port = map whole [[1, 2, 3, 4]]"
    by code_simp+
  have j: "\<forall>i\<in>set ?js. \<not> x_wvalid (snd i)"
    "gather slave_step ar_seen ?js (fold slave_step [(no_fault, write_out)] rest_port) = [(5, 0x100, length [[1, 2, 3, 4]])]"
    "read_owed (fold slave_step ?js (fold slave_step [(no_fault, write_out)] rest_port)) = []"
    by code_simp+
  show ?thesis using slave_round_trip [OF r(1, 2) w(1) r(3) _ _ w(2, 3) j] by simp
qed

text \<open>
  C15 In queued mode slave 3 never has more than four reads in hand, and whatever the scenario does with holding and reordering, no beat
  is lost or made up: the beats handed over and the ones still owed are together exactly the beats of the bursts accepted, with the
  memory's data.  As long as the reverse order is not asked for, they also come in the order of acceptance.
\<close>

theorem queued_reads_served:
  assumes "s3_r_multi_drained (snd c)"
  shows "let given = gather queue_step queue_r_seen is c; z = snd (fold queue_step is c); m = sp_mem (fst c);
             due = concat (map (entry_beats m) (gather queue_step queue_ar_seen is c)) in
    length (s3_ar_q z) + (if s3_r_cur_busy z then 1 else 0) \<le> 4 \<and>
    mset given + mset (queue_owed m z) = mset due \<and>
    ((\<forall>i\<in>set is. \<not> fst (snd i)) \<longrightarrow> given @ queue_owed m z = due)"
proof -
  have ok: "sp_mem (fst c) = sp_mem (fst c) \<and> queue_ok (snd c)" and e: "queue_owed m (snd c) = []" for m
    using assms by (simp_all add: s3_r_multi_drained_def queue_ok_def queue_owed_def)
  have "queue_ok (snd (fold queue_step is c))" using bag3.ok_run [OF ok, of "is"] by simp
  with bag3.bag_run [OF ok, of "is"] fifo3.serve_run [OF ok, of "is"] show ?thesis
    unfolding Let_def queue_ok_def gather_concat e by simp
qed

lemma queued_reads_served_witness:
  "s3_r_multi_drained (snd (rest_port, rest_queue)) \<and>
   length (gather queue_step queue_ar_seen [(True, False, read_out), (False, True, rest_out)] (rest_port, rest_queue)) = 1 \<and>
   mset (gather queue_step queue_r_seen [(True, False, read_out), (False, True, rest_out)] (rest_port, rest_queue)) +
     mset (queue_owed Map.empty (snd (fold queue_step [(True, False, read_out), (False, True, rest_out)] (rest_port, rest_queue)))) =
     {#(5, zero128, True)#}"
proof -
  let ?is = "[(True, False, read_out), (False, True, rest_out)]"
  have r: "s3_r_multi_drained (snd (rest_port, rest_queue))" by (simp add: rest_defs s3_r_multi_drained_def)
  have a: "gather queue_step queue_ar_seen ?is (rest_port, rest_queue) = [\<lparr> ae_id = 5, ae_addr = 0x100, ae_len = 0 \<rparr>]" by code_simp
  show ?thesis using queued_reads_served [OF r, of ?is] r unfolding Let_def a
    by (simp add: entry_beats_def rest_port_def mem_read_def)
qed

text \<open>
  C16 The read scoreboard of a master is exact.  Over any sampled cycles it records the words taken, cut at the last marks; every last mark
  is counted exactly once as completed, as an expected error or as a failure; and it reports no failure if and only if the answers at
  the last marks are, in order, the first of the answers the bench had announced.
\<close>

theorem read_scoreboard_exact:
  "(let (m', n) = score_reads es (m, 0) in
      r_received m' = r_received m @ fst (cut_bursts es (r_cur m)) \<and> r_cur m' = snd (cut_bursts es (r_cur m)) \<and>
      r_completed m' + r_errors m' + n = r_completed m + r_errors m + length (last_answers es) \<and>
      r_lasts_seen m' = r_lasts_seen m + length (last_answers es) \<and>
      r_expect m' = drop (length (last_answers es)) (r_expect m) \<and>
      (n = 0 \<longleftrightarrow> (\<exists>rest. r_expect m = last_answers es @ rest)))"
proof -
  obtain m' n where s: "score_reads es (m, 0) = (m', n)" by (cases "score_reads es (m, 0)")
  show ?thesis using score_shape [OF s] score_exact [of es m 0] by (simp add: s)
qed

end
