(* ===== verification/Spec2Isabelle.thy ===== *)
theory Spec2Isabelle
  imports Periph_Bridge_Props Scsi_Bridge Rom_Patches_Props Sd_Card_Session Device_Bounds Via1_Props
    Rom_Boot_Selftests Rom_Boot_Watch_Props Rom_Boot_Args_Props Arch_Roundtrip
    L2c_Memory_Props L2c_Requester_Props L2c_Hot_Door_Props L2c_Bench
    Periph_Event_Log_Props Cold_Boot_Props Xbar_Bench_Props
begin

text \<open>
  Verification of the C++ side of the Quadra 700 system-on-chip repository.

  The repository holds a Macintosh Quadra 700 in Verilog and, in C++, the programs that run it under
  Verilator: servers that let the MAME emulator use the Verilog peripherals, a harness that boots the
  original ROM on the simulated processor with C++ stubs for the machine around it, test benches with
  bus masters, memories and cards, and tools that patch the ROM.  The C++ programs are modelled here.
  The Verilated designs are generated by the build and the processor is a submodule outside the sources; both
  are parameters of the models, records of functions that say what their outputs are and how a clock
  changes them, and the theorems hold for every such design.  Random generators are parameters too.

  \<^bold>\<open>Shared\<close>
  \<^item> \<open>Soc_Prelude\<close>: fixed-width integers, big-endian codecs, bitwise extensionality, and the locales
    \<open>step_machine\<close> (operations that keep an invariant), \<open>step_frame\<close> (operations that keep a value),
    \<open>poll_loop\<close> (a counted polling loop) and \<open>byte_store\<close> (byte-addressed storage), which the components
    interpret on their own operations.
  \<^item> \<open>Burst_Service\<close>: the locales \<open>burst_server\<close> (what a port accepts is served in order) and \<open>burst_bag\<close> (nothing
    is lost or made up), used by the data port of the boot harness and by the crossbar slaves.

  \<^bold>\<open>MAME bridges\<close> (\<open>tools/mame_axi_periph_bridge.cpp\<close>, \<open>tools/mame_scsi_bridge.cpp\<close>)
  \<^item> \<open>Bridge_Wire\<close>: the request and response frames, as the bridge and the Python client
    (\<open>tools/mame_rtl_bridge_protocol.py\<close>) pack them, address windows and byte lanes.  Frames round-trip between the two sides.
  \<^item> \<open>Periph_Bridge\<close>, \<open>Periph_Bridge_Props\<close>: pins, clock, AXI reads and writes (\<open>axi_read\<close>, \<open>axi_write\<close>,
    limit 256 turns as in the source), video memory, statistics and the connection loop \<open>serve_conn\<close>.
    Outcome of every transaction, video memory as a byte store, and the connection loop as a refinement
    of serving the byte stream frame by frame, independent of how the socket splits reads and writes.
  \<^item> \<open>Scsi_Bridge\<close>: the TurboSCSI endpoint, its 64-clock transaction and its loop with interrupted calls.

  \<^bold>\<open>ROM patches\<close> (\<open>tb/models/rom_patch_sets.h\<close>, \<open>tools/mame_patch_rom.cpp\<close>, \<open>tools/dump_rom_patches.cpp\<close>)
  \<^item> \<open>Rom_Patches\<close>, \<open>Rom_Patches_Props\<close>: all patch sets, both selector parsers and the three programs.  Every
    set stays inside the ROM; the harness and the MAME patcher give the same image; checksums.

  \<^bold>\<open>SD cards\<close> (\<open>tb/models/sd_card_spi.h\<close>, \<open>tb/tb_cold_boot_support.h\<close>, \<open>tb/tb_cold_boot.cpp\<close>)
  \<^item> \<open>Sd_Card_Spi\<close>, \<open>Sd_Card_Spi_Props\<close>: the card model with overlay, commands, write state machine and pins.
    Well-formedness under any pin sequence, eight clocks of the pins refine one byte exchange, the CRC.
  \<^item> \<open>Sd_Card_Session\<close>: full-duplex sessions on the pins, in which the card answers in every byte time while it
    receives: a block written is read back, streaming reads.
  \<^item> \<open>Cold_Boot\<close>, \<open>Cold_Boot_Props\<close>: the streaming card of the cold-boot bench, response latch, clock, reset, polling and
    waiting loops.  A whole multiple-block session byte for byte, from the image.

  \<^bold>\<open>ROM-boot harness\<close> (\<open>tb/tb_rom_boot.cpp\<close>)
  \<^item> \<open>Rtc_Sidechannel\<close>, \<open>Via1\<close>, \<open>Via1_Props\<close>, \<open>Via1_Adapter\<close>: clock chip, parameter memory and the first interface
    adapter with timers, shift shadow and interrupts.  Bit-banged transactions refine register accesses
    (locale \<open>bit_driver\<close>, interpreted for both ways the source drives a bit); the adapter as an inductive step
    relation with its invariant, the one-way overlay and the exact moment a timer fires.
  \<^item> \<open>Device_Stubs\<close>, \<open>Device_Stubs_Props\<close>: sound, serial, floppy and SCSI stubs, their invariants and round trips.
    \<open>Device_Bounds\<close>: nothing outside the declared sizes of their arrays is read or written (locale
    \<open>bounded_arrays\<close>, interpreted for the four stubs).
  \<^item> \<open>Rom_Boot_Bus\<close>, \<open>Rom_Boot_Bus_Props\<close>, \<open>Rom_Boot_Run\<close>, \<open>Rom_Boot_Selftests\<close>: address map, data and
    instruction ports, the clock, and runs with arbitrary pins of the core: decoding, memory, bursts with stalls, every
    write performed and answered once, the invariant of the whole harness, and the harness's own self tests.  The memory
    behind the ports is a parameter; \<open>mem_contract\<close> states what its documentation promises: storage where it is
    mapped, open bus elsewhere.
  \<^item> \<open>Rom_Boot_Args\<close>, \<open>Rom_Boot_Args_Props\<close>, \<open>Rom_Boot_Watch\<close>, \<open>Rom_Boot_Watch_Props\<close>: value parsers, watch ranges,
    breakpoints, watchdogs and the main loop \<open>boot_loop\<close>.  The loop ends whatever the core does and keeps
    the invariant; the watchdogs stop exactly when they should.
  \<^item> \<open>Checkpoint\<close>, \<open>Checkpoint_Props\<close>: binary checkpoints in their five versions, with the locale \<open>codec\<close> for a
    writer and its reader; round trip and refusal.
  \<^item> \<open>Arch_Text\<close>, \<open>Arch_Text_Props\<close>, \<open>Arch_Checkpoint\<close>, \<open>Arch_Replay\<close>, \<open>Arch_Segments\<close>, \<open>Arch_Replay_Lines\<close>,
    \<open>Arch_Replay_Props\<close>, \<open>Arch_Roundtrip\<close>: textual architectural checkpoints, from draining the pipeline and
    flushing the cache through every printed token to the replay that loads the core again.  What was saved is what
    is loaded, and checkpoints that are not safe to resume are refused.

  \<^bold>\<open>Level-2 cache bench\<close> (\<open>tb/tb_l2c.cpp\<close>)
  \<^item> \<open>L2c_Memory\<close>, \<open>L2c_Memory_Props\<close>: the memory slave behind the cache and the bus monitors.  Reads and writes as
    refinements of the accepted bursts, every queued answer within a bound (locale \<open>responder\<close>, interpreted for read
    beats and write responses), and exactly which payload changes the stability monitor reports.
  \<^item> \<open>L2c_Requester\<close>, \<open>L2c_Requester_Props\<close>: the master with many bursts outstanding.  Identifiers are conserved in every
    reachable state, and a read is assembled from its own beats.
  \<^item> \<open>L2c_Hot_Door\<close>, \<open>L2c_Hot_Door_Props\<close>: the masters of the second port.  The walk of a wrapping burst is the mask
    form of the circuit; the golden memory is the specification of a write.
  \<^item> \<open>L2c_Bench\<close>: one clock of the bench with all its statistics and checks, reset and the waiting helpers.

  \<^bold>\<open>Crossbar bench\<close> (\<open>tb/tb_axi_xbar.cpp\<close>)
  \<^item> \<open>Xbar_Bench\<close>: slave memories, the five slaves with the faults a scenario injects, scoreboards, one cycle, reset and
    the issue helpers.  \<open>Xbar_Memory_Props\<close>: masked writes lane by lane.
  \<^item> \<open>Xbar_Bench_Props\<close>: \<open>burst_server\<close> and \<open>burst_bag\<close>
    interpreted for the response, write and read channels of a slave and for the queued reads.  What the pins
    show determines responses, memory and data; what is written is read back; the scoreboard reports a failure
    exactly when an answer is not the announced one.

  \<^bold>\<open>Peripheral event log\<close> (\<open>tb/periph_event_log.cpp\<close>)
  \<^item> \<open>Periph_Event_Log\<close>, \<open>Periph_Event_Log_Props\<close>: counting tables (locale \<open>entry_table\<close>), capped detail log and
    summary; the log is exact for any sequence of events.

  \<^bold>\<open>Conventions.\<close>  A C++ struct is a record, an enumeration a datatype; integers are words of their width where
  they can wrap and natural numbers where the code only counts.  A process that exits or aborts, a
  parser that fails and a call that returns false are values of a sum or option type.  Process variables are the
  fields of a state record that the operations return.  A loop whose bound the source writes (256 bus turns, 64 SCSI
  clocks, 20000 or 6000 bench clocks, 500 crossbar cycles, 8 reset clocks) recurses on that bound; the main loop of the boot harness recurses on its
  cycle budget, which the source compares with every cycle, and \<open>boot_loop_ends\<close> shows that it is enough.  Loops over
  a socket recurse on what is left to read, with a termination proof.

  \<^bold>\<open>Not modelled.\<close>  The Verilog under \<open>rtl\<close>, which enters as a parameter; the directed scenarios of the test benches,
  whose outcome is the behaviour of that Verilog (the crossbar, level-2 cache and cold-boot benches are modelled up to the helpers
  these scenarios call); the benches of single Verilog modules that only drive pins and compare (memory
  controller bridge, video, sound, network, processor units); console messages, trace and
  waveform files, performance tables; the dispatch over option names in the command lines; Python, Lua and shell tools
  except the frame format of the bridge client; vendored code.
\<close>

end
